(* ===== verification/Prelude.thy ===== *)
theory Prelude
  imports Main "HOL-Library.Word" "HOL-Library.Signed_Division"
begin

text \<open>
  Shared material of the development: the collections the component theories add to, the
  generic facts on the bits of integers, on list updates inside a fixed range and on sequences
  of point updates that the register and trigger-data models use.

  The C type \<^verbatim>\<open>int\<close> is modelled by HOL \<^typ>\<open>int\<close> wherever no operation of the code can leave the
  32-bit range; where it can (a shift into the sign bit) the wrap-around is written out with
  \<open>signed_take_bit 31\<close>.
\<close>

unbundle bit_operations_syntax

named_theorems bit_char \<comment> \<open>bit-level characterisations of the integer routines\<close>
named_theorems layout_eval \<comment> \<open>the definitions a check of a register layout unfolds\<close>
named_theorems adr_defs \<comment> \<open>VME addresses\<close>

section \<open>Bits of integers\<close>

lemma bit_AND_1 [simp]: "bit ((x::int) AND 1) i \<longleftrightarrow> i = 0 \<and> bit x 0"
  by (auto simp: bit_and_iff bit_1_iff)

lemma and_1_cases: "(x::int) AND 1 = (if bit x 0 then 1 else 0)"
  by (simp add: and_one_eq odd_iff_mod_2_eq_one bit_0)

lemma drop_bit_AND_1: "drop_bit i (x::int) AND 1 = (if bit x i then 1 else 0)"
  by (simp add: and_1_cases bit_drop_bit_eq)

lemma bit_if_0_1 [simp]: "bit (if P then 1 else 0 :: int) i \<longleftrightarrow> P \<and> i = 0"
  by (simp add: bit_1_iff)

lemma bit_power2 [simp]: "bit (2 ^ n :: int) i \<longleftrightarrow> i = n"
  by (auto simp: bit_exp_iff)

lemma int_eq_by_bits:
  fixes a b :: int
  assumes "\<And>i. bit a i \<longleftrightarrow> bit b i"
  shows "a = b"
  using assms by (simp add: bit_eq_iff)

lemma nonneg_bound_by_bits:
  fixes a :: int
  assumes "\<And>i. n \<le> i \<Longrightarrow> \<not> bit a i"
  shows "0 \<le> a \<and> a < 2 ^ n"
proof -
  have "take_bit n a = a"
    by (rule int_eq_by_bits) (use assms in \<open>auto simp: bit_take_bit_iff simp flip: not_le\<close>)
  then show ?thesis
    using take_bit_nonnegative[of n a] take_bit_int_less_exp[of n a] by simp
qed

lemma take_bit_range_eq: "0 \<le> (v::int) \<Longrightarrow> v < 2 ^ n \<Longrightarrow> take_bit n v = v"
  by (simp add: take_bit_int_eq_self)

section \<open>Point updates of a range of a list\<close>

text \<open>The loop \<^verbatim>\<open>for (i = 0; i < n; i++) p[lo + i] = g(i)\<close> on a vector.\<close>

fun write_range :: "nat \<Rightarrow> (nat \<Rightarrow> 'a) \<Rightarrow> nat \<Rightarrow> 'a list \<Rightarrow> 'a list" where
  "write_range lo g 0 xs = xs"
| "write_range lo g (Suc n) xs = (write_range lo g n xs)[lo + n := g n]"

lemma length_write_range [simp]: "length (write_range lo g n xs) = length xs"
  by (induction n) auto

lemma nth_write_range:
  "k < length xs \<Longrightarrow>
   write_range lo g n xs ! k = (if lo \<le> k \<and> k < lo + n then g (k - lo) else xs ! k)"
proof (induction n)
  case 0
  then show ?case by auto
next
  case (Suc n)
  then show ?case by (cases "k = lo + n") auto
qed

section \<open>Sequences of point updates of a function\<close>

definition upd_all :: "('k \<Rightarrow> 'v) \<Rightarrow> 'k list \<Rightarrow> ('k \<Rightarrow> 'v) \<Rightarrow> ('k \<Rightarrow> 'v)" where
  "upd_all val ks f = fold (\<lambda>k f. f(k := val k)) ks f"

lemma upd_all_apply: "upd_all val ks f k = (if k \<in> set ks then val k else f k)"
  unfolding upd_all_def by (induction ks arbitrary: f) auto

lemma upd_all_Nil [simp]: "upd_all val [] f = f"
  by (simp add: upd_all_def)

lemma fold_upd_key_other:
  "k \<notin> key ` set bs \<Longrightarrow> fold (\<lambda>b m. m(key b := val b)) bs m k = m k"
  by (induction bs arbitrary: m) auto

lemma fold_upd_key:
  assumes "inj_on key (set bs)" and "b \<in> set bs"
  shows "fold (\<lambda>b m. m(key b := val b)) bs m (key b) = val b"
  using assms
proof (induction bs arbitrary: m)
  case Nil
  then show ?case by simp
next
  case (Cons c bs)
  show ?case
  proof (cases "b \<in> set bs")
    case True
    with Cons show ?thesis by (simp add: inj_on_def)
  next
    case False
    with Cons.prems have "b = c" and "key b \<notin> key ` set bs" by (auto simp: inj_on_def)
    then show ?thesis by (simp add: fold_upd_key_other del: fun_upd_apply) simp
  qed
qed

end
