(* ===== verification/Bits.thy ===== *)
theory Bits
  imports Prelude
begin

text \<open>
  The integer parsing routines of the peripheral-crate library: \<^verbatim>\<open>EMUjtag::int_to_bits\<close>,
  \<^verbatim>\<open>EMUjtag::bits_to_int\<close> (\<^verbatim>\<open>PeripheralCore/src/common/EMUjtag.cc\<close>) and, built on them,
  \<^verbatim>\<open>TMB::InsertValueIntoDataWord\<close>, \<^verbatim>\<open>TMB::ExtractValueFromData\<close> and \<^verbatim>\<open>TMB::makemask\<close>
  (\<^verbatim>\<open>TMB.cc\<close>). The contract the register code relies on is the locale \<open>bit_codec\<close>; it is
  interpreted on the two TMB routines at the end.
\<close>

unbundle bit_operations_syntax

section \<open>Vectors of bits\<close>

definition LSBfirst :: int where
  "LSBfirst = 0"

definition MSBfirst :: int where
  "MSBfirst = 1"

text \<open>\<^verbatim>\<open>int_to_bits(value, length, bits, MsbOrLsb)\<close> overwrites the first \<open>length\<close> slots of the
  vector that starts at \<open>bits\<close>; \<open>at\<close> is the offset of that pointer in the caller's array.\<close>

definition int_to_bits :: "int \<Rightarrow> nat \<Rightarrow> nat \<Rightarrow> int \<Rightarrow> int list \<Rightarrow> int list" where
  "int_to_bits value len at MsbOrLsb vec =
     write_range at
       (\<lambda>ibit. if MsbOrLsb = 0 then drop_bit ibit value AND 1
               else drop_bit (len - ibit - 1) value AND 1) len vec"

text \<open>A shift of a C \<^verbatim>\<open>int\<close>: the result is read back in the 32-bit range.\<close>

definition shl32 :: "int \<Rightarrow> nat \<Rightarrow> int" where
  "shl32 x n = signed_take_bit 31 (push_bit n x)"

fun or_bits :: "(nat \<Rightarrow> int) \<Rightarrow> nat \<Rightarrow> int \<Rightarrow> int" where
  "or_bits g 0 value = value"
| "or_bits g (Suc n) value = or_bits g n value OR shl32 (g n AND 1) n"

definition bits_to_int :: "int list \<Rightarrow> nat \<Rightarrow> int \<Rightarrow> int" where
  "bits_to_int bits len MsbOrLsb =
     (if len > 32 then 0
      else if MsbOrLsb = 0 then or_bits (\<lambda>ibit. bits ! ibit) len 0
      else or_bits (\<lambda>ibit. bits ! (len - ibit - 1)) len 0)"

lemma bit_shl32_bit:
  assumes "n < 32"
  shows "bit (shl32 (x AND 1) n) i \<longleftrightarrow>
           bit x 0 \<and> (if n < 31 then i = n else 31 \<le> i)"
proof -
  have "bit (push_bit n (x AND 1)) j \<longleftrightarrow> bit x 0 \<and> j = n" for j
    by (cases "bit x 0") (simp_all add: and_1_cases)
  with assms show ?thesis
    by (auto simp: shl32_def bit_signed_take_bit_iff min_def simp del: push_bit_and)
qed

lemma bit_or_bits:
  "n \<le> 31 \<Longrightarrow> bit (or_bits g n v) i \<longleftrightarrow> bit v i \<or> (i < n \<and> bit (g i) 0)"
  by (induction n) (auto simp: bit_or_iff bit_shl32_bit less_Suc_eq)

lemma bit_bits_to_int_LSB [bit_char]:
  "n \<le> 31 \<Longrightarrow> bit (bits_to_int bs n LSBfirst) i \<longleftrightarrow> i < n \<and> bit (bs ! i) 0"
  by (simp add: bits_to_int_def LSBfirst_def bit_or_bits)

lemma bit_bits_to_int_MSB [bit_char]:
  "n \<le> 31 \<Longrightarrow> bit (bits_to_int bs n MSBfirst) i \<longleftrightarrow> i < n \<and> bit (bs ! (n - i - 1)) 0"
  by (simp add: bits_to_int_def MSBfirst_def bit_or_bits)

lemma length_int_to_bits [simp]: "length (int_to_bits v n at m xs) = length xs"
  by (simp add: int_to_bits_def)

lemma nth_int_to_bits_LSB:
  "k < length xs \<Longrightarrow>
   int_to_bits v n at LSBfirst xs ! k =
     (if at \<le> k \<and> k < at + n then (if bit v (k - at) then 1 else 0) else xs ! k)"
  by (simp add: int_to_bits_def LSBfirst_def nth_write_range drop_bit_AND_1)

lemma nth_int_to_bits_MSB:
  "k < length xs \<Longrightarrow>
   int_to_bits v n at MSBfirst xs ! k =
     (if at \<le> k \<and> k < at + n then (if bit v (n - (k - at) - 1) then 1 else 0) else xs ! k)"
  by (simp add: int_to_bits_def MSBfirst_def nth_write_range drop_bit_AND_1)

lemma bits_to_int_int_to_bits_LSB:
  assumes "n \<le> 31" and "n \<le> length xs"
  shows "bits_to_int (int_to_bits v n 0 LSBfirst xs) n LSBfirst = take_bit n v"
  by (rule int_eq_by_bits)
    (use assms in \<open>auto simp: bit_char bit_take_bit_iff nth_int_to_bits_LSB\<close>)

lemma bits_to_int_int_to_bits_MSB:
  assumes "n \<le> 31" and "n \<le> length xs"
  shows "bits_to_int (int_to_bits v n 0 MSBfirst xs) n MSBfirst = take_bit n v"
  by (rule int_eq_by_bits)
    (use assms in \<open>auto simp: bit_char bit_take_bit_iff nth_int_to_bits_MSB\<close>)

section \<open>Fields of a 16-bit data word\<close>

definition InsertValueIntoDataWord :: "int \<Rightarrow> nat \<Rightarrow> nat \<Rightarrow> int \<Rightarrow> int" where
  "InsertValueIntoDataWord value hibit lobit data_word =
     (let NUMBER_OF_BITS = 16;
          data_vector = replicate NUMBER_OF_BITS 0;
          data_vector = int_to_bits data_word NUMBER_OF_BITS 0 LSBfirst data_vector;
          size_of_value = Suc hibit - lobit;
          data_vector = int_to_bits value size_of_value lobit LSBfirst data_vector
      in bits_to_int data_vector NUMBER_OF_BITS LSBfirst)"

fun makemask_loop :: "nat \<Rightarrow> int \<Rightarrow> int" where
  "makemask_loop 0 msk = msk"
| "makemask_loop (Suc n) msk = makemask_loop n (push_bit 1 msk OR 1)"

text \<open>The loop of \<^verbatim>\<open>makemask\<close> runs once for every \<open>bit\<close> from \<open>bitlo\<close> to \<open>bithi\<close>.\<close>

definition makemask :: "nat \<Rightarrow> nat \<Rightarrow> int" where
  "makemask bitlo bithi = makemask_loop (Suc bithi - bitlo) 0"

definition ExtractValueFromData :: "int \<Rightarrow> nat \<Rightarrow> nat \<Rightarrow> int" where
  "ExtractValueFromData data bitlo bithi = drop_bit bitlo data AND makemask bitlo bithi"

lemma bit_Insert [bit_char]:
  "bit (InsertValueIntoDataWord v hi lo w) i \<longleftrightarrow>
     i < 16 \<and> (if lo \<le> i \<and> i \<le> hi then bit v (i - lo) else bit w i)"
proof (cases "i < 16")
  case True
  then show ?thesis
    by (auto simp: InsertValueIntoDataWord_def Let_def bit_char nth_int_to_bits_LSB)
next
  case False
  then show ?thesis
    by (simp add: InsertValueIntoDataWord_def Let_def bit_char)
qed

lemma makemask_loop_mask: "makemask_loop n (mask k) = mask (k + n)"
proof (induction n arbitrary: k)
  case 0
  then show ?case by simp
next
  case (Suc n)
  have "push_bit 1 (mask k) OR 1 = (mask (Suc k) :: int)"
    by (simp add: mask_Suc_double or.commute mult.commute)
  with Suc[of "Suc k"] show ?case by simp
qed

lemma makemask_eq: "makemask lo hi = mask (Suc hi - lo)"
  using makemask_loop_mask[of "Suc hi - lo" 0] by (simp add: makemask_def)

lemma Extract_eq: "ExtractValueFromData d lo hi = take_bit (Suc hi - lo) (drop_bit lo d)"
  by (simp add: ExtractValueFromData_def makemask_eq take_bit_eq_mask)

lemma bit_Extract [bit_char]:
  "bit (ExtractValueFromData d lo hi) i \<longleftrightarrow> i < Suc hi - lo \<and> bit d (lo + i)"
  by (simp add: Extract_eq bit_take_bit_iff bit_drop_bit_eq)

lemma Extract_range:
  "0 \<le> ExtractValueFromData d lo hi \<and> ExtractValueFromData d lo hi < 2 ^ (Suc hi - lo)"
  by (simp only: Extract_eq take_bit_nonnegative take_bit_int_less_exp)

lemma Insert_range:
  "0 \<le> InsertValueIntoDataWord v hi lo w \<and> InsertValueIntoDataWord v hi lo w < 2 ^ 16"
  by (rule nonneg_bound_by_bits) (simp add: bit_char)

lemma Extract_Insert_same:
  assumes "hi < 16"
  shows "ExtractValueFromData (InsertValueIntoDataWord v hi lo w) lo hi = take_bit (Suc hi - lo) v"
  by (rule int_eq_by_bits) (use assms in \<open>auto simp: bit_char bit_take_bit_iff\<close>)

lemma Extract_Insert_other:
  assumes "hi' < 16" and "hi < lo' \<or> hi' < lo"
  shows "ExtractValueFromData (InsertValueIntoDataWord v hi lo w) lo' hi' =
         ExtractValueFromData w lo' hi'"
  by (rule int_eq_by_bits) (use assms in \<open>auto simp: bit_char\<close>)

section \<open>The contract of a field codec\<close>

text \<open>What the register code relies on: reading a field just written gives the value reduced to
  the width of the field, writing one field leaves the disjoint ones alone, and a word built by
  insertions fits in 16 bits.\<close>

locale bit_codec =
  fixes ins :: "int \<Rightarrow> nat \<Rightarrow> nat \<Rightarrow> int \<Rightarrow> int"
    and ext :: "int \<Rightarrow> nat \<Rightarrow> nat \<Rightarrow> int"
  assumes ext_ins_same: "hi < 16 \<Longrightarrow> ext (ins v hi lo w) lo hi = take_bit (Suc hi - lo) v"
    and ext_ins_other:
      "hi' < 16 \<Longrightarrow> hi < lo' \<or> hi' < lo \<Longrightarrow> ext (ins v hi lo w) lo' hi' = ext w lo' hi'"
    and ins_range: "0 \<le> ins v hi lo w \<and> ins v hi lo w < 2 ^ 16"
    and ext_zero: "ext 0 lo hi = 0"
begin

lemma ext_fold_other:
  assumes "hi' < 16" and "\<And>f. f \<in> set fs \<Longrightarrow> hi f < lo' \<or> hi' < lo f"
  shows "ext (fold (\<lambda>f w. ins (v f) (hi f) (lo f) w) fs w) lo' hi' = ext w lo' hi'"
  using assms(2)
proof (induction fs arbitrary: w)
  case Nil
  then show ?case by simp
next
  case (Cons f fs)
  then have "ext (ins (v f) (hi f) (lo f) w) lo' hi' = ext w lo' hi'"
    by (intro ext_ins_other assms(1)) simp
  with Cons show ?case by simp
qed

lemma ext_fold_same:
  assumes "f \<in> set fs" and "sorted_wrt (\<lambda>f g. hi f < lo g \<or> hi g < lo f) fs"
    and "\<And>g. g \<in> set fs \<Longrightarrow> hi g < 16"
  shows "ext (fold (\<lambda>f w. ins (v f) (hi f) (lo f) w) fs w) (lo f) (hi f) =
         take_bit (Suc (hi f) - lo f) (v f)"
  using assms
proof (induction fs arbitrary: w)
  case Nil
  then show ?case by simp
next
  case (Cons g fs)
  show ?case
  proof (cases "f \<in> set fs")
    case True
    with Cons show ?thesis by simp
  next
    case False
    with Cons.prems have fg: "f = g" by simp
    have "ext (fold (\<lambda>f w. ins (v f) (hi f) (lo f) w) fs (ins (v g) (hi g) (lo g) w)) (lo g) (hi g) =
          ext (ins (v g) (hi g) (lo g) w) (lo g) (hi g)"
      by (rule ext_fold_other) (use Cons.prems in auto)
    also have "\<dots> = take_bit (Suc (hi g) - lo g) (v g)"
      by (rule ext_ins_same) (use Cons.prems in simp)
    finally show ?thesis by (simp add: fg)
  qed
qed

lemma fold_range:
  assumes "0 \<le> w" and "w < 2 ^ 16"
  shows "0 \<le> fold (\<lambda>f w. ins (v f) (hi f) (lo f) w) fs w \<and>
         fold (\<lambda>f w. ins (v f) (hi f) (lo f) w) fs w < 2 ^ 16"
  using assms
proof (induction fs arbitrary: w)
  case Nil
  then show ?case by simp
next
  case (Cons f fs)
  show ?case
    using Cons.IH[of "ins (v f) (hi f) (lo f) w"] ins_range[of "v f" "hi f" "lo f" w] by simp
qed

end

interpretation tmb_bits: bit_codec InsertValueIntoDataWord ExtractValueFromData
proof unfold_locales
  show "ExtractValueFromData 0 lo hi = 0" for lo hi
    by (simp add: Extract_eq)
qed (rule Extract_Insert_same Extract_Insert_other Insert_range; assumption?)+

end
