(* ===== verification/TMB_Constants.thy ===== *)
theory TMB_Constants
  imports Prelude
begin

text \<open>
  The constants of \<^verbatim>\<open>PeripheralCore/include/emu/pc/TMB_constants.h\<close> that the register code of the
  TMB uses: the VME addresses, the position of every field (\<^verbatim>\<open>X_vmereg\<close>, \<^verbatim>\<open>X_bitlo\<close>, \<^verbatim>\<open>X_bithi\<close>),
  the defaults (\<^verbatim>\<open>X_default\<close>) and the values expected by the status checks (\<^verbatim>\<open>X_expected\<close>).
  A field is the triple of its constants. No two fields have the same triple, so the field is also
  the name under which the register model keeps the member variables \<^verbatim>\<open>X_\<close> and \<^verbatim>\<open>read_X_\<close>.
  The nine fields of the digital phase shifters have no \<^verbatim>\<open>X_vmereg\<close> in the header because all nine
  phaser registers share them; they carry the address of the first one.
\<close>

section \<open>VME addresses\<close>

definition tmb_adr_boot :: int where [adr_defs]:
  "tmb_adr_boot = 0x700000"

definition vme_idreg0_adr :: int where [adr_defs]:
  "vme_idreg0_adr = 0"

definition vme_idreg1_adr :: int where [adr_defs]:
  "vme_idreg1_adr = 2"

definition vme_idreg2_adr :: int where [adr_defs]:
  "vme_idreg2_adr = 4"

definition vme_idreg3_adr :: int where [adr_defs]:
  "vme_idreg3_adr = 6"

definition vme_loopbk_adr :: int where [adr_defs]:
  "vme_loopbk_adr = 0xE"

definition vme_usr_jtag_adr :: int where [adr_defs]:
  "vme_usr_jtag_adr = 0x10"

definition vme_dddsm_adr :: int where [adr_defs]:
  "vme_dddsm_adr = 0x14"

definition vme_ddd0_adr :: int where [adr_defs]:
  "vme_ddd0_adr = 0x16"

definition vme_ddd1_adr :: int where [adr_defs]:
  "vme_ddd1_adr = 0x18"

definition vme_ddd2_adr :: int where [adr_defs]:
  "vme_ddd2_adr = 0x1A"

definition vme_dddoe_adr :: int where [adr_defs]:
  "vme_dddoe_adr = 0x1C"

definition vme_ratctrl_adr :: int where [adr_defs]:
  "vme_ratctrl_adr = 0x1E"

definition vme_adc_adr :: int where [adr_defs]:
  "vme_adc_adr = 0x24"

definition ccb_cfg_adr :: int where [adr_defs]:
  "ccb_cfg_adr = 0x2A"

definition ccb_trig_adr :: int where [adr_defs]:
  "ccb_trig_adr = 0x2C"

definition alct_cfg_adr :: int where [adr_defs]:
  "alct_cfg_adr = 0x30"

definition alct_inj_adr :: int where [adr_defs]:
  "alct_inj_adr = 0x32"

definition alct_stat_adr :: int where [adr_defs]:
  "alct_stat_adr = 0x38"

definition alct_alct0_adr :: int where [adr_defs]:
  "alct_alct0_adr = 0x3A"

definition alct_alct1_adr :: int where [adr_defs]:
  "alct_alct1_adr = 0x3C"

definition alct_fifo_adr :: int where [adr_defs]:
  "alct_fifo_adr = 0x3E"

definition cfeb_inj_adr :: int where [adr_defs]:
  "cfeb_inj_adr = 0x42"

definition hcm001_adr :: int where [adr_defs]:
  "hcm001_adr = 0x4A"

definition hcm023_adr :: int where [adr_defs]:
  "hcm023_adr = 0x4C"

definition hcm045_adr :: int where [adr_defs]:
  "hcm045_adr = 0x4E"

definition hcm101_adr :: int where [adr_defs]:
  "hcm101_adr = 0x50"

definition hcm123_adr :: int where [adr_defs]:
  "hcm123_adr = 0x52"

definition hcm145_adr :: int where [adr_defs]:
  "hcm145_adr = 0x54"

definition hcm201_adr :: int where [adr_defs]:
  "hcm201_adr = 0x56"

definition hcm223_adr :: int where [adr_defs]:
  "hcm223_adr = 0x58"

definition hcm245_adr :: int where [adr_defs]:
  "hcm245_adr = 0x5A"

definition hcm301_adr :: int where [adr_defs]:
  "hcm301_adr = 0x5C"

definition hcm323_adr :: int where [adr_defs]:
  "hcm323_adr = 0x5E"

definition hcm345_adr :: int where [adr_defs]:
  "hcm345_adr = 0x60"

definition hcm401_adr :: int where [adr_defs]:
  "hcm401_adr = 0x62"

definition hcm423_adr :: int where [adr_defs]:
  "hcm423_adr = 0x64"

definition hcm445_adr :: int where [adr_defs]:
  "hcm445_adr = 0x66"

definition seq_trig_en_adr :: int where [adr_defs]:
  "seq_trig_en_adr = 0x68"

definition seq_trig_dly0_adr :: int where [adr_defs]:
  "seq_trig_dly0_adr = 0x6A"

definition seq_trig_dly1_adr :: int where [adr_defs]:
  "seq_trig_dly1_adr = 0x6C"

definition seq_id_adr :: int where [adr_defs]:
  "seq_id_adr = 0x6E"

definition seq_clct_adr :: int where [adr_defs]:
  "seq_clct_adr = 0x70"

definition seq_fifo_adr :: int where [adr_defs]:
  "seq_fifo_adr = 0x72"

definition seq_l1a_adr :: int where [adr_defs]:
  "seq_l1a_adr = 0x74"

definition seq_offset_adr :: int where [adr_defs]:
  "seq_offset_adr = 0x76"

definition seq_clct0_adr :: int where [adr_defs]:
  "seq_clct0_adr = 0x78"

definition seq_clct1_adr :: int where [adr_defs]:
  "seq_clct1_adr = 0x7A"

definition tmb_trig_adr :: int where [adr_defs]:
  "tmb_trig_adr = 0x86"

definition scp_ctrl_adr :: int where [adr_defs]:
  "scp_ctrl_adr = 0x98"

definition alctfifo1_adr :: int where [adr_defs]:
  "alctfifo1_adr = 0xA8"

definition alctfifo2_adr :: int where [adr_defs]:
  "alctfifo2_adr = 0xAA"

definition seqmod_adr :: int where [adr_defs]:
  "seqmod_adr = 0xAC"

definition seqsm_adr :: int where [adr_defs]:
  "seqsm_adr = 0xAE"

definition seq_clctm_adr :: int where [adr_defs]:
  "seq_clctm_adr = 0xB0"

definition tmbtim_adr :: int where [adr_defs]:
  "tmbtim_adr = 0xB2"

definition rpc_cfg_adr :: int where [adr_defs]:
  "rpc_cfg_adr = 0xB6"

definition rpc_raw_delay_adr :: int where [adr_defs]:
  "rpc_raw_delay_adr = 0xBA"

definition rpc_inj_adr :: int where [adr_defs]:
  "rpc_inj_adr = 0xBC"

definition rpc_tbins_adr :: int where [adr_defs]:
  "rpc_tbins_adr = 0xC4"

definition bx0_delay_adr :: int where [adr_defs]:
  "bx0_delay_adr = 0xCA"

definition non_trig_readout_adr :: int where [adr_defs]:
  "non_trig_readout_adr = 0xCC"

definition jtag_sm_ctrl_adr :: int where [adr_defs]:
  "jtag_sm_ctrl_adr = 0xD4"

definition jtag_sm_wdcnt_adr :: int where [adr_defs]:
  "jtag_sm_wdcnt_adr = 0xD6"

definition jtag_sm_cksum_adr :: int where [adr_defs]:
  "jtag_sm_cksum_adr = 0xD8"

definition vme_sm_ctrl_adr :: int where [adr_defs]:
  "vme_sm_ctrl_adr = 0xDA"

definition vme_sm_wdcnt_adr :: int where [adr_defs]:
  "vme_sm_wdcnt_adr = 0xDC"

definition vme_sm_cksum_adr :: int where [adr_defs]:
  "vme_sm_cksum_adr = 0xDE"

definition num_vme_sm_adr_adr :: int where [adr_defs]:
  "num_vme_sm_adr_adr = 0xE0"

definition rat_3d_delays_adr :: int where [adr_defs]:
  "rat_3d_delays_adr = 0xE6"

definition tmb_stat_adr :: int where [adr_defs]:
  "tmb_stat_adr = 0xEA"

definition layer_trg_mode_adr :: int where [adr_defs]:
  "layer_trg_mode_adr = 0xF0"

definition pattern_find_pretrg_adr :: int where [adr_defs]:
  "pattern_find_pretrg_adr = 0xF4"

definition clct_separation_adr :: int where [adr_defs]:
  "clct_separation_adr = 0xF6"

definition clock_status_adr :: int where [adr_defs]:
  "clock_status_adr = 0xFC"

definition l1a_lookback_adr :: int where [adr_defs]:
  "l1a_lookback_adr = 0x100"

definition alct_sync_ctrl_adr :: int where [adr_defs]:
  "alct_sync_ctrl_adr = 0x104"

definition alct_sync_txdata_1st_adr :: int where [adr_defs]:
  "alct_sync_txdata_1st_adr = 0x106"

definition alct_sync_txdata_2nd_adr :: int where [adr_defs]:
  "alct_sync_txdata_2nd_adr = 0x108"

definition miniscope_adr :: int where [adr_defs]:
  "miniscope_adr = 0x10C"

definition phaser_alct_rxd_adr :: int where [adr_defs]:
  "phaser_alct_rxd_adr = 0x10E"

definition phaser_alct_txd_adr :: int where [adr_defs]:
  "phaser_alct_txd_adr = 0x110"

definition phaser_cfeb0_rxd_adr :: int where [adr_defs]:
  "phaser_cfeb0_rxd_adr = 0x112"

definition phaser_cfeb1_rxd_adr :: int where [adr_defs]:
  "phaser_cfeb1_rxd_adr = 0x114"

definition phaser_cfeb2_rxd_adr :: int where [adr_defs]:
  "phaser_cfeb2_rxd_adr = 0x116"

definition phaser_cfeb3_rxd_adr :: int where [adr_defs]:
  "phaser_cfeb3_rxd_adr = 0x118"

definition phaser_cfeb4_rxd_adr :: int where [adr_defs]:
  "phaser_cfeb4_rxd_adr = 0x11A"

definition cfeb0_3_interstage_adr :: int where [adr_defs]:
  "cfeb0_3_interstage_adr = 0x11C"

definition cfeb4_interstage_adr :: int where [adr_defs]:
  "cfeb4_interstage_adr = 0x11E"

definition sync_err_control_adr :: int where [adr_defs]:
  "sync_err_control_adr = 0x120"

definition cfeb_badbits_ctrl_adr :: int where [adr_defs]:
  "cfeb_badbits_ctrl_adr = 0x122"

definition cfeb_badbits_timer_adr :: int where [adr_defs]:
  "cfeb_badbits_timer_adr = 0x124"

definition badbits001_adr :: int where [adr_defs]:
  "badbits001_adr = 0x126"

definition badbits023_adr :: int where [adr_defs]:
  "badbits023_adr = 0x128"

definition badbits045_adr :: int where [adr_defs]:
  "badbits045_adr = 0x12A"

definition badbits101_adr :: int where [adr_defs]:
  "badbits101_adr = 0x12C"

definition badbits123_adr :: int where [adr_defs]:
  "badbits123_adr = 0x12E"

definition badbits145_adr :: int where [adr_defs]:
  "badbits145_adr = 0x130"

definition badbits201_adr :: int where [adr_defs]:
  "badbits201_adr = 0x132"

definition badbits223_adr :: int where [adr_defs]:
  "badbits223_adr = 0x134"

definition badbits245_adr :: int where [adr_defs]:
  "badbits245_adr = 0x136"

definition badbits301_adr :: int where [adr_defs]:
  "badbits301_adr = 0x138"

definition badbits323_adr :: int where [adr_defs]:
  "badbits323_adr = 0x13A"

definition badbits345_adr :: int where [adr_defs]:
  "badbits345_adr = 0x13C"

definition badbits401_adr :: int where [adr_defs]:
  "badbits401_adr = 0x13E"

definition badbits423_adr :: int where [adr_defs]:
  "badbits423_adr = 0x140"

definition badbits445_adr :: int where [adr_defs]:
  "badbits445_adr = 0x142"

definition phaser_cfeb5_rxd_adr :: int where [adr_defs]:
  "phaser_cfeb5_rxd_adr = 0x16A"

definition phaser_cfeb6_rxd_adr :: int where [adr_defs]:
  "phaser_cfeb6_rxd_adr = 0x16C"

definition extend_adr :: int where [adr_defs]:
  "extend_adr = 0x17A"

section \<open>Fields of the registers\<close>

datatype bitfield = Bitfield (vmereg: int) (bitlo: nat) (bithi: nat)

named_theorems field_defs \<comment> \<open>the fields of the registers\<close>

definition boot_tdi :: bitfield where [field_defs]:
  "boot_tdi = Bitfield tmb_adr_boot 0 0"

definition boot_tms :: bitfield where [field_defs]:
  "boot_tms = Bitfield tmb_adr_boot 1 1"

definition boot_tck :: bitfield where [field_defs]:
  "boot_tck = Bitfield tmb_adr_boot 2 2"

definition boot_jtag_chain_select :: bitfield where [field_defs]:
  "boot_jtag_chain_select = Bitfield tmb_adr_boot 3 6"

definition boot_control_jtag_chain :: bitfield where [field_defs]:
  "boot_control_jtag_chain = Bitfield tmb_adr_boot 7 7"

definition boot_hard_reset_alct :: bitfield where [field_defs]:
  "boot_hard_reset_alct = Bitfield tmb_adr_boot 8 8"

definition boot_hard_reset_tmb :: bitfield where [field_defs]:
  "boot_hard_reset_tmb = Bitfield tmb_adr_boot 9 9"

definition boot_disable_hard_reset_alct :: bitfield where [field_defs]:
  "boot_disable_hard_reset_alct = Bitfield tmb_adr_boot 10 10"

definition boot_disable_VME :: bitfield where [field_defs]:
  "boot_disable_VME = Bitfield tmb_adr_boot 11 11"

definition boot_disable_mezz_clock :: bitfield where [field_defs]:
  "boot_disable_mezz_clock = Bitfield tmb_adr_boot 12 12"

definition boot_hard_reset_rat :: bitfield where [field_defs]:
  "boot_hard_reset_rat = Bitfield tmb_adr_boot 13 13"

definition boot_vme_ready :: bitfield where [field_defs]:
  "boot_vme_ready = Bitfield tmb_adr_boot 14 14"

definition boot_tdo :: bitfield where [field_defs]:
  "boot_tdo = Bitfield tmb_adr_boot 15 15"

definition cfeb_oe :: bitfield where [field_defs]:
  "cfeb_oe = Bitfield vme_loopbk_adr 0 0"

definition alct_loop :: bitfield where [field_defs]:
  "alct_loop = Bitfield vme_loopbk_adr 1 1"

definition enable_alct_rx :: bitfield where [field_defs]:
  "enable_alct_rx = Bitfield vme_loopbk_adr 2 2"

definition enable_alct_tx :: bitfield where [field_defs]:
  "enable_alct_tx = Bitfield vme_loopbk_adr 3 3"

definition rpc_loop_rat :: bitfield where [field_defs]:
  "rpc_loop_rat = Bitfield vme_loopbk_adr 4 4"

definition rpc_loop_tmb :: bitfield where [field_defs]:
  "rpc_loop_tmb = Bitfield vme_loopbk_adr 5 5"

definition dmb_loop :: bitfield where [field_defs]:
  "dmb_loop = Bitfield vme_loopbk_adr 6 6"

definition dmb_oe :: bitfield where [field_defs]:
  "dmb_oe = Bitfield vme_loopbk_adr 7 7"

definition gtl_loop :: bitfield where [field_defs]:
  "gtl_loop = Bitfield vme_loopbk_adr 8 8"

definition gtl_oe :: bitfield where [field_defs]:
  "gtl_oe = Bitfield vme_loopbk_adr 9 9"

definition ddd_state_machine_start :: bitfield where [field_defs]:
  "ddd_state_machine_start = Bitfield vme_dddsm_adr 0 0"

definition ddd_state_machine_manual :: bitfield where [field_defs]:
  "ddd_state_machine_manual = Bitfield vme_dddsm_adr 1 1"

definition ddd_state_machine_latch :: bitfield where [field_defs]:
  "ddd_state_machine_latch = Bitfield vme_dddsm_adr 2 2"

definition ddd_state_machine_serial_in :: bitfield where [field_defs]:
  "ddd_state_machine_serial_in = Bitfield vme_dddsm_adr 3 3"

definition ddd_state_machine_serial_out :: bitfield where [field_defs]:
  "ddd_state_machine_serial_out = Bitfield vme_dddsm_adr 4 4"

definition ddd_state_machine_autostart :: bitfield where [field_defs]:
  "ddd_state_machine_autostart = Bitfield vme_dddsm_adr 5 5"

definition ddd_state_machine_busy :: bitfield where [field_defs]:
  "ddd_state_machine_busy = Bitfield vme_dddsm_adr 6 6"

definition ddd_state_machine_verify_ok :: bitfield where [field_defs]:
  "ddd_state_machine_verify_ok = Bitfield vme_dddsm_adr 7 7"

definition ddd_state_machine_clock0_lock :: bitfield where [field_defs]:
  "ddd_state_machine_clock0_lock = Bitfield vme_dddsm_adr 8 8"

definition ddd_state_machine_clock0d_lock :: bitfield where [field_defs]:
  "ddd_state_machine_clock0d_lock = Bitfield vme_dddsm_adr 9 9"

definition ddd_state_machine_clock1_lock :: bitfield where [field_defs]:
  "ddd_state_machine_clock1_lock = Bitfield vme_dddsm_adr 10 10"

definition ddd_state_machine_clock_alct_lock :: bitfield where [field_defs]:
  "ddd_state_machine_clock_alct_lock = Bitfield vme_dddsm_adr 11 11"

definition ddd_state_machine_clockd_alct_lock :: bitfield where [field_defs]:
  "ddd_state_machine_clockd_alct_lock = Bitfield vme_dddsm_adr 12 12"

definition ddd_state_machine_clock_cfeb_lock :: bitfield where [field_defs]:
  "ddd_state_machine_clock_cfeb_lock = Bitfield vme_dddsm_adr 13 13"

definition ddd_state_machine_clock_dcc_lock :: bitfield where [field_defs]:
  "ddd_state_machine_clock_dcc_lock = Bitfield vme_dddsm_adr 14 14"

definition ddd_state_machine_clock_rpc_lock :: bitfield where [field_defs]:
  "ddd_state_machine_clock_rpc_lock = Bitfield vme_dddsm_adr 15 15"

definition alct_tof_delay :: bitfield where [field_defs]:
  "alct_tof_delay = Bitfield vme_ddd0_adr 0 3"

definition dmb_tx_delay :: bitfield where [field_defs]:
  "dmb_tx_delay = Bitfield vme_ddd0_adr 8 11"

definition rat_tmb_delay :: bitfield where [field_defs]:
  "rat_tmb_delay = Bitfield vme_ddd0_adr 12 15"

definition tmb1_phase :: bitfield where [field_defs]:
  "tmb1_phase = Bitfield vme_ddd1_adr 4 7"

definition cfeb_tof_delay :: bitfield where [field_defs]:
  "cfeb_tof_delay = Bitfield vme_ddd1_adr 8 11"

definition cfeb0_tof_delay :: bitfield where [field_defs]:
  "cfeb0_tof_delay = Bitfield vme_ddd1_adr 12 15"

definition cfeb1_tof_delay :: bitfield where [field_defs]:
  "cfeb1_tof_delay = Bitfield vme_ddd2_adr 0 3"

definition cfeb2_tof_delay :: bitfield where [field_defs]:
  "cfeb2_tof_delay = Bitfield vme_ddd2_adr 4 7"

definition cfeb3_tof_delay :: bitfield where [field_defs]:
  "cfeb3_tof_delay = Bitfield vme_ddd2_adr 8 11"

definition cfeb4_tof_delay :: bitfield where [field_defs]:
  "cfeb4_tof_delay = Bitfield vme_ddd2_adr 12 15"

definition rpc_sync :: bitfield where [field_defs]:
  "rpc_sync = Bitfield vme_ratctrl_adr 0 0"

definition shift_rpc :: bitfield where [field_defs]:
  "shift_rpc = Bitfield vme_ratctrl_adr 1 1"

definition rat_dsn_en :: bitfield where [field_defs]:
  "rat_dsn_en = Bitfield vme_ratctrl_adr 4 4"

definition adc_vstat_5p0v :: bitfield where [field_defs]:
  "adc_vstat_5p0v = Bitfield vme_adc_adr 0 0"

definition adc_vstat_3p3v :: bitfield where [field_defs]:
  "adc_vstat_3p3v = Bitfield vme_adc_adr 1 1"

definition adc_vstat_1p8v :: bitfield where [field_defs]:
  "adc_vstat_1p8v = Bitfield vme_adc_adr 2 2"

definition adc_vstat_1p5v :: bitfield where [field_defs]:
  "adc_vstat_1p5v = Bitfield vme_adc_adr 3 3"

definition temp_not_critical :: bitfield where [field_defs]:
  "temp_not_critical = Bitfield vme_adc_adr 4 4"

definition voltage_adc_data_out :: bitfield where [field_defs]:
  "voltage_adc_data_out = Bitfield vme_adc_adr 5 5"

definition voltage_adc_serial_clock :: bitfield where [field_defs]:
  "voltage_adc_serial_clock = Bitfield vme_adc_adr 6 6"

definition voltage_adc_data_in :: bitfield where [field_defs]:
  "voltage_adc_data_in = Bitfield vme_adc_adr 7 7"

definition voltage_adc_chip_select :: bitfield where [field_defs]:
  "voltage_adc_chip_select = Bitfield vme_adc_adr 8 8"

definition temperature_adc_serial_clock :: bitfield where [field_defs]:
  "temperature_adc_serial_clock = Bitfield vme_adc_adr 9 9"

definition temperature_adc_serial_data :: bitfield where [field_defs]:
  "temperature_adc_serial_data = Bitfield vme_adc_adr 10 10"

definition ignore_ccb_rx :: bitfield where [field_defs]:
  "ignore_ccb_rx = Bitfield ccb_cfg_adr 0 0"

definition disable_ccb_tx :: bitfield where [field_defs]:
  "disable_ccb_tx = Bitfield ccb_cfg_adr 1 1"

definition enable_internal_l1a :: bitfield where [field_defs]:
  "enable_internal_l1a = Bitfield ccb_cfg_adr 2 2"

definition enable_alctclct_status_to_ccb :: bitfield where [field_defs]:
  "enable_alctclct_status_to_ccb = Bitfield ccb_cfg_adr 3 3"

definition enable_alct_status_to_ccb :: bitfield where [field_defs]:
  "enable_alct_status_to_ccb = Bitfield ccb_cfg_adr 4 4"

definition enable_clct_status_to_ccb :: bitfield where [field_defs]:
  "enable_clct_status_to_ccb = Bitfield ccb_cfg_adr 5 5"

definition fire_l1a_oneshot :: bitfield where [field_defs]:
  "fire_l1a_oneshot = Bitfield ccb_cfg_adr 6 6"

definition alct_ext_trig_l1aen :: bitfield where [field_defs]:
  "alct_ext_trig_l1aen = Bitfield ccb_trig_adr 0 0"

definition clct_ext_trig_l1aen :: bitfield where [field_defs]:
  "clct_ext_trig_l1aen = Bitfield ccb_trig_adr 1 1"

definition request_l1a :: bitfield where [field_defs]:
  "request_l1a = Bitfield ccb_trig_adr 2 2"

definition alct_ext_trig_vme :: bitfield where [field_defs]:
  "alct_ext_trig_vme = Bitfield ccb_trig_adr 3 3"

definition clct_ext_trig_vme :: bitfield where [field_defs]:
  "clct_ext_trig_vme = Bitfield ccb_trig_adr 4 4"

definition ext_trig_both :: bitfield where [field_defs]:
  "ext_trig_both = Bitfield ccb_trig_adr 5 5"

definition ccb_allow_bypass :: bitfield where [field_defs]:
  "ccb_allow_bypass = Bitfield ccb_trig_adr 6 6"

definition ignore_ccb_startstop :: bitfield where [field_defs]:
  "ignore_ccb_startstop = Bitfield ccb_trig_adr 7 7"

definition internal_l1a_delay_vme :: bitfield where [field_defs]:
  "internal_l1a_delay_vme = Bitfield ccb_trig_adr 8 15"

definition cfg_alct_ext_trig_en :: bitfield where [field_defs]:
  "cfg_alct_ext_trig_en = Bitfield alct_cfg_adr 0 0"

definition cfg_alct_ext_inject_en :: bitfield where [field_defs]:
  "cfg_alct_ext_inject_en = Bitfield alct_cfg_adr 1 1"

definition cfg_alct_ext_trig :: bitfield where [field_defs]:
  "cfg_alct_ext_trig = Bitfield alct_cfg_adr 2 2"

definition cfg_alct_ext_inject :: bitfield where [field_defs]:
  "cfg_alct_ext_inject = Bitfield alct_cfg_adr 3 3"

definition alct_seq_cmd :: bitfield where [field_defs]:
  "alct_seq_cmd = Bitfield alct_cfg_adr 4 7"

definition alct_clock_en_use_ccb :: bitfield where [field_defs]:
  "alct_clock_en_use_ccb = Bitfield alct_cfg_adr 8 8"

definition alct_clock_en_use_vme :: bitfield where [field_defs]:
  "alct_clock_en_use_vme = Bitfield alct_cfg_adr 9 9"

definition alct_muonic :: bitfield where [field_defs]:
  "alct_muonic = Bitfield alct_cfg_adr 10 10"

definition cfeb_muonic :: bitfield where [field_defs]:
  "cfeb_muonic = Bitfield alct_cfg_adr 11 11"

definition alct_clear :: bitfield where [field_defs]:
  "alct_clear = Bitfield alct_inj_adr 0 0"

definition alct_inject_mux :: bitfield where [field_defs]:
  "alct_inject_mux = Bitfield alct_inj_adr 1 1"

definition alct_sync_clct :: bitfield where [field_defs]:
  "alct_sync_clct = Bitfield alct_inj_adr 2 2"

definition alct_inj_delay :: bitfield where [field_defs]:
  "alct_inj_delay = Bitfield alct_inj_adr 3 7"

definition alct_cfg_done :: bitfield where [field_defs]:
  "alct_cfg_done = Bitfield alct_stat_adr 0 0"

definition alct_ecc_en :: bitfield where [field_defs]:
  "alct_ecc_en = Bitfield alct_stat_adr 1 1"

definition alct_ecc_err_blank :: bitfield where [field_defs]:
  "alct_ecc_err_blank = Bitfield alct_stat_adr 2 2"

definition alct_sync_ecc_err :: bitfield where [field_defs]:
  "alct_sync_ecc_err = Bitfield alct_stat_adr 3 4"

definition alct_txdata_delay :: bitfield where [field_defs]:
  "alct_txdata_delay = Bitfield alct_stat_adr 12 15"

definition alct0_valid :: bitfield where [field_defs]:
  "alct0_valid = Bitfield alct_alct0_adr 0 0"

definition alct0_quality :: bitfield where [field_defs]:
  "alct0_quality = Bitfield alct_alct0_adr 1 2"

definition alct0_amu :: bitfield where [field_defs]:
  "alct0_amu = Bitfield alct_alct0_adr 3 3"

definition alct0_key_wg :: bitfield where [field_defs]:
  "alct0_key_wg = Bitfield alct_alct0_adr 4 10"

definition alct0_bxn :: bitfield where [field_defs]:
  "alct0_bxn = Bitfield alct_alct0_adr 11 12"

definition alct1_valid :: bitfield where [field_defs]:
  "alct1_valid = Bitfield alct_alct1_adr 0 0"

definition alct1_quality :: bitfield where [field_defs]:
  "alct1_quality = Bitfield alct_alct1_adr 1 2"

definition alct1_amu :: bitfield where [field_defs]:
  "alct1_amu = Bitfield alct_alct1_adr 3 3"

definition alct1_key_wg :: bitfield where [field_defs]:
  "alct1_key_wg = Bitfield alct_alct1_adr 4 10"

definition alct1_bxn :: bitfield where [field_defs]:
  "alct1_bxn = Bitfield alct_alct1_adr 11 12"

definition alct_raw_busy :: bitfield where [field_defs]:
  "alct_raw_busy = Bitfield alct_fifo_adr 0 0"

definition alct_raw_done :: bitfield where [field_defs]:
  "alct_raw_done = Bitfield alct_fifo_adr 1 1"

definition alct_raw_word_count :: bitfield where [field_defs]:
  "alct_raw_word_count = Bitfield alct_fifo_adr 2 12"

definition alct_raw_msbs :: bitfield where [field_defs]:
  "alct_raw_msbs = Bitfield alct_fifo_adr 13 14"

definition enableCLCTInputs :: bitfield where [field_defs]:
  "enableCLCTInputs = Bitfield cfeb_inj_adr 0 4"

definition cfeb_ram_sel :: bitfield where [field_defs]:
  "cfeb_ram_sel = Bitfield cfeb_inj_adr 5 9"

definition cfeb_inj_en_sel :: bitfield where [field_defs]:
  "cfeb_inj_en_sel = Bitfield cfeb_inj_adr 10 14"

definition start_pattern_inj :: bitfield where [field_defs]:
  "start_pattern_inj = Bitfield cfeb_inj_adr 15 15"

definition clct_pat_trig_en :: bitfield where [field_defs]:
  "clct_pat_trig_en = Bitfield seq_trig_en_adr 0 0"

definition alct_pat_trig_en :: bitfield where [field_defs]:
  "alct_pat_trig_en = Bitfield seq_trig_en_adr 1 1"

definition match_pat_trig_en :: bitfield where [field_defs]:
  "match_pat_trig_en = Bitfield seq_trig_en_adr 2 2"

definition adb_ext_trig_en :: bitfield where [field_defs]:
  "adb_ext_trig_en = Bitfield seq_trig_en_adr 3 3"

definition dmb_ext_trig_en :: bitfield where [field_defs]:
  "dmb_ext_trig_en = Bitfield seq_trig_en_adr 4 4"

definition clct_ext_trig_en :: bitfield where [field_defs]:
  "clct_ext_trig_en = Bitfield seq_trig_en_adr 5 5"

definition alct_ext_trig_en :: bitfield where [field_defs]:
  "alct_ext_trig_en = Bitfield seq_trig_en_adr 6 6"

definition vme_ext_trig :: bitfield where [field_defs]:
  "vme_ext_trig = Bitfield seq_trig_en_adr 7 7"

definition ext_trig_inject :: bitfield where [field_defs]:
  "ext_trig_inject = Bitfield seq_trig_en_adr 8 8"

definition all_cfeb_active :: bitfield where [field_defs]:
  "all_cfeb_active = Bitfield seq_trig_en_adr 9 9"

definition cfebs_enabled :: bitfield where [field_defs]:
  "cfebs_enabled = Bitfield seq_trig_en_adr 10 14"

definition cfeb_enable_source :: bitfield where [field_defs]:
  "cfeb_enable_source = Bitfield seq_trig_en_adr 15 15"

definition alct_pretrig_width :: bitfield where [field_defs]:
  "alct_pretrig_width = Bitfield seq_trig_dly0_adr 0 3"

definition alct_pretrig_delay :: bitfield where [field_defs]:
  "alct_pretrig_delay = Bitfield seq_trig_dly0_adr 4 7"

definition alct_pattern_delay :: bitfield where [field_defs]:
  "alct_pattern_delay = Bitfield seq_trig_dly0_adr 8 11"

definition adb_ext_trig_delay :: bitfield where [field_defs]:
  "adb_ext_trig_delay = Bitfield seq_trig_dly0_adr 12 15"

definition dmb_ext_trig_delay :: bitfield where [field_defs]:
  "dmb_ext_trig_delay = Bitfield seq_trig_dly1_adr 0 3"

definition clct_ext_trig_delay :: bitfield where [field_defs]:
  "clct_ext_trig_delay = Bitfield seq_trig_dly1_adr 4 7"

definition alct_ext_trig_delay :: bitfield where [field_defs]:
  "alct_ext_trig_delay = Bitfield seq_trig_dly1_adr 8 11"

definition tmb_slot :: bitfield where [field_defs]:
  "tmb_slot = Bitfield seq_id_adr 0 4"

definition csc_id :: bitfield where [field_defs]:
  "csc_id = Bitfield seq_id_adr 5 8"

definition run_id :: bitfield where [field_defs]:
  "run_id = Bitfield seq_id_adr 9 12"

definition triad_persist :: bitfield where [field_defs]:
  "triad_persist = Bitfield seq_clct_adr 0 3"

definition hit_thresh :: bitfield where [field_defs]:
  "hit_thresh = Bitfield seq_clct_adr 4 6"

definition aff_thresh :: bitfield where [field_defs]:
  "aff_thresh = Bitfield seq_clct_adr 7 9"

definition min_hits_pattern :: bitfield where [field_defs]:
  "min_hits_pattern = Bitfield seq_clct_adr 10 12"

definition drift_delay :: bitfield where [field_defs]:
  "drift_delay = Bitfield seq_clct_adr 13 14"

definition pretrigger_halt :: bitfield where [field_defs]:
  "pretrigger_halt = Bitfield seq_clct_adr 15 15"

definition fifo_mode :: bitfield where [field_defs]:
  "fifo_mode = Bitfield seq_fifo_adr 0 2"

definition fifo_tbins :: bitfield where [field_defs]:
  "fifo_tbins = Bitfield seq_fifo_adr 3 7"

definition fifo_pretrig :: bitfield where [field_defs]:
  "fifo_pretrig = Bitfield seq_fifo_adr 8 12"

definition fifo_no_raw_hits :: bitfield where [field_defs]:
  "fifo_no_raw_hits = Bitfield seq_fifo_adr 13 13"

definition cfeb_badbits_readout :: bitfield where [field_defs]:
  "cfeb_badbits_readout = Bitfield seq_fifo_adr 15 15"

definition l1adelay :: bitfield where [field_defs]:
  "l1adelay = Bitfield seq_l1a_adr 0 7"

definition l1a_window_size :: bitfield where [field_defs]:
  "l1a_window_size = Bitfield seq_l1a_adr 8 11"

definition tmb_l1a_internal :: bitfield where [field_defs]:
  "tmb_l1a_internal = Bitfield seq_l1a_adr 12 12"

definition l1a_offset :: bitfield where [field_defs]:
  "l1a_offset = Bitfield seq_offset_adr 0 3"

definition bxn_offset :: bitfield where [field_defs]:
  "bxn_offset = Bitfield seq_offset_adr 4 15"

definition CLCT0_valid :: bitfield where [field_defs]:
  "CLCT0_valid = Bitfield seq_clct0_adr 0 0"

definition CLCT0_nhit :: bitfield where [field_defs]:
  "CLCT0_nhit = Bitfield seq_clct0_adr 1 3"

definition CLCT0_pattern :: bitfield where [field_defs]:
  "CLCT0_pattern = Bitfield seq_clct0_adr 4 7"

definition CLCT0_keyHalfStrip :: bitfield where [field_defs]:
  "CLCT0_keyHalfStrip = Bitfield seq_clct0_adr 8 15"

definition CLCT1_valid :: bitfield where [field_defs]:
  "CLCT1_valid = Bitfield seq_clct1_adr 0 0"

definition CLCT1_nhit :: bitfield where [field_defs]:
  "CLCT1_nhit = Bitfield seq_clct1_adr 1 3"

definition CLCT1_pattern :: bitfield where [field_defs]:
  "CLCT1_pattern = Bitfield seq_clct1_adr 4 7"

definition CLCT1_keyHalfStrip :: bitfield where [field_defs]:
  "CLCT1_keyHalfStrip = Bitfield seq_clct1_adr 8 15"

definition tmb_sync_err_enable :: bitfield where [field_defs]:
  "tmb_sync_err_enable = Bitfield tmb_trig_adr 0 1"

definition tmb_allow_alct :: bitfield where [field_defs]:
  "tmb_allow_alct = Bitfield tmb_trig_adr 2 2"

definition tmb_allow_clct :: bitfield where [field_defs]:
  "tmb_allow_clct = Bitfield tmb_trig_adr 3 3"

definition tmb_allow_match :: bitfield where [field_defs]:
  "tmb_allow_match = Bitfield tmb_trig_adr 4 4"

definition mpc_rx_delay :: bitfield where [field_defs]:
  "mpc_rx_delay = Bitfield tmb_trig_adr 5 8"

definition mpc_accept :: bitfield where [field_defs]:
  "mpc_accept = Bitfield tmb_trig_adr 9 10"

definition mpc_reserved :: bitfield where [field_defs]:
  "mpc_reserved = Bitfield tmb_trig_adr 11 12"

definition mpc_sel_ttc_bx0 :: bitfield where [field_defs]:
  "mpc_sel_ttc_bx0 = Bitfield tmb_trig_adr 13 13"

definition mpc_idle_blank :: bitfield where [field_defs]:
  "mpc_idle_blank = Bitfield tmb_trig_adr 14 14"

definition mpc_output_enable :: bitfield where [field_defs]:
  "mpc_output_enable = Bitfield tmb_trig_adr 15 15"

definition scope_in_readout :: bitfield where [field_defs]:
  "scope_in_readout = Bitfield scp_ctrl_adr 3 3"

definition alct_raw_reset :: bitfield where [field_defs]:
  "alct_raw_reset = Bitfield alctfifo1_adr 0 0"

definition alct_raw_read_address :: bitfield where [field_defs]:
  "alct_raw_read_address = Bitfield alctfifo1_adr 1 11"

definition alct_demux_mode :: bitfield where [field_defs]:
  "alct_demux_mode = Bitfield alctfifo1_adr 13 13"

definition alct_raw_lsbs :: bitfield where [field_defs]:
  "alct_raw_lsbs = Bitfield alctfifo2_adr 0 15"

definition clct_flush_delay :: bitfield where [field_defs]:
  "clct_flush_delay = Bitfield seqmod_adr 0 3"

definition wr_buffer_autoclear :: bitfield where [field_defs]:
  "wr_buffer_autoclear = Bitfield seqmod_adr 4 4"

definition clct_write_continuous_enable :: bitfield where [field_defs]:
  "clct_write_continuous_enable = Bitfield seqmod_adr 5 5"

definition wrt_buf_required :: bitfield where [field_defs]:
  "wrt_buf_required = Bitfield seqmod_adr 6 6"

definition valid_clct_required :: bitfield where [field_defs]:
  "valid_clct_required = Bitfield seqmod_adr 7 7"

definition l1a_allow_match :: bitfield where [field_defs]:
  "l1a_allow_match = Bitfield seqmod_adr 8 8"

definition l1a_allow_notmb :: bitfield where [field_defs]:
  "l1a_allow_notmb = Bitfield seqmod_adr 9 9"

definition l1a_allow_nol1a :: bitfield where [field_defs]:
  "l1a_allow_nol1a = Bitfield seqmod_adr 10 10"

definition l1a_allow_alct_only :: bitfield where [field_defs]:
  "l1a_allow_alct_only = Bitfield seqmod_adr 11 11"

definition scint_veto_clr :: bitfield where [field_defs]:
  "scint_veto_clr = Bitfield seqmod_adr 12 12"

definition scint_veto_vme :: bitfield where [field_defs]:
  "scint_veto_vme = Bitfield seqmod_adr 13 13"

definition clct_state_machine :: bitfield where [field_defs]:
  "clct_state_machine = Bitfield seqsm_adr 0 2"

definition readout_state_machine :: bitfield where [field_defs]:
  "readout_state_machine = Bitfield seqsm_adr 3 7"

definition buffer_queue_full :: bitfield where [field_defs]:
  "buffer_queue_full = Bitfield seqsm_adr 8 8"

definition buffer_queue_empty :: bitfield where [field_defs]:
  "buffer_queue_empty = Bitfield seqsm_adr 9 9"

definition buffer_queue_overflow :: bitfield where [field_defs]:
  "buffer_queue_overflow = Bitfield seqsm_adr 10 10"

definition buffer_queue_underflow :: bitfield where [field_defs]:
  "buffer_queue_underflow = Bitfield seqsm_adr 11 11"

definition CLCT_BXN :: bitfield where [field_defs]:
  "CLCT_BXN = Bitfield seq_clctm_adr 0 1"

definition CLCT_sync_err :: bitfield where [field_defs]:
  "CLCT_sync_err = Bitfield seq_clctm_adr 2 2"

definition alct_vpf_delay :: bitfield where [field_defs]:
  "alct_vpf_delay = Bitfield tmbtim_adr 0 3"

definition alct_match_window_size :: bitfield where [field_defs]:
  "alct_match_window_size = Bitfield tmbtim_adr 4 7"

definition mpc_tx_delay :: bitfield where [field_defs]:
  "mpc_tx_delay = Bitfield tmbtim_adr 8 11"

definition rpc_exists :: bitfield where [field_defs]:
  "rpc_exists = Bitfield rpc_cfg_adr 0 1"

definition rpc_read_enable :: bitfield where [field_defs]:
  "rpc_read_enable = Bitfield rpc_cfg_adr 4 4"

definition rpc_bxn_offset :: bitfield where [field_defs]:
  "rpc_bxn_offset = Bitfield rpc_cfg_adr 5 8"

definition rpc_bank :: bitfield where [field_defs]:
  "rpc_bank = Bitfield rpc_cfg_adr 9 10"

definition rpc_rbxn :: bitfield where [field_defs]:
  "rpc_rbxn = Bitfield rpc_cfg_adr 11 13"

definition rpc_done :: bitfield where [field_defs]:
  "rpc_done = Bitfield rpc_cfg_adr 14 14"

definition rpc0_raw_delay :: bitfield where [field_defs]:
  "rpc0_raw_delay = Bitfield rpc_raw_delay_adr 0 3"

definition rpc1_raw_delay :: bitfield where [field_defs]:
  "rpc1_raw_delay = Bitfield rpc_raw_delay_adr 4 7"

definition rpc_mask_all :: bitfield where [field_defs]:
  "rpc_mask_all = Bitfield rpc_inj_adr 0 0"

definition inj_mask_rat :: bitfield where [field_defs]:
  "inj_mask_rat = Bitfield rpc_inj_adr 1 1"

definition inj_mask_rpc :: bitfield where [field_defs]:
  "inj_mask_rpc = Bitfield rpc_inj_adr 2 2"

definition inj_delay_rat :: bitfield where [field_defs]:
  "inj_delay_rat = Bitfield rpc_inj_adr 3 6"

definition rpc_inj_sel :: bitfield where [field_defs]:
  "rpc_inj_sel = Bitfield rpc_inj_adr 7 7"

definition rpc_inj_wdata :: bitfield where [field_defs]:
  "rpc_inj_wdata = Bitfield rpc_inj_adr 8 10"

definition rpc_inj_rdata :: bitfield where [field_defs]:
  "rpc_inj_rdata = Bitfield rpc_inj_adr 11 13"

definition fifo_tbins_rpc :: bitfield where [field_defs]:
  "fifo_tbins_rpc = Bitfield rpc_tbins_adr 0 4"

definition fifo_pretrig_rpc :: bitfield where [field_defs]:
  "fifo_pretrig_rpc = Bitfield rpc_tbins_adr 5 9"

definition rpc_decouple :: bitfield where [field_defs]:
  "rpc_decouple = Bitfield rpc_tbins_adr 10 10"

definition alct_bx0_delay :: bitfield where [field_defs]:
  "alct_bx0_delay = Bitfield bx0_delay_adr 0 3"

definition clct_bx0_delay :: bitfield where [field_defs]:
  "clct_bx0_delay = Bitfield bx0_delay_adr 4 7"

definition alct_bx0_enable :: bitfield where [field_defs]:
  "alct_bx0_enable = Bitfield bx0_delay_adr 8 8"

definition bx0_vpf_test :: bitfield where [field_defs]:
  "bx0_vpf_test = Bitfield bx0_delay_adr 9 9"

definition bx0_match :: bitfield where [field_defs]:
  "bx0_match = Bitfield bx0_delay_adr 10 10"

definition tmb_allow_alct_nontrig_readout :: bitfield where [field_defs]:
  "tmb_allow_alct_nontrig_readout = Bitfield non_trig_readout_adr 0 0"

definition tmb_allow_clct_nontrig_readout :: bitfield where [field_defs]:
  "tmb_allow_clct_nontrig_readout = Bitfield non_trig_readout_adr 1 1"

definition tmb_allow_match_nontrig_readout :: bitfield where [field_defs]:
  "tmb_allow_match_nontrig_readout = Bitfield non_trig_readout_adr 2 2"

definition mpc_block_me1a :: bitfield where [field_defs]:
  "mpc_block_me1a = Bitfield non_trig_readout_adr 3 3"

definition clct_pretrigger_counter_non_me11 :: bitfield where [field_defs]:
  "clct_pretrigger_counter_non_me11 = Bitfield non_trig_readout_adr 4 4"

definition csc_me11 :: bitfield where [field_defs]:
  "csc_me11 = Bitfield non_trig_readout_adr 5 5"

definition clct_stagger :: bitfield where [field_defs]:
  "clct_stagger = Bitfield non_trig_readout_adr 6 6"

definition reverse_stagger :: bitfield where [field_defs]:
  "reverse_stagger = Bitfield non_trig_readout_adr 7 7"

definition reverse_me1a :: bitfield where [field_defs]:
  "reverse_me1a = Bitfield non_trig_readout_adr 8 8"

definition reverse_me1b :: bitfield where [field_defs]:
  "reverse_me1b = Bitfield non_trig_readout_adr 9 9"

definition tmb_firmware_compile_type :: bitfield where [field_defs]:
  "tmb_firmware_compile_type = Bitfield non_trig_readout_adr 12 15"

definition jtag_state_machine_start :: bitfield where [field_defs]:
  "jtag_state_machine_start = Bitfield jtag_sm_ctrl_adr 0 0"

definition jtag_state_machine_sreset :: bitfield where [field_defs]:
  "jtag_state_machine_sreset = Bitfield jtag_sm_ctrl_adr 1 1"

definition jtag_state_machine_autostart :: bitfield where [field_defs]:
  "jtag_state_machine_autostart = Bitfield jtag_sm_ctrl_adr 2 2"

definition jtag_state_machine_busy :: bitfield where [field_defs]:
  "jtag_state_machine_busy = Bitfield jtag_sm_ctrl_adr 3 3"

definition jtag_state_machine_aborted :: bitfield where [field_defs]:
  "jtag_state_machine_aborted = Bitfield jtag_sm_ctrl_adr 4 4"

definition jtag_state_machine_cksum_ok :: bitfield where [field_defs]:
  "jtag_state_machine_cksum_ok = Bitfield jtag_sm_ctrl_adr 5 5"

definition jtag_state_machine_wdcnt_ok :: bitfield where [field_defs]:
  "jtag_state_machine_wdcnt_ok = Bitfield jtag_sm_ctrl_adr 6 6"

definition jtag_state_machine_tck_fpga_ok :: bitfield where [field_defs]:
  "jtag_state_machine_tck_fpga_ok = Bitfield jtag_sm_ctrl_adr 7 7"

definition jtag_state_machine_vme_ready :: bitfield where [field_defs]:
  "jtag_state_machine_vme_ready = Bitfield jtag_sm_ctrl_adr 8 8"

definition jtag_state_machine_ok :: bitfield where [field_defs]:
  "jtag_state_machine_ok = Bitfield jtag_sm_ctrl_adr 9 9"

definition jtag_state_machine_oe :: bitfield where [field_defs]:
  "jtag_state_machine_oe = Bitfield jtag_sm_ctrl_adr 10 10"

definition jtag_disable_write_to_adr10 :: bitfield where [field_defs]:
  "jtag_disable_write_to_adr10 = Bitfield jtag_sm_ctrl_adr 11 11"

definition jtag_state_machine_throttle :: bitfield where [field_defs]:
  "jtag_state_machine_throttle = Bitfield jtag_sm_ctrl_adr 12 15"

definition jtag_state_machine_word_count :: bitfield where [field_defs]:
  "jtag_state_machine_word_count = Bitfield jtag_sm_wdcnt_adr 0 15"

definition jtag_state_machine_check_sum :: bitfield where [field_defs]:
  "jtag_state_machine_check_sum = Bitfield jtag_sm_cksum_adr 0 7"

definition jtag_state_machine_tck_fpga :: bitfield where [field_defs]:
  "jtag_state_machine_tck_fpga = Bitfield jtag_sm_cksum_adr 8 11"

definition vme_state_machine_start :: bitfield where [field_defs]:
  "vme_state_machine_start = Bitfield vme_sm_ctrl_adr 0 0"

definition vme_state_machine_sreset :: bitfield where [field_defs]:
  "vme_state_machine_sreset = Bitfield vme_sm_ctrl_adr 1 1"

definition vme_state_machine_autostart :: bitfield where [field_defs]:
  "vme_state_machine_autostart = Bitfield vme_sm_ctrl_adr 2 2"

definition vme_state_machine_busy :: bitfield where [field_defs]:
  "vme_state_machine_busy = Bitfield vme_sm_ctrl_adr 3 3"

definition vme_state_machine_aborted :: bitfield where [field_defs]:
  "vme_state_machine_aborted = Bitfield vme_sm_ctrl_adr 4 4"

definition vme_state_machine_cksum_ok :: bitfield where [field_defs]:
  "vme_state_machine_cksum_ok = Bitfield vme_sm_ctrl_adr 5 5"

definition vme_state_machine_wdcnt_ok :: bitfield where [field_defs]:
  "vme_state_machine_wdcnt_ok = Bitfield vme_sm_ctrl_adr 6 6"

definition vme_state_machine_jtag_auto :: bitfield where [field_defs]:
  "vme_state_machine_jtag_auto = Bitfield vme_sm_ctrl_adr 7 7"

definition vme_state_machine_vme_ready :: bitfield where [field_defs]:
  "vme_state_machine_vme_ready = Bitfield vme_sm_ctrl_adr 8 8"

definition vme_state_machine_ok :: bitfield where [field_defs]:
  "vme_state_machine_ok = Bitfield vme_sm_ctrl_adr 9 9"

definition vme_state_machine_path_ok :: bitfield where [field_defs]:
  "vme_state_machine_path_ok = Bitfield vme_sm_ctrl_adr 10 10"

definition phase_shifter_auto :: bitfield where [field_defs]:
  "phase_shifter_auto = Bitfield vme_sm_ctrl_adr 11 11"

definition vme_state_machine_throttle :: bitfield where [field_defs]:
  "vme_state_machine_throttle = Bitfield vme_sm_ctrl_adr 12 15"

definition vme_state_machine_word_count :: bitfield where [field_defs]:
  "vme_state_machine_word_count = Bitfield vme_sm_wdcnt_adr 0 15"

definition vme_state_machine_check_sum :: bitfield where [field_defs]:
  "vme_state_machine_check_sum = Bitfield vme_sm_cksum_adr 0 7"

definition vme_state_machine_error_missing_header_start :: bitfield where [field_defs]:
  "vme_state_machine_error_missing_header_start = Bitfield vme_sm_cksum_adr 8 8"

definition vme_state_machine_error_missing_header_end :: bitfield where [field_defs]:
  "vme_state_machine_error_missing_header_end = Bitfield vme_sm_cksum_adr 9 9"

definition vme_state_machine_error_missing_data_end_marker :: bitfield where [field_defs]:
  "vme_state_machine_error_missing_data_end_marker = Bitfield vme_sm_cksum_adr 10 10"

definition vme_state_machine_error_missing_trailer_end :: bitfield where [field_defs]:
  "vme_state_machine_error_missing_trailer_end = Bitfield vme_sm_cksum_adr 11 11"

definition vme_state_machine_error_word_count_overflow :: bitfield where [field_defs]:
  "vme_state_machine_error_word_count_overflow = Bitfield vme_sm_cksum_adr 12 12"

definition vme_state_machine_number_of_vme_writes :: bitfield where [field_defs]:
  "vme_state_machine_number_of_vme_writes = Bitfield num_vme_sm_adr_adr 0 15"

definition rpc0_rat_delay :: bitfield where [field_defs]:
  "rpc0_rat_delay = Bitfield rat_3d_delays_adr 0 3"

definition rpc1_rat_delay :: bitfield where [field_defs]:
  "rpc1_rat_delay = Bitfield rat_3d_delays_adr 4 7"

definition bdstatus_ok :: bitfield where [field_defs]:
  "bdstatus_ok = Bitfield tmb_stat_adr 0 0"

definition vstat_5p0v :: bitfield where [field_defs]:
  "vstat_5p0v = Bitfield tmb_stat_adr 1 1"

definition vstat_3p3v :: bitfield where [field_defs]:
  "vstat_3p3v = Bitfield tmb_stat_adr 2 2"

definition vstat_1p8v :: bitfield where [field_defs]:
  "vstat_1p8v = Bitfield tmb_stat_adr 3 3"

definition vstat_1p5v :: bitfield where [field_defs]:
  "vstat_1p5v = Bitfield tmb_stat_adr 4 4"

definition nt_crit :: bitfield where [field_defs]:
  "nt_crit = Bitfield tmb_stat_adr 5 5"

definition vsm_ok :: bitfield where [field_defs]:
  "vsm_ok = Bitfield tmb_stat_adr 6 6"

definition vsm_aborted :: bitfield where [field_defs]:
  "vsm_aborted = Bitfield tmb_stat_adr 7 7"

definition vsm_cksum_ok :: bitfield where [field_defs]:
  "vsm_cksum_ok = Bitfield tmb_stat_adr 8 8"

definition vsm_wdcnt_ok :: bitfield where [field_defs]:
  "vsm_wdcnt_ok = Bitfield tmb_stat_adr 9 9"

definition jsm_ok :: bitfield where [field_defs]:
  "jsm_ok = Bitfield tmb_stat_adr 10 10"

definition jsm_aborted :: bitfield where [field_defs]:
  "jsm_aborted = Bitfield tmb_stat_adr 11 11"

definition jsm_cksum_ok :: bitfield where [field_defs]:
  "jsm_cksum_ok = Bitfield tmb_stat_adr 12 12"

definition jsm_wdcnt_ok :: bitfield where [field_defs]:
  "jsm_wdcnt_ok = Bitfield tmb_stat_adr 13 13"

definition jsm_tck_fpga_ok :: bitfield where [field_defs]:
  "jsm_tck_fpga_ok = Bitfield tmb_stat_adr 14 14"

definition layer_trigger_en :: bitfield where [field_defs]:
  "layer_trigger_en = Bitfield layer_trg_mode_adr 0 0"

definition layer_trig_thresh :: bitfield where [field_defs]:
  "layer_trig_thresh = Bitfield layer_trg_mode_adr 1 3"

definition number_layers_hit :: bitfield where [field_defs]:
  "number_layers_hit = Bitfield layer_trg_mode_adr 4 6"

definition clct_throttle :: bitfield where [field_defs]:
  "clct_throttle = Bitfield layer_trg_mode_adr 8 15"

definition clct_blanking :: bitfield where [field_defs]:
  "clct_blanking = Bitfield pattern_find_pretrg_adr 0 0"

definition clct_pattern_id_thresh :: bitfield where [field_defs]:
  "clct_pattern_id_thresh = Bitfield pattern_find_pretrg_adr 2 5"

definition clct_pattern_id_thresh_postdrift :: bitfield where [field_defs]:
  "clct_pattern_id_thresh_postdrift = Bitfield pattern_find_pretrg_adr 6 9"

definition adjacent_cfeb_distance :: bitfield where [field_defs]:
  "adjacent_cfeb_distance = Bitfield pattern_find_pretrg_adr 10 15"

definition clct_separation_src :: bitfield where [field_defs]:
  "clct_separation_src = Bitfield clct_separation_adr 0 0"

definition clct_separation_ram_write_enable :: bitfield where [field_defs]:
  "clct_separation_ram_write_enable = Bitfield clct_separation_adr 1 1"

definition clct_separation_ram_adr :: bitfield where [field_defs]:
  "clct_separation_ram_adr = Bitfield clct_separation_adr 2 5"

definition min_clct_separation :: bitfield where [field_defs]:
  "min_clct_separation = Bitfield clct_separation_adr 8 15"

definition ccb_ttcrx_lock_never :: bitfield where [field_defs]:
  "ccb_ttcrx_lock_never = Bitfield clock_status_adr 0 0"

definition ccb_ttcrx_lost_ever :: bitfield where [field_defs]:
  "ccb_ttcrx_lost_ever = Bitfield clock_status_adr 1 1"

definition ccb_qpll_lock_never :: bitfield where [field_defs]:
  "ccb_qpll_lock_never = Bitfield clock_status_adr 2 2"

definition ccb_qpll_lost_ever :: bitfield where [field_defs]:
  "ccb_qpll_lost_ever = Bitfield clock_status_adr 3 3"

definition l1a_allow_notmb_lookback :: bitfield where [field_defs]:
  "l1a_allow_notmb_lookback = Bitfield l1a_lookback_adr 0 10"

definition inj_wrdata_msb :: bitfield where [field_defs]:
  "inj_wrdata_msb = Bitfield l1a_lookback_adr 11 12"

definition inj_rdata_msb :: bitfield where [field_defs]:
  "inj_rdata_msb = Bitfield l1a_lookback_adr 13 14"

definition l1a_priority_enable :: bitfield where [field_defs]:
  "l1a_priority_enable = Bitfield l1a_lookback_adr 15 15"

definition alct_sync_rxdata_dly :: bitfield where [field_defs]:
  "alct_sync_rxdata_dly = Bitfield alct_sync_ctrl_adr 0 3"

definition alct_sync_tx_random :: bitfield where [field_defs]:
  "alct_sync_tx_random = Bitfield alct_sync_ctrl_adr 4 4"

definition alct_sync_clear_errors :: bitfield where [field_defs]:
  "alct_sync_clear_errors = Bitfield alct_sync_ctrl_adr 5 5"

definition alct_sync_1st_error :: bitfield where [field_defs]:
  "alct_sync_1st_error = Bitfield alct_sync_ctrl_adr 6 6"

definition alct_sync_2nd_error :: bitfield where [field_defs]:
  "alct_sync_2nd_error = Bitfield alct_sync_ctrl_adr 7 7"

definition alct_sync_1st_error_latched :: bitfield where [field_defs]:
  "alct_sync_1st_error_latched = Bitfield alct_sync_ctrl_adr 8 8"

definition alct_sync_2nd_error_latched :: bitfield where [field_defs]:
  "alct_sync_2nd_error_latched = Bitfield alct_sync_ctrl_adr 9 9"

definition alct_sync_txdata_1st :: bitfield where [field_defs]:
  "alct_sync_txdata_1st = Bitfield alct_sync_txdata_1st_adr 0 9"

definition alct_sync_txdata_2nd :: bitfield where [field_defs]:
  "alct_sync_txdata_2nd = Bitfield alct_sync_txdata_2nd_adr 0 9"

definition miniscope_enable :: bitfield where [field_defs]:
  "miniscope_enable = Bitfield miniscope_adr 0 0"

definition mini_tbins_test :: bitfield where [field_defs]:
  "mini_tbins_test = Bitfield miniscope_adr 1 1"

definition mini_tbins_word :: bitfield where [field_defs]:
  "mini_tbins_word = Bitfield miniscope_adr 2 2"

definition fifo_tbins_mini :: bitfield where [field_defs]:
  "fifo_tbins_mini = Bitfield miniscope_adr 3 7"

definition fifo_pretrig_mini :: bitfield where [field_defs]:
  "fifo_pretrig_mini = Bitfield miniscope_adr 8 12"

definition fire_phaser :: bitfield where [field_defs]:
  "fire_phaser = Bitfield phaser_alct_rxd_adr 0 0"

definition reset_phase :: bitfield where [field_defs]:
  "reset_phase = Bitfield phaser_alct_rxd_adr 1 1"

definition phaser_busy :: bitfield where [field_defs]:
  "phaser_busy = Bitfield phaser_alct_rxd_adr 2 2"

definition digital_clock_manager_locked :: bitfield where [field_defs]:
  "digital_clock_manager_locked = Bitfield phaser_alct_rxd_adr 3 3"

definition phase_shifter_state :: bitfield where [field_defs]:
  "phase_shifter_state = Bitfield phaser_alct_rxd_adr 4 6"

definition phaser_posneg :: bitfield where [field_defs]:
  "phaser_posneg = Bitfield phaser_alct_rxd_adr 7 7"

definition phase_value_within_quadrant :: bitfield where [field_defs]:
  "phase_value_within_quadrant = Bitfield phaser_alct_rxd_adr 8 13"

definition quarter_cycle_quadrant_select :: bitfield where [field_defs]:
  "quarter_cycle_quadrant_select = Bitfield phaser_alct_rxd_adr 14 14"

definition half_cycle_quadrant_select :: bitfield where [field_defs]:
  "half_cycle_quadrant_select = Bitfield phaser_alct_rxd_adr 15 15"

definition cfeb0_rxd_int_delay :: bitfield where [field_defs]:
  "cfeb0_rxd_int_delay = Bitfield cfeb0_3_interstage_adr 0 3"

definition cfeb1_rxd_int_delay :: bitfield where [field_defs]:
  "cfeb1_rxd_int_delay = Bitfield cfeb0_3_interstage_adr 4 7"

definition cfeb2_rxd_int_delay :: bitfield where [field_defs]:
  "cfeb2_rxd_int_delay = Bitfield cfeb0_3_interstage_adr 8 11"

definition cfeb3_rxd_int_delay :: bitfield where [field_defs]:
  "cfeb3_rxd_int_delay = Bitfield cfeb0_3_interstage_adr 12 15"

definition cfeb4_rxd_int_delay :: bitfield where [field_defs]:
  "cfeb4_rxd_int_delay = Bitfield cfeb4_interstage_adr 0 3"

definition sync_err_reset :: bitfield where [field_defs]:
  "sync_err_reset = Bitfield sync_err_control_adr 0 0"

definition clct_bx0_sync_err_enable :: bitfield where [field_defs]:
  "clct_bx0_sync_err_enable = Bitfield sync_err_control_adr 1 1"

definition alct_ecc_rx_sync_err_enable :: bitfield where [field_defs]:
  "alct_ecc_rx_sync_err_enable = Bitfield sync_err_control_adr 2 2"

definition alct_ecc_tx_sync_err_enable :: bitfield where [field_defs]:
  "alct_ecc_tx_sync_err_enable = Bitfield sync_err_control_adr 3 3"

definition bx0_match_sync_err_enable :: bitfield where [field_defs]:
  "bx0_match_sync_err_enable = Bitfield sync_err_control_adr 4 4"

definition clock_lock_lost_sync_err_enable :: bitfield where [field_defs]:
  "clock_lock_lost_sync_err_enable = Bitfield sync_err_control_adr 5 5"

definition sync_err_blanks_mpc_enable :: bitfield where [field_defs]:
  "sync_err_blanks_mpc_enable = Bitfield sync_err_control_adr 6 6"

definition sync_err_stops_pretrig_enable :: bitfield where [field_defs]:
  "sync_err_stops_pretrig_enable = Bitfield sync_err_control_adr 7 7"

definition sync_err_stops_readout_enable :: bitfield where [field_defs]:
  "sync_err_stops_readout_enable = Bitfield sync_err_control_adr 8 8"

definition sync_err :: bitfield where [field_defs]:
  "sync_err = Bitfield sync_err_control_adr 9 9"

definition clct_bx0_sync_err :: bitfield where [field_defs]:
  "clct_bx0_sync_err = Bitfield sync_err_control_adr 10 10"

definition alct_ecc_rx_sync_err :: bitfield where [field_defs]:
  "alct_ecc_rx_sync_err = Bitfield sync_err_control_adr 11 11"

definition alct_ecc_tx_sync_err :: bitfield where [field_defs]:
  "alct_ecc_tx_sync_err = Bitfield sync_err_control_adr 12 12"

definition bx0_match_sync_err :: bitfield where [field_defs]:
  "bx0_match_sync_err = Bitfield sync_err_control_adr 13 13"

definition clock_lock_lost_sync_err :: bitfield where [field_defs]:
  "clock_lock_lost_sync_err = Bitfield sync_err_control_adr 14 14"

definition cfeb_badbits_reset :: bitfield where [field_defs]:
  "cfeb_badbits_reset = Bitfield cfeb_badbits_ctrl_adr 0 4"

definition cfeb_badbits_block :: bitfield where [field_defs]:
  "cfeb_badbits_block = Bitfield cfeb_badbits_ctrl_adr 5 9"

definition cfeb_badbits_found :: bitfield where [field_defs]:
  "cfeb_badbits_found = Bitfield cfeb_badbits_ctrl_adr 10 14"

definition cfeb_badbits_blocked :: bitfield where [field_defs]:
  "cfeb_badbits_blocked = Bitfield cfeb_badbits_ctrl_adr 15 15"

definition cfeb_badbits_nbx :: bitfield where [field_defs]:
  "cfeb_badbits_nbx = Bitfield cfeb_badbits_timer_adr 0 15"

section \<open>Defaults of the configuration registers\<close>

named_theorems default_defs \<comment> \<open>default values\<close>

definition enable_alct_rx_default :: int where [default_defs]:
  "enable_alct_rx_default = 1"

definition enable_alct_tx_default :: int where [default_defs]:
  "enable_alct_tx_default = 1"

definition ddd_state_machine_start_default :: int where [default_defs]:
  "ddd_state_machine_start_default = 0"

definition ddd_state_machine_manual_default :: int where [default_defs]:
  "ddd_state_machine_manual_default = 0"

definition ddd_state_machine_latch_default :: int where [default_defs]:
  "ddd_state_machine_latch_default = 1"

definition ddd_state_machine_serial_in_default :: int where [default_defs]:
  "ddd_state_machine_serial_in_default = 0"

definition ddd_state_machine_serial_out_default :: int where [default_defs]:
  "ddd_state_machine_serial_out_default = 0"

definition ddd_state_machine_autostart_default :: int where [default_defs]:
  "ddd_state_machine_autostart_default = 1"

definition alct_tof_delay_default :: int where [default_defs]:
  "alct_tof_delay_default = 0"

definition dmb_tx_delay_default :: int where [default_defs]:
  "dmb_tx_delay_default = 6"

definition rat_tmb_delay_default :: int where [default_defs]:
  "rat_tmb_delay_default = 9"

definition tmb1_phase_default :: int where [default_defs]:
  "tmb1_phase_default = 0"

definition cfeb_tof_delay_default :: int where [default_defs]:
  "cfeb_tof_delay_default = 0"

definition cfeb0_tof_delay_default :: int where [default_defs]:
  "cfeb0_tof_delay_default = 7"

definition cfeb1_tof_delay_default :: int where [default_defs]:
  "cfeb1_tof_delay_default = 7"

definition cfeb2_tof_delay_default :: int where [default_defs]:
  "cfeb2_tof_delay_default = 7"

definition cfeb3_tof_delay_default :: int where [default_defs]:
  "cfeb3_tof_delay_default = 7"

definition cfeb4_tof_delay_default :: int where [default_defs]:
  "cfeb4_tof_delay_default = 7"

definition rpc_sync_default :: int where [default_defs]:
  "rpc_sync_default = 0"

definition shift_rpc_default :: int where [default_defs]:
  "shift_rpc_default = 0"

definition rat_dsn_en_default :: int where [default_defs]:
  "rat_dsn_en_default = 0"

definition voltage_adc_data_out_default :: int where [default_defs]:
  "voltage_adc_data_out_default = 0"

definition voltage_adc_serial_clock_default :: int where [default_defs]:
  "voltage_adc_serial_clock_default = 0"

definition voltage_adc_data_in_default :: int where [default_defs]:
  "voltage_adc_data_in_default = 0"

definition voltage_adc_chip_select_default :: int where [default_defs]:
  "voltage_adc_chip_select_default = 1"

definition temperature_adc_serial_clock_default :: int where [default_defs]:
  "temperature_adc_serial_clock_default = 0"

definition temperature_adc_serial_data_default :: int where [default_defs]:
  "temperature_adc_serial_data_default = 1"

definition ignore_ccb_rx_default :: int where [default_defs]:
  "ignore_ccb_rx_default = 0"

definition disable_ccb_tx_default :: int where [default_defs]:
  "disable_ccb_tx_default = 0"

definition enable_internal_l1a_default :: int where [default_defs]:
  "enable_internal_l1a_default = 0"

definition enable_alctclct_status_to_ccb_default :: int where [default_defs]:
  "enable_alctclct_status_to_ccb_default = 0"

definition enable_alct_status_to_ccb_default :: int where [default_defs]:
  "enable_alct_status_to_ccb_default = 0"

definition enable_clct_status_to_ccb_default :: int where [default_defs]:
  "enable_clct_status_to_ccb_default = 0"

definition fire_l1a_oneshot_default :: int where [default_defs]:
  "fire_l1a_oneshot_default = 0"

definition alct_ext_trig_l1aen_default :: int where [default_defs]:
  "alct_ext_trig_l1aen_default = 0"

definition clct_ext_trig_l1aen_default :: int where [default_defs]:
  "clct_ext_trig_l1aen_default = 0"

definition request_l1a_default :: int where [default_defs]:
  "request_l1a_default = 1"

definition alct_ext_trig_vme_default :: int where [default_defs]:
  "alct_ext_trig_vme_default = 0"

definition clct_ext_trig_vme_default :: int where [default_defs]:
  "clct_ext_trig_vme_default = 0"

definition ext_trig_both_default :: int where [default_defs]:
  "ext_trig_both_default = 0"

definition ccb_allow_bypass_default :: int where [default_defs]:
  "ccb_allow_bypass_default = 0"

definition ignore_ccb_startstop_default :: int where [default_defs]:
  "ignore_ccb_startstop_default = 0"

definition internal_l1a_delay_vme_default :: int where [default_defs]:
  "internal_l1a_delay_vme_default = 0x72"

definition cfg_alct_ext_trig_en_default :: int where [default_defs]:
  "cfg_alct_ext_trig_en_default = 0"

definition cfg_alct_ext_inject_en_default :: int where [default_defs]:
  "cfg_alct_ext_inject_en_default = 0"

definition cfg_alct_ext_trig_default :: int where [default_defs]:
  "cfg_alct_ext_trig_default = 0"

definition cfg_alct_ext_inject_default :: int where [default_defs]:
  "cfg_alct_ext_inject_default = 0"

definition alct_seq_cmd_default :: int where [default_defs]:
  "alct_seq_cmd_default = 0"

definition alct_clock_en_use_ccb_default :: int where [default_defs]:
  "alct_clock_en_use_ccb_default = 1"

definition alct_clock_en_use_vme_default :: int where [default_defs]:
  "alct_clock_en_use_vme_default = 0"

definition alct_clear_default :: int where [default_defs]:
  "alct_clear_default = 0"

definition alct_inject_mux_default :: int where [default_defs]:
  "alct_inject_mux_default = 0"

definition alct_sync_clct_default :: int where [default_defs]:
  "alct_sync_clct_default = 0"

definition alct_inj_delay_default :: int where [default_defs]:
  "alct_inj_delay_default = 0xD"

definition alct_ecc_en_default :: int where [default_defs]:
  "alct_ecc_en_default = 1"

definition alct_ecc_err_blank_default :: int where [default_defs]:
  "alct_ecc_err_blank_default = 1"

definition alct_txdata_delay_default :: int where [default_defs]:
  "alct_txdata_delay_default = 0"

definition enableCLCTInputs_default :: int where [default_defs]:
  "enableCLCTInputs_default = 0x1F"

definition cfeb_ram_sel_default :: int where [default_defs]:
  "cfeb_ram_sel_default = 0"

definition cfeb_inj_en_sel_default :: int where [default_defs]:
  "cfeb_inj_en_sel_default = 0x1F"

definition start_pattern_inj_default :: int where [default_defs]:
  "start_pattern_inj_default = 0"

definition hot_channel_mask_default :: int where [default_defs]:
  "hot_channel_mask_default = 1"

definition clct_pat_trig_en_default :: int where [default_defs]:
  "clct_pat_trig_en_default = 1"

definition alct_pat_trig_en_default :: int where [default_defs]:
  "alct_pat_trig_en_default = 0"

definition match_pat_trig_en_default :: int where [default_defs]:
  "match_pat_trig_en_default = 0"

definition adb_ext_trig_en_default :: int where [default_defs]:
  "adb_ext_trig_en_default = 0"

definition dmb_ext_trig_en_default :: int where [default_defs]:
  "dmb_ext_trig_en_default = 0"

definition clct_ext_trig_en_default :: int where [default_defs]:
  "clct_ext_trig_en_default = 0"

definition alct_ext_trig_en_default :: int where [default_defs]:
  "alct_ext_trig_en_default = 0"

definition vme_ext_trig_default :: int where [default_defs]:
  "vme_ext_trig_default = 0"

definition ext_trig_inject_default :: int where [default_defs]:
  "ext_trig_inject_default = 0"

definition all_cfeb_active_default :: int where [default_defs]:
  "all_cfeb_active_default = 0"

definition cfebs_enabled_default :: int where [default_defs]:
  "cfebs_enabled_default = 0x1F"

definition cfeb_enable_source_default :: int where [default_defs]:
  "cfeb_enable_source_default = 1"

definition alct_pretrig_width_default :: int where [default_defs]:
  "alct_pretrig_width_default = 3"

definition alct_pretrig_delay_default :: int where [default_defs]:
  "alct_pretrig_delay_default = 0"

definition alct_pattern_delay_default :: int where [default_defs]:
  "alct_pattern_delay_default = 0"

definition adb_ext_trig_delay_default :: int where [default_defs]:
  "adb_ext_trig_delay_default = 1"

definition dmb_ext_trig_delay_default :: int where [default_defs]:
  "dmb_ext_trig_delay_default = 1"

definition clct_ext_trig_delay_default :: int where [default_defs]:
  "clct_ext_trig_delay_default = 7"

definition alct_ext_trig_delay_default :: int where [default_defs]:
  "alct_ext_trig_delay_default = 7"

definition run_id_default :: int where [default_defs]:
  "run_id_default = 0"

definition triad_persist_default :: int where [default_defs]:
  "triad_persist_default = 6"

definition hit_thresh_default :: int where [default_defs]:
  "hit_thresh_default = 4"

definition aff_thresh_default :: int where [default_defs]:
  "aff_thresh_default = 4"

definition min_hits_pattern_default :: int where [default_defs]:
  "min_hits_pattern_default = 4"

definition drift_delay_default :: int where [default_defs]:
  "drift_delay_default = 2"

definition pretrigger_halt_default :: int where [default_defs]:
  "pretrigger_halt_default = 0"

definition fifo_mode_default :: int where [default_defs]:
  "fifo_mode_default = 1"

definition fifo_tbins_default :: int where [default_defs]:
  "fifo_tbins_default = 7"

definition fifo_pretrig_default :: int where [default_defs]:
  "fifo_pretrig_default = 2"

definition fifo_no_raw_hits_default :: int where [default_defs]:
  "fifo_no_raw_hits_default = 0"

definition cfeb_badbits_readout_default :: int where [default_defs]:
  "cfeb_badbits_readout_default = 0"

definition l1adelay_default :: int where [default_defs]:
  "l1adelay_default = 0x80"

definition l1a_window_size_default :: int where [default_defs]:
  "l1a_window_size_default = 3"

definition tmb_l1a_internal_default :: int where [default_defs]:
  "tmb_l1a_internal_default = 0"

definition l1a_offset_default :: int where [default_defs]:
  "l1a_offset_default = 0"

definition bxn_offset_default :: int where [default_defs]:
  "bxn_offset_default = 0"

definition tmb_sync_err_enable_default :: int where [default_defs]:
  "tmb_sync_err_enable_default = 3"

definition tmb_allow_alct_default :: int where [default_defs]:
  "tmb_allow_alct_default = 0"

definition tmb_allow_clct_default :: int where [default_defs]:
  "tmb_allow_clct_default = 1"

definition tmb_allow_match_default :: int where [default_defs]:
  "tmb_allow_match_default = 1"

definition mpc_rx_delay_default :: int where [default_defs]:
  "mpc_rx_delay_default = 7"

definition mpc_sel_ttc_bx0_default :: int where [default_defs]:
  "mpc_sel_ttc_bx0_default = 1"

definition mpc_idle_blank_default :: int where [default_defs]:
  "mpc_idle_blank_default = 0"

definition mpc_output_enable_default :: int where [default_defs]:
  "mpc_output_enable_default = 1"

definition scope_in_readout_default :: int where [default_defs]:
  "scope_in_readout_default = 0"

definition alct_raw_reset_default :: int where [default_defs]:
  "alct_raw_reset_default = 0"

definition alct_raw_read_address_default :: int where [default_defs]:
  "alct_raw_read_address_default = 0"

definition alct_demux_mode_default :: int where [default_defs]:
  "alct_demux_mode_default = 0"

definition clct_flush_delay_default :: int where [default_defs]:
  "clct_flush_delay_default = 1"

definition wr_buffer_autoclear_default :: int where [default_defs]:
  "wr_buffer_autoclear_default = 1"

definition clct_write_continuous_enable_default :: int where [default_defs]:
  "clct_write_continuous_enable_default = 0"

definition wrt_buf_required_default :: int where [default_defs]:
  "wrt_buf_required_default = 1"

definition valid_clct_required_default :: int where [default_defs]:
  "valid_clct_required_default = 1"

definition l1a_allow_match_default :: int where [default_defs]:
  "l1a_allow_match_default = 1"

definition l1a_allow_notmb_default :: int where [default_defs]:
  "l1a_allow_notmb_default = 0"

definition l1a_allow_nol1a_default :: int where [default_defs]:
  "l1a_allow_nol1a_default = 0"

definition l1a_allow_alct_only_default :: int where [default_defs]:
  "l1a_allow_alct_only_default = 0"

definition scint_veto_clr_default :: int where [default_defs]:
  "scint_veto_clr_default = 0"

definition alct_vpf_delay_default :: int where [default_defs]:
  "alct_vpf_delay_default = 4"

definition alct_match_window_size_default :: int where [default_defs]:
  "alct_match_window_size_default = 3"

definition mpc_tx_delay_default :: int where [default_defs]:
  "mpc_tx_delay_default = 0"

definition rpc_exists_default :: int where [default_defs]:
  "rpc_exists_default = 3"

definition rpc_read_enable_default :: int where [default_defs]:
  "rpc_read_enable_default = 1"

definition rpc_bxn_offset_default :: int where [default_defs]:
  "rpc_bxn_offset_default = 0"

definition rpc_bank_default :: int where [default_defs]:
  "rpc_bank_default = 0"

definition rpc0_raw_delay_default :: int where [default_defs]:
  "rpc0_raw_delay_default = 0"

definition rpc1_raw_delay_default :: int where [default_defs]:
  "rpc1_raw_delay_default = 0"

definition rpc_mask_all_default :: int where [default_defs]:
  "rpc_mask_all_default = 1"

definition inj_mask_rat_default :: int where [default_defs]:
  "inj_mask_rat_default = 0"

definition inj_mask_rpc_default :: int where [default_defs]:
  "inj_mask_rpc_default = 1"

definition inj_delay_rat_default :: int where [default_defs]:
  "inj_delay_rat_default = 7"

definition rpc_inj_sel_default :: int where [default_defs]:
  "rpc_inj_sel_default = 0"

definition rpc_inj_wdata_default :: int where [default_defs]:
  "rpc_inj_wdata_default = 0"

definition fifo_tbins_rpc_default :: int where [default_defs]:
  "fifo_tbins_rpc_default = 7"

definition fifo_pretrig_rpc_default :: int where [default_defs]:
  "fifo_pretrig_rpc_default = 2"

definition rpc_decouple_default :: int where [default_defs]:
  "rpc_decouple_default = 0"

definition alct_bx0_delay_default :: int where [default_defs]:
  "alct_bx0_delay_default = 0"

definition clct_bx0_delay_default :: int where [default_defs]:
  "clct_bx0_delay_default = 0"

definition alct_bx0_enable_default :: int where [default_defs]:
  "alct_bx0_enable_default = 1"

definition bx0_vpf_test_default :: int where [default_defs]:
  "bx0_vpf_test_default = 0"

definition tmb_allow_alct_nontrig_readout_default :: int where [default_defs]:
  "tmb_allow_alct_nontrig_readout_default = 0"

definition tmb_allow_clct_nontrig_readout_default :: int where [default_defs]:
  "tmb_allow_clct_nontrig_readout_default = 0"

definition tmb_allow_match_nontrig_readout_default :: int where [default_defs]:
  "tmb_allow_match_nontrig_readout_default = 1"

definition mpc_block_me1a_default :: int where [default_defs]:
  "mpc_block_me1a_default = 1"

definition clct_pretrigger_counter_non_me11_default :: int where [default_defs]:
  "clct_pretrigger_counter_non_me11_default = 0"

definition tmb_firmware_compile_type_default :: int where [default_defs]:
  "tmb_firmware_compile_type_default = 0xA"

definition jtag_state_machine_start_default :: int where [default_defs]:
  "jtag_state_machine_start_default = 0"

definition jtag_state_machine_sreset_default :: int where [default_defs]:
  "jtag_state_machine_sreset_default = 0"

definition jtag_disable_write_to_adr10_default :: int where [default_defs]:
  "jtag_disable_write_to_adr10_default = 0"

definition jtag_state_machine_throttle_default :: int where [default_defs]:
  "jtag_state_machine_throttle_default = 0"

definition vme_state_machine_start_default :: int where [default_defs]:
  "vme_state_machine_start_default = 0"

definition vme_state_machine_sreset_default :: int where [default_defs]:
  "vme_state_machine_sreset_default = 0"

definition vme_state_machine_jtag_auto_default :: int where [default_defs]:
  "vme_state_machine_jtag_auto_default = 1"

definition phase_shifter_auto_default :: int where [default_defs]:
  "phase_shifter_auto_default = 1"

definition vme_state_machine_throttle_default :: int where [default_defs]:
  "vme_state_machine_throttle_default = 0"

definition rpc0_rat_delay_default :: int where [default_defs]:
  "rpc0_rat_delay_default = 3"

definition rpc1_rat_delay_default :: int where [default_defs]:
  "rpc1_rat_delay_default = 3"

definition layer_trigger_en_default :: int where [default_defs]:
  "layer_trigger_en_default = 0"

definition layer_trig_thresh_default :: int where [default_defs]:
  "layer_trig_thresh_default = 4"

definition clct_throttle_default :: int where [default_defs]:
  "clct_throttle_default = 0"

definition clct_blanking_default :: int where [default_defs]:
  "clct_blanking_default = 1"

definition clct_pattern_id_thresh_default :: int where [default_defs]:
  "clct_pattern_id_thresh_default = 0"

definition clct_pattern_id_thresh_postdrift_default :: int where [default_defs]:
  "clct_pattern_id_thresh_postdrift_default = 0"

definition adjacent_cfeb_distance_default :: int where [default_defs]:
  "adjacent_cfeb_distance_default = 5"

definition clct_separation_src_default :: int where [default_defs]:
  "clct_separation_src_default = 1"

definition clct_separation_ram_write_enable_default :: int where [default_defs]:
  "clct_separation_ram_write_enable_default = 0"

definition clct_separation_ram_adr_default :: int where [default_defs]:
  "clct_separation_ram_adr_default = 0"

definition min_clct_separation_default :: int where [default_defs]:
  "min_clct_separation_default = 0xA"

definition l1a_allow_notmb_lookback_default :: int where [default_defs]:
  "l1a_allow_notmb_lookback_default = 0x80"

definition inj_wrdata_msb_default :: int where [default_defs]:
  "inj_wrdata_msb_default = 0"

definition l1a_priority_enable_default :: int where [default_defs]:
  "l1a_priority_enable_default = 1"

definition alct_sync_rxdata_dly_default :: int where [default_defs]:
  "alct_sync_rxdata_dly_default = 0"

definition alct_sync_tx_random_default :: int where [default_defs]:
  "alct_sync_tx_random_default = 0"

definition alct_sync_clear_errors_default :: int where [default_defs]:
  "alct_sync_clear_errors_default = 0"

definition alct_sync_txdata_1st_default :: int where [default_defs]:
  "alct_sync_txdata_1st_default = 0"

definition alct_sync_txdata_2nd_default :: int where [default_defs]:
  "alct_sync_txdata_2nd_default = 0"

definition miniscope_enable_default :: int where [default_defs]:
  "miniscope_enable_default = 1"

definition mini_tbins_test_default :: int where [default_defs]:
  "mini_tbins_test_default = 0"

definition mini_tbins_word_default :: int where [default_defs]:
  "mini_tbins_word_default = 1"

definition fifo_tbins_mini_default :: int where [default_defs]:
  "fifo_tbins_mini_default = 0x16"

definition fifo_pretrig_mini_default :: int where [default_defs]:
  "fifo_pretrig_mini_default = 4"

definition fire_phaser_default :: int where [default_defs]:
  "fire_phaser_default = 0"

definition reset_phase_default :: int where [default_defs]:
  "reset_phase_default = 0"

definition alct_rx_clock_delay_default :: int where [default_defs]:
  "alct_rx_clock_delay_default = 3"

definition alct_rx_posneg_default :: int where [default_defs]:
  "alct_rx_posneg_default = 0"

definition alct_tx_clock_delay_default :: int where [default_defs]:
  "alct_tx_clock_delay_default = 3"

definition alct_tx_posneg_default :: int where [default_defs]:
  "alct_tx_posneg_default = 0"

definition cfeb0_rx_clock_delay_default :: int where [default_defs]:
  "cfeb0_rx_clock_delay_default = 3"

definition cfeb0_rx_posneg_default :: int where [default_defs]:
  "cfeb0_rx_posneg_default = 0"

definition cfeb1_rx_clock_delay_default :: int where [default_defs]:
  "cfeb1_rx_clock_delay_default = 3"

definition cfeb1_rx_posneg_default :: int where [default_defs]:
  "cfeb1_rx_posneg_default = 0"

definition cfeb2_rx_clock_delay_default :: int where [default_defs]:
  "cfeb2_rx_clock_delay_default = 3"

definition cfeb2_rx_posneg_default :: int where [default_defs]:
  "cfeb2_rx_posneg_default = 0"

definition cfeb3_rx_clock_delay_default :: int where [default_defs]:
  "cfeb3_rx_clock_delay_default = 3"

definition cfeb3_rx_posneg_default :: int where [default_defs]:
  "cfeb3_rx_posneg_default = 0"

definition cfeb4_rx_clock_delay_default :: int where [default_defs]:
  "cfeb4_rx_clock_delay_default = 3"

definition cfeb4_rx_posneg_default :: int where [default_defs]:
  "cfeb4_rx_posneg_default = 0"

definition cfeb0_rxd_int_delay_default :: int where [default_defs]:
  "cfeb0_rxd_int_delay_default = 0"

definition cfeb1_rxd_int_delay_default :: int where [default_defs]:
  "cfeb1_rxd_int_delay_default = 0"

definition cfeb2_rxd_int_delay_default :: int where [default_defs]:
  "cfeb2_rxd_int_delay_default = 0"

definition cfeb3_rxd_int_delay_default :: int where [default_defs]:
  "cfeb3_rxd_int_delay_default = 0"

definition cfeb4_rxd_int_delay_default :: int where [default_defs]:
  "cfeb4_rxd_int_delay_default = 0"

definition sync_err_reset_default :: int where [default_defs]:
  "sync_err_reset_default = 0"

definition clct_bx0_sync_err_enable_default :: int where [default_defs]:
  "clct_bx0_sync_err_enable_default = 1"

definition alct_ecc_rx_sync_err_enable_default :: int where [default_defs]:
  "alct_ecc_rx_sync_err_enable_default = 0"

definition alct_ecc_tx_sync_err_enable_default :: int where [default_defs]:
  "alct_ecc_tx_sync_err_enable_default = 0"

definition bx0_match_sync_err_enable_default :: int where [default_defs]:
  "bx0_match_sync_err_enable_default = 0"

definition clock_lock_lost_sync_err_enable_default :: int where [default_defs]:
  "clock_lock_lost_sync_err_enable_default = 0"

definition sync_err_blanks_mpc_enable_default :: int where [default_defs]:
  "sync_err_blanks_mpc_enable_default = 0"

definition sync_err_stops_pretrig_enable_default :: int where [default_defs]:
  "sync_err_stops_pretrig_enable_default = 0"

definition sync_err_stops_readout_enable_default :: int where [default_defs]:
  "sync_err_stops_readout_enable_default = 0"

definition cfeb_badbits_reset_default :: int where [default_defs]:
  "cfeb_badbits_reset_default = 0"

definition cfeb_badbits_block_default :: int where [default_defs]:
  "cfeb_badbits_block_default = 0"

definition cfeb_badbits_nbx_default :: int where [default_defs]:
  "cfeb_badbits_nbx_default = 0xDEC"

section \<open>Values the status checks expect\<close>

named_theorems expected_defs \<comment> \<open>expected values\<close>

definition boot_control_jtag_chain_expected :: int where [expected_defs]:
  "boot_control_jtag_chain_expected = 0"

definition ddd_state_machine_busy_expected :: int where [expected_defs]:
  "ddd_state_machine_busy_expected = 0"

definition ddd_state_machine_verify_ok_expected :: int where [expected_defs]:
  "ddd_state_machine_verify_ok_expected = 1"

definition ddd_state_machine_clock0_lock_expected :: int where [expected_defs]:
  "ddd_state_machine_clock0_lock_expected = 1"

definition ddd_state_machine_clock0d_lock_expected :: int where [expected_defs]:
  "ddd_state_machine_clock0d_lock_expected = 1"

definition ddd_state_machine_clock1_lock_expected :: int where [expected_defs]:
  "ddd_state_machine_clock1_lock_expected = 0"

definition ddd_state_machine_clock_alct_lock_expected :: int where [expected_defs]:
  "ddd_state_machine_clock_alct_lock_expected = 1"

definition ddd_state_machine_clockd_alct_lock_expected :: int where [expected_defs]:
  "ddd_state_machine_clockd_alct_lock_expected = 1"

definition ddd_state_machine_clock_cfeb_lock_expected :: int where [expected_defs]:
  "ddd_state_machine_clock_cfeb_lock_expected = 0"

definition ddd_state_machine_clock_dcc_lock_expected :: int where [expected_defs]:
  "ddd_state_machine_clock_dcc_lock_expected = 1"

definition jtag_state_machine_autostart_expected :: int where [expected_defs]:
  "jtag_state_machine_autostart_expected = 1"

definition jtag_state_machine_aborted_expected :: int where [expected_defs]:
  "jtag_state_machine_aborted_expected = 0"

definition jtag_state_machine_cksum_ok_expected :: int where [expected_defs]:
  "jtag_state_machine_cksum_ok_expected = 1"

definition jtag_state_machine_wdcnt_ok_expected :: int where [expected_defs]:
  "jtag_state_machine_wdcnt_ok_expected = 1"

definition jtag_state_machine_tck_fpga_ok_expected :: int where [expected_defs]:
  "jtag_state_machine_tck_fpga_ok_expected = 1"

definition jtag_state_machine_vme_ready_expected :: int where [expected_defs]:
  "jtag_state_machine_vme_ready_expected = 1"

definition jtag_state_machine_ok_expected :: int where [expected_defs]:
  "jtag_state_machine_ok_expected = 1"

definition vme_state_machine_autostart_expected :: int where [expected_defs]:
  "vme_state_machine_autostart_expected = 1"

definition vme_state_machine_aborted_expected :: int where [expected_defs]:
  "vme_state_machine_aborted_expected = 0"

definition vme_state_machine_cksum_ok_expected :: int where [expected_defs]:
  "vme_state_machine_cksum_ok_expected = 1"

definition vme_state_machine_wdcnt_ok_expected :: int where [expected_defs]:
  "vme_state_machine_wdcnt_ok_expected = 1"

definition vme_state_machine_vme_ready_expected :: int where [expected_defs]:
  "vme_state_machine_vme_ready_expected = 1"

definition vme_state_machine_ok_expected :: int where [expected_defs]:
  "vme_state_machine_ok_expected = 1"

definition vme_state_machine_path_ok_expected :: int where [expected_defs]:
  "vme_state_machine_path_ok_expected = 1"

definition vme_state_machine_error_missing_header_start_expected :: int where [expected_defs]:
  "vme_state_machine_error_missing_header_start_expected = 0"

definition vme_state_machine_error_missing_header_end_expected :: int where [expected_defs]:
  "vme_state_machine_error_missing_header_end_expected = 0"

definition vme_state_machine_error_missing_data_end_marker_expected :: int where [expected_defs]:
  "vme_state_machine_error_missing_data_end_marker_expected = 0"

definition vme_state_machine_error_missing_trailer_end_expected :: int where [expected_defs]:
  "vme_state_machine_error_missing_trailer_end_expected = 0"

definition vme_state_machine_error_word_count_overflow_expected :: int where [expected_defs]:
  "vme_state_machine_error_word_count_overflow_expected = 0"

definition bdstatus_ok_expected :: int where [expected_defs]:
  "bdstatus_ok_expected = 1"

definition vstat_5p0v_expected :: int where [expected_defs]:
  "vstat_5p0v_expected = 1"

definition vstat_3p3v_expected :: int where [expected_defs]:
  "vstat_3p3v_expected = 1"

definition vstat_1p8v_expected :: int where [expected_defs]:
  "vstat_1p8v_expected = 1"

definition vstat_1p5v_expected :: int where [expected_defs]:
  "vstat_1p5v_expected = 1"

definition nt_crit_expected :: int where [expected_defs]:
  "nt_crit_expected = 1"

definition vsm_ok_expected :: int where [expected_defs]:
  "vsm_ok_expected = vme_state_machine_ok_expected"

definition vsm_aborted_expected :: int where [expected_defs]:
  "vsm_aborted_expected = vme_state_machine_aborted_expected"

definition vsm_cksum_ok_expected :: int where [expected_defs]:
  "vsm_cksum_ok_expected = vme_state_machine_cksum_ok_expected"

definition vsm_wdcnt_ok_expected :: int where [expected_defs]:
  "vsm_wdcnt_ok_expected = vme_state_machine_wdcnt_ok_expected"

definition jsm_ok_expected :: int where [expected_defs]:
  "jsm_ok_expected = jtag_state_machine_ok_expected"

definition jsm_aborted_expected :: int where [expected_defs]:
  "jsm_aborted_expected = jtag_state_machine_aborted_expected"

definition jsm_cksum_ok_expected :: int where [expected_defs]:
  "jsm_cksum_ok_expected = jtag_state_machine_cksum_ok_expected"

definition jsm_wdcnt_ok_expected :: int where [expected_defs]:
  "jsm_wdcnt_ok_expected = jtag_state_machine_wdcnt_ok_expected"

definition jsm_tck_fpga_ok_expected :: int where [expected_defs]:
  "jsm_tck_fpga_ok_expected = jtag_state_machine_tck_fpga_ok_expected"

section \<open>Further constants\<close>

definition number_of_available_bins_per_clock_cycle :: int where [default_defs]:
  "number_of_available_bins_per_clock_cycle = 0x100"

definition maximum_number_of_phase_delay_values :: int where [default_defs]:
  "maximum_number_of_phase_delay_values = 0x19"

definition CLCT_trigger :: int where [default_defs]:
  "CLCT_trigger = 1"

definition ALCT_trigger :: int where [default_defs]:
  "ALCT_trigger = 2"

definition Scintillator_trigger :: int where [default_defs]:
  "Scintillator_trigger = 3"

definition DMB_trigger :: int where [default_defs]:
  "DMB_trigger = 4"

definition ALCT_CLCT_coincidence_trigger :: int where [default_defs]:
  "ALCT_CLCT_coincidence_trigger = 5"

definition TMB_FIRMWARE_TYPE_A :: int where [default_defs]:
  "TMB_FIRMWARE_TYPE_A = 0xA"

definition TMB_FIRMWARE_TYPE_B :: int where [default_defs]:
  "TMB_FIRMWARE_TYPE_B = 0xB"

definition TMB_FIRMWARE_TYPE_C :: int where [default_defs]:
  "TMB_FIRMWARE_TYPE_C = 0xC"

definition TMB_FIRMWARE_TYPE_D :: int where [default_defs]:
  "TMB_FIRMWARE_TYPE_D = 0xD"

section \<open>Hot channel masks: layer and distrip of every bit of a register\<close>

named_theorems hotmap_defs \<comment> \<open>the arrays of the hot channel maps\<close>

definition cfeb0_layer01_hotchannelmask_layer_map :: "int list" where [hotmap_defs]:
  "cfeb0_layer01_hotchannelmask_layer_map =
    [0, 0, 0, 0, 0, 0, 0, 0, 1, 1, 1, 1, 1, 1, 1, 1]"

definition cfeb0_layer01_hotchannelmask_distrip_map :: "int list" where [hotmap_defs]:
  "cfeb0_layer01_hotchannelmask_distrip_map =
    [0, 1, 2, 3, 4, 5, 6, 7, 0, 1, 2, 3, 4, 5, 6, 7]"

definition cfeb0_layer23_hotchannelmask_layer_map :: "int list" where [hotmap_defs]:
  "cfeb0_layer23_hotchannelmask_layer_map =
    [2, 2, 2, 2, 2, 2, 2, 2, 3, 3, 3, 3, 3, 3, 3, 3]"

definition cfeb0_layer23_hotchannelmask_distrip_map :: "int list" where [hotmap_defs]:
  "cfeb0_layer23_hotchannelmask_distrip_map =
    [0, 1, 2, 3, 4, 5, 6, 7, 0, 1, 2, 3, 4, 5, 6, 7]"

definition cfeb0_layer45_hotchannelmask_layer_map :: "int list" where [hotmap_defs]:
  "cfeb0_layer45_hotchannelmask_layer_map =
    [4, 4, 4, 4, 4, 4, 4, 4, 5, 5, 5, 5, 5, 5, 5, 5]"

definition cfeb0_layer45_hotchannelmask_distrip_map :: "int list" where [hotmap_defs]:
  "cfeb0_layer45_hotchannelmask_distrip_map =
    [0, 1, 2, 3, 4, 5, 6, 7, 0, 1, 2, 3, 4, 5, 6, 7]"

definition cfeb1_layer01_hotchannelmask_layer_map :: "int list" where [hotmap_defs]:
  "cfeb1_layer01_hotchannelmask_layer_map =
    [0, 0, 0, 0, 0, 0, 0, 0, 1, 1, 1, 1, 1, 1, 1, 1]"

definition cfeb1_layer01_hotchannelmask_distrip_map :: "int list" where [hotmap_defs]:
  "cfeb1_layer01_hotchannelmask_distrip_map =
    [8, 9, 10, 11, 12, 13, 14, 15, 8, 9, 10, 11, 12, 13, 14, 15]"

definition cfeb1_layer23_hotchannelmask_layer_map :: "int list" where [hotmap_defs]:
  "cfeb1_layer23_hotchannelmask_layer_map =
    [2, 2, 2, 2, 2, 2, 2, 2, 3, 3, 3, 3, 3, 3, 3, 3]"

definition cfeb1_layer23_hotchannelmask_distrip_map :: "int list" where [hotmap_defs]:
  "cfeb1_layer23_hotchannelmask_distrip_map =
    [8, 9, 10, 11, 12, 13, 14, 15, 8, 9, 10, 11, 12, 13, 14, 15]"

definition cfeb1_layer45_hotchannelmask_layer_map :: "int list" where [hotmap_defs]:
  "cfeb1_layer45_hotchannelmask_layer_map =
    [4, 4, 4, 4, 4, 4, 4, 4, 5, 5, 5, 5, 5, 5, 5, 5]"

definition cfeb1_layer45_hotchannelmask_distrip_map :: "int list" where [hotmap_defs]:
  "cfeb1_layer45_hotchannelmask_distrip_map =
    [8, 9, 10, 11, 12, 13, 14, 15, 8, 9, 10, 11, 12, 13, 14, 15]"

definition cfeb2_layer01_hotchannelmask_layer_map :: "int list" where [hotmap_defs]:
  "cfeb2_layer01_hotchannelmask_layer_map =
    [0, 0, 0, 0, 0, 0, 0, 0, 1, 1, 1, 1, 1, 1, 1, 1]"

definition cfeb2_layer01_hotchannelmask_distrip_map :: "int list" where [hotmap_defs]:
  "cfeb2_layer01_hotchannelmask_distrip_map =
    [16, 17, 18, 19, 20, 21, 22, 23, 16, 17, 18, 19, 20, 21, 22, 23]"

definition cfeb2_layer23_hotchannelmask_layer_map :: "int list" where [hotmap_defs]:
  "cfeb2_layer23_hotchannelmask_layer_map =
    [2, 2, 2, 2, 2, 2, 2, 2, 3, 3, 3, 3, 3, 3, 3, 3]"

definition cfeb2_layer23_hotchannelmask_distrip_map :: "int list" where [hotmap_defs]:
  "cfeb2_layer23_hotchannelmask_distrip_map =
    [16, 17, 18, 19, 20, 21, 22, 23, 16, 17, 18, 19, 20, 21, 22, 23]"

definition cfeb2_layer45_hotchannelmask_layer_map :: "int list" where [hotmap_defs]:
  "cfeb2_layer45_hotchannelmask_layer_map =
    [4, 4, 4, 4, 4, 4, 4, 4, 5, 5, 5, 5, 5, 5, 5, 5]"

definition cfeb2_layer45_hotchannelmask_distrip_map :: "int list" where [hotmap_defs]:
  "cfeb2_layer45_hotchannelmask_distrip_map =
    [16, 17, 18, 19, 20, 21, 22, 23, 16, 17, 18, 19, 20, 21, 22, 23]"

definition cfeb3_layer01_hotchannelmask_layer_map :: "int list" where [hotmap_defs]:
  "cfeb3_layer01_hotchannelmask_layer_map =
    [0, 0, 0, 0, 0, 0, 0, 0, 1, 1, 1, 1, 1, 1, 1, 1]"

definition cfeb3_layer01_hotchannelmask_distrip_map :: "int list" where [hotmap_defs]:
  "cfeb3_layer01_hotchannelmask_distrip_map =
    [24, 25, 26, 27, 28, 29, 30, 31, 24, 25, 26, 27, 28, 29, 30, 31]"

definition cfeb3_layer23_hotchannelmask_layer_map :: "int list" where [hotmap_defs]:
  "cfeb3_layer23_hotchannelmask_layer_map =
    [2, 2, 2, 2, 2, 2, 2, 2, 3, 3, 3, 3, 3, 3, 3, 3]"

definition cfeb3_layer23_hotchannelmask_distrip_map :: "int list" where [hotmap_defs]:
  "cfeb3_layer23_hotchannelmask_distrip_map =
    [24, 25, 26, 27, 28, 29, 30, 31, 24, 25, 26, 27, 28, 29, 30, 31]"

definition cfeb3_layer45_hotchannelmask_layer_map :: "int list" where [hotmap_defs]:
  "cfeb3_layer45_hotchannelmask_layer_map =
    [4, 4, 4, 4, 4, 4, 4, 4, 5, 5, 5, 5, 5, 5, 5, 5]"

definition cfeb3_layer45_hotchannelmask_distrip_map :: "int list" where [hotmap_defs]:
  "cfeb3_layer45_hotchannelmask_distrip_map =
    [24, 25, 26, 27, 28, 29, 30, 31, 24, 25, 26, 27, 28, 29, 30, 31]"

definition cfeb4_layer01_hotchannelmask_layer_map :: "int list" where [hotmap_defs]:
  "cfeb4_layer01_hotchannelmask_layer_map =
    [0, 0, 0, 0, 0, 0, 0, 0, 1, 1, 1, 1, 1, 1, 1, 1]"

definition cfeb4_layer01_hotchannelmask_distrip_map :: "int list" where [hotmap_defs]:
  "cfeb4_layer01_hotchannelmask_distrip_map =
    [32, 33, 34, 35, 36, 37, 38, 39, 32, 33, 34, 35, 36, 37, 38, 39]"

definition cfeb4_layer23_hotchannelmask_layer_map :: "int list" where [hotmap_defs]:
  "cfeb4_layer23_hotchannelmask_layer_map =
    [2, 2, 2, 2, 2, 2, 2, 2, 3, 3, 3, 3, 3, 3, 3, 3]"

definition cfeb4_layer23_hotchannelmask_distrip_map :: "int list" where [hotmap_defs]:
  "cfeb4_layer23_hotchannelmask_distrip_map =
    [32, 33, 34, 35, 36, 37, 38, 39, 32, 33, 34, 35, 36, 37, 38, 39]"

definition cfeb4_layer45_hotchannelmask_layer_map :: "int list" where [hotmap_defs]:
  "cfeb4_layer45_hotchannelmask_layer_map =
    [4, 4, 4, 4, 4, 4, 4, 4, 5, 5, 5, 5, 5, 5, 5, 5]"

definition cfeb4_layer45_hotchannelmask_distrip_map :: "int list" where [hotmap_defs]:
  "cfeb4_layer45_hotchannelmask_distrip_map =
    [32, 33, 34, 35, 36, 37, 38, 39, 32, 33, 34, 35, 36, 37, 38, 39]"

end
