(* ===== verification/TMB_Registers.thy ===== *)
theory TMB_Registers
  imports Bits TMB_Constants
begin

text \<open>
  The register file of the trigger motherboard as the class \<^verbatim>\<open>TMB\<close> keeps it
  (\<^verbatim>\<open>PeripheralCore/src/common/TMB.cc\<close>): the member variables, \<^verbatim>\<open>DecodeTMBRegister_\<close>,
  \<^verbatim>\<open>DecodeBootRegister_\<close>, \<^verbatim>\<open>FillTMBRegister\<close>, the hot channel maps and the conversion of the digital
  phases.

  A member \<^verbatim>\<open>X_\<close> (the value to write) is \<open>wr t X\<close>, its companion \<^verbatim>\<open>read_X_\<close> (the value last decoded
  from the board) is \<open>rd t X\<close>. Every branch of the two else-if chains is the list of the fields it
  handles, in the order of the statements, and the chain itself is an association list from the
  addresses to the branches (the addresses are distinct, so the first match is the only one). The
  branches that do more than copy fields are written out.
\<close>

section \<open>State\<close>

text \<open>The nine digital phase shifters, in the order of their addresses in the chain.\<close>

datatype phaser = Alct_rx | Alct_tx | Cfeb0_rx | Cfeb1_rx | Cfeb2_rx | Cfeb3_rx | Cfeb4_rx
  | Cfeb5_rx | Cfeb6_rx

text \<open>The items of the firmware identification that are compared with the expected ones.\<close>

datatype firmware_item = Month | Day | Year | Version | Revcode | Fw_type

record tmb =
  wr :: "bitfield \<Rightarrow> int"
  rd :: "bitfield \<Rightarrow> int"
  hot_channel_mask :: "int \<times> int \<Rightarrow> int"
  read_hot_channel_mask :: "int \<times> int \<Rightarrow> int"
  read_badbits :: "int \<times> int \<Rightarrow> int"
  clock_delay :: "phaser \<Rightarrow> int"
  posneg :: "phaser \<Rightarrow> int"
  read_clock_delay :: "phaser \<Rightarrow> int"
  read_posneg :: "phaser \<Rightarrow> int"
  trgmode :: int
  read_trgmode :: int
  hardware_version :: int
  slot :: int
  read_firmware :: "firmware_item \<Rightarrow> int"
  firmware :: "firmware_item \<Rightarrow> int"
  expected_compile_type :: int
  fill_vme_write_vecs :: bool
  vme_write_vecs :: "(int \<times> int \<times> int) list"
  number_of_configuration_reads :: nat
  tmb_configuration_status :: int
  vme_state_machine_status :: int
  jtag_state_machine_status :: int
  ddd_state_machine_status :: int
  raw_hits_header_status :: int

section \<open>Decoding: the branches that copy fields\<close>

definition read_field :: "int \<Rightarrow> bitfield \<Rightarrow> int" where
  "read_field data f = ExtractValueFromData data (bitlo f) (bithi f)"

definition decode_fields :: "bitfield list \<Rightarrow> int \<Rightarrow> tmb \<Rightarrow> tmb" where
  "decode_fields fs data t = t\<lparr>rd := upd_all (read_field data) fs (rd t)\<rparr>"

named_theorems decoded_defs \<comment> \<open>the fields each branch of the decoder copies\<close>

definition vme_loopbk_decoded :: "bitfield list" where [decoded_defs]:
  "vme_loopbk_decoded =
     [cfeb_oe, alct_loop, enable_alct_rx, enable_alct_tx, rpc_loop_rat, rpc_loop_tmb, dmb_loop,
      dmb_oe, gtl_loop, gtl_oe]"

definition vme_dddsm_decoded :: "bitfield list" where [decoded_defs]:
  "vme_dddsm_decoded =
     [ddd_state_machine_start, ddd_state_machine_manual, ddd_state_machine_latch,
      ddd_state_machine_serial_in, ddd_state_machine_serial_out, ddd_state_machine_autostart,
      ddd_state_machine_busy, ddd_state_machine_verify_ok, ddd_state_machine_clock0_lock,
      ddd_state_machine_clock0d_lock, ddd_state_machine_clock1_lock,
      ddd_state_machine_clock_alct_lock, ddd_state_machine_clockd_alct_lock,
      ddd_state_machine_clock_cfeb_lock, ddd_state_machine_clock_dcc_lock,
      ddd_state_machine_clock_rpc_lock]"

definition vme_ddd0_decoded :: "bitfield list" where [decoded_defs]:
  "vme_ddd0_decoded =
     [alct_tof_delay, dmb_tx_delay, rat_tmb_delay]"

definition vme_ddd1_decoded :: "bitfield list" where [decoded_defs]:
  "vme_ddd1_decoded =
     [tmb1_phase, cfeb_tof_delay, cfeb0_tof_delay]"

definition vme_ddd2_decoded :: "bitfield list" where [decoded_defs]:
  "vme_ddd2_decoded =
     [cfeb1_tof_delay, cfeb2_tof_delay, cfeb3_tof_delay, cfeb4_tof_delay]"

definition vme_ratctrl_decoded :: "bitfield list" where [decoded_defs]:
  "vme_ratctrl_decoded =
     [rpc_sync, shift_rpc, rat_dsn_en]"

definition vme_adc_decoded :: "bitfield list" where [decoded_defs]:
  "vme_adc_decoded =
     [adc_vstat_5p0v, adc_vstat_3p3v, adc_vstat_1p8v, adc_vstat_1p5v, temp_not_critical,
      voltage_adc_data_out, voltage_adc_serial_clock, voltage_adc_data_in,
      voltage_adc_chip_select, temperature_adc_serial_clock, temperature_adc_serial_data]"

definition ccb_cfg_decoded :: "bitfield list" where [decoded_defs]:
  "ccb_cfg_decoded =
     [ignore_ccb_rx, disable_ccb_tx, enable_internal_l1a, enable_alctclct_status_to_ccb,
      enable_alct_status_to_ccb, enable_clct_status_to_ccb, fire_l1a_oneshot]"

definition ccb_trig_decoded :: "bitfield list" where [decoded_defs]:
  "ccb_trig_decoded =
     [alct_ext_trig_l1aen, clct_ext_trig_l1aen, request_l1a, alct_ext_trig_vme,
      clct_ext_trig_vme, ext_trig_both, ccb_allow_bypass, ignore_ccb_startstop,
      internal_l1a_delay_vme]"

definition alct_cfg_decoded :: "bitfield list" where [decoded_defs]:
  "alct_cfg_decoded =
     [cfg_alct_ext_trig_en, cfg_alct_ext_inject_en, cfg_alct_ext_trig, cfg_alct_ext_inject,
      alct_seq_cmd, alct_clock_en_use_ccb, alct_clock_en_use_vme, alct_muonic, cfeb_muonic]"

definition alct_inj_decoded :: "bitfield list" where [decoded_defs]:
  "alct_inj_decoded =
     [alct_clear, alct_inject_mux, alct_sync_clct, alct_inj_delay]"

definition alct_stat_decoded :: "bitfield list" where [decoded_defs]:
  "alct_stat_decoded =
     [alct_cfg_done, alct_ecc_en, alct_ecc_err_blank, alct_sync_ecc_err, alct_txdata_delay]"

definition alct_alct0_decoded :: "bitfield list" where [decoded_defs]:
  "alct_alct0_decoded =
     [alct0_valid, alct0_quality, alct0_amu, alct0_key_wg, alct0_bxn]"

definition alct_alct1_decoded :: "bitfield list" where [decoded_defs]:
  "alct_alct1_decoded =
     [alct1_valid, alct1_quality, alct1_amu, alct1_key_wg, alct1_bxn]"

definition alct_fifo_decoded :: "bitfield list" where [decoded_defs]:
  "alct_fifo_decoded =
     [alct_raw_busy, alct_raw_done, alct_raw_word_count, alct_raw_msbs]"

definition cfeb_inj_decoded :: "bitfield list" where [decoded_defs]:
  "cfeb_inj_decoded =
     [enableCLCTInputs, cfeb_ram_sel, cfeb_inj_en_sel, start_pattern_inj]"

definition seq_trig_en_decoded :: "bitfield list" where [decoded_defs]:
  "seq_trig_en_decoded =
     [clct_pat_trig_en, alct_pat_trig_en, match_pat_trig_en, adb_ext_trig_en, dmb_ext_trig_en,
      clct_ext_trig_en, alct_ext_trig_en, vme_ext_trig, ext_trig_inject, all_cfeb_active,
      cfebs_enabled, cfeb_enable_source]"

definition seq_trig_dly0_decoded :: "bitfield list" where [decoded_defs]:
  "seq_trig_dly0_decoded =
     [alct_pretrig_width, alct_pretrig_delay, alct_pattern_delay, adb_ext_trig_delay]"

definition seq_trig_dly1_decoded :: "bitfield list" where [decoded_defs]:
  "seq_trig_dly1_decoded =
     [dmb_ext_trig_delay, clct_ext_trig_delay, alct_ext_trig_delay]"

definition seq_id_decoded :: "bitfield list" where [decoded_defs]:
  "seq_id_decoded =
     [tmb_slot, csc_id, run_id]"

definition seq_clct_decoded :: "bitfield list" where [decoded_defs]:
  "seq_clct_decoded =
     [triad_persist, hit_thresh, aff_thresh, min_hits_pattern, drift_delay, pretrigger_halt]"

definition seq_fifo_decoded :: "bitfield list" where [decoded_defs]:
  "seq_fifo_decoded =
     [fifo_mode, fifo_tbins, fifo_pretrig, fifo_no_raw_hits, cfeb_badbits_readout]"

definition seq_l1a_decoded :: "bitfield list" where [decoded_defs]:
  "seq_l1a_decoded =
     [l1adelay, l1a_window_size, tmb_l1a_internal]"

definition seq_offset_decoded :: "bitfield list" where [decoded_defs]:
  "seq_offset_decoded =
     [l1a_offset, bxn_offset]"

definition seq_clct0_decoded :: "bitfield list" where [decoded_defs]:
  "seq_clct0_decoded =
     [CLCT0_valid, CLCT0_nhit, CLCT0_pattern, CLCT0_keyHalfStrip]"

definition seq_clct1_decoded :: "bitfield list" where [decoded_defs]:
  "seq_clct1_decoded =
     [CLCT1_valid, CLCT1_nhit, CLCT1_pattern, CLCT1_keyHalfStrip]"

definition tmb_trig_decoded :: "bitfield list" where [decoded_defs]:
  "tmb_trig_decoded =
     [tmb_sync_err_enable, tmb_allow_alct, tmb_allow_clct, tmb_allow_match, mpc_rx_delay,
      mpc_accept, mpc_reserved, mpc_sel_ttc_bx0, mpc_idle_blank, mpc_output_enable]"

definition scp_ctrl_decoded :: "bitfield list" where [decoded_defs]:
  "scp_ctrl_decoded =
     [scope_in_readout]"

definition alctfifo1_decoded :: "bitfield list" where [decoded_defs]:
  "alctfifo1_decoded =
     [alct_raw_reset, alct_raw_read_address, alct_demux_mode]"

definition alctfifo2_decoded :: "bitfield list" where [decoded_defs]:
  "alctfifo2_decoded =
     [alct_raw_lsbs]"

definition seqmod_decoded :: "bitfield list" where [decoded_defs]:
  "seqmod_decoded =
     [clct_flush_delay, wr_buffer_autoclear, clct_write_continuous_enable, wrt_buf_required,
      valid_clct_required, l1a_allow_match, l1a_allow_notmb, l1a_allow_nol1a,
      l1a_allow_alct_only, scint_veto_clr, scint_veto_vme]"

definition seqsm_decoded :: "bitfield list" where [decoded_defs]:
  "seqsm_decoded =
     [clct_state_machine, readout_state_machine, buffer_queue_full, buffer_queue_empty,
      buffer_queue_overflow, buffer_queue_underflow]"

definition seq_clctm_decoded :: "bitfield list" where [decoded_defs]:
  "seq_clctm_decoded =
     [CLCT_BXN, CLCT_sync_err]"

definition tmbtim_decoded :: "bitfield list" where [decoded_defs]:
  "tmbtim_decoded =
     [alct_vpf_delay, alct_match_window_size, mpc_tx_delay]"

definition rpc_cfg_decoded :: "bitfield list" where [decoded_defs]:
  "rpc_cfg_decoded =
     [rpc_exists, rpc_read_enable, rpc_bxn_offset, rpc_bank, rpc_rbxn, rpc_done]"

definition rpc_raw_delay_decoded :: "bitfield list" where [decoded_defs]:
  "rpc_raw_delay_decoded =
     [rpc0_raw_delay, rpc1_raw_delay]"

definition rpc_inj_decoded :: "bitfield list" where [decoded_defs]:
  "rpc_inj_decoded =
     [rpc_mask_all, inj_mask_rat, inj_mask_rpc, inj_delay_rat, rpc_inj_sel, rpc_inj_wdata,
      rpc_inj_rdata]"

definition rpc_tbins_decoded :: "bitfield list" where [decoded_defs]:
  "rpc_tbins_decoded =
     [fifo_tbins_rpc, fifo_pretrig_rpc, rpc_decouple]"

definition bx0_delay_decoded :: "bitfield list" where [decoded_defs]:
  "bx0_delay_decoded =
     [alct_bx0_delay, clct_bx0_delay, alct_bx0_enable, bx0_vpf_test, bx0_match]"

definition non_trig_readout_decoded :: "bitfield list" where [decoded_defs]:
  "non_trig_readout_decoded =
     [tmb_allow_alct_nontrig_readout, tmb_allow_clct_nontrig_readout,
      tmb_allow_match_nontrig_readout, mpc_block_me1a, clct_pretrigger_counter_non_me11,
      csc_me11, clct_stagger, reverse_stagger, reverse_me1a, reverse_me1b,
      tmb_firmware_compile_type]"

definition jtag_sm_ctrl_decoded :: "bitfield list" where [decoded_defs]:
  "jtag_sm_ctrl_decoded =
     [jtag_state_machine_start, jtag_state_machine_sreset, jtag_state_machine_autostart,
      jtag_state_machine_busy, jtag_state_machine_aborted, jtag_state_machine_cksum_ok,
      jtag_state_machine_wdcnt_ok, jtag_state_machine_tck_fpga_ok, jtag_state_machine_vme_ready,
      jtag_state_machine_ok, jtag_state_machine_oe, jtag_disable_write_to_adr10,
      jtag_state_machine_throttle]"

definition jtag_sm_wdcnt_decoded :: "bitfield list" where [decoded_defs]:
  "jtag_sm_wdcnt_decoded =
     [jtag_state_machine_word_count]"

definition jtag_sm_cksum_decoded :: "bitfield list" where [decoded_defs]:
  "jtag_sm_cksum_decoded =
     [jtag_state_machine_check_sum, jtag_state_machine_tck_fpga]"

definition vme_sm_ctrl_decoded :: "bitfield list" where [decoded_defs]:
  "vme_sm_ctrl_decoded =
     [vme_state_machine_start, vme_state_machine_sreset, vme_state_machine_autostart,
      vme_state_machine_busy, vme_state_machine_aborted, vme_state_machine_cksum_ok,
      vme_state_machine_wdcnt_ok, vme_state_machine_jtag_auto, vme_state_machine_vme_ready,
      vme_state_machine_ok, vme_state_machine_path_ok, phase_shifter_auto,
      vme_state_machine_throttle]"

definition vme_sm_wdcnt_decoded :: "bitfield list" where [decoded_defs]:
  "vme_sm_wdcnt_decoded =
     [vme_state_machine_word_count]"

definition vme_sm_cksum_decoded :: "bitfield list" where [decoded_defs]:
  "vme_sm_cksum_decoded =
     [vme_state_machine_check_sum, vme_state_machine_error_missing_header_start,
      vme_state_machine_error_missing_header_end,
      vme_state_machine_error_missing_data_end_marker,
      vme_state_machine_error_missing_trailer_end, vme_state_machine_error_word_count_overflow]"

definition num_vme_sm_adr_decoded :: "bitfield list" where [decoded_defs]:
  "num_vme_sm_adr_decoded =
     [vme_state_machine_number_of_vme_writes]"

definition rat_3d_delays_decoded :: "bitfield list" where [decoded_defs]:
  "rat_3d_delays_decoded =
     [rpc0_rat_delay, rpc1_rat_delay]"

definition tmb_stat_decoded :: "bitfield list" where [decoded_defs]:
  "tmb_stat_decoded =
     [bdstatus_ok, vstat_5p0v, vstat_3p3v, vstat_1p8v, vstat_1p5v, nt_crit, vsm_ok, vsm_aborted,
      vsm_cksum_ok, vsm_wdcnt_ok, jsm_ok, jsm_aborted, jsm_cksum_ok, jsm_wdcnt_ok,
      jsm_tck_fpga_ok]"

definition layer_trg_mode_decoded :: "bitfield list" where [decoded_defs]:
  "layer_trg_mode_decoded =
     [layer_trigger_en, layer_trig_thresh, number_layers_hit, clct_throttle]"

definition pattern_find_pretrg_decoded :: "bitfield list" where [decoded_defs]:
  "pattern_find_pretrg_decoded =
     [clct_blanking, clct_stagger, clct_pattern_id_thresh, clct_pattern_id_thresh_postdrift,
      adjacent_cfeb_distance]"

definition clct_separation_decoded :: "bitfield list" where [decoded_defs]:
  "clct_separation_decoded =
     [clct_separation_src, clct_separation_ram_write_enable, clct_separation_ram_adr,
      min_clct_separation]"

definition clock_status_decoded :: "bitfield list" where [decoded_defs]:
  "clock_status_decoded =
     [ccb_ttcrx_lock_never, ccb_ttcrx_lost_ever, ccb_qpll_lock_never, ccb_qpll_lost_ever]"

definition l1a_lookback_decoded :: "bitfield list" where [decoded_defs]:
  "l1a_lookback_decoded =
     [l1a_allow_notmb_lookback, inj_wrdata_msb, inj_rdata_msb, l1a_priority_enable]"

definition alct_sync_ctrl_decoded :: "bitfield list" where [decoded_defs]:
  "alct_sync_ctrl_decoded =
     [alct_sync_rxdata_dly, alct_sync_tx_random, alct_sync_clear_errors, alct_sync_1st_error,
      alct_sync_2nd_error, alct_sync_1st_error_latched, alct_sync_2nd_error_latched]"

definition alct_sync_txdata_1st_decoded :: "bitfield list" where [decoded_defs]:
  "alct_sync_txdata_1st_decoded =
     [alct_sync_txdata_1st]"

definition alct_sync_txdata_2nd_decoded :: "bitfield list" where [decoded_defs]:
  "alct_sync_txdata_2nd_decoded =
     [alct_sync_txdata_2nd]"

definition miniscope_decoded :: "bitfield list" where [decoded_defs]:
  "miniscope_decoded =
     [miniscope_enable, mini_tbins_test, mini_tbins_word, fifo_tbins_mini, fifo_pretrig_mini]"

definition phaser_decoded :: "bitfield list" where [decoded_defs]:
  "phaser_decoded =
     [fire_phaser, reset_phase, phaser_busy, digital_clock_manager_locked, phase_shifter_state,
      phaser_posneg, phase_value_within_quadrant, quarter_cycle_quadrant_select,
      half_cycle_quadrant_select]"

definition cfeb0_3_interstage_decoded :: "bitfield list" where [decoded_defs]:
  "cfeb0_3_interstage_decoded =
     [cfeb0_rxd_int_delay, cfeb1_rxd_int_delay, cfeb2_rxd_int_delay, cfeb3_rxd_int_delay]"

definition cfeb4_interstage_decoded :: "bitfield list" where [decoded_defs]:
  "cfeb4_interstage_decoded =
     [cfeb4_rxd_int_delay]"

definition sync_err_control_decoded :: "bitfield list" where [decoded_defs]:
  "sync_err_control_decoded =
     [sync_err_reset, clct_bx0_sync_err_enable, alct_ecc_rx_sync_err_enable,
      alct_ecc_tx_sync_err_enable, bx0_match_sync_err_enable, clock_lock_lost_sync_err_enable,
      sync_err_blanks_mpc_enable, sync_err_stops_pretrig_enable, sync_err_stops_readout_enable,
      sync_err, clct_bx0_sync_err, alct_ecc_rx_sync_err, alct_ecc_tx_sync_err,
      bx0_match_sync_err, clock_lock_lost_sync_err]"

definition cfeb_badbits_ctrl_decoded :: "bitfield list" where [decoded_defs]:
  "cfeb_badbits_ctrl_decoded =
     [cfeb_badbits_reset, cfeb_badbits_block, cfeb_badbits_found, cfeb_badbits_blocked]"

definition cfeb_badbits_timer_decoded :: "bitfield list" where [decoded_defs]:
  "cfeb_badbits_timer_decoded =
     [cfeb_badbits_nbx]"

text \<open>The bootstrap register has a decoder of its own, \<^verbatim>\<open>DecodeBootRegister_\<close>.\<close>

definition boot_decoded :: "bitfield list" where [decoded_defs]:
  "boot_decoded =
     [boot_tdi, boot_tms, boot_tck, boot_jtag_chain_select, boot_control_jtag_chain,
      boot_hard_reset_alct, boot_hard_reset_tmb, boot_disable_hard_reset_alct, boot_disable_VME,
      boot_disable_mezz_clock, boot_hard_reset_rat, boot_vme_ready, boot_tdo]"

definition DecodeBootRegister :: "int \<Rightarrow> tmb \<Rightarrow> tmb" where
  "DecodeBootRegister data t = decode_fields boot_decoded data t"

text \<open>The else-if chain of \<^verbatim>\<open>DecodeTMBRegister_\<close> over these branches.\<close>

definition decode_table :: "(int \<times> bitfield list) list" where
  "decode_table =
    [(vme_loopbk_adr, vme_loopbk_decoded),
     (vme_dddsm_adr, vme_dddsm_decoded),
     (vme_ddd0_adr, vme_ddd0_decoded),
     (vme_ddd1_adr, vme_ddd1_decoded),
     (vme_ddd2_adr, vme_ddd2_decoded),
     (vme_ratctrl_adr, vme_ratctrl_decoded),
     (vme_adc_adr, vme_adc_decoded),
     (ccb_cfg_adr, ccb_cfg_decoded),
     (ccb_trig_adr, ccb_trig_decoded),
     (alct_cfg_adr, alct_cfg_decoded),
     (alct_inj_adr, alct_inj_decoded),
     (alct_stat_adr, alct_stat_decoded),
     (alct_alct0_adr, alct_alct0_decoded),
     (alct_alct1_adr, alct_alct1_decoded),
     (alct_fifo_adr, alct_fifo_decoded),
     (cfeb_inj_adr, cfeb_inj_decoded),
     (seq_trig_en_adr, seq_trig_en_decoded),
     (seq_trig_dly0_adr, seq_trig_dly0_decoded),
     (seq_trig_dly1_adr, seq_trig_dly1_decoded),
     (seq_id_adr, seq_id_decoded),
     (seq_clct_adr, seq_clct_decoded),
     (seq_fifo_adr, seq_fifo_decoded),
     (seq_l1a_adr, seq_l1a_decoded),
     (seq_offset_adr, seq_offset_decoded),
     (seq_clct0_adr, seq_clct0_decoded),
     (seq_clct1_adr, seq_clct1_decoded),
     (tmb_trig_adr, tmb_trig_decoded),
     (scp_ctrl_adr, scp_ctrl_decoded),
     (alctfifo1_adr, alctfifo1_decoded),
     (alctfifo2_adr, alctfifo2_decoded),
     (seqmod_adr, seqmod_decoded),
     (seqsm_adr, seqsm_decoded),
     (seq_clctm_adr, seq_clctm_decoded),
     (tmbtim_adr, tmbtim_decoded),
     (rpc_cfg_adr, rpc_cfg_decoded),
     (rpc_raw_delay_adr, rpc_raw_delay_decoded),
     (rpc_inj_adr, rpc_inj_decoded),
     (rpc_tbins_adr, rpc_tbins_decoded),
     (bx0_delay_adr, bx0_delay_decoded),
     (non_trig_readout_adr, non_trig_readout_decoded),
     (jtag_sm_ctrl_adr, jtag_sm_ctrl_decoded),
     (jtag_sm_wdcnt_adr, jtag_sm_wdcnt_decoded),
     (jtag_sm_cksum_adr, jtag_sm_cksum_decoded),
     (vme_sm_ctrl_adr, vme_sm_ctrl_decoded),
     (vme_sm_wdcnt_adr, vme_sm_wdcnt_decoded),
     (vme_sm_cksum_adr, vme_sm_cksum_decoded),
     (num_vme_sm_adr_adr, num_vme_sm_adr_decoded),
     (rat_3d_delays_adr, rat_3d_delays_decoded),
     (tmb_stat_adr, tmb_stat_decoded),
     (layer_trg_mode_adr, layer_trg_mode_decoded),
     (pattern_find_pretrg_adr, pattern_find_pretrg_decoded),
     (clct_separation_adr, clct_separation_decoded),
     (clock_status_adr, clock_status_decoded),
     (l1a_lookback_adr, l1a_lookback_decoded),
     (alct_sync_ctrl_adr, alct_sync_ctrl_decoded),
     (alct_sync_txdata_1st_adr, alct_sync_txdata_1st_decoded),
     (alct_sync_txdata_2nd_adr, alct_sync_txdata_2nd_decoded),
     (miniscope_adr, miniscope_decoded),
     (cfeb0_3_interstage_adr, cfeb0_3_interstage_decoded),
     (cfeb4_interstage_adr, cfeb4_interstage_decoded),
     (sync_err_control_adr, sync_err_control_decoded),
     (cfeb_badbits_ctrl_adr, cfeb_badbits_ctrl_decoded),
     (cfeb_badbits_timer_adr, cfeb_badbits_timer_decoded)]"

section \<open>Filling: the branches that copy fields\<close>

named_theorems filled_defs \<comment> \<open>the fields each branch of the filler inserts\<close>

definition insert_fields :: "(bitfield \<Rightarrow> int) \<Rightarrow> bitfield list \<Rightarrow> int \<Rightarrow> int" where
  "insert_fields val fs data_word =
     fold (\<lambda>f w. InsertValueIntoDataWord (val f) (bithi f) (bitlo f) w) fs data_word"

definition vme_loopbk_filled :: "bitfield list" where [filled_defs]:
  "vme_loopbk_filled =
     [enable_alct_rx, enable_alct_tx]"

definition vme_dddsm_filled :: "bitfield list" where [filled_defs]:
  "vme_dddsm_filled =
     [ddd_state_machine_start, ddd_state_machine_manual, ddd_state_machine_latch,
      ddd_state_machine_serial_in, ddd_state_machine_serial_out, ddd_state_machine_autostart]"

definition vme_ddd0_filled :: "bitfield list" where [filled_defs]:
  "vme_ddd0_filled =
     [alct_tof_delay, dmb_tx_delay, rat_tmb_delay]"

definition vme_ddd1_filled :: "bitfield list" where [filled_defs]:
  "vme_ddd1_filled =
     [tmb1_phase, cfeb_tof_delay, cfeb0_tof_delay]"

definition vme_ddd2_filled :: "bitfield list" where [filled_defs]:
  "vme_ddd2_filled =
     [cfeb1_tof_delay, cfeb2_tof_delay, cfeb3_tof_delay, cfeb4_tof_delay]"

definition vme_ratctrl_filled :: "bitfield list" where [filled_defs]:
  "vme_ratctrl_filled =
     [rpc_sync, shift_rpc, rat_dsn_en]"

definition vme_adc_filled :: "bitfield list" where [filled_defs]:
  "vme_adc_filled =
     [voltage_adc_data_out, voltage_adc_serial_clock, voltage_adc_data_in,
      voltage_adc_chip_select, temperature_adc_serial_clock, temperature_adc_serial_data]"

definition ccb_cfg_filled :: "bitfield list" where [filled_defs]:
  "ccb_cfg_filled =
     [ignore_ccb_rx, disable_ccb_tx, enable_internal_l1a, enable_alctclct_status_to_ccb,
      enable_alct_status_to_ccb, enable_clct_status_to_ccb, fire_l1a_oneshot]"

definition ccb_trig_filled :: "bitfield list" where [filled_defs]:
  "ccb_trig_filled =
     [alct_ext_trig_l1aen, clct_ext_trig_l1aen, request_l1a, alct_ext_trig_vme,
      clct_ext_trig_vme, ext_trig_both, ccb_allow_bypass, ignore_ccb_startstop,
      internal_l1a_delay_vme]"

definition alct_cfg_filled :: "bitfield list" where [filled_defs]:
  "alct_cfg_filled =
     [cfg_alct_ext_trig_en, cfg_alct_ext_inject_en, cfg_alct_ext_trig, cfg_alct_ext_inject,
      alct_seq_cmd, alct_clock_en_use_ccb, alct_clock_en_use_vme]"

definition alct_inj_filled :: "bitfield list" where [filled_defs]:
  "alct_inj_filled =
     [alct_clear, alct_inject_mux, alct_sync_clct, alct_inj_delay]"

definition alct_stat_filled :: "bitfield list" where [filled_defs]:
  "alct_stat_filled =
     [alct_ecc_en, alct_ecc_err_blank, alct_txdata_delay]"

definition cfeb_inj_filled :: "bitfield list" where [filled_defs]:
  "cfeb_inj_filled =
     [enableCLCTInputs, cfeb_ram_sel, cfeb_inj_en_sel, start_pattern_inj]"

definition seq_trig_en_filled :: "bitfield list" where [filled_defs]:
  "seq_trig_en_filled =
     [clct_pat_trig_en, alct_pat_trig_en, match_pat_trig_en, adb_ext_trig_en, dmb_ext_trig_en,
      clct_ext_trig_en, alct_ext_trig_en, vme_ext_trig, ext_trig_inject, all_cfeb_active,
      cfebs_enabled, cfeb_enable_source]"

definition seq_trig_dly0_filled :: "bitfield list" where [filled_defs]:
  "seq_trig_dly0_filled =
     [alct_pretrig_width, alct_pretrig_delay, alct_pattern_delay, adb_ext_trig_delay]"

definition seq_trig_dly1_filled :: "bitfield list" where [filled_defs]:
  "seq_trig_dly1_filled =
     [dmb_ext_trig_delay, clct_ext_trig_delay, alct_ext_trig_delay]"

definition seq_id_filled :: "bitfield list" where [filled_defs]:
  "seq_id_filled =
     [tmb_slot, csc_id, run_id]"

definition seq_clct_filled :: "bitfield list" where [filled_defs]:
  "seq_clct_filled =
     [triad_persist, hit_thresh, aff_thresh, min_hits_pattern, drift_delay, pretrigger_halt]"

definition seq_fifo_filled :: "bitfield list" where [filled_defs]:
  "seq_fifo_filled =
     [fifo_mode, fifo_tbins, fifo_pretrig, fifo_no_raw_hits, cfeb_badbits_readout]"

definition seq_l1a_filled :: "bitfield list" where [filled_defs]:
  "seq_l1a_filled =
     [l1adelay, l1a_window_size, tmb_l1a_internal]"

definition seq_offset_filled :: "bitfield list" where [filled_defs]:
  "seq_offset_filled =
     [l1a_offset, bxn_offset]"

definition tmb_trig_filled :: "bitfield list" where [filled_defs]:
  "tmb_trig_filled =
     [tmb_sync_err_enable, tmb_allow_alct, tmb_allow_clct, tmb_allow_match, mpc_rx_delay,
      mpc_sel_ttc_bx0, mpc_idle_blank, mpc_output_enable]"

definition scp_ctrl_filled :: "bitfield list" where [filled_defs]:
  "scp_ctrl_filled =
     [scope_in_readout]"

definition alctfifo1_filled :: "bitfield list" where [filled_defs]:
  "alctfifo1_filled =
     [alct_raw_reset, alct_raw_read_address, alct_demux_mode]"

definition seqmod_filled :: "bitfield list" where [filled_defs]:
  "seqmod_filled =
     [clct_flush_delay, wr_buffer_autoclear, clct_write_continuous_enable, wrt_buf_required,
      valid_clct_required, l1a_allow_match, l1a_allow_notmb, l1a_allow_nol1a,
      l1a_allow_alct_only, scint_veto_clr]"

definition tmbtim_filled :: "bitfield list" where [filled_defs]:
  "tmbtim_filled =
     [alct_vpf_delay, alct_match_window_size, mpc_tx_delay]"

definition rpc_cfg_filled :: "bitfield list" where [filled_defs]:
  "rpc_cfg_filled =
     [rpc_exists, rpc_read_enable, rpc_bxn_offset, rpc_bank]"

definition rpc_raw_delay_filled :: "bitfield list" where [filled_defs]:
  "rpc_raw_delay_filled =
     [rpc0_raw_delay, rpc1_raw_delay]"

definition rpc_inj_filled :: "bitfield list" where [filled_defs]:
  "rpc_inj_filled =
     [rpc_mask_all, inj_mask_rat, inj_mask_rpc, inj_delay_rat, rpc_inj_sel, rpc_inj_wdata]"

definition rpc_tbins_filled :: "bitfield list" where [filled_defs]:
  "rpc_tbins_filled =
     [fifo_tbins_rpc, fifo_pretrig_rpc, rpc_decouple]"

definition bx0_delay_filled :: "bitfield list" where [filled_defs]:
  "bx0_delay_filled =
     [alct_bx0_delay, clct_bx0_delay, alct_bx0_enable, bx0_vpf_test]"

definition non_trig_readout_filled :: "bitfield list" where [filled_defs]:
  "non_trig_readout_filled =
     [tmb_allow_alct_nontrig_readout, tmb_allow_clct_nontrig_readout,
      tmb_allow_match_nontrig_readout, mpc_block_me1a, clct_pretrigger_counter_non_me11]"

definition jtag_sm_ctrl_filled :: "bitfield list" where [filled_defs]:
  "jtag_sm_ctrl_filled =
     [jtag_state_machine_start, jtag_state_machine_sreset, jtag_disable_write_to_adr10,
      jtag_state_machine_throttle]"

definition vme_sm_ctrl_filled :: "bitfield list" where [filled_defs]:
  "vme_sm_ctrl_filled =
     [vme_state_machine_start, vme_state_machine_sreset, vme_state_machine_jtag_auto,
      phase_shifter_auto, vme_state_machine_throttle]"

definition rat_3d_delays_filled :: "bitfield list" where [filled_defs]:
  "rat_3d_delays_filled =
     [rpc0_rat_delay, rpc1_rat_delay]"

definition layer_trg_mode_filled :: "bitfield list" where [filled_defs]:
  "layer_trg_mode_filled =
     [layer_trigger_en, layer_trig_thresh, clct_throttle]"

definition pattern_find_pretrg_filled :: "bitfield list" where [filled_defs]:
  "pattern_find_pretrg_filled =
     [clct_blanking, clct_pattern_id_thresh, clct_pattern_id_thresh_postdrift,
      adjacent_cfeb_distance]"

definition clct_separation_filled :: "bitfield list" where [filled_defs]:
  "clct_separation_filled =
     [clct_separation_src, clct_separation_ram_write_enable, clct_separation_ram_adr,
      min_clct_separation]"

definition l1a_lookback_filled :: "bitfield list" where [filled_defs]:
  "l1a_lookback_filled =
     [l1a_allow_notmb_lookback, inj_wrdata_msb, l1a_priority_enable]"

definition alct_sync_ctrl_filled :: "bitfield list" where [filled_defs]:
  "alct_sync_ctrl_filled =
     [alct_sync_rxdata_dly, alct_sync_tx_random, alct_sync_clear_errors]"

definition alct_sync_txdata_1st_filled :: "bitfield list" where [filled_defs]:
  "alct_sync_txdata_1st_filled =
     [alct_sync_txdata_1st]"

definition alct_sync_txdata_2nd_filled :: "bitfield list" where [filled_defs]:
  "alct_sync_txdata_2nd_filled =
     [alct_sync_txdata_2nd]"

definition miniscope_filled :: "bitfield list" where [filled_defs]:
  "miniscope_filled =
     [miniscope_enable, mini_tbins_test, mini_tbins_word, fifo_tbins_mini, fifo_pretrig_mini]"

definition cfeb0_3_interstage_filled :: "bitfield list" where [filled_defs]:
  "cfeb0_3_interstage_filled =
     [cfeb0_rxd_int_delay, cfeb1_rxd_int_delay, cfeb2_rxd_int_delay, cfeb3_rxd_int_delay]"

definition cfeb4_interstage_filled :: "bitfield list" where [filled_defs]:
  "cfeb4_interstage_filled =
     [cfeb4_rxd_int_delay]"

definition sync_err_control_filled :: "bitfield list" where [filled_defs]:
  "sync_err_control_filled =
     [sync_err_reset, clct_bx0_sync_err_enable, alct_ecc_rx_sync_err_enable,
      alct_ecc_tx_sync_err_enable, bx0_match_sync_err_enable, clock_lock_lost_sync_err_enable,
      sync_err_blanks_mpc_enable, sync_err_stops_pretrig_enable, sync_err_stops_readout_enable]"

definition cfeb_badbits_ctrl_filled :: "bitfield list" where [filled_defs]:
  "cfeb_badbits_ctrl_filled =
     [cfeb_badbits_reset, cfeb_badbits_block]"

definition cfeb_badbits_timer_filled :: "bitfield list" where [filled_defs]:
  "cfeb_badbits_timer_filled =
     [cfeb_badbits_nbx]"

text \<open>The else-if chain of \<^verbatim>\<open>FillTMBRegister\<close> over these branches.\<close>

definition fill_table :: "(int \<times> bitfield list) list" where
  "fill_table =
    [(vme_loopbk_adr, vme_loopbk_filled),
     (vme_dddsm_adr, vme_dddsm_filled),
     (vme_ddd0_adr, vme_ddd0_filled),
     (vme_ddd1_adr, vme_ddd1_filled),
     (vme_ddd2_adr, vme_ddd2_filled),
     (vme_ratctrl_adr, vme_ratctrl_filled),
     (vme_adc_adr, vme_adc_filled),
     (ccb_cfg_adr, ccb_cfg_filled),
     (ccb_trig_adr, ccb_trig_filled),
     (alct_cfg_adr, alct_cfg_filled),
     (alct_inj_adr, alct_inj_filled),
     (alct_stat_adr, alct_stat_filled),
     (cfeb_inj_adr, cfeb_inj_filled),
     (seq_trig_en_adr, seq_trig_en_filled),
     (seq_trig_dly0_adr, seq_trig_dly0_filled),
     (seq_trig_dly1_adr, seq_trig_dly1_filled),
     (seq_id_adr, seq_id_filled),
     (seq_clct_adr, seq_clct_filled),
     (seq_fifo_adr, seq_fifo_filled),
     (seq_l1a_adr, seq_l1a_filled),
     (seq_offset_adr, seq_offset_filled),
     (tmb_trig_adr, tmb_trig_filled),
     (scp_ctrl_adr, scp_ctrl_filled),
     (alctfifo1_adr, alctfifo1_filled),
     (seqmod_adr, seqmod_filled),
     (tmbtim_adr, tmbtim_filled),
     (rpc_cfg_adr, rpc_cfg_filled),
     (rpc_raw_delay_adr, rpc_raw_delay_filled),
     (rpc_inj_adr, rpc_inj_filled),
     (rpc_tbins_adr, rpc_tbins_filled),
     (bx0_delay_adr, bx0_delay_filled),
     (non_trig_readout_adr, non_trig_readout_filled),
     (jtag_sm_ctrl_adr, jtag_sm_ctrl_filled),
     (vme_sm_ctrl_adr, vme_sm_ctrl_filled),
     (rat_3d_delays_adr, rat_3d_delays_filled),
     (layer_trg_mode_adr, layer_trg_mode_filled),
     (pattern_find_pretrg_adr, pattern_find_pretrg_filled),
     (clct_separation_adr, clct_separation_filled),
     (l1a_lookback_adr, l1a_lookback_filled),
     (alct_sync_ctrl_adr, alct_sync_ctrl_filled),
     (alct_sync_txdata_1st_adr, alct_sync_txdata_1st_filled),
     (alct_sync_txdata_2nd_adr, alct_sync_txdata_2nd_filled),
     (miniscope_adr, miniscope_filled),
     (cfeb0_3_interstage_adr, cfeb0_3_interstage_filled),
     (cfeb4_interstage_adr, cfeb4_interstage_filled),
     (sync_err_control_adr, sync_err_control_filled),
     (cfeb_badbits_ctrl_adr, cfeb_badbits_ctrl_filled),
     (cfeb_badbits_timer_adr, cfeb_badbits_timer_filled)]"

section \<open>Hot channel masks\<close>

definition hot_layer_map :: "int \<Rightarrow> int list option" where
  "hot_layer_map vme_address =
     (if vme_address = hcm001_adr \<or> vme_address = badbits001_adr
      then Some cfeb0_layer01_hotchannelmask_layer_map
      else if vme_address = hcm023_adr \<or> vme_address = badbits023_adr
      then Some cfeb0_layer23_hotchannelmask_layer_map
      else if vme_address = hcm045_adr \<or> vme_address = badbits045_adr
      then Some cfeb0_layer45_hotchannelmask_layer_map
      else if vme_address = hcm101_adr \<or> vme_address = badbits101_adr
      then Some cfeb1_layer01_hotchannelmask_layer_map
      else if vme_address = hcm123_adr \<or> vme_address = badbits123_adr
      then Some cfeb1_layer23_hotchannelmask_layer_map
      else if vme_address = hcm145_adr \<or> vme_address = badbits145_adr
      then Some cfeb1_layer45_hotchannelmask_layer_map
      else if vme_address = hcm201_adr \<or> vme_address = badbits201_adr
      then Some cfeb2_layer01_hotchannelmask_layer_map
      else if vme_address = hcm223_adr \<or> vme_address = badbits223_adr
      then Some cfeb2_layer23_hotchannelmask_layer_map
      else if vme_address = hcm245_adr \<or> vme_address = badbits245_adr
      then Some cfeb2_layer45_hotchannelmask_layer_map
      else if vme_address = hcm301_adr \<or> vme_address = badbits301_adr
      then Some cfeb3_layer01_hotchannelmask_layer_map
      else if vme_address = hcm323_adr \<or> vme_address = badbits323_adr
      then Some cfeb3_layer23_hotchannelmask_layer_map
      else if vme_address = hcm345_adr \<or> vme_address = badbits345_adr
      then Some cfeb3_layer45_hotchannelmask_layer_map
      else if vme_address = hcm401_adr \<or> vme_address = badbits401_adr
      then Some cfeb4_layer01_hotchannelmask_layer_map
      else if vme_address = hcm423_adr \<or> vme_address = badbits423_adr
      then Some cfeb4_layer23_hotchannelmask_layer_map
      else if vme_address = hcm445_adr \<or> vme_address = badbits445_adr
      then Some cfeb4_layer45_hotchannelmask_layer_map
      else None)"

definition GetHotChannelLayerFromMap :: "int \<Rightarrow> nat \<Rightarrow> int" where
  "GetHotChannelLayerFromMap vme_address bit_in_register =
     (case hot_layer_map vme_address of Some m \<Rightarrow> m ! bit_in_register | None \<Rightarrow> -999)"

definition hot_distrip_map :: "int \<Rightarrow> int list option" where
  "hot_distrip_map vme_address =
     (if vme_address = hcm001_adr \<or> vme_address = badbits001_adr
      then Some cfeb0_layer01_hotchannelmask_distrip_map
      else if vme_address = hcm023_adr \<or> vme_address = badbits023_adr
      then Some cfeb0_layer23_hotchannelmask_distrip_map
      else if vme_address = hcm045_adr \<or> vme_address = badbits045_adr
      then Some cfeb0_layer45_hotchannelmask_distrip_map
      else if vme_address = hcm101_adr \<or> vme_address = badbits101_adr
      then Some cfeb1_layer01_hotchannelmask_distrip_map
      else if vme_address = hcm123_adr \<or> vme_address = badbits123_adr
      then Some cfeb1_layer23_hotchannelmask_distrip_map
      else if vme_address = hcm145_adr \<or> vme_address = badbits145_adr
      then Some cfeb1_layer45_hotchannelmask_distrip_map
      else if vme_address = hcm201_adr \<or> vme_address = badbits201_adr
      then Some cfeb2_layer01_hotchannelmask_distrip_map
      else if vme_address = hcm223_adr \<or> vme_address = badbits223_adr
      then Some cfeb2_layer23_hotchannelmask_distrip_map
      else if vme_address = hcm245_adr \<or> vme_address = badbits245_adr
      then Some cfeb2_layer45_hotchannelmask_distrip_map
      else if vme_address = hcm301_adr \<or> vme_address = badbits301_adr
      then Some cfeb3_layer01_hotchannelmask_distrip_map
      else if vme_address = hcm323_adr \<or> vme_address = badbits323_adr
      then Some cfeb3_layer23_hotchannelmask_distrip_map
      else if vme_address = hcm345_adr \<or> vme_address = badbits345_adr
      then Some cfeb3_layer45_hotchannelmask_distrip_map
      else if vme_address = hcm401_adr \<or> vme_address = badbits401_adr
      then Some cfeb4_layer01_hotchannelmask_distrip_map
      else if vme_address = hcm423_adr \<or> vme_address = badbits423_adr
      then Some cfeb4_layer23_hotchannelmask_distrip_map
      else if vme_address = hcm445_adr \<or> vme_address = badbits445_adr
      then Some cfeb4_layer45_hotchannelmask_distrip_map
      else None)"

definition GetHotChannelDistripFromMap :: "int \<Rightarrow> nat \<Rightarrow> int" where
  "GetHotChannelDistripFromMap vme_address bit_in_register =
     (case hot_distrip_map vme_address of Some m \<Rightarrow> m ! bit_in_register | None \<Rightarrow> -999)"

definition hcm_adrs :: "int list" where
  "hcm_adrs =
     [hcm001_adr, hcm023_adr, hcm045_adr, hcm101_adr, hcm123_adr, hcm145_adr, hcm201_adr,
      hcm223_adr, hcm245_adr, hcm301_adr, hcm323_adr, hcm345_adr, hcm401_adr, hcm423_adr,
      hcm445_adr]"

definition badbits_adrs :: "int list" where
  "badbits_adrs =
     [badbits001_adr, badbits023_adr, badbits045_adr, badbits101_adr, badbits123_adr,
      badbits145_adr, badbits201_adr, badbits223_adr, badbits245_adr, badbits301_adr,
      badbits323_adr, badbits345_adr, badbits401_adr, badbits423_adr, badbits445_adr]"

definition hot_channel :: "int \<Rightarrow> nat \<Rightarrow> int \<times> int" where
  "hot_channel address bit_in_register =
     (GetHotChannelLayerFromMap address bit_in_register,
      GetHotChannelDistripFromMap address bit_in_register)"

definition decode_hot_mask :: "int \<Rightarrow> int \<Rightarrow> (int \<times> int \<Rightarrow> int) \<Rightarrow> (int \<times> int \<Rightarrow> int)" where
  "decode_hot_mask address data m =
     fold (\<lambda>b m. m(hot_channel address b := ExtractValueFromData data b b)) [0..<16] m"

definition fill_hot_mask :: "int \<Rightarrow> (int \<times> int \<Rightarrow> int) \<Rightarrow> int \<Rightarrow> int" where
  "fill_hot_mask address m data_word =
     fold (\<lambda>b w. InsertValueIntoDataWord (m (hot_channel address b)) b b w) [0..<16] data_word"

section \<open>Digital phases\<close>

definition phaser_table :: "(int \<times> phaser) list" where
  "phaser_table =
    [(phaser_alct_rxd_adr, Alct_rx),
     (phaser_alct_txd_adr, Alct_tx),
     (phaser_cfeb0_rxd_adr, Cfeb0_rx),
     (phaser_cfeb1_rxd_adr, Cfeb1_rx),
     (phaser_cfeb2_rxd_adr, Cfeb2_rx),
     (phaser_cfeb3_rxd_adr, Cfeb3_rx),
     (phaser_cfeb4_rxd_adr, Cfeb4_rx),
     (phaser_cfeb5_rxd_adr, Cfeb5_rx),
     (phaser_cfeb6_rxd_adr, Cfeb6_rx)]"

text \<open>
  The code scales in \<^verbatim>\<open>float\<close> and truncates. With \<open>b\<close> bins and \<open>v\<close> delay values,
  \<open>p * (b / v) + 0.5\<close> truncated to \<^verbatim>\<open>int\<close> is the quotient \<open>(2 p b + v) / (2 v)\<close> rounded towards zero.
  For 256 bins and 25 values the single-precision result is the same number for all
  \<open>\<bar>p\<bar> \<le> 20000\<close> (the exact value stays 0.02 away from an integer), and in the other direction
  25/256 is a machine number, so the product is exact.
\<close>

definition scale_round :: "int \<Rightarrow> int \<Rightarrow> int \<Rightarrow> int" where
  "scale_round x num den = (2 * x * num + den) sdiv (2 * den)"

definition ConvertDigitalPhaseToVMERegisterValues ::
  "(bitfield \<Rightarrow> int) \<Rightarrow> int \<Rightarrow> int \<Rightarrow> int" where
  "ConvertDigitalPhaseToVMERegisterValues w digital_phase pn =
     (let phase_to_write =
            scale_round digital_phase number_of_available_bins_per_clock_cycle
              maximum_number_of_phase_delay_values AND 0xff;
          within_quadrant = phase_to_write AND 0x3f;
          quarter = drop_bit 6 phase_to_write AND 0x1;
          half = drop_bit 7 phase_to_write AND 0x1
      in insert_fields
           (w(phaser_posneg := pn, phase_value_within_quadrant := within_quadrant,
              quarter_cycle_quadrant_select := quarter, half_cycle_quadrant_select := half))
           [fire_phaser, reset_phase, phaser_posneg, phase_value_within_quadrant,
            quarter_cycle_quadrant_select, half_cycle_quadrant_select] 0)"

definition read_digital_phase :: "(bitfield \<Rightarrow> int) \<Rightarrow> int" where
  "read_digital_phase r =
     (let full_digital_phase =
            (r phase_value_within_quadrant AND 0x3f) OR
            push_bit 6 (r quarter_cycle_quadrant_select AND 0x1) OR
            push_bit 7 (r half_cycle_quadrant_select AND 0x1)
      in scale_round full_digital_phase maximum_number_of_phase_delay_values
           number_of_available_bins_per_clock_cycle AND 0xff)"

definition ConvertVMERegisterValuesToDigitalPhases :: "int \<Rightarrow> tmb \<Rightarrow> tmb" where
  "ConvertVMERegisterValuesToDigitalPhases vme_address t =
     (case map_of phaser_table vme_address of
        None \<Rightarrow> t
      | Some p \<Rightarrow> t\<lparr>read_posneg := (read_posneg t)(p := rd t phaser_posneg),
                    read_clock_delay := (read_clock_delay t)(p := read_digital_phase (rd t))\<rparr>)"

section \<open>The decoder and the filler\<close>

definition decode_branch :: "int \<Rightarrow> int \<Rightarrow> tmb \<Rightarrow> tmb" where
  "decode_branch address data t =
     (case map_of decode_table address of
        Some fs \<Rightarrow> decode_fields fs data t
      | None \<Rightarrow>
          if address \<in> set hcm_adrs
          then t\<lparr>read_hot_channel_mask := decode_hot_mask address data (read_hot_channel_mask t)\<rparr>
          else if map_of phaser_table address \<noteq> None
          then ConvertVMERegisterValuesToDigitalPhases address (decode_fields phaser_decoded data t)
          else if address \<in> set badbits_adrs
          then t\<lparr>read_badbits := decode_hot_mask address data (read_badbits t)\<rparr>
          else t)"

text \<open>The trigger mode is recomputed after every register, from the members just read.\<close>

definition update_read_trgmode :: "tmb \<Rightarrow> tmb" where
  "update_read_trgmode t =
     (let read_CLCTtrigger_setting = rd t tmb_allow_clct AND rd t clct_pat_trig_en;
          read_ALCTCLCTtrigger_setting = rd t tmb_allow_match AND rd t match_pat_trig_en;
          t = (if read_CLCTtrigger_setting \<noteq> 0 then t\<lparr>read_trgmode := CLCT_trigger\<rparr> else t)
      in if read_ALCTCLCTtrigger_setting \<noteq> 0
         then t\<lparr>read_trgmode := ALCT_CLCT_coincidence_trigger\<rparr> else t)"

definition DecodeTMBRegister :: "int \<Rightarrow> int \<Rightarrow> tmb \<Rightarrow> tmb" where
  "DecodeTMBRegister address data t = update_read_trgmode (decode_branch address data t)"

text \<open>
  Register 0x74 is filled from the members \<^verbatim>\<open>read_l1adelay_\<close>, \<^verbatim>\<open>read_l1a_window_size_\<close> and
  \<^verbatim>\<open>read_tmb_l1a_internal_\<close>, the only ones the class has for it: hence \<open>rd\<close> in that branch. An
  address with no branch gives a word that does not fit in the register.
\<close>

definition FillTMBRegister :: "int \<Rightarrow> tmb \<Rightarrow> int" where
  "FillTMBRegister address t =
     (if address = seq_l1a_adr then insert_fields (rd t) seq_l1a_filled 0
      else case map_of fill_table address of
        Some fs \<Rightarrow> insert_fields (wr t) fs 0
      | None \<Rightarrow>
          if address = vme_dddoe_adr
          then (if hardware_version t = 2 then 0x005 else 0xfff)
          else if address \<in> set hcm_adrs then fill_hot_mask address (hot_channel_mask t) 0
          else case map_of phaser_table address of
            Some p \<Rightarrow>
              ConvertDigitalPhaseToVMERegisterValues (wr t) (clock_delay t p) (posneg t p)
          | None \<Rightarrow> 0xf0000)"

end
