(* ===== verification/TMB_Codec.thy ===== *)
theory TMB_Codec
  imports TMB_Registers
begin

text \<open>
  What the decoder and the filler of the TMB registers promise: the layouts are well formed, a word
  filled for an address fits in the 16-bit register, and every field read back from a board that
  keeps the written bits is the written value reduced to the width of the field. The facts on
  insertion and extraction come from the interpretation \<open>tmb_bits\<close> of the codec locale.
\<close>

section \<open>Layouts\<close>

definition width :: "bitfield \<Rightarrow> nat" where
  "width f = Suc (bithi f) - bitlo f"

definition disjoint_fields :: "bitfield \<Rightarrow> bitfield \<Rightarrow> bool" where
  "disjoint_fields f g \<longleftrightarrow> bithi f < bitlo g \<or> bithi g < bitlo f"

definition layout_ok :: "bitfield list \<Rightarrow> bool" where
  "layout_ok fs \<longleftrightarrow>
     sorted_wrt disjoint_fields fs \<and> list_all (\<lambda>f. bitlo f \<le> bithi f \<and> bithi f < 16) fs"

lemmas table_eval = layout_ok_def disjoint_fields_def field_defs

lemma fill_table_layout: "list_all (\<lambda>(a, fs). layout_ok fs) fill_table"
  by (simp add: fill_table_def filled_defs table_eval)

lemma decode_table_layout:
  "list_all (\<lambda>(a, fs). a = pattern_find_pretrg_adr \<or> layout_ok fs) decode_table"
  by (simp add: decode_table_def decoded_defs table_eval adr_defs)

lemma phaser_layout: "layout_ok phaser_decoded"
  by (simp add: decoded_defs table_eval)

lemma fill_table_home: "list_all (\<lambda>(a, fs). list_all (\<lambda>f. vmereg f = a) fs) fill_table"
  by (simp add: fill_table_def filled_defs field_defs)

lemma decode_table_home:
  "list_all (\<lambda>(a, fs). list_all (\<lambda>f. vmereg f = a \<or> a = pattern_find_pretrg_adr \<and> f = clct_stagger) fs)
     decode_table"
  by (simp add: decode_table_def decoded_defs field_defs)

lemma phaser_home: "list_all (\<lambda>f. vmereg f = phaser_alct_rxd_adr) phaser_decoded"
  by (simp add: decoded_defs field_defs)

lemma fill_in_decode:
  "list_all (\<lambda>(a, fs). case map_of decode_table a of None \<Rightarrow> False
                       | Some ds \<Rightarrow> list_all (\<lambda>f. List.member ds f) fs) fill_table"
  by (simp add: fill_table_def decode_table_def filled_defs decoded_defs adr_defs)

lemma distinct_fill_adrs: "distinct (map fst fill_table)"
  by (simp add: fill_table_def adr_defs)

lemma distinct_decode_adrs: "distinct (map fst decode_table)"
  by (simp add: decode_table_def adr_defs)

lemma special_adrs_not_filled:
  "list_all (\<lambda>a. map_of fill_table a = None)
     (vme_dddoe_adr # hcm_adrs @ badbits_adrs @ map fst phaser_table)"
  by (simp add: fill_table_def hcm_adrs_def badbits_adrs_def phaser_table_def adr_defs)

lemma special_adrs_not_decoded:
  "list_all (\<lambda>a. map_of decode_table a = None)
     (vme_dddoe_adr # hcm_adrs @ badbits_adrs @ map fst phaser_table)"
  by (simp add: decode_table_def hcm_adrs_def badbits_adrs_def phaser_table_def adr_defs)

text \<open>The same facts in the form the proofs use.\<close>

lemma fill_layout: "map_of fill_table a = Some fs \<Longrightarrow> layout_ok fs"
  using fill_table_layout by (auto dest!: map_of_SomeD simp: list_all_iff)

lemma fill_home: "map_of fill_table a = Some fs \<Longrightarrow> f \<in> set fs \<Longrightarrow> vmereg f = a"
  using fill_table_home by (auto dest!: map_of_SomeD simp: list_all_iff)

lemma decode_home:
  "map_of decode_table a = Some fs \<Longrightarrow> f \<in> set fs \<Longrightarrow>
   vmereg f = a \<or> a = pattern_find_pretrg_adr \<and> f = clct_stagger"
  using decode_table_home by (fastforce dest!: map_of_SomeD simp: list_all_iff)

lemma fill_decoded:
  assumes "map_of fill_table a = Some fs"
  obtains ds where "map_of decode_table a = Some ds" "set fs \<subseteq> set ds"
proof (cases "map_of decode_table a")
  case None
  with map_of_SomeD[OF assms] fill_in_decode show ?thesis
    by (auto simp: list_all_iff)
next
  case (Some ds)
  with map_of_SomeD[OF assms] fill_in_decode have "set fs \<subseteq> set ds"
    by (fastforce simp: list_all_iff)
  with Some show ?thesis by (rule that)
qed

lemma layout_hi: "layout_ok fs \<Longrightarrow> f \<in> set fs \<Longrightarrow> bitlo f \<le> bithi f \<and> bithi f < 16"
  by (simp add: layout_ok_def list_all_iff)

section \<open>Reading back what was filled\<close>

lemma insert_fields_range:
  "0 \<le> insert_fields v fs 0 \<and> insert_fields v fs 0 < 2 ^ 16"
  unfolding insert_fields_def by (rule tmb_bits.fold_range) simp_all

lemma read_insert_fields:
  assumes "layout_ok fs" and "f \<in> set fs"
  shows "read_field (insert_fields v fs 0) f = take_bit (width f) (v f)"
  unfolding read_field_def insert_fields_def width_def
  using assms
  by (intro tmb_bits.ext_fold_same)
    (auto simp: layout_ok_def list_all_iff disjoint_fields_def[abs_def])

lemma read_field_width: "take_bit (width f) (read_field data f) = read_field data f"
  unfolding read_field_def width_def by (rule take_bit_range_eq) (use Extract_range in blast)+

lemma rd_decode_fields: "rd (decode_fields fs data t) f = (if f \<in> set fs then read_field data f else rd t f)"
  by (simp add: decode_fields_def upd_all_apply)

lemma rd_update_read_trgmode [simp]: "rd (update_read_trgmode t) = rd t"
  by (simp add: update_read_trgmode_def Let_def)

lemma rd_decode_table:
  "map_of decode_table a = Some ds \<Longrightarrow> rd (DecodeTMBRegister a data t) = upd_all (read_field data) ds (rd t)"
  by (simp add: DecodeTMBRegister_def decode_branch_def decode_fields_def)

lemma rd_DecodeTMBRegister_home:
  assumes "map_of fill_table a = Some fs" and "f \<in> set fs"
  shows "rd (DecodeTMBRegister a data t) f = read_field data f"
proof -
  obtain ds where "map_of decode_table a = Some ds" "set fs \<subseteq> set ds"
    using assms(1) by (rule fill_decoded)
  with assms(2) show ?thesis by (auto simp: rd_decode_table upd_all_apply)
qed

lemma FillTMBRegister_table:
  "map_of fill_table a = Some fs \<Longrightarrow>
   FillTMBRegister a t = insert_fields (if a = seq_l1a_adr then rd t else wr t) fs 0"
  by (auto simp: FillTMBRegister_def fill_table_def adr_defs split: if_splits)

text \<open>A board that keeps the writable fields of a register.\<close>

definition keeps_fields :: "int \<Rightarrow> int \<Rightarrow> bitfield list \<Rightarrow> bool" where
  "keeps_fields written data fs \<longleftrightarrow> list_all (\<lambda>f. read_field data f = read_field written f) fs"

lemma read_Fill:
  assumes "map_of fill_table a = Some fs" and "f \<in> set fs"
  shows "read_field (FillTMBRegister a t) f = take_bit (width f) ((if a = seq_l1a_adr then rd t else wr t) f)"
  using read_insert_fields[OF fill_layout[OF assms(1)] assms(2)] by (simp add: FillTMBRegister_table[OF assms(1)])

lemma readback:
  assumes "map_of fill_table a = Some fs" and "f \<in> set fs"
    and "keeps_fields (FillTMBRegister a t) data fs"
  shows "rd (DecodeTMBRegister a data t') f =
         take_bit (width f) ((if a = seq_l1a_adr then rd t else wr t) f)"
proof -
  have "rd (DecodeTMBRegister a data t') f = read_field data f"
    by (rule rd_DecodeTMBRegister_home[OF assms(1,2)])
  also have "\<dots> = read_field (FillTMBRegister a t) f"
    using assms(2,3) by (simp add: keeps_fields_def list_all_iff)
  also have "\<dots> = take_bit (width f) ((if a = seq_l1a_adr then rd t else wr t) f)"
    by (rule read_Fill[OF assms(1,2)])
  finally show ?thesis .
qed

section \<open>Hot channel masks\<close>

text \<open>Bit \<open>b\<close> of the register at index \<open>k\<close> of \<open>hcm_adrs\<close> (or of \<open>badbits_adrs\<close>) belongs to CFEB
  \<open>k div 3\<close> and to one of the two layers \<open>2 (k mod 3)\<close> and \<open>2 (k mod 3) + 1\<close>.\<close>

definition hot_position :: "nat \<Rightarrow> nat \<Rightarrow> int \<times> int" where
  "hot_position k b = (int (2 * (k mod 3) + b div 8), int (8 * (k div 3) + b mod 8))"

definition layer_row :: "nat \<Rightarrow> int list" where
  "layer_row k = replicate 8 (int (2 * (k mod 3))) @ replicate 8 (int (2 * (k mod 3) + 1))"

definition distrip_row :: "nat \<Rightarrow> int list" where
  "distrip_row k = (let r = map (\<lambda>b. int (8 * (k div 3) + b)) [0..<8] in r @ r)"

lemma replicate_8: "replicate 8 x = [x, x, x, x, x, x, x, x]"
  by (simp add: numeral_eq_Suc)

lemma upt_8: "[0..<8] = [0, 1, 2, 3, 4, 5, 6, 7 :: nat]"
  by (simp add: upt_rec)

lemma hot_layer_map_eval:
  "list_all (\<lambda>k. hot_layer_map (hcm_adrs ! k) = Some (layer_row k) \<and>
                 hot_layer_map (badbits_adrs ! k) = Some (layer_row k)) [0,1,2,3,4,5,6,7,8,9,10,11,12,13,14]"
  by (simp add: hot_layer_map_def hcm_adrs_def badbits_adrs_def layer_row_def adr_defs hotmap_defs
      replicate_8)

lemma hot_distrip_map_eval:
  "list_all (\<lambda>k. hot_distrip_map (hcm_adrs ! k) = Some (distrip_row k) \<and>
                 hot_distrip_map (badbits_adrs ! k) = Some (distrip_row k)) [0,1,2,3,4,5,6,7,8,9,10,11,12,13,14]"
  by (simp add: hot_distrip_map_def hcm_adrs_def badbits_adrs_def distrip_row_def adr_defs hotmap_defs
      upt_8 Let_def)

lemma less_15: "k < 15 \<Longrightarrow> k \<in> set [0,1,2,3,4,5,6,7,8,9,10,11,12,13,14]" for k :: nat
  by (auto simp: less_Suc_eq numeral_eq_Suc)

lemma nth_layer_row:
  assumes "b < 16"
  shows "layer_row k ! b = int (2 * (k mod 3) + b div 8)"
proof (cases "b < 8")
  case True
  then show ?thesis by (simp add: layer_row_def nth_append)
next
  case False
  with assms have "b - 8 < 8" "b div 8 = 1" by simp_all
  with False show ?thesis by (simp add: layer_row_def nth_append)
qed

lemma nth_distrip_row:
  assumes "b < 16"
  shows "distrip_row k ! b = int (8 * (k div 3) + b mod 8)"
proof (cases "b < 8")
  case True
  then show ?thesis by (simp add: distrip_row_def Let_def nth_append)
next
  case False
  with assms have "b - 8 < 8" "b mod 8 = b - 8" by (simp_all add: mod_if)
  with False show ?thesis by (simp add: distrip_row_def Let_def nth_append)
qed

lemma hot_maps:
  assumes "k < 15"
  shows "hot_layer_map (hcm_adrs ! k) = Some (layer_row k)"
    "hot_layer_map (badbits_adrs ! k) = Some (layer_row k)"
    "hot_distrip_map (hcm_adrs ! k) = Some (distrip_row k)"
    "hot_distrip_map (badbits_adrs ! k) = Some (distrip_row k)"
  using hot_layer_map_eval hot_distrip_map_eval less_15[OF assms] unfolding list_all_iff by blast+

lemmas hot_channel_defs =
  hot_channel_def GetHotChannelLayerFromMap_def GetHotChannelDistripFromMap_def hot_position_def

lemma hot_channel_hcm: "k < 15 \<Longrightarrow> b < 16 \<Longrightarrow> hot_channel (hcm_adrs ! k) b = hot_position k b"
  by (simp add: hot_channel_defs hot_maps nth_layer_row nth_distrip_row)

lemma hot_channel_badbits:
  "k < 15 \<Longrightarrow> b < 16 \<Longrightarrow> hot_channel (badbits_adrs ! k) b = hot_position k b"
  by (simp add: hot_channel_defs hot_maps nth_layer_row nth_distrip_row)

lemma digits_eq:
  fixes x y x' y' n :: nat
  assumes "n * x + y = n * x' + y'" and "y < n" and "y' < n"
  shows "x = x' \<and> y = y'"
  using assms by (metis add.commute div_mult_self1 div_less add_cancel_right_left less_nat_zero_code
      add_left_cancel mult.commute not_less_zero)

lemma hot_position_inj:
  assumes "hot_position k b = hot_position k' b'" and "b < 16" and "b' < 16"
  shows "k = k' \<and> b = b'"
proof -
  have 1: "2 * (k mod 3) + b div 8 = 2 * (k' mod 3) + b' div 8"
    and 2: "8 * (k div 3) + b mod 8 = 8 * (k' div 3) + b' mod 8"
    using assms(1) unfolding hot_position_def by (simp_all only: prod.inject of_nat_eq_iff)
  have "b div 8 < 2" "b' div 8 < 2" using assms(2,3) by simp_all
  with digits_eq[OF 1] have "k mod 3 = k' mod 3 \<and> b div 8 = b' div 8" by blast
  moreover from digits_eq[OF 2] have "k div 3 = k' div 3 \<and> b mod 8 = b' mod 8" by simp
  ultimately show ?thesis by (metis div_mult_mod_eq)
qed

lemma hot_position_surj:
  assumes "0 \<le> layer" "layer < 6" "0 \<le> distrip" "distrip < 40"
  obtains k b where "k < 15" "b < 16" "hot_position k b = (layer, distrip)"
proof -
  define l d where "l = nat layer" and "d = nat distrip"
  have ld: "l < 6" "d < 40" "layer = int l" "distrip = int d"
    using assms by (auto simp: l_def d_def)
  define k b where "k = 3 * (d div 8) + l div 2" and "b = 8 * (l mod 2) + d mod 8"
  have "l div 2 < 3" "l mod 2 < 2" "d div 8 < 5" using ld by simp_all
  then have "k div 3 = d div 8" "k mod 3 = l div 2" "b div 8 = l mod 2" "b mod 8 = d mod 8"
    unfolding k_def b_def by simp_all
  then have "hot_position k b = (layer, distrip)"
    unfolding hot_position_def ld by simp
  moreover have "k < 15" "b < 16"
    using \<open>l div 2 < 3\<close> \<open>d div 8 < 5\<close> unfolding k_def b_def by simp_all
  ultimately show ?thesis using that by blast
qed

lemma hot_channel_inj: "k < 15 \<Longrightarrow> inj_on (hot_channel (hcm_adrs ! k)) {0..<16}"
  by (rule inj_onI) (use hot_position_inj in \<open>fastforce simp: hot_channel_hcm\<close>)

lemma fill_hot_mask_bit:
  assumes "b < 16"
  shows "ExtractValueFromData (fill_hot_mask a m 0) b b = take_bit 1 (m (hot_channel a b))"
proof -
  have "sorted_wrt (\<lambda>f g. f < g \<or> g < f) [0..<16::nat]"
    by (rule sorted_wrt_mono_rel[OF _ sorted_wrt_upt]) simp
  with assms tmb_bits.ext_fold_same[where fs = "[0..<16]" and f = b and hi = id and lo = id
      and v = "\<lambda>b. m (hot_channel a b)" and w = 0]
  show ?thesis by (simp add: fill_hot_mask_def)
qed

lemma decode_hot_mask_hit:
  assumes "k < 15" and "b < 16"
  shows "decode_hot_mask (hcm_adrs ! k) data m (hot_channel (hcm_adrs ! k) b) =
         ExtractValueFromData data b b"
  unfolding decode_hot_mask_def
  by (rule fold_upd_key) (use assms hot_channel_inj in auto)

lemma decode_hot_mask_other:
  assumes "k < 15" "k' < 15" "k \<noteq> k'" "b < 16"
  shows "decode_hot_mask (hcm_adrs ! k') data m (hot_channel (hcm_adrs ! k) b) =
         m (hot_channel (hcm_adrs ! k) b)"
  unfolding decode_hot_mask_def
  by (rule fold_upd_key_other)
    (use assms hot_position_inj in \<open>fastforce simp: hot_channel_hcm\<close>)

section \<open>Digital phases\<close>

definition phase_fields :: "bitfield list" where
  "phase_fields = [fire_phaser, reset_phase, phaser_posneg, phase_value_within_quadrant,
     quarter_cycle_quadrant_select, half_cycle_quadrant_select]"

lemma phase_layout: "layout_ok phase_fields"
  by (simp add: phase_fields_def table_eval)

lemma phase_fields_decoded: "set phase_fields \<subseteq> set phaser_decoded"
  by (simp add: phase_fields_def decoded_defs)

lemma phase_in_range: "0 \<le> p \<Longrightarrow> p < 25 \<Longrightarrow>
  p \<in> {0,1,2,3,4,5,6,7,8,9,10,11,12,13,14,15,16,17,18,19,20,21,22,23,24}" for p :: int
  unfolding insert_iff empty_iff by presburger

text \<open>The bins of the FPGA for a delay value, split into the three fields and joined again.\<close>

lemma phase_split_join:
  fixes p :: int
  assumes "0 \<le> p" "p < 25"
  shows "let q = scale_round p 256 25 AND 255;
             full = (take_bit 6 (q AND 63) AND 63) OR
                    push_bit 6 (take_bit 1 (drop_bit 6 q AND 1) AND 1) OR
                    push_bit 7 (take_bit 1 (drop_bit 7 q AND 1) AND 1)
         in scale_round full 25 256 AND 255 = p"
  using phase_in_range[OF assms] by (elim insertE emptyE) (simp_all add: scale_round_def)

lemma read_digital_phase_split:
  assumes "0 \<le> p" "p < 25"
    and "r phase_value_within_quadrant = take_bit 6 ((scale_round p 256 25 AND 255) AND 63)"
    and "r quarter_cycle_quadrant_select = take_bit 1 (drop_bit 6 (scale_round p 256 25 AND 255) AND 1)"
    and "r half_cycle_quadrant_select = take_bit 1 (drop_bit 7 (scale_round p 256 25 AND 255) AND 1)"
  shows "read_digital_phase r = p"
  unfolding read_digital_phase_def Let_def assms(3-5) default_defs
  by (rule phase_split_join[OF assms(1,2), unfolded Let_def])

lemma phase_word:
  "\<exists>v. ConvertDigitalPhaseToVMERegisterValues w p pn = insert_fields v phase_fields 0 \<and>
     v fire_phaser = w fire_phaser \<and> v reset_phase = w reset_phase \<and> v phaser_posneg = pn \<and>
     v phase_value_within_quadrant = (scale_round p 256 25 AND 255) AND 63 \<and>
     v quarter_cycle_quadrant_select = drop_bit 6 (scale_round p 256 25 AND 255) AND 1 \<and>
     v half_cycle_quadrant_select = drop_bit 7 (scale_round p 256 25 AND 255) AND 1"
  by (rule exI[where x = "w(phaser_posneg := pn,
        phase_value_within_quadrant := (scale_round p 256 25 AND 255) AND 63,
        quarter_cycle_quadrant_select := drop_bit 6 (scale_round p 256 25 AND 255) AND 1,
        half_cycle_quadrant_select := drop_bit 7 (scale_round p 256 25 AND 255) AND 1)"])
    (simp add: ConvertDigitalPhaseToVMERegisterValues_def Let_def phase_fields_def default_defs field_defs)

lemma phase_widths:
  "width phaser_posneg = 1" "width phase_value_within_quadrant = 6"
  "width quarter_cycle_quadrant_select = 1" "width half_cycle_quadrant_select = 1"
  by (simp_all add: width_def field_defs)

lemma read_phase_word:
  assumes "keeps_fields (ConvertDigitalPhaseToVMERegisterValues w p pn) data phase_fields"
  shows "read_field data phaser_posneg = take_bit 1 pn"
    and "read_field data phase_value_within_quadrant =
         take_bit 6 ((scale_round p 256 25 AND 255) AND 63)"
    and "read_field data quarter_cycle_quadrant_select =
         take_bit 1 (drop_bit 6 (scale_round p 256 25 AND 255) AND 1)"
    and "read_field data half_cycle_quadrant_select =
         take_bit 1 (drop_bit 7 (scale_round p 256 25 AND 255) AND 1)"
proof -
  obtain v where v: "ConvertDigitalPhaseToVMERegisterValues w p pn = insert_fields v phase_fields 0"
      "v phaser_posneg = pn"
      "v phase_value_within_quadrant = (scale_round p 256 25 AND 255) AND 63"
      "v quarter_cycle_quadrant_select = drop_bit 6 (scale_round p 256 25 AND 255) AND 1"
      "v half_cycle_quadrant_select = drop_bit 7 (scale_round p 256 25 AND 255) AND 1"
    using phase_word[of w p pn] by blast
  have eq: "read_field data f = take_bit (width f) (v f)" if "f \<in> set phase_fields" for f
    using assms that read_insert_fields[OF phase_layout that, of v]
    unfolding v(1) keeps_fields_def list_all_iff by simp
  show "read_field data phaser_posneg = take_bit 1 pn"
    and "read_field data phase_value_within_quadrant =
         take_bit 6 ((scale_round p 256 25 AND 255) AND 63)"
    and "read_field data quarter_cycle_quadrant_select =
         take_bit 1 (drop_bit 6 (scale_round p 256 25 AND 255) AND 1)"
    and "read_field data half_cycle_quadrant_select =
         take_bit 1 (drop_bit 7 (scale_round p 256 25 AND 255) AND 1)"
    by (simp_all add: eq phase_fields_def v(2-) phase_widths)
qed

lemma phaser_table_props:
  assumes "map_of phaser_table a = Some ph"
  shows "map_of decode_table a = None" "map_of fill_table a = None" "a \<notin> set hcm_adrs"
    "a \<notin> set badbits_adrs" "a \<noteq> vme_dddoe_adr" "a \<noteq> seq_l1a_adr"
proof -
  have "list_all (\<lambda>a. a \<notin> set hcm_adrs \<and> a \<notin> set badbits_adrs \<and> a \<noteq> vme_dddoe_adr \<and> a \<noteq> seq_l1a_adr)
          (map fst phaser_table)"
    by (simp add: phaser_table_def hcm_adrs_def badbits_adrs_def adr_defs)
  moreover have "a \<in> set (map fst phaser_table)"
    using map_of_SomeD[OF assms] by force
  ultimately show "map_of decode_table a = None" "map_of fill_table a = None" "a \<notin> set hcm_adrs"
    "a \<notin> set badbits_adrs" "a \<noteq> vme_dddoe_adr" "a \<noteq> seq_l1a_adr"
    using special_adrs_not_decoded special_adrs_not_filled by (auto simp: list_all_iff)
qed

lemma FillTMBRegister_phaser:
  "map_of phaser_table a = Some ph \<Longrightarrow>
   FillTMBRegister a t = ConvertDigitalPhaseToVMERegisterValues (wr t) (clock_delay t ph) (posneg t ph)"
  by (simp add: FillTMBRegister_def phaser_table_props)

lemma phases_update_read_trgmode [simp]:
  "read_clock_delay (update_read_trgmode t) = read_clock_delay t"
  "read_posneg (update_read_trgmode t) = read_posneg t"
  "read_hot_channel_mask (update_read_trgmode t) = read_hot_channel_mask t"
  "read_badbits (update_read_trgmode t) = read_badbits t"
  by (simp_all add: update_read_trgmode_def Let_def)

lemma DecodeTMBRegister_phaser:
  assumes "map_of phaser_table a = Some ph"
  shows "read_posneg (DecodeTMBRegister a data t) =
           (read_posneg t)(ph := read_field data phaser_posneg)"
    and "read_clock_delay (DecodeTMBRegister a data t) =
           (read_clock_delay t)(ph := read_digital_phase (upd_all (read_field data) phaser_decoded (rd t)))"
    and "rd (DecodeTMBRegister a data t) = upd_all (read_field data) phaser_decoded (rd t)"
  using assms phase_fields_decoded
  by (simp_all add: DecodeTMBRegister_def decode_branch_def phaser_table_props
      ConvertVMERegisterValuesToDigitalPhases_def decode_fields_def upd_all_apply phase_fields_def)

lemma phase_readback:
  assumes a: "map_of phaser_table a = Some ph"
    and p: "0 \<le> clock_delay t ph" "clock_delay t ph < 25"
    and keeps: "keeps_fields (FillTMBRegister a t) data phase_fields"
  shows "read_clock_delay (DecodeTMBRegister a data t') ph = clock_delay t ph"
    and "read_posneg (DecodeTMBRegister a data t') ph = take_bit 1 (posneg t ph)"
proof -
  note k = read_phase_word[OF keeps[unfolded FillTMBRegister_phaser[OF a]]]
  show "read_posneg (DecodeTMBRegister a data t') ph = take_bit 1 (posneg t ph)"
    by (simp add: DecodeTMBRegister_phaser[OF a] k)
  have "read_digital_phase (upd_all (read_field data) phaser_decoded (rd t')) = clock_delay t ph"
    using phase_fields_decoded
    by (intro read_digital_phase_split p) (simp_all only: upd_all_apply phase_fields_def k list.set
        insert_subset simp_thms if_True)
  then show "read_clock_delay (DecodeTMBRegister a data t') ph = clock_delay t ph"
    by (simp add: DecodeTMBRegister_phaser[OF a])
qed

end
