(* ===== verification/TMB_Config.thy ===== *)
theory TMB_Config
  imports TMB_Registers
begin

text \<open>
  The configuration of the TMB (\<^verbatim>\<open>TMB.cc\<close>): the defaults, the list of configuration registers, the
  writing of the registers, the read-back and the checks. The VME bus and the board behind it are
  the parameters \<open>rdv\<close> (a read of an address gives a data word and the next state of the board)
  and \<open>wrv\<close> (a write); the state of the board is the type variable \<open>'h\<close>.

  Not modelled here: printing, and the writing of the user PROM at the end of \<^verbatim>\<open>configure\<close> (a JTAG
  program of \<^verbatim>\<open>EMUjtag\<close>).
\<close>

section \<open>Defaults\<close>

named_theorems defaults_defs \<comment> \<open>the default values of each register\<close>

definition vme_loopbk_defaults :: "(bitfield \<times> int) list" where [defaults_defs]:
  "vme_loopbk_defaults =
    [(enable_alct_rx, enable_alct_rx_default),
     (enable_alct_tx, enable_alct_tx_default)]"

definition vme_dddsm_defaults :: "(bitfield \<times> int) list" where [defaults_defs]:
  "vme_dddsm_defaults =
    [(ddd_state_machine_start, ddd_state_machine_start_default),
     (ddd_state_machine_manual, ddd_state_machine_manual_default),
     (ddd_state_machine_latch, ddd_state_machine_latch_default),
     (ddd_state_machine_serial_in, ddd_state_machine_serial_in_default),
     (ddd_state_machine_serial_out, ddd_state_machine_serial_out_default),
     (ddd_state_machine_autostart, ddd_state_machine_autostart_default)]"

definition vme_ddd0_defaults :: "(bitfield \<times> int) list" where [defaults_defs]:
  "vme_ddd0_defaults =
    [(alct_tof_delay, alct_tof_delay_default),
     (dmb_tx_delay, dmb_tx_delay_default),
     (rat_tmb_delay, rat_tmb_delay_default)]"

definition vme_ddd1_defaults :: "(bitfield \<times> int) list" where [defaults_defs]:
  "vme_ddd1_defaults =
    [(tmb1_phase, tmb1_phase_default),
     (cfeb_tof_delay, cfeb_tof_delay_default),
     (cfeb0_tof_delay, cfeb0_tof_delay_default)]"

definition vme_ddd2_defaults :: "(bitfield \<times> int) list" where [defaults_defs]:
  "vme_ddd2_defaults =
    [(cfeb1_tof_delay, cfeb1_tof_delay_default),
     (cfeb2_tof_delay, cfeb2_tof_delay_default),
     (cfeb3_tof_delay, cfeb3_tof_delay_default),
     (cfeb4_tof_delay, cfeb4_tof_delay_default)]"

definition vme_ratctrl_defaults :: "(bitfield \<times> int) list" where [defaults_defs]:
  "vme_ratctrl_defaults =
    [(rpc_sync, rpc_sync_default),
     (shift_rpc, shift_rpc_default),
     (rat_dsn_en, rat_dsn_en_default)]"

definition vme_adc_defaults :: "(bitfield \<times> int) list" where [defaults_defs]:
  "vme_adc_defaults =
    [(voltage_adc_data_out, voltage_adc_data_out_default),
     (voltage_adc_serial_clock, voltage_adc_serial_clock_default),
     (voltage_adc_data_in, voltage_adc_data_in_default),
     (voltage_adc_chip_select, voltage_adc_chip_select_default),
     (temperature_adc_serial_clock, temperature_adc_serial_clock_default),
     (temperature_adc_serial_data, temperature_adc_serial_data_default)]"

definition ccb_cfg_defaults :: "(bitfield \<times> int) list" where [defaults_defs]:
  "ccb_cfg_defaults =
    [(ignore_ccb_rx, ignore_ccb_rx_default),
     (disable_ccb_tx, disable_ccb_tx_default),
     (enable_internal_l1a, enable_internal_l1a_default),
     (enable_alctclct_status_to_ccb, enable_alctclct_status_to_ccb_default),
     (enable_alct_status_to_ccb, enable_alct_status_to_ccb_default),
     (enable_clct_status_to_ccb, enable_clct_status_to_ccb_default),
     (fire_l1a_oneshot, fire_l1a_oneshot_default)]"

definition ccb_trig_defaults :: "(bitfield \<times> int) list" where [defaults_defs]:
  "ccb_trig_defaults =
    [(alct_ext_trig_l1aen, alct_ext_trig_l1aen_default),
     (clct_ext_trig_l1aen, clct_ext_trig_l1aen_default),
     (request_l1a, request_l1a_default),
     (alct_ext_trig_vme, alct_ext_trig_vme_default),
     (clct_ext_trig_vme, clct_ext_trig_vme_default),
     (ext_trig_both, ext_trig_both_default),
     (ccb_allow_bypass, ccb_allow_bypass_default),
     (ignore_ccb_startstop, ignore_ccb_startstop_default),
     (internal_l1a_delay_vme, internal_l1a_delay_vme_default)]"

definition alct_cfg_defaults :: "(bitfield \<times> int) list" where [defaults_defs]:
  "alct_cfg_defaults =
    [(cfg_alct_ext_trig_en, cfg_alct_ext_trig_en_default),
     (cfg_alct_ext_inject_en, cfg_alct_ext_inject_en_default),
     (cfg_alct_ext_trig, cfg_alct_ext_trig_default),
     (cfg_alct_ext_inject, cfg_alct_ext_inject_default),
     (alct_seq_cmd, alct_seq_cmd_default),
     (alct_clock_en_use_ccb, alct_clock_en_use_ccb_default),
     (alct_clock_en_use_vme, alct_clock_en_use_vme_default)]"

definition alct_inj_defaults :: "(bitfield \<times> int) list" where [defaults_defs]:
  "alct_inj_defaults =
    [(alct_clear, alct_clear_default),
     (alct_inject_mux, alct_inject_mux_default),
     (alct_sync_clct, alct_sync_clct_default),
     (alct_inj_delay, alct_inj_delay_default)]"

definition alct_stat_defaults :: "(bitfield \<times> int) list" where [defaults_defs]:
  "alct_stat_defaults =
    [(alct_ecc_en, alct_ecc_en_default),
     (alct_ecc_err_blank, alct_ecc_err_blank_default),
     (alct_txdata_delay, alct_txdata_delay_default)]"

definition cfeb_inj_defaults :: "(bitfield \<times> int) list" where [defaults_defs]:
  "cfeb_inj_defaults =
    [(enableCLCTInputs, enableCLCTInputs_default),
     (cfeb_ram_sel, cfeb_ram_sel_default),
     (cfeb_inj_en_sel, cfeb_inj_en_sel_default),
     (start_pattern_inj, start_pattern_inj_default)]"

definition seq_trig_en_defaults :: "(bitfield \<times> int) list" where [defaults_defs]:
  "seq_trig_en_defaults =
    [(clct_pat_trig_en, clct_pat_trig_en_default),
     (alct_pat_trig_en, alct_pat_trig_en_default),
     (match_pat_trig_en, match_pat_trig_en_default),
     (adb_ext_trig_en, adb_ext_trig_en_default),
     (dmb_ext_trig_en, dmb_ext_trig_en_default),
     (clct_ext_trig_en, clct_ext_trig_en_default),
     (alct_ext_trig_en, alct_ext_trig_en_default),
     (vme_ext_trig, vme_ext_trig_default),
     (ext_trig_inject, ext_trig_inject_default),
     (all_cfeb_active, all_cfeb_active_default),
     (cfebs_enabled, cfebs_enabled_default),
     (cfeb_enable_source, cfeb_enable_source_default)]"

definition seq_trig_dly0_defaults :: "(bitfield \<times> int) list" where [defaults_defs]:
  "seq_trig_dly0_defaults =
    [(alct_pretrig_width, alct_pretrig_width_default),
     (alct_pretrig_delay, alct_pretrig_delay_default),
     (alct_pattern_delay, alct_pattern_delay_default),
     (adb_ext_trig_delay, adb_ext_trig_delay_default)]"

definition seq_trig_dly1_defaults :: "(bitfield \<times> int) list" where [defaults_defs]:
  "seq_trig_dly1_defaults =
    [(dmb_ext_trig_delay, dmb_ext_trig_delay_default),
     (clct_ext_trig_delay, clct_ext_trig_delay_default),
     (alct_ext_trig_delay, alct_ext_trig_delay_default)]"

definition seq_id_defaults :: "(bitfield \<times> int) list" where [defaults_defs]:
  "seq_id_defaults =
    [(run_id, run_id_default)]"

definition seq_clct_defaults :: "(bitfield \<times> int) list" where [defaults_defs]:
  "seq_clct_defaults =
    [(triad_persist, triad_persist_default),
     (hit_thresh, hit_thresh_default),
     (aff_thresh, aff_thresh_default),
     (min_hits_pattern, min_hits_pattern_default),
     (drift_delay, drift_delay_default),
     (pretrigger_halt, pretrigger_halt_default)]"

definition seq_fifo_defaults :: "(bitfield \<times> int) list" where [defaults_defs]:
  "seq_fifo_defaults =
    [(fifo_mode, fifo_mode_default),
     (fifo_tbins, fifo_tbins_default),
     (fifo_pretrig, fifo_pretrig_default),
     (fifo_no_raw_hits, fifo_no_raw_hits_default),
     (cfeb_badbits_readout, cfeb_badbits_readout_default)]"

definition seq_offset_defaults :: "(bitfield \<times> int) list" where [defaults_defs]:
  "seq_offset_defaults =
    [(l1a_offset, l1a_offset_default),
     (bxn_offset, bxn_offset_default)]"

definition tmb_trig_defaults :: "(bitfield \<times> int) list" where [defaults_defs]:
  "tmb_trig_defaults =
    [(tmb_sync_err_enable, tmb_sync_err_enable_default),
     (tmb_allow_alct, tmb_allow_alct_default),
     (tmb_allow_clct, tmb_allow_clct_default),
     (tmb_allow_match, tmb_allow_match_default),
     (mpc_rx_delay, mpc_rx_delay_default),
     (mpc_sel_ttc_bx0, mpc_sel_ttc_bx0_default),
     (mpc_idle_blank, mpc_idle_blank_default),
     (mpc_output_enable, mpc_output_enable_default)]"

definition scp_ctrl_defaults :: "(bitfield \<times> int) list" where [defaults_defs]:
  "scp_ctrl_defaults =
    [(scope_in_readout, scope_in_readout_default)]"

definition alctfifo1_defaults :: "(bitfield \<times> int) list" where [defaults_defs]:
  "alctfifo1_defaults =
    [(alct_raw_reset, alct_raw_reset_default),
     (alct_raw_read_address, alct_raw_read_address_default),
     (alct_demux_mode, alct_demux_mode_default)]"

definition seqmod_defaults :: "(bitfield \<times> int) list" where [defaults_defs]:
  "seqmod_defaults =
    [(clct_flush_delay, clct_flush_delay_default),
     (wr_buffer_autoclear, wr_buffer_autoclear_default),
     (clct_write_continuous_enable, clct_write_continuous_enable_default),
     (wrt_buf_required, wrt_buf_required_default),
     (valid_clct_required, valid_clct_required_default),
     (l1a_allow_match, l1a_allow_match_default),
     (l1a_allow_notmb, l1a_allow_notmb_default),
     (l1a_allow_nol1a, l1a_allow_nol1a_default),
     (l1a_allow_alct_only, l1a_allow_alct_only_default),
     (scint_veto_clr, scint_veto_clr_default)]"

definition tmbtim_defaults :: "(bitfield \<times> int) list" where [defaults_defs]:
  "tmbtim_defaults =
    [(alct_vpf_delay, alct_vpf_delay_default),
     (alct_match_window_size, alct_match_window_size_default),
     (mpc_tx_delay, mpc_tx_delay_default)]"

definition rpc_cfg_defaults :: "(bitfield \<times> int) list" where [defaults_defs]:
  "rpc_cfg_defaults =
    [(rpc_exists, rpc_exists_default),
     (rpc_read_enable, rpc_read_enable_default),
     (rpc_bxn_offset, rpc_bxn_offset_default),
     (rpc_bank, rpc_bank_default)]"

definition rpc_raw_delay_defaults :: "(bitfield \<times> int) list" where [defaults_defs]:
  "rpc_raw_delay_defaults =
    [(rpc0_raw_delay, rpc0_raw_delay_default),
     (rpc1_raw_delay, rpc1_raw_delay_default)]"

definition rpc_inj_defaults :: "(bitfield \<times> int) list" where [defaults_defs]:
  "rpc_inj_defaults =
    [(rpc_mask_all, rpc_mask_all_default),
     (inj_mask_rat, inj_mask_rat_default),
     (inj_mask_rpc, inj_mask_rpc_default),
     (inj_delay_rat, inj_delay_rat_default),
     (rpc_inj_sel, rpc_inj_sel_default),
     (rpc_inj_wdata, rpc_inj_wdata_default)]"

definition rpc_tbins_defaults :: "(bitfield \<times> int) list" where [defaults_defs]:
  "rpc_tbins_defaults =
    [(fifo_tbins_rpc, fifo_tbins_rpc_default),
     (fifo_pretrig_rpc, fifo_pretrig_rpc_default),
     (rpc_decouple, rpc_decouple_default)]"

definition bx0_delay_defaults :: "(bitfield \<times> int) list" where [defaults_defs]:
  "bx0_delay_defaults =
    [(alct_bx0_delay, alct_bx0_delay_default),
     (clct_bx0_delay, clct_bx0_delay_default),
     (alct_bx0_enable, alct_bx0_enable_default),
     (bx0_vpf_test, bx0_vpf_test_default)]"

definition non_trig_readout_defaults :: "(bitfield \<times> int) list" where [defaults_defs]:
  "non_trig_readout_defaults =
    [(tmb_allow_alct_nontrig_readout, tmb_allow_alct_nontrig_readout_default),
     (tmb_allow_clct_nontrig_readout, tmb_allow_clct_nontrig_readout_default),
     (tmb_allow_match_nontrig_readout, tmb_allow_match_nontrig_readout_default),
     (mpc_block_me1a, mpc_block_me1a_default),
     (clct_pretrigger_counter_non_me11, clct_pretrigger_counter_non_me11_default)]"

definition jtag_sm_ctrl_defaults :: "(bitfield \<times> int) list" where [defaults_defs]:
  "jtag_sm_ctrl_defaults =
    [(jtag_state_machine_start, jtag_state_machine_start_default),
     (jtag_state_machine_sreset, jtag_state_machine_sreset_default),
     (jtag_disable_write_to_adr10, jtag_disable_write_to_adr10_default),
     (jtag_state_machine_throttle, jtag_state_machine_throttle_default)]"

definition vme_sm_ctrl_defaults :: "(bitfield \<times> int) list" where [defaults_defs]:
  "vme_sm_ctrl_defaults =
    [(vme_state_machine_start, vme_state_machine_start_default),
     (vme_state_machine_sreset, vme_state_machine_sreset_default),
     (vme_state_machine_jtag_auto, vme_state_machine_jtag_auto_default),
     (phase_shifter_auto, phase_shifter_auto_default),
     (vme_state_machine_throttle, vme_state_machine_throttle_default)]"

definition rat_3d_delays_defaults :: "(bitfield \<times> int) list" where [defaults_defs]:
  "rat_3d_delays_defaults =
    [(rpc0_rat_delay, rpc0_rat_delay_default),
     (rpc1_rat_delay, rpc1_rat_delay_default)]"

definition layer_trg_mode_defaults :: "(bitfield \<times> int) list" where [defaults_defs]:
  "layer_trg_mode_defaults =
    [(layer_trigger_en, layer_trigger_en_default),
     (layer_trig_thresh, layer_trig_thresh_default),
     (clct_throttle, clct_throttle_default)]"

definition pattern_find_pretrg_defaults :: "(bitfield \<times> int) list" where [defaults_defs]:
  "pattern_find_pretrg_defaults =
    [(clct_blanking, clct_blanking_default),
     (clct_pattern_id_thresh, clct_pattern_id_thresh_default),
     (clct_pattern_id_thresh_postdrift, clct_pattern_id_thresh_postdrift_default),
     (adjacent_cfeb_distance, adjacent_cfeb_distance_default)]"

definition clct_separation_defaults :: "(bitfield \<times> int) list" where [defaults_defs]:
  "clct_separation_defaults =
    [(clct_separation_src, clct_separation_src_default),
     (clct_separation_ram_write_enable, clct_separation_ram_write_enable_default),
     (clct_separation_ram_adr, clct_separation_ram_adr_default),
     (min_clct_separation, min_clct_separation_default)]"

definition l1a_lookback_defaults :: "(bitfield \<times> int) list" where [defaults_defs]:
  "l1a_lookback_defaults =
    [(l1a_allow_notmb_lookback, l1a_allow_notmb_lookback_default),
     (inj_wrdata_msb, inj_wrdata_msb_default),
     (l1a_priority_enable, l1a_priority_enable_default)]"

definition alct_sync_ctrl_defaults :: "(bitfield \<times> int) list" where [defaults_defs]:
  "alct_sync_ctrl_defaults =
    [(alct_sync_rxdata_dly, alct_sync_rxdata_dly_default),
     (alct_sync_tx_random, alct_sync_tx_random_default),
     (alct_sync_clear_errors, alct_sync_clear_errors_default)]"

definition alct_sync_txdata_1st_defaults :: "(bitfield \<times> int) list" where [defaults_defs]:
  "alct_sync_txdata_1st_defaults =
    [(alct_sync_txdata_1st, alct_sync_txdata_1st_default)]"

definition alct_sync_txdata_2nd_defaults :: "(bitfield \<times> int) list" where [defaults_defs]:
  "alct_sync_txdata_2nd_defaults =
    [(alct_sync_txdata_2nd, alct_sync_txdata_2nd_default)]"

definition miniscope_defaults :: "(bitfield \<times> int) list" where [defaults_defs]:
  "miniscope_defaults =
    [(miniscope_enable, miniscope_enable_default),
     (mini_tbins_test, mini_tbins_test_default),
     (mini_tbins_word, mini_tbins_word_default),
     (fifo_tbins_mini, fifo_tbins_mini_default),
     (fifo_pretrig_mini, fifo_pretrig_mini_default)]"

definition phaser_defaults :: "(bitfield \<times> int) list" where [defaults_defs]:
  "phaser_defaults =
    [(fire_phaser, fire_phaser_default),
     (reset_phase, reset_phase_default)]"

definition cfeb0_3_interstage_defaults :: "(bitfield \<times> int) list" where [defaults_defs]:
  "cfeb0_3_interstage_defaults =
    [(cfeb0_rxd_int_delay, cfeb0_rxd_int_delay_default),
     (cfeb1_rxd_int_delay, cfeb1_rxd_int_delay_default),
     (cfeb2_rxd_int_delay, cfeb2_rxd_int_delay_default),
     (cfeb3_rxd_int_delay, cfeb3_rxd_int_delay_default)]"

definition cfeb4_interstage_defaults :: "(bitfield \<times> int) list" where [defaults_defs]:
  "cfeb4_interstage_defaults =
    [(cfeb4_rxd_int_delay, cfeb4_rxd_int_delay_default)]"

definition sync_err_control_defaults :: "(bitfield \<times> int) list" where [defaults_defs]:
  "sync_err_control_defaults =
    [(sync_err_reset, sync_err_reset_default),
     (clct_bx0_sync_err_enable, clct_bx0_sync_err_enable_default),
     (alct_ecc_rx_sync_err_enable, alct_ecc_rx_sync_err_enable_default),
     (alct_ecc_tx_sync_err_enable, alct_ecc_tx_sync_err_enable_default),
     (bx0_match_sync_err_enable, bx0_match_sync_err_enable_default),
     (clock_lock_lost_sync_err_enable, clock_lock_lost_sync_err_enable_default),
     (sync_err_blanks_mpc_enable, sync_err_blanks_mpc_enable_default),
     (sync_err_stops_pretrig_enable, sync_err_stops_pretrig_enable_default),
     (sync_err_stops_readout_enable, sync_err_stops_readout_enable_default)]"

definition cfeb_badbits_ctrl_defaults :: "(bitfield \<times> int) list" where [defaults_defs]:
  "cfeb_badbits_ctrl_defaults =
    [(cfeb_badbits_reset, cfeb_badbits_reset_default),
     (cfeb_badbits_block, cfeb_badbits_block_default)]"

definition cfeb_badbits_timer_defaults :: "(bitfield \<times> int) list" where [defaults_defs]:
  "cfeb_badbits_timer_defaults =
    [(cfeb_badbits_nbx, cfeb_badbits_nbx_default)]"

definition tmb_defaults :: "(bitfield \<times> int) list" where
  "tmb_defaults =
     concat
       [vme_loopbk_defaults, vme_dddsm_defaults, vme_ddd0_defaults, vme_ddd1_defaults,
        vme_ddd2_defaults, vme_ratctrl_defaults, vme_adc_defaults, ccb_cfg_defaults,
        ccb_trig_defaults, alct_cfg_defaults, alct_inj_defaults, alct_stat_defaults,
        cfeb_inj_defaults, seq_trig_en_defaults, seq_trig_dly0_defaults, seq_trig_dly1_defaults,
        seq_id_defaults, seq_clct_defaults, seq_fifo_defaults, seq_offset_defaults,
        tmb_trig_defaults, scp_ctrl_defaults, alctfifo1_defaults, seqmod_defaults,
        tmbtim_defaults, rpc_cfg_defaults, rpc_raw_delay_defaults, rpc_inj_defaults,
        rpc_tbins_defaults, bx0_delay_defaults, non_trig_readout_defaults, jtag_sm_ctrl_defaults,
        vme_sm_ctrl_defaults, rat_3d_delays_defaults, layer_trg_mode_defaults,
        pattern_find_pretrg_defaults, clct_separation_defaults, l1a_lookback_defaults,
        alct_sync_ctrl_defaults, alct_sync_txdata_1st_defaults, alct_sync_txdata_2nd_defaults,
        miniscope_defaults, phaser_defaults, cfeb0_3_interstage_defaults,
        cfeb4_interstage_defaults, sync_err_control_defaults, cfeb_badbits_ctrl_defaults,
        cfeb_badbits_timer_defaults]"

definition assign :: "(bitfield \<times> int) list \<Rightarrow> (bitfield \<Rightarrow> int) \<Rightarrow> (bitfield \<Rightarrow> int)" where
  "assign xs w = fold (\<lambda>(f, v) w. w(f := v)) xs w"

definition SetTMBFirmwareCompileType :: "int \<Rightarrow> tmb \<Rightarrow> tmb" where
  "SetTMBFirmwareCompileType ty t =
     (let set = (\<lambda>me11 stagger rev_stagger me1a me1b ex.
            t\<lparr>wr := assign
                 [(tmb_firmware_compile_type, ty), (csc_me11, me11), (clct_stagger, stagger),
                  (reverse_stagger, rev_stagger), (reverse_me1a, me1a), (reverse_me1b, me1b)] (wr t),
              expected_compile_type := ex\<rparr>)
      in if ty = 0xa then set 0 1 0 0 0 TMB_FIRMWARE_TYPE_A
         else if ty = 0xb then set 0 0 1 0 0 TMB_FIRMWARE_TYPE_B
         else if ty = 0xc then set 1 0 0 1 0 TMB_FIRMWARE_TYPE_C
         else if ty = 0xd then set 1 0 0 0 1 TMB_FIRMWARE_TYPE_D
         else set 0 0 0 0 0 0)"

text \<open>The identifier of the chamber follows from the slot: two slots per TMB, the CCB and MPC sit in
  the middle of the crate.\<close>

definition csc_id_of_slot :: "int \<Rightarrow> int" where
  "csc_id_of_slot s = (if s > 11 then s sdiv 2 - 1 else s sdiv 2)"

definition default_clock_delay :: "phaser \<Rightarrow> int" where
  "default_clock_delay p =
     (case p of Alct_rx \<Rightarrow> alct_rx_clock_delay_default | Alct_tx \<Rightarrow> alct_tx_clock_delay_default
      | Cfeb0_rx \<Rightarrow> cfeb0_rx_clock_delay_default | Cfeb1_rx \<Rightarrow> cfeb1_rx_clock_delay_default
      | Cfeb2_rx \<Rightarrow> cfeb2_rx_clock_delay_default | Cfeb3_rx \<Rightarrow> cfeb3_rx_clock_delay_default
      | Cfeb4_rx \<Rightarrow> cfeb4_rx_clock_delay_default | _ \<Rightarrow> 0)"

definition default_posneg :: "phaser \<Rightarrow> int" where
  "default_posneg p =
     (case p of Alct_rx \<Rightarrow> alct_rx_posneg_default | Alct_tx \<Rightarrow> alct_tx_posneg_default
      | Cfeb0_rx \<Rightarrow> cfeb0_rx_posneg_default | Cfeb1_rx \<Rightarrow> cfeb1_rx_posneg_default
      | Cfeb2_rx \<Rightarrow> cfeb2_rx_posneg_default | Cfeb3_rx \<Rightarrow> cfeb3_rx_posneg_default
      | Cfeb4_rx \<Rightarrow> cfeb4_rx_posneg_default | _ \<Rightarrow> 0)"

definition with_default :: "phaser list \<Rightarrow> (phaser \<Rightarrow> int) \<Rightarrow> (phaser \<Rightarrow> int) \<Rightarrow> (phaser \<Rightarrow> int)" where
  "with_default ps d f = upd_all d ps f"

text \<open>The constructor leaves the phases of CFEB 5 and 6 alone.\<close>

definition default_phasers :: "phaser list" where
  "default_phasers = [Alct_rx, Alct_tx, Cfeb0_rx, Cfeb1_rx, Cfeb2_rx, Cfeb3_rx, Cfeb4_rx]"

definition mask_channels :: "(int \<times> int) list" where
  "mask_channels = List.product [0..5] [0..39]"

definition SetTMBRegisterDefaults :: "tmb \<Rightarrow> tmb" where
  "SetTMBRegisterDefaults t0 =
     (let t = t0\<lparr>trgmode := CLCT_trigger,
                 wr := assign (tmb_defaults @
                         [(tmb_slot, slot t0), (csc_id, csc_id_of_slot (slot t0))]) (wr t0),
                 rd := assign [(l1adelay, l1adelay_default),
                               (l1a_window_size, l1a_window_size_default),
                               (tmb_l1a_internal, tmb_l1a_internal_default)] (rd t0),
                 hot_channel_mask :=
                   upd_all (\<lambda>_. hot_channel_mask_default) mask_channels (hot_channel_mask t0),
                 clock_delay := with_default default_phasers default_clock_delay (clock_delay t0),
                 posneg := with_default default_phasers default_posneg (posneg t0)\<rparr>
      in SetTMBFirmwareCompileType tmb_firmware_compile_type_default t)"

text \<open>The constructor. The members it does not set keep whatever the memory of the object held (\<open>t0\<close>).\<close>

definition TMB_init :: "int \<Rightarrow> tmb \<Rightarrow> tmb" where
  "TMB_init theslot t0 =
     (SetTMBRegisterDefaults (t0\<lparr>slot := theslot, hardware_version := 0\<rparr>))
       \<lparr>tmb_configuration_status := -1, vme_state_machine_status := -1,
        jtag_state_machine_status := -1, ddd_state_machine_status := -1,
        raw_hits_header_status := -1\<rparr>"

text \<open>A cleared memory, for concrete examples.\<close>

definition blank_tmb :: tmb where
  "blank_tmb =
     \<lparr>wr = (\<lambda>_. 0), rd = (\<lambda>_. 0), hot_channel_mask = (\<lambda>_. 0), read_hot_channel_mask = (\<lambda>_. 0),
      read_badbits = (\<lambda>_. 0), clock_delay = (\<lambda>_. 0), posneg = (\<lambda>_. 0), read_clock_delay = (\<lambda>_. 0),
      read_posneg = (\<lambda>_. 0), trgmode = 0, read_trgmode = 0, hardware_version = 0, slot = 0,
      read_firmware = (\<lambda>_. 0), firmware = (\<lambda>_. 0), expected_compile_type = 0,
      fill_vme_write_vecs = False, vme_write_vecs = [], number_of_configuration_reads = 0,
      tmb_configuration_status = 0, vme_state_machine_status = 0, jtag_state_machine_status = 0,
      ddd_state_machine_status = 0, raw_hits_header_status = 0\<rparr>"

section \<open>The configuration registers\<close>

definition TMBConfigurationRegister :: "int list" where
  "TMBConfigurationRegister =
     [vme_loopbk_adr, alct_inj_adr, alct_stat_adr, cfeb_inj_adr, rpc_cfg_adr, rpc_inj_adr,
      seq_trig_dly0_adr, rpc_raw_delay_adr, seq_trig_en_adr, seq_clct_adr, seqmod_adr,
      layer_trg_mode_adr, pattern_find_pretrg_adr, clct_separation_adr, tmbtim_adr, tmb_trig_adr,
      seq_fifo_adr, rpc_tbins_adr, non_trig_readout_adr, l1a_lookback_adr, miniscope_adr,
      seq_l1a_adr, seq_offset_adr, bx0_delay_adr, ccb_trig_adr, alct_cfg_adr, vme_ddd0_adr,
      vme_ddd1_adr, vme_ddd2_adr, rat_3d_delays_adr, phaser_alct_rxd_adr, phaser_alct_txd_adr,
      phaser_cfeb0_rxd_adr, phaser_cfeb1_rxd_adr, phaser_cfeb2_rxd_adr, phaser_cfeb3_rxd_adr,
      phaser_cfeb4_rxd_adr, cfeb0_3_interstage_adr, cfeb4_interstage_adr, hcm001_adr, hcm023_adr,
      hcm045_adr, hcm101_adr, hcm123_adr, hcm145_adr, hcm201_adr, hcm223_adr, hcm245_adr,
      hcm301_adr, hcm323_adr, hcm345_adr, hcm401_adr, hcm423_adr, hcm445_adr,
      cfeb_badbits_ctrl_adr]"

definition OkTMBVmeWrite :: "int \<Rightarrow> bool" where
  "OkTMBVmeWrite vme = list_ex (\<lambda>a. vme AND 0xfff = a AND 0xfff) TMBConfigurationRegister"

section \<open>Reading and writing registers\<close>

type_synonym 'h vme_read = "int \<Rightarrow> 'h \<Rightarrow> int \<times> 'h"
type_synonym 'h vme_write = "int \<Rightarrow> int \<Rightarrow> 'h \<Rightarrow> 'h"

text \<open>A 16-bit word is read as two bytes and put together again.\<close>

definition vme_word :: "int \<Rightarrow> int" where
  "vme_word data = push_bit 8 (drop_bit 8 data AND 0xff) OR (data AND 0xff)"

definition ReadRegister :: "'h vme_read \<Rightarrow> int \<Rightarrow> tmb \<times> 'h \<Rightarrow> int \<times> tmb \<times> 'h" where
  "ReadRegister rdv reg s =
     (let (data, h) = rdv reg (snd s);
          value = vme_word data
      in (value, DecodeTMBRegister reg value (fst s), h))"

definition tmb_vme_write :: "'h vme_write \<Rightarrow> int \<Rightarrow> int \<Rightarrow> tmb \<times> 'h \<Rightarrow> tmb \<times> 'h" where
  "tmb_vme_write wrv vme data s =
     (let t = fst s;
          t = (if fill_vme_write_vecs t \<and> OkTMBVmeWrite vme
               then t\<lparr>vme_write_vecs := vme_write_vecs t @
                        [(vme, data AND 0xff, drop_bit 8 data AND 0xff)]\<rparr>
               else t)
      in (t, wrv vme (take_bit 16 data) (snd s)))"

definition WriteRegister :: "'h vme_write \<Rightarrow> int \<Rightarrow> tmb \<times> 'h \<Rightarrow> tmb \<times> 'h" where
  "WriteRegister wrv address s =
     (let data_to_write = FillTMBRegister address (fst s)
      in if data_to_write < 0x10000 then tmb_vme_write wrv address data_to_write s else s)"

text \<open>\<^verbatim>\<open>configure(2)\<close> up to the check: no user PROM, then the 3D3444 state machine is started and
  stopped. (With another argument the writes are also recorded in \<open>vme_write_vecs\<close>.)\<close>

definition configure_registers :: "'h vme_write \<Rightarrow> tmb \<times> 'h \<Rightarrow> tmb \<times> 'h" where
  "configure_registers wrv s = fold (WriteRegister wrv) TMBConfigurationRegister s"

definition configure_begin :: "bool \<Rightarrow> tmb \<Rightarrow> tmb" where
  "configure_begin to_prom t = t\<lparr>fill_vme_write_vecs := to_prom, vme_write_vecs := []\<rparr>"

definition start_ddd :: "'h vme_write \<Rightarrow> tmb \<times> 'h \<Rightarrow> tmb \<times> 'h" where
  "start_ddd wrv s =
     (if \<not> fill_vme_write_vecs (fst s)
      then tmb_vme_write wrv vme_dddsm_adr 0x20
             (tmb_vme_write wrv vme_dddsm_adr 0x21 (tmb_vme_write wrv vme_dddsm_adr 0x20 s))
      else s)"

section \<open>Reading the configuration\<close>

definition set_firmware :: "firmware_item \<Rightarrow> int \<Rightarrow> tmb \<Rightarrow> tmb" where
  "set_firmware i v t = t\<lparr>read_firmware := (read_firmware t)(i := v)\<rparr>"

definition bcd2 :: "int \<Rightarrow> int" where
  "bcd2 v = drop_bit 4 v * 10 + (v AND 0xF)"

definition FirmwareDate :: "'h vme_read \<Rightarrow> tmb \<times> 'h \<Rightarrow> tmb \<times> 'h" where
  "FirmwareDate rdv s =
     (let (data, t, h) = ReadRegister rdv vme_idreg1_adr s
      in (set_firmware Month (bcd2 (drop_bit 8 data AND 0xff))
            (set_firmware Day (bcd2 (data AND 0xff)) t), h))"

definition firmware_year :: "int \<Rightarrow> int" where
  "firmware_year data =
     (drop_bit 12 data AND 0xF) * 1000 + (drop_bit 8 data AND 0xF) * 1000 +
     (drop_bit 4 data AND 0xF) * 10 + (data AND 0xF)"

definition FirmwareYear :: "'h vme_read \<Rightarrow> tmb \<times> 'h \<Rightarrow> tmb \<times> 'h" where
  "FirmwareYear rdv s =
     (let (data, h) = rdv vme_idreg2_adr (snd s)
      in (set_firmware Year (firmware_year (vme_word data)) (fst s), h))"

definition FirmwareVersion :: "'h vme_read \<Rightarrow> tmb \<times> 'h \<Rightarrow> tmb \<times> 'h" where
  "FirmwareVersion rdv s =
     (let (data, h) = rdv vme_idreg0_adr (snd s)
      in (set_firmware Version (drop_bit 4 (vme_word data) AND 0xf)
            (set_firmware Fw_type (vme_word data AND 0xf) (fst s)), h))"

definition FirmwareRevCode :: "'h vme_read \<Rightarrow> tmb \<times> 'h \<Rightarrow> tmb \<times> 'h" where
  "FirmwareRevCode rdv s =
     (let (data, h) = rdv vme_idreg3_adr (snd s)
      in (set_firmware Revcode (drop_bit 12 (vme_word data) AND 0x000f) (fst s), h))"

definition tmb_get_boot_reg :: "'h vme_read \<Rightarrow> tmb \<times> 'h \<Rightarrow> tmb \<times> 'h" where
  "tmb_get_boot_reg rdv s =
     (let (data, h) = rdv tmb_adr_boot (snd s)
      in (DecodeBootRegister (vme_word data) (fst s), h))"

definition read_registers :: "'h vme_read \<Rightarrow> int list \<Rightarrow> tmb \<times> 'h \<Rightarrow> tmb \<times> 'h" where
  "read_registers rdv regs s = fold (\<lambda>a s. snd (ReadRegister rdv a s)) regs s"

definition ReadTMBConfiguration :: "'h vme_read \<Rightarrow> tmb \<times> 'h \<Rightarrow> tmb \<times> 'h" where
  "ReadTMBConfiguration rdv s =
     read_registers rdv (filter (\<lambda>a. a \<noteq> vme_usr_jtag_adr) TMBConfigurationRegister)
       (tmb_get_boot_reg rdv (FirmwareRevCode rdv (FirmwareVersion rdv
          (FirmwareYear rdv (FirmwareDate rdv s)))))"

definition ReadVMEStateMachine :: "'h vme_read \<Rightarrow> tmb \<times> 'h \<Rightarrow> tmb \<times> 'h" where
  "ReadVMEStateMachine rdv s =
     read_registers rdv [vme_sm_ctrl_adr, vme_sm_wdcnt_adr, vme_sm_cksum_adr, num_vme_sm_adr_adr] s"

definition ReadJTAGStateMachine :: "'h vme_read \<Rightarrow> tmb \<times> 'h \<Rightarrow> tmb \<times> 'h" where
  "ReadJTAGStateMachine rdv s =
     tmb_get_boot_reg rdv
       (read_registers rdv [jtag_sm_ctrl_adr, jtag_sm_cksum_adr, jtag_sm_wdcnt_adr] s)"

definition ReadRawHitsHeader :: "'h vme_read \<Rightarrow> tmb \<times> 'h \<Rightarrow> tmb \<times> 'h" where
  "ReadRawHitsHeader rdv s = read_registers rdv [tmb_stat_adr] s"

definition ReadDDDStateMachine :: "'h vme_read \<Rightarrow> tmb \<times> 'h \<Rightarrow> tmb \<times> 'h" where
  "ReadDDDStateMachine rdv s = read_registers rdv [vme_dddsm_adr] s"

section \<open>Checking the configuration\<close>

named_theorems checked_defs \<comment> \<open>the fields each part of the check compares\<close>

definition vme_loopbk_checked :: "bitfield list" where [checked_defs]:
  "vme_loopbk_checked =
     [enable_alct_tx, enable_alct_rx]"

definition vme_ddd0_checked :: "bitfield list" where [checked_defs]:
  "vme_ddd0_checked =
     [alct_tof_delay, dmb_tx_delay, rat_tmb_delay]"

definition vme_ddd1_checked :: "bitfield list" where [checked_defs]:
  "vme_ddd1_checked =
     [tmb1_phase, cfeb_tof_delay, cfeb0_tof_delay]"

definition vme_ddd2_checked :: "bitfield list" where [checked_defs]:
  "vme_ddd2_checked =
     [cfeb1_tof_delay, cfeb2_tof_delay, cfeb3_tof_delay, cfeb4_tof_delay]"

definition ccb_trig_checked :: "bitfield list" where [checked_defs]:
  "ccb_trig_checked =
     [alct_ext_trig_l1aen, clct_ext_trig_l1aen, request_l1a, alct_ext_trig_vme,
      clct_ext_trig_vme, ext_trig_both, ccb_allow_bypass, ignore_ccb_startstop,
      internal_l1a_delay_vme]"

definition alct_cfg_checked :: "bitfield list" where [checked_defs]:
  "alct_cfg_checked =
     [cfg_alct_ext_trig_en, cfg_alct_ext_inject_en, cfg_alct_ext_trig, cfg_alct_ext_inject,
      alct_seq_cmd, alct_clock_en_use_ccb, alct_clock_en_use_vme]"

definition alct_inj_checked :: "bitfield list" where [checked_defs]:
  "alct_inj_checked =
     [alct_clear, alct_inject_mux, alct_sync_clct, alct_inj_delay]"

definition alct_stat_checked :: "bitfield list" where [checked_defs]:
  "alct_stat_checked =
     [alct_ecc_en, alct_ecc_err_blank, alct_txdata_delay]"

definition cfeb_inj_checked :: "bitfield list" where [checked_defs]:
  "cfeb_inj_checked =
     [enableCLCTInputs, cfeb_ram_sel, cfeb_inj_en_sel, start_pattern_inj]"

definition seq_trig_en_checked :: "bitfield list" where [checked_defs]:
  "seq_trig_en_checked =
     [clct_pat_trig_en, alct_pat_trig_en, match_pat_trig_en, adb_ext_trig_en, dmb_ext_trig_en,
      clct_ext_trig_en, alct_ext_trig_en, vme_ext_trig, ext_trig_inject, all_cfeb_active,
      cfeb_enable_source]"

definition seq_trig_dly0_checked :: "bitfield list" where [checked_defs]:
  "seq_trig_dly0_checked =
     [alct_pretrig_width, alct_pretrig_delay, alct_pattern_delay, adb_ext_trig_delay]"

definition seq_clct_checked :: "bitfield list" where [checked_defs]:
  "seq_clct_checked =
     [triad_persist, hit_thresh, aff_thresh, min_hits_pattern, drift_delay, pretrigger_halt]"

definition seq_fifo_checked :: "bitfield list" where [checked_defs]:
  "seq_fifo_checked =
     [fifo_mode, fifo_tbins, fifo_pretrig, fifo_no_raw_hits, cfeb_badbits_readout]"

definition seq_offset_checked :: "bitfield list" where [checked_defs]:
  "seq_offset_checked =
     [l1a_offset, bxn_offset]"

definition tmb_trig_checked :: "bitfield list" where [checked_defs]:
  "tmb_trig_checked =
     [tmb_sync_err_enable, tmb_allow_alct, tmb_allow_clct, tmb_allow_match, mpc_rx_delay,
      mpc_sel_ttc_bx0, mpc_idle_blank, mpc_output_enable]"

definition seqmod_checked :: "bitfield list" where [checked_defs]:
  "seqmod_checked =
     [clct_flush_delay, wr_buffer_autoclear, clct_write_continuous_enable, wrt_buf_required,
      valid_clct_required, l1a_allow_match, l1a_allow_notmb, l1a_allow_nol1a,
      l1a_allow_alct_only, scint_veto_clr]"

definition tmbtim_checked :: "bitfield list" where [checked_defs]:
  "tmbtim_checked =
     [alct_vpf_delay, alct_match_window_size, mpc_tx_delay]"

definition rpc_cfg_checked :: "bitfield list" where [checked_defs]:
  "rpc_cfg_checked =
     [rpc_exists, rpc_read_enable, rpc_bxn_offset, rpc_bank]"

definition rpc_raw_delay_checked :: "bitfield list" where [checked_defs]:
  "rpc_raw_delay_checked =
     [rpc0_raw_delay, rpc1_raw_delay]"

definition rpc_inj_checked :: "bitfield list" where [checked_defs]:
  "rpc_inj_checked =
     [rpc_mask_all, inj_mask_rat, inj_mask_rpc, inj_delay_rat, rpc_inj_sel]"

definition rpc_tbins_checked :: "bitfield list" where [checked_defs]:
  "rpc_tbins_checked =
     [fifo_tbins_rpc, fifo_pretrig_rpc, rpc_decouple]"

definition bx0_delay_checked :: "bitfield list" where [checked_defs]:
  "bx0_delay_checked =
     [alct_bx0_delay, clct_bx0_delay, alct_bx0_enable, bx0_vpf_test]"

definition non_trig_readout_checked :: "bitfield list" where [checked_defs]:
  "non_trig_readout_checked =
     [tmb_allow_alct_nontrig_readout, tmb_allow_clct_nontrig_readout,
      tmb_allow_match_nontrig_readout, mpc_block_me1a, csc_me11, clct_stagger, reverse_stagger,
      reverse_me1a, reverse_me1b]"

definition rat_3d_delays_checked :: "bitfield list" where [checked_defs]:
  "rat_3d_delays_checked =
     [rpc0_rat_delay, rpc1_rat_delay]"

definition layer_trg_mode_checked :: "bitfield list" where [checked_defs]:
  "layer_trg_mode_checked =
     [layer_trigger_en, layer_trig_thresh, clct_throttle]"

definition pattern_find_pretrg_checked :: "bitfield list" where [checked_defs]:
  "pattern_find_pretrg_checked =
     [clct_blanking, clct_pattern_id_thresh, clct_pattern_id_thresh_postdrift,
      adjacent_cfeb_distance]"

definition clct_separation_checked :: "bitfield list" where [checked_defs]:
  "clct_separation_checked =
     [clct_separation_src, min_clct_separation]"

definition l1a_lookback_checked :: "bitfield list" where [checked_defs]:
  "l1a_lookback_checked =
     [l1a_allow_notmb_lookback, l1a_priority_enable]"

definition miniscope_checked :: "bitfield list" where [checked_defs]:
  "miniscope_checked =
     [miniscope_enable, mini_tbins_test, mini_tbins_word, fifo_tbins_mini, fifo_pretrig_mini]"

definition cfeb0_3_interstage_checked :: "bitfield list" where [checked_defs]:
  "cfeb0_3_interstage_checked =
     [cfeb0_rxd_int_delay, cfeb1_rxd_int_delay, cfeb2_rxd_int_delay, cfeb3_rxd_int_delay]"

definition cfeb4_interstage_checked :: "bitfield list" where [checked_defs]:
  "cfeb4_interstage_checked =
     [cfeb4_rxd_int_delay]"

definition config_checked :: "bitfield list" where
  "config_checked =
     concat
       [vme_loopbk_checked, vme_ddd0_checked, vme_ddd1_checked, vme_ddd2_checked,
        ccb_trig_checked, alct_cfg_checked, alct_inj_checked, alct_stat_checked,
        cfeb_inj_checked, seq_trig_en_checked, seq_trig_dly0_checked, seq_clct_checked,
        seq_fifo_checked, seq_offset_checked, tmb_trig_checked, seqmod_checked, tmbtim_checked,
        rpc_cfg_checked, rpc_raw_delay_checked, rpc_inj_checked, rpc_tbins_checked,
        bx0_delay_checked, non_trig_readout_checked, rat_3d_delays_checked,
        layer_trg_mode_checked, pattern_find_pretrg_checked, clct_separation_checked,
        l1a_lookback_checked, miniscope_checked, cfeb0_3_interstage_checked,
        cfeb4_interstage_checked]"

definition compareValues_if :: "int \<Rightarrow> int \<Rightarrow> bool \<Rightarrow> bool" where
  "compareValues_if testval compareval equal =
     (if equal then (if testval = compareval then True else False)
      else (if testval \<noteq> compareval then True else False))"

definition compareValues :: "int \<Rightarrow> int \<Rightarrow> bool" where
  "compareValues testval compareval = compareValues_if testval compareval True"

lemma compareValues_eq: "compareValues testval compareval \<longleftrightarrow> testval = compareval"
  by (simp add: compareValues_def compareValues_if_def)

definition bits_and5 :: "int \<Rightarrow> int" where
  "bits_and5 v = fold (\<lambda>cfeb r. r AND (drop_bit cfeb v AND 0x1)) [0..<5] 1"

definition GetCFEBBadBitsBlock :: "tmb \<Rightarrow> int" where
  "GetCFEBBadBitsBlock t = bits_and5 (wr t cfeb_badbits_block)"

definition GetReadCFEBBadBitsBlock :: "tmb \<Rightarrow> int" where
  "GetReadCFEBBadBitsBlock t = bits_and5 (rd t cfeb_badbits_block)"

definition bits_set5 :: "int \<Rightarrow> int" where
  "bits_set5 v = fold (\<lambda>cfeb r. r OR push_bit cfeb (v AND 0x1)) [0..<5] 0"

definition SetCFEBBadBitsBlock :: "int \<Rightarrow> tmb \<Rightarrow> tmb" where
  "SetCFEBBadBitsBlock v t = t\<lparr>wr := (wr t)(cfeb_badbits_block := bits_set5 v)\<rparr>"

definition SetCFEBBadBitsReset :: "int \<Rightarrow> tmb \<Rightarrow> tmb" where
  "SetCFEBBadBitsReset v t = t\<lparr>wr := (wr t)(cfeb_badbits_reset := bits_set5 v)\<rparr>"

definition GetCFEBBadBitsReset :: "tmb \<Rightarrow> int" where
  "GetCFEBBadBitsReset t = bits_and5 (wr t cfeb_badbits_reset)"

definition GetReadCFEBBadBitsReset :: "tmb \<Rightarrow> int" where
  "GetReadCFEBBadBitsReset t = bits_and5 (rd t cfeb_badbits_reset)"

definition cfebs_enabled_expected :: "tmb \<Rightarrow> int" where
  "cfebs_enabled_expected t =
     (if wr t cfeb_enable_source = 1 then wr t enableCLCTInputs else wr t cfebs_enabled)"

text \<open>The comparisons made after one read of the configuration. The three of register 0x74 compare
  a member with itself, as the code does.\<close>

definition config_compare :: "tmb \<Rightarrow> bool" where
  "config_compare t \<longleftrightarrow>
     list_all (\<lambda>i. compareValues (read_firmware t i) (firmware t i))
       [Month, Day, Year, Version, Revcode, Fw_type] \<and>
     compareValues (rd t boot_control_jtag_chain) boot_control_jtag_chain_expected \<and>
     list_all (\<lambda>f. compareValues (rd t f) (wr t f)) config_checked \<and>
     list_all (\<lambda>c. compareValues (read_hot_channel_mask t c) (hot_channel_mask t c)) mask_channels \<and>
     compareValues (rd t cfebs_enabled) (cfebs_enabled_expected t) \<and>
     list_all (\<lambda>f. compareValues (rd t f) (rd t f)) seq_l1a_filled \<and>
     compareValues (rd t tmb_firmware_compile_type) (expected_compile_type t) \<and>
     list_all (\<lambda>p. compareValues (read_clock_delay t p) (clock_delay t p) \<and>
                   compareValues (read_posneg t p) (posneg t p)) default_phasers \<and>
     compareValues (GetReadCFEBBadBitsBlock t) (GetCFEBBadBitsBlock t)"

text \<open>One more read as long as the check has failed, at most \<open>k\<close> times.\<close>

fun check_reads :: "'h vme_read \<Rightarrow> nat \<Rightarrow> bool \<times> tmb \<times> 'h \<Rightarrow> bool \<times> tmb \<times> 'h" where
  "check_reads rdv 0 r = r"
| "check_reads rdv (Suc k) (config_ok, t, h) =
     (if config_ok then (config_ok, t, h)
      else let (t', h') = ReadTMBConfiguration rdv
                 (t\<lparr>number_of_configuration_reads := number_of_configuration_reads t + 1\<rparr>, h)
           in check_reads rdv k (config_compare t', t', h'))"

definition CheckTMBConfiguration :: "'h vme_read \<Rightarrow> nat \<Rightarrow> tmb \<times> 'h \<Rightarrow> tmb \<times> 'h" where
  "CheckTMBConfiguration rdv max_number_of_reads s =
     (let (config_ok, t, h) = check_reads rdv max_number_of_reads
            (False, (fst s)\<lparr>number_of_configuration_reads := 0\<rparr>, snd s)
      in (t\<lparr>tmb_configuration_status := of_bool config_ok\<rparr>, h))"

text \<open>The errors of a read are printed only in this one of the reads.\<close>

definition print_errors :: "nat \<Rightarrow> nat \<Rightarrow> bool" where
  "print_errors number_of_reads max_number_of_reads \<longleftrightarrow>
     int number_of_reads = int max_number_of_reads - 1"

definition configure2 :: "'h vme_read \<Rightarrow> 'h vme_write \<Rightarrow> tmb \<times> 'h \<Rightarrow> tmb \<times> 'h" where
  "configure2 rdv wrv s =
     (let (t, h) = start_ddd wrv (configure_registers wrv (configure_begin False (fst s), snd s));
          t = t\<lparr>fill_vme_write_vecs := False\<rparr>
      in if slot t < 22 then CheckTMBConfiguration rdv 2 (t, h) else (t, h))"

section \<open>Status checks\<close>

definition RawHitsHeader_expectations :: "(bitfield \<times> int) list" where
  "RawHitsHeader_expectations =
    [(bdstatus_ok, bdstatus_ok_expected),
     (vstat_5p0v, vstat_5p0v_expected),
     (vstat_3p3v, vstat_3p3v_expected),
     (vstat_1p8v, vstat_1p8v_expected),
     (vstat_1p5v, vstat_1p5v_expected),
     (nt_crit, nt_crit_expected),
     (vsm_ok, vsm_ok_expected),
     (vsm_aborted, vsm_aborted_expected),
     (vsm_cksum_ok, vsm_cksum_ok_expected),
     (vsm_wdcnt_ok, vsm_wdcnt_ok_expected),
     (jsm_ok, jsm_ok_expected),
     (jsm_aborted, jsm_aborted_expected),
     (jsm_cksum_ok, jsm_cksum_ok_expected),
     (jsm_wdcnt_ok, jsm_wdcnt_ok_expected),
     (jsm_tck_fpga_ok, jsm_tck_fpga_ok_expected)]"

definition CheckRawHitsHeader :: "'h vme_read \<Rightarrow> tmb \<times> 'h \<Rightarrow> tmb \<times> 'h" where
  "CheckRawHitsHeader rdv s =
     (let (t, h) = ReadRawHitsHeader rdv s;
          config_ok = (list_all (\<lambda>(f, v). compareValues (rd t f) v) RawHitsHeader_expectations)
      in (t\<lparr>raw_hits_header_status := of_bool config_ok\<rparr>, h))"

definition VMEStateMachine_expectations :: "(bitfield \<times> int) list" where
  "VMEStateMachine_expectations =
    [(vme_state_machine_autostart, vme_state_machine_autostart_expected),
     (vme_state_machine_aborted, vme_state_machine_aborted_expected),
     (vme_state_machine_cksum_ok, vme_state_machine_cksum_ok_expected),
     (vme_state_machine_wdcnt_ok, vme_state_machine_wdcnt_ok_expected),
     (vme_state_machine_vme_ready, vme_state_machine_vme_ready_expected),
     (vme_state_machine_ok, vme_state_machine_ok_expected),
     (vme_state_machine_path_ok, vme_state_machine_path_ok_expected),
     (vme_state_machine_error_missing_header_start, vme_state_machine_error_missing_header_start_expected),
     (vme_state_machine_error_missing_header_end, vme_state_machine_error_missing_header_end_expected),
     (vme_state_machine_error_missing_data_end_marker, vme_state_machine_error_missing_data_end_marker_expected),
     (vme_state_machine_error_missing_trailer_end, vme_state_machine_error_missing_trailer_end_expected),
     (vme_state_machine_error_word_count_overflow, vme_state_machine_error_word_count_overflow_expected)]"

definition CheckVMEStateMachine :: "'h vme_read \<Rightarrow> tmb \<times> 'h \<Rightarrow> tmb \<times> 'h" where
  "CheckVMEStateMachine rdv s =
     (let (t, h) = ReadVMEStateMachine rdv s;
          config_ok = (list_all (\<lambda>(f, v). compareValues (rd t f) v) VMEStateMachine_expectations)
      in (t\<lparr>vme_state_machine_status := of_bool config_ok\<rparr>, h))"

definition JTAGStateMachine_expectations :: "(bitfield \<times> int) list" where
  "JTAGStateMachine_expectations =
    [(jtag_state_machine_autostart, jtag_state_machine_autostart_expected),
     (jtag_state_machine_aborted, jtag_state_machine_aborted_expected),
     (jtag_state_machine_cksum_ok, jtag_state_machine_cksum_ok_expected),
     (jtag_state_machine_wdcnt_ok, jtag_state_machine_wdcnt_ok_expected),
     (jtag_state_machine_tck_fpga_ok, jtag_state_machine_tck_fpga_ok_expected),
     (jtag_state_machine_vme_ready, jtag_state_machine_vme_ready_expected),
     (jtag_state_machine_ok, jtag_state_machine_ok_expected),
     (boot_control_jtag_chain, boot_control_jtag_chain_expected)]"

definition CheckJTAGStateMachine :: "'h vme_read \<Rightarrow> tmb \<times> 'h \<Rightarrow> tmb \<times> 'h" where
  "CheckJTAGStateMachine rdv s =
     (let (t, h) = ReadJTAGStateMachine rdv s;
          config_ok = (list_all (\<lambda>(f, v). compareValues (rd t f) v) JTAGStateMachine_expectations)
      in (t\<lparr>jtag_state_machine_status := of_bool config_ok\<rparr>, h))"

definition DDDStateMachine_expectations :: "(bitfield \<times> int) list" where
  "DDDStateMachine_expectations =
    [(ddd_state_machine_busy, ddd_state_machine_busy_expected),
     (ddd_state_machine_verify_ok, ddd_state_machine_verify_ok_expected),
     (ddd_state_machine_clock0_lock, ddd_state_machine_clock0_lock_expected),
     (ddd_state_machine_clock0d_lock, ddd_state_machine_clock0d_lock_expected),
     (ddd_state_machine_clock1_lock, ddd_state_machine_clock1_lock_expected),
     (ddd_state_machine_clock_alct_lock, ddd_state_machine_clock_alct_lock_expected),
     (ddd_state_machine_clockd_alct_lock, ddd_state_machine_clockd_alct_lock_expected),
     (ddd_state_machine_clock_cfeb_lock, ddd_state_machine_clock_cfeb_lock_expected),
     (ddd_state_machine_clock_dcc_lock, ddd_state_machine_clock_dcc_lock_expected)]"

definition CheckDDDStateMachine :: "'h vme_read \<Rightarrow> tmb \<times> 'h \<Rightarrow> tmb \<times> 'h" where
  "CheckDDDStateMachine rdv s =
     (let (t, h) = ReadDDDStateMachine rdv s;
          config_ok = (list_all (\<lambda>(f, v). compareValues (rd t f) v) DDDStateMachine_expectations \<and>
            compareValues (rd t ddd_state_machine_clock_rpc_lock) (wr t rpc_exists AND 0x1))
      in (t\<lparr>ddd_state_machine_status := of_bool config_ok\<rparr>, h))"

end
