(* ===== verification/TMB_Check.thy ===== *)
theory TMB_Check
  imports TMB_Codec TMB_Config
begin

text \<open>
  What \<^verbatim>\<open>CheckTMBConfiguration\<close> decides. On a board whose registers do not change while they are
  read (\<open>steady\<close>) the whole read-back is a function of the data words \<open>D\<close>, and the check
  succeeds exactly when the words agree with the members of the class (\<open>board_matches\<close>). The
  members the check does not see are named explicitly.
\<close>

section \<open>Decoding as a function of the data word\<close>

definition decoded_fields :: "int \<Rightarrow> bitfield list" where
  "decoded_fields a =
     (case map_of decode_table a of Some ds \<Rightarrow> ds
      | None \<Rightarrow> if map_of phaser_table a \<noteq> None then phaser_decoded else [])"

lemma rd_Decode: "rd (DecodeTMBRegister a d t) = upd_all (read_field d) (decoded_fields a) (rd t)"
proof (cases "map_of decode_table a")
  case (Some ds)
  then show ?thesis by (simp add: rd_decode_table decoded_fields_def)
next
  case None
  show ?thesis
  proof (cases "map_of phaser_table a")
    case (Some ph)
    then show ?thesis by (simp add: DecodeTMBRegister_phaser decoded_fields_def phaser_table_props)
  next
    case None2: None
    with None show ?thesis
      by (simp add: DecodeTMBRegister_def decode_branch_def decoded_fields_def)
  qed
qed

lemma decoded_fields_home:
  assumes "f \<in> set (decoded_fields a)"
  shows "vmereg f = a \<or> a = pattern_find_pretrg_adr \<and> f = clct_stagger \<or>
         a \<in> set (map fst phaser_table) \<and> vmereg f = phaser_alct_rxd_adr"
proof (cases "map_of decode_table a")
  case (Some ds)
  with assms show ?thesis using decode_home[OF Some, of f] by (auto simp: decoded_fields_def)
next
  case None
  with assms have "map_of phaser_table a \<noteq> None" "f \<in> set phaser_decoded"
    by (auto simp: decoded_fields_def split: if_splits)
  then show ?thesis
    using phaser_home by (force simp: list_all_iff dest!: map_of_SomeD)
qed

lemma decode_frame [simp]:
  "wr (DecodeTMBRegister a d t) = wr t"
  "hot_channel_mask (DecodeTMBRegister a d t) = hot_channel_mask t"
  "clock_delay (DecodeTMBRegister a d t) = clock_delay t"
  "posneg (DecodeTMBRegister a d t) = posneg t"
  "read_firmware (DecodeTMBRegister a d t) = read_firmware t"
  "firmware (DecodeTMBRegister a d t) = firmware t"
  "expected_compile_type (DecodeTMBRegister a d t) = expected_compile_type t"
  "slot (DecodeTMBRegister a d t) = slot t"
  "trgmode (DecodeTMBRegister a d t) = trgmode t"
  "number_of_configuration_reads (DecodeTMBRegister a d t) = number_of_configuration_reads t"
  "fill_vme_write_vecs (DecodeTMBRegister a d t) = fill_vme_write_vecs t"
  "vme_write_vecs (DecodeTMBRegister a d t) = vme_write_vecs t"
  "hardware_version (DecodeTMBRegister a d t) = hardware_version t"
  by (simp_all add: DecodeTMBRegister_def decode_branch_def update_read_trgmode_def Let_def
      decode_fields_def ConvertVMERegisterValuesToDigitalPhases_def split: option.splits)

section \<open>Reading a steady board\<close>

definition steady :: "'h vme_read \<Rightarrow> (int \<Rightarrow> int) \<Rightarrow> 'h \<Rightarrow> bool" where
  "steady rdv D h \<longleftrightarrow> (\<forall>a. rdv a h = (D a, h))"

definition decode_all :: "(int \<Rightarrow> int) \<Rightarrow> int list \<Rightarrow> tmb \<Rightarrow> tmb" where
  "decode_all D regs t = fold (\<lambda>a t. DecodeTMBRegister a (vme_word (D a)) t) regs t"

lemma read_registers_steady:
  "steady rdv D h \<Longrightarrow> read_registers rdv regs (t, h) = (decode_all D regs t, h)"
  unfolding read_registers_def decode_all_def
  by (induction regs arbitrary: t) (simp_all add: steady_def ReadRegister_def Let_def)

definition identified :: "(int \<Rightarrow> int) \<Rightarrow> tmb \<Rightarrow> tmb" where
  "identified D t =
     (let t1 = DecodeTMBRegister vme_idreg1_adr (vme_word (D vme_idreg1_adr)) t;
          w1 = vme_word (D vme_idreg1_adr);
          t2 = set_firmware Month (bcd2 (drop_bit 8 w1 AND 0xff)) (set_firmware Day (bcd2 (w1 AND 0xff)) t1);
          t3 = set_firmware Year (firmware_year (vme_word (D vme_idreg2_adr))) t2;
          w0 = vme_word (D vme_idreg0_adr);
          t4 = set_firmware Version (drop_bit 4 w0 AND 0xf) (set_firmware Fw_type (w0 AND 0xf) t3);
          t5 = set_firmware Revcode (drop_bit 12 (vme_word (D vme_idreg3_adr)) AND 0x000f) t4
      in DecodeBootRegister (vme_word (D tmb_adr_boot)) t5)"

definition config_regs :: "int list" where
  "config_regs = filter (\<lambda>a. a \<noteq> vme_usr_jtag_adr) TMBConfigurationRegister"

lemma ReadTMBConfiguration_steady:
  "steady rdv D h \<Longrightarrow>
   ReadTMBConfiguration rdv (t, h) = (decode_all D config_regs (identified D t), h)"
  by (simp add: ReadTMBConfiguration_def FirmwareDate_def FirmwareYear_def FirmwareVersion_def
      FirmwareRevCode_def tmb_get_boot_reg_def ReadRegister_def Let_def identified_def config_regs_def
      read_registers_steady) (simp add: steady_def read_registers_steady)

lemma decode_all_frame [simp]:
  "wr (decode_all D regs t) = wr t"
  "hot_channel_mask (decode_all D regs t) = hot_channel_mask t"
  "clock_delay (decode_all D regs t) = clock_delay t"
  "posneg (decode_all D regs t) = posneg t"
  "read_firmware (decode_all D regs t) = read_firmware t"
  "firmware (decode_all D regs t) = firmware t"
  "expected_compile_type (decode_all D regs t) = expected_compile_type t"
  "slot (decode_all D regs t) = slot t"
  unfolding decode_all_def by (induction regs arbitrary: t) simp_all

lemma decode_all_Cons: "decode_all D (a # regs) t = decode_all D regs (DecodeTMBRegister a (vme_word (D a)) t)"
  by (simp add: decode_all_def)

lemma decode_all_append: "decode_all D (xs @ ys) t = decode_all D ys (decode_all D xs t)"
  by (simp add: decode_all_def)

lemma rd_decode_all_other:
  "\<forall>a \<in> set regs. f \<notin> set (decoded_fields a) \<Longrightarrow> rd (decode_all D regs t) f = rd t f"
proof (induction regs arbitrary: t)
  case Nil
  then show ?case by (simp add: decode_all_def)
next
  case (Cons a regs)
  then show ?case by (simp add: decode_all_Cons rd_Decode upd_all_apply)
qed

lemma rd_decode_all_Cons_hit:
  assumes "f \<in> set (decoded_fields a)" and "\<forall>b \<in> set ys. f \<notin> set (decoded_fields b)"
  shows "rd (decode_all D (a # ys) t) f = read_field (vme_word (D a)) f"
  unfolding decode_all_Cons rd_decode_all_other[OF assms(2)] rd_Decode upd_all_apply
  using assms(1) by (rule if_P)

lemma rd_decode_all_last:
  assumes "f \<in> set (decoded_fields a)" and "\<forall>b \<in> set ys. f \<notin> set (decoded_fields b)"
  shows "rd (decode_all D (xs @ a # ys) t) f = read_field (vme_word (D a)) f"
  unfolding decode_all_append by (rule rd_decode_all_Cons_hit[OF assms])

lemma rd_decode_all_unique:
  assumes "a \<in> set regs" and "f \<in> set (decoded_fields a)"
    and "\<And>b. b \<in> set regs \<Longrightarrow> f \<in> set (decoded_fields b) \<Longrightarrow> b = a"
  shows "rd (decode_all D regs t) f = read_field (vme_word (D a)) f"
proof -
  obtain xs ys where regs: "regs = xs @ a # ys" "a \<notin> set ys"
    using split_list_last[OF assms(1)] by blast
  have "\<forall>b \<in> set ys. f \<notin> set (decoded_fields b)"
    using assms(3) regs by force
  with assms(2) show ?thesis unfolding regs(1) by (rule rd_decode_all_last)
qed

section \<open>What the check compares\<close>

text \<open>Every compared field is decoded from its own register, which is one of the registers read.\<close>

definition compared_table :: "(int \<times> bitfield list) list" where
  "compared_table =
      [(vme_loopbk_adr, vme_loopbk_checked), (vme_ddd0_adr, vme_ddd0_checked),
       (vme_ddd1_adr, vme_ddd1_checked), (vme_ddd2_adr, vme_ddd2_checked),
       (ccb_trig_adr, ccb_trig_checked), (alct_cfg_adr, alct_cfg_checked),
       (alct_inj_adr, alct_inj_checked), (alct_stat_adr, alct_stat_checked),
       (cfeb_inj_adr, cfeb_inj_checked), (seq_trig_en_adr, seq_trig_en_checked),
       (seq_trig_dly0_adr, seq_trig_dly0_checked), (seq_clct_adr, seq_clct_checked),
       (seq_fifo_adr, seq_fifo_checked), (seq_offset_adr, seq_offset_checked),
       (tmb_trig_adr, tmb_trig_checked), (seqmod_adr, seqmod_checked),
       (tmbtim_adr, tmbtim_checked), (rpc_cfg_adr, rpc_cfg_checked),
       (rpc_raw_delay_adr, rpc_raw_delay_checked), (rpc_inj_adr, rpc_inj_checked),
       (rpc_tbins_adr, rpc_tbins_checked), (bx0_delay_adr, bx0_delay_checked),
       (non_trig_readout_adr, non_trig_readout_checked),
       (rat_3d_delays_adr, rat_3d_delays_checked), (layer_trg_mode_adr, layer_trg_mode_checked),
       (pattern_find_pretrg_adr, pattern_find_pretrg_checked),
       (clct_separation_adr, clct_separation_checked), (l1a_lookback_adr, l1a_lookback_checked),
       (miniscope_adr, miniscope_checked), (cfeb0_3_interstage_adr, cfeb0_3_interstage_checked),
       (cfeb4_interstage_adr, cfeb4_interstage_checked), (seq_trig_en_adr, [cfebs_enabled]),
       (non_trig_readout_adr, [tmb_firmware_compile_type]),
       (cfeb_badbits_ctrl_adr, [cfeb_badbits_block])]"

definition compared_fields :: "bitfield list" where
  "compared_fields = concat (map snd compared_table)"

lemma config_regs_eq: "config_regs = TMBConfigurationRegister"
  by (simp add: config_regs_def TMBConfigurationRegister_def adr_defs)

lemma set_compared_fields:
  "set compared_fields =
   set config_checked \<union> {cfebs_enabled, tmb_firmware_compile_type, cfeb_badbits_block}"
  by (simp add: compared_fields_def compared_table_def config_checked_def Un_assoc insert_commute)

lemma compared_table_home: "list_all (\<lambda>(a, fs). list_all (\<lambda>f. vmereg f = a) fs) compared_table"
  by (simp add: compared_table_def checked_defs field_defs)

lemma compared_table_decoded:
  "list_all (\<lambda>(a, fs). case map_of decode_table a of None \<Rightarrow> False
      | Some ds \<Rightarrow> list_all (List.member ds) fs) compared_table"
  by (simp add: compared_table_def decode_table_def checked_defs decoded_defs adr_defs)

lemma compared_table_read:
  "list_all (\<lambda>(a, fs). List.member TMBConfigurationRegister a \<and> a \<noteq> phaser_alct_rxd_adr \<and>
      a \<noteq> tmb_adr_boot) compared_table"
  by (simp add: compared_table_def TMBConfigurationRegister_def adr_defs)

lemma boot_not_configured:
  "list_all (\<lambda>a. a \<noteq> tmb_adr_boot) (phaser_alct_rxd_adr # TMBConfigurationRegister)"
  by (simp add: TMBConfigurationRegister_def adr_defs)

lemma compared_field_facts:
  assumes "f \<in> set compared_fields"
  shows "f \<in> set (decoded_fields (vmereg f))" "vmereg f \<in> set config_regs"
    "vmereg f \<noteq> phaser_alct_rxd_adr"
proof -
  obtain a fs where 1: "(a, fs) \<in> set compared_table" "f \<in> set fs"
    using assms by (auto simp: compared_fields_def)
  have a: "vmereg f = a" using 1 compared_table_home by (force simp: list_all_iff)
  show "f \<in> set (decoded_fields (vmereg f))"
    using 1 compared_table_decoded
    by (force simp: a list_all_iff decoded_fields_def split: option.splits)
  show "vmereg f \<in> set config_regs" "vmereg f \<noteq> phaser_alct_rxd_adr"
    using 1 compared_table_read by (force simp: a config_regs_eq list_all_iff)+
qed

lemma config_regs_split:
  "\<exists>xs ys. config_regs = xs @ non_trig_readout_adr # ys \<and> pattern_find_pretrg_adr \<notin> set ys \<and>
     non_trig_readout_adr \<notin> set ys"
proof -
  have "config_regs = takeWhile (\<lambda>a. a \<noteq> non_trig_readout_adr) config_regs @
          non_trig_readout_adr # tl (dropWhile (\<lambda>a. a \<noteq> non_trig_readout_adr) config_regs)"
    and "pattern_find_pretrg_adr \<notin> set (tl (dropWhile (\<lambda>a. a \<noteq> non_trig_readout_adr) config_regs))"
    and "non_trig_readout_adr \<notin> set (tl (dropWhile (\<lambda>a. a \<noteq> non_trig_readout_adr) config_regs))"
    by (simp_all add: config_regs_eq TMBConfigurationRegister_def adr_defs)
  then show ?thesis by blast
qed

lemma rd_compared:
  assumes f: "f \<in> set compared_fields"
  shows "rd (decode_all D config_regs t) f = read_field (vme_word (D (vmereg f))) f"
proof (cases "f = clct_stagger")
  case True
  obtain xs ys where regs: "config_regs = xs @ non_trig_readout_adr # ys"
      "pattern_find_pretrg_adr \<notin> set ys" "non_trig_readout_adr \<notin> set ys"
    using config_regs_split by blast
  have v: "vmereg f = non_trig_readout_adr" by (simp add: True field_defs)
  have "f \<notin> set (decoded_fields b)" if "b \<in> set ys" for b
    using decoded_fields_home[of f b] regs that compared_field_facts[OF f] unfolding v by blast
  then show ?thesis
    using compared_field_facts(1)[OF f] unfolding regs(1) v
    by (intro rd_decode_all_last ballI)
next
  case False
  show ?thesis
  proof (rule rd_decode_all_unique)
    show "b = vmereg f" if "f \<in> set (decoded_fields b)" for b
      using decoded_fields_home[OF that] False compared_field_facts(3)[OF f] by blast
  qed (rule compared_field_facts[OF f])+
qed

lemma rd_boot_chain:
  "rd (decode_all D config_regs t) boot_control_jtag_chain = rd t boot_control_jtag_chain"
proof (rule rd_decode_all_other, intro ballI notI)
  fix a assume "a \<in> set config_regs" "boot_control_jtag_chain \<in> set (decoded_fields a)"
  moreover have "vmereg boot_control_jtag_chain = tmb_adr_boot" "boot_control_jtag_chain \<noteq> clct_stagger"
    by (simp_all add: field_defs)
  ultimately show False
    using decoded_fields_home[of boot_control_jtag_chain a] boot_not_configured
    by (auto simp: config_regs_eq list_all_iff)
qed

section \<open>Masks and phases of a steady board\<close>

lemma hcm_in_config: "list_all (List.member TMBConfigurationRegister) hcm_adrs"
  by (simp add: TMBConfigurationRegister_def hcm_adrs_def)

lemma hcm_distinct: "distinct hcm_adrs"
  by (simp add: hcm_adrs_def adr_defs)

lemma badbits_not_configured: "list_all (\<lambda>a. \<not> List.member TMBConfigurationRegister a) badbits_adrs"
  by (simp add: TMBConfigurationRegister_def badbits_adrs_def adr_defs)

lemma read_hot_channel_mask_Decode:
  "read_hot_channel_mask (DecodeTMBRegister a d t) =
     (if a \<in> set hcm_adrs then decode_hot_mask a d (read_hot_channel_mask t)
      else read_hot_channel_mask t)"
proof (cases "a \<in> set hcm_adrs")
  case True
  then have "map_of decode_table a = None"
    using special_adrs_not_decoded by (simp add: list_all_iff)
  with True show ?thesis by (simp add: DecodeTMBRegister_def decode_branch_def)
next
  case False
  then show ?thesis
    by (simp add: DecodeTMBRegister_def decode_branch_def decode_fields_def
        ConvertVMERegisterValuesToDigitalPhases_def Let_def split: option.splits)
qed

lemma length_hcm: "length hcm_adrs = 15"
  by (simp add: hcm_adrs_def)

lemma mask_Decode_at:
  assumes "k < 15" "b < 16"
  shows "read_hot_channel_mask (DecodeTMBRegister a d t) (hot_position k b) =
     (if a = hcm_adrs ! k then ExtractValueFromData d b b else read_hot_channel_mask t (hot_position k b))"
proof (cases "a \<in> set hcm_adrs")
  case True
  then obtain k' where k': "k' < 15" "a = hcm_adrs ! k'"
    by (metis in_set_conv_nth length_hcm)
  have "hcm_adrs ! k' = hcm_adrs ! k \<longleftrightarrow> k' = k"
    using k' assms hcm_distinct length_hcm nth_eq_iff_index_eq by metis
  moreover have "decode_hot_mask (hcm_adrs ! k') d m (hot_position k b) =
      (if k' = k then ExtractValueFromData d b b else m (hot_position k b))" for m
    using decode_hot_mask_hit[OF assms, of d m] decode_hot_mask_other[OF assms(1) k'(1) _ assms(2), of d m]
    by (simp add: hot_channel_hcm[OF assms])
  ultimately show ?thesis
    using True by (simp add: read_hot_channel_mask_Decode k'(2))
next
  case False
  then have "a \<noteq> hcm_adrs ! k" using assms length_hcm nth_mem by metis
  with False show ?thesis by (simp add: read_hot_channel_mask_Decode)
qed

lemma mask_decode_all:
  assumes "k < 15" "b < 16"
  shows "read_hot_channel_mask (decode_all D regs t) (hot_position k b) =
     (if hcm_adrs ! k \<in> set regs then ExtractValueFromData (vme_word (D (hcm_adrs ! k))) b b
      else read_hot_channel_mask t (hot_position k b))"
proof (induction regs arbitrary: t)
  case Nil
  then show ?case by (simp add: decode_all_def)
next
  case (Cons a regs)
  then show ?case by (simp only: decode_all_Cons mask_Decode_at[OF assms] list.set insert_iff) auto
qed

lemma read_digital_phase_decoded:
  "read_digital_phase (upd_all (read_field d) phaser_decoded r) = read_digital_phase (read_field d)"
  using phase_fields_decoded
  by (simp add: read_digital_phase_def upd_all_apply phase_fields_def)

lemma phases_Decode:
  "read_clock_delay (DecodeTMBRegister a d t) ph =
     (if map_of phaser_table a = Some ph then read_digital_phase (read_field d)
      else read_clock_delay t ph)"
  "read_posneg (DecodeTMBRegister a d t) ph =
     (if map_of phaser_table a = Some ph then read_field d phaser_posneg else read_posneg t ph)"
proof -
  have other: "read_clock_delay (DecodeTMBRegister a d t) = read_clock_delay t \<and>
      read_posneg (DecodeTMBRegister a d t) = read_posneg t" if "map_of phaser_table a = None"
    using that by (simp add: DecodeTMBRegister_def decode_branch_def decode_fields_def split: option.splits)
  show "read_clock_delay (DecodeTMBRegister a d t) ph =
     (if map_of phaser_table a = Some ph then read_digital_phase (read_field d)
      else read_clock_delay t ph)"
    using other by (cases "map_of phaser_table a")
      (auto simp: DecodeTMBRegister_phaser read_digital_phase_decoded)
  show "read_posneg (DecodeTMBRegister a d t) ph =
     (if map_of phaser_table a = Some ph then read_field d phaser_posneg else read_posneg t ph)"
    using other by (cases "map_of phaser_table a") (auto simp: DecodeTMBRegister_phaser)
qed

lemma distinct_phasers: "distinct (map snd phaser_table)" "distinct (map fst phaser_table)"
  by (simp_all add: phaser_table_def adr_defs)

lemma phaser_adr_unique:
  assumes "(a, ph) \<in> set phaser_table"
  shows "map_of phaser_table b = Some ph \<longleftrightarrow> b = a"
proof
  assume "map_of phaser_table b = Some ph"
  from map_of_SomeD[OF this] assms distinct_phasers(1) show "b = a"
    by (metis (no_types, lifting) distinct_map inj_onD prod.inject snd_conv)
next
  assume "b = a"
  with assms distinct_phasers(2) show "map_of phaser_table b = Some ph" by simp
qed

lemma phases_decode_all:
  assumes "(a, ph) \<in> set phaser_table"
  shows "read_clock_delay (decode_all D regs t) ph =
      (if a \<in> set regs then read_digital_phase (read_field (vme_word (D a))) else read_clock_delay t ph)"
    and "read_posneg (decode_all D regs t) ph =
      (if a \<in> set regs then read_field (vme_word (D a)) phaser_posneg else read_posneg t ph)"
proof -
  show "read_clock_delay (decode_all D regs t) ph =
      (if a \<in> set regs then read_digital_phase (read_field (vme_word (D a))) else read_clock_delay t ph)"
  proof (induction regs arbitrary: t)
    case Nil
    then show ?case by (simp add: decode_all_def)
  next
    case (Cons b regs)
    then show ?case
      by (simp only: decode_all_Cons phases_Decode phaser_adr_unique[OF assms] list.set insert_iff) auto
  qed
  show "read_posneg (decode_all D regs t) ph =
      (if a \<in> set regs then read_field (vme_word (D a)) phaser_posneg else read_posneg t ph)"
  proof (induction regs arbitrary: t)
    case Nil
    then show ?case by (simp add: decode_all_def)
  next
    case (Cons b regs)
    then show ?case
      by (simp only: decode_all_Cons phases_Decode phaser_adr_unique[OF assms] list.set insert_iff) auto
  qed
qed

section \<open>The check as a predicate on the board\<close>

definition phaser_home_of :: "phaser \<Rightarrow> int" where
  "phaser_home_of p = the (map_of (map prod.swap phaser_table) p)"

lemma phaser_home_of:
  assumes "p \<in> set default_phasers"
  shows "(phaser_home_of p, p) \<in> set phaser_table" "phaser_home_of p \<in> set config_regs"
proof -
  have "list_all (\<lambda>p. List.member phaser_table (phaser_home_of p, p) \<and>
      List.member config_regs (phaser_home_of p)) default_phasers"
    by (simp add: default_phasers_def phaser_home_of_def phaser_table_def config_regs_eq
        TMBConfigurationRegister_def)
  with assms show "(phaser_home_of p, p) \<in> set phaser_table" "phaser_home_of p \<in> set config_regs"
    by (simp_all add: list_all_iff)
qed

text \<open>The words of the identification registers as the firmware data of the class.\<close>

definition firmware_of :: "(int \<Rightarrow> int) \<Rightarrow> firmware_item \<Rightarrow> int" where
  "firmware_of D i =
     (case i of
        Month \<Rightarrow> bcd2 (drop_bit 8 (vme_word (D vme_idreg1_adr)) AND 0xff)
      | Day \<Rightarrow> bcd2 (vme_word (D vme_idreg1_adr) AND 0xff)
      | Year \<Rightarrow> firmware_year (vme_word (D vme_idreg2_adr))
      | Version \<Rightarrow> drop_bit 4 (vme_word (D vme_idreg0_adr)) AND 0xf
      | Fw_type \<Rightarrow> vme_word (D vme_idreg0_adr) AND 0xf
      | Revcode \<Rightarrow> drop_bit 12 (vme_word (D vme_idreg3_adr)) AND 0x000f)"

lemma identified_firmware: "read_firmware (identified D t) i = firmware_of D i"
  by (cases i) (simp_all add: identified_def Let_def set_firmware_def DecodeBootRegister_def
      decode_fields_def firmware_of_def)

definition board_matches :: "(int \<Rightarrow> int) \<Rightarrow> tmb \<Rightarrow> bool" where
  "board_matches D t \<longleftrightarrow>
     list_all (\<lambda>i. firmware_of D i = firmware t i) [Month, Day, Year, Version, Revcode, Fw_type] \<and>
     read_field (vme_word (D tmb_adr_boot)) boot_control_jtag_chain = boot_control_jtag_chain_expected \<and>
     list_all (\<lambda>f. read_field (vme_word (D (vmereg f))) f = wr t f) config_checked \<and>
     list_all (\<lambda>k. list_all (\<lambda>b. ExtractValueFromData (vme_word (D (hcm_adrs ! k))) b b =
         hot_channel_mask t (hot_position k b)) [0..<16]) [0..<15] \<and>
     read_field (vme_word (D seq_trig_en_adr)) cfebs_enabled = cfebs_enabled_expected t \<and>
     read_field (vme_word (D non_trig_readout_adr)) tmb_firmware_compile_type = expected_compile_type t \<and>
     list_all (\<lambda>p. read_digital_phase (read_field (vme_word (D (phaser_home_of p)))) = clock_delay t p \<and>
         read_field (vme_word (D (phaser_home_of p))) phaser_posneg = posneg t p) default_phasers \<and>
     bits_and5 (read_field (vme_word (D cfeb_badbits_ctrl_adr)) cfeb_badbits_block) =
       bits_and5 (wr t cfeb_badbits_block)"

lemma mask_channel_position:
  "c \<in> set mask_channels \<longleftrightarrow> (\<exists>k < 15. \<exists>b < 16. c = hot_position k b)"
proof
  assume "c \<in> set mask_channels"
  then obtain l d where c: "c = (l, d)" "0 \<le> l" "l < 6" "0 \<le> d" "d < 40"
    by (auto simp: mask_channels_def)
  from hot_position_surj[OF c(2-)] show "\<exists>k < 15. \<exists>b < 16. c = hot_position k b"
    unfolding c(1) by metis
next
  assume "\<exists>k < 15. \<exists>b < 16. c = hot_position k b"
  then obtain k b where kb: "k < 15" "b < 16" "c = hot_position k b" by blast
  then have "k mod 3 < 3" "k div 3 < 5" "b div 8 < 2" "b mod 8 < 8" by simp_all
  then have "2 * (k mod 3) + b div 8 \<le> 5" "8 * (k div 3) + b mod 8 \<le> 39" by linarith+
  then show "c \<in> set mask_channels" unfolding kb(3) hot_position_def mask_channels_def by auto
qed

lemma masks_match:
  "list_all (\<lambda>c. read_hot_channel_mask (decode_all D config_regs t) c = m c) mask_channels \<longleftrightarrow>
   list_all (\<lambda>k. list_all (\<lambda>b. ExtractValueFromData (vme_word (D (hcm_adrs ! k))) b b =
         m (hot_position k b)) [0..<16]) [0..<15]"
proof -
  have "hcm_adrs ! k \<in> set config_regs" if "k < 15" for k
    using hcm_in_config that nth_mem[of k hcm_adrs]
    by (simp add: length_hcm list_all_iff config_regs_eq)
  then have at: "read_hot_channel_mask (decode_all D config_regs t) (hot_position k b) =
      ExtractValueFromData (vme_word (D (hcm_adrs ! k))) b b" if "k < 15" "b < 16" for k b
    using that by (simp add: mask_decode_all)
  have "list_all (\<lambda>c. read_hot_channel_mask (decode_all D config_regs t) c = m c) mask_channels \<longleftrightarrow>
      (\<forall>k < 15. \<forall>b < 16. read_hot_channel_mask (decode_all D config_regs t) (hot_position k b) =
         m (hot_position k b))"
    unfolding list_all_iff Ball_def mask_channel_position by blast
  also have "\<dots> \<longleftrightarrow> (\<forall>k < 15. \<forall>b < 16. ExtractValueFromData (vme_word (D (hcm_adrs ! k))) b b =
         m (hot_position k b))"
    using at by presburger
  also have "\<dots> \<longleftrightarrow> list_all (\<lambda>k. list_all (\<lambda>b. ExtractValueFromData (vme_word (D (hcm_adrs ! k))) b b =
         m (hot_position k b)) [0..<16]) [0..<15]"
    unfolding list_all_iff Ball_def set_upt atLeastLessThan_iff by blast
  finally show ?thesis .
qed

lemma vmereg_compared:
  "vmereg cfebs_enabled = seq_trig_en_adr" "vmereg tmb_firmware_compile_type = non_trig_readout_adr"
  "vmereg cfeb_badbits_block = cfeb_badbits_ctrl_adr" "vmereg boot_control_jtag_chain = tmb_adr_boot"
  by (simp_all add: field_defs)

lemma rd_identified_boot:
  "rd (identified D t) boot_control_jtag_chain =
   read_field (vme_word (D tmb_adr_boot)) boot_control_jtag_chain"
  by (simp add: identified_def Let_def DecodeBootRegister_def rd_decode_fields boot_decoded_def)

lemma identified_frame:
  "wr (identified D t) = wr t" "hot_channel_mask (identified D t) = hot_channel_mask t"
  "clock_delay (identified D t) = clock_delay t" "posneg (identified D t) = posneg t"
  "firmware (identified D t) = firmware t"
  "expected_compile_type (identified D t) = expected_compile_type t"
  by (simp_all add: identified_def Let_def DecodeBootRegister_def decode_fields_def set_firmware_def)

lemma config_compare_board:
  "config_compare (decode_all D config_regs (identified D t)) \<longleftrightarrow> board_matches D t"
proof -
  let ?t = "decode_all D config_regs (identified D t)"
  have checked: "list_all (\<lambda>f. compareValues (rd ?t f) (wr ?t f)) config_checked \<longleftrightarrow>
      list_all (\<lambda>f. read_field (vme_word (D (vmereg f))) f = wr t f) config_checked"
    by (intro list.pred_cong refl)
      (simp add: compareValues_eq rd_compared set_compared_fields identified_frame)
  have phases: "list_all (\<lambda>p. compareValues (read_clock_delay ?t p) (clock_delay ?t p) \<and>
        compareValues (read_posneg ?t p) (posneg ?t p)) default_phasers \<longleftrightarrow>
      list_all (\<lambda>p. read_digital_phase (read_field (vme_word (D (phaser_home_of p)))) = clock_delay t p \<and>
         read_field (vme_word (D (phaser_home_of p))) phaser_posneg = posneg t p) default_phasers"
    by (intro list.pred_cong refl)
      (simp add: compareValues_eq phases_decode_all[OF phaser_home_of(1)] phaser_home_of(2) identified_frame)
  have masks: "list_all (\<lambda>c. compareValues (read_hot_channel_mask ?t c) (hot_channel_mask ?t c)) mask_channels \<longleftrightarrow>
      list_all (\<lambda>k. list_all (\<lambda>b. ExtractValueFromData (vme_word (D (hcm_adrs ! k))) b b =
         hot_channel_mask t (hot_position k b)) [0..<16]) [0..<15]"
    by (simp only: compareValues_eq masks_match decode_all_frame identified_frame)
  have rest: "rd ?t cfebs_enabled = read_field (vme_word (D seq_trig_en_adr)) cfebs_enabled"
    "rd ?t tmb_firmware_compile_type = read_field (vme_word (D non_trig_readout_adr)) tmb_firmware_compile_type"
    "rd ?t cfeb_badbits_block = read_field (vme_word (D cfeb_badbits_ctrl_adr)) cfeb_badbits_block"
    "rd ?t boot_control_jtag_chain = read_field (vme_word (D tmb_adr_boot)) boot_control_jtag_chain"
    by (simp_all add: rd_compared set_compared_fields vmereg_compared rd_boot_chain rd_identified_boot)
  show ?thesis
    unfolding config_compare_def board_matches_def checked phases masks
    by (simp only: compareValues_eq GetReadCFEBBadBitsBlock_def GetCFEBBadBitsBlock_def rest
        identified_firmware decode_all_frame identified_frame cfebs_enabled_expected_def
        list.pred_True simp_thms)
qed

section \<open>A board that keeps what was written\<close>

text \<open>The type of the firmware is compiled into the board: these bits cannot be written.\<close>

definition firmware_type_fields :: "bitfield list" where
  "firmware_type_fields = [csc_me11, clct_stagger, reverse_stagger, reverse_me1a, reverse_me1b]"

text \<open>The bits a register keeps of a written word: the filled fields, the phase and firing bits of a
  phase shifter, or all the bits of a hot channel mask. The exception is \<^verbatim>\<open>cfebs_enabled\<close> in register
  0x68: when \<^verbatim>\<open>cfeb_enable_source\<close> is set, as it is by default, the board does not keep what was written
  there but shows a copy of \<^verbatim>\<open>enableCLCTInputs\<close> of register 0x42.\<close>

definition own_fields :: "int \<Rightarrow> bitfield list \<Rightarrow> bitfield list" where
  "own_fields written fs = filter (\<lambda>f. f = cfebs_enabled \<longrightarrow> read_field written cfeb_enable_source \<noteq> 1) fs"

definition shows_copy :: "(int \<Rightarrow> int) \<Rightarrow> bool" where
  "shows_copy D \<longleftrightarrow>
     (let w = vme_word (D seq_trig_en_adr) in
      read_field w cfeb_enable_source = 1 \<longrightarrow>
      read_field w cfebs_enabled = read_field (vme_word (D cfeb_inj_adr)) enableCLCTInputs)"

definition register_keeps :: "int \<Rightarrow> int \<Rightarrow> int \<Rightarrow> bool" where
  "register_keeps a written w \<longleftrightarrow>
     (case map_of fill_table a of
        Some fs \<Rightarrow> keeps_fields written w (own_fields written fs)
      | None \<Rightarrow>
          if map_of phaser_table a \<noteq> None then keeps_fields written w phase_fields
          else list_all (\<lambda>b. ExtractValueFromData w b b = ExtractValueFromData written b b) [0..<16])"

definition board_keeps :: "(int \<Rightarrow> int) \<Rightarrow> tmb \<Rightarrow> bool" where
  "board_keeps D t \<longleftrightarrow>
     list_all (\<lambda>a. a = seq_l1a_adr \<or> register_keeps a (FillTMBRegister a t) (vme_word (D a)))
       TMBConfigurationRegister"

text \<open>The configured values fit in their fields. The value of \<^verbatim>\<open>cfebs_enabled\<close> does not matter when the
  board copies the other one.\<close>

definition fits :: "tmb \<Rightarrow> bool" where
  "fits t \<longleftrightarrow>
     (wr t cfeb_enable_source = 1 \<or> take_bit (width cfebs_enabled) (wr t cfebs_enabled) = wr t cfebs_enabled) \<and>
     list_all (\<lambda>f. f \<in> set firmware_type_fields \<or> take_bit (width f) (wr t f) = wr t f) config_checked \<and>
     list_all (\<lambda>c. take_bit 1 (hot_channel_mask t c) = hot_channel_mask t c) mask_channels \<and>
     list_all (\<lambda>p. take_bit 1 (posneg t p) = posneg t p) default_phasers"

definition identity_ok :: "(int \<Rightarrow> int) \<Rightarrow> tmb \<Rightarrow> bool" where
  "identity_ok D t \<longleftrightarrow>
     list_all (\<lambda>i. firmware_of D i = firmware t i) [Month, Day, Year, Version, Revcode, Fw_type] \<and>
     read_field (vme_word (D tmb_adr_boot)) boot_control_jtag_chain = boot_control_jtag_chain_expected \<and>
     list_all (\<lambda>f. read_field (vme_word (D (vmereg f))) f = wr t f) firmware_type_fields \<and>
     read_field (vme_word (D non_trig_readout_adr)) tmb_firmware_compile_type = expected_compile_type t"

lemma compared_table_filled:
  "list_all (\<lambda>(a, fs). case map_of fill_table a of None \<Rightarrow> False
      | Some ds \<Rightarrow> a \<noteq> seq_l1a_adr \<and>
          list_all (\<lambda>f. f = tmb_firmware_compile_type \<or> List.member (ds @ firmware_type_fields) f) fs)
     compared_table"
  by (simp add: compared_table_def fill_table_def checked_defs filled_defs firmware_type_fields_def adr_defs)

lemma firmware_type_checked: "set firmware_type_fields \<subseteq> set config_checked"
  by (simp add: firmware_type_fields_def config_checked_def checked_defs)

lemma not_compile_type:
  "\<not> List.member (cfebs_enabled # cfeb_badbits_block # config_checked) tmb_firmware_compile_type"
  "\<not> List.member firmware_type_fields cfebs_enabled" "\<not> List.member firmware_type_fields cfeb_badbits_block"
  by (simp_all add: config_checked_def checked_defs field_defs firmware_type_fields_def adr_defs)

lemma cfebs_not_checked: "\<not> List.member config_checked cfebs_enabled" "cfeb_badbits_block \<noteq> cfebs_enabled"
  by (simp_all add: config_checked_def checked_defs field_defs adr_defs)

lemma cfebs_sources:
  "cfeb_enable_source \<in> set config_checked - set firmware_type_fields"
  "enableCLCTInputs \<in> set config_checked - set firmware_type_fields"
  "width cfeb_enable_source = 1" "width enableCLCTInputs = 5"
  by (simp_all add: config_checked_def seq_trig_en_checked_def cfeb_inj_checked_def firmware_type_fields_def
      field_defs adr_defs width_def)

lemma widths_compared: "width cfebs_enabled = 5" "width cfeb_badbits_block = 5"
  by (simp_all add: width_def field_defs)

lemma kept_field:
  assumes keeps: "board_keeps D t" and f: "f \<in> set compared_fields" "f \<noteq> tmb_firmware_compile_type"
    "f \<notin> set firmware_type_fields"
    and own: "f = cfebs_enabled \<longrightarrow> read_field (FillTMBRegister (vmereg f) t) cfeb_enable_source \<noteq> 1"
  shows "read_field (vme_word (D (vmereg f))) f = take_bit (width f) (wr t f)"
proof -
  obtain a fs where 1: "(a, fs) \<in> set compared_table" "f \<in> set fs"
    using f(1) by (auto simp: compared_fields_def)
  have a: "vmereg f = a" using 1 compared_table_home by (force simp: list_all_iff)
  obtain ds where ds: "map_of fill_table a = Some ds" "a \<noteq> seq_l1a_adr" "f \<in> set ds"
    using 1 f compared_table_filled by (fastforce simp: list_all_iff split: option.splits)
  have "a \<in> set TMBConfigurationRegister"
    using compared_field_facts(2)[OF f(1)] by (simp add: a config_regs_eq)
  then have "keeps_fields (FillTMBRegister a t) (vme_word (D a)) (own_fields (FillTMBRegister a t) ds)"
    using keeps ds(1,2) by (auto simp: board_keeps_def register_keeps_def list_all_iff)
  then have "read_field (vme_word (D a)) f = read_field (FillTMBRegister a t) f"
    using ds(3) own a by (auto simp: keeps_fields_def own_fields_def list_all_iff)
  then show ?thesis using read_Fill[OF ds(1,3), of t] ds(2) a by simp
qed

lemma kept_cfebs:
  assumes keeps: "board_keeps D t" and copy: "shows_copy D"
  shows "read_field (vme_word (D seq_trig_en_adr)) cfebs_enabled =
     take_bit 5 (if take_bit 1 (wr t cfeb_enable_source) = 1 then wr t enableCLCTInputs else wr t cfebs_enabled)"
proof -
  have compared: "cfeb_enable_source \<in> set compared_fields" "enableCLCTInputs \<in> set compared_fields"
    "cfebs_enabled \<in> set compared_fields"
    by (simp_all add: set_compared_fields config_checked_def seq_trig_en_checked_def cfeb_inj_checked_def)
  have names: "f \<noteq> tmb_firmware_compile_type \<and> f \<notin> set firmware_type_fields"
    if "f \<in> {cfeb_enable_source, enableCLCTInputs, cfebs_enabled}" for f
    using that by (auto simp: field_defs firmware_type_fields_def adr_defs)
  have other: "cfeb_enable_source \<noteq> cfebs_enabled" "enableCLCTInputs \<noteq> cfebs_enabled"
    by (simp_all add: field_defs adr_defs)
  have source: "read_field (vme_word (D seq_trig_en_adr)) cfeb_enable_source = take_bit 1 (wr t cfeb_enable_source)"
    using kept_field[OF keeps compared(1)] names[of cfeb_enable_source] other by (simp add: width_def field_defs)
  have inputs: "read_field (vme_word (D cfeb_inj_adr)) enableCLCTInputs = take_bit 5 (wr t enableCLCTInputs)"
    using kept_field[OF keeps compared(2)] names[of enableCLCTInputs] other by (simp add: width_def field_defs)
  have "map_of fill_table seq_trig_en_adr = Some seq_trig_en_filled" by (simp add: fill_table_def adr_defs)
  then have filled: "read_field (FillTMBRegister seq_trig_en_adr t) cfeb_enable_source = take_bit 1 (wr t cfeb_enable_source)"
    using read_Fill[of seq_trig_en_adr seq_trig_en_filled cfeb_enable_source t]
    by (simp add: seq_trig_en_filled_def width_def field_defs adr_defs)
  show ?thesis
  proof (cases "take_bit 1 (wr t cfeb_enable_source) = 1")
    case True
    then show ?thesis using copy source inputs by (simp add: shows_copy_def Let_def)
  next
    case False
    then have "read_field (vme_word (D (vmereg cfebs_enabled))) cfebs_enabled = take_bit 5 (wr t cfebs_enabled)"
      using kept_field[OF keeps compared(3)] names[of cfebs_enabled] filled
      by (simp add: vmereg_compared widths_compared)
    then show ?thesis using False by (simp add: vmereg_compared)
  qed
qed

lemma bits_and5_take_bit: "bits_and5 (take_bit 5 v) = bits_and5 v"
  by (simp add: bits_and5_def upt_rec drop_bit_AND_1 bit_take_bit_iff)

lemma hcm_special:
  assumes "a \<in> set hcm_adrs"
  shows "map_of fill_table a = None" "map_of phaser_table a = None" "a \<noteq> vme_dddoe_adr"
    "a \<noteq> seq_l1a_adr" "a \<in> set TMBConfigurationRegister"
proof -
  have "list_all (\<lambda>a. map_of phaser_table a = None \<and> a \<noteq> vme_dddoe_adr \<and> a \<noteq> seq_l1a_adr) hcm_adrs"
    by (simp add: hcm_adrs_def phaser_table_def adr_defs)
  with assms show "map_of fill_table a = None" "map_of phaser_table a = None" "a \<noteq> vme_dddoe_adr"
    "a \<noteq> seq_l1a_adr" "a \<in> set TMBConfigurationRegister"
    using special_adrs_not_filled hcm_in_config by (auto simp: list_all_iff)
qed

lemma FillTMBRegister_hcm:
  "a \<in> set hcm_adrs \<Longrightarrow> FillTMBRegister a t = fill_hot_mask a (hot_channel_mask t) 0"
  by (simp add: FillTMBRegister_def hcm_special)

lemma kept_mask_bit:
  assumes keeps: "board_keeps D t" and kb: "k < 15" "b < 16"
  shows "ExtractValueFromData (vme_word (D (hcm_adrs ! k))) b b =
         take_bit 1 (hot_channel_mask t (hot_position k b))"
proof -
  have a: "hcm_adrs ! k \<in> set hcm_adrs" using kb length_hcm by simp
  have "ExtractValueFromData (vme_word (D (hcm_adrs ! k))) b b =
        ExtractValueFromData (FillTMBRegister (hcm_adrs ! k) t) b b"
    using keeps kb hcm_special[OF a] by (auto simp: board_keeps_def register_keeps_def list_all_iff)
  then show ?thesis
    by (simp add: FillTMBRegister_hcm[OF a] fill_hot_mask_bit[OF kb(2)] hot_channel_hcm[OF kb])
qed

lemma kept_phase:
  assumes keeps: "board_keeps D t" and p: "p \<in> set default_phasers"
    and range: "0 \<le> clock_delay t p" "clock_delay t p < 25"
  shows "read_digital_phase (read_field (vme_word (D (phaser_home_of p)))) = clock_delay t p"
    and "read_field (vme_word (D (phaser_home_of p))) phaser_posneg = take_bit 1 (posneg t p)"
proof -
  have mem: "(phaser_home_of p, p) \<in> set phaser_table" by (rule phaser_home_of(1)[OF p])
  then have a: "map_of phaser_table (phaser_home_of p) = Some p" using phaser_adr_unique by simp
  have k: "keeps_fields (FillTMBRegister (phaser_home_of p) t) (vme_word (D (phaser_home_of p))) phase_fields"
    using keeps phaser_home_of(2)[OF p] phaser_table_props[OF a] a
    by (auto simp: board_keeps_def register_keeps_def list_all_iff config_regs_eq)
  from phase_readback[OF a range k, of t]
  show "read_digital_phase (read_field (vme_word (D (phaser_home_of p)))) = clock_delay t p"
    and "read_field (vme_word (D (phaser_home_of p))) phaser_posneg = take_bit 1 (posneg t p)"
    by (simp_all add: phases_Decode a)
qed

lemma kept_board_fields:
  assumes keeps: "board_keeps D t"
  shows "list_all (\<lambda>f. read_field (vme_word (D (vmereg f))) f = wr t f) config_checked \<longleftrightarrow>
      list_all (\<lambda>f. f \<in> set firmware_type_fields \<or> take_bit (width f) (wr t f) = wr t f) config_checked \<and>
      list_all (\<lambda>f. read_field (vme_word (D (vmereg f))) f = wr t f) firmware_type_fields"
proof -
  have "read_field (vme_word (D (vmereg f))) f = take_bit (width f) (wr t f)"
    if "f \<in> set config_checked" "f \<notin> set firmware_type_fields" for f
    using that not_compile_type(1) cfebs_not_checked
    by (intro kept_field[OF keeps]) (auto simp: set_compared_fields)
  then show ?thesis
    using firmware_type_checked unfolding list_all_iff by (metis subsetD)
qed

lemma kept_board_matches:
  assumes keeps: "board_keeps D t" and copy: "shows_copy D"
    and range: "list_all (\<lambda>p. 0 \<le> clock_delay t p \<and> clock_delay t p < 25) default_phasers"
  shows "board_matches D t \<longleftrightarrow> fits t \<and> identity_ok D t"
proof -
  have masks: "list_all (\<lambda>k. list_all (\<lambda>b. ExtractValueFromData (vme_word (D (hcm_adrs ! k))) b b =
        hot_channel_mask t (hot_position k b)) [0..<16]) [0..<15] \<longleftrightarrow>
      list_all (\<lambda>c. take_bit 1 (hot_channel_mask t c) = hot_channel_mask t c) mask_channels"
  proof -
    have "list_all (\<lambda>k. list_all (\<lambda>b. ExtractValueFromData (vme_word (D (hcm_adrs ! k))) b b =
        hot_channel_mask t (hot_position k b)) [0..<16]) [0..<15] \<longleftrightarrow>
      (\<forall>k < 15. \<forall>b < 16. take_bit 1 (hot_channel_mask t (hot_position k b)) =
         hot_channel_mask t (hot_position k b))"
      using kept_mask_bit[OF keeps] by (simp add: list_all_iff Ball_def)
    also have "\<dots> \<longleftrightarrow> list_all (\<lambda>c. take_bit 1 (hot_channel_mask t c) = hot_channel_mask t c) mask_channels"
      unfolding list_all_iff Ball_def mask_channel_position by blast
    finally show ?thesis .
  qed
  have phases: "list_all (\<lambda>p. read_digital_phase (read_field (vme_word (D (phaser_home_of p)))) = clock_delay t p \<and>
         read_field (vme_word (D (phaser_home_of p))) phaser_posneg = posneg t p) default_phasers \<longleftrightarrow>
      list_all (\<lambda>p. take_bit 1 (posneg t p) = posneg t p) default_phasers"
    using range kept_phase[OF keeps] by (simp add: list_all_iff)
  have kept: "read_field (vme_word (D cfeb_badbits_ctrl_adr)) cfeb_badbits_block =
     take_bit 5 (wr t cfeb_badbits_block)"
    using not_compile_type cfebs_not_checked kept_field[OF keeps, of cfeb_badbits_block]
    by (auto simp: set_compared_fields vmereg_compared widths_compared)
  have cfebs: "read_field (vme_word (D seq_trig_en_adr)) cfebs_enabled = cfebs_enabled_expected t \<longleftrightarrow>
      wr t cfeb_enable_source = 1 \<or> take_bit (width cfebs_enabled) (wr t cfebs_enabled) = wr t cfebs_enabled"
    if "list_all (\<lambda>f. f \<in> set firmware_type_fields \<or> take_bit (width f) (wr t f) = wr t f) config_checked"
    using that cfebs_sources unfolding kept_cfebs[OF keeps copy] cfebs_enabled_expected_def widths_compared
    by (auto simp: list_all_iff)
  show ?thesis
    unfolding board_matches_def masks phases kept kept_board_fields[OF keeps] bits_and5_take_bit
      fits_def identity_ok_def
    using cfebs by blast
qed

section \<open>The loop of reads\<close>

lemma board_matches_cong:
  assumes "wr t' = wr t" "hot_channel_mask t' = hot_channel_mask t" "clock_delay t' = clock_delay t"
    "posneg t' = posneg t" "firmware t' = firmware t" "expected_compile_type t' = expected_compile_type t"
  shows "board_matches D t' = board_matches D t"
  unfolding board_matches_def cfebs_enabled_expected_def assms ..

lemma number_of_reads_frame [simp]:
  "number_of_configuration_reads (decode_all D regs t) = number_of_configuration_reads t"
  unfolding decode_all_def by (induction regs arbitrary: t) simp_all

lemma number_of_reads_identified [simp]:
  "number_of_configuration_reads (identified D t) = number_of_configuration_reads t"
  by (simp add: identified_def Let_def DecodeBootRegister_def decode_fields_def set_firmware_def)

lemma check_reads_True [simp]: "check_reads rdv k (True, t, h) = (True, t, h)"
  by (cases k) simp_all

lemma check_reads_steady:
  assumes "steady rdv D h"
  shows "\<exists>t'. check_reads rdv k (False, t, h) = (0 < k \<and> board_matches D t, t', h) \<and>
     number_of_configuration_reads t' =
       number_of_configuration_reads t + (if board_matches D t then min 1 k else k)"
proof (induction k arbitrary: t)
  case 0
  then show ?case by simp
next
  case (Suc k)
  let ?n = "t\<lparr>number_of_configuration_reads := number_of_configuration_reads t + 1\<rparr>"
  let ?t = "decode_all D config_regs (identified D ?n)"
  have m: "board_matches D ?n = board_matches D t" "board_matches D ?t = board_matches D t"
    by (rule board_matches_cong; simp add: identified_frame)+
  have step: "check_reads rdv (Suc k) (False, t, h) = check_reads rdv k (board_matches D t, ?t, h)"
    by (simp add: ReadTMBConfiguration_steady[OF assms] config_compare_board m(1)[simplified])
  show ?case
  proof (cases "board_matches D t")
    case True
    then show ?thesis by (simp only: step) simp
  next
    case False
    with Suc[of ?t] m(2) show ?thesis by (simp only: step) simp
  qed
qed

lemma Check_steady:
  assumes "steady rdv D h"
  shows "tmb_configuration_status (fst (CheckTMBConfiguration rdv n (t, h))) = of_bool (0 < n \<and> board_matches D t)"
    "number_of_configuration_reads (fst (CheckTMBConfiguration rdv n (t, h))) =
       (if board_matches D t then min 1 n else n)"
    "snd (CheckTMBConfiguration rdv n (t, h)) = h"
proof -
  let ?t = "t\<lparr>number_of_configuration_reads := 0\<rparr>"
  have m: "board_matches D ?t = board_matches D t" by (rule board_matches_cong) simp_all
  from check_reads_steady[OF assms, of n ?t] obtain t' where
    "check_reads rdv n (False, ?t, h) = (0 < n \<and> board_matches D t, t', h)"
    "number_of_configuration_reads t' = (if board_matches D t then min 1 n else n)"
    by (auto simp: m)
  then show "tmb_configuration_status (fst (CheckTMBConfiguration rdv n (t, h))) = of_bool (0 < n \<and> board_matches D t)"
    "number_of_configuration_reads (fst (CheckTMBConfiguration rdv n (t, h))) =
       (if board_matches D t then min 1 n else n)"
    "snd (CheckTMBConfiguration rdv n (t, h)) = h"
    by (simp_all add: CheckTMBConfiguration_def)
qed

end
