(* ===== verification/TMB_Configure.thy ===== *)
theory TMB_Configure
  imports TMB_Check
begin

text \<open>
  Writing the configuration and checking it: the words \<^verbatim>\<open>configure\<close> sends, and the verdict of
  \<^verbatim>\<open>CheckTMBConfiguration\<close> on a board that keeps the writable bits of its registers. The properties
  of the register codec and of the check are stated at the end.
\<close>

section \<open>Words that fit in a register\<close>

definition known_adrs :: "int set" where
  "known_adrs = {seq_l1a_adr, vme_dddoe_adr} \<union> dom (map_of fill_table) \<union> set hcm_adrs \<union>
     dom (map_of phaser_table)"

lemma fill_hot_mask_range: "0 \<le> fill_hot_mask a m 0 \<and> fill_hot_mask a m 0 < 2 ^ 16"
  unfolding fill_hot_mask_def using tmb_bits.fold_range[where fs = "[0..<16]" and lo = "\<lambda>b. b" and hi = "\<lambda>b. b"
      and v = "\<lambda>b. m (hot_channel a b)" and w = 0]
  by simp

lemma phase_word_range:
  "0 \<le> ConvertDigitalPhaseToVMERegisterValues w p pn \<and> ConvertDigitalPhaseToVMERegisterValues w p pn < 2 ^ 16"
  using phase_word[of w p pn] insert_fields_range by metis

lemma Fill_known:
  assumes "a \<in> known_adrs"
  shows "0 \<le> FillTMBRegister a t \<and> FillTMBRegister a t < 2 ^ 16"
  using assms insert_fields_range[of "rd t" seq_l1a_filled] insert_fields_range[of "wr t"]
    fill_hot_mask_range[of a "hot_channel_mask t"] phase_word_range[of "wr t"]
  by (auto simp: known_adrs_def FillTMBRegister_def split: option.splits)

lemma Fill_unknown: "a \<notin> known_adrs \<Longrightarrow> FillTMBRegister a t = 0xf0000"
  by (auto simp: known_adrs_def FillTMBRegister_def split: option.splits)

lemma config_known: "a \<in> set TMBConfigurationRegister \<Longrightarrow> a \<in> known_adrs"
proof -
  assume a: "a \<in> set TMBConfigurationRegister"
  have "list_all (\<lambda>a. map_of fill_table a \<noteq> None \<or> List.member hcm_adrs a \<or> map_of phaser_table a \<noteq> None)
      TMBConfigurationRegister"
    by (simp add: TMBConfigurationRegister_def fill_table_def hcm_adrs_def phaser_table_def adr_defs)
  with a show ?thesis by (auto simp: list_all_iff known_adrs_def)
qed

lemma vme_word_id: "0 \<le> w \<Longrightarrow> w < 2 ^ 16 \<Longrightarrow> vme_word w = w"
proof -
  assume "0 \<le> w" "w < 2 ^ 16"
  then have "take_bit 16 w = w" by (simp add: take_bit_int_eq_self)
  then have high: "\<not> bit w i" if "16 \<le> i" for i
    using that by (metis bit_take_bit_iff not_le)
  have "vme_word w = push_bit 8 (take_bit 8 (drop_bit 8 w)) OR take_bit 8 w"
    by (simp only: vme_word_def take_bit_eq_mask mask_eq_exp_minus_1 and.assoc) simp
  also have "\<dots> = w"
  proof (rule int_eq_by_bits)
    show "bit (push_bit 8 (take_bit 8 (drop_bit 8 w)) OR take_bit 8 w) i = bit w i" for i
      using high[of i]
      by (cases "i < 8"; cases "i < 16")
        (auto simp: bit_or_iff bit_push_bit_iff bit_drop_bit_eq bit_take_bit_iff)
  qed
  finally show ?thesis .
qed

section \<open>The words written\<close>

lemma tmb_vme_write_board: "snd (tmb_vme_write wrv a d s) = wrv a (take_bit 16 d) (snd s)"
  by (simp add: tmb_vme_write_def Let_def)

definition same_config :: "tmb \<Rightarrow> tmb \<Rightarrow> bool" where
  "same_config t t' \<longleftrightarrow> (\<exists>vecs b. t' = t\<lparr>vme_write_vecs := vecs, fill_vme_write_vecs := b\<rparr>)"

lemma same_config_refl [simp]: "same_config t t"
  unfolding same_config_def by (rule exI[of _ "vme_write_vecs t"], rule exI[of _ "fill_vme_write_vecs t"]) simp

lemma same_config_trans: "same_config t t' \<Longrightarrow> same_config t' t'' \<Longrightarrow> same_config t t''"
  unfolding same_config_def by fastforce

lemma Fill_cong: "same_config t t' \<Longrightarrow> FillTMBRegister a t' = FillTMBRegister a t"
  by (auto simp: same_config_def FillTMBRegister_def split: option.splits)

lemma tmb_vme_write_config: "same_config (fst s) (fst (tmb_vme_write wrv a d s))"
proof -
  have "same_config t (t\<lparr>vme_write_vecs := v\<rparr>)" for t v
    unfolding same_config_def by (rule exI[of _ v], rule exI[of _ "fill_vme_write_vecs t"]) simp
  then show ?thesis by (simp add: tmb_vme_write_def Let_def)
qed

lemma WriteRegister_config: "same_config (fst s) (fst (WriteRegister wrv a s))"
  by (simp add: WriteRegister_def Let_def tmb_vme_write_config)

lemma WriteRegister_known:
  assumes "a \<in> known_adrs"
  shows "snd (WriteRegister wrv a s) = wrv a (FillTMBRegister a (fst s)) (snd s)"
  using Fill_known[OF assms, of "fst s"]
  by (simp add: WriteRegister_def Let_def tmb_vme_write_board take_bit_int_eq_self)

lemma WriteRegister_unknown: "a \<notin> known_adrs \<Longrightarrow> WriteRegister wrv a s = s"
  by (simp add: WriteRegister_def Fill_unknown)

definition write_all :: "'h vme_write \<Rightarrow> tmb \<Rightarrow> int list \<Rightarrow> 'h \<Rightarrow> 'h" where
  "write_all wrv t regs h = fold (\<lambda>a. wrv a (FillTMBRegister a t)) regs h"

lemma fold_WriteRegister:
  assumes "set regs \<subseteq> known_adrs" and "same_config t (fst s)"
  shows "snd (fold (WriteRegister wrv) regs s) = write_all wrv t regs (snd s) \<and>
         same_config t (fst (fold (WriteRegister wrv) regs s))"
  using assms
proof (induction regs arbitrary: s)
  case Nil
  then show ?case by (simp add: write_all_def)
next
  case (Cons a regs)
  have "same_config t (fst (WriteRegister wrv a s))"
    by (rule same_config_trans[OF Cons.prems(2) WriteRegister_config])
  with Cons.IH[of "WriteRegister wrv a s"] Cons.prems show ?case
    by (simp add: WriteRegister_known Fill_cong write_all_def)
qed

lemma configure_registers_writes:
  "snd (configure_registers wrv s) = write_all wrv (fst s) TMBConfigurationRegister (snd s)"
  "same_config (fst s) (fst (configure_registers wrv s))"
  unfolding configure_registers_def
  using fold_WriteRegister[of TMBConfigurationRegister "fst s" s wrv] config_known by auto

section \<open>Configuring a board that keeps its writable bits\<close>

text \<open>\<open>view\<close> is what a read of an address returns. A read does not change the board. A write to one of the
  registers the class fills leaves the others as they read, except that register 0x68 may follow
  register 0x42 in \<^verbatim>\<open>cfebs_enabled\<close> (\<open>w\<close> is what \<open>b\<close> read before a write to \<open>a\<close>, \<open>w'\<close> what it reads then);
  the register written keeps its own writable bits.\<close>

definition leaves_alone :: "int \<Rightarrow> int \<Rightarrow> int \<Rightarrow> int \<Rightarrow> bool" where
  "leaves_alone a b w w' \<longleftrightarrow>
     w' = w \<or> a = cfeb_inj_adr \<and> b = seq_trig_en_adr \<and>
       keeps_fields (vme_word w) (vme_word w') (own_fields (vme_word w) seq_trig_en_filled)"

definition faithful_board :: "'h vme_read \<Rightarrow> 'h vme_write \<Rightarrow> ('h \<Rightarrow> int \<Rightarrow> int) \<Rightarrow> bool" where
  "faithful_board rdv wrv view \<longleftrightarrow>
     (\<forall>h. steady rdv (view h) h \<and> shows_copy (view h)) \<and>
     (\<forall>a \<in> known_adrs. \<forall>d h b. 0 \<le> d \<longrightarrow> d < 2 ^ 16 \<longrightarrow> b \<noteq> a \<longrightarrow>
        leaves_alone a b (view h b) (view (wrv a d h) b)) \<and>
     (\<forall>a \<in> known_adrs. \<forall>d h. 0 \<le> d \<longrightarrow> d < 2 ^ 16 \<longrightarrow> register_keeps a d (vme_word (view (wrv a d h) a)))"

lemma faithful_boardD:
  assumes "faithful_board rdv wrv view"
  shows "steady rdv (view h) h" "shows_copy (view h)"
    and "a \<in> known_adrs \<Longrightarrow> 0 \<le> d \<Longrightarrow> d < 2 ^ 16 \<Longrightarrow> b \<noteq> a \<Longrightarrow> leaves_alone a b (view h b) (view (wrv a d h) b)"
    and "a \<in> known_adrs \<Longrightarrow> 0 \<le> d \<Longrightarrow> d < 2 ^ 16 \<Longrightarrow> register_keeps a d (vme_word (view (wrv a d h) a))"
  using assms unfolding faithful_board_def by blast+

lemma leaves_alone_keeps:
  assumes "leaves_alone a b w w'" and "register_keeps b d (vme_word w)"
  shows "register_keeps b d (vme_word w')"
proof (cases "w' = w")
  case False
  then have b: "b = seq_trig_en_adr"
    and *: "keeps_fields (vme_word w) (vme_word w') (own_fields (vme_word w) seq_trig_en_filled)"
    using assms(1) by (simp_all add: leaves_alone_def)
  have filled: "map_of fill_table seq_trig_en_adr = Some seq_trig_en_filled" by (simp add: fill_table_def adr_defs)
  have "cfeb_enable_source \<in> set (own_fields d seq_trig_en_filled)"
    by (simp add: own_fields_def seq_trig_en_filled_def field_defs adr_defs)
  then have "read_field (vme_word w) cfeb_enable_source = read_field d cfeb_enable_source"
    using assms(2) by (auto simp: b filled register_keeps_def keeps_fields_def list_all_iff)
  then have "own_fields (vme_word w) fs = own_fields d fs" for fs by (simp add: own_fields_def)
  then show ?thesis using assms(2) * by (auto simp: b filled register_keeps_def keeps_fields_def list_all_iff)
qed (use assms(2) in simp)

lemma view_write_all_other:
  assumes "faithful_board rdv wrv view" and "a \<notin> set regs" and "set regs \<subseteq> known_adrs"
    and "register_keeps a w (vme_word (view h a))"
  shows "register_keeps a w (vme_word (view (write_all wrv t regs h) a))"
  using assms(2-)
proof (induction regs arbitrary: h)
  case Nil
  then show ?case by (simp add: write_all_def)
next
  case (Cons b regs)
  have "leaves_alone b a (view h a) (view (wrv b (FillTMBRegister b t) h) a)"
    using faithful_boardD(3)[OF assms(1), of b] Fill_known[of b t] Cons.prems by simp
  then have "register_keeps a w (vme_word (view (wrv b (FillTMBRegister b t) h) a))"
    by (rule leaves_alone_keeps[OF _ Cons.prems(3)])
  with Cons.IH[of "wrv b (FillTMBRegister b t) h"] Cons.prems show ?case by (simp add: write_all_def)
qed

lemma write_all_keeps:
  assumes board: "faithful_board rdv wrv view" and "a \<in> set regs" and known: "set regs \<subseteq> known_adrs"
  shows "register_keeps a (FillTMBRegister a t) (vme_word (view (write_all wrv t regs h) a))"
proof -
  obtain xs ys where regs: "regs = xs @ a # ys" "a \<notin> set ys"
    using split_list_last[OF assms(2)] by blast
  have ys: "set ys \<subseteq> known_adrs" and a: "a \<in> known_adrs" using known by (auto simp: regs(1))
  have "register_keeps a (FillTMBRegister a t) (vme_word (view (wrv a (FillTMBRegister a t) (write_all wrv t xs h)) a))"
    using faithful_boardD(4)[OF board a] Fill_known[OF a, of t] by simp
  from view_write_all_other[OF board regs(2) ys this] show ?thesis by (simp add: write_all_def regs(1))
qed

lemma start_ddd_config: "same_config (fst s) (fst (start_ddd wrv s))"
proof -
  let ?w = "tmb_vme_write wrv vme_dddsm_adr"
  have "same_config (fst s) (fst (?w 0x20 (?w 0x21 (?w 0x20 s))))"
    by (rule same_config_trans[OF same_config_trans[OF tmb_vme_write_config tmb_vme_write_config]
          tmb_vme_write_config])
  then show ?thesis by (simp add: start_ddd_def)
qed

lemma view_start_ddd:
  assumes "faithful_board rdv wrv view" and "a \<noteq> vme_dddsm_adr"
  shows "view (snd (start_ddd wrv s)) a = view (snd s) a"
proof -
  have known: "vme_dddsm_adr \<in> known_adrs" by (simp add: known_adrs_def fill_table_def adr_defs)
  have "vme_dddsm_adr \<noteq> cfeb_inj_adr" by (simp add: adr_defs)
  then show ?thesis
    using assms(2) faithful_boardD(3)[OF assms(1) known _ _ assms(2)]
    by (simp add: start_ddd_def tmb_vme_write_board leaves_alone_def)
qed

lemma dddsm_not_configured:
  "list_all (\<lambda>a. a \<noteq> vme_dddsm_adr) TMBConfigurationRegister"
  by (simp add: TMBConfigurationRegister_def adr_defs)

lemma board_keeps_cong: "same_config t t' \<Longrightarrow> board_keeps D t' = board_keeps D t"
  by (simp add: board_keeps_def Fill_cong)

lemma configure_keeps:
  assumes "faithful_board rdv wrv view"
  shows "board_keeps (view (snd (start_ddd wrv (configure_registers wrv s)))) (fst s)"
  unfolding board_keeps_def list_all_iff
proof (intro ballI disjI2)
  fix a assume a: "a \<in> set TMBConfigurationRegister"
  then have "a \<noteq> vme_dddsm_adr" using dddsm_not_configured by (auto simp: list_all_iff)
  then show "register_keeps a (FillTMBRegister a (fst s))
      (vme_word (view (snd (start_ddd wrv (configure_registers wrv s))) a))"
    using write_all_keeps[OF assms a subsetI[OF config_known]]
    by (simp add: view_start_ddd[OF assms] configure_registers_writes)
qed

definition configured :: "'h vme_write \<Rightarrow> tmb \<times> 'h \<Rightarrow> tmb \<times> 'h" where
  "configured wrv s = start_ddd wrv (configure_registers wrv (configure_begin False (fst s), snd s))"

lemma configured_config: "same_config (fst s) (fst (configured wrv s))"
proof -
  have "same_config (fst s) (configure_begin False (fst s))"
    unfolding same_config_def configure_begin_def
    by (rule exI[of _ "[]"], rule exI[of _ False]) simp
  then show ?thesis
    unfolding configured_def
    by (metis same_config_trans start_ddd_config configure_registers_writes(2) fst_conv)
qed

lemma configure2_eq:
  assumes "slot (fst s) < 22"
  shows "configure2 rdv wrv s =
    CheckTMBConfiguration rdv 2 ((fst (configured wrv s))\<lparr>fill_vme_write_vecs := False\<rparr>, snd (configured wrv s))"
proof -
  have "slot (fst (configured wrv s)) = slot (fst s)"
    using configured_config[of s wrv] by (auto simp: same_config_def)
  with assms show ?thesis
    by (cases "configured wrv s") (simp add: configure2_def flip: configured_def)
qed

lemma same_config_predicates:
  assumes "same_config t t'"
  shows "fits t' = fits t" "identity_ok D t' = identity_ok D t"
    "cfebs_enabled_expected t' = cfebs_enabled_expected t" "wr t' = wr t" "clock_delay t' = clock_delay t"
  using assms by (auto simp: same_config_def fits_def identity_ok_def cfebs_enabled_expected_def)

lemma configure2_verdict:
  assumes board: "faithful_board rdv wrv view"
    and "slot t < 22"
    and range: "list_all (\<lambda>p. 0 \<le> clock_delay t p \<and> clock_delay t p < 25) default_phasers"
  shows "tmb_configuration_status (fst (configure2 rdv wrv (t, h))) =
     of_bool (fits t \<and> identity_ok (view (snd (configured wrv (t, h)))) t)"
proof -
  let ?s = "configured wrv (t, h)" and ?D = "view (snd (configured wrv (t, h)))"
  let ?t = "(fst ?s)\<lparr>fill_vme_write_vecs := False\<rparr>"
  have "same_config (fst ?s) ?t"
    unfolding same_config_def by (rule exI[of _ "vme_write_vecs (fst ?s)"], rule exI[of _ False]) simp
  then have c: "same_config t ?t"
    using configured_config[of "(t, h)" wrv] by (auto intro: same_config_trans)
  have b: "same_config t (configure_begin False t)"
    unfolding same_config_def configure_begin_def
    by (rule exI[of _ "[]"], rule exI[of _ False]) simp
  have "board_keeps ?D (configure_begin False t)"
    using configure_keeps[OF board, of "(configure_begin False t, h)"] by (simp add: configured_def)
  then have "board_keeps ?D ?t" by (simp add: board_keeps_cong[OF b] board_keeps_cong[OF c])
  then have m: "board_matches ?D ?t \<longleftrightarrow> fits t \<and> identity_ok ?D t"
    using kept_board_matches[of ?D ?t] faithful_boardD(2)[OF board] range same_config_predicates[OF c] by simp
  have "steady rdv ?D (snd ?s)" using board by (simp add: faithful_board_def)
  from Check_steady(1)[OF this, of 2 ?t] show ?thesis
    using assms(2) by (simp add: configure2_eq m)
qed

section \<open>The defaults\<close>







lemma compile_type_frame:
  "hot_channel_mask (SetTMBFirmwareCompileType ty t) = hot_channel_mask t"
  "clock_delay (SetTMBFirmwareCompileType ty t) = clock_delay t"
  "posneg (SetTMBFirmwareCompileType ty t) = posneg t"
  by (simp_all add: SetTMBFirmwareCompileType_def Let_def)



lemma default_phases_in_range:
  "list_all (\<lambda>p. 0 \<le> clock_delay (TMB_init s t0) p \<and> clock_delay (TMB_init s t0) p < 25) default_phasers"
  "list_all (\<lambda>p. take_bit 1 (posneg (TMB_init s t0) p) = posneg (TMB_init s t0) p) default_phasers"
  by (simp_all add: TMB_init_def SetTMBRegisterDefaults_def Let_def compile_type_frame
      default_phasers_def with_default_def upd_all_def default_clock_delay_def default_posneg_def default_defs)




section \<open>What a decoded register leaves alone\<close>

lemma decode_whole:
  "DecodeTMBRegister a d t = t\<lparr>rd := rd (DecodeTMBRegister a d t),
     read_hot_channel_mask := read_hot_channel_mask (DecodeTMBRegister a d t),
     read_badbits := read_badbits (DecodeTMBRegister a d t),
     read_clock_delay := read_clock_delay (DecodeTMBRegister a d t),
     read_posneg := read_posneg (DecodeTMBRegister a d t), read_trgmode := read_trgmode (DecodeTMBRegister a d t)\<rparr>"
  by (simp add: DecodeTMBRegister_def decode_branch_def update_read_trgmode_def Let_def
      decode_fields_def ConvertVMERegisterValuesToDigitalPhases_def split: option.splits)

lemma read_trgmode_Decode:
  "read_trgmode (DecodeTMBRegister a d t) =
     (if rd (DecodeTMBRegister a d t) tmb_allow_match AND rd (DecodeTMBRegister a d t) match_pat_trig_en \<noteq> 0
      then ALCT_CLCT_coincidence_trigger
      else if rd (DecodeTMBRegister a d t) tmb_allow_clct AND rd (DecodeTMBRegister a d t) clct_pat_trig_en \<noteq> 0
      then CLCT_trigger else read_trgmode t)"
proof -
  have "read_trgmode (decode_branch a d t) = read_trgmode t"
    by (simp add: decode_branch_def decode_fields_def ConvertVMERegisterValuesToDigitalPhases_def Let_def
        split: option.splits)
  then show ?thesis
    unfolding DecodeTMBRegister_def rd_update_read_trgmode by (simp add: update_read_trgmode_def Let_def)
qed

lemma badbits_apart: "list_all (\<lambda>a. \<not> List.member hcm_adrs a \<and> map_of phaser_table a = None) badbits_adrs"
  by (simp add: hcm_adrs_def badbits_adrs_def phaser_table_def adr_defs)

lemma read_badbits_Decode:
  "read_badbits (DecodeTMBRegister a d t) =
     (if a \<in> set badbits_adrs then decode_hot_mask a d (read_badbits t) else read_badbits t)"
proof (cases "a \<in> set badbits_adrs")
  case True
  then have "map_of decode_table a = None" "a \<notin> set hcm_adrs" "map_of phaser_table a = None"
    using special_adrs_not_decoded badbits_apart by (auto simp: list_all_iff)
  with True show ?thesis by (simp add: DecodeTMBRegister_def decode_branch_def)
next
  case False
  then show ?thesis
    by (simp add: DecodeTMBRegister_def decode_branch_def decode_fields_def
        ConvertVMERegisterValuesToDigitalPhases_def Let_def split: option.splits)
qed

lemma decode_hot_mask_changes: "decode_hot_mask a d m c \<noteq> m c \<Longrightarrow> \<exists>b < 16. c = hot_channel a b"
proof (rule ccontr)
  assume *: "decode_hot_mask a d m c \<noteq> m c" and "\<not> (\<exists>b < 16. c = hot_channel a b)"
  then have "c \<notin> hot_channel a ` set [0..<16]"
    unfolding set_upt image_iff Bex_def atLeastLessThan_iff by blast
  then have "decode_hot_mask a d m c = m c" unfolding decode_hot_mask_def by (rule fold_upd_key_other)
  with *(1) show False by (rule notE)
qed

section \<open>Register 0x74\<close>

lemma seq_l1a_not_matched: "board_matches (D(seq_l1a_adr := w)) t = board_matches D t"
proof -
  have other: "list_all (\<lambda>f. vmereg f \<noteq> seq_l1a_adr) config_checked"
    by (simp add: config_checked_def checked_defs field_defs adr_defs)
  have hcm: "hcm_adrs ! k \<noteq> seq_l1a_adr" if "k < 15" for k
    using hcm_special(4)[of "hcm_adrs ! k"] that by (simp add: length_hcm)
  have ph: "phaser_home_of p \<noteq> seq_l1a_adr" if "p \<in> set default_phasers" for p
    using phaser_home_of(1)[OF that] phaser_table_props(6) phaser_adr_unique by metis
  have ids: "vme_idreg0_adr \<noteq> seq_l1a_adr" "vme_idreg1_adr \<noteq> seq_l1a_adr" "vme_idreg2_adr \<noteq> seq_l1a_adr"
    "vme_idreg3_adr \<noteq> seq_l1a_adr" "tmb_adr_boot \<noteq> seq_l1a_adr" "seq_trig_en_adr \<noteq> seq_l1a_adr"
    "non_trig_readout_adr \<noteq> seq_l1a_adr" "cfeb_badbits_ctrl_adr \<noteq> seq_l1a_adr"
    by (simp_all add: adr_defs)
  have fw: "firmware_of (D(seq_l1a_adr := w)) i = firmware_of D i" for i
    using ids by (cases i) (simp_all add: firmware_of_def)
  show ?thesis
    unfolding board_matches_def fw
    using other hcm ph ids by (simp add: list_all_iff)
qed

lemma rd_seq_l1a:
  assumes "f \<in> set seq_l1a_filled"
  shows "rd (decode_all D config_regs t) f = read_field (vme_word (D seq_l1a_adr)) f"
proof (rule rd_decode_all_unique)
  have f: "vmereg f = seq_l1a_adr" "f \<noteq> clct_stagger"
    using assms by (auto simp: seq_l1a_filled_def field_defs adr_defs)
  show "seq_l1a_adr \<in> set config_regs" by (simp add: config_regs_eq TMBConfigurationRegister_def)
  show "f \<in> set (decoded_fields seq_l1a_adr)"
    using assms by (simp add: decoded_fields_def decode_table_def adr_defs seq_l1a_filled_def seq_l1a_decoded_def)
  show "b = seq_l1a_adr" if "f \<in> set (decoded_fields b)" for b
    using decoded_fields_home[OF that] f by (auto simp: adr_defs)
qed

lemma check_reads_seq_l1a:
  assumes "steady rdv D h" and "f \<in> set seq_l1a_filled"
    and "0 < k \<and> \<not> ok \<or> rd t f = read_field (vme_word (D seq_l1a_adr)) f"
  shows "rd (fst (snd (check_reads rdv k (ok, t, h)))) f = read_field (vme_word (D seq_l1a_adr)) f"
  using assms(3)
proof (induction k arbitrary: ok t)
  case (Suc k)
  then show ?case
    by (cases ok) (simp_all add: ReadTMBConfiguration_steady[OF assms(1)] rd_seq_l1a[OF assms(2)])
qed simp

lemma Check_seq_l1a:
  assumes "steady rdv D h" and "0 < n"
  shows "\<forall>f \<in> set seq_l1a_filled. rd (fst (CheckTMBConfiguration rdv n (t, h))) f = read_field (vme_word (D seq_l1a_adr)) f"
proof
  fix f assume "f \<in> set seq_l1a_filled"
  from check_reads_seq_l1a[OF assms(1) this, of n False "t\<lparr>number_of_configuration_reads := 0\<rparr>"] assms(2)
  show "rd (fst (CheckTMBConfiguration rdv n (t, h))) f = read_field (vme_word (D seq_l1a_adr)) f"
    by (simp add: CheckTMBConfiguration_def split_beta)
qed

section \<open>A board made of a memory, for concrete examples\<close>

definition mem_read :: "(int \<Rightarrow> int) vme_read" where
  "mem_read a h = (h a, h)"

definition mem_write :: "(int \<Rightarrow> int) vme_write" where
  "mem_write a d h = h(a := d)"

lemma register_keeps_same: "register_keeps a d d"
  by (simp add: register_keeps_def keeps_fields_def list_all_iff split: option.splits)

text \<open>Register 0x68 of a board: the fields written, with \<^verbatim>\<open>cfebs_enabled\<close> from register 0x42 when the source is set.\<close>

definition trig_en_word :: "(int \<Rightarrow> int) \<Rightarrow> int" where
  "trig_en_word h =
     (let w = vme_word (h seq_trig_en_adr) in
      insert_fields (\<lambda>f. if f = cfebs_enabled \<and> read_field w cfeb_enable_source = 1
          then read_field (vme_word (h cfeb_inj_adr)) enableCLCTInputs else read_field w f) seq_trig_en_filled 0)"

definition tmb_view :: "(int \<Rightarrow> int) \<Rightarrow> int \<Rightarrow> int" where
  "tmb_view h = h(seq_trig_en_adr := trig_en_word h)"

definition tmb_read :: "(int \<Rightarrow> int) vme_read" where
  "tmb_read a h = (tmb_view h a, h)"

lemma vme_trig_en_word: "vme_word (trig_en_word h) = trig_en_word h"
  using insert_fields_range by (simp add: trig_en_word_def Let_def vme_word_id)

lemma read_trig_en_word:
  assumes "f \<in> set seq_trig_en_filled"
  shows "read_field (trig_en_word h) f =
    (if f = cfebs_enabled \<and> read_field (vme_word (h seq_trig_en_adr)) cfeb_enable_source = 1
     then read_field (vme_word (h cfeb_inj_adr)) enableCLCTInputs else read_field (vme_word (h seq_trig_en_adr)) f)"
proof -
  have "map_of fill_table seq_trig_en_adr = Some seq_trig_en_filled" by (simp add: fill_table_def adr_defs)
  from read_insert_fields[OF fill_layout[OF this] assms] show ?thesis
    using read_field_width[of enableCLCTInputs "vme_word (h cfeb_inj_adr)"] read_field_width[of f]
    by (auto simp: trig_en_word_def Let_def widths_compared cfebs_sources)
qed

lemma tmb_view_keeps:
  assumes "h seq_trig_en_adr = d" and "0 \<le> d" and "d < 2 ^ 16"
  shows "register_keeps seq_trig_en_adr d (trig_en_word h)"
proof -
  have "map_of fill_table seq_trig_en_adr = Some seq_trig_en_filled" by (simp add: fill_table_def adr_defs)
  then show ?thesis
    using assms by (auto simp: register_keeps_def keeps_fields_def own_fields_def list_all_iff read_trig_en_word vme_word_id)
qed

lemma tmb_view_copy: "shows_copy (tmb_view h)"
proof -
  have "cfeb_enable_source \<in> set seq_trig_en_filled" "cfebs_enabled \<in> set seq_trig_en_filled"
    "cfeb_inj_adr \<noteq> seq_trig_en_adr" "cfeb_enable_source \<noteq> cfebs_enabled"
    by (simp_all add: seq_trig_en_filled_def field_defs adr_defs)
  then show ?thesis by (simp add: shows_copy_def tmb_view_def vme_trig_en_word read_trig_en_word Let_def)
qed

lemma tmb_view_other:
  assumes "b \<noteq> a"
  shows "leaves_alone a b (tmb_view h b) (tmb_view (h(a := d)) b)"
proof (cases "b = seq_trig_en_adr")
  case True
  show ?thesis
  proof (cases "a = cfeb_inj_adr")
    case True
    have "cfeb_enable_source \<in> set seq_trig_en_filled" "cfeb_enable_source \<noteq> cfebs_enabled"
      by (simp_all add: seq_trig_en_filled_def field_defs adr_defs)
    then show ?thesis
      using assms unfolding \<open>b = seq_trig_en_adr\<close> True
      by (auto simp: leaves_alone_def tmb_view_def vme_trig_en_word keeps_fields_def own_fields_def list_all_iff
          read_trig_en_word)
  next
    case False
    have at: "(h(a := d)) seq_trig_en_adr = h seq_trig_en_adr" "(h(a := d)) cfeb_inj_adr = h cfeb_inj_adr"
      using assms True False by auto
    have "trig_en_word (h(a := d)) = trig_en_word h" unfolding trig_en_word_def at ..
    then show ?thesis using assms True by (simp add: leaves_alone_def tmb_view_def)
  qed
qed (simp add: leaves_alone_def tmb_view_def assms)

lemma tmb_is_faithful: "faithful_board tmb_read mem_write tmb_view"
proof -
  have "register_keeps a d (vme_word (tmb_view (h(a := d)) a))" if "0 \<le> d" "d < 2 ^ 16" for a d h
    using that tmb_view_keeps[of "h(a := d)" d]
    by (cases "a = seq_trig_en_adr") (auto simp: tmb_view_def vme_trig_en_word vme_word_id register_keeps_same)
  then show ?thesis
    by (simp add: faithful_board_def steady_def tmb_read_def mem_write_def tmb_view_copy tmb_view_other)
qed

section \<open>Properties\<close>

text \<open>C1. Configuring a board and checking it. On a board whose registers keep their writable bits - where
  0x68 shows the CFEBs enabled in 0x42 when \<^verbatim>\<open>cfeb_enable_source\<close> is set, as by default, and those
  written to it otherwise - \<^verbatim>\<open>configure(2)\<close> ends with status 1 exactly when every configured value that
  the board is to hold fits in its field and the bits the board fixes itself (firmware date and version,
  JTAG chain, firmware type) are the expected ones; otherwise the status is 0. The phases are assumed to
  be delay settings of the 25 ns clock.\<close>

theorem configure_then_check:
  assumes "faithful_board rdv wrv view" and "slot t < 22"
    and "list_all (\<lambda>p. 0 \<le> clock_delay t p \<and> clock_delay t p < 25) default_phasers"
  shows "tmb_configuration_status (fst (configure2 rdv wrv (t, h))) =
     (if fits t \<and> identity_ok (view (snd (configured wrv (t, h)))) t then 1 else 0)"
  by (simp add: configure2_verdict[OF assms])

theorem configure_then_check_witness:
  "tmb_configuration_status (fst (configure2 tmb_read mem_write (TMB_init 4 blank_tmb, \<lambda>_. 0))) =
     (if fits (TMB_init 4 blank_tmb) \<and>
         identity_ok (tmb_view (snd (configured mem_write (TMB_init 4 blank_tmb, \<lambda>_. 0)))) (TMB_init 4 blank_tmb)
      then 1 else 0)"
  using configure_then_check[OF tmb_is_faithful _ default_phases_in_range(1), of 4 blank_tmb "\<lambda>_. 0"]
  by (simp add: TMB_init_def SetTMBRegisterDefaults_def SetTMBFirmwareCompileType_def Let_def)

text \<open>C2. The check refines its specification: on a board that stays still while it is read,
  \<^verbatim>\<open>CheckTMBConfiguration\<close> sets the status to 1 exactly when it is allowed a read and the board
  matches the class; it reads once when the board matches and uses all the allowed reads otherwise,
  and it leaves the board as it was.\<close>

theorem check_decides_board_matches:
  assumes "steady rdv D h"
  shows "tmb_configuration_status (fst (CheckTMBConfiguration rdv n (t, h))) =
           (if 0 < n \<and> board_matches D t then 1 else 0) \<and>
         number_of_configuration_reads (fst (CheckTMBConfiguration rdv n (t, h))) =
           (if board_matches D t then min 1 n else n) \<and>
         snd (CheckTMBConfiguration rdv n (t, h)) = h"
  using Check_steady[OF assms, of n t] by simp

theorem check_decides_board_matches_witness:
  "tmb_configuration_status (fst (CheckTMBConfiguration mem_read 2 (blank_tmb, \<lambda>_. 0xffff))) =
     (if board_matches (\<lambda>_. 0xffff) blank_tmb then 1 else 0)"
  using check_decides_board_matches[of mem_read "\<lambda>_. 0xffff" "\<lambda>_. 0xffff" 2 blank_tmb]
  by (simp add: steady_def mem_read_def)


text \<open>C4. \<^verbatim>\<open>configure\<close> writes each of its registers exactly once, in the order of the list, with the
  16-bit word of \<^verbatim>\<open>FillTMBRegister\<close>, and sends nothing else in this loop: recorded on a board that is
  the list of the writes.\<close>

theorem configure_write_trace:
  "snd (configure_registers (\<lambda>a d tr. tr @ [(a, d)]) (t, tr)) =
     tr @ map (\<lambda>a. (a, FillTMBRegister a t)) TMBConfigurationRegister"
proof -
  have "write_all (\<lambda>a d tr. tr @ [(a, d)]) t regs tr = tr @ map (\<lambda>a. (a, FillTMBRegister a t)) regs" for regs
    unfolding write_all_def by (induction regs arbitrary: tr) simp_all
  then show ?thesis by (simp add: configure_registers_writes)
qed

text \<open>C5. \<^verbatim>\<open>WriteRegister\<close> sends a 16-bit word for an address \<^verbatim>\<open>FillTMBRegister\<close> knows, and leaves both
  the object and the board alone for any other address.\<close>

theorem WriteRegister_total:
  "(if a \<in> known_adrs
    then 0 \<le> FillTMBRegister a (fst s) \<and> FillTMBRegister a (fst s) < 2 ^ 16 \<and>
         snd (WriteRegister wrv a s) = wrv a (FillTMBRegister a (fst s)) (snd s)
    else WriteRegister wrv a s = s)"
  using Fill_known[of a "fst s"] by (simp add: WriteRegister_known WriteRegister_unknown)

text \<open>C6. The 240 hot channel bits survive the trip through the fifteen mask registers: reading back
  the words filled from one object gives every layer and distrip the low bit of its mask.\<close>

theorem hot_channel_masks_roundtrip:
  assumes "0 \<le> layer" "layer < 6" "0 \<le> distrip" "distrip < 40"
  shows "read_hot_channel_mask (fold (\<lambda>a. DecodeTMBRegister a (FillTMBRegister a t0)) hcm_adrs t) (layer, distrip) =
         hot_channel_mask t0 (layer, distrip) AND 1"
proof -
  obtain k b where kb: "k < 15" "b < 16" "hot_position k b = (layer, distrip)"
    using hot_position_surj assms by blast
  have w: "vme_word (FillTMBRegister a t0) = FillTMBRegister a t0" if "a \<in> set hcm_adrs" for a
    using fill_hot_mask_range by (simp add: FillTMBRegister_hcm[OF that] vme_word_id)
  have "fold (\<lambda>a. DecodeTMBRegister a (FillTMBRegister a t0)) hcm_adrs t =
        decode_all (\<lambda>a. FillTMBRegister a t0) hcm_adrs t"
    unfolding decode_all_def by (rule fold_cong) (simp_all add: w)
  then show ?thesis
    using mask_decode_all[OF kb(1,2), of "\<lambda>a. FillTMBRegister a t0" hcm_adrs t] kb
    by (simp add: length_hcm fill_hot_mask_range[simplified] vme_word_id FillTMBRegister_hcm fill_hot_mask_bit
        hot_channel_hcm and_one_eq)
qed

theorem hot_channel_masks_roundtrip_witness:
  "read_hot_channel_mask (fold (\<lambda>a. DecodeTMBRegister a
       (FillTMBRegister a (blank_tmb\<lparr>hot_channel_mask := (\<lambda>c. if c = (3, 17) then 1 else 0)\<rparr>)))
     hcm_adrs blank_tmb) (3, 17) = 1"
  using hot_channel_masks_roundtrip[of 3 17 "blank_tmb\<lparr>hot_channel_mask := (\<lambda>c. if c = (3, 17) then 1 else 0)\<rparr>" blank_tmb]
  by simp

text \<open>C7. Every field a register is filled with is decoded from the same bits: after a write of
  register \<open>a\<close> to a board that keeps the fields of the register, the companion member read back is
  the configured value, when that fits in the field. Register 0x74 is the exception (C8).\<close>

theorem register_readback:
  assumes "map_of fill_table a = Some fs" and "f \<in> set fs" and "a \<noteq> seq_l1a_adr"
    and "keeps_fields (FillTMBRegister a t) data fs"
    and "0 \<le> wr t f" and "wr t f < 2 ^ width f"
  shows "rd (DecodeTMBRegister a data t') f = wr t f"
  using readback[OF assms(1,2,4), of t'] assms(3,5,6) by (simp add: take_bit_int_eq_self)

theorem register_readback_witness:
  "rd (DecodeTMBRegister vme_ddd0_adr
         (FillTMBRegister vme_ddd0_adr (blank_tmb\<lparr>wr := (\<lambda>f. if f = dmb_tx_delay then 9 else 0)\<rparr>)) blank_tmb)
     dmb_tx_delay = 9"
proof -
  let ?t = "blank_tmb\<lparr>wr := (\<lambda>f. if f = dmb_tx_delay then 9 else 0)\<rparr>"
  have "map_of fill_table vme_ddd0_adr = Some vme_ddd0_filled"
    by (simp add: fill_table_def adr_defs)
  moreover have "dmb_tx_delay \<in> set vme_ddd0_filled" by (simp add: vme_ddd0_filled_def)
  moreover have "vme_ddd0_adr \<noteq> seq_l1a_adr" by (simp add: adr_defs)
  moreover have "keeps_fields (FillTMBRegister vme_ddd0_adr ?t) (FillTMBRegister vme_ddd0_adr ?t) vme_ddd0_filled"
    by (simp add: keeps_fields_def list_all_iff)
  moreover have "0 \<le> wr ?t dmb_tx_delay" "wr ?t dmb_tx_delay < 2 ^ width dmb_tx_delay"
    by (simp_all add: width_def field_defs)
  ultimately show ?thesis using register_readback[of vme_ddd0_adr vme_ddd0_filled dmb_tx_delay ?t] by simp
qed

text \<open>C8. Register 0x74 is outside the check: the class has one member for each of its fields, used both to
  fill the register and to hold what was read, and the check compares it with itself. Two steady boards
  that differ in this register only get the same status after the same number of reads, whatever is
  configured; and after a check that reads at all, the word to be written there next is no longer the
  configured one but the fields of the word the board had.\<close>

theorem seq_l1a_not_checked:
  assumes "steady rdv D h" and "steady rdv' D' h'" and "\<forall>a. a \<noteq> seq_l1a_adr \<longrightarrow> D' a = D a"
  shows "tmb_configuration_status (fst (CheckTMBConfiguration rdv' n (t, h'))) =
      tmb_configuration_status (fst (CheckTMBConfiguration rdv n (t, h))) \<and>
    number_of_configuration_reads (fst (CheckTMBConfiguration rdv' n (t, h'))) =
      number_of_configuration_reads (fst (CheckTMBConfiguration rdv n (t, h))) \<and>
    (0 < n \<longrightarrow> FillTMBRegister seq_l1a_adr (fst (CheckTMBConfiguration rdv n (t, h))) =
      insert_fields (read_field (vme_word (D seq_l1a_adr))) seq_l1a_filled 0)"
proof -
  have "D' = D(seq_l1a_adr := D' seq_l1a_adr)" using assms(3) by auto
  then have "board_matches D' t = board_matches D t" by (metis seq_l1a_not_matched)
  then show ?thesis
    using Check_steady[OF assms(1), of n t] Check_steady[OF assms(2), of n t] Check_seq_l1a[OF assms(1), of n t]
    by (simp add: FillTMBRegister_def insert_fields_def cong: fold_cong)
qed

theorem seq_l1a_not_checked_witness:
  "tmb_configuration_status (fst (CheckTMBConfiguration mem_read 2 (blank_tmb, (\<lambda>_. 0)(seq_l1a_adr := 0x123)))) =
     tmb_configuration_status (fst (CheckTMBConfiguration mem_read 2 (blank_tmb, \<lambda>_. 0))) \<and>
   FillTMBRegister seq_l1a_adr (fst (CheckTMBConfiguration mem_read 2 (blank_tmb, (\<lambda>_. 0)(seq_l1a_adr := 0x123)))) = 0x123"
proof -
  let ?h = "(\<lambda>_. 0)(seq_l1a_adr := 0x123) :: int \<Rightarrow> int"
  have "steady mem_read ?h ?h" "steady mem_read (\<lambda>_. 0) (\<lambda>_. 0)" by (simp_all add: steady_def mem_read_def)
  note * = seq_l1a_not_checked[OF this, of 2 blank_tmb]
  have "insert_fields (read_field (vme_word 0x123)) seq_l1a_filled 0 = 0x123" by code_simp
  then show ?thesis using * by simp
qed

text \<open>C9. A digital phase of the 25 ns clock survives the conversion to the three fields of the phase
  shifter and back, on a board that keeps them; the sign comes back as one bit.\<close>

theorem digital_phase_roundtrip:
  assumes "map_of phaser_table a = Some ph"
    and "0 \<le> clock_delay t ph" and "clock_delay t ph < 25"
    and "keeps_fields (FillTMBRegister a t) data phase_fields"
  shows "read_clock_delay (DecodeTMBRegister a data t') ph = clock_delay t ph \<and>
         read_posneg (DecodeTMBRegister a data t') ph = posneg t ph AND 1"
  using phase_readback[OF assms, of t'] by (simp add: and_one_eq)

theorem digital_phase_roundtrip_witness:
  "read_clock_delay (DecodeTMBRegister phaser_cfeb2_rxd_adr
     (FillTMBRegister phaser_cfeb2_rxd_adr (blank_tmb\<lparr>clock_delay := (\<lambda>_. 24)\<rparr>)) blank_tmb) Cfeb2_rx = 24"
proof -
  have "map_of phaser_table phaser_cfeb2_rxd_adr = Some Cfeb2_rx"
    by (simp add: phaser_table_def adr_defs)
  from digital_phase_roundtrip[OF this, of "blank_tmb\<lparr>clock_delay := (\<lambda>_. 24)\<rparr>"] show ?thesis
    by (simp add: keeps_fields_def list_all_iff)
qed

text \<open>C10. Decoding register \<open>a\<close> touches only what is its own, in the whole object. A companion member that
  changes belongs to register \<open>a\<close>, or \<open>a\<close> is one of the phase shifters (which share the members of the
  first), or it is \<^verbatim>\<open>read_clct_stagger_\<close>, which the decoding of register 0xF4 overwrites although it belongs
  to 0xCC. A hot channel mask or a bad bit changes only when \<open>a\<close> is the mask register, or the bad bits
  register, of that channel; a phase and its sign only when \<open>a\<close> is that phase shifter. The trigger mode is
  recomputed from the members whatever \<open>a\<close> is, and everything else stays.\<close>

theorem decode_frame_fields:
  assumes "t' = DecodeTMBRegister a data t"
  shows "t' = t\<lparr>rd := rd t', read_hot_channel_mask := read_hot_channel_mask t', read_badbits := read_badbits t',
      read_clock_delay := read_clock_delay t', read_posneg := read_posneg t', read_trgmode := read_trgmode t'\<rparr> \<and>
    (\<forall>f. rd t' f \<noteq> rd t f \<longrightarrow> vmereg f = a \<or> (a = pattern_find_pretrg_adr \<and> f = clct_stagger) \<or>
       (a \<in> set (map fst phaser_table) \<and> vmereg f = phaser_alct_rxd_adr)) \<and>
    (\<forall>c. read_hot_channel_mask t' c \<noteq> read_hot_channel_mask t c \<longrightarrow> a \<in> set hcm_adrs \<and> (\<exists>b < 16. c = hot_channel a b)) \<and>
    (\<forall>c. read_badbits t' c \<noteq> read_badbits t c \<longrightarrow> a \<in> set badbits_adrs \<and> (\<exists>b < 16. c = hot_channel a b)) \<and>
    (\<forall>p. read_clock_delay t' p \<noteq> read_clock_delay t p \<or> read_posneg t' p \<noteq> read_posneg t p \<longrightarrow>
       map_of phaser_table a = Some p) \<and>
    read_trgmode t' = (if rd t' tmb_allow_match AND rd t' match_pat_trig_en \<noteq> 0 then ALCT_CLCT_coincidence_trigger
       else if rd t' tmb_allow_clct AND rd t' clct_pat_trig_en \<noteq> 0 then CLCT_trigger else read_trgmode t)"
  unfolding assms
proof (intro conjI allI impI)
  let ?t = "DecodeTMBRegister a data t"
  show "?t = t\<lparr>rd := rd ?t, read_hot_channel_mask := read_hot_channel_mask ?t, read_badbits := read_badbits ?t,
      read_clock_delay := read_clock_delay ?t, read_posneg := read_posneg ?t, read_trgmode := read_trgmode ?t\<rparr>"
    by (rule decode_whole)
  show "vmereg f = a \<or> (a = pattern_find_pretrg_adr \<and> f = clct_stagger) \<or>
      (a \<in> set (map fst phaser_table) \<and> vmereg f = phaser_alct_rxd_adr)" if "rd ?t f \<noteq> rd t f" for f
    using that decoded_fields_home[of f a] by (auto simp: rd_Decode upd_all_apply split: if_splits)
  show "a \<in> set hcm_adrs" "\<exists>b < 16. c = hot_channel a b" if "read_hot_channel_mask ?t c \<noteq> read_hot_channel_mask t c" for c
    using that decode_hot_mask_changes[of a data "read_hot_channel_mask t" c]
    by (auto simp: read_hot_channel_mask_Decode split: if_splits)
  show "a \<in> set badbits_adrs" "\<exists>b < 16. c = hot_channel a b" if "read_badbits ?t c \<noteq> read_badbits t c" for c
    using that decode_hot_mask_changes[of a data "read_badbits t" c]
    by (auto simp: read_badbits_Decode split: if_splits)
  show "map_of phaser_table a = Some p"
    if "read_clock_delay ?t p \<noteq> read_clock_delay t p \<or> read_posneg ?t p \<noteq> read_posneg t p" for p
    using that by (auto simp: phases_Decode split: if_splits)
  show "read_trgmode ?t = (if rd ?t tmb_allow_match AND rd ?t match_pat_trig_en \<noteq> 0 then ALCT_CLCT_coincidence_trigger
      else if rd ?t tmb_allow_clct AND rd ?t clct_pat_trig_en \<noteq> 0 then CLCT_trigger else read_trgmode t)"
    by (rule read_trgmode_Decode)
qed

theorem decode_frame_fields_witness:
  "\<exists>t'. t' = DecodeTMBRegister pattern_find_pretrg_adr (2 ^ 6) blank_tmb \<and>
     rd t' clct_stagger = 1 \<and> vmereg clct_stagger \<noteq> pattern_find_pretrg_adr \<and>
     rd t' dmb_tx_delay = rd blank_tmb dmb_tx_delay \<and> read_badbits t' = read_badbits blank_tmb \<and>
     read_clock_delay t' = read_clock_delay blank_tmb \<and> wr t' = wr blank_tmb"
proof (intro exI[of _ "DecodeTMBRegister pattern_find_pretrg_adr (2 ^ 6) blank_tmb"] conjI refl)
  let ?a = pattern_find_pretrg_adr and ?t = "DecodeTMBRegister pattern_find_pretrg_adr (2 ^ 6) blank_tmb"
  note * = decode_frame_fields[OF refl, of ?a "2 ^ 6" blank_tmb]
  have a: "?a \<notin> set badbits_adrs" "?a \<notin> set (map fst phaser_table)" "map_of phaser_table ?a = None"
    "vmereg dmb_tx_delay \<noteq> ?a" "dmb_tx_delay \<noteq> clct_stagger"
    by (simp_all add: badbits_adrs_def phaser_table_def field_defs adr_defs)
  show "rd ?t dmb_tx_delay = rd blank_tmb dmb_tx_delay" using * a by blast
  show "read_badbits ?t = read_badbits blank_tmb" using * a by (intro ext) blast
  show "read_clock_delay ?t = read_clock_delay blank_tmb" using * a by (intro ext) fastforce
  show "wr ?t = wr blank_tmb" using arg_cong[OF conjunct1[OF *], of wr] by simp
  have "map_of decode_table ?a = Some pattern_find_pretrg_decoded" by (simp add: decode_table_def adr_defs)
  then show "rd ?t clct_stagger = 1"
    by (simp add: rd_decode_table upd_all_apply pattern_find_pretrg_decoded_def read_field_def field_defs
        ExtractValueFromData_def makemask_def)
  show "vmereg clct_stagger \<noteq> ?a" by (simp add: field_defs adr_defs)
qed

end
