(* ===== verification/Jtag.thy ===== *)
theory Jtag
  imports Bits
begin

text \<open>
  The JTAG layer of \<^verbatim>\<open>EMUjtag.cc\<close>: packing of bit vectors into bytes and back, the chains of
  \<^verbatim>\<open>setup_jtag\<close>, and the two shift operations. A C \<^verbatim>\<open>char\<close> is an integer in the signed range of
  8 bits (\<open>to_char\<close>). The boards behind the chain are the parameter \<open>port\<close>, a record of the calls the
  class makes on its \<^verbatim>\<open>TMB\<close>; their state is the type variable \<open>'h\<close>.
\<close>

unbundle bit_operations_syntax

section \<open>Bits and bytes\<close>

definition to_char :: "int \<Rightarrow> int" where
  "to_char v = signed_take_bit 7 v"

lemma bit_to_char: "i < 8 \<Longrightarrow> bit (to_char v) i = bit v i"
  by (cases "i = 7") (auto simp: to_char_def bit_signed_take_bit_iff min_def)

fun pack_loop :: "int list \<Rightarrow> nat \<Rightarrow> nat \<Rightarrow> nat \<Rightarrow> nat \<Rightarrow> int list \<Rightarrow> int list" where
  "pack_loop bitVector bitno 0 bufferbit bufferctr charVector = charVector"
| "pack_loop bitVector bitno (Suc n) bufferbit bufferctr charVector =
     (let (bufferbit, bufferctr) =
            (if bufferbit = 8 then (0, bufferctr + 1) else (bufferbit, bufferctr));
          charVector = charVector[bufferctr :=
            to_char (charVector ! bufferctr OR push_bit bufferbit (bitVector ! bitno AND 0xff))]
      in pack_loop bitVector (bitno + 1) n (bufferbit + 1) bufferctr charVector)"

definition packCharBuffer :: "int list \<Rightarrow> nat \<Rightarrow> int list \<Rightarrow> int list" where
  "packCharBuffer bitVector Nbits charVector =
     pack_loop bitVector 0 Nbits 0 0 (write_range 0 (\<lambda>_. 0) (Nbits div 8) charVector)"

fun unpack_loop :: "int list \<Rightarrow> nat \<Rightarrow> nat \<Rightarrow> nat \<Rightarrow> nat \<Rightarrow> nat \<Rightarrow> int \<Rightarrow> nat \<Rightarrow> int list \<Rightarrow> int list" where
  "unpack_loop buffer firstBit i 0 bitno bufferctr data k bitVector = bitVector"
| "unpack_loop buffer firstBit i (Suc n) bitno bufferctr data k bitVector =
     (let ival = data AND 0x01;
          data = drop_bit 1 data;
          bitno = bitno + 1;
          (bitno, bufferctr, data) =
            (if bitno = 8 then (0, bufferctr + 1, buffer ! (bufferctr + 1)) else (bitno, bufferctr, data));
          (k, bitVector) =
            (if firstBit \<le> i then (k + 1, bitVector[k := ival]) else (k, bitVector))
      in unpack_loop buffer firstBit (i + 1) n bitno bufferctr data k bitVector)"

definition unpackCharBuffer :: "int list \<Rightarrow> nat \<Rightarrow> nat \<Rightarrow> int list \<Rightarrow> int list" where
  "unpackCharBuffer buffer len firstBit bitVector =
     unpack_loop buffer firstBit 0 (firstBit + len) 0 0 (buffer ! 0) 0 bitVector"

lemma length_pack_loop [simp]: "length (pack_loop bs j n bb bc buf) = length buf"
  by (induction n arbitrary: j bb bc buf) (simp_all add: Let_def split: prod.splits)

lemma length_pack [simp]: "length (packCharBuffer bs n buf) = length buf"
  by (simp add: packCharBuffer_def)

lemma length_unpack_loop [simp]: "length (unpack_loop buf f i n b c d k v) = length v"
  by (induction n arbitrary: i b c d k v) (simp_all add: Let_def split: prod.splits)

definition is_bits :: "int list \<Rightarrow> bool" where
  "is_bits bs \<longleftrightarrow> list_all (\<lambda>b. b = 0 \<or> b = 1) bs"

lemma is_bits_nth: "is_bits bs \<Longrightarrow> i < length bs \<Longrightarrow> bs ! i = 0 \<or> bs ! i = 1"
  by (simp add: is_bits_def list_all_length)

text \<open>One step of the packing loop changes one bit of one byte.\<close>

lemma pack_step_bit:
  assumes "b = 0 \<or> b = 1" and "i < 8" and "bb < 8" and "c < length buf"
  shows "bit (buf[c := to_char (buf ! c OR push_bit bb (b AND 0xff))] ! k) i \<longleftrightarrow>
         bit (buf ! k) i \<or> k = c \<and> i = bb \<and> b = 1"
proof -
  have "b AND 0xff = b" using assms(1) by auto
  then have "bit (push_bit bb (b AND 0xff)) i \<longleftrightarrow> i = bb \<and> b = 1"
    using assms(1) by (auto simp: bit_push_bit_iff bit_1_iff)
  with assms show ?thesis
    by (cases "k = c") (auto simp: bit_to_char bit_or_iff simp del: push_bit_and)
qed

lemma pack_loop_bit:
  assumes "is_bits bs" and "j + n \<le> length bs" and "j = 8 * bc + bb" and "bb \<le> 8"
    and "j + n \<le> 8 * length buf" and "i < 8"
  shows "bit (pack_loop bs j n bb bc buf ! k) i \<longleftrightarrow>
         bit (buf ! k) i \<or> j \<le> 8 * k + i \<and> 8 * k + i < j + n \<and> bs ! (8 * k + i) = 1"
  using assms
proof (induction n arbitrary: j bb bc buf)
  case 0
  then show ?case by auto
next
  case (Suc n)
  define bb' bc' where "bb' = (if bb = 8 then 0 else bb)" and "bc' = (if bb = 8 then bc + 1 else bc)"
  have pos: "j = 8 * bc' + bb'" "bb' < 8" using Suc.prems by (auto simp: bb'_def bc'_def)
  let ?buf = "buf[bc' := to_char (buf ! bc' OR push_bit bb' (bs ! j AND 0xff))]"
  have "pack_loop bs j (Suc n) bb bc buf = pack_loop bs (j + 1) n (bb' + 1) bc' ?buf"
    by (simp add: bb'_def bc'_def Let_def)
  also have "bit (\<dots> ! k) i \<longleftrightarrow>
      bit (?buf ! k) i \<or> j + 1 \<le> 8 * k + i \<and> 8 * k + i < j + 1 + n \<and> bs ! (8 * k + i) = 1"
    using Suc.prems pos by (intro Suc.IH) auto
  also have "bit (?buf ! k) i \<longleftrightarrow> bit (buf ! k) i \<or> k = bc' \<and> i = bb' \<and> bs ! j = 1"
    using Suc.prems pos is_bits_nth[OF Suc.prems(1), of j] by (intro pack_step_bit) auto
  finally have "bit (pack_loop bs j (Suc n) bb bc buf ! k) i \<longleftrightarrow>
      (bit (buf ! k) i \<or> k = bc' \<and> i = bb' \<and> bs ! j = 1) \<or>
      j + 1 \<le> 8 * k + i \<and> 8 * k + i < j + 1 + n \<and> bs ! (8 * k + i) = 1" .
  moreover have "k = bc' \<and> i = bb' \<longleftrightarrow> 8 * k + i = j"
  proof -
    have "(8 * k + i) div 8 = k" "(8 * k + i) mod 8 = i" "j div 8 = bc'" "j mod 8 = bb'"
      using pos Suc.prems(6) by simp_all
    then show ?thesis using pos(1) by metis
  qed
  ultimately show ?case by auto
qed

lemma pack_bit:
  assumes "is_bits bs" and "n \<le> length bs" and "n \<le> 8 * length buf" and "i < 8" and "k < length buf"
    and "\<And>k. n div 8 \<le> k \<Longrightarrow> k < length buf \<Longrightarrow> buf ! k = 0"
  shows "bit (packCharBuffer bs n buf ! k) i \<longleftrightarrow> 8 * k + i < n \<and> bs ! (8 * k + i) = 1"
  using assms by (simp add: packCharBuffer_def pack_loop_bit nth_write_range not_less)

lemma unpack_loop_nth:
  assumes "i = 8 * c + b" and "b < 8" and "d = drop_bit b (buf ! c)"
    and "k = i - f" and "i + n - f \<le> length v" and "m < length v"
  shows "unpack_loop buf f i n b c d k v ! m =
     (if i - f \<le> m \<and> i \<le> f + m \<and> f + m < i + n
      then of_bool (bit (buf ! ((f + m) div 8)) ((f + m) mod 8)) else v ! m)"
  using assms
proof (induction n arbitrary: i b c d k v)
  case 0
  then show ?case by auto
next
  case (Suc n)
  define b' c' where "b' = (if b = 7 then 0 else b + 1)" and "c' = (if b = 7 then c + 1 else c)"
  define v' where "v' = (if f \<le> i then v[k := d AND 1] else v)"
  have "unpack_loop buf f i (Suc n) b c d k v =
        unpack_loop buf f (i + 1) n b' c' (drop_bit b' (buf ! c')) (i + 1 - f) v'"
    using Suc.prems
    by (auto simp: b'_def c'_def v'_def Let_def Suc_diff_le)
  also have "\<dots> ! m = (if i + 1 - f \<le> m \<and> i + 1 \<le> f + m \<and> f + m < i + 1 + n
      then of_bool (bit (buf ! ((f + m) div 8)) ((f + m) mod 8)) else v' ! m)"
    using Suc.prems by (intro Suc.IH) (auto simp: b'_def c'_def v'_def)
  also have "\<dots> = (if i - f \<le> m \<and> i \<le> f + m \<and> f + m < i + Suc n
      then of_bool (bit (buf ! ((f + m) div 8)) ((f + m) mod 8)) else v ! m)"
  proof (cases "f + m = i")
    case True
    have "d AND 1 = of_bool (bit (buf ! (i div 8)) (i mod 8))"
      using Suc.prems by (simp add: and_1_cases bit_drop_bit_eq)
    moreover have "k = m" "f \<le> i" using True Suc.prems by auto
    ultimately show ?thesis using True Suc.prems by (simp add: v'_def)
  next
    case False
    with Suc.prems show ?thesis by (auto simp: v'_def)
  qed
  finally show ?case .
qed

lemma unpack_nth:
  assumes "len \<le> length v" and "m < length v"
  shows "unpackCharBuffer buf len f v ! m =
     (if m < len then of_bool (bit (buf ! ((f + m) div 8)) ((f + m) mod 8)) else v ! m)"
  using assms by (simp add: unpackCharBuffer_def unpack_loop_nth)

lemma length_unpack [simp]: "length (unpackCharBuffer buf len f v) = length v"
  by (simp add: unpackCharBuffer_def)

lemma unpack_pack:
  assumes "is_bits bs" and "n \<le> length bs" and "n \<le> 8 * length buf"
    and "\<And>k. n div 8 \<le> k \<Longrightarrow> k < length buf \<Longrightarrow> buf ! k = 0"
    and "f + len \<le> n" and "len \<le> length v" and "m < len"
  shows "unpackCharBuffer (packCharBuffer bs n buf) len f v ! m = bs ! (f + m)"
proof -
  have "(f + m) div 8 < length buf" using assms(3,5,7) by auto
  then have "bit (packCharBuffer bs n buf ! ((f + m) div 8)) ((f + m) mod 8) \<longleftrightarrow> bs ! (f + m) = 1"
    using assms by (simp add: pack_bit)
  then show ?thesis
    using assms is_bits_nth[OF assms(1), of "f + m"] by (auto simp: unpack_nth)
qed

section \<open>Chains\<close>

definition MAX_NUM_FRAMES :: nat where "MAX_NUM_FRAMES = 8196"
definition MAX_BUFFER_SIZE :: nat where "MAX_BUFFER_SIZE = MAX_NUM_FRAMES div 8 + 1"
definition MAX_NUM_DEVICES :: nat where "MAX_NUM_DEVICES = 5"

definition jtagSourceBoot :: int where "jtagSourceBoot = 0"
definition jtagSourceFPGA :: int where "jtagSourceFPGA = 1"

definition ChainAlctSlowFpga :: int where "ChainAlctSlowFpga = 0x0"
definition ChainAlctSlowMezz :: int where "ChainAlctSlowMezz = 0x1"
definition ChainAlctFastFpga :: int where "ChainAlctFastFpga = 0x2"
definition ChainAlctFastMezz :: int where "ChainAlctFastMezz = 0x3"
definition ChainTmbMezz :: int where "ChainTmbMezz = 0x4"
definition ChainTmbUser :: int where "ChainTmbUser = 0x8"
definition ChainRat :: int where "ChainRat = 0xd"

lemmas chain_defs = ChainAlctSlowFpga_def ChainAlctSlowMezz_def ChainAlctFastFpga_def
  ChainAlctFastMezz_def ChainTmbMezz_def ChainTmbUser_def ChainRat_def

text \<open>The members of the class the JTAG and the XSVF code use.\<close>

record emujtag =
  jtag_chain :: int
  devices_in_chain :: nat
  bits_in_opcode :: "nat list"
  NumberChipsAlctFastMezz :: nat
  write_to_device :: bool
  register_length :: nat
  tdi_in_bits :: "int list"
  chip_tdo_in_bits :: "int list"
  tdi_in_bytes :: "int list"
  tdo_in_bytes :: "int list"
  tdo_mask_in_bytes :: "int list"
  which_user_prom :: int
  xsvf_image :: "int list"
  image_counter :: nat
  xdr_length :: int
  xruntest_time :: int
  xrepeat_times :: int
  NumberOfCommands :: "nat list"
  verify_error :: int

datatype scan_register = INSTR_REGISTER | DATA_REGISTER

text \<open>The calls on the \<^verbatim>\<open>TMB\<close>: a scan (register, bytes sent, number of frames, receive buffer, read
  back or not) gives the receive buffer back; \<^verbatim>\<open>start(device, source)\<close>, \<^verbatim>\<open>RestoreIdle\<close>, the two
  accesses to the bootstrap register, the sleep, and \<^verbatim>\<open>SetALCTOkVMEWriteAddress\<close>.\<close>

record 'h jtag_port =
  port_scan :: "scan_register \<Rightarrow> int list \<Rightarrow> nat \<Rightarrow> int list \<Rightarrow> bool \<Rightarrow> 'h \<Rightarrow> int list \<times> 'h"
  port_start :: "int \<Rightarrow> int \<Rightarrow> 'h \<Rightarrow> 'h"
  port_idle :: "'h \<Rightarrow> 'h"
  port_get_boot :: "'h \<Rightarrow> int \<times> 'h"
  port_set_boot :: "int \<Rightarrow> 'h \<Rightarrow> 'h"
  port_usleep :: "int \<Rightarrow> 'h \<Rightarrow> 'h"
  port_ok_vme :: "bool \<Rightarrow> 'h \<Rightarrow> 'h"

text \<open>The devices of a chain: the sizes of the opcodes of its chips, the device and the source given
  to \<^verbatim>\<open>start\<close>. The number of chips of the ALCT mezzanine chain is a member of the class; the third
  PROM entry is filled even when there are only two chips.\<close>

definition chain_of :: "int \<Rightarrow> nat \<Rightarrow> (nat \<times> nat list \<times> int \<times> int) option" where
  "chain_of chain fast_mezz =
     (if chain = ChainAlctSlowFpga then Some (1, [6], 6, jtagSourceFPGA)
      else if chain = ChainAlctSlowMezz then Some (1, [8], 7, jtagSourceFPGA)
      else if chain = ChainAlctFastFpga then Some (1, [5], 8, jtagSourceFPGA)
      else if chain = ChainAlctFastMezz then Some (fast_mezz, [5, 8, 8], 2, jtagSourceFPGA)
      else if chain = ChainTmbMezz then Some (5, [6, 8, 8, 8, 8], 3, jtagSourceBoot)
      else if chain = ChainTmbUser then Some (2, [8, 8], 4, jtagSourceFPGA)
      else if chain = ChainRat then Some (2, [5, 8], 10, jtagSourceFPGA)
      else None)"

definition setup_jtag :: "'h jtag_port \<Rightarrow> int \<Rightarrow> emujtag \<times> 'h \<Rightarrow> emujtag \<times> 'h" where
  "setup_jtag port chain s =
     (let (j, h) = s;
          h = (if write_to_device j
               then (let (boot, h) = port_get_boot port h in port_set_boot port (boot AND 0xff7f) h)
               else h);
          zeros = replicate MAX_NUM_DEVICES 0;
          j = j\<lparr>jtag_chain := chain, devices_in_chain := 0, bits_in_opcode := zeros\<rparr>;
          (j, h) =
            (case chain_of chain (NumberChipsAlctFastMezz j) of
               None \<Rightarrow> (j, h)
             | Some (n, sizes, dev, src) \<Rightarrow>
                 (j\<lparr>devices_in_chain := n, bits_in_opcode := sizes @ drop (length sizes) zeros\<rparr>,
                  if write_to_device j then port_start port dev src h else h));
          (j, h) =
            (if devices_in_chain j = 0 then (j\<lparr>jtag_chain := -1\<rparr>, h)
             else (j, if write_to_device j then port_idle port h else h))
      in (j\<lparr>register_length := 0\<rparr>, h))"

section \<open>Shifting into the instruction and data registers\<close>

definition clear_buffers :: "emujtag \<Rightarrow> emujtag" where
  "clear_buffers j = j\<lparr>tdi_in_bits := replicate MAX_NUM_FRAMES 0,
     chip_tdo_in_bits := replicate MAX_NUM_FRAMES 0,
     tdi_in_bytes := replicate MAX_BUFFER_SIZE 0, tdo_in_bytes := replicate MAX_BUFFER_SIZE 0\<rparr>"

text \<open>The frames are written from index 0 on.\<close>

definition put_frames :: "int list \<Rightarrow> emujtag \<Rightarrow> emujtag" where
  "put_frames frames j =
     (let bits = frames @ drop (length frames) (tdi_in_bits j)
      in j\<lparr>tdi_in_bits := bits, tdi_in_bytes := packCharBuffer bits (length frames) (tdi_in_bytes j)\<rparr>)"

definition opcode_bits :: "nat \<Rightarrow> int \<Rightarrow> nat \<Rightarrow> int \<Rightarrow> int list" where
  "opcode_bits n selected_chip ichip opcode =
     map (\<lambda>ibit. if int ichip = selected_chip then drop_bit ibit opcode AND 0x1 else 1) [0..<n]"

definition ir_frames :: "emujtag \<Rightarrow> int \<Rightarrow> int \<Rightarrow> int list" where
  "ir_frames j selected_chip opcode =
     concat (map (\<lambda>idevice. let ichip = devices_in_chain j - idevice - 1
                 in opcode_bits (bits_in_opcode j ! ichip) selected_chip ichip opcode)
               [0..<devices_in_chain j])"

definition ShfIR :: "'h jtag_port \<Rightarrow> int \<Rightarrow> int \<Rightarrow> emujtag \<times> 'h \<Rightarrow> emujtag \<times> 'h" where
  "ShfIR port selected_chip opcode s =
     (if jtag_chain (fst s) < 0 then s
      else let frames = ir_frames (fst s) selected_chip opcode;
               j = put_frames frames (clear_buffers (fst s))
           in if write_to_device j
              then let (tdo, h) = port_scan port INSTR_REGISTER (tdi_in_bytes j) (length frames)
                         (tdo_in_bytes j) False (snd s)
                   in (j\<lparr>tdo_in_bytes := tdo\<rparr>, h)
              else (j, snd s))"

text \<open>The loop over the devices gives the frames and the offset of the data of the selected chip.\<close>

definition dr_loop :: "nat \<Rightarrow> int \<Rightarrow> nat \<Rightarrow> int list \<Rightarrow> int list \<times> nat" where
  "dr_loop devices selected_chip len write_data =
     fold (\<lambda>idevice (frames, offset).
         if int (devices - idevice - 1) = selected_chip
         then (frames @ map (\<lambda>ibit. write_data ! ibit) [0..<len], length frames)
         else (frames @ [0], offset)) [0..<devices] ([], 0)"

definition ShfDR :: "'h jtag_port \<Rightarrow> int \<Rightarrow> nat \<Rightarrow> int list \<Rightarrow> emujtag \<times> 'h \<Rightarrow> emujtag \<times> 'h" where
  "ShfDR port selected_chip size_of_register write_data s =
     (if jtag_chain (fst s) < 0 then s
      else let j = clear_buffers ((fst s)\<lparr>register_length := size_of_register\<rparr>);
               (frames, offset) = dr_loop (devices_in_chain j) selected_chip (register_length j) write_data;
               j = put_frames frames j;
               (j, h) =
                 (if write_to_device j
                  then let (tdo, h) = port_scan port DATA_REGISTER (tdi_in_bytes j) (length frames)
                             (tdo_in_bytes j) True (snd s)
                       in (j\<lparr>tdo_in_bytes := tdo\<rparr>, h)
                  else (j, snd s))
           in (j\<lparr>chip_tdo_in_bits :=
                   unpackCharBuffer (tdo_in_bytes j) (register_length j) offset (chip_tdo_in_bits j)\<rparr>, h))"

definition ShfIR_ShfDR :: "'h jtag_port \<Rightarrow> int \<Rightarrow> int \<Rightarrow> nat \<Rightarrow> int list \<Rightarrow> emujtag \<times> 'h \<Rightarrow> emujtag \<times> 'h" where
  "ShfIR_ShfDR port selected_chip opcode size_of_register write_data s =
     (let s = ((fst s)\<lparr>write_to_device := True\<rparr>, port_ok_vme port True (snd s));
          s = ShfDR port selected_chip size_of_register write_data (ShfIR port selected_chip opcode s)
      in (fst s, port_ok_vme port False (snd s)))"

section \<open>The bits that are shifted\<close>

lemma length_opcode_bits [simp]: "length (opcode_bits n sel ichip opc) = n"
  by (simp add: opcode_bits_def)

lemma is_bits_append [simp]: "is_bits (xs @ ys) \<longleftrightarrow> is_bits xs \<and> is_bits ys"
  by (simp add: is_bits_def)

lemma is_bits_concat: "is_bits (concat xss) \<longleftrightarrow> list_all is_bits xss"
  by (induction xss) (simp_all add: is_bits_def)

lemma is_bits_replicate [simp]: "is_bits (replicate n 0)"
  by (simp add: is_bits_def list_all_length)

lemma is_bits_opcode [simp]: "is_bits (opcode_bits n sel ichip opc)"
  by (auto simp: is_bits_def opcode_bits_def list_all_iff drop_bit_AND_1)

lemma is_bits_ir: "is_bits (ir_frames j sel opc)"
  by (simp add: ir_frames_def is_bits_concat list_all_iff Let_def)

text \<open>The frames of a data scan: the data between the bypass bits of the chips behind and in front.\<close>

lemma dr_fold:
  fixes wd :: "int list"
  defines "step \<equiv> \<lambda>d sel (len::nat) idevice (frames, offset).
     if int (d - idevice - 1) = sel then (frames @ map (\<lambda>ibit. wd ! ibit) [0..<len], length frames)
     else (frames @ [0], offset::nat)"
  assumes "sel < d" and "k \<le> d"
  shows "fold (step d (int sel) len) [0..<k] ([], 0) =
    (if k \<le> d - sel - 1 then (replicate k 0, 0)
     else (replicate (d - sel - 1) 0 @ map (\<lambda>ibit. wd ! ibit) [0..<len] @ replicate (k - (d - sel)) 0,
           d - sel - 1))"
  using assms(3)
proof (induction k)
  case 0
  then show ?case by simp
next
  case (Suc k)
  have "int (d - k - 1) = int sel \<longleftrightarrow> k = d - sel - 1" using assms(2) Suc.prems by auto
  with Suc assms(2) show ?case
    by (auto simp: step_def replicate_append_same Suc_diff_le not_le)
qed

lemma dr_loop_eq:
  assumes "sel < d"
  shows "dr_loop d (int sel) len wd =
    (replicate (d - sel - 1) 0 @ map (\<lambda>ibit. wd ! ibit) [0..<len] @ replicate sel 0, d - sel - 1)"
  using dr_fold[OF assms order_refl, of wd len] assms by (simp add: dr_loop_def)

section \<open>A chain of shift registers\<close>

text \<open>The reference: the registers between TDI and TDO form one shift register, written with the bit
  nearest to TDO first. A clock takes one bit in and gives one bit out; a scan clocks the frames.\<close>

fun shift_through :: "int list \<Rightarrow> int list \<Rightarrow> int list \<times> int list" where
  "shift_through [] r = ([], r)"
| "shift_through (b # bs) r =
     (let (out, r') = shift_through bs (tl r @ [b]) in (hd r # out, r'))"

lemma shift_through_prefix: "shift_through bs (xs @ r) = (xs @ fst (shift_through (drop (length xs) bs) (r @ take (length xs) bs)),
    snd (shift_through (drop (length xs) bs) (r @ take (length xs) bs)))" if "length xs \<le> length bs"
  using that
proof (induction xs arbitrary: bs r)
  case Nil
  then show ?case by simp
next
  case (Cons x xs)
  then obtain b bs' where bs: "bs = b # bs'" by (cases bs) auto
  with Cons.IH[of bs' "r @ [b]"] Cons.prems show ?case by (simp add: split_beta)
qed

lemma shift_through_full: "length bs = length r \<Longrightarrow> shift_through bs r = (r, bs)"
  using shift_through_prefix[of r bs "[]"] by simp

definition frames_of :: "int list \<Rightarrow> nat \<Rightarrow> int list" where
  "frames_of bytes n = map (\<lambda>i. of_bool (bit (bytes ! (i div 8)) (i mod 8))) [0..<n]"

definition chain_scan :: "int list \<Rightarrow> nat \<Rightarrow> int list \<Rightarrow> int list \<Rightarrow> int list \<times> int list" where
  "chain_scan snd_bytes n rcv r =
     (let (out, r') = shift_through (frames_of snd_bytes n) r in (packCharBuffer out n rcv, r'))"

lemma frames_of_pack:
  assumes "is_bits bs" and "n \<le> length bs" and "n \<le> 8 * length buf"
    and "\<And>k. n div 8 \<le> k \<Longrightarrow> k < length buf \<Longrightarrow> buf ! k = 0"
  shows "frames_of (packCharBuffer bs n buf) n = take n bs"
proof (rule nth_equalityI)
  show "length (frames_of (packCharBuffer bs n buf) n) = length (take n bs)"
    using assms(2) by (simp add: frames_of_def)
next
  fix i assume "i < length (frames_of (packCharBuffer bs n buf) n)"
  then have i: "i < n" by (simp add: frames_of_def)
  then have "i div 8 < length buf" using assms(3) by auto
  then have "bit (packCharBuffer bs n buf ! (i div 8)) (i mod 8) \<longleftrightarrow> bs ! i = 1"
    using assms i by (simp add: pack_bit)
  then show "frames_of (packCharBuffer bs n buf) n ! i = take n bs ! i"
    using i is_bits_nth[OF assms(1), of i] assms(2) by (auto simp: frames_of_def)
qed

lemma put_frames_clear:
  assumes "is_bits frames" and "length frames \<le> MAX_NUM_FRAMES"
  shows "frames_of (tdi_in_bytes (put_frames frames (clear_buffers j))) (length frames) = frames"
proof -
  have "length frames \<le> 8 * MAX_BUFFER_SIZE"
    using assms(2) by (simp add: MAX_BUFFER_SIZE_def MAX_NUM_FRAMES_def)
  moreover have "is_bits (frames @ replicate (MAX_NUM_FRAMES - length frames) 0)" using assms by simp
  ultimately have "frames_of (packCharBuffer (frames @ replicate (MAX_NUM_FRAMES - length frames) 0)
      (length frames) (replicate MAX_BUFFER_SIZE 0)) (length frames) = frames"
    by (subst frames_of_pack) simp_all
  then show ?thesis by (simp add: put_frames_def clear_buffers_def Let_def)
qed

lemma chain_scan_full:
  assumes "frames_of snd_bytes n = frames" and "length frames = length r"
  shows "chain_scan snd_bytes n rcv r = (packCharBuffer r n rcv, frames)"
  using assms by (simp add: chain_scan_def shift_through_full)

lemma map_nth_take: "n \<le> length xs \<Longrightarrow> map (\<lambda>i. xs ! i) [0..<n] = take n xs"
  by (rule nth_equalityI) simp_all

lemma put_frames_simps [simp]:
  "jtag_chain (put_frames f j) = jtag_chain j" "devices_in_chain (put_frames f j) = devices_in_chain j"
  "write_to_device (put_frames f j) = write_to_device j" "register_length (put_frames f j) = register_length j"
  "tdo_in_bytes (put_frames f j) = tdo_in_bytes j" "chip_tdo_in_bits (put_frames f j) = chip_tdo_in_bits j"
  "bits_in_opcode (put_frames f j) = bits_in_opcode j" "xsvf_image (put_frames f j) = xsvf_image j"
  "image_counter (put_frames f j) = image_counter j" "xdr_length (put_frames f j) = xdr_length j"
  "which_user_prom (put_frames f j) = which_user_prom j"
  by (simp_all add: put_frames_def Let_def)

lemma clear_buffers_simps [simp]:
  "jtag_chain (clear_buffers j) = jtag_chain j" "devices_in_chain (clear_buffers j) = devices_in_chain j"
  "write_to_device (clear_buffers j) = write_to_device j" "register_length (clear_buffers j) = register_length j"
  "tdo_in_bytes (clear_buffers j) = replicate MAX_BUFFER_SIZE 0"
  "chip_tdo_in_bits (clear_buffers j) = replicate MAX_NUM_FRAMES 0"
  "bits_in_opcode (clear_buffers j) = bits_in_opcode j" "xsvf_image (clear_buffers j) = xsvf_image j"
  "image_counter (clear_buffers j) = image_counter j" "xdr_length (clear_buffers j) = xdr_length j"
  "which_user_prom (clear_buffers j) = which_user_prom j"
  by (simp_all add: clear_buffers_def)

lemma ShfDR_chain:
  assumes port: "\<And>bytes n rcv r. port_scan port DATA_REGISTER bytes n rcv True r = chain_scan bytes n rcv r"
    and j: "0 \<le> jtag_chain j" "write_to_device j" "sel < devices_in_chain j"
    and wd: "is_bits wd" "len \<le> length wd"
    and h: "is_bits h" "length h = devices_in_chain j - 1 + len" "length h \<le> MAX_NUM_FRAMES"
  shows "snd (ShfDR port (int sel) len wd (j, h)) =
      replicate (devices_in_chain j - sel - 1) 0 @ take len wd @ replicate sel 0"
    and "take len (chip_tdo_in_bits (fst (ShfDR port (int sel) len wd (j, h)))) =
      take len (drop (devices_in_chain j - sel - 1) h)"
proof -
  define d where "d = devices_in_chain j"
  define frames where "frames = replicate (d - sel - 1) 0 @ take len wd @ replicate sel (0::int)"
  have loop: "dr_loop d (int sel) len wd = (frames, d - sel - 1)"
    using dr_loop_eq[of sel d len wd] j(3) wd(2) by (simp add: frames_def d_def map_nth_take)
  have bits: "is_bits frames"
    using wd(1) by (auto simp: frames_def is_bits_def list_all_iff dest: in_set_takeD)
  have len: "length frames = length h"
    using wd(2) h(2) j(3) by (simp add: frames_def d_def)
  define j' where "j' = put_frames frames (clear_buffers (j\<lparr>register_length := len\<rparr>))"
  have fr: "frames_of (tdi_in_bytes j') (length frames) = frames"
    unfolding j'_def by (rule put_frames_clear[OF bits]) (use len h in simp)
  have tdo: "tdo_in_bytes j' = replicate MAX_BUFFER_SIZE 0" by (simp add: j'_def)
  have scan: "port_scan port DATA_REGISTER (tdi_in_bytes j') (length frames) (replicate MAX_BUFFER_SIZE 0) True h =
      (packCharBuffer h (length frames) (replicate MAX_BUFFER_SIZE 0), frames)"
    unfolding port by (rule chain_scan_full[OF fr len])
  have eq: "ShfDR port (int sel) len wd (j, h) =
      (j'\<lparr>tdo_in_bytes := packCharBuffer h (length frames) (replicate MAX_BUFFER_SIZE 0),
          chip_tdo_in_bits := unpackCharBuffer (packCharBuffer h (length frames) (replicate MAX_BUFFER_SIZE 0))
            len (d - sel - 1) (replicate MAX_NUM_FRAMES 0)\<rparr>, frames)"
    using j scan loop
    by (simp add: ShfDR_def Let_def not_less d_def j'_def)
  show "snd (ShfDR port (int sel) len wd (j, h)) =
      replicate (devices_in_chain j - sel - 1) 0 @ take len wd @ replicate sel 0"
    by (simp add: eq frames_def d_def)
  have read: "unpackCharBuffer (packCharBuffer h (length frames) (replicate MAX_BUFFER_SIZE 0))
      len (d - sel - 1) (replicate MAX_NUM_FRAMES 0) ! m = h ! (d - sel - 1 + m)" if "m < len" for m
    using that h j(3) len
    by (intro unpack_pack) (auto simp: MAX_BUFFER_SIZE_def MAX_NUM_FRAMES_def d_def)
  show "take len (chip_tdo_in_bits (fst (ShfDR port (int sel) len wd (j, h)))) =
      take len (drop (devices_in_chain j - sel - 1) h)"
    by (rule nth_equalityI)
      (use h j(3) in \<open>auto simp: eq read[unfolded d_def, simplified] d_def\<close>)
qed

lemma ShfIR_chain:
  assumes port: "\<And>bytes n rcv r. port_scan port INSTR_REGISTER bytes n rcv False r = (rcv, snd (chain_scan bytes n rcv r))"
    and j: "0 \<le> jtag_chain j" "write_to_device j"
    and h: "length h = length (ir_frames j sel opc)" "length h \<le> MAX_NUM_FRAMES"
  shows "snd (ShfIR port sel opc (j, h)) = ir_frames j sel opc"
proof -
  define j' where "j' = put_frames (ir_frames j sel opc) (clear_buffers j)"
  have "frames_of (tdi_in_bytes j') (length (ir_frames j sel opc)) = ir_frames j sel opc"
    unfolding j'_def by (rule put_frames_clear[OF is_bits_ir]) (use h in simp)
  then have "port_scan port INSTR_REGISTER (tdi_in_bytes j') (length (ir_frames j sel opc))
      (replicate MAX_BUFFER_SIZE 0) False h = (replicate MAX_BUFFER_SIZE 0, ir_frames j sel opc)"
    unfolding port using h(1) by (simp add: chain_scan_full)
  then show ?thesis using j by (simp add: ShfIR_def Let_def not_less j'_def)
qed

lemma map_rev_devices: "map (\<lambda>i. g (n - i - 1)) [0..<n] = map g (rev [0..<n])"
  by (rule nth_equalityI) (simp_all add: rev_nth)

lemma ir_frames_rev:
  "ir_frames j sel opc =
   concat (map (\<lambda>ichip. opcode_bits (bits_in_opcode j ! ichip) sel ichip opc) (rev [0..<devices_in_chain j]))"
  unfolding ir_frames_def Let_def
  using map_rev_devices[of "\<lambda>ichip. opcode_bits (bits_in_opcode j ! ichip) sel ichip opc" "devices_in_chain j"]
  by simp

text \<open>The buffers hold characters.\<close>

definition is_char :: "int \<Rightarrow> bool" where
  "is_char c \<longleftrightarrow> to_char c = c"

lemma to_char_byte [simp]: "to_char (to_char v AND 255) = to_char v"
proof (rule int_eq_by_bits)
  fix i
  have "bit (255 :: int) j \<longleftrightarrow> j < 8" for j
    using bit_mask_iff[of 8 j, where 'a = int] by (simp add: mask_eq_exp_minus_1)
  then show "bit (to_char (to_char v AND 255)) i = bit (to_char v) i"
    by (auto simp: to_char_def bit_signed_take_bit_iff bit_and_iff min_def)
qed

lemma is_char_byte: "is_char c \<Longrightarrow> to_char (c AND 255) = c"
  unfolding is_char_def by (metis to_char_byte)

lemma is_char_to_char [simp]: "is_char (to_char v)"
  by (simp add: is_char_def to_char_def)

lemma is_char_0 [simp]: "is_char 0"
  by (simp add: is_char_def to_char_def)

lemma chars_update: "list_all is_char buf \<Longrightarrow> list_all is_char (buf[c := to_char v])"
  by (auto simp: list_all_iff dest: set_update_subset_insert[THEN subsetD])

lemma chars_pack_loop:
  "list_all is_char buf \<Longrightarrow> list_all is_char (pack_loop bs j n bb bc buf)"
proof (induction n arbitrary: j bb bc buf)
  case 0
  then show ?case by simp
next
  case (Suc n)
  show ?case
    unfolding pack_loop.simps Let_def
    by (auto intro!: Suc.IH chars_update[OF Suc.prems] split: prod.split)
qed

lemma chars_pack:
  "list_all is_char buf \<Longrightarrow> list_all is_char (packCharBuffer bs n buf)"
  unfolding packCharBuffer_def
  by (intro chars_pack_loop) (auto simp: list_all_length nth_write_range)

lemma char_bit: "is_char a \<Longrightarrow> bit a i = bit a (min 7 i)"
proof -
  assume "is_char a"
  moreover have "bit (to_char a) i = bit (to_char a) (min 7 i)"
    by (simp add: to_char_def bit_signed_take_bit_iff min_def)
  ultimately show ?thesis by (simp add: is_char_def)
qed

section \<open>Properties\<close>

text \<open>A chain of shift registers as the board, for concrete examples.\<close>

definition chain_port :: "int list jtag_port" where
  "chain_port = \<lparr>port_scan = (\<lambda>reg bytes n rcv ird r.
       if ird then chain_scan bytes n rcv r else (rcv, snd (chain_scan bytes n rcv r))),
     port_start = (\<lambda>dev src r. r), port_idle = (\<lambda>r. r), port_get_boot = (\<lambda>r. (0, r)),
     port_set_boot = (\<lambda>v r. r), port_usleep = (\<lambda>t r. r), port_ok_vme = (\<lambda>b r. r)\<rparr>"

definition blank_jtag :: emujtag where
  "blank_jtag = \<lparr>jtag_chain = -1, devices_in_chain = 0, bits_in_opcode = [0, 0, 0, 0, 0],
     NumberChipsAlctFastMezz = 2, write_to_device = True, register_length = 0,
     tdi_in_bits = replicate MAX_NUM_FRAMES 0, chip_tdo_in_bits = replicate MAX_NUM_FRAMES 0,
     tdi_in_bytes = replicate MAX_BUFFER_SIZE 0, tdo_in_bytes = replicate MAX_BUFFER_SIZE 0,
     tdo_mask_in_bytes = replicate MAX_BUFFER_SIZE 0, which_user_prom = -1, xsvf_image = [],
     image_counter = 0, xdr_length = 0, xruntest_time = 0, xrepeat_times = 0,
     NumberOfCommands = replicate 23 0, verify_error = 0\<rparr>"



text \<open>C12. A data scan reaches the selected chip and no other: on a chain whose other chips are in
  bypass, \<^verbatim>\<open>ShfDR_\<close> leaves the written bits in the register of the chip and zeros in the bypass
  bits, and returns what the register of the chip held before.\<close>

theorem data_register_scan:
  assumes "\<And>bytes n rcv r. port_scan port DATA_REGISTER bytes n rcv True r = chain_scan bytes n rcv r"
    and "0 \<le> jtag_chain j" and "write_to_device j"
    and "devices_in_chain j = front + 1 + behind"
    and "is_bits wd" and "length wd = length old"
    and "is_bits (byp @ old @ byp')" and "length byp = behind" and "length byp' = front"
    and "front + length old + behind \<le> MAX_NUM_FRAMES"
  shows "case ShfDR port (int front) (length old) wd (j, byp @ old @ byp') of (j', chain) \<Rightarrow>
     chain = replicate behind 0 @ wd @ replicate front 0 \<and>
     take (length old) (chip_tdo_in_bits j') = old"
  using ShfDR_chain[of port j front wd "length old" "byp @ old @ byp'"] assms
  by (simp add: split_beta)

theorem data_register_scan_witness:
  "case ShfDR chain_port 0 3 [1, 0, 1] (blank_jtag\<lparr>jtag_chain := 8, devices_in_chain := 2\<rparr>, [1, 0, 1, 1]) of
     (j', chain) \<Rightarrow> chain = [0, 1, 0, 1] \<and> take 3 (chip_tdo_in_bits j') = [0, 1, 1]"
  using data_register_scan[of chain_port "blank_jtag\<lparr>jtag_chain := 8, devices_in_chain := 2\<rparr>" 0 1
      "[1, 0, 1]" "[0, 1, 1]" "[1]" "[]"]
  by (simp add: chain_port_def blank_jtag_def is_bits_def MAX_NUM_FRAMES_def numeral_3_eq_3)

text \<open>C13. An instruction scan puts the opcode into the selected chip and BYPASS (all ones) into every
  other chip of the chain; the chips are written from the last one to the first.\<close>

theorem instruction_register_scan:
  assumes "\<And>bytes n rcv r. port_scan port INSTR_REGISTER bytes n rcv False r = (rcv, snd (chain_scan bytes n rcv r))"
    and "0 \<le> jtag_chain j" and "write_to_device j"
    and "length chain = sum_list (map (\<lambda>i. bits_in_opcode j ! i) [0..<devices_in_chain j])"
    and "length chain \<le> MAX_NUM_FRAMES"
  shows "snd (ShfIR port (int sel) opcode (j, chain)) =
     concat (map (\<lambda>i. if i = sel
                      then map (\<lambda>b. drop_bit b opcode AND 1) [0..<bits_in_opcode j ! i]
                      else replicate (bits_in_opcode j ! i) 1) (rev [0..<devices_in_chain j]))"
proof -
  have len: "length (ir_frames j (int sel) opcode) = length chain"
    using assms(4) by (simp add: ir_frames_rev length_concat comp_def rev_map[symmetric] sum_list_rev)
  have "snd (ShfIR port (int sel) opcode (j, chain)) = ir_frames j (int sel) opcode"
    using assms len by (intro ShfIR_chain) auto
  also have "\<dots> = concat (map (\<lambda>i. if i = sel
                      then map (\<lambda>b. drop_bit b opcode AND 1) [0..<bits_in_opcode j ! i]
                      else replicate (bits_in_opcode j ! i) 1) (rev [0..<devices_in_chain j]))"
    unfolding ir_frames_rev
    by (intro arg_cong[where f = concat] map_cong refl) (simp add: opcode_bits_def map_replicate_trivial)
  finally show ?thesis .
qed

theorem instruction_register_scan_witness:
  "snd (ShfIR chain_port 1 0xE8 (blank_jtag\<lparr>jtag_chain := 8, devices_in_chain := 2,
       bits_in_opcode := [8, 8, 0, 0, 0]\<rparr>, replicate 16 0)) = [0, 0, 0, 1, 0, 1, 1, 1, 1, 1, 1, 1, 1, 1, 1, 1]"
proof -
  let ?j = "blank_jtag\<lparr>jtag_chain := 8, devices_in_chain := 2, bits_in_opcode := [8, 8, 0, 0, 0]\<rparr>"
  have "snd (ShfIR chain_port (int 1) 0xE8 (?j, replicate 16 0)) =
     concat (map (\<lambda>i. if i = 1 then map (\<lambda>b. drop_bit b 0xE8 AND 1) [0..<bits_in_opcode ?j ! i]
                      else replicate (bits_in_opcode ?j ! i) 1) (rev [0..<devices_in_chain ?j]))"
    by (rule instruction_register_scan)
      (simp_all add: chain_port_def blank_jtag_def MAX_NUM_FRAMES_def upt_rec)
  moreover have "replicate 8 (1 :: int) = [1, 1, 1, 1, 1, 1, 1, 1]" by (simp add: numeral_eq_Suc)
  ultimately show ?thesis by (simp add: blank_jtag_def upt_rec)
qed

end
