(* ===== verification/Xsvf.thy ===== *)
theory Xsvf
  imports Jtag
begin

text \<open>
  The XSVF files of \<^verbatim>\<open>EMUjtag.cc\<close>: the \<^verbatim>\<open>WriteX...\<close> routines that append commands to the image, and
  \<^verbatim>\<open>DecodeXsvfImage_\<close> with its \<^verbatim>\<open>ParseX...\<close> routines that read the image and drive the chain. A call
  of a writing routine is a value of type \<open>xcmd\<close>; \<open>write_cmd\<close> is the routine it names.

  Not modelled: the log file, the disk files, and printing.
\<close>

unbundle bit_operations_syntax

definition XCOMPLETE :: int where "XCOMPLETE = 0x00"
definition XTDOMASK :: int where "XTDOMASK = 0x01"
definition XSIR :: int where "XSIR = 0x02"
definition XRUNTEST :: int where "XRUNTEST = 0x04"
definition XREPEAT :: int where "XREPEAT = 0x07"
definition XSDRSIZE :: int where "XSDRSIZE = 0x08"
definition XSDRTDO :: int where "XSDRTDO = 0x09"
definition XSTATE :: int where "XSTATE = 0x12"
definition NUMBER_OF_DIFFERENT_XSVF_COMMANDS :: nat where "NUMBER_OF_DIFFERENT_XSVF_COMMANDS = 23"
definition MAX_XSVF_IMAGE_NUMBER :: nat where "MAX_XSVF_IMAGE_NUMBER = 13 * 1024 * 1024"

lemmas xsvf_codes = XCOMPLETE_def XTDOMASK_def XSIR_def XRUNTEST_def XREPEAT_def XSDRSIZE_def
  XSDRTDO_def XSTATE_def

section \<open>Writing\<close>

definition SetWriteXsvfImage :: "int \<Rightarrow> emujtag \<Rightarrow> emujtag" where
  "SetWriteXsvfImage value j =
     j\<lparr>xsvf_image := xsvf_image j @ [to_char (value AND 0xff)], image_counter := image_counter j + 1\<rparr>"

text \<open>\<^verbatim>\<open>(n-1)/8+1\<close> in C: the quotient is truncated towards zero.\<close>

definition bytes_for :: "int \<Rightarrow> nat" where
  "bytes_for n = nat ((n - 1) sdiv 8 + 1)"

definition put_tdi_bytes :: "nat \<Rightarrow> emujtag \<Rightarrow> emujtag" where
  "put_tdi_bytes number_of_bytes j =
     fold (\<lambda>byte. SetWriteXsvfImage (tdi_in_bytes j ! byte)) (rev [0..<number_of_bytes]) j"

definition put_int4 :: "int \<Rightarrow> emujtag \<Rightarrow> emujtag" where
  "put_int4 v j = fold (\<lambda>byte. SetWriteXsvfImage (drop_bit (byte * 8) v AND 0xff)) (rev [0..<4]) j"

definition SumOpcodeBits :: "emujtag \<Rightarrow> nat" where
  "SumOpcodeBits j = (\<Sum>idevice\<leftarrow>[0..<devices_in_chain j]. bits_in_opcode j ! idevice)"

definition WriteXSIR :: "'h jtag_port \<Rightarrow> int \<Rightarrow> emujtag \<times> 'h \<Rightarrow> emujtag \<times> 'h" where
  "WriteXSIR port opcode s =
     (let j = SetWriteXsvfImage XSIR (fst s);
          number_of_bits = SumOpcodeBits j;
          j = SetWriteXsvfImage (int number_of_bits) j;
          (j, h) = ShfIR port (which_user_prom j) opcode (j, snd s)
      in (put_tdi_bytes (bytes_for (int number_of_bits)) j, h))"

definition WriteXTDOMASK :: "'h jtag_port \<Rightarrow> nat \<Rightarrow> int list \<Rightarrow> emujtag \<times> 'h \<Rightarrow> emujtag \<times> 'h" where
  "WriteXTDOMASK port n mask_bits s =
     (let j = SetWriteXsvfImage XTDOMASK (fst s);
          (j, h) = ShfDR port (which_user_prom j) n mask_bits (j, snd s)
      in (put_tdi_bytes (bytes_for (xdr_length j)) j, h))"

definition WriteXSDRTDO :: "'h jtag_port \<Rightarrow> nat \<Rightarrow> int list \<Rightarrow> int list \<Rightarrow> emujtag \<times> 'h \<Rightarrow> emujtag \<times> 'h" where
  "WriteXSDRTDO port n tdi_bits tdo_bits s =
     (let j = SetWriteXsvfImage XSDRTDO (fst s);
          number_of_bytes = bytes_for (xdr_length j);
          (j, h) = ShfDR port (which_user_prom j) n tdi_bits (j, snd s);
          j = put_tdi_bytes number_of_bytes j;
          (j, h) = ShfDR port (which_user_prom j) n tdo_bits (j, h)
      in (put_tdi_bytes number_of_bytes j, h))"

definition WriteXRUNTEST :: "int \<Rightarrow> emujtag \<Rightarrow> emujtag" where
  "WriteXRUNTEST length_of_time j = put_int4 length_of_time (SetWriteXsvfImage XRUNTEST j)"

definition WriteXSDRSIZE :: "nat \<Rightarrow> emujtag \<Rightarrow> emujtag" where
  "WriteXSDRSIZE n j =
     (let j = SetWriteXsvfImage XSDRSIZE j;
          bits_in_excess_of_dr = int (devices_in_chain j) - 1;
          j = j\<lparr>xdr_length := int n + bits_in_excess_of_dr\<rparr>
      in put_int4 (xdr_length j) j)"

definition WriteXREPEAT :: "int \<Rightarrow> emujtag \<Rightarrow> emujtag" where
  "WriteXREPEAT number_of_times j = SetWriteXsvfImage number_of_times (SetWriteXsvfImage XREPEAT j)"

definition WriteXCOMPLETE :: "emujtag \<Rightarrow> emujtag" where
  "WriteXCOMPLETE j = SetWriteXsvfImage XCOMPLETE j"

definition WriteXSTATE :: "int \<Rightarrow> emujtag \<Rightarrow> emujtag" where
  "WriteXSTATE state j = SetWriteXsvfImage state (SetWriteXsvfImage XSTATE j)"

datatype xcmd =
    XSir int
  | XTdoMask nat "int list"
  | XSdrTdo nat "int list" "int list"
  | XRunTest int
  | XSdrSize nat
  | XRepeat int
  | XState int
  | XComplete

fun write_cmd :: "'h jtag_port \<Rightarrow> xcmd \<Rightarrow> emujtag \<times> 'h \<Rightarrow> emujtag \<times> 'h" where
  "write_cmd port (XSir opcode) s = WriteXSIR port opcode s"
| "write_cmd port (XTdoMask n m) s = WriteXTDOMASK port n m s"
| "write_cmd port (XSdrTdo n tdi tdo) s = WriteXSDRTDO port n tdi tdo s"
| "write_cmd port (XRunTest t) s = (WriteXRUNTEST t (fst s), snd s)"
| "write_cmd port (XSdrSize n) s = (WriteXSDRSIZE n (fst s), snd s)"
| "write_cmd port (XRepeat n) s = (WriteXREPEAT n (fst s), snd s)"
| "write_cmd port (XState st) s = (WriteXSTATE st (fst s), snd s)"
| "write_cmd port XComplete s = (WriteXCOMPLETE (fst s), snd s)"

section \<open>Reading\<close>

text \<open>\<^verbatim>\<open>xsvf_image_.at\<close> throws beyond the end of the image; an index outside the table of commands is
  a write outside an array.\<close>

datatype xsvf_error = Out_of_range | Array_overrun

definition xbind :: "'e + 'a \<Rightarrow> ('a \<Rightarrow> 'e + 'b) \<Rightarrow> 'e + 'b" where
  "xbind m f = (case m of Inl e \<Rightarrow> Inl e | Inr a \<Rightarrow> f a)"

lemma xbind_simps [simp]: "xbind (Inl e) f = Inl e" "xbind (Inr a) f = f a"
  by (simp_all add: xbind_def)

definition GetReadXsvfImage :: "emujtag \<Rightarrow> xsvf_error + int \<times> emujtag" where
  "GetReadXsvfImage j =
     (if image_counter j < length (xsvf_image j)
      then Inr (xsvf_image j ! image_counter j, j\<lparr>image_counter := image_counter j + 1\<rparr>)
      else Inl Out_of_range)"

text \<open>The bytes of a buffer from index \<open>n - 1\<close> down to 0.\<close>

fun read_down :: "nat \<Rightarrow> int list \<Rightarrow> emujtag \<Rightarrow> xsvf_error + int list \<times> emujtag" where
  "read_down 0 buf j = Inr (buf, j)"
| "read_down (Suc byte) buf j =
     xbind (GetReadXsvfImage j)
       (\<lambda>(v, j). read_down byte (buf[byte := to_char (v AND 0xff)]) j)"

fun read_int4 :: "nat \<Rightarrow> int \<Rightarrow> emujtag \<Rightarrow> xsvf_error + int \<times> emujtag" where
  "read_int4 0 acc j = Inr (acc, j)"
| "read_int4 (Suc i) acc j =
     xbind (GetReadXsvfImage j)
       (\<lambda>(v, j). read_int4 i (acc OR signed_take_bit 31 (push_bit (8 * i) (v AND 0xff))) j)"

definition ParseXCOMPLETE :: "emujtag \<Rightarrow> emujtag" where
  "ParseXCOMPLETE j =
     (if 1 < NumberOfCommands j ! nat XCOMPLETE then j\<lparr>image_counter := MAX_XSVF_IMAGE_NUMBER\<rparr> else j)"

definition ParseXTDOMASK :: "emujtag \<Rightarrow> xsvf_error + emujtag" where
  "ParseXTDOMASK j =
     (let zeros = replicate MAX_BUFFER_SIZE 0;
          j = j\<lparr>tdo_mask_in_bytes := zeros\<rparr>;
          number_of_bytes = bytes_for (xdr_length j)
      in if MAX_BUFFER_SIZE < number_of_bytes
         then Inr (j\<lparr>image_counter := MAX_XSVF_IMAGE_NUMBER\<rparr>)
         else xbind (read_down number_of_bytes zeros j)
                (\<lambda>(buf, j). Inr (j\<lparr>tdo_mask_in_bytes := buf\<rparr>)))"

definition ParseXSIR :: "'h jtag_port \<Rightarrow> emujtag \<times> 'h \<Rightarrow> xsvf_error + emujtag \<times> 'h" where
  "ParseXSIR port s =
     (let zeros = replicate MAX_BUFFER_SIZE 0;
          j = (fst s)\<lparr>tdi_in_bytes := zeros, tdo_in_bytes := zeros\<rparr>
      in xbind (GetReadXsvfImage j) (\<lambda>(v, j).
         let number_of_bits = v AND 0xff
         in xbind (read_down (bytes_for number_of_bits) zeros j) (\<lambda>(buf, j).
            let j = j\<lparr>tdi_in_bytes := buf\<rparr>
            in if write_to_device j
               then let (tdo, h) = port_scan port INSTR_REGISTER buf (nat number_of_bits) (tdo_in_bytes j)
                          False (snd s)
                    in Inr (j\<lparr>tdo_in_bytes := tdo\<rparr>, port_usleep port (xruntest_time j) h)
               else Inr (j, snd s))))"

definition ParseXRUNTEST :: "emujtag \<Rightarrow> xsvf_error + emujtag" where
  "ParseXRUNTEST j = xbind (read_int4 4 0 (j\<lparr>xruntest_time := 0\<rparr>)) (\<lambda>(v, j). Inr (j\<lparr>xruntest_time := v\<rparr>))"

definition ParseXREPEAT :: "emujtag \<Rightarrow> xsvf_error + emujtag" where
  "ParseXREPEAT j = xbind (GetReadXsvfImage j) (\<lambda>(v, j). Inr (j\<lparr>xrepeat_times := v AND 0xff\<rparr>))"

definition ParseXSDRSIZE :: "emujtag \<Rightarrow> xsvf_error + emujtag" where
  "ParseXSDRSIZE j = xbind (read_int4 4 0 (j\<lparr>xdr_length := 0\<rparr>)) (\<lambda>(v, j). Inr (j\<lparr>xdr_length := v\<rparr>))"

text \<open>Bytes of the answer that differ from the expected ones in a bit of the mask.\<close>

definition tdo_errors :: "nat \<Rightarrow> int list \<Rightarrow> int list \<Rightarrow> int list \<Rightarrow> int" where
  "tdo_errors number_of_bytes tdo expected mask_bytes =
     int (length (filter (\<lambda>byte. tdo ! byte AND mask_bytes ! byte \<noteq> expected ! byte AND mask_bytes ! byte)
       [0..<number_of_bytes]))"

definition ParseXSDRTDO :: "'h jtag_port \<Rightarrow> emujtag \<times> 'h \<Rightarrow> xsvf_error + emujtag \<times> 'h" where
  "ParseXSDRTDO port s =
     (let zeros = replicate MAX_BUFFER_SIZE 0;
          j = (fst s)\<lparr>tdi_in_bytes := zeros, tdo_in_bytes := zeros\<rparr>;
          number_of_bytes = bytes_for (xdr_length j)
      in if MAX_BUFFER_SIZE < number_of_bytes
         then Inr (j\<lparr>image_counter := MAX_XSVF_IMAGE_NUMBER\<rparr>, snd s)
         else xbind (read_down number_of_bytes zeros j) (\<lambda>(buf, j).
              let j = j\<lparr>tdi_in_bytes := buf\<rparr>
              in xbind (read_down number_of_bytes zeros j) (\<lambda>(tdo_expected, j).
              if write_to_device j
              then let read_back_tdo = list_ex (\<lambda>byte. tdo_mask_in_bytes j ! byte \<noteq> 0) [0..<number_of_bytes];
                       (tdo, h) = port_scan port DATA_REGISTER buf (nat (xdr_length j)) (tdo_in_bytes j)
                          read_back_tdo (snd s)
                   in Inr (j\<lparr>tdo_in_bytes := tdo,
                            verify_error := verify_error j +
                              tdo_errors number_of_bytes tdo tdo_expected (tdo_mask_in_bytes j)\<rparr>,
                           port_usleep port (xruntest_time j) h)
              else Inr (j, snd s))))"

definition ParseXSTATE :: "'h jtag_port \<Rightarrow> emujtag \<times> 'h \<Rightarrow> xsvf_error + emujtag \<times> 'h" where
  "ParseXSTATE port s =
     xbind (GetReadXsvfImage (fst s)) (\<lambda>(v, j).
       Inr (j, if write_to_device j
               then (port_idle port ^^ nat (xrepeat_times j + 1)) (snd s) else snd s))"

definition keep_h :: "'h \<Rightarrow> xsvf_error + emujtag \<Rightarrow> xsvf_error + emujtag \<times> 'h" where
  "keep_h h m = xbind m (\<lambda>j. Inr (j, h))"

definition parse_command :: "'h jtag_port \<Rightarrow> int \<Rightarrow> emujtag \<times> 'h \<Rightarrow> xsvf_error + emujtag \<times> 'h" where
  "parse_command port command s =
     (if command = XCOMPLETE then Inr (ParseXCOMPLETE (fst s), snd s)
      else if command = XTDOMASK then keep_h (snd s) (ParseXTDOMASK (fst s))
      else if command = XSIR then ParseXSIR port s
      else if command = XRUNTEST then keep_h (snd s) (ParseXRUNTEST (fst s))
      else if command = XREPEAT then keep_h (snd s) (ParseXREPEAT (fst s))
      else if command = XSDRSIZE then keep_h (snd s) (ParseXSDRSIZE (fst s))
      else if command = XSDRTDO then ParseXSDRTDO port s
      else if command = XSTATE then ParseXSTATE port s
      else Inr s)"

text \<open>One turn of the loop of \<^verbatim>\<open>DecodeXsvfImage_\<close>: the flag says whether it goes on. A command above
  the number of commands ends the decoding; the table of counts has one entry less than the test
  admits, and a byte above 127 is negative.\<close>

definition decode_step :: "'h jtag_port \<Rightarrow> emujtag \<times> 'h \<Rightarrow> xsvf_error + bool \<times> emujtag \<times> 'h" where
  "decode_step port s =
     xbind (GetReadXsvfImage (fst s)) (\<lambda>(command, j).
       if int NUMBER_OF_DIFFERENT_XSVF_COMMANDS < command then Inr (False, j, snd s)
       else if command < 0 \<or> command = int NUMBER_OF_DIFFERENT_XSVF_COMMANDS then Inl Array_overrun
       else let k = nat command;
                j = j\<lparr>NumberOfCommands := (NumberOfCommands j)[k := NumberOfCommands j ! k + 1]\<rparr>
            in xbind (parse_command port command (j, snd s)) (\<lambda>s. Inr (True, s)))"

partial_function (option) decode_loop ::
  "'h jtag_port \<Rightarrow> nat \<Rightarrow> emujtag \<times> 'h \<Rightarrow> (xsvf_error + emujtag \<times> 'h) option" where
  "decode_loop port number_of_read_bytes s =
     (if image_counter (fst s) < number_of_read_bytes
      then (case decode_step port s of
              Inl e \<Rightarrow> Some (Inl e)
            | Inr (goes_on, s') \<Rightarrow>
                if goes_on then decode_loop port number_of_read_bytes s' else Some (Inr s'))
      else Some (Inr s))"

definition DecodeXsvfImage ::
  "'h jtag_port \<Rightarrow> nat \<Rightarrow> emujtag \<times> 'h \<Rightarrow> (xsvf_error + emujtag \<times> 'h) option" where
  "DecodeXsvfImage port number_of_read_bytes s =
     decode_loop port number_of_read_bytes
       ((fst s)\<lparr>NumberOfCommands := replicate NUMBER_OF_DIFFERENT_XSVF_COMMANDS 0, image_counter := 0\<rparr>, snd s)"

section \<open>What a command puts into the image\<close>

definition pack_frames :: "int list \<Rightarrow> int list" where
  "pack_frames frames = packCharBuffer (frames @ replicate (MAX_NUM_FRAMES - length frames) 0)
     (length frames) (replicate MAX_BUFFER_SIZE 0)"

lemma tdi_in_bytes_put: "tdi_in_bytes (put_frames frames (clear_buffers j)) = pack_frames frames"
  by (simp add: put_frames_def clear_buffers_def pack_frames_def Let_def drop_replicate)

lemma length_pack_frames [simp]: "length (pack_frames frames) = MAX_BUFFER_SIZE"
  by (simp add: pack_frames_def)

lemma chars_pack_frames: "list_all is_char (pack_frames frames)"
  unfolding pack_frames_def by (rule chars_pack) (simp add: list_all_length)

text \<open>Beyond the bytes of the frames the buffer is zero.\<close>

lemma char_eq_by_bits:
  assumes "is_char a" and "is_char b" and eq: "\<And>i. i < 8 \<Longrightarrow> bit a i = bit b i"
  shows "a = b"
proof (rule int_eq_by_bits)
  fix i
  have "min 7 i < 8" for i :: nat by simp
  then have "bit a (min 7 i) = bit b (min 7 i)" by (rule eq)
  then show "bit a i = bit b i" using char_bit[OF assms(1)] char_bit[OF assms(2)] by simp
qed

lemma bytes_for_nat: "bytes_for (int (Suc n)) = n div 8 + 1"
proof -
  have "(int (Suc n) - 1) sdiv 8 = int n div 8"
    by (cases n) (simp_all add: signed_divide_int_def)
  then show ?thesis by (simp add: bytes_for_def nat_add_distrib nat_div_distrib)
qed

lemma pack_frames_tail:
  assumes "is_bits frames" and "length frames = n" and "0 < n" and "n \<le> MAX_NUM_FRAMES"
  shows "drop (bytes_for (int n)) (pack_frames frames) = replicate (MAX_BUFFER_SIZE - bytes_for (int n)) 0"
proof (rule nth_equalityI)
  show "length (drop (bytes_for (int n)) (pack_frames frames)) =
        length (replicate (MAX_BUFFER_SIZE - bytes_for (int n)) (0::int))" by simp
next
  fix i assume i: "i < length (drop (bytes_for (int n)) (pack_frames frames))"
  let ?k = "bytes_for (int n) + i"
  have k: "?k < MAX_BUFFER_SIZE" using i by simp
  obtain m where m: "n = Suc m" using assms(3) by (cases n) auto
  have "\<not> 8 * ?k + b < n" for b unfolding m bytes_for_nat by simp
  moreover have "n \<le> 8 * MAX_BUFFER_SIZE" using assms(4) by (simp add: MAX_BUFFER_SIZE_def MAX_NUM_FRAMES_def)
  ultimately have "\<not> bit (pack_frames frames ! ?k) b" if "b < 8" for b
    using assms k that unfolding pack_frames_def
    by (subst pack_bit) simp_all
  moreover have "is_char (pack_frames frames ! ?k)"
    using chars_pack_frames k by (simp add: list_all_length)
  ultimately have "pack_frames frames ! ?k = 0"
    by (intro char_eq_by_bits) simp_all
  then show "drop (bytes_for (int n)) (pack_frames frames) ! i =
      replicate (MAX_BUFFER_SIZE - bytes_for (int n)) 0 ! i"
    using k by simp
qed

lemma fold_SetWrite:
  "fold (\<lambda>b. SetWriteXsvfImage (f b)) bs j =
   j\<lparr>xsvf_image := xsvf_image j @ map (\<lambda>b. to_char (f b AND 0xff)) bs,
     image_counter := image_counter j + length bs\<rparr>"
  by (induction bs arbitrary: j) (simp_all add: SetWriteXsvfImage_def)

lemma map_nth_chars:
  assumes "list_all is_char bytes" and "n \<le> length bytes"
  shows "map (\<lambda>b. to_char (bytes ! b AND 0xff)) (rev [0..<n]) = rev (take n bytes)"
proof -
  have "map (\<lambda>b. to_char (bytes ! b AND 0xff)) [0..<n] = take n bytes"
    by (rule nth_equalityI) (use assms in \<open>simp_all add: list_all_length is_char_byte\<close>)
  then show ?thesis by (metis rev_map)
qed

lemma put_tdi_bytes_image:
  assumes "tdi_in_bytes j = pack_frames frames" and "nb \<le> MAX_BUFFER_SIZE"
  shows "put_tdi_bytes nb j =
    j\<lparr>xsvf_image := xsvf_image j @ rev (take nb (pack_frames frames)),
      image_counter := image_counter j + nb\<rparr>"
  using assms map_nth_chars[OF chars_pack_frames, of nb frames]
  by (simp add: put_tdi_bytes_def fold_SetWrite)

definition int4_bytes :: "int \<Rightarrow> int list" where
  "int4_bytes v = map (\<lambda>byte. to_char (drop_bit (byte * 8) v AND 0xff)) [3, 2, 1, 0]"

lemma put_int4_image:
  "put_int4 v j = j\<lparr>xsvf_image := xsvf_image j @ int4_bytes v, image_counter := image_counter j + 4\<rparr>"
  unfolding put_int4_def fold_SetWrite int4_bytes_def by (simp add: upt_rec and.assoc)

text \<open>The configuration of the chain, which the writing routines leave alone.\<close>

record chain_cfg =
  c_devices :: nat
  c_opcodes :: "nat list"
  c_chip :: nat

definition ir_of :: "chain_cfg \<Rightarrow> int \<Rightarrow> int list" where
  "ir_of c opcode =
     concat (map (\<lambda>idevice. let ichip = c_devices c - idevice - 1
                 in opcode_bits (c_opcodes c ! ichip) (int (c_chip c)) ichip opcode) [0..<c_devices c])"

definition dr_of :: "chain_cfg \<Rightarrow> nat \<Rightarrow> int list \<Rightarrow> int list" where
  "dr_of c n bits = replicate (c_devices c - c_chip c - 1) 0 @ take n bits @ replicate (c_chip c) 0"

definition has_cfg :: "chain_cfg \<Rightarrow> emujtag \<Rightarrow> bool" where
  "has_cfg c j \<longleftrightarrow> devices_in_chain j = c_devices c \<and> bits_in_opcode j = c_opcodes c \<and>
     which_user_prom j = int (c_chip c) \<and> 0 \<le> jtag_chain j \<and> \<not> write_to_device j \<and> c_chip c < c_devices c"

text \<open>Commands that make sense one after the other: the data commands use the size of the last
  \<^verbatim>\<open>XSDRSIZE\<close>, counts and times fit in their bytes.\<close>

definition dr_ok :: "chain_cfg \<Rightarrow> int \<Rightarrow> nat \<Rightarrow> int list \<Rightarrow> bool" where
  "dr_ok c xdr n bits \<longleftrightarrow> xdr = int (c_devices c - 1 + n) \<and> is_bits bits \<and> n \<le> length bits \<and>
     0 < c_devices c - 1 + n \<and> c_devices c - 1 + n \<le> MAX_NUM_FRAMES"

fun cmd_ok :: "chain_cfg \<Rightarrow> int \<Rightarrow> xcmd \<Rightarrow> bool" where
  "cmd_ok c xdr (XSir opcode) \<longleftrightarrow> 0 < length (ir_of c opcode) \<and> length (ir_of c opcode) < 256"
| "cmd_ok c xdr (XTdoMask n m) \<longleftrightarrow> dr_ok c xdr n m"
| "cmd_ok c xdr (XSdrTdo n tdi tdo) \<longleftrightarrow> dr_ok c xdr n tdi \<and> dr_ok c xdr n tdo"
| "cmd_ok c xdr (XRunTest t) \<longleftrightarrow> 0 \<le> t \<and> t < 2 ^ 31"
| "cmd_ok c xdr (XSdrSize n) \<longleftrightarrow> int n + int (c_devices c) - 1 < 2 ^ 31"
| "cmd_ok c xdr (XRepeat n) \<longleftrightarrow> 0 \<le> n \<and> n < 256"
| "cmd_ok c xdr (XState st) \<longleftrightarrow> 0 \<le> st \<and> st < 256"
| "cmd_ok c xdr XComplete \<longleftrightarrow> True"

fun next_xdr :: "chain_cfg \<Rightarrow> int \<Rightarrow> xcmd \<Rightarrow> int" where
  "next_xdr c xdr (XSdrSize n) = int n + int (c_devices c) - 1"
| "next_xdr c xdr _ = xdr"

fun prog_ok :: "chain_cfg \<Rightarrow> int \<Rightarrow> xcmd list \<Rightarrow> bool" where
  "prog_ok c xdr [] \<longleftrightarrow> True"
| "prog_ok c xdr (x # xs) \<longleftrightarrow> cmd_ok c xdr x \<and> prog_ok c (next_xdr c xdr x) xs"

text \<open>The bytes of a command.\<close>

definition flipped :: "nat \<Rightarrow> int list \<Rightarrow> int list" where
  "flipped n frames = rev (take (bytes_for (int n)) (pack_frames frames))"

fun enc :: "chain_cfg \<Rightarrow> int \<Rightarrow> xcmd \<Rightarrow> int list" where
  "enc c xdr (XSir opcode) =
     XSIR # to_char (int (length (ir_of c opcode))) # flipped (length (ir_of c opcode)) (ir_of c opcode)"
| "enc c xdr (XTdoMask n m) = XTDOMASK # flipped (length (dr_of c n m)) (dr_of c n m)"
| "enc c xdr (XSdrTdo n tdi tdo) =
     XSDRTDO # flipped (length (dr_of c n tdi)) (dr_of c n tdi) @ flipped (length (dr_of c n tdo)) (dr_of c n tdo)"
| "enc c xdr (XRunTest t) = XRUNTEST # int4_bytes t"
| "enc c xdr (XSdrSize n) = XSDRSIZE # int4_bytes (int n + int (c_devices c) - 1)"
| "enc c xdr (XRepeat n) = [XREPEAT, to_char n]"
| "enc c xdr (XState st) = [XSTATE, to_char st]"
| "enc c xdr XComplete = [XCOMPLETE]"

lemma char_small: "0 \<le> v \<Longrightarrow> v < 128 \<Longrightarrow> to_char v = v"
  by (simp add: to_char_def signed_take_bit_int_eq_self)

lemma SetWrite_code:
  "SetWriteXsvfImage v j = j\<lparr>xsvf_image := xsvf_image j @ [to_char v], image_counter := image_counter j + 1\<rparr>"
proof -
  have "to_char (v AND 0xff) = to_char v"
    by (rule char_eq_by_bits)
      (simp_all add: bit_to_char bit_and_iff bit_mask_iff[of 8, where 'a = int, unfolded mask_eq_exp_minus_1, simplified])
  then show ?thesis by (simp add: SetWriteXsvfImage_def)
qed

lemma dr_ok_length:
  assumes "dr_ok c xdr n bits" and "c_chip c < c_devices c"
  shows "length (dr_of c n bits) = c_devices c - 1 + n" "is_bits (dr_of c n bits)"
  using assms by (auto simp: dr_ok_def dr_of_def is_bits_def list_all_iff dest: in_set_takeD)

lemma bytes_for_le:
  assumes "0 < n" and "n \<le> MAX_NUM_FRAMES"
  shows "bytes_for (int n) \<le> MAX_BUFFER_SIZE"
proof -
  obtain m where m: "n = Suc m" using assms(1) by (cases n) auto
  have "m div 8 \<le> MAX_NUM_FRAMES div 8" using assms(2) m by (intro div_le_mono) simp
  then show ?thesis unfolding m bytes_for_nat MAX_BUFFER_SIZE_def by simp
qed

lemma ShfIR_file:
  assumes "has_cfg c j"
  shows "ShfIR port (which_user_prom j) opcode (j, h) = (put_frames (ir_of c opcode) (clear_buffers j), h)"
proof -
  have "ir_frames j (which_user_prom j) opcode = ir_of c opcode"
    using assms by (simp add: ir_frames_def ir_of_def has_cfg_def Let_def)
  then show ?thesis using assms by (simp add: ShfIR_def has_cfg_def Let_def not_less)
qed

lemma ShfDR_file:
  assumes "has_cfg c j" and "n \<le> length bits"
  obtains j' where "ShfDR port (which_user_prom j) n bits (j, h) = (j', h)"
    "tdi_in_bytes j' = pack_frames (dr_of c n bits)" "has_cfg c j'" "xsvf_image j' = xsvf_image j"
    "image_counter j' = image_counter j" "xdr_length j' = xdr_length j"
proof -
  have loop: "dr_loop (devices_in_chain j) (which_user_prom j) n bits =
      (dr_of c n bits, c_devices c - c_chip c - 1)"
    using assms dr_loop_eq[of "c_chip c" "c_devices c" n bits]
    by (simp add: has_cfg_def dr_of_def map_nth_take)
  let ?j = "(put_frames (dr_of c n bits) (clear_buffers (j\<lparr>register_length := n\<rparr>)))
      \<lparr>chip_tdo_in_bits := unpackCharBuffer (replicate MAX_BUFFER_SIZE 0) n (c_devices c - c_chip c - 1)
          (replicate MAX_NUM_FRAMES 0)\<rparr>"
  have "ShfDR port (which_user_prom j) n bits (j, h) = (?j, h)"
    using assms(1) loop by (simp add: ShfDR_def has_cfg_def Let_def not_less)
  then show ?thesis
    by (rule that) (use assms(1) in \<open>simp_all add: has_cfg_def tdi_in_bytes_put\<close>)
qed

lemma has_cfg_update [simp]:
  "has_cfg c (j\<lparr>xsvf_image := im\<rparr>) = has_cfg c j" "has_cfg c (j\<lparr>image_counter := k\<rparr>) = has_cfg c j"
  "has_cfg c (j\<lparr>xdr_length := n\<rparr>) = has_cfg c j"
  by (simp_all add: has_cfg_def)

lemma length_ir_of: "length (ir_of c opcode) = (\<Sum>i\<leftarrow>[0..<c_devices c]. c_opcodes c ! i)"
proof -
  have "map (\<lambda>i. c_opcodes c ! (c_devices c - i - 1)) [0..<c_devices c] =
        map (\<lambda>i. c_opcodes c ! i) (rev [0..<c_devices c])"
    by (rule map_rev_devices)
  then have "length (ir_of c opcode) = sum_list (rev (map (\<lambda>i. c_opcodes c ! i) [0..<c_devices c]))"
    by (simp add: ir_of_def length_concat comp_def Let_def rev_map)
  then show ?thesis by (simp add: sum_list_rev)
qed

lemma SumOpcodeBits_cfg: "has_cfg c j \<Longrightarrow> SumOpcodeBits j = length (ir_of c opcode)"
  by (simp add: SumOpcodeBits_def has_cfg_def length_ir_of)

lemma write_XSIR:
  assumes "has_cfg c j" and "cmd_ok c (xdr_length j) (XSir opcode)"
  shows "\<exists>j'. WriteXSIR port opcode (j, h) = (j', h) \<and> has_cfg c j' \<and>
     xsvf_image j' = xsvf_image j @ enc c (xdr_length j) (XSir opcode) \<and> xdr_length j' = xdr_length j"
proof -
  define n where "n = length (ir_of c opcode)"
  define j1 where "j1 = SetWriteXsvfImage (int n) (SetWriteXsvfImage XSIR j)"
  have j1: "has_cfg c j1" "xsvf_image j1 = xsvf_image j @ [XSIR, to_char (int n)]" "xdr_length j1 = xdr_length j"
    using assms(1) by (simp_all add: j1_def SetWrite_code XSIR_def char_small)
  have "SumOpcodeBits (SetWriteXsvfImage XSIR j) = n"
    using SumOpcodeBits_cfg[of c "SetWriteXsvfImage XSIR j" opcode] assms(1)
    by (simp add: n_def SetWrite_code)
  then have w: "WriteXSIR port opcode (j, h) =
      (put_tdi_bytes (bytes_for (int n)) (put_frames (ir_of c opcode) (clear_buffers j1)), h)"
    using ShfIR_file[OF j1(1), of port opcode h] by (simp add: WriteXSIR_def Let_def j1_def)
  have "0 < n" "n \<le> MAX_NUM_FRAMES" using assms(2) by (simp_all add: n_def MAX_NUM_FRAMES_def)
  from put_tdi_bytes_image[OF tdi_in_bytes_put bytes_for_le[OF this], of "ir_of c opcode" j1]
  show ?thesis
    using j1 by (simp add: w has_cfg_def flipped_def flip: n_def)
qed

lemma write_XTDOMASK:
  assumes "has_cfg c j" and "dr_ok c (xdr_length j) n m"
  shows "\<exists>j'. WriteXTDOMASK port n m (j, h) = (j', h) \<and> has_cfg c j' \<and>
     xsvf_image j' = xsvf_image j @ enc c (xdr_length j) (XTdoMask n m) \<and> xdr_length j' = xdr_length j"
proof -
  define j1 where "j1 = SetWriteXsvfImage XTDOMASK j"
  have j1: "has_cfg c j1" "xsvf_image j1 = xsvf_image j @ [XTDOMASK]" "xdr_length j1 = xdr_length j"
    using assms(1) by (simp_all add: j1_def SetWrite_code XTDOMASK_def char_small)
  have n: "n \<le> length m" using assms(2) by (simp add: dr_ok_def)
  obtain j2 where j2: "ShfDR port (which_user_prom j1) n m (j1, h) = (j2, h)"
      "tdi_in_bytes j2 = pack_frames (dr_of c n m)" "has_cfg c j2" "xsvf_image j2 = xsvf_image j1"
      "xdr_length j2 = xdr_length j1"
    using ShfDR_file[OF j1(1) n, of port h] by metis
  have len: "xdr_length j = int (length (dr_of c n m))" "0 < length (dr_of c n m)"
      "length (dr_of c n m) \<le> MAX_NUM_FRAMES"
    using dr_ok_length[OF assms(2)] assms by (auto simp: has_cfg_def dr_ok_def)
  show ?thesis
    using put_tdi_bytes_image[OF j2(2) bytes_for_le[OF len(2,3)]] j1 j2 len(1)
    by (simp add: WriteXTDOMASK_def Let_def flipped_def flip: j1_def)
qed

lemma write_XSDRTDO:
  assumes "has_cfg c j" and "dr_ok c (xdr_length j) n tdi" and "dr_ok c (xdr_length j) n tdo"
  shows "\<exists>j'. WriteXSDRTDO port n tdi tdo (j, h) = (j', h) \<and> has_cfg c j' \<and>
     xsvf_image j' = xsvf_image j @ enc c (xdr_length j) (XSdrTdo n tdi tdo) \<and> xdr_length j' = xdr_length j"
proof -
  define j1 where "j1 = SetWriteXsvfImage XSDRTDO j"
  have j1: "has_cfg c j1" "xsvf_image j1 = xsvf_image j @ [XSDRTDO]" "xdr_length j1 = xdr_length j"
    using assms(1) by (simp_all add: j1_def SetWrite_code XSDRTDO_def char_small)
  have n: "n \<le> length tdi" "n \<le> length tdo" using assms(2,3) by (simp_all add: dr_ok_def)
  obtain j2 where j2: "ShfDR port (which_user_prom j1) n tdi (j1, h) = (j2, h)"
      "tdi_in_bytes j2 = pack_frames (dr_of c n tdi)" "has_cfg c j2" "xsvf_image j2 = xsvf_image j1"
      "xdr_length j2 = xdr_length j1"
    using ShfDR_file[OF j1(1) n(1), of port h] by metis
  have len: "xdr_length j = int (length (dr_of c n tdi))" "0 < length (dr_of c n tdi)"
      "length (dr_of c n tdi) \<le> MAX_NUM_FRAMES" "length (dr_of c n tdo) = length (dr_of c n tdi)"
    using dr_ok_length[OF assms(2)] dr_ok_length[OF assms(3)] assms by (auto simp: has_cfg_def dr_ok_def)
  define nb where "nb = bytes_for (int (length (dr_of c n tdi)))"
  have nb: "nb \<le> MAX_BUFFER_SIZE" unfolding nb_def by (rule bytes_for_le[OF len(2,3)])
  define j3 where "j3 = put_tdi_bytes nb j2"
  have j3: "has_cfg c j3" "xsvf_image j3 = xsvf_image j2 @ rev (take nb (pack_frames (dr_of c n tdi)))"
    "xdr_length j3 = xdr_length j2"
    using put_tdi_bytes_image[OF j2(2) nb] j2(3) by (simp_all add: j3_def)
  obtain j4 where j4: "ShfDR port (which_user_prom j3) n tdo (j3, h) = (j4, h)"
      "tdi_in_bytes j4 = pack_frames (dr_of c n tdo)" "has_cfg c j4" "xsvf_image j4 = xsvf_image j3"
      "xdr_length j4 = xdr_length j3"
    using ShfDR_file[OF j3(1) n(2), of port h] by metis
  have w: "WriteXSDRTDO port n tdi tdo (j, h) = (put_tdi_bytes nb j4, h)"
    using j1 j2 j3 j4 len(1)
    by (simp add: WriteXSDRTDO_def Let_def flip: j1_def nb_def j3_def)
  show ?thesis
    using put_tdi_bytes_image[OF j4(2) nb] j1 j2 j3 j4 len(4)
    by (simp add: w flipped_def flip: nb_def)
qed

lemma write_cmd_enc:
  assumes "has_cfg c j" and "cmd_ok c (xdr_length j) x"
  shows "\<exists>j'. write_cmd port x (j, h) = (j', h) \<and> has_cfg c j' \<and>
     xsvf_image j' = xsvf_image j @ enc c (xdr_length j) x \<and> xdr_length j' = next_xdr c (xdr_length j) x"
proof (cases x)
  case (XSir opcode)
  with write_XSIR[of c j opcode port h] assms show ?thesis by simp
next
  case (XTdoMask n m)
  with write_XTDOMASK[of c j n m port h] assms show ?thesis by simp
next
  case (XSdrTdo n tdi tdo)
  with write_XSDRTDO[of c j n tdi tdo port h] assms show ?thesis by simp
next
  case (XSdrSize n)
  have "devices_in_chain j = c_devices c" using assms(1) by (simp add: has_cfg_def)
  with XSdrSize assms(1) show ?thesis
    by (simp add: WriteXSDRSIZE_def Let_def SetWrite_code put_int4_image xsvf_codes char_small algebra_simps)
qed (use assms(1) in \<open>simp_all add: WriteXRUNTEST_def WriteXREPEAT_def WriteXSTATE_def WriteXCOMPLETE_def
      SetWrite_code put_int4_image xsvf_codes char_small\<close>)

fun enc_prog :: "chain_cfg \<Rightarrow> int \<Rightarrow> xcmd list \<Rightarrow> int list" where
  "enc_prog c xdr [] = []"
| "enc_prog c xdr (x # xs) = enc c xdr x @ enc_prog c (next_xdr c xdr x) xs"

definition write_prog :: "'h jtag_port \<Rightarrow> xcmd list \<Rightarrow> emujtag \<times> 'h \<Rightarrow> emujtag \<times> 'h" where
  "write_prog port prog s = fold (write_cmd port) prog s"

lemma write_prog_enc:
  assumes "has_cfg c j" and "prog_ok c (xdr_length j) prog"
  shows "\<exists>j'. write_prog port prog (j, h) = (j', h) \<and> has_cfg c j' \<and>
     xsvf_image j' = xsvf_image j @ enc_prog c (xdr_length j) prog"
  using assms
proof (induction prog arbitrary: j)
  case Nil
  then show ?case by (simp add: write_prog_def)
next
  case (Cons x xs)
  then obtain j1 where j1: "write_cmd port x (j, h) = (j1, h)" "has_cfg c j1"
      "xsvf_image j1 = xsvf_image j @ enc c (xdr_length j) x" "xdr_length j1 = next_xdr c (xdr_length j) x"
    using write_cmd_enc[of c j x port h] by auto
  with Cons.IH[of j1] Cons.prems show ?case by (auto simp: write_prog_def)
qed

section \<open>Playing a program on the chain directly\<close>

text \<open>What the commands do to the chain, without the image: the reference of the decoder.\<close>

record 'h player =
  p_mask :: "int list"
  p_runtest :: int
  p_repeat :: int
  p_errors :: int
  p_board :: 'h

definition play_scan :: "'h jtag_port \<Rightarrow> scan_register \<Rightarrow> int list \<Rightarrow> bool \<Rightarrow> 'h \<Rightarrow> int list \<times> 'h" where
  "play_scan port reg frames read_back h =
     port_scan port reg (pack_frames frames) (length frames) (replicate MAX_BUFFER_SIZE 0) read_back h"

fun play :: "'h jtag_port \<Rightarrow> chain_cfg \<Rightarrow> xcmd \<Rightarrow> 'h player \<Rightarrow> 'h player" where
  "play port c (XSir opcode) p =
     p\<lparr>p_board := port_usleep port (p_runtest p)
        (snd (play_scan port INSTR_REGISTER (ir_of c opcode) False (p_board p)))\<rparr>"
| "play port c (XTdoMask n m) p = p\<lparr>p_mask := pack_frames (dr_of c n m)\<rparr>"
| "play port c (XSdrTdo n tdi tdo) p =
     (let nb = bytes_for (int (length (dr_of c n tdi)));
          (answer, h) = play_scan port DATA_REGISTER (dr_of c n tdi)
            (list_ex (\<lambda>byte. p_mask p ! byte \<noteq> 0) [0..<nb]) (p_board p)
      in p\<lparr>p_errors := p_errors p + tdo_errors nb answer (pack_frames (dr_of c n tdo)) (p_mask p),
           p_board := port_usleep port (p_runtest p) h\<rparr>)"
| "play port c (XRunTest t) p = p\<lparr>p_runtest := t\<rparr>"
| "play port c (XSdrSize n) p = p"
| "play port c (XRepeat n) p = p\<lparr>p_repeat := n\<rparr>"
| "play port c (XState st) p = p\<lparr>p_board := (port_idle port ^^ nat (p_repeat p + 1)) (p_board p)\<rparr>"
| "play port c XComplete p = p"

definition player_of :: "emujtag \<times> 'h \<Rightarrow> 'h player" where
  "player_of s = \<lparr>p_mask = tdo_mask_in_bytes (fst s), p_runtest = xruntest_time (fst s),
     p_repeat = xrepeat_times (fst s), p_errors = verify_error (fst s), p_board = snd s\<rparr>"

section \<open>Decoding an encoded program\<close>

text \<open>The unread part of the image.\<close>

definition unread :: "emujtag \<Rightarrow> int list" where
  "unread j = drop (image_counter j) (xsvf_image j)"

lemma Get_unread:
  assumes "unread j = b # bs"
  shows "GetReadXsvfImage j = Inr (b, j\<lparr>image_counter := image_counter j + 1\<rparr>)"
    and "unread (j\<lparr>image_counter := image_counter j + 1\<rparr>) = bs"
proof -
  have "image_counter j < length (xsvf_image j)"
    using assms by (metis unread_def drop_all list.distinct(1) not_le)
  then show "GetReadXsvfImage j = Inr (b, j\<lparr>image_counter := image_counter j + 1\<rparr>)"
    using assms by (simp add: GetReadXsvfImage_def unread_def) (metis Cons_nth_drop_Suc list.inject)
  show "unread (j\<lparr>image_counter := image_counter j + 1\<rparr>) = bs"
    using assms by (simp add: unread_def) (metis drop_Suc list.sel(3) tl_drop)
qed

lemma read_down_unread:
  assumes "unread j = rev (take n bytes) @ rest" and "n \<le> length bytes" and "list_all is_char bytes"
    and "length buf = length bytes"
  shows "read_down n buf j = Inr (take n bytes @ drop n buf, j\<lparr>image_counter := image_counter j + n\<rparr>)"
    and "unread (j\<lparr>image_counter := image_counter j + n\<rparr>) = rest"
proof -
  have "read_down n buf j = Inr (take n bytes @ drop n buf, j\<lparr>image_counter := image_counter j + n\<rparr>) \<and>
     unread (j\<lparr>image_counter := image_counter j + n\<rparr>) = rest"
    using assms
  proof (induction n arbitrary: buf j)
    case 0
    then show ?case by (simp add: unread_def)
  next
    case (Suc n)
    let ?j = "j\<lparr>image_counter := image_counter j + 1\<rparr>"
    have n: "n < length bytes" using Suc.prems(2) by simp
    then have u: "unread j = bytes ! n # (rev (take n bytes) @ rest)"
      using Suc.prems(1) by (simp add: take_Suc_conv_app_nth)
    have c: "to_char (bytes ! n AND 255) = bytes ! n"
      using n Suc.prems(3) by (simp add: is_char_byte list_all_length)
    have "read_down (Suc n) buf j = read_down n (buf[n := bytes ! n]) ?j"
      using Get_unread(1)[OF u] by (simp add: c)
    moreover have "take n bytes @ drop n (buf[n := bytes ! n]) = take (Suc n) bytes @ drop (Suc n) buf"
      using n Suc.prems(4) by (simp add: take_Suc_conv_app_nth drop_update_swap flip: Cons_nth_drop_Suc)
    ultimately show ?case
      using Suc.IH[of ?j "buf[n := bytes ! n]"] Get_unread(2)[OF u] n Suc.prems(3,4) by simp
  qed
  then show "read_down n buf j = Inr (take n bytes @ drop n buf, j\<lparr>image_counter := image_counter j + n\<rparr>)"
    and "unread (j\<lparr>image_counter := image_counter j + n\<rparr>) = rest"
    by auto
qed

text \<open>The bytes of a scan, read into a cleared buffer, are the packed frames.\<close>

lemma read_flipped:
  assumes "unread j = flipped (length frames) frames @ rest" and "is_bits frames"
    and "0 < length frames" and "length frames \<le> MAX_NUM_FRAMES" and "n = bytes_for (int (length frames))"
  shows "read_down n (replicate MAX_BUFFER_SIZE 0) j = Inr (pack_frames frames, j\<lparr>image_counter := image_counter j + n\<rparr>)"
    and "unread (j\<lparr>image_counter := image_counter j + n\<rparr>) = rest"
proof -
  have nb: "n \<le> MAX_BUFFER_SIZE" unfolding assms(5) by (rule bytes_for_le[OF assms(3,4)])
  have tail: "take n (pack_frames frames) @ drop n (replicate MAX_BUFFER_SIZE 0) = pack_frames frames"
    using pack_frames_tail[OF assms(2) refl assms(3,4)]
    by (simp add: assms(5)) (metis append_take_drop_id)
  show "read_down n (replicate MAX_BUFFER_SIZE 0) j = Inr (pack_frames frames, j\<lparr>image_counter := image_counter j + n\<rparr>)"
    using read_down_unread(1)[of j n "pack_frames frames" rest "replicate MAX_BUFFER_SIZE 0"]
      assms nb chars_pack_frames tail by (simp add: flipped_def)
  show "unread (j\<lparr>image_counter := image_counter j + n\<rparr>) = rest"
    using read_down_unread(2)[of j n "pack_frames frames" rest "replicate MAX_BUFFER_SIZE 0"]
      assms nb chars_pack_frames by (simp add: flipped_def)
qed

lemma int4_join:
  fixes v :: int
  assumes "0 \<le> v" and "v < 2 ^ 31"
  shows "signed_take_bit 31 (push_bit 24 (to_char (drop_bit 24 v AND 255) AND 255)) OR
     signed_take_bit 31 (push_bit 16 (to_char (drop_bit 16 v AND 255) AND 255)) OR
     signed_take_bit 31 (push_bit 8 (to_char (drop_bit 8 v AND 255) AND 255)) OR
     signed_take_bit 31 (to_char (v AND 255) AND 255) = v"
proof -
  have m: "bit (255 :: int) j \<longleftrightarrow> j < 8" for j
    using bit_mask_iff[of 8 j, where 'a = int] by (simp add: mask_eq_exp_minus_1)
  have byte: "to_char (w AND 255) AND 255 = take_bit 8 w" for w
    by (rule int_eq_by_bits) (auto simp: bit_and_iff bit_take_bit_iff m bit_to_char)
  have "take_bit 31 v = v" using assms by (simp add: take_bit_int_eq_self)
  then have high: "\<not> bit v i" if "31 \<le> i" for i
    using that by (metis bit_take_bit_iff not_le)
  show ?thesis
  proof (rule int_eq_by_bits)
    fix i
    show "bit (signed_take_bit 31 (push_bit 24 (to_char (drop_bit 24 v AND 255) AND 255)) OR
     signed_take_bit 31 (push_bit 16 (to_char (drop_bit 16 v AND 255) AND 255)) OR
     signed_take_bit 31 (push_bit 8 (to_char (drop_bit 8 v AND 255) AND 255)) OR
     signed_take_bit 31 (to_char (v AND 255) AND 255)) i = bit v i"
      unfolding byte
      using high[of i] high[of 31]
      by (cases "i < 8"; cases "i < 16"; cases "i < 24"; cases "i < 31")
        (auto simp: bit_or_iff bit_signed_take_bit_iff bit_push_bit_iff bit_take_bit_iff bit_drop_bit_eq min_def)
  qed
qed

lemma read_int4_unread:
  assumes "unread j = int4_bytes v @ rest" and "0 \<le> v" and "v < 2 ^ 31"
  shows "read_int4 4 0 j = Inr (v, j\<lparr>image_counter := image_counter j + 4\<rparr>)"
    and "unread (j\<lparr>image_counter := image_counter j + 4\<rparr>) = rest"
proof -
  let ?j = "\<lambda>k. j\<lparr>image_counter := image_counter j + k\<rparr>"
  let ?b = "\<lambda>k. to_char (drop_bit (8 * k) v AND 255)"
  have u: "unread j = ?b 3 # ?b 2 # ?b 1 # ?b 0 # rest"
    using assms(1) by (simp add: int4_bytes_def)
  note g1 = Get_unread[OF u, simplified]
  note g2 = Get_unread[OF g1(2), simplified]
  note g3 = Get_unread[OF g2(2), simplified]
  note g4 = Get_unread[OF g3(2), simplified]
  have "read_int4 4 0 j = read_int4 (Suc (Suc (Suc (Suc 0)))) 0 j" by (simp add: numeral_eq_Suc)
  also have "\<dots> = Inr (signed_take_bit 31 (push_bit 24 (?b 3 AND 255)) OR
      signed_take_bit 31 (push_bit 16 (?b 2 AND 255)) OR signed_take_bit 31 (push_bit 8 (?b 1 AND 255)) OR
      signed_take_bit 31 (?b 0 AND 255), ?j 4)"
    using g1 g2 g3 g4 by (simp add: numeral_eq_Suc ac_simps)
  also have "\<dots> = Inr (v, ?j 4)" using int4_join[OF assms(2,3)] by simp
  finally show "read_int4 4 0 j = Inr (v, ?j 4)" .
  show "unread (?j 4) = rest" using g4(2) by (simp add: numeral_eq_Suc)
qed

definition parsed :: "emujtag \<Rightarrow> emujtag \<Rightarrow> int list \<Rightarrow> int \<Rightarrow> bool" where
  "parsed j j' rest xdr \<longleftrightarrow> unread j' = rest \<and> xdr_length j' = xdr \<and> write_to_device j' = write_to_device j \<and>
     NumberOfCommands j' = NumberOfCommands j \<and> xsvf_image j' = xsvf_image j"

lemma unread_update [simp]:
  "unread (j\<lparr>tdi_in_bytes := a\<rparr>) = unread j" "unread (j\<lparr>tdo_in_bytes := a\<rparr>) = unread j"
  "unread (j\<lparr>tdo_mask_in_bytes := a\<rparr>) = unread j" "unread (j\<lparr>xruntest_time := n\<rparr>) = unread j"
  "unread (j\<lparr>xrepeat_times := n\<rparr>) = unread j" "unread (j\<lparr>xdr_length := n\<rparr>) = unread j"
  "unread (j\<lparr>verify_error := n\<rparr>) = unread j" "unread (j\<lparr>NumberOfCommands := ns\<rparr>) = unread j"
  by (simp_all add: unread_def)

lemma dr_ok_facts:
  assumes "dr_ok c xdr n bits" and "c_chip c < c_devices c"
  shows "is_bits (dr_of c n bits)" "xdr = int (length (dr_of c n bits))" "0 < length (dr_of c n bits)"
    "length (dr_of c n bits) \<le> MAX_NUM_FRAMES" "bytes_for xdr \<le> MAX_BUFFER_SIZE"
  using dr_ok_length[OF assms] assms bytes_for_le[of "length (dr_of c n bits)"] by (auto simp: dr_ok_def)

lemma parse_XTDOMASK:
  assumes "unread j = flipped (length (dr_of c n m)) (dr_of c n m) @ rest"
    and ok: "dr_ok c (xdr_length j) n m" "c_chip c < c_devices c"
  shows "\<exists>j'. ParseXTDOMASK j = Inr j' \<and> parsed j j' rest (xdr_length j) \<and>
     player_of (j', h) = play port c (XTdoMask n m) (player_of (j, h))"
proof -
  note f = dr_ok_facts[OF ok]
  let ?j = "j\<lparr>tdo_mask_in_bytes := replicate MAX_BUFFER_SIZE 0\<rparr>"
  have u: "unread ?j = flipped (length (dr_of c n m)) (dr_of c n m) @ rest" using assms(1) by simp
  have "bytes_for (xdr_length j) = bytes_for (int (length (dr_of c n m)))" using f(2) by simp
  note r = read_flipped[OF u f(1,3,4) this]
  have "ParseXTDOMASK j = Inr ((?j\<lparr>image_counter := image_counter ?j + bytes_for (xdr_length j)\<rparr>)
      \<lparr>tdo_mask_in_bytes := pack_frames (dr_of c n m)\<rparr>)"
    using r(1) f(5) by (simp add: ParseXTDOMASK_def Let_def)
  with r(2) show ?thesis by (simp add: parsed_def player_of_def) (simp add: unread_def)
qed

lemma parse_XSIR:
  assumes "unread j = to_char (int (length (ir_of c opcode))) # flipped (length (ir_of c opcode)) (ir_of c opcode) @ rest"
    and ok: "cmd_ok c xdr (XSir opcode)" and "write_to_device j"
  shows "\<exists>s'. ParseXSIR port (j, h) = Inr s' \<and> parsed j (fst s') rest (xdr_length j) \<and>
     player_of s' = play port c (XSir opcode) (player_of (j, h))"
proof -
  define n where "n = length (ir_of c opcode)"
  let ?z = "replicate MAX_BUFFER_SIZE (0::int)"
  define j1 where "j1 = j\<lparr>tdi_in_bytes := ?z, tdo_in_bytes := ?z\<rparr>"
  define j2 where "j2 = j1\<lparr>image_counter := image_counter j1 + 1\<rparr>"
  have bits: "is_bits (ir_of c opcode)"
    by (auto simp: ir_of_def is_bits_concat list_all_iff Let_def)
  have n: "0 < n" "n < 256" using ok by (simp_all add: n_def)
  have u1: "unread j1 = to_char (int n) # flipped n (ir_of c opcode) @ rest"
    using assms(1) by (simp add: j1_def n_def)
  note g = Get_unread[OF u1, folded j2_def]
  have nbits: "to_char (int n) AND 0xff = int n"
  proof (rule int_eq_by_bits)
    fix i
    have m: "bit (255 :: int) j \<longleftrightarrow> j < 8" for j
      using bit_mask_iff[of 8 j, where 'a = int] by (simp add: mask_eq_exp_minus_1)
    have "take_bit 8 (int n) = int n" using n by (simp add: take_bit_int_eq_self)
    then have "\<not> bit (int n) i" if "8 \<le> i" using that by (metis bit_take_bit_iff not_le)
    then show "bit (to_char (int n) AND 0xff) i = bit (int n) i"
      by (cases "i < 8") (auto simp: bit_and_iff m bit_to_char)
  qed
  have "n \<le> MAX_NUM_FRAMES" using n by (simp add: MAX_NUM_FRAMES_def)
  note r = read_flipped[OF g(2)[unfolded n_def] bits n(1)[unfolded n_def] this[unfolded n_def] refl, folded n_def]
  define j3 where "j3 = j2\<lparr>image_counter := image_counter j2 + bytes_for (int n)\<rparr>"
  have w: "write_to_device j3" using assms(3) by (simp add: j1_def j2_def j3_def)
  obtain tdo h' where scan: "port_scan port INSTR_REGISTER (pack_frames (ir_of c opcode)) n ?z False h = (tdo, h')"
    by fastforce
  have "tdo_in_bytes j3 = ?z" "xruntest_time j3 = xruntest_time j" by (simp_all add: j1_def j2_def j3_def)
  with scan w have "ParseXSIR port (j, h) =
      Inr ((j3\<lparr>tdi_in_bytes := pack_frames (ir_of c opcode)\<rparr>)\<lparr>tdo_in_bytes := tdo\<rparr>, port_usleep port (xruntest_time j) h')"
    using g(1) r(1) nbits by (simp add: ParseXSIR_def Let_def j3_def flip: j1_def)
  moreover have "unread j3 = rest" using r(2) by (simp add: j3_def)
  ultimately show ?thesis
    using scan by (simp add: parsed_def player_of_def play_scan_def n_def)
      (simp add: j1_def j2_def j3_def)
qed

lemma parse_XSDRTDO:
  assumes "unread j = flipped (length (dr_of c n tdi)) (dr_of c n tdi) @
      flipped (length (dr_of c n tdo)) (dr_of c n tdo) @ rest"
    and ok: "dr_ok c (xdr_length j) n tdi" "dr_ok c (xdr_length j) n tdo" "c_chip c < c_devices c"
    and "write_to_device j"
  shows "\<exists>s'. ParseXSDRTDO port (j, h) = Inr s' \<and> parsed j (fst s') rest (xdr_length j) \<and>
     player_of s' = play port c (XSdrTdo n tdi tdo) (player_of (j, h))"
proof -
  note f = dr_ok_facts[OF ok(1,3)] and f' = dr_ok_facts[OF ok(2,3)]
  let ?z = "replicate MAX_BUFFER_SIZE (0::int)"
  define nb where "nb = bytes_for (xdr_length j)"
  define j1 where "j1 = j\<lparr>tdi_in_bytes := ?z, tdo_in_bytes := ?z\<rparr>"
  define j2 where "j2 = j1\<lparr>image_counter := image_counter j1 + nb\<rparr>"
  define j3 where "j3 = j2\<lparr>tdi_in_bytes := pack_frames (dr_of c n tdi)\<rparr>"
  define j4 where "j4 = j3\<lparr>image_counter := image_counter j3 + nb\<rparr>"
  have u1: "unread j1 = flipped (length (dr_of c n tdi)) (dr_of c n tdi) @
      flipped (length (dr_of c n tdo)) (dr_of c n tdo) @ rest"
    using assms(1) by (simp add: j1_def)
  have nb: "nb = bytes_for (int (length (dr_of c n tdi)))" "nb = bytes_for (int (length (dr_of c n tdo)))"
    using f(2) f'(2) by (simp_all add: nb_def)
  note r1 = read_flipped[OF u1 f(1,3,4) nb(1), folded j2_def]
  have u3: "unread j3 = flipped (length (dr_of c n tdo)) (dr_of c n tdo) @ rest"
    using r1(2) by (simp add: j3_def)
  note r2 = read_flipped[OF u3 f'(1,3,4) nb(2), folded j4_def]
  have w: "write_to_device j4" "tdo_in_bytes j4 = ?z" "xruntest_time j4 = xruntest_time j"
    "tdo_mask_in_bytes j4 = tdo_mask_in_bytes j" "verify_error j4 = verify_error j"
    "nat (xdr_length j4) = length (dr_of c n tdi)"
    using assms(5) f(2) by (simp_all add: j1_def j2_def j3_def j4_def)
  obtain tdo' h' where scan: "port_scan port DATA_REGISTER (pack_frames (dr_of c n tdi)) (length (dr_of c n tdi)) ?z
      (list_ex (\<lambda>byte. tdo_mask_in_bytes j ! byte \<noteq> 0) [0..<nb]) h = (tdo', h')"
    by fastforce
  have "ParseXSDRTDO port (j, h) = Inr (j4\<lparr>tdo_in_bytes := tdo', verify_error := verify_error j +
      tdo_errors nb tdo' (pack_frames (dr_of c n tdo)) (tdo_mask_in_bytes j)\<rparr>, port_usleep port (xruntest_time j) h')"
  proof -
    have x: "xdr_length j1 = xdr_length j" by (simp add: j1_def)
    have c: "\<not> MAX_BUFFER_SIZE < nb" using f(5) by (simp add: nb_def)
    show ?thesis
      using r1(1) r2(1) w scan c x
      by (simp add: ParseXSDRTDO_def Let_def flip: j1_def j3_def nb_def)
  qed
  moreover have "unread j4 = rest" using r2(2) by simp
  ultimately show ?thesis
    using scan w by (simp add: parsed_def player_of_def play_scan_def flip: nb)
      (simp add: j1_def j2_def j3_def j4_def)
qed


lemma and_255_small:
  fixes v :: int
  assumes "0 \<le> v" and "v < 256"
  shows "to_char v AND 255 = v"
proof (rule int_eq_by_bits)
  fix i
  have m: "bit (255 :: int) j \<longleftrightarrow> j < 8" for j
    using bit_mask_iff[of 8 j, where 'a = int] by (simp add: mask_eq_exp_minus_1)
  have "take_bit 8 v = v" using assms by (simp add: take_bit_int_eq_self)
  then have "\<not> bit v i" if "8 \<le> i" using that by (metis bit_take_bit_iff not_le)
  then show "bit (to_char v AND 255) i = bit v i"
    by (cases "i < 8") (auto simp: bit_and_iff m bit_to_char)
qed

lemma parse_XRUNTEST:
  assumes "unread j = int4_bytes t @ rest" and "0 \<le> t" and "t < 2 ^ 31"
  shows "\<exists>j'. ParseXRUNTEST j = Inr j' \<and> parsed j j' rest (xdr_length j) \<and>
     player_of (j', h) = play port c (XRunTest t) (player_of (j, h))"
proof -
  have "unread (j\<lparr>xruntest_time := 0\<rparr>) = int4_bytes t @ rest" using assms(1) by simp
  from read_int4_unread[OF this assms(2,3)] show ?thesis
    by (simp add: ParseXRUNTEST_def parsed_def player_of_def) (simp add: unread_def)
qed

lemma parse_XSDRSIZE:
  assumes "unread j = int4_bytes t @ rest" and "0 \<le> t" and "t < 2 ^ 31"
  shows "\<exists>j'. ParseXSDRSIZE j = Inr j' \<and> parsed j j' rest t \<and> player_of (j', h) = player_of (j, h)"
proof -
  have "unread (j\<lparr>xdr_length := 0\<rparr>) = int4_bytes t @ rest" using assms(1) by simp
  from read_int4_unread[OF this assms(2,3)] show ?thesis
    by (simp add: ParseXSDRSIZE_def parsed_def player_of_def) (simp add: unread_def)
qed

lemma parse_XREPEAT:
  assumes "unread j = to_char n # rest" and "0 \<le> n" and "n < 256"
  shows "\<exists>j'. ParseXREPEAT j = Inr j' \<and> parsed j j' rest (xdr_length j) \<and>
     player_of (j', h) = play port c (XRepeat n) (player_of (j, h))"
  using Get_unread[OF assms(1)] and_255_small[OF assms(2,3)]
  by (simp add: ParseXREPEAT_def parsed_def player_of_def)

lemma parse_XSTATE:
  assumes "unread j = to_char st # rest" and "write_to_device j"
  shows "\<exists>s'. ParseXSTATE port (j, h) = Inr s' \<and> parsed j (fst s') rest (xdr_length j) \<and>
     player_of s' = play port c (XState st) (player_of (j, h))"
  using Get_unread[OF assms(1)] assms(2)
  by (simp add: ParseXSTATE_def parsed_def player_of_def)

lemma parse_XCOMPLETE:
  assumes "NumberOfCommands j ! 0 \<le> 1"
  shows "ParseXCOMPLETE j = j"
  using assms by (simp add: ParseXCOMPLETE_def XCOMPLETE_def)

text \<open>The count of a command in the table, and the number of \<^verbatim>\<open>XCOMPLETE\<close> in a program.\<close>

fun xcode :: "xcmd \<Rightarrow> int" where
  "xcode (XSir _) = XSIR"
| "xcode (XTdoMask _ _) = XTDOMASK"
| "xcode (XSdrTdo _ _ _) = XSDRTDO"
| "xcode (XRunTest _) = XRUNTEST"
| "xcode (XSdrSize _) = XSDRSIZE"
| "xcode (XRepeat _) = XREPEAT"
| "xcode (XState _) = XSTATE"
| "xcode XComplete = XCOMPLETE"

lemma xcode_range: "0 \<le> xcode x" "xcode x < int NUMBER_OF_DIFFERENT_XSVF_COMMANDS"
  by (cases x; simp add: xsvf_codes NUMBER_OF_DIFFERENT_XSVF_COMMANDS_def)+

definition completes :: "xcmd list \<Rightarrow> nat" where
  "completes prog = length (filter (\<lambda>x. x = XComplete) prog)"

lemma enc_code: "\<exists>bs. enc c xdr x = xcode x # bs"
  by (cases x) simp_all

lemma parse_command_play:
  assumes "unread j = tl (enc c (xdr_length j) x) @ rest" and "cmd_ok c (xdr_length j) x"
    and "c_chip c < c_devices c" and "write_to_device j"
    and "x = XComplete \<Longrightarrow> NumberOfCommands j ! 0 \<le> 1"
  shows "\<exists>s'. parse_command port (xcode x) (j, h) = Inr s' \<and>
     parsed j (fst s') rest (next_xdr c (xdr_length j) x) \<and> player_of s' = play port c x (player_of (j, h))"
proof (cases x)
  case (XSir opcode)
  then show ?thesis using parse_XSIR[of j c opcode rest "xdr_length j" port h] assms
    by (simp add: parse_command_def xsvf_codes)
next
  case (XTdoMask n m)
  then show ?thesis using parse_XTDOMASK[of j c n m rest h port] assms
    by (auto simp add: parse_command_def xsvf_codes keep_h_def)
next
  case (XSdrTdo n tdi tdo)
  then show ?thesis using parse_XSDRTDO[of j c n tdi tdo rest port h] assms
    by (simp add: parse_command_def xsvf_codes)
next
  case (XRunTest t)
  then show ?thesis using parse_XRUNTEST[of j t rest h port c] assms
    by (auto simp add: parse_command_def xsvf_codes keep_h_def)
next
  case (XSdrSize n)
  then show ?thesis
    using parse_XSDRSIZE[of j "int n + int (c_devices c) - 1" rest h] assms
    by (auto simp add: parse_command_def xsvf_codes keep_h_def)
next
  case (XRepeat n)
  then show ?thesis using parse_XREPEAT[of j n rest h port c] assms
    by (auto simp add: parse_command_def xsvf_codes keep_h_def)
next
  case (XState st)
  then show ?thesis using parse_XSTATE[of j st rest port h c] assms
    by (simp add: parse_command_def xsvf_codes)
next
  case XComplete
  then show ?thesis using parse_XCOMPLETE[of j] assms
    by (simp add: parse_command_def xsvf_codes parsed_def)
qed

definition decodable :: "chain_cfg \<Rightarrow> xcmd list \<Rightarrow> emujtag \<Rightarrow> bool" where
  "decodable c prog j \<longleftrightarrow> unread j = enc_prog c (xdr_length j) prog \<and> prog_ok c (xdr_length j) prog \<and>
     c_chip c < c_devices c \<and> write_to_device j \<and>
     length (NumberOfCommands j) = NUMBER_OF_DIFFERENT_XSVF_COMMANDS \<and>
     NumberOfCommands j ! 0 + completes prog \<le> 1"

lemma decode_step_play:
  assumes "decodable c (x # prog) j"
  shows "\<exists>j' h'. decode_step port (j, h) = Inr (True, j', h') \<and> decodable c prog j' \<and>
     xsvf_image j' = xsvf_image j \<and> player_of (j', h') = play port c x (player_of (j, h))"
proof -
  note d = assms[unfolded decodable_def]
  obtain bs where bs: "enc c (xdr_length j) x = xcode x # bs" using enc_code by blast
  let ?rest = "enc_prog c (next_xdr c (xdr_length j) x) prog"
  have u: "unread j = xcode x # bs @ ?rest" using d bs by simp
  note g = Get_unread[OF u]
  let ?k = "nat (xcode x)"
  let ?ns = "(NumberOfCommands j)[?k := NumberOfCommands j ! ?k + 1]"
  define j1 where "j1 = j\<lparr>image_counter := image_counter j + 1, NumberOfCommands := ?ns\<rparr>"
  have xdr: "xdr_length j1 = xdr_length j" by (simp add: j1_def)
  have k: "?k < length (NumberOfCommands j)" using d xcode_range[of x] by simp
  have zero: "?k = 0 \<longleftrightarrow> x = XComplete" by (cases x) (simp_all add: xsvf_codes)
  have compl: "?ns ! 0 + completes prog \<le> 1"
    using d k zero by (cases "x = XComplete") (auto simp: completes_def nth_list_update)

  then have one: "?ns ! 0 \<le> 1" by simp
  have u1: "unread j1 = tl (enc c (xdr_length j1) x) @ ?rest"
    using g(2) bs by (simp add: xdr) (simp add: j1_def unread_def)
  have ok: "cmd_ok c (xdr_length j1) x" and w: "write_to_device j1" using d by (simp_all add: j1_def)
  have count: "NumberOfCommands j1 ! 0 \<le> 1" using one by (simp add: j1_def)
  obtain s' where s': "parse_command port (xcode x) (j1, h) = Inr s'"
      "parsed j1 (fst s') ?rest (next_xdr c (xdr_length j) x)" "player_of s' = play port c x (player_of (j1, h))"
    using parse_command_play[OF u1 ok _ w count, of port h] d by (auto simp: xdr)
  have "decode_step port (j, h) = Inr (True, s')"
    using g(1) xcode_range[of x] s'(1) by (simp add: decode_step_def Let_def j1_def)
  moreover have "decodable c prog (fst s')"
    using s'(2) d compl by (simp add: decodable_def parsed_def j1_def)
  moreover have "xsvf_image (fst s') = xsvf_image j"
    using s'(2) by (simp add: parsed_def j1_def)
  moreover have "player_of s' = play port c x (player_of (j, h))"
    using s'(3) by (simp add: j1_def player_of_def)
  ultimately show ?thesis by (cases s') auto
qed

lemma decode_loop_play:
  assumes "decodable c prog j"
  shows "\<exists>s'. decode_loop port (length (xsvf_image j)) (j, h) = Some (Inr s') \<and>
     player_of s' = fold (play port c) prog (player_of (j, h))"
  using assms
proof (induction prog arbitrary: j h)
  case Nil
  then have "\<not> image_counter j < length (xsvf_image j)" by (simp add: decodable_def unread_def)
  then show ?case by (subst decode_loop.simps) simp
next
  case (Cons x prog)
  obtain j' h' where s: "decode_step port (j, h) = Inr (True, j', h')" "decodable c prog j'"
      "xsvf_image j' = xsvf_image j" "player_of (j', h') = play port c x (player_of (j, h))"
    using decode_step_play[OF Cons.prems, of port h] by (elim exE conjE)
  obtain bs where "enc c (xdr_length j) x = xcode x # bs" using enc_code by blast
  then have "unread j \<noteq> []" using Cons.prems by (simp add: decodable_def)
  then have "image_counter j < length (xsvf_image j)" by (simp add: unread_def)
  then have "decode_loop port (length (xsvf_image j)) (j, h) = decode_loop port (length (xsvf_image j)) (j', h')"
    using s(1) by (subst decode_loop.simps) simp
  with Cons.IH[OF s(2), of h'] s(3,4) show ?case by simp
qed


section \<open>The decoder returns\<close>

text \<open>A routine either goes forward in the image or jumps to its maximal size, and no routine
  changes the chip.\<close>

definition advances :: "emujtag \<Rightarrow> emujtag \<Rightarrow> bool" where
  "advances j j' \<longleftrightarrow> (image_counter j \<le> image_counter j' \<or> image_counter j' = MAX_XSVF_IMAGE_NUMBER) \<and>
     which_user_prom j' = which_user_prom j"

lemma xbind_Inr: "xbind m f = Inr b \<longleftrightarrow> (\<exists>a. m = Inr a \<and> f a = Inr b)"
  by (cases m) simp_all

lemma Get_counter:
  "GetReadXsvfImage j = Inr (v, j') \<Longrightarrow> j' = j\<lparr>image_counter := image_counter j + 1\<rparr>"
  by (auto simp: GetReadXsvfImage_def split: if_splits)

lemma read_down_counter:
  "read_down n buf j = Inr (b, j') \<Longrightarrow> j' = j\<lparr>image_counter := image_counter j + n\<rparr>"
proof (induction n arbitrary: buf j)
  case (Suc n)
  obtain v j1 where g: "GetReadXsvfImage j = Inr (v, j1)"
      "read_down n (buf[n := to_char (v AND 0xff)]) j1 = Inr (b, j')"
    using Suc.prems by (auto simp: xbind_Inr)
  from Suc.IH[OF g(2)] Get_counter[OF g(1)] show ?case by simp
qed simp

lemma read_int4_counter:
  "read_int4 n acc j = Inr (b, j') \<Longrightarrow> j' = j\<lparr>image_counter := image_counter j + n\<rparr>"
proof (induction n arbitrary: acc j)
  case (Suc n)
  obtain v j1 where g: "GetReadXsvfImage j = Inr (v, j1)"
      "read_int4 n (acc OR signed_take_bit 31 (push_bit (8 * n) (v AND 0xff))) j1 = Inr (b, j')"
    using Suc.prems by (auto simp: xbind_Inr)
  from Suc.IH[OF g(2)] Get_counter[OF g(1)] show ?case by simp
qed simp

lemma ParseXTDOMASK_advances: "ParseXTDOMASK j = Inr j' \<Longrightarrow> advances j j'"
  by (auto simp: ParseXTDOMASK_def Let_def advances_def xbind_Inr dest!: read_down_counter split: if_splits)

lemma ParseXSIR_advances: "ParseXSIR port s = Inr s' \<Longrightarrow> advances (fst s) (fst s')"
  by (auto simp: ParseXSIR_def Let_def advances_def xbind_Inr dest!: read_down_counter Get_counter
      split: if_splits prod.splits)

lemma ParseXSDRTDO_advances: "ParseXSDRTDO port s = Inr s' \<Longrightarrow> advances (fst s) (fst s')"
  by (auto simp: ParseXSDRTDO_def Let_def advances_def xbind_Inr dest!: read_down_counter
      split: if_splits prod.splits)

lemma ParseXSTATE_advances: "ParseXSTATE port s = Inr s' \<Longrightarrow> advances (fst s) (fst s')"
  by (auto simp: ParseXSTATE_def advances_def xbind_Inr dest!: Get_counter)

lemma Parse_number_advances:
  "ParseXRUNTEST j = Inr j' \<Longrightarrow> advances j j'"
  "ParseXSDRSIZE j = Inr j' \<Longrightarrow> advances j j'"
  "ParseXREPEAT j = Inr j' \<Longrightarrow> advances j j'"
  "advances j (ParseXCOMPLETE j)"
  by (auto simp: ParseXRUNTEST_def ParseXSDRSIZE_def ParseXREPEAT_def ParseXCOMPLETE_def advances_def
      xbind_Inr dest!: read_int4_counter Get_counter)

lemmas Parse_advances = ParseXTDOMASK_advances ParseXSIR_advances ParseXSDRTDO_advances
  ParseXSTATE_advances Parse_number_advances

lemma keep_h_Inr: "keep_h h m = Inr s' \<longleftrightarrow> (\<exists>j'. m = Inr j' \<and> s' = (j', h))"
  by (auto simp: keep_h_def xbind_Inr)

lemma parse_command_advances:
  "parse_command port command s = Inr s' \<Longrightarrow> advances (fst s) (fst s')"
  unfolding parse_command_def
  by (auto simp: keep_h_Inr Parse_number_advances(4) dest: Parse_advances(1-7) split: if_splits)
    (simp add: advances_def)

lemma decode_step_advances:
  assumes "decode_step port s = Inr (goes_on, s')"
  shows "advances ((fst s)\<lparr>image_counter := image_counter (fst s) + 1\<rparr>) (fst s')"
proof -
  obtain v j where g: "GetReadXsvfImage (fst s) = Inr (v, j)" "j = (fst s)\<lparr>image_counter := image_counter (fst s) + 1\<rparr>"
    using assms Get_counter by (fastforce simp: decode_step_def xbind_Inr)
  consider "s' = (j, snd s)" | k where "parse_command port v
      (j\<lparr>NumberOfCommands := (NumberOfCommands j)[k := NumberOfCommands j ! k + 1]\<rparr>, snd s) = Inr s'"
    using assms g(1) by (auto simp: decode_step_def xbind_Inr Let_def split: if_splits)
  then show ?thesis
  proof cases
    case 1
    then show ?thesis by (simp add: g(2) advances_def)
  next
    case 2
    from parse_command_advances[OF this] show ?thesis by (simp add: g(2) advances_def)
  qed
qed

lemma decode_loop_returns:
  "number_of_read_bytes \<le> MAX_XSVF_IMAGE_NUMBER \<Longrightarrow> decode_loop port number_of_read_bytes s \<noteq> None"
proof (induction "number_of_read_bytes - image_counter (fst s)" arbitrary: s rule: less_induct)
  case less
  show ?case
  proof (cases "image_counter (fst s) < number_of_read_bytes")
    case False
    then show ?thesis by (subst decode_loop.simps) simp
  next
    case True
    show ?thesis
    proof (cases "decode_step port s")
      case (Inl e)
      with True show ?thesis by (subst decode_loop.simps) simp
    next
      case (Inr r)
      obtain goes_on s' where r: "r = (goes_on, s')" by (cases r)
      have "image_counter (fst s) < image_counter (fst s')"
        using decode_step_advances[OF Inr[unfolded r]] True less.prems by (auto simp: advances_def)
      then have "decode_loop port number_of_read_bytes s' \<noteq> None"
        using True less.prems by (intro less.hyps) simp_all
      with True Inr r show ?thesis by (subst decode_loop.simps) simp
    qed
  qed
qed


lemma decode_step_which:
  "decode_step port s = Inr (goes_on, s') \<Longrightarrow> which_user_prom (fst s') = which_user_prom (fst s)"
  by (drule decode_step_advances) (simp add: advances_def)

lemma decode_loop_which:
  assumes "decode_loop port n s = Some r"
  shows "\<forall>s'. r = Inr s' \<longrightarrow> which_user_prom (fst s') = which_user_prom (fst s)"
proof (rule decode_loop.raw_induct[OF _ assms], goal_cases)
  case (1 rec port n s r)
  show ?case
  proof (cases "image_counter (fst s) < n")
    case True
    show ?thesis
    proof (cases "decode_step port s")
      case (Inr x)
      obtain goes_on s1 where x: "x = (goes_on, s1)" by (cases x)
      note w = decode_step_which[OF Inr[unfolded x]]
      show ?thesis
      proof (cases goes_on)
        case go: True
        then have "rec port n s1 = Some r" using 1(2) True Inr x by simp
        from 1(1)[OF this] w show ?thesis by simp
      qed (use 1(2) True Inr x w in auto)
    qed (use 1(2) True in auto)
  qed (use 1(2) in auto)
qed

section \<open>Properties\<close>

lemma enc_prog_xdr: "enc_prog c xdr prog = enc_prog c xdr' prog"
proof (induction prog arbitrary: xdr xdr')
  case (Cons x xs)
  have "enc c xdr x = enc c xdr' x" by (cases x) simp_all
  then show ?case using Cons.IH by simp
qed simp

text \<open>The decoder on the image a program was written into, started as \<^verbatim>\<open>ProgramUserProm\<close> starts it:
  in the state the writing left, with the device switched on.\<close>

lemma decode_written:
  assumes "has_cfg c j" and ok: "\<And>xdr. prog_ok c xdr prog" and "completes prog \<le> 1"
    and w: "write_prog port prog (j\<lparr>xsvf_image := []\<rparr>, h) = (j', h')"
    and j: "xsvf_image j1 = xsvf_image j'" "write_to_device j1"
  shows "\<exists>s'. DecodeXsvfImage port (length (xsvf_image j')) (j1, h1) = Some (Inr s') \<and>
     player_of s' = fold (play port c) prog (player_of (j1, h1))"
proof -
  let ?j = "j1\<lparr>NumberOfCommands := replicate NUMBER_OF_DIFFERENT_XSVF_COMMANDS 0, image_counter := 0\<rparr>"
  have "has_cfg c (j\<lparr>xsvf_image := []\<rparr>)" using assms(1) by simp
  from write_prog_enc[OF this ok, of port h] w
  have "xsvf_image j' = enc_prog c (xdr_length j) prog" by auto
  then have "unread ?j = enc_prog c (xdr_length ?j) prog"
    using j enc_prog_xdr[of c _ prog "xdr_length j1"] by (simp add: unread_def)
  moreover have "NUMBER_OF_DIFFERENT_XSVF_COMMANDS \<noteq> 0" by (simp add: NUMBER_OF_DIFFERENT_XSVF_COMMANDS_def)
  ultimately have d: "decodable c prog ?j"
    using assms(1,3) ok j(2) by (simp add: decodable_def has_cfg_def)
  have "xsvf_image ?j = xsvf_image j'" "player_of (?j, h1) = player_of (j1, h1)"
    using j by (simp_all add: player_of_def)
  with decode_loop_play[OF d, of port h1] show ?thesis
    by (simp add: DecodeXsvfImage_def)
qed

text \<open>C14. Writing a program of commands into the image and decoding the image is the same as playing
  the commands on the chain: every scan reaches the board with the same frames, in the same order
  and with the same waits, and the same number of verify errors is counted. The commands have to fit
  their encoding (sizes agree with the last \<^verbatim>\<open>XSDRSIZE\<close>, instruction frames below 256).\<close>

theorem xsvf_program_plays:
  assumes "has_cfg c j" and "\<And>xdr. prog_ok c xdr prog" and "completes prog \<le> 1"
    and "write_prog port prog (j\<lparr>xsvf_image := []\<rparr>, h) = (j', h')"
  shows "\<exists>s'. DecodeXsvfImage port (length (xsvf_image j')) (j'\<lparr>write_to_device := True\<rparr>, h') = Some (Inr s') \<and>
     player_of s' = fold (play port c) prog (player_of (j'\<lparr>write_to_device := True\<rparr>, h'))"
  by (rule decode_written[OF assms]) simp_all

definition two_chips :: chain_cfg where
  "two_chips = \<lparr>c_devices = 2, c_opcodes = [8, 8, 0, 0, 0], c_chip = 1\<rparr>"

definition two_chips_jtag :: emujtag where
  "two_chips_jtag = blank_jtag\<lparr>jtag_chain := ChainTmbUser, devices_in_chain := 2,
     bits_in_opcode := [8, 8, 0, 0, 0], which_user_prom := 1, write_to_device := False\<rparr>"

definition short_program :: "xcmd list" where
  "short_program = [XRepeat 0, XState 0, XRunTest 0, XSir 0xFE, XSdrSize 3, XTdoMask 3 [1, 1, 1],
     XSdrTdo 3 [0, 1, 0] [1, 1, 0], XRunTest 110000, XComplete]"

theorem xsvf_program_plays_witness:
  "\<exists>s'. DecodeXsvfImage chain_port
      (length (xsvf_image (fst (write_prog chain_port short_program (two_chips_jtag, replicate 16 0)))))
      ((fst (write_prog chain_port short_program (two_chips_jtag, replicate 16 0)))\<lparr>write_to_device := True\<rparr>,
       snd (write_prog chain_port short_program (two_chips_jtag, replicate 16 0))) = Some (Inr s') \<and>
     player_of s' = fold (play chain_port two_chips) short_program (player_of
      ((fst (write_prog chain_port short_program (two_chips_jtag, replicate 16 0)))\<lparr>write_to_device := True\<rparr>,
       snd (write_prog chain_port short_program (two_chips_jtag, replicate 16 0))))"
proof (rule xsvf_program_plays)
  show "has_cfg two_chips two_chips_jtag"
    by (simp add: has_cfg_def two_chips_def two_chips_jtag_def blank_jtag_def ChainTmbUser_def)
  show "prog_ok two_chips xdr short_program" for xdr
    by (simp add: short_program_def dr_ok_def two_chips_def is_bits_def MAX_NUM_FRAMES_def length_ir_of upt_rec)
  show "completes short_program \<le> 1" by (simp add: completes_def short_program_def)
  have "two_chips_jtag\<lparr>xsvf_image := []\<rparr> = two_chips_jtag" by (simp add: two_chips_jtag_def blank_jtag_def)
  then show "write_prog chain_port short_program (two_chips_jtag\<lparr>xsvf_image := []\<rparr>, replicate 16 0) =
      (fst (write_prog chain_port short_program (two_chips_jtag, replicate 16 0)),
       snd (write_prog chain_port short_program (two_chips_jtag, replicate 16 0)))"
    by simp
qed

text \<open>C15. \<^verbatim>\<open>DecodeXsvfImage_\<close> returns, with a result or an error, on every image of at most
  \<^verbatim>\<open>MAX_XSVF_IMAGE_NUMBER\<close> bytes, whatever the bytes and whatever the board answers.\<close>

theorem xsvf_decoder_returns:
  assumes "number_of_read_bytes \<le> MAX_XSVF_IMAGE_NUMBER"
  shows "\<exists>r. DecodeXsvfImage port number_of_read_bytes s = Some r"
  using decode_loop_returns[OF assms] by (simp add: DecodeXsvfImage_def)

theorem xsvf_decoder_returns_witness:
  "\<exists>r. DecodeXsvfImage chain_port 4 (blank_jtag\<lparr>xsvf_image := [0, 5, 0, 7]\<rparr>, []) = Some r"
  by (rule xsvf_decoder_returns) (simp add: MAX_XSVF_IMAGE_NUMBER_def)

end
