(* ===== verification/Prom_Image.thy ===== *)
theory Prom_Image
  imports TMB_Configure Xsvf
begin

text \<open>
  The image of a user PROM: \<^verbatim>\<open>CreateUserPromFile\<close>, \<^verbatim>\<open>InsertHeaderAndTrailer_\<close>, \<^verbatim>\<open>ComputeCheckSum_\<close>,
  \<^verbatim>\<open>ReadUserPromFile\<close> and the accesses to the image (\<^verbatim>\<open>EMUjtag.cc\<close>). The list of writes a \<^verbatim>\<open>TMB\<close>
  records while it is configured is turned into the bytes from which the board configures itself at
  power-up.

  The date comes from \<^verbatim>\<open>localtime\<close> and is a parameter. Not modelled: the copies of the image on disk
  (\<^verbatim>\<open>file_io_\<close>, false by default).
\<close>

unbundle bit_operations_syntax

definition ChipLocationTmbUserPromTMB :: int where "ChipLocationTmbUserPromTMB = 0"
definition ChipLocationTmbUserPromALCT :: int where "ChipLocationTmbUserPromALCT = 1"
definition ChipLocationTmbUserPromTMBClear :: int where "ChipLocationTmbUserPromTMBClear = 2"
definition ChipLocationTmbUserPromALCTClear :: int where "ChipLocationTmbUserPromALCTClear = 3"

definition vme_wrt_dat_ck_adr :: int where "vme_wrt_dat_ck_adr = 0x0000E2"
definition SIZE_OF_PROM :: nat where "SIZE_OF_PROM = 256"
definition NUMBER_OF_BITS_PER_ADDRESS :: nat where "NUMBER_OF_BITS_PER_ADDRESS = 8"
definition RegSizeTmbUserProm_PROMwriteData0 :: nat where "RegSizeTmbUserProm_PROMwriteData0 = 2048"
definition NUMBER_OF_BITS_PER_BLOCK :: nat where
  "NUMBER_OF_BITS_PER_BLOCK = RegSizeTmbUserProm_PROMwriteData0"
definition NUMBER_OF_ADDRESSES_PER_BLOCK :: nat where
  "NUMBER_OF_ADDRESSES_PER_BLOCK = NUMBER_OF_BITS_PER_BLOCK div NUMBER_OF_BITS_PER_ADDRESS"
definition TOTAL_NUMBER_OF_ADDRESSES :: nat where
  "TOTAL_NUMBER_OF_ADDRESSES = SIZE_OF_PROM * 1024 div NUMBER_OF_BITS_PER_ADDRESS"
definition TOTAL_NUMBER_OF_BLOCKS :: nat where
  "TOTAL_NUMBER_OF_BLOCKS = SIZE_OF_PROM * 1024 div NUMBER_OF_BITS_PER_BLOCK"

lemmas user_prom_chips = ChipLocationTmbUserPromTMB_def ChipLocationTmbUserPromALCT_def
  ChipLocationTmbUserPromTMBClear_def ChipLocationTmbUserPromALCTClear_def

lemma prom_sizes:
  "TOTAL_NUMBER_OF_ADDRESSES = 32768" "TOTAL_NUMBER_OF_BLOCKS = 128" "NUMBER_OF_ADDRESSES_PER_BLOCK = 256"
  "NUMBER_OF_BITS_PER_BLOCK = 2048"
  by (simp_all add: TOTAL_NUMBER_OF_ADDRESSES_def TOTAL_NUMBER_OF_BLOCKS_def NUMBER_OF_ADDRESSES_PER_BLOCK_def
      NUMBER_OF_BITS_PER_BLOCK_def SIZE_OF_PROM_def NUMBER_OF_BITS_PER_ADDRESS_def RegSizeTmbUserProm_PROMwriteData0_def)

text \<open>The members of \<^verbatim>\<open>EMUjtag\<close> the PROM code adds, and the vector of the \<^verbatim>\<open>TMB\<close> the PROM is clocked
  out into.\<close>

record prom =
  jt :: emujtag
  read_ascii_prom_image :: "int list"
  write_ascii_prom_image :: "int list"
  data_word_count :: nat
  prom_image_word_count :: nat
  number_of_write_bytes :: nat
  number_of_read_bytes :: nat
  alct_type_for_prom :: nat
  clocked_out_prom_image :: "int list"

record date =
  month_counting_from_one :: nat
  day :: nat
  yearAD :: nat

section \<open>The image\<close>

definition SetUserPromImage :: "nat \<Rightarrow> int \<Rightarrow> int list \<Rightarrow> int list" where
  "SetUserPromImage address value img =
     (if TOTAL_NUMBER_OF_ADDRESSES \<le> address then img
      else if 0xff < value then img
      else img[address := value AND 0xff])"

definition GetUserPromImage :: "prom \<Rightarrow> nat \<Rightarrow> int" where
  "GetUserPromImage p address =
     (if TOTAL_NUMBER_OF_ADDRESSES \<le> address then 999 else read_ascii_prom_image p ! address AND 0xff)"

definition ComputeCheckSum :: "int list \<Rightarrow> nat \<Rightarrow> nat \<Rightarrow> int" where
  "ComputeCheckSum img begin_address end_address =
     fold (\<lambda>address check_sum. (check_sum + img ! address) AND 0xff) [begin_address..<Suc end_address] 0"

text \<open>A run of \<^verbatim>\<open>SetUserPromImage_(address_counter++, value)\<close>.\<close>

fun put_words :: "int list \<Rightarrow> nat \<times> int list \<Rightarrow> nat \<times> int list" where
  "put_words [] s = s"
| "put_words (value # vs) (address_counter, img) =
     put_words vs (address_counter + 1, SetUserPromImage address_counter value img)"

definition skip_words :: "nat \<Rightarrow> nat \<times> int list \<Rightarrow> nat \<times> int list" where
  "skip_words n s = (fst s + n, snd s)"

text \<open>Two decimal digits as a byte.\<close>

definition in_hex :: "nat \<Rightarrow> nat \<Rightarrow> int" where
  "in_hex tens ones = push_bit 4 (int tens AND 0xf) OR (int ones AND 0xf)"

definition header_TMB :: "date \<Rightarrow> nat \<times> int list \<Rightarrow> nat \<times> int list" where
  "header_TMB d s =
     (let month_in_hex = in_hex (month_counting_from_one d div 10) (month_counting_from_one d mod 10);
          day_in_hex = in_hex (day d div 10) (day d mod 10);
          msb_year_in_hex = in_hex (yearAD d div 1000) (yearAD d div 100 mod 10);
          lsb_year_in_hex = in_hex (yearAD d div 10 mod 10) (yearAD d mod 10);
          version = 1; option1 = 0xaa; option2 = 0x55
      in put_words [month_in_hex, day_in_hex, lsb_year_in_hex, msb_year_in_hex, version,
             option1, option2, option1, option2, option1, option2, option1, 0xEC]
           (skip_words 2 (put_words [0xBC] s)))"

definition header_ALCT :: "date \<Rightarrow> nat \<Rightarrow> nat \<times> int list \<Rightarrow> nat \<times> int list" where
  "header_ALCT d alct_type s =
     put_words
       ([0xBA, 0x80 OR (int (alct_type div 100) AND 0xf), 0x80 OR (int (alct_type div 10 mod 10) AND 0xf),
         0x80 OR (int (alct_type mod 10) AND 0xf)] @
        map (\<lambda>digit. 0x80 OR int digit)
          [month_counting_from_one d div 10, month_counting_from_one d mod 10, day d div 10, day d mod 10,
           yearAD d div 1000, yearAD d div 100 mod 10, yearAD d div 10 mod 10, yearAD d mod 10, 1, 0, 0] @
        [0xAA]) s"

definition trailer_TMB :: "nat \<times> int list \<Rightarrow> nat \<times> int list" where
  "trailer_TMB s =
     put_words [0xFF] (skip_words 1
       (put_words [vme_wrt_dat_ck_adr AND 0xFF, 0x00, 0x00, 0xAA, 0x55, 0xFC] s))"

definition trailer_ALCT :: "nat \<times> int list \<Rightarrow> nat \<times> int list" where
  "trailer_ALCT s =
     (let (address_counter, img) = put_words [0x60, 0x64, 0xFA] s;
          word_count = int address_counter;
          (address_counter, img) =
            put_words (map (\<lambda>k. 0xC0 OR (drop_bit k word_count AND 0xf)) [12, 8, 4, 0]) (address_counter, img);
          check_sum = ComputeCheckSum img 0 (address_counter - 1)
      in put_words [0xC0 OR (drop_bit 4 check_sum AND 0xf), 0xC0 OR (check_sum AND 0xf), 0xFF]
           (address_counter, img))"

definition InsertHeaderAndTrailer :: "date \<Rightarrow> int list \<Rightarrow> prom \<Rightarrow> prom" where
  "InsertHeaderAndTrailer d data_to_go_into_prom p =
     (let which = which_user_prom (jt p);
          img = fold (\<lambda>a. SetUserPromImage a 0xff) [0..<TOTAL_NUMBER_OF_ADDRESSES] (write_ascii_prom_image p);
          s = (0, img);
          s = (if which = ChipLocationTmbUserPromTMB then header_TMB d s
               else if which = ChipLocationTmbUserPromALCT then header_ALCT d (alct_type_for_prom p) s
               else s);
          s = put_words (take (data_word_count p) data_to_go_into_prom) s;
          s = (if which = ChipLocationTmbUserPromTMB then trailer_TMB s
               else if which = ChipLocationTmbUserPromALCT then trailer_ALCT s
               else s);
          (word_count, img) = s;
          img = (if which = ChipLocationTmbUserPromTMB
                 then (let img = SetUserPromImage 1 (int word_count AND 0xff) img;
                           img = SetUserPromImage 2 (drop_bit 8 (int word_count) AND 0xff) img;
                           check_sum = ComputeCheckSum img 0 (word_count - 3)
                       in SetUserPromImage (word_count - 2) check_sum img)
                 else img);
          which = (if which = ChipLocationTmbUserPromTMBClear then ChipLocationTmbUserPromTMB
                   else if which = ChipLocationTmbUserPromALCTClear then ChipLocationTmbUserPromALCT
                   else which)
      in p\<lparr>write_ascii_prom_image := img, prom_image_word_count := word_count,
           jt := (jt p)\<lparr>which_user_prom := which\<rparr>\<rparr>)"

text \<open>The data of the four choices; a write of the TMB takes five bytes. \<open>None\<close> is any other choice.\<close>

definition tmb_words :: "int \<times> int \<times> int \<Rightarrow> int list" where
  "tmb_words w = (case w of (vme, lsb, msb) \<Rightarrow>
     [vme AND 0xff, drop_bit 8 vme AND 0xff, drop_bit 16 vme AND 0xff, lsb, msb])"

definition data_to_prom :: "int \<Rightarrow> (int \<times> int \<times> int) list \<Rightarrow> int list \<Rightarrow> int list option" where
  "data_to_prom which tmb_vecs alct_vecs =
     (if which = ChipLocationTmbUserPromTMB then Some (concat (map tmb_words tmb_vecs))
      else if which = ChipLocationTmbUserPromALCT then Some (map (\<lambda>d. d AND 0x7f) alct_vecs)
      else if which = ChipLocationTmbUserPromTMBClear
        then Some [0xab, 0x01, 0x02, 0x04, 0x08, 0x10, 0x20, 0x40, 0x80, 0xee]
      else if which = ChipLocationTmbUserPromALCTClear
        then Some [0xcd, 0x01, 0x02, 0x04, 0x08, 0x10, 0x20, 0x40, 0x80, 0xbb]
      else None)"

text \<open>\<open>None\<close>: the local array of \<^verbatim>\<open>CreateUserPromFile\<close> is written beyond its end.\<close>

definition CreateUserPromFile :: "date \<Rightarrow> (int \<times> int \<times> int) list \<Rightarrow> int list \<Rightarrow> prom \<Rightarrow> prom option" where
  "CreateUserPromFile d tmb_vecs alct_vecs p =
     (case data_to_prom (which_user_prom (jt p)) tmb_vecs alct_vecs of
        None \<Rightarrow> Some p
      | Some data \<Rightarrow>
          if TOTAL_NUMBER_OF_ADDRESSES < length data then None
          else Some (InsertHeaderAndTrailer d data (p\<lparr>data_word_count := length data\<rparr>)))"

definition ReadUserPromFile :: "prom \<Rightarrow> prom" where
  "ReadUserPromFile p =
     p\<lparr>read_ascii_prom_image :=
         map (\<lambda>a. if a < prom_image_word_count p then write_ascii_prom_image p ! a else 0xff)
           [0..<TOTAL_NUMBER_OF_ADDRESSES]\<rparr>"

section \<open>Runs of words\<close>

definition is_byte :: "int \<Rightarrow> bool" where
  "is_byte v \<longleftrightarrow> 0 \<le> v \<and> v < 256"

lemma and_ff: "v AND 255 = take_bit 8 (v :: int)"
  using take_bit_eq_mask[of 8 v] by (simp add: mask_eq_exp_minus_1)

lemma is_byte_and: "is_byte v \<Longrightarrow> v AND 255 = v"
  by (simp add: is_byte_def and_ff take_bit_int_eq_self)

lemma is_byte_and_ff [simp]: "is_byte (v AND 255)"
  using take_bit_int_less_exp[of 8 v] by (simp add: is_byte_def and_ff)

lemma length_SetUserPromImage [simp]: "length (SetUserPromImage a v img) = length img"
  by (simp add: SetUserPromImage_def)

lemma SetUserPromImage_byte:
  "is_byte v \<Longrightarrow> a < TOTAL_NUMBER_OF_ADDRESSES \<Longrightarrow> SetUserPromImage a v img = img[a := v]"
  by (simp add: SetUserPromImage_def is_byte_and) (simp add: is_byte_def)

text \<open>A run overwrites a segment of the image.\<close>

lemma put_words_eq:
  assumes "list_all is_byte vs" and "length pre + length vs \<le> TOTAL_NUMBER_OF_ADDRESSES"
    and "length old = length vs"
  shows "put_words vs (length pre, pre @ old @ rest) = (length pre + length vs, pre @ vs @ rest)"
  using assms
proof (induction vs arbitrary: pre old)
  case Nil
  then show ?case by simp
next
  case (Cons v vs)
  then obtain x xs where old: "old = x # xs" by (cases old) auto
  have "SetUserPromImage (length pre) v (pre @ old @ rest) = (pre @ [v]) @ xs @ rest"
    using Cons.prems by (simp add: old SetUserPromImage_byte)
  moreover have "put_words vs (length (pre @ [v]), (pre @ [v]) @ xs @ rest) =
      (length (pre @ [v]) + length vs, (pre @ [v]) @ vs @ rest)"
    using Cons.prems by (intro Cons.IH) (simp_all add: old)
  ultimately show ?case by simp
qed

text \<open>The image while it is filled: \<open>ws\<close> are the words so far.\<close>

definition filled :: "int list \<Rightarrow> nat \<times> int list" where
  "filled ws = (length ws, ws @ replicate (TOTAL_NUMBER_OF_ADDRESSES - length ws) 0xff)"

lemma put_words_filled:
  assumes "list_all is_byte vs" and "length ws + length vs \<le> TOTAL_NUMBER_OF_ADDRESSES"
  shows "put_words vs (filled ws) = filled (ws @ vs)"
proof -
  let ?n = "TOTAL_NUMBER_OF_ADDRESSES - length ws"
  have "replicate ?n (0xff :: int) = replicate (length vs) 0xff @ replicate (?n - length vs) 0xff"
    using assms(2) by (simp add: replicate_add[symmetric])
  with put_words_eq[OF assms, of "replicate (length vs) 0xff" "replicate (?n - length vs) 0xff"]
  show ?thesis by (simp add: filled_def)
qed

lemma skip_words_filled:
  assumes "length ws + n \<le> TOTAL_NUMBER_OF_ADDRESSES"
  shows "skip_words n (filled ws) = filled (ws @ replicate n 0xff)"
proof -
  have "replicate (TOTAL_NUMBER_OF_ADDRESSES - length ws) (0xff :: int) =
      replicate n 0xff @ replicate (TOTAL_NUMBER_OF_ADDRESSES - length ws - n) 0xff"
    using assms by (simp add: replicate_add[symmetric])
  then show ?thesis by (simp add: skip_words_def filled_def)
qed

lemma clear_image:
  assumes "length img = TOTAL_NUMBER_OF_ADDRESSES"
  shows "fold (\<lambda>a. SetUserPromImage a 0xff) [0..<TOTAL_NUMBER_OF_ADDRESSES] img = snd (filled [])"
proof -
  have "fold (\<lambda>a. SetUserPromImage a 0xff) [0..<n] img = replicate n 0xff @ drop n img"
    if "n \<le> TOTAL_NUMBER_OF_ADDRESSES" for n
    using that
  proof (induction n)
    case (Suc n)
    have "drop n img = img ! n # drop (Suc n) img"
      using Suc.prems assms by (simp add: Cons_nth_drop_Suc)
    with Suc show ?case
      by (simp add: SetUserPromImage_byte is_byte_def list_update_append flip: replicate_append_same)
  qed simp
  from this[of TOTAL_NUMBER_OF_ADDRESSES] assms show ?thesis by (simp add: filled_def)
qed

lemma ComputeCheckSum_eq:
  assumes "0 < n" and "n \<le> length img"
  shows "ComputeCheckSum img 0 (n - 1) = sum_list (take n img) mod 256"
proof -
  have "fold (\<lambda>address check_sum. (check_sum + img ! address) AND 0xff) [0..<k] 0 = sum_list (take k img) mod 256"
    if "k \<le> length img" for k
    using that
  proof (induction k)
    case (Suc k)
    have "(sum_list (take k img) mod 256 + img ! k) AND 255 = (sum_list (take k img) + img ! k) mod 256"
      by (simp add: and_ff take_bit_eq_mod mod_simps)
    with Suc show ?case by (simp add: take_Suc_conv_app_nth)
  qed simp
  from this[OF assms(2)] assms(1) show ?thesis by (simp add: ComputeCheckSum_def)
qed


section \<open>The images\<close>

lemma is_byte_numeral_small [simp]:
  "is_byte 0" "is_byte 1" "numeral k < (256 :: int) \<Longrightarrow> is_byte (numeral k)"
  by (simp_all add: is_byte_def)

lemma nibble: "v AND 0xf = take_bit 4 (v :: int)"
  using take_bit_eq_mask[of 4 v] by (simp add: mask_eq_exp_minus_1)

lemma byte_by_bits: "(\<And>i. 8 \<le> i \<Longrightarrow> \<not> bit v i) \<Longrightarrow> is_byte v"
  using nonneg_bound_by_bits[of 8 v] by (simp add: is_byte_def)

lemma high_nibble_byte: "8 \<le> i \<Longrightarrow> bit (v :: int) i \<Longrightarrow> \<not> is_byte v"
  by (metis is_byte_and and_ff bit_take_bit_iff not_le)

lemma is_byte_OR: "is_byte a \<Longrightarrow> is_byte b \<Longrightarrow> is_byte (a OR b)"
  by (rule byte_by_bits) (auto simp: bit_or_iff dest: high_nibble_byte)

lemma is_byte_nibble [simp]: "is_byte (v AND 0xf)"
  by (rule byte_by_bits) (simp add: nibble bit_take_bit_iff)

lemma is_byte_in_hex [simp]: "is_byte (in_hex t n)"
  unfolding in_hex_def
  by (rule byte_by_bits) (auto simp: nibble bit_or_iff bit_push_bit_iff bit_take_bit_iff)

lemma is_byte_mod [simp]: "is_byte (v mod 256)"
  by (simp add: is_byte_def)

definition header_words_TMB :: "date \<Rightarrow> int \<Rightarrow> int \<Rightarrow> int list" where
  "header_words_TMB d lo hi =
     [0xBC, lo, hi, in_hex (month_counting_from_one d div 10) (month_counting_from_one d mod 10),
      in_hex (day d div 10) (day d mod 10), in_hex (yearAD d div 10 mod 10) (yearAD d mod 10),
      in_hex (yearAD d div 1000) (yearAD d div 100 mod 10), 1,
      0xaa, 0x55, 0xaa, 0x55, 0xaa, 0x55, 0xaa, 0xEC]"

definition trailer_words_TMB :: "int list" where
  "trailer_words_TMB = [0xE2, 0, 0, 0xAA, 0x55, 0xFC]"

definition tmb_image :: "date \<Rightarrow> int list \<Rightarrow> int list" where
  "tmb_image d data =
     (let wc = int (length data) + 24;
          body = header_words_TMB d (wc mod 256) (wc div 256 mod 256) @ data @ trailer_words_TMB
      in body @ [sum_list body mod 256, 0xFF])"

lemma header_TMB_filled:
  "TOTAL_NUMBER_OF_ADDRESSES = 32768 \<Longrightarrow> header_TMB d (filled []) = filled (header_words_TMB d 0xff 0xff)"
  unfolding header_TMB_def header_words_TMB_def Let_def
  by (simp add: put_words_filled skip_words_filled numeral_2_eq_2 del: put_words.simps)

lemma trailer_TMB_filled:
  assumes "length ws + 8 \<le> TOTAL_NUMBER_OF_ADDRESSES"
  shows "trailer_TMB (filled ws) = filled (ws @ trailer_words_TMB @ [0xff, 0xff])"
proof -
  have "vme_wrt_dat_ck_adr AND 0xFF = 0xE2" by (simp add: vme_wrt_dat_ck_adr_def)
  with assms show ?thesis
    unfolding trailer_TMB_def trailer_words_TMB_def
    by (simp add: put_words_filled skip_words_filled del: put_words.simps)
qed

lemma Set_filled:
  assumes "is_byte v" and "a < length ws" and "length ws \<le> TOTAL_NUMBER_OF_ADDRESSES"
  shows "SetUserPromImage a v (snd (filled ws)) = snd (filled (ws[a := v]))"
  using assms by (simp add: filled_def SetUserPromImage_byte list_update_append)

lemma InsertHeaderAndTrailer_TMB:
  assumes which: "which_user_prom (jt p) = ChipLocationTmbUserPromTMB"
    and img: "length (write_ascii_prom_image p) = TOTAL_NUMBER_OF_ADDRESSES"
    and data: "data_word_count p = length data" "list_all is_byte data"
    and fits: "length data + 24 \<le> TOTAL_NUMBER_OF_ADDRESSES"
  shows "InsertHeaderAndTrailer d data p =
     p\<lparr>write_ascii_prom_image := snd (filled (tmb_image d data)), prom_image_word_count := length data + 24\<rparr>"
proof -
  let ?wc = "length data + 24"
  define raw where "raw = header_words_TMB d 0xff 0xff @ data @ trailer_words_TMB @ [0xff, 0xff]"
  define body where "body = header_words_TMB d (int ?wc mod 256) (int ?wc div 256 mod 256) @ data @ trailer_words_TMB"
  have len: "length raw = ?wc" "length body = ?wc - 2"
    by (simp_all add: raw_def body_def header_words_TMB_def trailer_words_TMB_def)
  have s: "trailer_TMB (put_words data (header_TMB d (0, snd (filled [])))) = filled raw"
  proof -
    have f0: "(0, snd (filled [])) = filled []" by (simp add: filled_def)
    have "length (header_words_TMB d 0xff 0xff) = 16" by (simp add: header_words_TMB_def)
    then show ?thesis
      unfolding f0 using fits data(2)
      by (simp add: header_TMB_filled prom_sizes(1) put_words_filled trailer_TMB_filled raw_def)
  qed
  have w12: "(raw[1 := int ?wc AND 0xff])[2 := drop_bit 8 (int ?wc) AND 0xff] = body @ [0xff, 0xff]"
    by (simp add: raw_def body_def header_words_TMB_def and_ff drop_bit_eq_div take_bit_eq_mod)
  have sum: "ComputeCheckSum (snd (filled (body @ [0xff, 0xff]))) 0 (?wc - 3) = sum_list body mod 256"
    using ComputeCheckSum_eq[of "?wc - 2" "snd (filled (body @ [0xff, 0xff]))"] len(2) fits
    by (simp add: filled_def)
  have "tmb_image d data = body @ [sum_list body mod 256, 0xff]"
    by (simp add: tmb_image_def body_def Let_def)
  then have set3: "(body @ [0xff, 0xff])[?wc - 2 := sum_list body mod 256] = tmb_image d data"
    unfolding len(2)[symmetric] by (simp only: list_update_length)
  have "0 \<le> ?wc" "1 < length raw" "2 < length (raw[1 := int ?wc AND 0xff])" "length raw \<le> TOTAL_NUMBER_OF_ADDRESSES"
    using len(1) fits by simp_all
  then have "SetUserPromImage 2 (drop_bit 8 (int ?wc) AND 0xff) (SetUserPromImage 1 (int ?wc AND 0xff) (snd (filled raw))) =
      snd (filled (body @ [0xff, 0xff]))"
    unfolding w12[symmetric] by (simp add: Set_filled)
  moreover have "SetUserPromImage (?wc - 2) (sum_list body mod 256) (snd (filled (body @ [0xff, 0xff]))) =
      snd (filled (tmb_image d data))"
    unfolding set3[symmetric] using len(2) fits by (intro Set_filled) simp_all
  moreover have "fst (filled raw) = ?wc" by (simp add: filled_def len(1))
  ultimately show ?thesis
    using s which sum data(1)
    by (simp add: InsertHeaderAndTrailer_def Let_def split_beta clear_image[OF img] user_prom_chips)
qed


text \<open>The image of the ALCT PROM: a word count of four digits and a check sum of two.\<close>

definition header_words_ALCT :: "date \<Rightarrow> nat \<Rightarrow> int list" where
  "header_words_ALCT d alct_type =
     [0xBA, 0x80 OR (int (alct_type div 100) AND 0xf), 0x80 OR (int (alct_type div 10 mod 10) AND 0xf),
         0x80 OR (int (alct_type mod 10) AND 0xf)] @
        map (\<lambda>digit. 0x80 OR int digit)
          [month_counting_from_one d div 10, month_counting_from_one d mod 10, day d div 10, day d mod 10,
           yearAD d div 1000, yearAD d div 100 mod 10, yearAD d div 10 mod 10, yearAD d mod 10, 1, 0, 0] @
        [0xAA]"

definition alct_image :: "date \<Rightarrow> nat \<Rightarrow> int list \<Rightarrow> int list" where
  "alct_image d alct_type data =
     (let base = header_words_ALCT d alct_type @ data @ [0x60, 0x64, 0xFA];
          body = base @ map (\<lambda>k. 0xC0 OR (drop_bit k (int (length base)) AND 0xf)) [12, 8, 4, 0];
          check_sum = sum_list body mod 256
      in body @ [0xC0 OR (drop_bit 4 check_sum AND 0xf), 0xC0 OR (check_sum AND 0xf), 0xFF])"

definition valid_date :: "date \<Rightarrow> bool" where
  "valid_date d \<longleftrightarrow> month_counting_from_one d < 100 \<and> day d < 100 \<and> yearAD d < 10000"

lemma header_ALCT_bytes: "valid_date d \<Longrightarrow> list_all is_byte (header_words_ALCT d ty)"
proof -
  assume "valid_date d"
  then have "month_counting_from_one d div 10 < 256" "day d div 10 < 256" "yearAD d div 1000 < 256"
    by (simp_all add: valid_date_def div_less_iff_less_mult)
  moreover have "is_byte (int n)" if "n < 256" for n using that by (simp add: is_byte_def)
  moreover have "is_byte (int (n mod 10))" for n by (simp add: is_byte_def)
  ultimately show ?thesis by (simp add: header_words_ALCT_def is_byte_OR)
qed

lemma InsertHeaderAndTrailer_ALCT:
  assumes which: "which_user_prom (jt p) = ChipLocationTmbUserPromALCT"
    and img: "length (write_ascii_prom_image p) = TOTAL_NUMBER_OF_ADDRESSES"
    and data: "data_word_count p = length data" "list_all is_byte data"
    and fits: "length data + 26 \<le> TOTAL_NUMBER_OF_ADDRESSES" and date: "valid_date d"
  shows "InsertHeaderAndTrailer d data p =
     p\<lparr>write_ascii_prom_image := snd (filled (alct_image d (alct_type_for_prom p) data)),
       prom_image_word_count := length data + 26\<rparr>"
proof -
  let ?h = "header_words_ALCT d (alct_type_for_prom p)"
  define base where "base = ?h @ data @ [0x60, 0x64, 0xFA]"
  define wc where "wc = map (\<lambda>k. 0xC0 OR (drop_bit k (int (length base)) AND 0xf)) [12, 8, 4, 0]"
  define cs where "cs = sum_list (base @ wc) mod 256"
  have image: "alct_image d (alct_type_for_prom p) data =
      (base @ wc) @ [0xC0 OR (drop_bit 4 cs AND 0xf), 0xC0 OR (cs AND 0xf), 0xFF]"
    by (simp only: alct_image_def Let_def base_def wc_def cs_def)
  have f0: "(0, snd (filled [])) = filled []" by (simp add: filled_def)
  have len: "length base = length data + 19" "length wc = 4" "length ?h = 16"
    by (simp_all add: base_def wc_def header_words_ALCT_def)
  have bytes: "list_all is_byte wc" by (simp add: wc_def is_byte_OR)
  have "header_ALCT d (alct_type_for_prom p) (filled []) = put_words ?h (filled [])"
    unfolding header_ALCT_def header_words_ALCT_def ..
  also have "\<dots> = filled ?h"
    using put_words_filled[OF header_ALCT_bytes[OF date], of "[]"] fits len(3) by simp
  finally have h: "header_ALCT d (alct_type_for_prom p) (filled []) = filled ?h" .
  have d: "put_words data (filled ?h) = filled (?h @ data)"
    using fits len(3) by (intro put_words_filled data(2)) simp
  have b: "put_words [0x60, 0x64, 0xFA] (filled (?h @ data)) = filled base"
    using put_words_filled[of "[0x60, 0x64, 0xFA]" "?h @ data"] fits len(3) by (simp add: base_def)
  have w: "put_words wc (filled base) = filled (base @ wc)"
    using fits len by (intro put_words_filled bytes) simp
  have "length (base @ wc) \<le> length (snd (filled (base @ wc)))" by (simp add: filled_def)
  then have "ComputeCheckSum (snd (filled (base @ wc))) 0 (length (base @ wc) - 1) = cs"
    using ComputeCheckSum_eq[of "length (base @ wc)" "snd (filled (base @ wc))"] len(1)
    by (simp add: cs_def filled_def)
  moreover have "put_words [0xC0 OR (drop_bit 4 cs AND 0xf), 0xC0 OR (cs AND 0xf), 0xFF] (filled (base @ wc)) =
      filled (alct_image d (alct_type_for_prom p) data)"
    unfolding image using fits len by (intro put_words_filled) (simp_all add: is_byte_OR)
  moreover define img1 img2 where "img1 = snd (filled base)" and "img2 = snd (filled (base @ wc))"
  then have i: "filled base = (length base, img1)" "filled (base @ wc) = (length (base @ wc), img2)"
    by (simp_all add: filled_def)
  ultimately have "trailer_ALCT (filled (?h @ data)) = filled (alct_image d (alct_type_for_prom p) data)"
    using w by (simp only: trailer_ALCT_def Let_def b i prod.case snd_conv flip: wc_def)
  with h d have s: "trailer_ALCT (put_words data (header_ALCT d (alct_type_for_prom p) (0, snd (filled [])))) =
      filled (alct_image d (alct_type_for_prom p) data)"
    by (simp add: f0)
  have "length (alct_image d (alct_type_for_prom p) data) = length data + 26"
    unfolding image using len by simp
  then show ?thesis
    using s which data(1)
    by (simp add: InsertHeaderAndTrailer_def Let_def split_beta clear_image[OF img] user_prom_chips)
      (simp add: filled_def)
qed

section \<open>What the board reads out of an image\<close>

text \<open>The format as the comments of \<^verbatim>\<open>CreateUserPromFile\<close> give it: after the header of sixteen words every
  write takes five words, up to the trailer of eight; the total number of words is in words 1 and 2.\<close>

definition prom_write_at :: "int list \<Rightarrow> nat \<Rightarrow> int \<times> int" where
  "prom_write_at img k =
     (let a = 16 + 5 * k
      in (img ! a + 256 * img ! (a + 1) + 65536 * img ! (a + 2), img ! (a + 3) + 256 * img ! (a + 4)))"

definition prom_writes :: "int list \<Rightarrow> (int \<times> int) list" where
  "prom_writes img =
     (let wc = nat (img ! 1 + 256 * img ! 2) in map (prom_write_at img) [0..<(wc - 24) div 5])"

lemma length_tmb_words [simp]: "length (tmb_words w) = 5"
  by (simp add: tmb_words_def split_beta)

lemma length_concat_tmb_words: "length (concat (map tmb_words ws)) = 5 * length ws"
  by (induction ws) simp_all

lemma nth_concat_tmb_words:
  assumes "k < length ws" and "i < 5"
  shows "concat (map tmb_words ws) ! (5 * k + i) = tmb_words (ws ! k) ! i"
  using assms
proof (induction ws arbitrary: k)
  case (Cons w ws)
  then show ?case by (cases k) (simp_all add: nth_append)
qed simp

lemma byte_arith: "(v :: int) AND 255 = v mod 256" "drop_bit 8 v = v div 256" "drop_bit 16 v = v div 65536"
  by (simp_all add: and_ff take_bit_eq_mod drop_bit_eq_div)

lemma int_3_bytes:
  assumes "0 \<le> a" and "a < 2 ^ 24"
  shows "(a AND 255) + 256 * (drop_bit 8 a AND 255) + 65536 * (drop_bit 16 a AND 255) = (a :: int)"
proof -
  have "a div 65536 mod 256 = a div 65536" using assms by (simp add: div_int_pos_iff)
  moreover have "a = a mod 256 + 256 * (a div 256)" by simp
  moreover have "a div 256 = a div 256 mod 256 + 256 * (a div 256 div 256)" by (metis mod_mult_div_eq)
  moreover have "a div 256 div 256 = a div 65536" by (simp add: zdiv_zmult2_eq[symmetric])
  ultimately show ?thesis unfolding byte_arith by linarith
qed

lemma int_2_bytes:
  assumes "0 \<le> a" and "a < 2 ^ 16"
  shows "(a AND 255) + 256 * (drop_bit 8 a AND 255) = (a :: int)"
proof -
  have "a div 256 mod 256 = a div 256" using assms by simp
  moreover have "a = a mod 256 + 256 * (a div 256)" by simp
  ultimately show ?thesis unfolding byte_arith by linarith
qed

lemma prom_write_at_image:
  assumes "k < length ws" and "ws ! k = (vme, lsb, msb)" and "0 \<le> vme" and "vme < 2 ^ 24"
  shows "prom_write_at (tmb_image d (concat (map tmb_words ws)) @ rest) k = (vme, lsb + 256 * msb)"
proof -
  let ?img = "tmb_image d (concat (map tmb_words ws)) @ rest"
  have w: "?img ! (16 + 5 * k + i) = tmb_words (ws ! k) ! i" if "i < 5" for i
  proof -
    have "5 * k + i < length (concat (map tmb_words ws))"
      using that assms(1) by (simp add: length_concat_tmb_words)
    then have "?img ! (16 + (5 * k + i)) = concat (map tmb_words ws) ! (5 * k + i)"
      by (simp add: tmb_image_def Let_def header_words_TMB_def nth_append)
    then show ?thesis using nth_concat_tmb_words[OF assms(1) that] by (simp add: add.assoc)
  qed
  from w[of 0] w[of 1] w[of 2] w[of 3] w[of 4] show ?thesis
    using int_3_bytes[OF assms(3,4)] assms(2)
    by (simp add: prom_write_at_def Let_def tmb_words_def add.assoc numeral_eq_Suc)
qed

lemma prom_writes_image:
  assumes "length ws \<le> 6000" and "\<And>vme lsb msb. (vme, lsb, msb) \<in> set ws \<Longrightarrow> 0 \<le> vme \<and> vme < 2 ^ 24"
  shows "prom_writes (tmb_image d (concat (map tmb_words ws)) @ rest) = map (\<lambda>(vme, lsb, msb). (vme, lsb + 256 * msb)) ws"
proof -
  let ?img = "tmb_image d (concat (map tmb_words ws)) @ rest"
  define wc where "wc = 5 * int (length ws) + 24"
  have "?img ! 1 = wc mod 256" "?img ! 2 = wc div 256 mod 256"
    by (simp_all add: tmb_image_def Let_def header_words_TMB_def length_concat_tmb_words wc_def nth_Cons')
  moreover have "wc div 256 mod 256 = wc div 256" using assms(1) by (simp add: wc_def)
  ultimately have "nat (?img ! 1 + 256 * ?img ! 2) = 5 * length ws + 24"
    by (simp add: wc_def)
  then have "prom_writes ?img = map (prom_write_at ?img) [0..<length ws]" by (simp add: prom_writes_def)
  also have "\<dots> = map (\<lambda>k. (\<lambda>(vme, lsb, msb). (vme, lsb + 256 * msb)) (ws ! k)) [0..<length ws]"
  proof (rule map_cong[OF refl])
    fix k assume k: "k \<in> set [0..<length ws]"
    obtain vme lsb msb where w: "ws ! k = (vme, lsb, msb)" by (cases "ws ! k")
    then have "(vme, lsb, msb) \<in> set ws" using k by (metis atLeastLessThan_iff nth_mem set_upt)
    then show "prom_write_at ?img k = (\<lambda>(vme, lsb, msb). (vme, lsb + 256 * msb)) (ws ! k)"
      using prom_write_at_image[OF _ w] k assms(2) w by simp
  qed
  also have "\<dots> = map (\<lambda>(vme, lsb, msb). (vme, lsb + 256 * msb)) ws" by (rule nth_equalityI) simp_all
  finally show ?thesis .
qed


section \<open>The writes recorded by the configuration\<close>

lemma config_writable: "a \<in> set TMBConfigurationRegister \<Longrightarrow> OkTMBVmeWrite a"
  by (auto simp: OkTMBVmeWrite_def list_ex_iff)

lemma config_adr_range: "a \<in> set TMBConfigurationRegister \<Longrightarrow> 0 \<le> a \<and> a < 2 ^ 24"
  unfolding TMBConfigurationRegister_def by (auto simp: adr_defs)

definition recorded :: "tmb \<Rightarrow> int \<Rightarrow> int \<times> int \<times> int" where
  "recorded t a = (a, FillTMBRegister a t AND 0xff, drop_bit 8 (FillTMBRegister a t) AND 0xff)"

lemma WriteRegister_records:
  assumes "a \<in> set TMBConfigurationRegister" and "fill_vme_write_vecs (fst s)" and "same_config t (fst s)"
  shows "vme_write_vecs (fst (WriteRegister wrv a s)) = vme_write_vecs (fst s) @ [recorded t a]"
    and "fill_vme_write_vecs (fst (WriteRegister wrv a s))"
  using assms(2) config_writable[OF assms(1)] Fill_known[OF config_known[OF assms(1)], of "fst s"] Fill_cong[OF assms(3)]
  by (simp_all add: WriteRegister_def tmb_vme_write_def Let_def recorded_def)

lemma fold_WriteRegister_records:
  assumes "set regs \<subseteq> set TMBConfigurationRegister" and "fill_vme_write_vecs (fst s)" and "same_config t (fst s)"
  shows "vme_write_vecs (fst (fold (WriteRegister wrv) regs s)) = vme_write_vecs (fst s) @ map (recorded t) regs"
  using assms
proof (induction regs arbitrary: s)
  case (Cons a regs)
  have "same_config t (fst (WriteRegister wrv a s))"
    by (rule same_config_trans[OF Cons.prems(3) WriteRegister_config])
  with Cons.IH[of "WriteRegister wrv a s"] Cons.prems WriteRegister_records[of a s t wrv] show ?case by simp
qed simp

lemma recorded_writes:
  "fill_vme_write_vecs t \<Longrightarrow>
   vme_write_vecs (fst (configure_registers wrv (t, h))) = vme_write_vecs t @ map (recorded t) TMBConfigurationRegister"
  using fold_WriteRegister_records[of TMBConfigurationRegister "(t, h)" t wrv]
  by (simp add: configure_registers_def)

lemma configure_trace:
  "snd (configure_registers (\<lambda>a d tr. tr @ [(a, d)]) (t, tr)) =
     tr @ map (\<lambda>a. (a, FillTMBRegister a t)) TMBConfigurationRegister"
proof -
  have "write_all (\<lambda>a d tr. tr @ [(a, d)]) t regs tr = tr @ map (\<lambda>a. (a, FillTMBRegister a t)) regs" for regs
    unfolding write_all_def by (induction regs arbitrary: tr) simp_all
  then show ?thesis by (simp add: configure_registers_writes)
qed

lemma recorded_word:
  assumes "a \<in> set TMBConfigurationRegister"
  shows "(\<lambda>(vme, lsb, msb). (vme, lsb + 256 * msb)) (recorded t a) = (a, FillTMBRegister a t)"
  using int_2_bytes Fill_known[OF config_known[OF assms], of t] by (simp add: recorded_def)

lemma tmb_words_bytes:
  "(\<And>vme lsb msb. (vme, lsb, msb) \<in> set ws \<Longrightarrow> is_byte lsb \<and> is_byte msb) \<Longrightarrow>
   list_all is_byte (concat (map tmb_words ws))"
  by (fastforce simp: list_all_iff tmb_words_def)

lemma CreateUserPromFile_TMB:
  assumes "which_user_prom (jt p) = ChipLocationTmbUserPromTMB"
    and "length (write_ascii_prom_image p) = TOTAL_NUMBER_OF_ADDRESSES"
    and "\<And>vme lsb msb. (vme, lsb, msb) \<in> set ws \<Longrightarrow> is_byte lsb \<and> is_byte msb"
    and "5 * length ws + 24 \<le> TOTAL_NUMBER_OF_ADDRESSES"
  shows "CreateUserPromFile d ws av p = Some (p\<lparr>data_word_count := 5 * length ws,
     write_ascii_prom_image := snd (filled (tmb_image d (concat (map tmb_words ws)))),
     prom_image_word_count := 5 * length ws + 24\<rparr>)"
  using InsertHeaderAndTrailer_TMB[of "p\<lparr>data_word_count := 5 * length ws\<rparr>" "concat (map tmb_words ws)" d]
    tmb_words_bytes[OF assms(3)] assms(1,2,4)
  by (simp add: CreateUserPromFile_def data_to_prom_def user_prom_chips length_concat_tmb_words)

section \<open>Properties\<close>

definition some_date :: date where
  "some_date = \<lparr>month_counting_from_one = 9, day = 27, yearAD = 2010\<rparr>"

definition blank_prom :: "int \<Rightarrow> prom" where
  "blank_prom which = \<lparr>jt = blank_jtag\<lparr>which_user_prom := which\<rparr>,
     read_ascii_prom_image = replicate TOTAL_NUMBER_OF_ADDRESSES 0,
     write_ascii_prom_image = replicate TOTAL_NUMBER_OF_ADDRESSES 0, data_word_count = 0,
     prom_image_word_count = 0, number_of_write_bytes = 0, number_of_read_bytes = 0,
     alct_type_for_prom = 384, clocked_out_prom_image = []\<rparr>"

text \<open>C16. The image of the TMB user PROM: header with the date and the total number of words, five
  words for every recorded write, the closing write of the check pattern, the sum of all words
  before it modulo 256, the end mark, and 0xFF up to the size of the PROM. Its length fits and
  no word is dropped.\<close>

theorem tmb_prom_image:
  assumes "which_user_prom (jt p) = ChipLocationTmbUserPromTMB"
    and "length (write_ascii_prom_image p) = TOTAL_NUMBER_OF_ADDRESSES"
    and "\<And>vme lsb msb. (vme, lsb, msb) \<in> set ws \<Longrightarrow> is_byte lsb \<and> is_byte msb"
    and "5 * length ws + 24 \<le> TOTAL_NUMBER_OF_ADDRESSES"
  shows "\<exists>p' body. CreateUserPromFile d ws av p = Some p' \<and>
     prom_image_word_count p' = 5 * length ws + 24 \<and>
     body = header_words_TMB d (int (5 * length ws + 24) mod 256) (int (5 * length ws + 24) div 256 mod 256) @
       concat (map tmb_words ws) @ trailer_words_TMB \<and>
     write_ascii_prom_image p' = body @ [sum_list body mod 256, 0xFF] @
       replicate (TOTAL_NUMBER_OF_ADDRESSES - prom_image_word_count p') 0xFF"
proof -
  define data where "data = concat (map tmb_words ws)"
  have len: "length data = 5 * length ws" by (simp add: data_def length_concat_tmb_words)
  define body where "body = header_words_TMB d (int (5 * length ws + 24) mod 256)
      (int (5 * length ws + 24) div 256 mod 256) @ data @ trailer_words_TMB"
  have "tmb_image d data = body @ [sum_list body mod 256, 0xFF]"
    by (simp only: tmb_image_def Let_def body_def len of_nat_add of_nat_mult of_nat_numeral)
  moreover have "length body + 2 = 5 * length ws + 24"
    by (simp add: body_def header_words_TMB_def trailer_words_TMB_def len)
  ultimately have image: "snd (filled (tmb_image d data)) = body @ [sum_list body mod 256, 0xFF] @
      replicate (TOTAL_NUMBER_OF_ADDRESSES - (5 * length ws + 24)) 0xFF"
    by (simp add: filled_def)
  define p' where "p' = p\<lparr>data_word_count := 5 * length ws,
      write_ascii_prom_image := snd (filled (tmb_image d data)), prom_image_word_count := 5 * length ws + 24\<rparr>"
  have "CreateUserPromFile d ws av p = Some p'"
    unfolding p'_def data_def by (rule CreateUserPromFile_TMB[OF assms])
  moreover have "prom_image_word_count p' = 5 * length ws + 24"
    "write_ascii_prom_image p' = snd (filled (tmb_image d data))"
    by (simp_all add: p'_def)
  ultimately show ?thesis
    using image body_def unfolding data_def by (intro exI[of _ p'] exI[of _ body] conjI) simp_all
qed

theorem tmb_prom_image_witness:
  "\<exists>p' body. CreateUserPromFile some_date [(0x84, 0x21, 0x43)] [] (blank_prom 0) = Some p' \<and>
     prom_image_word_count p' = 29 \<and>
     body = [0xBC, 29, 0, 0x09, 0x27, 0x10, 0x20, 1, 0xaa, 0x55, 0xaa, 0x55, 0xaa, 0x55, 0xaa, 0xEC,
       0x84, 0, 0, 0x21, 0x43, 0xE2, 0, 0, 0xAA, 0x55, 0xFC] \<and>
     write_ascii_prom_image p' = body @ [0x92, 0xFF] @
       replicate (TOTAL_NUMBER_OF_ADDRESSES - prom_image_word_count p') 0xFF"
proof -
  have "\<exists>p' body. CreateUserPromFile some_date [(0x84, 0x21, 0x43)] [] (blank_prom 0) = Some p' \<and>
     prom_image_word_count p' = 5 * length [(0x84, 0x21, 0x43) :: int \<times> int \<times> int] + 24 \<and>
     body = header_words_TMB some_date (int (5 * length [(0x84, 0x21, 0x43) :: int \<times> int \<times> int] + 24) mod 256)
         (int (5 * length [(0x84, 0x21, 0x43) :: int \<times> int \<times> int] + 24) div 256 mod 256) @
       concat (map tmb_words [(0x84, 0x21, 0x43)]) @ trailer_words_TMB \<and>
     write_ascii_prom_image p' = body @ [sum_list body mod 256, 0xFF] @
       replicate (TOTAL_NUMBER_OF_ADDRESSES - prom_image_word_count p') 0xFF"
    by (rule tmb_prom_image) (auto simp: blank_prom_def user_prom_chips is_byte_def prom_sizes(1))
  then show ?thesis
    by (simp add: header_words_TMB_def trailer_words_TMB_def tmb_words_def some_date_def in_hex_def)
qed

text \<open>C17. The image of the ALCT user PROM: every word is a byte, the four count digits of the trailer
  hold the number of words before them, and the two sum digits the sum of everything before them.\<close>

theorem alct_prom_image:
  assumes "which_user_prom (jt p) = ChipLocationTmbUserPromALCT"
    and "length (write_ascii_prom_image p) = TOTAL_NUMBER_OF_ADDRESSES"
    and "length av + 26 \<le> TOTAL_NUMBER_OF_ADDRESSES" and "valid_date d"
  shows "\<exists>p' base body. CreateUserPromFile d ws av p = Some p' \<and>
     base = header_words_ALCT d (alct_type_for_prom p) @ map (\<lambda>v. v AND 0x7f) av @ [0x60, 0x64, 0xFA] \<and>
     body = base @ map (\<lambda>k. 0xC0 OR (drop_bit k (int (length av) + 19) AND 0xf)) [12, 8, 4, 0] \<and>
     prom_image_word_count p' = length av + 26 \<and>
     write_ascii_prom_image p' = body @
       map (\<lambda>k. 0xC0 OR (drop_bit k (sum_list body mod 256) AND 0xf)) [4, 0] @ [0xFF] @
       replicate (TOTAL_NUMBER_OF_ADDRESSES - prom_image_word_count p') 0xFF"
proof -
  define data where "data = map (\<lambda>v. v AND 0x7f) av"
  define base where "base = header_words_ALCT d (alct_type_for_prom p) @ data @ [0x60, 0x64, 0xFA]"
  define body where "body = base @ map (\<lambda>k. 0xC0 OR (drop_bit k (int (length av) + 19) AND 0xf)) [12, 8, 4, 0]"
  have len: "length base = length av + 19" "length data = length av"
    by (simp_all add: base_def data_def header_words_ALCT_def)
  have n: "int (length base) = int (length av) + 19" using len by simp
  have image: "alct_image d (alct_type_for_prom p) data = body @
      map (\<lambda>k. 0xC0 OR (drop_bit k (sum_list body mod 256) AND 0xf)) [4, 0] @ [0xFF]"
    unfolding alct_image_def Let_def base_def[symmetric] n body_def[symmetric] by simp
  have "length body = length av + 23" using len by (simp add: body_def)
  then have f: "snd (filled (alct_image d (alct_type_for_prom p) data)) = body @
      map (\<lambda>k. 0xC0 OR (drop_bit k (sum_list body mod 256) AND 0xf)) [4, 0] @ [0xFF] @
      replicate (TOTAL_NUMBER_OF_ADDRESSES - (length av + 26)) 0xFF"
    by (simp add: filled_def image)
  have "is_byte (v AND 0x7f)" for v
    using take_bit_int_less_exp[of 7 v] take_bit_eq_mask[of 7 v]
    by (simp add: is_byte_def mask_eq_exp_minus_1)
  then have bytes: "list_all is_byte data" by (simp add: data_def list_all_iff)
  have "data_to_prom (which_user_prom (jt p)) ws av = Some data"
    using assms(1) by (simp add: data_to_prom_def user_prom_chips data_def)
  then have "CreateUserPromFile d ws av p = Some (InsertHeaderAndTrailer d data (p\<lparr>data_word_count := length data\<rparr>))"
    using assms(3) len(2) by (simp add: CreateUserPromFile_def)
  also have "\<dots> = Some (p\<lparr>data_word_count := length data,
      write_ascii_prom_image := snd (filled (alct_image d (alct_type_for_prom p) data)),
      prom_image_word_count := length av + 26\<rparr>)"
    using InsertHeaderAndTrailer_ALCT[of "p\<lparr>data_word_count := length data\<rparr>" data d] assms bytes len(2) by simp
  finally show ?thesis
    unfolding data_def[symmetric] base_def[symmetric]
    by (intro exI[of _ base] exI[of _ body] exI conjI) (assumption | simp only: f body_def refl | simp add: f)+
qed

theorem alct_prom_image_witness:
  "\<exists>p' base body. CreateUserPromFile some_date [] [5, 0x85] (blank_prom 1) = Some p' \<and>
     base = [0xBA, 0x83, 0x88, 0x84, 0x80, 0x89, 0x82, 0x87, 0x82, 0x80, 0x81, 0x80, 0x81, 0x80, 0x80, 0xAA,
       5, 5, 0x60, 0x64, 0xFA] \<and>
     body = base @ [0xC0, 0xC0, 0xC1, 0xC5] \<and> prom_image_word_count p' = 28 \<and>
     write_ascii_prom_image p' = body @ [0xC5, 0xC7, 0xFF] @
       replicate (TOTAL_NUMBER_OF_ADDRESSES - prom_image_word_count p') 0xFF"
proof -
  have "\<exists>p' base body. CreateUserPromFile some_date [] [5, 0x85] (blank_prom 1) = Some p' \<and>
     base = header_words_ALCT some_date (alct_type_for_prom (blank_prom 1)) @ map (\<lambda>v. v AND 0x7f) [5, 0x85] @
       [0x60, 0x64, 0xFA] \<and>
     body = base @ map (\<lambda>k. 0xC0 OR (drop_bit k (int (length [5 :: int, 0x85]) + 19) AND 0xf)) [12, 8, 4, 0] \<and>
     prom_image_word_count p' = length [5 :: int, 0x85] + 26 \<and>
     write_ascii_prom_image p' = body @
       map (\<lambda>k. 0xC0 OR (drop_bit k (sum_list body mod 256) AND 0xf)) [4, 0] @ [0xFF] @
       replicate (TOTAL_NUMBER_OF_ADDRESSES - prom_image_word_count p') 0xFF"
    by (rule alct_prom_image) (auto simp: blank_prom_def user_prom_chips prom_sizes(1) valid_date_def some_date_def)
  then show ?thesis
    by (simp add: header_words_ALCT_def some_date_def blank_prom_def)
qed

text \<open>C18. Configuring for the PROM and reading the image back gives the writes of the configuration:
  the five-word records of the image, read as the board reads them, are exactly the address and word
  pairs \<^verbatim>\<open>configure\<close> sent to the board, in the same order.\<close>

theorem configured_image_replays:
  assumes "which_user_prom (jt p) = ChipLocationTmbUserPromTMB"
    and "length (write_ascii_prom_image p) = TOTAL_NUMBER_OF_ADDRESSES"
  shows "\<exists>p'. CreateUserPromFile d
       (vme_write_vecs (fst (configure_registers wrv (configure_begin True t, h)))) av p = Some p' \<and>
     prom_writes (write_ascii_prom_image p') =
       snd (configure_registers (\<lambda>a w trace. trace @ [(a, w)]) (configure_begin True t, []))"
proof -
  let ?t = "configure_begin True t"
  let ?ws = "map (recorded ?t) TMBConfigurationRegister"
  have ws: "vme_write_vecs (fst (configure_registers wrv (?t, h))) = ?ws"
    by (subst recorded_writes) (simp_all add: configure_begin_def)
  have n: "length TMBConfigurationRegister \<le> 100" by (simp add: TMBConfigurationRegister_def)
  have bytes: "is_byte lsb \<and> is_byte msb" if "(vme, lsb, msb) \<in> set ?ws" for vme lsb msb
    using that by (auto simp: recorded_def)
  have range: "0 \<le> vme \<and> vme < 2 ^ 24" if "(vme, lsb, msb) \<in> set ?ws" for vme lsb msb
  proof -
    have "vme \<in> set TMBConfigurationRegister" using that by (auto simp: recorded_def)
    then show ?thesis by (rule config_adr_range)
  qed
  have fits: "5 * length ?ws + 24 \<le> TOTAL_NUMBER_OF_ADDRESSES" using n by (simp add: prom_sizes(1))
  have "prom_writes (snd (filled (tmb_image d (concat (map tmb_words ?ws))))) =
      map (\<lambda>(vme, lsb, msb). (vme, lsb + 256 * msb)) ?ws"
    unfolding filled_def snd_conv by (rule prom_writes_image) (use n range in simp_all)
  also have "\<dots> = map (\<lambda>a. (a, FillTMBRegister a ?t)) TMBConfigurationRegister"
    unfolding map_map comp_def by (rule map_cong[OF refl recorded_word])
  also have "\<dots> = snd (configure_registers (\<lambda>a w trace. trace @ [(a, w)]) (?t, []))"
    by (simp add: configure_trace)
  finally show ?thesis
    unfolding ws using CreateUserPromFile_TMB[OF assms bytes fits] by simp
qed

theorem configured_image_replays_witness:
  "\<exists>p'. CreateUserPromFile some_date
       (vme_write_vecs (fst (configure_registers (\<lambda>a w h. h) (configure_begin True blank_tmb, ())))) [] (blank_prom 0) = Some p' \<and>
     prom_writes (write_ascii_prom_image p') =
       snd (configure_registers (\<lambda>a w trace. trace @ [(a, w)]) (configure_begin True blank_tmb, []))"
  by (rule configured_image_replays) (simp_all add: blank_prom_def user_prom_chips)

end
