(* ===== verification/Prom_Program.thy ===== *)
theory Prom_Program
  imports Prom_Image
begin

text \<open>
  The XSVF program that writes a user PROM: the \<^verbatim>\<open>Write...IntoXsvfImage_\<close> routines of \<^verbatim>\<open>EMUjtag.cc\<close> as
  lists of commands, and \<^verbatim>\<open>CreateXsvfImage_\<close>, \<^verbatim>\<open>CreateXsvfFile\<close>, \<^verbatim>\<open>ReadXsvfFile_\<close> and
  \<^verbatim>\<open>ProgramUserProm\<close> around them. The local arrays of the routines are threaded as the code reuses them.

  Not modelled: \<^verbatim>\<open>WritePromImageIntoXsvfVerify_\<close>, whose call is commented out, and the files on disk.
\<close>

unbundle bit_operations_syntax

section \<open>The commands\<close>

definition PROMidCode :: int where "PROMidCode = 0xFE"
definition PROMuserCode :: int where "PROMuserCode = 0xFD"
definition PROMusercodeData :: int where "PROMusercodeData = 0xE6"
definition PROMerase :: int where "PROMerase = 0xEC"
definition PROMaddress :: int where "PROMaddress = 0xEB"
definition PROMsErase :: int where "PROMsErase = 0x0A"
definition PROMconLd :: int where "PROMconLd = 0xF0"
definition PROMispen :: int where "PROMispen = 0xE8"
definition PROMprogram :: int where "PROMprogram = 0xEA"
definition PROMwriteData0 :: int where "PROMwriteData0 = 0xED"
definition PROMwriteData3 :: int where "PROMwriteData3 = 0xF3"
definition PROMverifyData3 :: int where "PROMverifyData3 = 0xE2"
definition PROMbypass :: int where "PROMbypass = 0xFF"
definition PROM_ID_256k :: int where "PROM_ID_256k = 0x05022093"
definition MASK_TO_TREAT_512k_LIKE_256k :: int where "MASK_TO_TREAT_512k_LIKE_256k = 0x0ffeefff"
definition TLR :: int where "TLR = 0"
definition RTI :: int where "RTI = 1"
definition RegSizeTmbUserProm_PROMidCode :: nat where "RegSizeTmbUserProm_PROMidCode = 32"
definition RegSizeTmbUserProm_PROMuserCode :: nat where "RegSizeTmbUserProm_PROMuserCode = 32"
definition RegSizeTmbUserProm_PROMusercodeData :: nat where "RegSizeTmbUserProm_PROMusercodeData = 32"
definition RegSizeTmbUserProm_PROMaddress :: nat where "RegSizeTmbUserProm_PROMaddress = 16"
definition RegSizeTmbUserProm_PROMispen :: nat where "RegSizeTmbUserProm_PROMispen = 6"
definition RegSizeTmbUserProm_PROMwriteData3 :: nat where "RegSizeTmbUserProm_PROMwriteData3 = 6"
definition RegSizeTmbUserProm_PROMverifyData3 :: nat where "RegSizeTmbUserProm_PROMverifyData3 = 6"
definition RegSizeTmbUserProm_PROMbypass :: nat where "RegSizeTmbUserProm_PROMbypass = 1"

lemmas prom_codes = PROMidCode_def PROMuserCode_def PROMusercodeData_def PROMerase_def
  PROMaddress_def PROMsErase_def PROMconLd_def PROMispen_def PROMprogram_def PROMwriteData0_def
  PROMwriteData3_def PROMverifyData3_def PROMbypass_def PROM_ID_256k_def
  MASK_TO_TREAT_512k_LIKE_256k_def TLR_def RTI_def
lemmas prom_reg_sizes = RegSizeTmbUserProm_PROMidCode_def RegSizeTmbUserProm_PROMuserCode_def
  RegSizeTmbUserProm_PROMusercodeData_def RegSizeTmbUserProm_PROMaddress_def
  RegSizeTmbUserProm_PROMispen_def RegSizeTmbUserProm_PROMwriteData3_def
  RegSizeTmbUserProm_PROMverifyData3_def RegSizeTmbUserProm_PROMbypass_def
  RegSizeTmbUserProm_PROMwriteData0_def

text \<open>The arrays \<^verbatim>\<open>all_zeros\<close> (also the initial value of the others) and \<^verbatim>\<open>all_ones\<close>.\<close>

definition zeros :: "int list" where "zeros = replicate MAX_NUM_FRAMES 0"
definition ones :: "int list" where "ones = replicate MAX_NUM_FRAMES 1"

definition PreambleIntoXsvfImage :: "xcmd list" where
  "PreambleIntoXsvfImage =
     (let tdo_mask1 = int_to_bits MASK_TO_TREAT_512k_LIKE_256k RegSizeTmbUserProm_PROMidCode 0 LSBfirst zeros;
          tdo_expected1 = int_to_bits PROM_ID_256k RegSizeTmbUserProm_PROMidCode 0 LSBfirst zeros;
          tdi_in1 = int_to_bits 0x34 RegSizeTmbUserProm_PROMispen 0 LSBfirst zeros;
          tdi_in2 = int_to_bits 0x1 RegSizeTmbUserProm_PROMaddress 0 LSBfirst tdi_in1;
          tdi_in3 = int_to_bits 0x34 RegSizeTmbUserProm_PROMispen 0 LSBfirst tdi_in2
      in [XRepeat 0, XState TLR, XState RTI, XRunTest 0, XSir PROMidCode,
          XSdrSize RegSizeTmbUserProm_PROMidCode, XTdoMask RegSizeTmbUserProm_PROMidCode tdo_mask1,
          XSdrTdo RegSizeTmbUserProm_PROMidCode zeros tdo_expected1, XRunTest 110000, XSir PROMconLd,
          XRunTest 0, XSir PROMbypass, XState TLR, XSir PROMispen,
          XSdrSize RegSizeTmbUserProm_PROMispen, XTdoMask RegSizeTmbUserProm_PROMispen zeros,
          XSdrTdo RegSizeTmbUserProm_PROMispen tdi_in1 zeros, XSir PROMaddress, XRunTest 2,
          XSdrSize RegSizeTmbUserProm_PROMaddress, XTdoMask RegSizeTmbUserProm_PROMaddress zeros,
          XSdrTdo RegSizeTmbUserProm_PROMaddress tdi_in2 zeros, XRunTest 1000001, XSir PROMerase,
          XRunTest 110000, XSir PROMconLd, XState TLR, XRunTest 0, XSir PROMispen,
          XSdrSize RegSizeTmbUserProm_PROMispen, XTdoMask RegSizeTmbUserProm_PROMispen zeros,
          XSdrTdo RegSizeTmbUserProm_PROMispen tdi_in3 zeros])"

text \<open>One block of the image and the address it goes to; the loop over the blocks ends with the data.\<close>

definition block_buffer :: "prom \<Rightarrow> nat \<Rightarrow> int list" where
  "block_buffer p address_counter =
     map (\<lambda>address_within_block. to_char (GetUserPromImage p (address_counter + address_within_block) AND 0xff))
       [0..<NUMBER_OF_ADDRESSES_PER_BLOCK]"

fun PromImageIntoXsvfImage_loop :: "prom \<Rightarrow> nat \<Rightarrow> nat \<Rightarrow> nat \<Rightarrow> int list \<Rightarrow> xcmd list" where
  "PromImageIntoXsvfImage_loop p 0 block_counter address_counter tdi_in = []"
| "PromImageIntoXsvfImage_loop p (Suc n) block_counter address_counter tdi_in =
     (if prom_image_word_count p < address_counter then []
      else let tdi_in1 = unpackCharBuffer (block_buffer p address_counter) NUMBER_OF_BITS_PER_BLOCK 0 tdi_in;
               tdi_in2 = int_to_bits (push_bit 5 (int block_counter)) RegSizeTmbUserProm_PROMaddress 0 LSBfirst tdi_in1
           in [XSir PROMwriteData0, XRunTest 2, XSdrSize RegSizeTmbUserProm_PROMwriteData0,
               XTdoMask RegSizeTmbUserProm_PROMwriteData0 zeros,
               XSdrTdo RegSizeTmbUserProm_PROMwriteData0 tdi_in1 zeros, XRunTest 0, XSir PROMaddress,
               XRunTest 2, XSdrSize RegSizeTmbUserProm_PROMaddress,
               XTdoMask RegSizeTmbUserProm_PROMaddress zeros,
               XSdrTdo RegSizeTmbUserProm_PROMaddress tdi_in2 zeros, XRunTest 14001, XSir PROMprogram,
               XRunTest 0] @
              PromImageIntoXsvfImage_loop p n (block_counter + 1)
                (address_counter + NUMBER_OF_ADDRESSES_PER_BLOCK) tdi_in2)"

definition PromImageIntoXsvfImage :: "prom \<Rightarrow> xcmd list" where
  "PromImageIntoXsvfImage p = PromImageIntoXsvfImage_loop p TOTAL_NUMBER_OF_BLOCKS 0 0 zeros"

definition InterimBetweenImageAndVerify :: "xcmd list" where
  "InterimBetweenImageAndVerify =
     (let tdi_in1 = int_to_bits 1 RegSizeTmbUserProm_PROMaddress 0 LSBfirst zeros;
          tdi_in2 = int_to_bits 0x34 RegSizeTmbUserProm_PROMispen 0 LSBfirst tdi_in1;
          tdi_in3 = int_to_bits 0x34 RegSizeTmbUserProm_PROMispen 0 LSBfirst tdi_in2
      in [XSir PROMaddress, XRunTest 1, XSdrTdo RegSizeTmbUserProm_PROMaddress tdi_in1 zeros,
          XRunTest 37000, XSir PROMsErase, XRunTest 110000, XSir PROMconLd, XRunTest 0,
          XSir PROMispen, XSdrSize RegSizeTmbUserProm_PROMispen,
          XTdoMask RegSizeTmbUserProm_PROMispen zeros,
          XSdrTdo RegSizeTmbUserProm_PROMispen tdi_in2 zeros, XRunTest 110000, XSir PROMconLd,
          XRunTest 0, XSir PROMispen, XSdrTdo RegSizeTmbUserProm_PROMispen tdi_in3 zeros])"

definition date_in_hex :: "date \<Rightarrow> int" where
  "date_in_hex d =
     push_bit 28 (int (month_counting_from_one d div 10) AND 0xf) OR
     push_bit 24 (int (month_counting_from_one d mod 10) AND 0xf) OR
     push_bit 20 (int (day d div 10) AND 0xf) OR
     push_bit 16 (int (day d mod 10) AND 0xf) OR
     push_bit 12 (int (yearAD d div 1000) AND 0xf) OR
     push_bit 8 (int (yearAD d div 100 mod 10) AND 0xf) OR
     push_bit 4 (int (yearAD d div 10 mod 10) AND 0xf) OR
     (int (yearAD d mod 10) AND 0xf)"

definition PostambleIntoXsvfImage :: "date \<Rightarrow> xcmd list" where
  "PostambleIntoXsvfImage d =
     (let tdi_in1 = int_to_bits 0x34 RegSizeTmbUserProm_PROMispen 0 LSBfirst zeros;
          tdi_in2 = int_to_bits 0x4000 RegSizeTmbUserProm_PROMaddress 0 LSBfirst tdi_in1;
          tdi_in3 = int_to_bits (date_in_hex d) RegSizeTmbUserProm_PROMuserCode 0 LSBfirst tdi_in2;
          tdo_expected1 = int_to_bits (date_in_hex d) RegSizeTmbUserProm_PROMusercodeData 0 LSBfirst zeros;
          tdi_in4 = int_to_bits 0x34 RegSizeTmbUserProm_PROMispen 0 LSBfirst tdi_in3;
          tdi_in5 = int_to_bits 0x34 RegSizeTmbUserProm_PROMispen 0 LSBfirst tdi_in4;
          tdi_in6 = int_to_bits 0x4000 RegSizeTmbUserProm_PROMaddress 0 LSBfirst tdi_in5;
          tdi_in7 = int_to_bits 0x3d RegSizeTmbUserProm_PROMwriteData3 0 LSBfirst tdi_in6;
          tdi_in8 = int_to_bits 0x3d RegSizeTmbUserProm_PROMverifyData3 0 LSBfirst tdi_in7;
          tdo_expected2 = int_to_bits 0x3d RegSizeTmbUserProm_PROMverifyData3 0 LSBfirst tdo_expected1;
          tdi_in9 = int_to_bits 0x34 RegSizeTmbUserProm_PROMispen 0 LSBfirst tdi_in8
      in [XSir PROMconLd, XRunTest 0, XSir PROMispen, XSdrSize RegSizeTmbUserProm_PROMispen,
          XTdoMask RegSizeTmbUserProm_PROMispen zeros,
          XSdrTdo RegSizeTmbUserProm_PROMispen tdi_in1 zeros, XSir PROMaddress, XRunTest 2,
          XSdrSize RegSizeTmbUserProm_PROMaddress, XTdoMask RegSizeTmbUserProm_PROMaddress zeros,
          XSdrTdo RegSizeTmbUserProm_PROMaddress tdi_in2 zeros, XRunTest 0, XSir PROMuserCode,
          XSdrSize RegSizeTmbUserProm_PROMuserCode, XTdoMask RegSizeTmbUserProm_PROMuserCode zeros,
          XSdrTdo RegSizeTmbUserProm_PROMuserCode tdi_in3 zeros, XRunTest 14001, XSir PROMprogram,
          XRunTest 50, XSir PROMusercodeData, XTdoMask RegSizeTmbUserProm_PROMusercodeData ones,
          XSdrTdo RegSizeTmbUserProm_PROMusercodeData zeros tdo_expected1, XRunTest 110000,
          XSir PROMconLd, XRunTest 0, XSir PROMispen, XSdrSize RegSizeTmbUserProm_PROMispen,
          XTdoMask RegSizeTmbUserProm_PROMispen zeros,
          XSdrTdo RegSizeTmbUserProm_PROMispen tdi_in4 zeros, XSir PROMispen,
          XSdrTdo RegSizeTmbUserProm_PROMispen tdi_in5 zeros, XSir PROMaddress, XRunTest 2,
          XSdrSize RegSizeTmbUserProm_PROMaddress, XTdoMask RegSizeTmbUserProm_PROMaddress zeros,
          XSdrTdo RegSizeTmbUserProm_PROMaddress tdi_in6 zeros, XRunTest 0, XSir PROMwriteData3,
          XSdrSize RegSizeTmbUserProm_PROMwriteData3,
          XTdoMask RegSizeTmbUserProm_PROMwriteData3 zeros,
          XSdrTdo RegSizeTmbUserProm_PROMwriteData3 tdi_in7 zeros, XRunTest 14001, XSir PROMprogram,
          XRunTest 51, XSir PROMverifyData3, XTdoMask RegSizeTmbUserProm_PROMverifyData3 zeros,
          XSdrTdo RegSizeTmbUserProm_PROMverifyData3 tdi_in8 tdo_expected2, XRunTest 110000,
          XSir PROMconLd, XRunTest 0, XSir PROMispen, XTdoMask RegSizeTmbUserProm_PROMispen zeros,
          XSdrTdo RegSizeTmbUserProm_PROMispen tdi_in9 zeros, XRunTest 110000, XSir PROMconLd,
          XRepeat 0, XRepeat 32, XState TLR, XState RTI, XRunTest 0, XSir PROMbypass,
          XSdrSize RegSizeTmbUserProm_PROMbypass, XTdoMask RegSizeTmbUserProm_PROMbypass zeros,
          XSdrTdo RegSizeTmbUserProm_PROMbypass zeros zeros, XComplete])"

section \<open>Making and playing the image\<close>

definition CreateXsvfImage :: "'h jtag_port \<Rightarrow> date \<Rightarrow> prom \<times> 'h \<Rightarrow> bool \<times> prom \<times> 'h" where
  "CreateXsvfImage port d s =
     (let (p, h) = s;
          j = (jt p)\<lparr>xsvf_image := [], image_counter := 0\<rparr>
      in if which_user_prom j \<noteq> ChipLocationTmbUserPromTMB \<and> which_user_prom j \<noteq> ChipLocationTmbUserPromALCT
         then (False, p\<lparr>jt := j\<rparr>, h)
         else let s = setup_jtag port ChainTmbUser (j, h);
                  s = write_prog port PreambleIntoXsvfImage s;
                  s = write_prog port (PromImageIntoXsvfImage p) s;
                  s = write_prog port InterimBetweenImageAndVerify s;
                  (j, h) = write_prog port (PostambleIntoXsvfImage d) s
              in (True, p\<lparr>jt := j, number_of_write_bytes := image_counter j\<rparr>, h))"

text \<open>When the image cannot be made the device stays switched off.\<close>

definition CreateXsvfFile :: "'h jtag_port \<Rightarrow> date \<Rightarrow> prom \<times> 'h \<Rightarrow> prom \<times> 'h" where
  "CreateXsvfFile port d s =
     (let p = ReadUserPromFile (fst s);
          p = p\<lparr>jt := (jt p)\<lparr>write_to_device := False\<rparr>\<rparr>;
          (ok, p, h) = CreateXsvfImage port d (p, snd s)
      in if \<not> ok then (p, h) else (p\<lparr>jt := (jt p)\<lparr>write_to_device := True\<rparr>\<rparr>, h))"

definition ReadXsvfFile :: "'h jtag_port \<Rightarrow> prom \<times> 'h \<Rightarrow> (xsvf_error + prom \<times> 'h) option" where
  "ReadXsvfFile port s =
     (let p = (fst s)\<lparr>number_of_read_bytes := number_of_write_bytes (fst s)\<rparr>
      in if 0 < number_of_read_bytes p
         then (case DecodeXsvfImage port (number_of_read_bytes p) ((jt p)\<lparr>verify_error := 0\<rparr>, snd s) of
                 None \<Rightarrow> None
               | Some (Inl e) \<Rightarrow> Some (Inl e)
               | Some (Inr (j, h)) \<Rightarrow> Some (Inr (p\<lparr>jt := j\<lparr>xsvf_image := []\<rparr>\<rparr>, h)))
         else Some (Inr (p\<lparr>jt := (jt p)\<lparr>verify_error := -1, xsvf_image := []\<rparr>\<rparr>, snd s)))"

definition ProgramUserProm :: "'h jtag_port \<Rightarrow> prom \<times> 'h \<Rightarrow> (xsvf_error + prom \<times> 'h) option" where
  "ProgramUserProm port s =
     (let (p, h) = s;
          (j, h) = setup_jtag port ChainTmbUser ((jt p)\<lparr>verify_error := 0, write_to_device := True\<rparr>, h)
      in ReadXsvfFile port (p\<lparr>jt := j\<rparr>, h))"


section \<open>The count of bytes\<close>

definition synced :: "emujtag \<Rightarrow> bool" where
  "synced j \<longleftrightarrow> image_counter j = length (xsvf_image j)"

lemma synced_SetWrite [simp]: "synced (SetWriteXsvfImage v j) = synced j"
  by (simp add: synced_def SetWriteXsvfImage_def)

lemma synced_put [simp]: "synced (put_tdi_bytes n j) = synced j" "synced (put_int4 v j) = synced j"
  by (simp_all add: synced_def put_tdi_bytes_def put_int4_def fold_SetWrite)

lemma Shf_image:
  "image_counter (fst (ShfIR port sel opc s)) = image_counter (fst s)"
  "xsvf_image (fst (ShfIR port sel opc s)) = xsvf_image (fst s)"
  "image_counter (fst (ShfDR port sel n bits s)) = image_counter (fst s)"
  "xsvf_image (fst (ShfDR port sel n bits s)) = xsvf_image (fst s)"
  by (simp_all add: ShfIR_def ShfDR_def Let_def put_frames_def clear_buffers_def split_beta)

lemma synced_Shf [simp]:
  "synced (fst (ShfIR port sel opc s)) = synced (fst s)"
  "synced (fst (ShfDR port sel n bits s)) = synced (fst s)"
  by (simp_all add: synced_def Shf_image)

lemma synced_write_cmd: "synced (fst (write_cmd port x s)) = synced (fst s)"
proof (cases x)
  case (XSdrSize n)
  have "synced (j\<lparr>xdr_length := k\<rparr>) = synced j" for j k by (simp add: synced_def)
  then show ?thesis by (simp add: XSdrSize WriteXSDRSIZE_def Let_def)
qed (simp_all add: WriteXSIR_def WriteXTDOMASK_def WriteXSDRTDO_def WriteXRUNTEST_def WriteXREPEAT_def
    WriteXSTATE_def WriteXCOMPLETE_def Let_def split_beta)

lemma synced_write_prog: "synced (fst (write_prog port prog s)) = synced (fst s)"
  unfolding write_prog_def by (induction prog arbitrary: s) (simp_all add: synced_write_cmd)

section \<open>The commands fit\<close>

definition user_cfg :: "int \<Rightarrow> chain_cfg" where
  "user_cfg which = \<lparr>c_devices = 2, c_opcodes = [8, 8, 0, 0, 0], c_chip = nat which\<rparr>"

definition is_arr :: "int list \<Rightarrow> bool" where
  "is_arr bits \<longleftrightarrow> is_bits bits \<and> length bits = MAX_NUM_FRAMES"

lemma is_arr_zeros [simp]: "is_arr zeros" and is_arr_ones [simp]: "is_arr ones"
  by (simp_all add: is_arr_def zeros_def ones_def is_bits_def list_all_length)

lemma is_arr_int_to_bits [simp]: "is_arr a \<Longrightarrow> is_arr (int_to_bits v n k LSBfirst a)"
  by (auto simp: is_arr_def is_bits_def list_all_length nth_int_to_bits_LSB)

lemma is_arr_unpack [simp]:
  "is_arr a \<Longrightarrow> len \<le> MAX_NUM_FRAMES \<Longrightarrow> is_arr (unpackCharBuffer buf len f a)"
  by (simp add: is_arr_def is_bits_def list_all_length unpack_nth)

lemma dr_ok_arr [simp]:
  "is_arr a \<Longrightarrow> dr_ok (user_cfg w) xdr n a \<longleftrightarrow> xdr = int n + 1 \<and> n < MAX_NUM_FRAMES"
  by (auto simp: is_arr_def dr_ok_def user_cfg_def)

lemma user_ir_length [simp]: "length (ir_of (user_cfg w) opcode) = 16"
  by (simp add: length_ir_of user_cfg_def upt_rec)

lemma user_devices [simp]: "c_devices (user_cfg w) = 2"
  by (simp add: user_cfg_def)

fun end_xdr :: "chain_cfg \<Rightarrow> int \<Rightarrow> xcmd list \<Rightarrow> int" where
  "end_xdr c xdr [] = xdr"
| "end_xdr c xdr (x # xs) = end_xdr c (next_xdr c xdr x) xs"

lemma prog_ok_append: "prog_ok c xdr (xs @ ys) \<longleftrightarrow> prog_ok c xdr xs \<and> prog_ok c (end_xdr c xdr xs) ys"
  by (induction xs arbitrary: xdr) simp_all

lemma end_xdr_append: "end_xdr c xdr (xs @ ys) = end_xdr c (end_xdr c xdr xs) ys"
  by (induction xs arbitrary: xdr) simp_all

lemmas prog_eval = Let_def prom_reg_sizes MAX_NUM_FRAMES_def TLR_def RTI_def

lemma Preamble_ok: "prog_ok (user_cfg w) xdr PreambleIntoXsvfImage"
  unfolding PreambleIntoXsvfImage_def by (simp add: prog_eval)

lemma Image_loop_ok:
  assumes "is_arr tdi_in"
  shows "prog_ok (user_cfg w) xdr (PromImageIntoXsvfImage_loop p n k ac tdi_in) \<and>
     end_xdr (user_cfg w) xdr (PromImageIntoXsvfImage_loop p n k ac tdi_in) =
       (if 0 < n \<and> ac \<le> prom_image_word_count p then 17 else xdr)"
  using assms
proof (induction n arbitrary: k ac tdi_in xdr)
  case (Suc n)
  show ?case
  proof (cases "prom_image_word_count p < ac")
    case False
    let ?tdi1 = "unpackCharBuffer (block_buffer p ac) NUMBER_OF_BITS_PER_BLOCK 0 tdi_in"
    let ?tdi2 = "int_to_bits (push_bit 5 (int k)) RegSizeTmbUserProm_PROMaddress 0 LSBfirst ?tdi1"
    have t: "is_arr ?tdi1" using Suc.prems by (simp add: prom_sizes MAX_NUM_FRAMES_def)
    then have "is_arr ?tdi2" by simp
    from Suc.IH[OF this, of 17 "k + 1" "ac + NUMBER_OF_ADDRESSES_PER_BLOCK"] t False show ?thesis
      by (simp add: prog_eval prog_ok_append end_xdr_append)
  qed simp
qed simp

lemma Image_ok:
  "prog_ok (user_cfg w) xdr (PromImageIntoXsvfImage p)"
  "end_xdr (user_cfg w) xdr (PromImageIntoXsvfImage p) = 17"
  using Image_loop_ok[OF is_arr_zeros, of w xdr p TOTAL_NUMBER_OF_BLOCKS 0 0]
  by (simp_all add: PromImageIntoXsvfImage_def prom_sizes)

lemma Interim_ok: "prog_ok (user_cfg w) 17 InterimBetweenImageAndVerify"
  unfolding InterimBetweenImageAndVerify_def by (simp add: prog_eval)

lemma Postamble_ok: "prog_ok (user_cfg w) xdr (PostambleIntoXsvfImage d)"
  unfolding PostambleIntoXsvfImage_def by (simp add: prog_eval)

definition user_prom_commands :: "date \<Rightarrow> prom \<Rightarrow> xcmd list" where
  "user_prom_commands d p =
     PreambleIntoXsvfImage @ PromImageIntoXsvfImage p @ InterimBetweenImageAndVerify @ PostambleIntoXsvfImage d"

lemma user_prom_commands_ok: "prog_ok (user_cfg w) xdr (user_prom_commands d p)"
  by (simp add: user_prom_commands_def prog_ok_append end_xdr_append Preamble_ok Image_ok Interim_ok Postamble_ok)

lemma completes_append: "completes (xs @ ys) = completes xs + completes ys"
  by (simp add: completes_def)

lemma Image_loop_completes: "completes (PromImageIntoXsvfImage_loop p n k ac tdi_in) = 0"
  by (induction n arbitrary: k ac tdi_in) (simp_all add: completes_def Let_def)

lemma user_prom_commands_complete: "completes (user_prom_commands d p) = 1"
proof -
  have "completes PreambleIntoXsvfImage = 0" by (simp add: completes_def PreambleIntoXsvfImage_def Let_def)
  moreover have "completes InterimBetweenImageAndVerify = 0"
    by (simp add: completes_def InterimBetweenImageAndVerify_def Let_def)
  moreover have "completes (PostambleIntoXsvfImage d) = 1"
    by (simp add: completes_def PostambleIntoXsvfImage_def Let_def)
  ultimately show ?thesis
    by (simp add: user_prom_commands_def completes_append PromImageIntoXsvfImage_def Image_loop_completes)
qed


section \<open>From the image to the chain\<close>

lemma block_buffer_jt: "block_buffer (p\<lparr>jt := j\<rparr>) ac = block_buffer p ac"
proof -
  have "GetUserPromImage (p\<lparr>jt := j\<rparr>) a = GetUserPromImage p a" for a
    by (cases "TOTAL_NUMBER_OF_ADDRESSES \<le> a") (simp_all add: GetUserPromImage_def)
  then show ?thesis by (simp add: block_buffer_def)
qed

lemma Image_loop_jt:
  "PromImageIntoXsvfImage_loop (p\<lparr>jt := j\<rparr>) n k ac tdi_in = PromImageIntoXsvfImage_loop p n k ac tdi_in"
  by (induction n arbitrary: k ac tdi_in) (simp_all add: block_buffer_jt Let_def)

lemma user_prom_commands_jt: "user_prom_commands d (p\<lparr>jt := j\<rparr>) = user_prom_commands d p"
  by (simp add: user_prom_commands_def PromImageIntoXsvfImage_def Image_loop_jt)

definition user_chain :: "emujtag \<Rightarrow> emujtag" where
  "user_chain j = j\<lparr>jtag_chain := ChainTmbUser, devices_in_chain := 2, bits_in_opcode := [8, 8, 0, 0, 0],
     register_length := 0\<rparr>"

definition open_user_chain :: "'h jtag_port \<Rightarrow> 'h \<Rightarrow> 'h" where
  "open_user_chain port h =
     (let (boot, h) = port_get_boot port h
      in port_idle port (port_start port 4 jtagSourceFPGA (port_set_boot port (boot AND 0xff7f) h)))"

lemma setup_user_chain:
  "setup_jtag port ChainTmbUser (j, h) =
     (user_chain j, if write_to_device j then open_user_chain port h else h)"
  by (simp add: setup_jtag_def Let_def chain_of_def user_chain_def open_user_chain_def split_beta
      MAX_NUM_DEVICES_def ChainAlctSlowFpga_def ChainAlctSlowMezz_def ChainAlctFastFpga_def
      ChainAlctFastMezz_def ChainTmbMezz_def ChainTmbUser_def numeral_eq_Suc)

lemma user_chain_cfg:
  assumes "which_user_prom j = ChipLocationTmbUserPromTMB \<or> which_user_prom j = ChipLocationTmbUserPromALCT"
    and "\<not> write_to_device j"
  shows "has_cfg (user_cfg (which_user_prom j)) (user_chain j)"
  using assms by (auto simp: has_cfg_def user_cfg_def user_chain_def user_prom_chips ChainTmbUser_def)

lemma write_prog_append: "write_prog port (xs @ ys) s = write_prog port ys (write_prog port xs s)"
  by (simp add: write_prog_def)

lemma CreateXsvfFile_image:
  assumes which: "which_user_prom (jt p) = ChipLocationTmbUserPromTMB \<or> which_user_prom (jt p) = ChipLocationTmbUserPromALCT"
  obtains j j' p1 where "CreateXsvfFile port d (p, h) = (p1, h)"
    and "has_cfg (user_cfg (which_user_prom (jt p))) j"
    and "write_prog port (user_prom_commands d (ReadUserPromFile p)) (j\<lparr>xsvf_image := []\<rparr>, h) = (j', h)"
    and "jt p1 = j'\<lparr>write_to_device := True\<rparr>" and "number_of_write_bytes p1 = length (xsvf_image j')"
    and "xsvf_image j' \<noteq> []" and "which_user_prom j' = which_user_prom (jt p)"
proof -
  define j0 where "j0 = (jt p)\<lparr>write_to_device := False, xsvf_image := [], image_counter := 0\<rparr>"
  let ?c = "user_cfg (which_user_prom (jt p))" and ?prog = "user_prom_commands d (ReadUserPromFile p)"
  have j0: "which_user_prom j0 = which_user_prom (jt p)" "\<not> write_to_device j0" by (simp_all add: j0_def)
  have cfg: "has_cfg ?c (user_chain j0)" using user_chain_cfg[of j0] which j0 by simp
  have clear: "(user_chain j0)\<lparr>xsvf_image := []\<rparr> = user_chain j0" by (simp add: user_chain_def j0_def)
  obtain j' where w: "write_prog port ?prog (user_chain j0, h) = (j', h)"
    using write_prog_enc[OF cfg user_prom_commands_ok, of port d "ReadUserPromFile p" h] by auto
  have "synced (user_chain j0)" by (simp add: synced_def user_chain_def j0_def)
  then have n: "image_counter j' = length (xsvf_image j')"
    using synced_write_prog[of port ?prog "(user_chain j0, h)"] w by (simp add: synced_def)
  have jt: "jt (ReadUserPromFile p) = jt p" by (simp add: ReadUserPromFile_def)
  define q where "q = (ReadUserPromFile p)\<lparr>jt := (jt p)\<lparr>write_to_device := False\<rparr>\<rparr>"
  have w': "write_prog port (PostambleIntoXsvfImage d) (write_prog port InterimBetweenImageAndVerify
      (write_prog port (PromImageIntoXsvfImage q) (write_prog port PreambleIntoXsvfImage (user_chain j0, h)))) = (j', h)"
    using w by (simp add: user_prom_commands_def write_prog_append PromImageIntoXsvfImage_def q_def Image_loop_jt)
  have "jt q\<lparr>xsvf_image := [], image_counter := 0\<rparr> = j0" by (simp add: q_def j0_def)
  then have "CreateXsvfImage port d (q, h) = (True, q\<lparr>jt := j', number_of_write_bytes := image_counter j'\<rparr>, h)"
    using which j0 w' by (auto simp: CreateXsvfImage_def Let_def setup_user_chain split_beta)
  then have c: "CreateXsvfFile port d (p, h) =
      (q\<lparr>jt := j'\<lparr>write_to_device := True\<rparr>, number_of_write_bytes := image_counter j'\<rparr>, h)"
    by (simp add: CreateXsvfFile_def Let_def jt flip: q_def)
  have "xsvf_image j' \<noteq> []"
    using write_prog_enc[OF cfg user_prom_commands_ok, of port d "ReadUserPromFile p" h] w
    by (auto simp: user_prom_commands_def PreambleIntoXsvfImage_def Let_def)
  moreover have "which_user_prom j' = which_user_prom (jt p)"
    using write_prog_enc[OF cfg user_prom_commands_ok, of port d "ReadUserPromFile p" h] w which
    by (auto simp: has_cfg_def user_cfg_def user_prom_chips)
  ultimately show ?thesis
    using w n clear by (intro that[OF c cfg, of j']) simp_all
qed

lemma ProgramUserProm_plays:
  assumes which: "which_user_prom (jt p) = ChipLocationTmbUserPromTMB \<or> which_user_prom (jt p) = ChipLocationTmbUserPromALCT"
    and c: "CreateXsvfFile port d (p, h) = (p1, h1)"
  shows "h1 = h \<and> (\<exists>j h2. ProgramUserProm port (p1, h1) =
       Some (Inr (p1\<lparr>jt := j, number_of_read_bytes := number_of_write_bytes p1\<rparr>, h2)) \<and>
     player_of (j, h2) =
       fold (play port (user_cfg (which_user_prom (jt p)))) (user_prom_commands d (ReadUserPromFile p))
         ((player_of (jt p1, open_user_chain port h))\<lparr>p_errors := 0\<rparr>) \<and>
     which_user_prom j = which_user_prom (jt p))"
proof -
  let ?cfg = "user_cfg (which_user_prom (jt p))" and ?prog = "user_prom_commands d (ReadUserPromFile p)"
  obtain j j' where s: "h1 = h" "has_cfg ?cfg j"
    "write_prog port ?prog (j\<lparr>xsvf_image := []\<rparr>, h) = (j', h)"
    "jt p1 = j'\<lparr>write_to_device := True\<rparr>" "number_of_write_bytes p1 = length (xsvf_image j')"
    "xsvf_image j' \<noteq> []" "which_user_prom j' = which_user_prom (jt p)"
    using CreateXsvfFile_image[OF which, of port d h] c by (metis prod.inject)
  define j1 where "j1 = (user_chain ((jt p1)\<lparr>verify_error := 0, write_to_device := True\<rparr>))\<lparr>verify_error := 0\<rparr>"
  have j1: "xsvf_image j1 = xsvf_image j'" "write_to_device j1"
    by (simp_all add: j1_def user_chain_def s(4))
  have ok: "prog_ok ?cfg xdr ?prog" for xdr by (rule user_prom_commands_ok)
  have one: "completes ?prog \<le> 1" by (simp add: user_prom_commands_complete)
  obtain j2 h2 where dec: "DecodeXsvfImage port (length (xsvf_image j')) (j1, open_user_chain port h) = Some (Inr (j2, h2))"
      "player_of (j2, h2) = fold (play port ?cfg) ?prog (player_of (j1, open_user_chain port h))"
    using decode_written[OF s(2) ok one s(3) j1, of "open_user_chain port h"] by auto
  have "ProgramUserProm port (p1, h) = Some (Inr (p1\<lparr>jt := j2\<lparr>xsvf_image := []\<rparr>,
      number_of_read_bytes := number_of_write_bytes p1\<rparr>, h2))"
    using dec(1) s(5,6)
    by (simp add: ProgramUserProm_def ReadXsvfFile_def Let_def setup_user_chain flip: j1_def)
  moreover have "player_of (j2\<lparr>xsvf_image := []\<rparr>, h2) = player_of (j2, h2)" by (simp add: player_of_def)
  moreover have "player_of (j1, open_user_chain port h) = (player_of (jt p1, open_user_chain port h))\<lparr>p_errors := 0\<rparr>"
    by (simp add: player_of_def j1_def user_chain_def)
  moreover have "which_user_prom (j2\<lparr>xsvf_image := []\<rparr>) = which_user_prom (jt p)"
    using decode_loop_which[OF dec(1)[unfolded DecodeXsvfImage_def]] s(7)
    by (simp add: j1_def user_chain_def s(4))
  ultimately show ?thesis using s(1) dec(2) by auto
qed


section \<open>What the program stores in the PROM\<close>

text \<open>An instruction PROMprogram stores the data last loaded at the address last loaded. The state is the
  instruction, the loaded register with its data, the address, and what has been stored.\<close>

type_synonym prom_store = "int \<times> (int \<times> int list) \<times> int list \<times> ((int \<times> int list) \<times> int list) list"

fun store_step :: "xcmd \<Rightarrow> prom_store \<Rightarrow> prom_store" where
  "store_step (XSir opcode) (ir, load, adr, stored) =
     (opcode, load, adr, if opcode = PROMprogram then stored @ [(load, adr)] else stored)"
| "store_step (XSdrTdo n tdi tdo) (ir, load, adr, stored) =
     (ir, if ir = PROMwriteData0 \<or> ir = PROMuserCode \<or> ir = PROMwriteData3 then (ir, take n tdi) else load,
      if ir = PROMaddress then take n tdi else adr, stored)"
| "store_step x s = s"

definition stored_by :: "xcmd list \<Rightarrow> ((int \<times> int list) \<times> int list) list" where
  "stored_by prog = snd (snd (snd (fold store_step prog (PROMbypass, (PROMbypass, []), [], []))))"

definition lsb_bits :: "nat \<Rightarrow> int \<Rightarrow> int list" where
  "lsb_bits n v = map (\<lambda>i. drop_bit i v AND 1) [0..<n]"

text \<open>The bits of block \<open>k\<close> of the image, every word with its lowest bit first.\<close>

definition block_bits :: "prom \<Rightarrow> nat \<Rightarrow> int list" where
  "block_bits p k = concat (map (\<lambda>a. lsb_bits 8 (GetUserPromImage p (256 * k + a))) [0..<256])"

definition number_of_blocks :: "prom \<Rightarrow> nat" where
  "number_of_blocks p = min TOTAL_NUMBER_OF_BLOCKS (prom_image_word_count p div 256 + 1)"

lemma take_int_to_bits: "n \<le> length a \<Longrightarrow> take n (int_to_bits v n 0 LSBfirst a) = lsb_bits n v"
  by (rule nth_equalityI) (simp_all add: lsb_bits_def nth_int_to_bits_LSB drop_bit_AND_1)

lemma nth_concat_8:
  assumes "\<And>x. length (f x) = 8" and "i < 8 * n"
  shows "concat (map f [0..<n]) ! i = f (i div 8) ! (i mod 8)"
  using assms(2)
proof (induction n)
  case (Suc n)
  have len: "length (concat (map f [0..<n])) = 8 * n" by (induction n) (simp_all add: assms(1))
  show ?case
  proof (cases "i < 8 * n")
    case False
    then have d: "i div 8 = n" using Suc.prems by simp
    then have "i mod 8 = i - 8 * n" by (metis minus_mult_div_eq_mod)
    with False d show ?thesis by (simp add: nth_append len)
  qed (use Suc len in \<open>simp add: nth_append\<close>)
qed simp

lemma take_unpack_block:
  assumes "is_arr tdi" and "256 * k + 256 \<le> TOTAL_NUMBER_OF_ADDRESSES"
  shows "take 2048 (unpackCharBuffer (block_buffer p (256 * k)) 2048 0 tdi) = block_bits p k"
proof (rule nth_equalityI)
  have len: "length (concat (map (\<lambda>a. lsb_bits 8 (g a)) [0..<n])) = 8 * n" for g n
    by (induction n) (simp_all add: lsb_bits_def)
  show "length (take 2048 (unpackCharBuffer (block_buffer p (256 * k)) 2048 0 tdi)) = length (block_bits p k)"
    using assms(1) by (simp add: block_bits_def len is_arr_def MAX_NUM_FRAMES_def)
  fix i assume "i < length (take 2048 (unpackCharBuffer (block_buffer p (256 * k)) 2048 0 tdi))"
  then have i: "i < 2048" by simp
  then have a: "i div 8 < 256" by (simp add: div_less_iff_less_mult)
  have "unpackCharBuffer (block_buffer p (256 * k)) 2048 0 tdi ! i =
      of_bool (bit (block_buffer p (256 * k) ! (i div 8)) (i mod 8))"
    using assms(1) i by (simp add: unpack_nth is_arr_def MAX_NUM_FRAMES_def)
  also have "block_buffer p (256 * k) ! (i div 8) = to_char (GetUserPromImage p (256 * k + i div 8) AND 0xff)"
    using a by (simp add: block_buffer_def prom_sizes)
  also have "bit \<dots> (i mod 8) = bit (GetUserPromImage p (256 * k + i div 8)) (i mod 8)"
    by (simp add: bit_to_char and_ff bit_take_bit_iff)
  also have "of_bool \<dots> = block_bits p k ! i"
    unfolding block_bits_def using i
    by (subst nth_concat_8) (simp_all add: lsb_bits_def drop_bit_AND_1)
  finally show "take 2048 (unpackCharBuffer (block_buffer p (256 * k)) 2048 0 tdi) ! i = block_bits p k ! i"
    using i by simp
qed

lemma store_block:
  assumes "is_arr tdi1" "is_arr tdi2"
  shows "fold store_step [XSir PROMwriteData0, XRunTest 2, XSdrSize RegSizeTmbUserProm_PROMwriteData0,
               XTdoMask RegSizeTmbUserProm_PROMwriteData0 zeros,
               XSdrTdo RegSizeTmbUserProm_PROMwriteData0 tdi1 zeros, XRunTest 0, XSir PROMaddress,
               XRunTest 2, XSdrSize RegSizeTmbUserProm_PROMaddress,
               XTdoMask RegSizeTmbUserProm_PROMaddress zeros,
               XSdrTdo RegSizeTmbUserProm_PROMaddress tdi2 zeros, XRunTest 14001, XSir PROMprogram,
               XRunTest 0] (ir, load, adr, stored) =
     (PROMprogram, (PROMwriteData0, take 2048 tdi1), take 16 tdi2,
      stored @ [((PROMwriteData0, take 2048 tdi1), take 16 tdi2)])"
  by (simp add: prom_codes prom_reg_sizes)

definition block_record :: "prom \<Rightarrow> nat \<Rightarrow> (int \<times> int list) \<times> int list" where
  "block_record p k = ((PROMwriteData0, block_bits p k), lsb_bits 16 (push_bit 5 (int k)))"

lemma Image_loop_stores:
  assumes "is_arr tdi" and "k + n \<le> TOTAL_NUMBER_OF_BLOCKS"
  shows "snd (snd (snd (fold store_step (PromImageIntoXsvfImage_loop p n k (256 * k) tdi) (ir, load, adr, stored)))) =
     stored @ map (block_record p) [k..<min (k + n) (max k (prom_image_word_count p div 256 + 1))]"
  using assms
proof (induction n arbitrary: k tdi ir load adr stored)
  case (Suc n)
  show ?case
  proof (cases "prom_image_word_count p < 256 * k")
    case True
    then have "prom_image_word_count p div 256 + 1 \<le> k" by (simp add: div_less_iff_less_mult Suc_le_eq)
    with True show ?thesis by simp
  next
    case False
    let ?tdi1 = "unpackCharBuffer (block_buffer p (256 * k)) NUMBER_OF_BITS_PER_BLOCK 0 tdi"
    let ?tdi2 = "int_to_bits (push_bit 5 (int k)) RegSizeTmbUserProm_PROMaddress 0 LSBfirst ?tdi1"
    have t: "is_arr ?tdi1" using Suc.prems by (simp add: prom_sizes MAX_NUM_FRAMES_def)
    then have t2: "is_arr ?tdi2" by simp
    have b: "take 2048 ?tdi1 = block_bits p k"
      using take_unpack_block[OF Suc.prems(1), of k p] Suc.prems(2) by (simp add: prom_sizes)
    have a: "take 16 ?tdi2 = lsb_bits 16 (push_bit 5 (int k))"
      using t by (simp add: prom_reg_sizes take_int_to_bits is_arr_def MAX_NUM_FRAMES_def)
    let ?rest = "PromImageIntoXsvfImage_loop p n (k + 1) (256 * (k + 1)) ?tdi2"
    have "snd (snd (snd (fold store_step (PromImageIntoXsvfImage_loop p (Suc n) k (256 * k) tdi) (ir, load, adr, stored)))) =
        snd (snd (snd (fold store_step ?rest
          (PROMprogram, (PROMwriteData0, block_bits p k), lsb_bits 16 (push_bit 5 (int k)),
           stored @ [block_record p k]))))"
      using False store_block[OF t t2, of ir load adr stored] a b
      by (simp add: Let_def block_record_def prom_sizes(3) distrib_left del: fold_simps)
        (simp add: ac_simps)
    also have "\<dots> = (stored @ [block_record p k]) @
        map (block_record p) [k + 1..<min (k + 1 + n) (max (k + 1) (prom_image_word_count p div 256 + 1))]"
      using Suc.prems(2) by (intro Suc.IH t2) simp
    also have "\<dots> = stored @ map (block_record p) [k..<min (k + Suc n) (max k (prom_image_word_count p div 256 + 1))]"
    proof -
      have "k \<le> prom_image_word_count p div 256" using False by (simp add: less_eq_div_iff_mult_less_eq)
      then have m: "max (k + 1) (prom_image_word_count p div 256 + 1) = prom_image_word_count p div 256 + 1"
        "max k (prom_image_word_count p div 256 + 1) = prom_image_word_count p div 256 + 1"
        "k < min (k + Suc n) (prom_image_word_count p div 256 + 1)"
        by simp_all
      show ?thesis unfolding m(1,2) upt_conv_Cons[OF m(3)] by simp
    qed
    finally show ?thesis .
  qed
qed simp


lemma Preamble_stores:
  "\<exists>ir' adr'. fold store_step PreambleIntoXsvfImage (ir, load, adr, stored) = (ir', load, adr', stored)"
  by (simp add: PreambleIntoXsvfImage_def Let_def prom_codes)

lemma Interim_stores:
  "\<exists>ir' adr'. fold store_step InterimBetweenImageAndVerify (ir, load, adr, stored) = (ir', load, adr', stored)"
  by (simp add: InterimBetweenImageAndVerify_def Let_def prom_codes)

definition code_records :: "date \<Rightarrow> ((int \<times> int list) \<times> int list) list" where
  "code_records d = [((PROMuserCode, lsb_bits 32 (date_in_hex d)), lsb_bits 16 0x4000),
     ((PROMwriteData3, lsb_bits 6 0x3d), lsb_bits 16 0x4000)]"

lemma Postamble_stores:
  "snd (snd (snd (fold store_step (PostambleIntoXsvfImage d) (ir, load, adr, stored)))) = stored @ code_records d"
proof -
  have len: "length (int_to_bits v n 0 LSBfirst a) = length a" for v n a by simp
  have z: "length zeros = 8196" by (simp add: zeros_def MAX_NUM_FRAMES_def)
  show ?thesis
    unfolding PostambleIntoXsvfImage_def Let_def code_records_def
    by (simp add: prom_codes prom_reg_sizes take_int_to_bits len z)
qed

lemma user_prom_commands_store:
  "stored_by (user_prom_commands d p) = map (block_record p) [0..<number_of_blocks p] @ code_records d"
proof -
  obtain ir1 adr1 where pre: "fold store_step PreambleIntoXsvfImage (PROMbypass, (PROMbypass, []), [], []) =
      (ir1, (PROMbypass, []), adr1, [])"
    using Preamble_stores by blast
  obtain ir2 load2 adr2 st2 where img: "fold store_step (PromImageIntoXsvfImage p) (ir1, (PROMbypass, []), adr1, []) =
      (ir2, load2, adr2, st2)"
    by (metis prod.exhaust)
  have "snd (snd (snd (fold store_step (PromImageIntoXsvfImage_loop p TOTAL_NUMBER_OF_BLOCKS 0 (256 * 0) zeros)
      (ir1, (PROMbypass, []), adr1, [])))) =
      [] @ map (block_record p) [0..<min (0 + TOTAL_NUMBER_OF_BLOCKS) (max 0 (prom_image_word_count p div 256 + 1))]"
    by (rule Image_loop_stores) simp_all
  then have st2: "st2 = map (block_record p) [0..<number_of_blocks p]"
    using img by (simp add: PromImageIntoXsvfImage_def number_of_blocks_def)
  obtain ir3 adr3 where mid: "fold store_step InterimBetweenImageAndVerify (ir2, load2, adr2, st2) = (ir3, load2, adr3, st2)"
    using Interim_stores by blast
  show ?thesis
    unfolding stored_by_def user_prom_commands_def
    by (simp only: fold_append comp_apply pre img mid Postamble_stores) (simp only: st2)
qed

section \<open>Properties\<close>

text \<open>C19. Making the XSVF image and then programming from it plays the program of the user PROM on the
  board: the making does not touch the board, the decoding ends without an error, and what reaches
  the board is the opening of the chain followed by every command, with the verify errors counted
  from zero.\<close>

theorem program_user_prom_plays:
  assumes "which_user_prom (jt p) = ChipLocationTmbUserPromTMB \<or> which_user_prom (jt p) = ChipLocationTmbUserPromALCT"
    and "CreateXsvfFile port d (p, h) = (p1, h1)"
  shows "h1 = h \<and> (\<exists>j h2. ProgramUserProm port (p1, h1) =
       Some (Inr (p1\<lparr>jt := j, number_of_read_bytes := number_of_write_bytes p1\<rparr>, h2)) \<and>
     player_of (j, h2) =
       fold (play port (user_cfg (which_user_prom (jt p)))) (user_prom_commands d (ReadUserPromFile p))
         ((player_of (jt p1, open_user_chain port h))\<lparr>p_errors := 0\<rparr>))"
  using ProgramUserProm_plays[OF assms] by blast

theorem program_user_prom_plays_witness:
  "snd (CreateXsvfFile chain_port some_date (blank_prom 1, [])) = [] \<and>
   (\<exists>j h2. ProgramUserProm chain_port (CreateXsvfFile chain_port some_date (blank_prom 1, [])) =
       Some (Inr ((fst (CreateXsvfFile chain_port some_date (blank_prom 1, [])))\<lparr>jt := j, number_of_read_bytes :=
         number_of_write_bytes (fst (CreateXsvfFile chain_port some_date (blank_prom 1, [])))\<rparr>, h2)) \<and>
     player_of (j, h2) =
       fold (play chain_port (user_cfg 1)) (user_prom_commands some_date (ReadUserPromFile (blank_prom 1)))
         ((player_of (jt (fst (CreateXsvfFile chain_port some_date (blank_prom 1, []))), []))\<lparr>p_errors := 0\<rparr>))"
proof -
  have w: "which_user_prom (jt (blank_prom 1)) = 1" by (simp add: blank_prom_def)
  then have "which_user_prom (jt (blank_prom 1)) = ChipLocationTmbUserPromTMB \<or>
      which_user_prom (jt (blank_prom 1)) = ChipLocationTmbUserPromALCT"
    by (simp add: user_prom_chips)
  from program_user_prom_plays[OF this prod.collapse[symmetric], where port = chain_port and d = some_date and h = "[]"]
  show ?thesis
    by (simp only: w prod.collapse) (simp add: open_user_chain_def chain_port_def)
qed

text \<open>C20. The program stores the whole image and nothing beside it: every block of 256 words up to the
  last word goes once, in order, to the address of its number times 32, each word with its lowest
  bit first; then the date as user code and the six bits 0x3d of PROMwriteData3 at address 0x4000.\<close>

theorem user_prom_contents:
  "stored_by (user_prom_commands d p) =
     map (\<lambda>k. ((PROMwriteData0, concat (map (\<lambda>a. lsb_bits 8 (GetUserPromImage p (256 * k + a))) [0..<256])),
               lsb_bits 16 (32 * int k)))
       [0..<min 128 (prom_image_word_count p div 256 + 1)] @
     [((PROMuserCode, lsb_bits 32 (date_in_hex d)), lsb_bits 16 0x4000),
      ((PROMwriteData3, lsb_bits 6 0x3d), lsb_bits 16 0x4000)]"
  unfolding user_prom_commands_store code_records_def number_of_blocks_def prom_sizes(2)
  by (simp add: block_record_def[abs_def] block_bits_def push_bit_eq_mult mult.commute)

end
