(* ===== verification/Prom.thy ===== *)
theory Prom
  imports Prom_Program
begin

text \<open>
  Checking and programming a user PROM: \<^verbatim>\<open>TMB::ClockOutPromProgram\<close> (\<^verbatim>\<open>TMB.cc\<close>), \<^verbatim>\<open>CheckUserProm\<close> and
  \<^verbatim>\<open>CheckAndProgramProm\<close> (\<^verbatim>\<open>EMUjtag.cc\<close>). The PROM chips are not code of the repository: what the
  code relies on is the predicate \<open>serial_proms\<close>, which describes a serial PROM with an address
  counter and is a hypothesis of the properties that need it.

  Not modelled: the printing of the differences.
\<close>

unbundle bit_operations_syntax

section \<open>Clocking out a PROM\<close>

definition vme_prom_adr :: int where "vme_prom_adr = 0x000012"

text \<open>The calls on the \<^verbatim>\<open>TMB\<close>: the JTAG port, and the writing and reading of a register.\<close>

record 'h prom_port =
  jport :: "'h jtag_port"
  reg_write :: "int \<Rightarrow> int \<Rightarrow> 'h \<Rightarrow> 'h"
  reg_read :: "int \<Rightarrow> 'h \<Rightarrow> int \<times> 'h"

definition prom_word :: "int \<Rightarrow> (nat \<Rightarrow> int) \<Rightarrow> (nat \<Rightarrow> int) \<Rightarrow> (nat \<Rightarrow> int) \<Rightarrow> int" where
  "prom_word prom_src prom_nce prom_oe prom_clk =
     push_bit 14 prom_src OR push_bit 13 (prom_nce 1) OR push_bit 12 (prom_oe 1) OR
     push_bit 11 (prom_clk 1) OR push_bit 10 (prom_nce 0) OR push_bit 9 (prom_oe 0) OR
     push_bit 8 (prom_clk 0)"

fun clock_out_loop ::
  "'h prom_port \<Rightarrow> int \<Rightarrow> int \<Rightarrow> nat \<Rightarrow> int list \<Rightarrow> 'h \<Rightarrow> int list \<times> 'h" where
  "clock_out_loop port clk_hi clk_lo 0 clocked h = (clocked, h)"
| "clock_out_loop port clk_hi clk_lo (Suc n) clocked h =
     (let (value, h) = reg_read port vme_prom_adr h;
          h = reg_write port vme_prom_adr clk_hi h;
          h = reg_write port vme_prom_adr clk_lo h
      in clock_out_loop port clk_hi clk_lo n (clocked @ [value AND 0xff]) h)"

definition ClockOutPromProgram :: "'h prom_port \<Rightarrow> nat \<Rightarrow> nat \<Rightarrow> prom \<times> 'h \<Rightarrow> prom \<times> 'h" where
  "ClockOutPromProgram port prom number_of_addresses s =
     (let enabledProm = prom;
          disabledProm = (enabledProm + 1) mod 2;
          prom_clk = (\<lambda>_. 0);
          prom_oe = (\<lambda>_. 0)(enabledProm := 1, disabledProm := 0);
          prom_nce = (\<lambda>_. 0)(enabledProm := 0, disabledProm := 1);
          clk_lo = prom_word 1 prom_nce prom_oe prom_clk;
          clk_hi = prom_word 1 prom_nce prom_oe (prom_clk(enabledProm := 1));
          h = reg_write port vme_prom_adr clk_lo (snd s);
          (clocked, h) = clock_out_loop port clk_hi clk_lo number_of_addresses [] h;
          off = prom_word 0 (prom_nce(enabledProm := 1)) (prom_oe(enabledProm := 0)) prom_clk
      in ((fst s)\<lparr>clocked_out_prom_image := clocked\<rparr>, reg_write port vme_prom_adr off h))"

section \<open>Checking\<close>

text \<open>Differences in the date and in the check sum do not count.\<close>

definition ignored :: "int \<Rightarrow> nat \<Rightarrow> nat \<Rightarrow> bool" where
  "ignored which word_count address \<longleftrightarrow>
     which = ChipLocationTmbUserPromTMB \<and>
       (address = 0x03 \<or> address = 0x04 \<or> address = 0x05 \<or> address = 0x06 \<or>
        int address = int word_count - 2) \<or>
     which = ChipLocationTmbUserPromALCT \<and>
       (address = 0x04 \<or> address = 0x05 \<or> address = 0x06 \<or> address = 0x07 \<or> address = 0x08 \<or>
        address = 0x09 \<or> address = 0x0a \<or> address = 0x0b \<or>
        int address = int word_count - 3 \<or> int address = int word_count - 2)"

definition compare_prom :: "prom \<Rightarrow> prom" where
  "compare_prom p =
     fold (\<lambda>address p.
         if clocked_out_prom_image p ! address \<noteq> GetUserPromImage p address \<and>
            \<not> ignored (which_user_prom (jt p)) (prom_image_word_count p) address
         then p\<lparr>jt := (jt p)\<lparr>verify_error := verify_error (jt p) + 1\<rparr>\<rparr> else p)
       [0..<prom_image_word_count p] p"

definition CheckUserProm :: "'h prom_port \<Rightarrow> prom \<times> 'h \<Rightarrow> prom \<times> 'h" where
  "CheckUserProm port s =
     (let p = ReadUserPromFile ((fst s)\<lparr>jt := (jt (fst s))\<lparr>verify_error := 0\<rparr>\<rparr>);
          (p, h) = ClockOutPromProgram port (nat (which_user_prom (jt p))) (prom_image_word_count p) (p, snd s)
      in (compare_prom p, h))"

section \<open>Programming\<close>

text \<open>\<open>now k\<close> is the date of attempt \<open>k\<close>; the number of attempts is returned, as a message reports it.\<close>

fun program_attempts :: "'h prom_port \<Rightarrow> nat \<Rightarrow> (nat \<Rightarrow> date) \<Rightarrow> nat \<Rightarrow> nat \<Rightarrow> prom \<times> 'h \<Rightarrow>
    (xsvf_error + nat \<times> prom \<times> 'h) option" where
  "program_attempts port slot_number now 0 number_of_attempts s = Some (Inr (number_of_attempts, s))"
| "program_attempts port slot_number now (Suc left) number_of_attempts s =
     (if verify_error (jt (fst s)) = 0 then Some (Inr (number_of_attempts, s))
      else let number_of_attempts = number_of_attempts + 1
           in case ProgramUserProm (jport port) (CreateXsvfFile (jport port) (now number_of_attempts) s) of
                None \<Rightarrow> None
              | Some (Inl e) \<Rightarrow> Some (Inl e)
              | Some (Inr (p, h)) \<Rightarrow>
                  let p = p\<lparr>jt := (jt p)\<lparr>verify_error := 0\<rparr>\<rparr>
                  in program_attempts port slot_number now left number_of_attempts
                       (if slot_number < 22 then CheckUserProm port (p, h) else (p, h)))"

text \<open>The two images are allocated here; both are overwritten before they are read.\<close>

definition CheckAndProgramProm ::
  "'h prom_port \<Rightarrow> nat \<Rightarrow> (nat \<Rightarrow> date) \<Rightarrow> (int \<times> int \<times> int) list \<Rightarrow> int list \<Rightarrow> int \<Rightarrow> prom \<times> 'h \<Rightarrow>
    (xsvf_error + nat \<times> prom \<times> 'h) option" where
  "CheckAndProgramProm port slot_number now tmb_vecs alct_vecs which_prom s =
     (let p = (fst s)\<lparr>read_ascii_prom_image := replicate TOTAL_NUMBER_OF_ADDRESSES 0,
                      write_ascii_prom_image := replicate TOTAL_NUMBER_OF_ADDRESSES 0,
                      jt := (jt (fst s))\<lparr>which_user_prom := which_prom\<rparr>\<rparr>
      in case CreateUserPromFile (now 0) tmb_vecs alct_vecs p of
           None \<Rightarrow> Some (Inl Array_overrun)
         | Some p \<Rightarrow> program_attempts port slot_number now 3 0 (CheckUserProm port (p, snd s)))"

section \<open>Serial PROMs\<close>

text \<open>A chip holds its words and an address counter, which is zero while the chip is not enabled and
  goes on with every rising clock. The register drives two of them.\<close>

record prom_chips =
  chip_words :: "nat \<Rightarrow> int list"
  chip_ptr :: "nat \<Rightarrow> nat"
  chip_clk :: "nat \<Rightarrow> bool"

definition chip_enabled :: "int \<Rightarrow> nat \<Rightarrow> bool" where
  "chip_enabled w k \<longleftrightarrow> \<not> bit w (10 + 3 * k) \<and> bit w (9 + 3 * k)"

definition chips_write :: "int \<Rightarrow> prom_chips \<Rightarrow> prom_chips" where
  "chips_write w c = c\<lparr>chip_ptr := (\<lambda>k. if chip_enabled w k
       then chip_ptr c k + (if bit w (8 + 3 * k) \<and> \<not> chip_clk c k then 1 else 0) else 0),
     chip_clk := (\<lambda>k. bit w (8 + 3 * k))\<rparr>"

text \<open>A read gives in its low byte the word of the chip the last write enabled; \<open>view\<close> is the state of
  the chips in the board, \<open>latest\<close> the last word written to the register.\<close>

definition serial_proms :: "'h prom_port \<Rightarrow> ('h \<Rightarrow> prom_chips) \<Rightarrow> ('h \<Rightarrow> int) \<Rightarrow> bool" where
  "serial_proms port view latest \<longleftrightarrow>
     (\<forall>w h. view (reg_write port vme_prom_adr w h) = chips_write w (view h) \<and>
            latest (reg_write port vme_prom_adr w h) = w) \<and>
     (\<forall>h. view (snd (reg_read port vme_prom_adr h)) = view h \<and>
          latest (snd (reg_read port vme_prom_adr h)) = latest h) \<and>
     (\<forall>h k. k < 2 \<longrightarrow> bit (latest h) 14 \<longrightarrow> chip_enabled (latest h) k \<longrightarrow> \<not> chip_enabled (latest h) (1 - k) \<longrightarrow>
        chip_ptr (view h) k < length (chip_words (view h) k) \<longrightarrow>
        fst (reg_read port vme_prom_adr h) AND 0xff = chip_words (view h) k ! chip_ptr (view h) k AND 0xff)"


text \<open>The state of the enabled chip while it is clocked out.\<close>

definition clocking :: "('h \<Rightarrow> prom_chips) \<Rightarrow> ('h \<Rightarrow> int) \<Rightarrow> (nat \<Rightarrow> int list) \<Rightarrow> nat \<Rightarrow> nat \<Rightarrow> int \<Rightarrow> 'h \<Rightarrow> bool" where
  "clocking view latest content k a lo h \<longleftrightarrow> chip_words (view h) = content \<and> chip_ptr (view h) k = a \<and>
     \<not> chip_clk (view h) k \<and> latest h = lo"

definition clock_words :: "nat \<Rightarrow> int \<Rightarrow> int \<Rightarrow> bool" where
  "clock_words k hi lo \<longleftrightarrow> bit lo 14 \<and> chip_enabled lo k \<and> chip_enabled hi k \<and> \<not> chip_enabled lo (1 - k) \<and>
     \<not> bit lo (8 + 3 * k) \<and> bit hi (8 + 3 * k)"

lemma clock_out_step:
  assumes sp: "serial_proms port view latest" and k: "k < 2" and w: "clock_words k hi lo"
    and s: "clocking view latest content k a lo h" and a: "a < length (content k)"
    and r: "reg_read port vme_prom_adr h = (value, h1)"
  shows "value AND 0xff = content k ! a AND 0xff"
    and "clocking view latest content k (a + 1) lo (reg_write port vme_prom_adr lo (reg_write port vme_prom_adr hi h1))"
proof -
  have rd: "view h1 = view h" "latest h1 = latest h" using sp r unfolding serial_proms_def by (metis snd_conv)+
  have en: "bit (latest h) 14" "chip_enabled (latest h) k" "\<not> chip_enabled (latest h) (1 - k)"
    "chip_ptr (view h) k < length (chip_words (view h) k)"
    using s w a by (simp_all add: clocking_def clock_words_def)
  have "fst (reg_read port vme_prom_adr h) AND 0xff = chip_words (view h) k ! chip_ptr (view h) k AND 0xff"
    using sp k en unfolding serial_proms_def by blast
  then show "value AND 0xff = content k ! a AND 0xff" using r s by (simp add: clocking_def)
  have wr: "view (reg_write port vme_prom_adr w h) = chips_write w (view h)"
    "latest (reg_write port vme_prom_adr w h) = w" for w h
    using sp unfolding serial_proms_def by blast+
  show "clocking view latest content k (a + 1) lo (reg_write port vme_prom_adr lo (reg_write port vme_prom_adr hi h1))"
    using s w by (simp add: clocking_def clock_words_def wr rd chips_write_def)
qed

lemma clock_out_loop_content:
  assumes "serial_proms port view latest" and "k < 2" and "clock_words k hi lo"
    and "clocking view latest content k a lo h" and "a + n \<le> length (content k)"
  shows "\<exists>h'. clock_out_loop port hi lo n clocked h =
       (clocked @ map (\<lambda>w. w AND 0xff) (take n (drop a (content k))), h') \<and>
     clocking view latest content k (a + n) lo h'"
  using assms(4,5)
proof (induction n arbitrary: a clocked h)
  case (Suc n)
  obtain v h1 where r: "reg_read port vme_prom_adr h = (v, h1)" by fastforce
  have a: "a < length (content k)" using Suc.prems(2) by simp
  note step = clock_out_step[OF assms(1-3) Suc.prems(1) a r]
  have "take (Suc n) (drop a (content k)) = content k ! a # take n (drop (a + 1) (content k))"
    using a by (simp add: Cons_nth_drop_Suc[symmetric])
  with Suc.IH[OF step(2), of "clocked @ [v AND 0xff]"] Suc.prems(2) step(1) r show ?case by simp
qed (simp add: assms)

lemma prom_words:
  fixes k :: nat
  defines "oe \<equiv> (\<lambda>_. 0)(k := 1, (k + 1) mod 2 := 0 :: int)" and "nce \<equiv> (\<lambda>_. 0)(k := 0, (k + 1) mod 2 := 1 :: int)"
  assumes k: "k < 2"
  shows "clock_words k (prom_word 1 nce oe ((\<lambda>_. 0)(k := 1))) (prom_word 1 nce oe (\<lambda>_. 0))"
    and "\<not> chip_enabled (prom_word 0 (nce(k := 1)) (oe(k := 0)) (\<lambda>_. 0)) k"
proof -
  consider "k = 0" | "k = 1" using k by linarith
  then show "clock_words k (prom_word 1 nce oe ((\<lambda>_. 0)(k := 1))) (prom_word 1 nce oe (\<lambda>_. 0))"
    and "\<not> chip_enabled (prom_word 0 (nce(k := 1)) (oe(k := 0)) (\<lambda>_. 0)) k"
    by (cases; simp add: oe_def nce_def prom_word_def clock_words_def chip_enabled_def)+
qed

text \<open>A chip that is switched off before is read from its first word on, and is off afterwards.\<close>

lemma ClockOut_content:
  assumes sp: "serial_proms port view latest" and k: "k < 2" and off: "chip_ptr (view h) k = 0"
    and n: "n \<le> length (chip_words (view h) k)"
  shows "\<exists>h'. ClockOutPromProgram port k n (p, h) =
       (p\<lparr>clocked_out_prom_image := map (\<lambda>w. w AND 0xff) (take n (chip_words (view h) k))\<rparr>, h') \<and>
     chip_words (view h') = chip_words (view h) \<and> chip_ptr (view h') k = 0"
proof -
  define oe nce where "oe = (\<lambda>_. 0)(k := 1, (k + 1) mod 2 := 0 :: int)" and "nce = (\<lambda>_. 0)(k := 0, (k + 1) mod 2 := 1 :: int)"
  define lo hi where "lo = prom_word 1 nce oe (\<lambda>_. 0)" and "hi = prom_word 1 nce oe ((\<lambda>_. 0)(k := 1))"
  define offw where "offw = prom_word 0 (nce(k := 1)) (oe(k := 0)) (\<lambda>_. 0)"
  have w: "clock_words k hi lo" "\<not> chip_enabled offw k"
    using prom_words[OF k] by (simp_all add: lo_def hi_def offw_def oe_def nce_def)
  have wr: "view (reg_write port vme_prom_adr w h) = chips_write w (view h)"
    "latest (reg_write port vme_prom_adr w h) = w" for w h
    using sp unfolding serial_proms_def by blast+
  have s: "clocking view latest (chip_words (view h)) k 0 lo (reg_write port vme_prom_adr lo h)"
    using off w(1) by (simp add: clocking_def wr chips_write_def clock_words_def)
  have "0 + n \<le> length (chip_words (view h) k)" using n by simp
  from clock_out_loop_content[OF sp k w(1) s this, of "[]"] obtain h' where
    h': "clock_out_loop port hi lo n [] (reg_write port vme_prom_adr lo h) =
         (map (\<lambda>w. w AND 0xff) (take n (chip_words (view h) k)), h')"
        "clocking view latest (chip_words (view h)) k (0 + n) lo h'"
    by auto
  have "ClockOutPromProgram port k n (p, h) =
      (p\<lparr>clocked_out_prom_image := map (\<lambda>w. w AND 0xff) (take n (chip_words (view h) k))\<rparr>,
       reg_write port vme_prom_adr offw h')"
    by (simp only: ClockOutPromProgram_def Let_def snd_conv fst_conv prod.case h'(1)
        oe_def[symmetric] nce_def[symmetric] lo_def[symmetric] hi_def[symmetric] offw_def[symmetric])
  then show ?thesis
    using h'(2) w(2) by (simp add: wr chips_write_def clocking_def)
qed

section \<open>The comparison\<close>

lemma compare_loop:
  "fold (\<lambda>address p.
         if clocked_out_prom_image p ! address \<noteq> GetUserPromImage p address \<and>
            \<not> ignored (which_user_prom (jt p)) (prom_image_word_count p) address
         then p\<lparr>jt := (jt p)\<lparr>verify_error := verify_error (jt p) + 1\<rparr>\<rparr> else p) as p =
   p\<lparr>jt := (jt p)\<lparr>verify_error := verify_error (jt p) + int (length (filter (\<lambda>address.
       clocked_out_prom_image p ! address \<noteq> GetUserPromImage p address \<and>
       \<not> ignored (which_user_prom (jt p)) (prom_image_word_count p) address) as))\<rparr>\<rparr>"
proof (induction as arbitrary: p)
  case (Cons a as)
  have "GetUserPromImage (p\<lparr>jt := j\<rparr>) b = GetUserPromImage p b" for j b
    by (cases "TOTAL_NUMBER_OF_ADDRESSES \<le> b") (simp_all add: GetUserPromImage_def)
  with Cons show ?case by simp
qed simp


lemma CheckUserProm_errors:
  assumes "serial_proms port view latest" and "which_user_prom (jt p) = int k" and "k < 2"
    and "chip_ptr (view h) k = 0" and "prom_image_word_count p \<le> length (chip_words (view h) k)"
    and "prom_image_word_count p \<le> TOTAL_NUMBER_OF_ADDRESSES"
  shows "\<exists>p' h'. CheckUserProm port (p, h) = (p', h') \<and> chip_words (view h') = chip_words (view h) \<and>
     chip_ptr (view h') k = 0 \<and> verify_error (jt p') = int (length (filter (\<lambda>a.
       chip_words (view h) k ! a AND 0xff \<noteq> write_ascii_prom_image p ! a AND 0xff \<and>
       \<not> ignored (int k) (prom_image_word_count p) a) [0..<prom_image_word_count p]))"
proof -
  define q where "q = ReadUserPromFile (p\<lparr>jt := (jt p)\<lparr>verify_error := 0\<rparr>\<rparr>)"
  have q: "which_user_prom (jt q) = int k" "prom_image_word_count q = prom_image_word_count p"
    "verify_error (jt q) = 0"
    using assms(2) by (simp_all add: q_def ReadUserPromFile_def)
  have get: "GetUserPromImage q a = write_ascii_prom_image p ! a AND 0xff" if "a < prom_image_word_count p" for a
    using that assms(6) by (simp add: GetUserPromImage_def q_def ReadUserPromFile_def)
  let ?words = "map (\<lambda>w. w AND 0xff) (take (prom_image_word_count p) (chip_words (view h) k))"
  let ?q = "q\<lparr>clocked_out_prom_image := ?words\<rparr>"
  obtain h' where h': "ClockOutPromProgram port k (prom_image_word_count p) (q, h) = (?q, h')"
      "chip_words (view h') = chip_words (view h)" "chip_ptr (view h') k = 0"
    using ClockOut_content[OF assms(1,3,4,5), of q] by blast
  have get': "GetUserPromImage ?q a = GetUserPromImage q a" for a
    by (cases "TOTAL_NUMBER_OF_ADDRESSES \<le> a") (simp_all add: GetUserPromImage_def)
  have eq: "filter (\<lambda>a. clocked_out_prom_image ?q ! a \<noteq> GetUserPromImage ?q a \<and>
       \<not> ignored (which_user_prom (jt ?q)) (prom_image_word_count ?q) a) [0..<prom_image_word_count p] =
     filter (\<lambda>a. chip_words (view h) k ! a AND 0xff \<noteq> write_ascii_prom_image p ! a AND 0xff \<and>
       \<not> ignored (int k) (prom_image_word_count p) a) [0..<prom_image_word_count p]"
    using assms(5) q by (intro filter_cong refl) (simp add: get' get)
  have "verify_error (jt (compare_prom ?q)) = int (length (filter (\<lambda>a.
       clocked_out_prom_image ?q ! a \<noteq> GetUserPromImage ?q a \<and>
       \<not> ignored (which_user_prom (jt ?q)) (prom_image_word_count ?q) a) [0..<prom_image_word_count p]))"
    unfolding compare_prom_def compare_loop using q by simp
  moreover have "CheckUserProm port (p, h) = (compare_prom ?q, h')"
    using h'(1) q by (simp add: CheckUserProm_def Let_def flip: q_def)
  ultimately show ?thesis using h' unfolding eq by blast
qed

section \<open>The attempts\<close>

lemma compare_which: "which_user_prom (jt (compare_prom p)) = which_user_prom (jt p)"
  unfolding compare_prom_def compare_loop by simp

lemma CheckUserProm_which: "which_user_prom (jt (fst (CheckUserProm port s))) = which_user_prom (jt (fst s))"
  by (simp add: CheckUserProm_def Let_def split_beta compare_which ClockOutPromProgram_def ReadUserPromFile_def)

definition user_prom_chosen :: "prom \<Rightarrow> bool" where
  "user_prom_chosen p \<longleftrightarrow> which_user_prom (jt p) = ChipLocationTmbUserPromTMB \<or>
     which_user_prom (jt p) = ChipLocationTmbUserPromALCT"

lemma program_attempts_end:
  assumes "user_prom_chosen (fst s)"
  shows "\<exists>n s'. program_attempts port slot_number now left k s = Some (Inr (n, s')) \<and> k \<le> n \<and> n \<le> k + left \<and>
     (verify_error (jt (fst s')) = 0 \<or> n = k + left) \<and> (22 \<le> slot_number \<longrightarrow> n \<le> k + 1) \<and>
     (verify_error (jt (fst s)) = 0 \<longrightarrow> n = k \<and> s' = s)"
  using assms
proof (induction left arbitrary: k s)
  case (Suc left)
  show ?case
  proof (cases "verify_error (jt (fst s)) = 0")
    case False
    obtain p h where s: "s = (p, h)" by (cases s)
    obtain p1 h1 where c: "CreateXsvfFile (jport port) (now (k + 1)) (p, h) = (p1, h1)" by fastforce
    have "which_user_prom (jt p) = ChipLocationTmbUserPromTMB \<or> which_user_prom (jt p) = ChipLocationTmbUserPromALCT"
      using Suc.prems by (simp add: s user_prom_chosen_def)
    from ProgramUserProm_plays[OF this c] obtain j h2 where
      pr: "ProgramUserProm (jport port) (p1, h1) =
          Some (Inr (p1\<lparr>jt := j, number_of_read_bytes := number_of_write_bytes p1\<rparr>, h2))"
        "which_user_prom j = which_user_prom (jt p)" by blast
    define q where "q = p1\<lparr>number_of_read_bytes := number_of_write_bytes p1, jt := j\<lparr>verify_error := 0\<rparr>\<rparr>"
    define s2 where "s2 = (if slot_number < 22 then CheckUserProm port (q, h2) else (q, h2))"
    have step: "program_attempts port slot_number now (Suc left) k s = program_attempts port slot_number now left (k + 1) s2"
      using False pr(1) c by (simp add: s q_def s2_def)
    have "user_prom_chosen (fst s2)"
      using Suc.prems pr(2) CheckUserProm_which[of port "(q, h2)"]
      by (simp add: s s2_def user_prom_chosen_def q_def)
    from Suc.IH[OF this, of "k + 1"] obtain n s' where
      n: "program_attempts port slot_number now left (k + 1) s2 = Some (Inr (n, s'))" "k + 1 \<le> n" "n \<le> k + 1 + left"
         "verify_error (jt (fst s')) = 0 \<or> n = k + 1 + left" "verify_error (jt (fst s2)) = 0 \<longrightarrow> n = k + 1"
      by blast
    have "22 \<le> slot_number \<longrightarrow> n = k + 1" using n(5) by (simp add: s2_def q_def)
    with n step False show ?thesis by auto
  qed simp
qed simp

section \<open>Properties\<close>

text \<open>C21. \<^verbatim>\<open>CheckUserProm\<close> on serial PROMs reports no error exactly when the selected chip holds every
  word of the image, the date and the check sum excepted; it leaves the contents of both chips
  alone and the chip switched off with its counter at zero, ready for the next check.\<close>

theorem check_user_prom_decides:
  assumes "serial_proms port view latest" and "which_user_prom (jt p) = int k" and "k < 2"
    and "chip_ptr (view h) k = 0" and "prom_image_word_count p \<le> length (chip_words (view h) k)"
    and "prom_image_word_count p \<le> TOTAL_NUMBER_OF_ADDRESSES"
  shows "case CheckUserProm port (p, h) of (p', h') \<Rightarrow>
     (verify_error (jt p') = 0 \<longleftrightarrow> (\<forall>a < prom_image_word_count p. ignored (int k) (prom_image_word_count p) a \<or>
        chip_words (view h) k ! a AND 0xff = write_ascii_prom_image p ! a AND 0xff)) \<and>
     chip_words (view h') = chip_words (view h) \<and> chip_ptr (view h') k = 0"
  using CheckUserProm_errors[OF assms] by (force simp: filter_empty_conv)

text \<open>Two chips alone as the board.\<close>

definition chips_port :: "(int \<times> prom_chips) prom_port" where
  "chips_port = \<lparr>jport = \<lparr>port_scan = (\<lambda>reg bytes n rcv ird h. (rcv, h)), port_start = (\<lambda>dev src h. h),
       port_idle = (\<lambda>h. h), port_get_boot = (\<lambda>h. (0, h)), port_set_boot = (\<lambda>v h. h),
       port_usleep = (\<lambda>t h. h), port_ok_vme = (\<lambda>b h. h)\<rparr>,
     reg_write = (\<lambda>a w (l, c). (w, chips_write w c)),
     reg_read = (\<lambda>a (l, c). (if chip_enabled l 0 then chip_words c 0 ! chip_ptr c 0
       else chip_words c 1 ! chip_ptr c 1, (l, c)))\<rparr>"

lemma chips_port_serial: "serial_proms chips_port snd fst"
  unfolding serial_proms_def
  by (auto simp: chips_port_def less_2_cases_iff split_beta)

definition chips_with :: "int list \<Rightarrow> int \<times> prom_chips" where
  "chips_with ws = (0, \<lparr>chip_words = (\<lambda>k. ws), chip_ptr = (\<lambda>k. 0), chip_clk = (\<lambda>k. False)\<rparr>)"

theorem check_user_prom_decides_witness:
  "case CheckUserProm chips_port ((blank_prom 1)\<lparr>prom_image_word_count := 3\<rparr>, chips_with [0, 0x7, 0]) of (p', h') \<Rightarrow>
     (verify_error (jt p') = 0 \<longleftrightarrow> (\<forall>a < 3. ignored 1 3 a \<or>
        [0, 0x7, 0] ! a AND 0xff = replicate TOTAL_NUMBER_OF_ADDRESSES (0 :: int) ! a AND 0xff)) \<and>
     chip_words (snd h') = (\<lambda>k. [0, 0x7, 0]) \<and> chip_ptr (snd h') 1 = 0"
  using check_user_prom_decides[OF chips_port_serial, of "(blank_prom 1)\<lparr>prom_image_word_count := 3\<rparr>" 1 "chips_with [0, 0x7, 0]"]
  by (simp add: blank_prom_def chips_with_def prom_sizes(1))


text \<open>C22. \<^verbatim>\<open>CheckAndProgramProm\<close> comes to an end for each of the four choices of image: it never throws,
  programs at most three times (once when the crate does not answer, slot 22 and above), and stops
  before the third time only when the last check found no error. The number of attempts alone does
  not tell whether the third one failed.\<close>

theorem check_and_program_ends:
  assumes "which_prom \<in> {ChipLocationTmbUserPromTMB, ChipLocationTmbUserPromALCT,
       ChipLocationTmbUserPromTMBClear, ChipLocationTmbUserPromALCTClear}"
    and "5 * length tmb_vecs + 24 \<le> TOTAL_NUMBER_OF_ADDRESSES" and "length alct_vecs + 26 \<le> TOTAL_NUMBER_OF_ADDRESSES"
  shows "\<exists>n p' h'. CheckAndProgramProm port slot_number now tmb_vecs alct_vecs which_prom (p, h) = Some (Inr (n, p', h')) \<and>
     n \<le> 3 \<and> (n < 3 \<longrightarrow> verify_error (jt p') = 0) \<and> (22 \<le> slot_number \<longrightarrow> n \<le> 1)"
proof -
  define q where "q = p\<lparr>read_ascii_prom_image := replicate TOTAL_NUMBER_OF_ADDRESSES 0,
      write_ascii_prom_image := replicate TOTAL_NUMBER_OF_ADDRESSES 0, jt := (jt p)\<lparr>which_user_prom := which_prom\<rparr>\<rparr>"
  have w: "which_user_prom (jt q) = which_prom" by (simp add: q_def)
  obtain data where data: "data_to_prom which_prom tmb_vecs alct_vecs = Some data"
      "length data \<le> TOTAL_NUMBER_OF_ADDRESSES"
    using assms by (auto simp: data_to_prom_def user_prom_chips length_concat_tmb_words prom_sizes(1))
  define q' where "q' = InsertHeaderAndTrailer (now 0) data (q\<lparr>data_word_count := length data\<rparr>)"
  have c: "CreateUserPromFile (now 0) tmb_vecs alct_vecs q = Some q'"
    using data by (simp add: CreateUserPromFile_def w q'_def)
  have "which_user_prom (jt q') = ChipLocationTmbUserPromTMB \<or> which_user_prom (jt q') = ChipLocationTmbUserPromALCT"
    using assms(1) by (auto simp: q'_def InsertHeaderAndTrailer_def Let_def split_beta w user_prom_chips)
  then have "user_prom_chosen (fst (CheckUserProm port (q', h)))"
    by (simp add: user_prom_chosen_def CheckUserProm_which)
  from program_attempts_end[OF this, of port slot_number now 3 0] obtain n s' where
    "program_attempts port slot_number now 3 0 (CheckUserProm port (q', h)) = Some (Inr (n, s'))" "n \<le> 0 + 3"
    "verify_error (jt (fst s')) = 0 \<or> n = 0 + 3" "22 \<le> slot_number \<longrightarrow> n \<le> 0 + 1"
    by blast
  then show ?thesis
    using c by (cases s') (auto simp: CheckAndProgramProm_def Let_def q_def[symmetric])
qed

theorem check_and_program_ends_witness:
  "\<exists>n p' h'. CheckAndProgramProm chips_port 4 (\<lambda>k. some_date) [(0x84, 1, 2)] [3, 4] 0 (blank_prom 0, chips_with [0, 7]) =
       Some (Inr (n, p', h')) \<and> n \<le> 3 \<and> (n < 3 \<longrightarrow> verify_error (jt p') = 0) \<and> (22 \<le> (4 :: nat) \<longrightarrow> n \<le> 1)"
  by (rule check_and_program_ends) (simp_all add: user_prom_chips prom_sizes(1))

end
