(* ===== verification/Vcc.thy ===== *)
theory Vcc
  imports Prelude
begin

text \<open>
  The VME controller of \<^verbatim>\<open>VMEController.cc\<close>: \<^verbatim>\<open>VME_controller\<close> collects VME commands in one
  Ethernet packet and sends it when it is told to or when the packet is full, reads the answer of the
  crate controller (VCC) back and gives the data of all the reads to the caller. Bytes are 8-bit
  words, data 16-bit words and addresses 32-bit words. A buffer of the class is the list of the bytes
  in use: \<^verbatim>\<open>wbuf\<close> of the first \<^verbatim>\<open>nwbuf\<close>, \<^verbatim>\<open>spebuff\<close> of the first \<^verbatim>\<open>LRG_read_pnt\<close>; \<^verbatim>\<open>rbuf\<close>
  keeps its whole contents. The function statics are fields of the state.

  The crate behind the Ethernet link is the parameter \<open>link\<close>: it takes a packet and gives the frames
  that arrive before the next packet is written, in order. The receive ring of the driver is a list
  of frames; a read of an empty ring times out and gives six zero bytes.
\<close>

unbundle bit_operations_syntax

section \<open>State\<close>

type_synonym byte = "8 word"
type_synonym 'w link = "byte list \<Rightarrow> 'w \<Rightarrow> byte list list \<times> 'w"

record 'w vcc =
  wbuf :: "byte list"
  rbuf :: "byte list"
  nrbuf :: int
  istrt :: bool
  nvme :: int
  nread :: int
  spebuff :: "byte list"
  rx_ring :: "byte list list"
  hw_dest_addr :: "byte list"
  alive :: bool
  error_count :: int
  error_type :: int
  useDCS :: bool
  fill_write_vme_vectors :: bool
  ok_vme_write :: bool
  write_vme_address :: "int list"
  write_data_lsb :: "int list"
  write_data_msb :: "int list"
  board :: int
  vmeadd :: "32 word"
  add_ucla :: "32 word"
  pvme :: "16 word"
  JtagBaseAddress :: "32 word"
  TCK_pin :: nat
  TMS_pin :: nat
  TDI_pin :: nat
  TDO_pin :: nat
  crate :: 'w

definition MAX_DATA :: nat where "MAX_DATA = 7800"
definition VME_CMDS :: byte where "VME_CMDS = 0x20"
definition ATYPE :: nat where "ATYPE = 2"
definition TSIZE :: nat where "TSIZE = 1"
definition TTYPE :: nat where "TTYPE = 0"

section \<open>The Ethernet link\<close>

definition eth_write :: "'w link \<Rightarrow> 'w vcc \<Rightarrow> 'w vcc" where
  "eth_write link s = (let (frames, w) = link (wbuf s) (crate s)
     in s\<lparr>rx_ring := rx_ring s @ frames, crate := w\<rparr>)"

definition read_frame :: "'w vcc \<Rightarrow> int \<times> 'w vcc" where
  "read_frame s =
     (let (f, ring) = (case rx_ring s of [] \<Rightarrow> (replicate 6 0, []) | f # ring \<Rightarrow> (f, ring));
          size = int (length f)
      in (size, s\<lparr>rbuf := f @ drop (length f) (rbuf s), nrbuf := size, rx_ring := ring\<rparr>))"

fun eth_read_loop :: "nat \<Rightarrow> 'w vcc \<Rightarrow> int \<times> 'w vcc" where
  "eth_read_loop 0 s = read_frame s"
| "eth_read_loop (Suc left) s =
     (let (size, s) = read_frame s
      in if size < 0 then (size, s)
         else if size < 7 \<and> rbuf s ! 0 = 0x04 then eth_read_loop left s
         else (size, s))"

definition eth_read :: "'w vcc \<Rightarrow> int \<times> 'w vcc" where
  "eth_read s = eth_read_loop 2 s"

definition clear_error :: "'w vcc \<Rightarrow> 'w vcc" where
  "clear_error s = s\<lparr>error_count := 0, error_type := 0\<rparr>"

definition SetLife :: "bool \<Rightarrow> 'w vcc \<Rightarrow> 'w vcc" where
  "SetLife a s = s\<lparr>alive := a\<rparr>"

text \<open>The commands to the crate controller itself share \<^verbatim>\<open>wbuf\<close> with the VME commands.\<close>

definition split_bytes :: "16 word list \<Rightarrow> byte list" where
  "split_bytes ws = concat (map (\<lambda>w. [ucast w, ucast (drop_bit 8 w)]) ws)"

definition vcc_write_command :: "'w link \<Rightarrow> int \<Rightarrow> 16 word list \<Rightarrow> 'w vcc \<Rightarrow> int \<times> 'w vcc" where
  "vcc_write_command link code writedata s =
     (let n_words = length writedata
      in if useDCS s \<and> 0 < n_words then (-100, s)
         else if code < 0 \<or> 0xFF < code then (-1, s)
         else (int n_words,
               eth_write link (s\<lparr>wbuf := [0x00, word_of_int (code AND 0xFF)] @ split_bytes writedata\<rparr>)))"

definition reset :: "'w link \<Rightarrow> 'w vcc \<Rightarrow> 'w vcc" where
  "reset link s = snd (vcc_write_command link 0xF9 [] s)"

section \<open>Reading an answer\<close>

definition broadcast_addr :: "byte list" where
  "broadcast_addr = replicate 6 0xFF"

definition unexpected :: "'w vcc \<Rightarrow> bool" where
  "unexpected s \<longleftrightarrow>
     take 6 (rbuf s) = broadcast_addr \<or>
     (take 6 (drop 6 (rbuf s)) \<noteq> hw_dest_addr s \<and> hw_dest_addr s \<noteq> broadcast_addr)"

definition return_type :: "'w vcc \<Rightarrow> byte" where
  "return_type s = rbuf s ! 15"

definition r_num :: "'w vcc \<Rightarrow> nat" where
  "r_num s = unat (rbuf s ! 20) * 256 + unat (rbuf s ! 21)"

definition EWI :: "'w vcc \<Rightarrow> byte" where
  "EWI s = drop_bit 2 (rbuf s ! 22 AND 0x0C)"

definition note_error :: "'w vcc \<Rightarrow> 'w vcc" where
  "note_error s =
     (let s = s\<lparr>error_type := uint (rbuf s ! 22 AND 0x3) * 256 + uint (rbuf s ! 23)\<rparr>
      in if EWI s = 2 then s\<lparr>error_count := error_count s + 1\<rparr> else s)"

text \<open>The loop at \<^verbatim>\<open>READETH\<close>: frames that are not a data packet of the crate are thrown away; the
  first error packet of type 306 reloads the controller. The result tells whether an answer came.\<close>

lemma ring_read_frame: "length (rx_ring (snd (read_frame s))) = length (rx_ring s) - 1"
  by (simp add: read_frame_def Let_def split: list.splits)

lemma ring_read_loop: "length (rx_ring (snd (eth_read_loop n s))) \<le> length (rx_ring s) - 1"
proof (induction n arbitrary: s)
  case 0
  then show ?case by (simp add: ring_read_frame)
next
  case (Suc n)
  have "length (rx_ring (snd (eth_read_loop n (snd (read_frame s))))) \<le> length (rx_ring s) - 1"
    using Suc[of "snd (read_frame s)"] ring_read_frame[of s] by linarith
  then show ?case using ring_read_frame[of s] by (simp add: split_beta Let_def)
qed

lemma size_read_loop: "rx_ring s = [] \<Longrightarrow> fst (eth_read_loop n s) = 6"
proof (induction n arbitrary: s)
  case 0
  then show ?case by (simp add: read_frame_def)
next
  case (Suc n)
  then have "rx_ring (snd (read_frame s)) = []" "fst (read_frame s) = 6" by (simp_all add: read_frame_def)
  with Suc.IH show ?case by (simp add: split_beta)
qed

lemma ring_eth_read: "\<not> fst (eth_read s) < 10 \<Longrightarrow> length (rx_ring (snd (eth_read s))) < length (rx_ring s)"
  using ring_read_loop[of 2 s] size_read_loop[of s 2] by (cases "rx_ring s") (auto simp: eth_read_def)

function read_answer :: "'w link \<Rightarrow> nat \<Rightarrow> 'w vcc \<Rightarrow> bool \<times> 'w vcc" where
  "read_answer link vcc_error306 s =
     (let (size, s) = eth_read (s\<lparr>nrbuf := nread s\<rparr>)
      in if size < 10 then (False, SetLife False (s\<lparr>error_count := error_count s + 1\<rparr>))
         else if unexpected s then read_answer link vcc_error306 s
         else let s = SetLife True s
              in if return_type s \<noteq> 5 then
                   (if return_type s \<in> {0xff, 0xfe, 0xfd} then
                      (let s = note_error s
                       in if return_type s = 0xff \<and> EWI s = 2 \<and> error_type s = 306
                          then read_answer link (vcc_error306 + 1)
                                 (if vcc_error306 = 0 then reset link s else s)
                          else read_answer link vcc_error306 s)
                    else read_answer link vcc_error306 s)
                 else (True, s))"
  by auto

lemma ring_simps [simp]:
  "rx_ring (SetLife a s) = rx_ring s" "rx_ring (note_error s) = rx_ring s"
  by (simp_all add: SetLife_def note_error_def Let_def)

lemma ring_decr:
  assumes "eth_read (s\<lparr>nrbuf := n\<rparr>) = (k, s')" and "\<not> k < 10"
  shows "length (rx_ring s') < length (rx_ring s)"
  using ring_eth_read[of "s\<lparr>nrbuf := n\<rparr>"] assms by simp

termination read_answer
  by (relation "measures [\<lambda>(link, n, s). if n = 0 then 1 else 0, \<lambda>(link, n, s). length (rx_ring s)]")
    (auto dest!: ring_decr[OF sym])

declare read_answer.simps [simp del]

section \<open>VME commands\<close>

definition a_mask :: "byte list" where "a_mask = [0x00, 0x20, 0x40, 0x50, 0x80, 0x90, 0x00, 0x00]"
definition r_mask :: byte where "r_mask = 0x00"
definition w_mask :: byte where "w_mask = 0x10"
definition ts_mask :: "byte list" where "ts_mask = [0x00, 0x04, 0x08, 0x0c]"
definition ts_size :: "int list" where "ts_size = [1, 2, 4, 8]"
definition tt_mask :: "byte list" where "tt_mask = [0x00, 0x01, 0x02, 0x03]"
definition delay_mask :: "byte list" where "delay_mask = [0, 1, 2, 3, 4, 5, 6, 7]"

definition lo_byte :: "16 word \<Rightarrow> byte" where "lo_byte d = ucast (d AND 0xff)"
definition hi_byte :: "16 word \<Rightarrow> byte" where "hi_byte d = ucast (drop_bit 8 (d AND 0xff00))"

definition address_bytes :: "32 word \<Rightarrow> byte list" where
  "address_bytes ptr = [ucast (drop_bit 16 (ptr AND 0xff0000)), ucast (drop_bit 8 (ptr AND 0xff00)),
     ucast (ptr AND 0xff)]"

text \<open>The bytes a call appends to the packet.\<close>

definition command_bytes :: "int \<Rightarrow> 32 word \<Rightarrow> 16 word list \<Rightarrow> byte list" where
  "command_bytes irdwr ptr data =
     (if irdwr = 0 \<or> irdwr = 2 then
        [0x00, a_mask ! ATYPE OR r_mask OR ts_mask ! TSIZE OR tt_mask ! TTYPE, 0x00] @ address_bytes ptr
      else if irdwr = 1 \<or> irdwr = 3 then
        [0x00, a_mask ! ATYPE OR w_mask OR ts_mask ! TSIZE OR tt_mask ! TTYPE, 0x00] @ address_bytes ptr
          @ [hi_byte (data ! 0), lo_byte (data ! 0)]
      else if irdwr = 6 then
        (let delay_type = (if data ! 1 \<noteq> 0 then 5 else 2)
         in if delay_type = 2 then [delay_mask ! delay_type, 0x00, hi_byte (data ! 0), lo_byte (data ! 0)]
            else [delay_mask ! delay_type, 0x00, hi_byte (data ! 1), lo_byte (data ! 1),
                  hi_byte (data ! 0), lo_byte (data ! 0)])
      else [])"

definition fill_buffer :: "int \<Rightarrow> 32 word \<Rightarrow> 16 word list \<Rightarrow> 'w vcc \<Rightarrow> 'w vcc" where
  "fill_buffer irdwr ptr data s =
     s\<lparr>nvme := nvme s + 1,
       wbuf := (wbuf s)[0 := 0x00, 1 := VME_CMDS] @ command_bytes irdwr ptr data,
       nread := (if irdwr = 0 \<or> irdwr = 2 then nread s + ts_size ! TSIZE else nread s)\<rparr>"

text \<open>Writing the packet: the number of commands goes into the header.\<close>

definition send_packet :: "'w link \<Rightarrow> 'w vcc \<Rightarrow> 'w vcc" where
  "send_packet link s =
     (let s = eth_write link (s\<lparr>wbuf := (wbuf s)[2 := word_of_int (drop_bit 8 (nvme s AND 0xff00)),
                                                3 := word_of_int (nvme s AND 0xff)]\<rparr>)
      in s\<lparr>wbuf := take 4 (wbuf s), nvme := 0, istrt := False\<rparr>)"

definition swapped_data :: "'w vcc \<Rightarrow> byte list" where
  "swapped_data s = concat (map (\<lambda>i. [rbuf s ! (22 + 2 * i + 1), rbuf s ! (22 + 2 * i)]) [0..<r_num s])"

text \<open>What follows a packet. The result is the returned number and the bytes stored at \<^verbatim>\<open>rcv\<close>, from
  its start on; a caller that gives no buffer does without them.\<close>

definition read_back :: "'w link \<Rightarrow> bool \<Rightarrow> 'w vcc \<Rightarrow> int \<times> byte list \<times> 'w vcc" where
  "read_back link LRG_read_flag s =
     (let (actual_return, rcv) =
            (if \<not> LRG_read_flag \<and> spebuff s \<noteq> [] then (int (length (spebuff s)) div 2, spebuff s) else (0, []))
      in if 0 < nread s then
           (let (ok, s) = read_answer link 0 (clear_error s)
            in if \<not> ok then (-100, rcv, s\<lparr>nread := 0\<rparr>)
               else if LRG_read_flag then
                 (actual_return, rcv, s\<lparr>spebuff := spebuff s @ swapped_data s, nread := 0\<rparr>)
               else (actual_return + int (r_num s), rcv @ swapped_data s, s\<lparr>nread := 0, spebuff := []\<rparr>))
         else (actual_return, rcv, if LRG_read_flag then s else s\<lparr>spebuff := []\<rparr>))"

definition initialize :: "'w vcc \<Rightarrow> 'w vcc" where
  "initialize s = (if istrt s then s else s\<lparr>wbuf := replicate 4 0, nvme := 0, istrt := True\<rparr>)"

definition VME_controller ::
  "'w link \<Rightarrow> int \<Rightarrow> 32 word \<Rightarrow> 16 word list \<Rightarrow> 'w vcc \<Rightarrow> int \<times> byte list \<times> 'w vcc" where
  "VME_controller link irdwr ptr data s =
     (let s = initialize s
      in if irdwr = 4 then (0, [], s)
         else if irdwr = 5 then (0, [], s)
         else if irdwr = 6 \<and> data ! 0 = 0 \<and> data ! 1 = 0 then (0, [], s)
         else if (irdwr = 0 \<or> irdwr = 2) \<and> 0xC00000 \<le> ptr then (0, [], s)
         else if irdwr \<le> 3 \<and> ptr < 0x80000 then (-10, [], s)
         else
           let s = fill_buffer irdwr ptr data s;
               irdwr = (if irdwr = 6 then (if data ! 1 \<noteq> 0 then 3 else 1) else irdwr);
               LRG_read_flag = (MAX_DATA < length (wbuf s) \<and> (irdwr = 1 \<or> irdwr = 0));
               irdwr = (if LRG_read_flag then irdwr + 2 else irdwr)
           in if irdwr = 2 \<or> irdwr = 3 then read_back link LRG_read_flag (send_packet link s)
              else (0, [], s))"

text \<open>The wrapper the class uses records the writes that go into a user PROM.\<close>

definition vme_controller ::
  "'w link \<Rightarrow> int \<Rightarrow> 32 word \<Rightarrow> 16 word list \<Rightarrow> 'w vcc \<Rightarrow> int \<times> byte list \<times> 'w vcc" where
  "vme_controller link irdwr ptr data s =
     (let address = uint (ptr AND 0xff);
          s = (if fill_write_vme_vectors s \<and> (irdwr = 1 \<or> irdwr = 3) \<and> ok_vme_write s
               then s\<lparr>write_vme_address := write_vme_address s @ [address],
                      write_data_lsb := write_data_lsb s @ [uint (data ! 0 AND 0xff)],
                      write_data_msb := write_data_msb s @ [uint (drop_bit 8 (data ! 0) AND 0xff)]\<rparr>
               else s)
      in VME_controller link irdwr ptr data s)"

definition Clear_VmeWriteVecs :: "'w vcc \<Rightarrow> 'w vcc" where
  "Clear_VmeWriteVecs s = s\<lparr>write_vme_address := [], write_data_lsb := [], write_data_msb := []\<rparr>"

section \<open>Entry points\<close>

definition start :: "int \<Rightarrow> int \<Rightarrow> 'w vcc \<Rightarrow> 'w vcc" where
  "start slot boardtype s =
     (let vme = word_of_int (push_bit 19 slot)
      in s\<lparr>board := boardtype, vmeadd := vme, add_ucla := vme OR JtagBaseAddress s\<rparr>)"

definition delay_words :: "int \<Rightarrow> 16 word list" where
  "delay_words tmp_time = [word_of_int (tmp_time AND 0xffff), word_of_int (drop_bit 16 tmp_time AND 0xffff)]"

definition sleep_vme :: "'w link \<Rightarrow> int \<Rightarrow> 'w vcc \<Rightarrow> 'w vcc" where
  "sleep_vme link time s = snd (snd (vme_controller link 6 0 (delay_words ((time + 1) sdiv 2 * 125)) s))"

definition sdly :: "'w link \<Rightarrow> 'w vcc \<Rightarrow> 'w vcc" where
  "sdly link s = snd (snd (vme_controller link 6 0 [50, 0] s))"

end
