(* ===== verification/Vcc_Bus.thy ===== *)
theory Vcc_Bus
  imports Vcc
begin

text \<open>
  What the packets of \<^verbatim>\<open>Vcc\<close> do on the VME bus. The reference is a bus that executes one operation
  at a time; the crate controller is described by the predicate \<open>vcc_serves\<close>: a packet of VME commands
  has the effect of its commands in their order and is answered by one data frame with the words read,
  if there are any, possibly after frames that are no answer. The refinement lemma of the theory shows
  that a call of \<^verbatim>\<open>VME_controller\<close> is one operation of the reference bus, however the calls are
  distributed over packets.
\<close>

unbundle bit_operations_syntax

section \<open>Bytes of words\<close>

lemma bits_below_8: "(\<forall>i < (8::nat). P i) \<longleftrightarrow> P 0 \<and> P 1 \<and> P 2 \<and> P 3 \<and> P 4 \<and> P 5 \<and> P 6 \<and> P 7"
  by (auto simp: All_less_Suc eval_nat_numeral)

lemma ucast_byte:
  fixes x :: "'a::len word"
  assumes "\<forall>i<8. bit m (n + i)"
  shows "(ucast (drop_bit n (x AND m)) :: byte) = ucast (drop_bit n x)"
proof (rule bit_word_eqI)
  fix i assume "i < LENGTH(8)"
  then have "i < 8" by simp
  with assms have "bit m (n + i)" by blast
  with \<open>i < 8\<close> show "bit (ucast (drop_bit n (x AND m)) :: byte) i = bit (ucast (drop_bit n x) :: byte) i"
    by (auto simp: bit_simps)
qed

lemma word_byte:
  fixes x :: int
  assumes "\<forall>i<8. bit m (n + i)" and "n + 8 \<le> 16"
  shows "(word_of_int (drop_bit n (x AND m)) :: byte) = ucast (drop_bit n (word_of_int x :: 16 word))"
proof (rule bit_word_eqI)
  fix i assume "i < LENGTH(8)"
  then have "i < 8" by simp
  with assms have "bit m (n + i)" by blast
  with \<open>i < 8\<close> assms(2) show "bit (word_of_int (drop_bit n (x AND m)) :: byte) i =
      bit (ucast (drop_bit n (word_of_int x :: 16 word)) :: byte) i"
    by (auto simp: bit_simps)
qed

lemma hi_byte_eq: "hi_byte d = ucast (drop_bit 8 d)"
  unfolding hi_byte_def by (rule ucast_byte) (simp add: bits_below_8)

lemma lo_byte_eq: "lo_byte d = ucast d"
  using ucast_byte[of "0xff" 0 d] by (simp add: bits_below_8 lo_byte_def)

lemma address_bytes_eq:
  "address_bytes ptr = [ucast (drop_bit 16 ptr), ucast (drop_bit 8 ptr), ucast ptr]"
  using ucast_byte[of "0xff0000" 16 ptr] ucast_byte[of "0xff00" 8 ptr] ucast_byte[of "0xff" 0 ptr]
  by (simp add: bits_below_8 address_bytes_def)

lemma ucast_24:
  "n + 8 \<le> 24 \<Longrightarrow> (ucast (drop_bit n (ucast (ptr :: 32 word) :: 24 word)) :: byte) = ucast (drop_bit n ptr)"
  by (rule bit_word_eqI) (auto simp: bit_simps)

lemma count_bytes:
  "word_of_int (drop_bit 8 (x AND 0xff00)) = hi_byte (word_of_int x)"
  "word_of_int (x AND 0xff) = lo_byte (word_of_int x)"
  using word_byte[of "0xff00" 8 x] word_byte[of "0xff" 0 x]
  by (simp_all add: bits_below_8 hi_byte_eq lo_byte_eq)

lemma hi_lo [simp]: "word_cat (hi_byte d) (lo_byte d) = (d :: 16 word)"
  by (rule bit_word_eqI) (auto simp: bit_simps hi_byte_eq lo_byte_eq)

section \<open>The reference bus\<close>

datatype vme_op = Vread "24 word" | Vwrite "24 word" "16 word" | Vwait "16 word" "16 word"

record 'w bus =
  bus_read :: "24 word \<Rightarrow> 'w \<Rightarrow> 16 word \<times> 'w"
  bus_write :: "24 word \<Rightarrow> 16 word \<Rightarrow> 'w \<Rightarrow> 'w"
  bus_wait :: "nat \<Rightarrow> 'w \<Rightarrow> 'w"

fun bus_op :: "'w bus \<Rightarrow> vme_op \<Rightarrow> 16 word list \<times> 'w \<Rightarrow> 16 word list \<times> 'w" where
  "bus_op bus (Vread a) (rs, w) = (let (d, w) = bus_read bus a w in (rs @ [d], w))"
| "bus_op bus (Vwrite a d) (rs, w) = (rs, bus_write bus a d w)"
| "bus_op bus (Vwait hi lo) (rs, w) = (rs, bus_wait bus (65536 * unat hi + unat lo) w)"

definition bus_run :: "'w bus \<Rightarrow> vme_op list \<Rightarrow> 'w \<Rightarrow> 16 word list \<times> 'w" where
  "bus_run bus ops w = fold (bus_op bus) ops ([], w)"

fun is_read :: "vme_op \<Rightarrow> bool" where
  "is_read (Vread _) = True"
| "is_read _ = False"

definition reads_of :: "vme_op list \<Rightarrow> nat" where
  "reads_of ops = length (filter is_read ops)"

lemma reads_of_simps [simp]:
  "reads_of [] = 0" "reads_of (ops @ [o1]) = reads_of ops + (if is_read o1 then 1 else 0)"
  by (simp_all add: reads_of_def)

lemma bus_op_frame: "bus_op bus o1 (rs @ rs', w) = (rs @ fst (bus_op bus o1 (rs', w)), snd (bus_op bus o1 (rs', w)))"
  by (cases o1) (simp_all add: split_beta)

lemma fold_bus_op_frame:
  "fold (bus_op bus) ops (rs @ rs', w) =
   (rs @ fst (fold (bus_op bus) ops (rs', w)), snd (fold (bus_op bus) ops (rs', w)))"
proof (induction ops arbitrary: rs' w)
  case Nil
  then show ?case by simp
next
  case (Cons o1 ops)
  show ?case using Cons.IH[of "fst (bus_op bus o1 (rs', w))" "snd (bus_op bus o1 (rs', w))"]
    by (simp only: fold.simps comp_def bus_op_frame[of bus o1 rs rs' w] prod.collapse)
qed

lemma fold_bus_op: "fold (bus_op bus) ops (rs, w) = (rs @ fst (bus_run bus ops w), snd (bus_run bus ops w))"
  using fold_bus_op_frame[of bus ops rs "[]" w] by (simp add: bus_run_def)

lemma bus_run_snoc: "bus_run bus (ops @ [o1]) w = bus_op bus o1 (bus_run bus ops w)"
  by (simp add: bus_run_def)

lemma bus_run_append: "bus_run bus (ops @ ops') w =
   (fst (bus_run bus ops w) @ fst (bus_run bus ops' (snd (bus_run bus ops w))),
    snd (bus_run bus ops' (snd (bus_run bus ops w))))"
  using fold_bus_op[of bus ops' "fst (bus_run bus ops w)" "snd (bus_run bus ops w)"]
  by (simp add: bus_run_def)

lemma length_bus_op: "length (fst (bus_op bus o1 (rs, w))) = length rs + (if is_read o1 then 1 else 0)"
  by (cases o1) (simp_all add: split_beta)

lemma length_bus_run [simp]: "length (fst (bus_run bus ops w)) = reads_of ops"
proof (induction ops rule: rev_induct)
  case Nil
  then show ?case by (simp add: bus_run_def)
next
  case (snoc o1 ops)
  then show ?case using length_bus_op[of bus o1 "fst (bus_run bus ops w)" "snd (bus_run bus ops w)"]
    by (simp add: bus_run_snoc)
qed

section \<open>Packets and frames\<close>

fun op_bytes :: "vme_op \<Rightarrow> byte list" where
  "op_bytes (Vread a) = [0x00, 0x44, 0x00, ucast (drop_bit 16 a), ucast (drop_bit 8 a), ucast a]"
| "op_bytes (Vwrite a d) =
     [0x00, 0x54, 0x00, ucast (drop_bit 16 a), ucast (drop_bit 8 a), ucast a, hi_byte d, lo_byte d]"
| "op_bytes (Vwait hi lo) =
     (if hi = 0 then [0x02, 0x00, hi_byte lo, lo_byte lo]
      else [0x05, 0x00, hi_byte hi, lo_byte hi, hi_byte lo, lo_byte lo])"

definition packet :: "vme_op list \<Rightarrow> byte list" where
  "packet ops = [0x00, 0x20, hi_byte (of_nat (length ops)), lo_byte (of_nat (length ops))]
     @ concat (map op_bytes ops)"

text \<open>A frame the controller throws away without reloading anything: a broadcast, a frame of another
  source, or one that holds no data and is not the error packet of type 306.\<close>

definition no_answer :: "byte list \<Rightarrow> byte list \<Rightarrow> bool" where
  "no_answer da f \<longleftrightarrow> 24 \<le> length f \<and>
     (take 6 f = broadcast_addr \<or> (take 6 (drop 6 f) \<noteq> da \<and> da \<noteq> broadcast_addr) \<or>
      (f ! 15 \<noteq> 5 \<and> \<not> (f ! 15 = 0xff \<and> drop_bit 2 (f ! 22 AND 0x0C) = 2 \<and>
                        uint (f ! 22 AND 0x3) * 256 + uint (f ! 23) = 306)))"

definition data_frame :: "byte list \<Rightarrow> 16 word list \<Rightarrow> byte list \<Rightarrow> bool" where
  "data_frame da ws f \<longleftrightarrow>
     22 + 2 * length ws \<le> length f \<and> take 6 f \<noteq> broadcast_addr \<and>
     (take 6 (drop 6 f) = da \<or> da = broadcast_addr) \<and> f ! 15 = 5 \<and>
     unat (f ! 20) * 256 + unat (f ! 21) = length ws \<and>
     (\<forall>i < length ws. f ! (22 + 2 * i) = hi_byte (ws ! i) \<and> f ! (23 + 2 * i) = lo_byte (ws ! i))"

definition vcc_serves :: "'w link \<Rightarrow> 'w bus \<Rightarrow> byte list \<Rightarrow> bool" where
  "vcc_serves link bus da \<longleftrightarrow>
     (\<forall>ops w. length (packet ops) \<le> 8990 \<longrightarrow>
        (\<exists>noise answer. link (packet ops) w = (noise @ answer, snd (bus_run bus ops w)) \<and>
           list_all (no_answer da) noise \<and>
           (if reads_of ops = 0 then answer = []
            else \<exists>f. answer = [f] \<and> data_frame da (fst (bus_run bus ops w)) f)))"

lemma vcc_servesE:
  assumes "vcc_serves link bus da" and "length (packet ops) \<le> 8990"
  obtains noise answer where "link (packet ops) w = (noise @ answer, snd (bus_run bus ops w))"
    "list_all (no_answer da) noise"
    "if reads_of ops = 0 then answer = []
     else \<exists>f. answer = [f] \<and> data_frame da (fst (bus_run bus ops w)) f"
  using assms unfolding vcc_serves_def by blast

section \<open>Frames that are no answer\<close>

definition kept :: "'w vcc \<Rightarrow> 'w vcc" where
  "kept s = s\<lparr>rbuf := [], nrbuf := 0, rx_ring := [], alive := False, error_count := 0, error_type := 0\<rparr>"

lemma kept_simps [simp]:
  "kept (s\<lparr>rbuf := a\<rparr>) = kept s" "kept (s\<lparr>nrbuf := k\<rparr>) = kept s" "kept (s\<lparr>rx_ring := r\<rparr>) = kept s"
  "kept (SetLife l s) = kept s" "kept (note_error s) = kept s" "kept (clear_error s) = kept s"
  "kept (s\<lparr>error_count := c\<rparr>) = kept s" "kept (s\<lparr>error_type := c\<rparr>) = kept s"
  by (simp_all add: kept_def SetLife_def note_error_def clear_error_def Let_def)

definition config :: "'w vcc \<Rightarrow> _" where
  "config s = (hw_dest_addr s, useDCS s, add_ucla s, pvme s, TCK_pin s, TMS_pin s, TDI_pin s, TDO_pin s,
     vmeadd s, board s, JtagBaseAddress s, fill_write_vme_vectors s, ok_vme_write s)"

lemma kept_fields:
  assumes "kept s = kept t"
  shows "wbuf s = wbuf t" "istrt s = istrt t" "nvme s = nvme t" "nread s = nread t" "spebuff s = spebuff t"
    "crate s = crate t" "config s = config t"
  using assms by (cases s; cases t; simp add: kept_def config_def)+

lemma eth_read_frame:
  assumes "rx_ring s = f # ring" and "7 \<le> length f"
  shows "eth_read s =
    (int (length f), s\<lparr>rbuf := f @ drop (length f) (rbuf s), nrbuf := int (length f), rx_ring := ring\<rparr>)"
  using assms by (simp add: eth_read_def numeral_2_eq_2 read_frame_def Let_def)

lemma rbuf_of_frame:
  assumes "24 \<le> length f" and "rbuf s = f @ z"
  shows "unexpected s \<longleftrightarrow> take 6 f = broadcast_addr \<or> (take 6 (drop 6 f) \<noteq> hw_dest_addr s \<and> hw_dest_addr s \<noteq> broadcast_addr)"
    and "return_type s = f ! 15" and "EWI s = drop_bit 2 (f ! 22 AND 0x0C)"
    and "r_num s = unat (f ! 20) * 256 + unat (f ! 21)" and "rbuf s ! 22 = f ! 22" and "rbuf s ! 23 = f ! 23"
  using assms by (simp_all add: unexpected_def return_type_def EWI_def r_num_def nth_append)

lemma note_error_simps [simp]:
  "rbuf (note_error s) = rbuf s" "return_type (note_error s) = return_type s" "EWI (note_error s) = EWI s"
  "error_type (note_error s) = uint (rbuf s ! 22 AND 0x3) * 256 + uint (rbuf s ! 23)"
  "rbuf (SetLife l s) = rbuf s" "return_type (SetLife l s) = return_type s" "EWI (SetLife l s) = EWI s"
  "hw_dest_addr (SetLife l s) = hw_dest_addr s" "hw_dest_addr (note_error s) = hw_dest_addr s"
  by (simp_all add: note_error_def Let_def return_type_def EWI_def SetLife_def)

lemma read_answer_skips:
  assumes "rx_ring s = f # ring" and "no_answer (hw_dest_addr s) f"
  shows "\<exists>s'. read_answer link n s = read_answer link n s' \<and> rx_ring s' = ring \<and> kept s' = kept s"
proof -
  let ?s = "s\<lparr>rbuf := f @ drop (length f) (rbuf s), nrbuf := int (length f), rx_ring := ring\<rparr>"
  have len: "24 \<le> length f" using assms(2) by (simp add: no_answer_def)
  have read: "eth_read (s\<lparr>nrbuf := nread s\<rparr>) = (int (length f), ?s)"
    using eth_read_frame[of "s\<lparr>nrbuf := nread s\<rparr>" f ring] assms(1) len by simp
  note f = rbuf_of_frame[OF len, of ?s, simplified]
  show ?thesis
  proof (cases "unexpected ?s")
    case True
    then have "read_answer link n s = read_answer link n ?s"
      using read len by (subst read_answer.simps) simp
    then show ?thesis by (intro exI[of _ ?s]) simp
  next
    case False
    with assms(2) have "f ! 15 \<noteq> 5"
      and "\<not> (f ! 15 = 0xff \<and> drop_bit 2 (f ! 22 AND 0x0C) = 2 \<and>
            uint (f ! 22 AND 0x3) * 256 + uint (f ! 23) = 306)"
      by (auto simp: no_answer_def f)
    then have "read_answer link n s = read_answer link n
        (if f ! 15 \<in> {0xff, 0xfe, 0xfd} then note_error (SetLife True ?s) else SetLife True ?s)"
      using read len False by (subst read_answer.simps) (auto simp: f(2-) Let_def)
    then show ?thesis by (intro exI conjI) (assumption, simp_all)
  qed
qed

lemma read_answer_noise:
  assumes "list_all (no_answer (hw_dest_addr s)) noise" and "rx_ring s = noise @ ring"
  shows "\<exists>s'. read_answer link n s = read_answer link n s' \<and> rx_ring s' = ring \<and> kept s' = kept s"
  using assms
proof (induction noise arbitrary: s)
  case Nil
  then show ?case by auto
next
  case (Cons f noise)
  obtain s' where s': "read_answer link n s = read_answer link n s'" "rx_ring s' = noise @ ring" "kept s' = kept s"
    using read_answer_skips[of s f "noise @ ring" link n] Cons.prems by auto
  moreover have "hw_dest_addr s' = hw_dest_addr s" using kept_fields(7)[OF s'(3)] by (simp add: config_def)
  ultimately show ?case using Cons.IH[of s'] Cons.prems by auto
qed

lemma read_answer_data:
  assumes "list_all (no_answer (hw_dest_addr s)) noise" and "rx_ring s = noise @ [f]"
    and "data_frame (hw_dest_addr s) ws f" and "ws \<noteq> []"
  shows "\<exists>s'. read_answer link n s = (True, s') \<and> rx_ring s' = [] \<and> kept s' = kept s \<and>
     r_num s' = length ws \<and> swapped_data s' = concat (map (\<lambda>w. [lo_byte w, hi_byte w]) ws)"
proof -
  obtain t where t: "read_answer link n s = read_answer link n t" "rx_ring t = [f]" "kept t = kept s"
    using read_answer_noise[OF assms(1), of "[f]"] assms(2) by blast
  have da: "hw_dest_addr t = hw_dest_addr s" using kept_fields(7)[OF t(3)] by (simp add: config_def)
  let ?t = "t\<lparr>rbuf := f @ drop (length f) (rbuf t), nrbuf := int (length f), rx_ring := []\<rparr>"
  have len: "24 \<le> length f" using assms(3,4) by (cases ws) (auto simp: data_frame_def)
  have read: "eth_read (t\<lparr>nrbuf := nread t\<rparr>) = (int (length f), ?t)"
    using eth_read_frame[of "t\<lparr>nrbuf := nread t\<rparr>" f "[]"] t(2) len by simp
  note f = rbuf_of_frame[OF len, of ?t, simplified]
  have "\<not> unexpected ?t" "f ! 15 = 5" using assms(3) da by (auto simp: f(1) data_frame_def)
  then have "read_answer link n t = (True, SetLife True ?t)"
    using read len by (subst read_answer.simps) (simp add: f(2) Let_def)
  moreover have r: "r_num (SetLife True ?t) = length ws"
    using assms(3) by (simp add: r_num_def nth_append data_frame_def SetLife_def)
  moreover have "swapped_data (SetLife True ?t) = concat (map (\<lambda>i. [lo_byte (ws ! i), hi_byte (ws ! i)]) [0..<length ws])"
    unfolding swapped_data_def r using assms(3)
    by (intro arg_cong[where f = concat] map_cong refl) (simp add: nth_append data_frame_def SetLife_def)
  moreover have "map (\<lambda>i. [lo_byte (ws ! i), hi_byte (ws ! i)]) [0..<length ws] = map (\<lambda>w. [lo_byte w, hi_byte w]) ws"
    by (rule nth_equalityI) simp_all
  moreover have "rx_ring (SetLife True ?t) = []" "kept (SetLife True ?t) = kept s" using t(3) by simp_all
  ultimately show ?thesis using t(1) by metis
qed

section \<open>Calls of the controller\<close>

text \<open>The operation a call stands for, the calls that reach the packet, and those that send it.\<close>

definition op_of :: "int \<Rightarrow> 32 word \<Rightarrow> 16 word list \<Rightarrow> vme_op" where
  "op_of irdwr ptr data =
     (if irdwr = 0 \<or> irdwr = 2 then Vread (ucast ptr)
      else if irdwr = 1 \<or> irdwr = 3 then Vwrite (ucast ptr) (data ! 0)
      else Vwait (data ! 1) (data ! 0))"

definition legal :: "int \<Rightarrow> 32 word \<Rightarrow> 16 word list \<Rightarrow> bool" where
  "legal irdwr ptr data \<longleftrightarrow>
     (0 \<le> irdwr \<and> irdwr \<le> 3 \<and> 0x80000 \<le> ptr \<and> (irdwr = 0 \<or> irdwr = 2 \<longrightarrow> ptr < 0xC00000)) \<or>
     (irdwr = 6 \<and> (data ! 0 \<noteq> 0 \<or> data ! 1 \<noteq> 0))"

definition sends :: "int \<Rightarrow> 16 word list \<Rightarrow> bool" where
  "sends irdwr data \<longleftrightarrow> irdwr = 2 \<or> irdwr = 3 \<or> (irdwr = 6 \<and> data ! 1 \<noteq> 0)"

lemmas mask_defs = a_mask_def r_mask_def w_mask_def ts_mask_def ts_size_def tt_mask_def delay_mask_def
  ATYPE_def TSIZE_def TTYPE_def

lemma address_24: "address_bytes ptr = [ucast (drop_bit 16 (ucast ptr :: 24 word)),
    ucast (drop_bit 8 (ucast ptr :: 24 word)), ucast (ucast ptr :: 24 word)]"
  using ucast_24[of 16 ptr] ucast_24[of 8 ptr] ucast_24[of 0 ptr] by (simp add: address_bytes_eq)

lemma irdwr_cases:
  assumes "legal irdwr ptr data"
  obtains "irdwr = 0" | "irdwr = 1" | "irdwr = 2" | "irdwr = 3" | "irdwr = 6"
proof -
  have "0 \<le> irdwr \<and> irdwr \<le> 3 \<or> irdwr = 6" using assms by (auto simp: legal_def)
  then show thesis using that by linarith
qed

lemma command_bytes_op: "legal irdwr ptr data \<Longrightarrow> command_bytes irdwr ptr data = op_bytes (op_of irdwr ptr data)"
  by (erule irdwr_cases) (auto simp: command_bytes_def op_of_def mask_defs address_24 Let_def)

lemma is_read_op: "legal irdwr ptr data \<Longrightarrow> is_read (op_of irdwr ptr data) \<longleftrightarrow> irdwr = 0 \<or> irdwr = 2"
  by (erule irdwr_cases) (simp_all add: op_of_def)

lemma length_op_bytes: "4 \<le> length (op_bytes op)" "length (op_bytes op) \<le> 8"
  by (cases op; simp)+

lemma length_ops_bytes: "4 * length ops \<le> length (concat (map op_bytes ops))"
proof (induction ops)
  case Nil
  then show ?case by simp
next
  case (Cons op ops)
  then show ?case using length_op_bytes(1)[of op] by simp
qed

definition pending :: "'w vcc \<Rightarrow> byte list" where
  "pending s = (if istrt s then drop 4 (wbuf s) else [])"

definition word_bytes :: "16 word list \<Rightarrow> byte list" where
  "word_bytes ws = concat (map (\<lambda>w. [lo_byte w, hi_byte w]) ws)"

lemma word_bytes_simps [simp]:
  "word_bytes [] = []" "word_bytes (v @ w) = word_bytes v @ word_bytes w"
  "length (word_bytes w) = 2 * length w" "word_bytes w = [] \<longleftrightarrow> w = []"
  by (auto simp: word_bytes_def length_concat comp_def sum_list_triv)

text \<open>The operations of the packet are those the crate has not seen; the words of packets that were
  sent because they were full are kept in \<^verbatim>\<open>spebuff\<close>.\<close>

definition holds_ops :: "'w vcc \<Rightarrow> vme_op list \<Rightarrow> 16 word list \<Rightarrow> bool" where
  "holds_ops s ops spe \<longleftrightarrow>
     pending s = concat (map op_bytes ops) \<and> (istrt s \<longrightarrow> 4 \<le> length (wbuf s) \<and> nvme s = int (length ops)) \<and>
     (\<not> istrt s \<longrightarrow> ops = []) \<and> nread s = 2 * int (reads_of ops) \<and> spebuff s = word_bytes spe \<and>
     list_all (no_answer (hw_dest_addr s)) (rx_ring s)"

definition represents :: "'w bus \<Rightarrow> 'w vcc \<Rightarrow> 16 word list \<Rightarrow> 'w \<Rightarrow> bool" where
  "represents bus s rs w \<longleftrightarrow>
     (\<exists>ops spe. holds_ops s ops spe \<and> length (pending s) + 4 \<le> MAX_DATA \<and>
        (rs, w) = (spe @ fst (bus_run bus ops (crate s)), snd (bus_run bus ops (crate s))))"

definition idle :: "'w vcc \<Rightarrow> bool" where
  "idle s \<longleftrightarrow> \<not> istrt s \<and> nread s = 0 \<and> spebuff s = [] \<and> list_all (no_answer (hw_dest_addr s)) (rx_ring s)"

lemma idle_represents: "idle s \<Longrightarrow> represents bus s [] (crate s)"
  unfolding represents_def
  by (intro exI[of _ "[]"]) (simp add: idle_def holds_ops_def pending_def MAX_DATA_def bus_run_def)

section \<open>One call, one operation\<close>

lemma send_header:
  assumes "istrt s" and "holds_ops s ops spe" and "take 2 (wbuf s) = [0x00, 0x20]"
  shows "(wbuf s)[2 := word_of_int (drop_bit 8 (nvme s AND 0xff00)), 3 := word_of_int (nvme s AND 0xff)] = packet ops"
proof -
  have len: "4 \<le> length (wbuf s)" and n: "nvme s = int (length ops)"
    and tail: "drop 4 (wbuf s) = concat (map op_bytes ops)"
    using assms by (auto simp: holds_ops_def pending_def)
  obtain a b c d rest where w: "wbuf s = a # b # c # d # rest"
    using len by (cases "wbuf s"; cases "tl (wbuf s)"; cases "tl (tl (wbuf s))"; cases "tl (tl (tl (wbuf s)))") auto
  then have "a = 0x00" "b = 0x20" "rest = concat (map op_bytes ops)"
    using assms(3) tail by (simp_all add: numeral_eq_Suc)
  then show ?thesis unfolding w count_bytes n by (simp add: packet_def numeral_3_eq_3)
qed

lemma send_read_back:
  assumes serves: "vcc_serves link bus (hw_dest_addr s)"
    and s: "istrt s" "holds_ops s ops spe" "take 2 (wbuf s) = [0x00, 0x20]" "length (wbuf s) \<le> 8990"
    and rs: "(rs, w) = (spe @ fst (bus_run bus ops (crate s)), snd (bus_run bus ops (crate s)))"
  shows "\<exists>s'. read_back link large (send_packet link s) =
      (if large then 0 else int (length rs), if large then [] else word_bytes rs, s') \<and>
     config s' = config s \<and> crate s' = w \<and> holds_ops s' [] (if large then rs else []) \<and> \<not> istrt s'"
proof -
  have "length (packet ops) \<le> 8990"
    using s(4) send_header[OF s(1-3)] by (metis length_list_update)
  with serves obtain noise answer where link: "link (packet ops) (crate s) = (noise @ answer, w)"
    and noise: "list_all (no_answer (hw_dest_addr s)) noise"
    and answer: "if reads_of ops = 0 then answer = []
       else \<exists>f. answer = [f] \<and> data_frame (hw_dest_addr s) (fst (bus_run bus ops (crate s))) f"
    using rs by (elim vcc_servesE) auto
  define t where "t = send_packet link s"
  have t: "rx_ring t = rx_ring s @ noise @ answer" "crate t = w" "nread t = nread s" "spebuff t = spebuff s"
    "\<not> istrt t" "config t = config s" "hw_dest_addr t = hw_dest_addr s"
    unfolding t_def send_packet_def send_header[OF s(1-3)] eth_write_def
    by (simp_all add: link config_def)
  have spe: "spebuff s = word_bytes spe" and nread: "nread s = 2 * int (reads_of ops)"
    and ring: "list_all (no_answer (hw_dest_addr s)) (rx_ring s)"
    using s(2) by (auto simp: holds_ops_def)
  have len: "length rs = length spe + reads_of ops" using rs by simp
  show ?thesis
  proof (cases "reads_of ops = 0")
    case True
    then have "fst (bus_run bus ops (crate s)) = []" by (metis length_bus_run length_0_conv)
    then have "rs = spe" using rs by simp
    with True t answer ring noise show ?thesis
      by (intro exI[of _ "if large then t else t\<lparr>spebuff := []\<rparr>"])
        (auto simp: read_back_def spe nread holds_ops_def pending_def config_def simp flip: t_def)
  next
    case False
    then obtain f where f: "answer = [f]"
      and frame: "data_frame (hw_dest_addr s) (fst (bus_run bus ops (crate s))) f"
      using answer by auto
    let ?ws = "fst (bus_run bus ops (crate s))"
    have "?ws \<noteq> []" using False by (metis length_bus_run length_0_conv)
    then obtain u where u: "read_answer link 0 (clear_error t) = (True, u)" "rx_ring u = []"
      "kept u = kept (clear_error t)" "r_num u = length ?ws" "swapped_data u = word_bytes ?ws"
      using read_answer_data[of "clear_error t" "rx_ring s @ noise" f ?ws link 0] t f frame ring noise
      by (auto simp: clear_error_def word_bytes_def)
    have "kept u = kept t" using u(3) by simp
    note same = kept_fields[OF this]
    have rs: "rs = spe @ ?ws" using rs by simp
    show ?thesis
      by (intro exI[of _ "u\<lparr>nread := 0, spebuff := if large then spebuff u @ swapped_data u else []\<rparr>"])
        (use False t same u in \<open>auto simp: read_back_def spe nread holds_ops_def pending_def config_def rs
            simp flip: t_def\<close>)
  qed
qed

lemma initialize_length:
  "(istrt s \<longrightarrow> 4 \<le> length (wbuf s)) \<Longrightarrow> length (wbuf (initialize s)) = 4 + length (pending s)"
  by (auto simp: initialize_def pending_def)

lemma initialize_holds:
  assumes "holds_ops s ops spe"
  shows "istrt (initialize s)" "holds_ops (initialize s) ops spe" "pending (initialize s) = pending s"
    "length (wbuf (initialize s)) = 4 + length (pending s)" "crate (initialize s) = crate s"
    "config (initialize s) = config s" "hw_dest_addr (initialize s) = hw_dest_addr s"
proof -
  show "length (wbuf (initialize s)) = 4 + length (pending s)"
    using assms by (intro initialize_length) (simp add: holds_ops_def)
qed (use assms in \<open>auto simp: initialize_def holds_ops_def pending_def config_def\<close>)

lemma fill_holds:
  assumes "istrt s" and "holds_ops s ops spe" and "legal irdwr ptr data"
  shows "holds_ops (fill_buffer irdwr ptr data s) (ops @ [op_of irdwr ptr data]) spe"
    and "take 2 (wbuf (fill_buffer irdwr ptr data s)) = [0x00, 0x20]"
    and "length (wbuf (fill_buffer irdwr ptr data s)) \<le> length (wbuf s) + 8"
    and "istrt (fill_buffer irdwr ptr data s)" and "crate (fill_buffer irdwr ptr data s) = crate s"
    and "config (fill_buffer irdwr ptr data s) = config s"
proof -
  have w: "4 \<le> length (wbuf s)" "drop 4 (wbuf s) = concat (map op_bytes ops)"
    using assms(1,2) by (auto simp: holds_ops_def pending_def)
  have "(wbuf s)[0 := 0x00, 1 := VME_CMDS] = [0x00, 0x20] @ drop 2 (wbuf s)"
    using w(1) by (cases "wbuf s"; cases "tl (wbuf s)") (auto simp: VME_CMDS_def)
  then have wbuf: "wbuf (fill_buffer irdwr ptr data s) =
      [0x00, 0x20] @ drop 2 (wbuf s) @ op_bytes (op_of irdwr ptr data)"
    using assms(3) by (simp add: fill_buffer_def command_bytes_op)
  show "take 2 (wbuf (fill_buffer irdwr ptr data s)) = [0x00, 0x20]"
    and "length (wbuf (fill_buffer irdwr ptr data s)) \<le> length (wbuf s) + 8"
    unfolding wbuf using w(1) length_op_bytes(2)[of "op_of irdwr ptr data"] by (simp_all add: numeral_2_eq_2)
  have "drop 4 ([0x00, 0x20] @ drop 2 (wbuf s) @ op_bytes (op_of irdwr ptr data)) =
      drop 4 (wbuf s) @ op_bytes (op_of irdwr ptr data)"
    using w(1) by (simp add: drop_append)
  then show "holds_ops (fill_buffer irdwr ptr data s) (ops @ [op_of irdwr ptr data]) spe"
    using assms w wbuf is_read_op[OF assms(3)]
    by (auto simp: holds_ops_def pending_def fill_buffer_def ts_size_def TSIZE_def)
  show "istrt (fill_buffer irdwr ptr data s)" "crate (fill_buffer irdwr ptr data s) = crate s"
    "config (fill_buffer irdwr ptr data s) = config s"
    using assms(1) by (simp_all add: fill_buffer_def config_def)
qed

text \<open>The result of a call on the reference: the words read since the last packet was sent on request,
  and the state of the crate.\<close>

definition call_result :: "'w bus \<Rightarrow> int \<Rightarrow> 16 word list \<Rightarrow> 16 word list \<Rightarrow> 'w \<Rightarrow> int \<times> byte list \<times> 'w vcc \<Rightarrow> bool" where
  "call_result bus irdwr data rs w r \<longleftrightarrow>
     (if sends irdwr data then fst r = int (length rs) \<and> fst (snd r) = word_bytes rs \<and>
        idle (snd (snd r)) \<and> crate (snd (snd r)) = w
      else fst r = 0 \<and> fst (snd r) = [] \<and> represents bus (snd (snd r)) rs w)"

lemma legal_guards:
  assumes "legal irdwr ptr data"
  shows "irdwr \<noteq> 4" "irdwr \<noteq> 5" "\<not> (irdwr = 6 \<and> data ! 0 = 0 \<and> data ! 1 = 0)"
    "\<not> ((irdwr = 0 \<or> irdwr = 2) \<and> 0xC00000 \<le> ptr)" "\<not> (irdwr \<le> 3 \<and> ptr < 0x80000)"
  using assms by (auto simp: legal_def not_le not_less)

lemma call_step:
  assumes serves: "vcc_serves link bus (hw_dest_addr s)" and rep: "represents bus s rs w"
    and legal: "legal irdwr ptr data" and op: "bus_op bus (op_of irdwr ptr data) (rs, w) = (rs', w')"
  shows "call_result bus irdwr data rs' w' (VME_controller link irdwr ptr data s)"
    and "config (snd (snd (VME_controller link irdwr ptr data s))) = config s"
proof -
  obtain ops spe where h: "holds_ops s ops spe" and len: "length (pending s) + 4 \<le> MAX_DATA"
    and rs: "(rs, w) = (spe @ fst (bus_run bus ops (crate s)), snd (bus_run bus ops (crate s)))"
    using rep by (auto simp: represents_def)
  note i = initialize_holds[OF h]
  define f where "f = fill_buffer irdwr ptr data (initialize s)"
  note fill = fill_holds[OF i(1,2) legal, folded f_def]
  have wlen: "length (wbuf f) \<le> 8990" using fill(3) len by (simp add: i MAX_DATA_def)
  have dest: "hw_dest_addr f = hw_dest_addr s" using fill(6) i(6) by (simp add: config_def)
  have run: "(rs', w') = (spe @ fst (bus_run bus (ops @ [op_of irdwr ptr data]) (crate f)),
      snd (bus_run bus (ops @ [op_of irdwr ptr data]) (crate f)))"
    using op rs fill(5) i(5) bus_op_frame[of bus "op_of irdwr ptr data" spe]
    by (simp add: bus_run_snoc)
  define large where "large \<longleftrightarrow> MAX_DATA < length (wbuf f) \<and> \<not> sends irdwr data"
  have call: "VME_controller link irdwr ptr data s =
     (if sends irdwr data \<or> large then read_back link large (send_packet link f) else (0, [], f))"
    unfolding VME_controller_def Let_def f_def[symmetric]
    using legal by (cases rule: irdwr_cases[OF legal]) (auto simp: sends_def large_def legal_def)
  obtain s' where s': "read_back link large (send_packet link f) =
      (if large then 0 else int (length rs'), if large then [] else word_bytes rs', s')"
      "config s' = config f" "crate s' = w'" "holds_ops s' [] (if large then rs' else [])" "\<not> istrt s'"
    using send_read_back[OF serves[folded dest] fill(4,1,2) wlen run] by blast
  have "call_result bus irdwr data rs' w' (VME_controller link irdwr ptr data s) \<and>
      config (snd (snd (VME_controller link irdwr ptr data s))) = config s"
  proof (cases "sends irdwr data")
    case True
    then have "\<not> large" by (simp add: large_def)
    with True s' call fill(6) i(6) show ?thesis
      by (auto simp: call_result_def idle_def holds_ops_def)
  next
    case no: False
    show ?thesis
    proof (cases large)
      case True
      have "represents bus s' rs' w'" unfolding represents_def
        by (intro exI[of _ "[]"] exI[of _ rs'])
          (use True s' in \<open>simp add: pending_def MAX_DATA_def bus_run_def\<close>)
      with no True s' call fill(6) i(6) show ?thesis by (simp add: call_result_def)
    next
      case False
      have "4 \<le> length (wbuf f)" using fill(1,4) by (simp add: holds_ops_def)
      with False no have "length (pending f) + 4 \<le> MAX_DATA"
        using fill(4) by (simp add: large_def pending_def)
      then have "represents bus f rs' w'" unfolding represents_def
        using fill(1) run by (intro exI conjI) assumption+
      with no False call fill(6) i(6) show ?thesis by (simp add: call_result_def)
    qed
  qed
  then show "call_result bus irdwr data rs' w' (VME_controller link irdwr ptr data s)"
    "config (snd (snd (VME_controller link irdwr ptr data s))) = config s" by blast+
qed

end
