(* ===== verification/Vcc_Calls.thy ===== *)
theory Vcc_Calls
  imports Vcc_Bus
begin

text \<open>
  Sequences of controller calls: the properties of \<^verbatim>\<open>vme_controller\<close> as its callers see it, with a
  crate controller that decodes the packets for the concrete examples.
\<close>

unbundle bit_operations_syntax

section \<open>The recording wrapper\<close>

definition record_write :: "int \<Rightarrow> 32 word \<Rightarrow> 16 word list \<Rightarrow> 'w vcc \<Rightarrow> 'w vcc" where
  "record_write irdwr ptr data s =
     (if fill_write_vme_vectors s \<and> (irdwr = 1 \<or> irdwr = 3) \<and> ok_vme_write s
      then s\<lparr>write_vme_address := write_vme_address s @ [uint (ptr AND 0xff)],
             write_data_lsb := write_data_lsb s @ [uint (data ! 0 AND 0xff)],
             write_data_msb := write_data_msb s @ [uint (drop_bit 8 (data ! 0) AND 0xff)]\<rparr>
      else s)"

lemma vme_controller_alt:
  "vme_controller link irdwr ptr data s = VME_controller link irdwr ptr data (record_write irdwr ptr data s)"
  by (simp add: vme_controller_def record_write_def Let_def)

lemma record_write_simps [simp]:
  "hw_dest_addr (record_write i p d s) = hw_dest_addr s" "config (record_write i p d s) = config s"
  "represents bus (record_write i p d s) rs w \<longleftrightarrow> represents bus s rs w"
  by (simp_all add: record_write_def config_def represents_def holds_ops_def pending_def)

lemma vme_controller_step:
  assumes "vcc_serves link bus (hw_dest_addr s)" and "represents bus s rs w" and "legal irdwr ptr data"
    and "bus_op bus (op_of irdwr ptr data) (rs, w) = (rs', w')"
  shows "call_result bus irdwr data rs' w' (vme_controller link irdwr ptr data s)"
    and "config (snd (snd (vme_controller link irdwr ptr data s))) = config s"
  using call_step[of link bus "record_write irdwr ptr data s"] assms by (simp_all add: vme_controller_alt)

text \<open>A sequence of calls, with the result of the last one.\<close>

type_synonym vme_call = "int \<times> 32 word \<times> 16 word list"

fun vme_calls :: "'w link \<Rightarrow> vme_call list \<Rightarrow> 'w vcc \<Rightarrow> int \<times> byte list \<times> 'w vcc" where
  "vme_calls link [] s = (0, [], s)"
| "vme_calls link [(irdwr, ptr, data)] s = vme_controller link irdwr ptr data s"
| "vme_calls link ((irdwr, ptr, data) # c # cs) s =
     vme_calls link (c # cs) (snd (snd (vme_controller link irdwr ptr data s)))"

definition call_op :: "vme_call \<Rightarrow> vme_op" where
  "call_op = (\<lambda>(irdwr, ptr, data). op_of irdwr ptr data)"

definition buffered :: "vme_call \<Rightarrow> bool" where
  "buffered = (\<lambda>(irdwr, ptr, data). legal irdwr ptr data \<and> \<not> sends irdwr data)"

definition requested :: "vme_call \<Rightarrow> bool" where
  "requested = (\<lambda>(irdwr, ptr, data). legal irdwr ptr data \<and> sends irdwr data)"

lemma hw_dest_config: "config s = config t \<Longrightarrow> hw_dest_addr s = hw_dest_addr t"
  by (simp add: config_def)

lemma buffered_calls:
  assumes "vcc_serves link bus (hw_dest_addr s)" and "represents bus s rs w" and "list_all buffered cs"
  shows "represents bus (snd (snd (vme_calls link cs s))) (fst (fold (bus_op bus) (map call_op cs) (rs, w)))
           (snd (fold (bus_op bus) (map call_op cs) (rs, w)))
    \<and> config (snd (snd (vme_calls link cs s))) = config s"
  using assms
proof (induction link cs s arbitrary: rs w rule: vme_calls.induct)
  case (1 link s)
  then show ?case by simp
next
  case (2 link irdwr ptr data s)
  obtain rs' w' where "bus_op bus (op_of irdwr ptr data) (rs, w) = (rs', w')" by fastforce
  with 2 vme_controller_step[of link bus s rs w irdwr ptr data rs' w'] show ?case
    by (auto simp: buffered_def call_op_def call_result_def)
next
  case (3 link irdwr ptr data c cs s)
  obtain rs' w' where op: "bus_op bus (op_of irdwr ptr data) (rs, w) = (rs', w')" by fastforce
  let ?s = "snd (snd (vme_controller link irdwr ptr data s))"
  from 3 vme_controller_step[OF _ _ _ op, of link s]
  have "represents bus ?s rs' w'" "config ?s = config s"
    by (auto simp: buffered_def call_result_def)
  with 3 hw_dest_config[of ?s s] op show ?case by (simp add: call_op_def)
qed

lemma vme_calls_snoc:
  "vme_calls link (cs @ [(irdwr, ptr, data)]) s =
   vme_controller link irdwr ptr data (snd (snd (vme_calls link cs s)))"
proof (induction link cs s rule: vme_calls.induct)
  case (3 link irdwr' ptr' data' c cs s)
  then show ?case by simp
qed simp_all

lemma requested_call:
  assumes "vcc_serves link bus (hw_dest_addr s)" and "represents bus s rs w"
    and "list_all buffered cs" and "requested c"
    and "fold (bus_op bus) (map call_op (cs @ [c])) (rs, w) = (rs', w')"
  obtains s' where "vme_calls link (cs @ [c]) s = (int (length rs'), word_bytes rs', s')"
    and "idle s'" and "crate s' = w'" and "config s' = config s"
proof -
  obtain irdwr ptr data where c: "c = (irdwr, ptr, data)" by (cases c)
  obtain rs1 w1 where fold: "fold (bus_op bus) (map call_op cs) (rs, w) = (rs1, w1)" by fastforce
  let ?s = "snd (snd (vme_calls link cs s))"
  have rep: "represents bus ?s rs1 w1" "config ?s = config s"
    using buffered_calls[OF assms(1-3)] fold by simp_all
  have op: "bus_op bus (op_of irdwr ptr data) (rs1, w1) = (rs', w')"
    using assms(5) fold by (simp add: call_op_def c)
  have "vcc_serves link bus (hw_dest_addr ?s)" using assms(1) hw_dest_config[OF rep(2)] by simp
  from vme_controller_step[OF this rep(1) _ op] assms(4) rep(2)
  show thesis
    by (intro that[of "snd (snd (vme_controller link irdwr ptr data ?s))"])
      (auto simp: requested_def c call_result_def vme_calls_snoc prod_eq_iff)
qed

section \<open>A crate controller that decodes packets\<close>

definition address_24_of :: "byte \<Rightarrow> byte \<Rightarrow> byte \<Rightarrow> 24 word" where
  "address_24_of a b c = word_cat a (word_cat b c :: 16 word)"

fun decode_op :: "byte list \<Rightarrow> (vme_op \<times> byte list) option" where
  "decode_op (t # c # x # y # rest) =
     (if t = 0x02 then Some (Vwait 0 (word_cat x y), rest)
      else case rest of
        u # v # rest \<Rightarrow>
          if t = 0x05 then Some (Vwait (word_cat x y) (word_cat u v), rest)
          else if c = 0x44 then Some (Vread (address_24_of y u v), rest)
          else (case rest of d # e # rest \<Rightarrow> Some (Vwrite (address_24_of y u v) (word_cat d e), rest)
                | _ \<Rightarrow> None)
      | _ \<Rightarrow> None)"
| "decode_op _ = None"

fun decode_ops :: "nat \<Rightarrow> byte list \<Rightarrow> vme_op list option" where
  "decode_ops 0 bs = (if bs = [] then Some [] else None)"
| "decode_ops (Suc n) bs =
     (case decode_op bs of None \<Rightarrow> None
      | Some (op, rest) \<Rightarrow> map_option (Cons op) (decode_ops n rest))"

definition answer_frame :: "byte list \<Rightarrow> 16 word list \<Rightarrow> byte list" where
  "answer_frame da ws = replicate 6 0 @ da @ [0, 0, 0, 5, 0, 0, 0, 0,
     hi_byte (of_nat (length ws)), lo_byte (of_nat (length ws))] @ concat (map (\<lambda>w. [hi_byte w, lo_byte w]) ws)"

definition crate_controller :: "'w bus \<Rightarrow> byte list \<Rightarrow> 'w link" where
  "crate_controller bus da p w =
     (if take 2 p \<noteq> [0x00, 0x20] then ([], w)
      else case decode_ops (unat (word_cat (p ! 2) (p ! 3) :: 16 word)) (drop 4 p) of
        None \<Rightarrow> ([], w)
      | Some ops \<Rightarrow> (let (rs, w) = bus_run bus ops w in (if rs = [] then [] else [answer_frame da rs], w)))"

lemma address_24_of_bytes: "address_24_of (ucast (drop_bit 16 a)) (ucast (drop_bit 8 a)) (ucast a) = a"
  unfolding address_24_of_def by (rule bit_word_eqI) (auto simp: bit_simps)

lemma decode_op_bytes: "decode_op (op_bytes op @ rest) = Some (op, rest)"
  by (cases op) (simp_all add: address_24_of_bytes)

lemma decode_ops_bytes: "decode_ops (length ops) (concat (map op_bytes ops)) = Some ops"
  by (induction ops) (simp_all add: decode_op_bytes)

lemma nth_hi_lo:
  "i < length ws \<Longrightarrow> concat (map (\<lambda>w. [hi_byte w, lo_byte w]) ws) ! (2 * i) = hi_byte (ws ! i) \<and>
   concat (map (\<lambda>w. [hi_byte w, lo_byte w]) ws) ! Suc (2 * i) = lo_byte (ws ! i)"
proof (induction ws arbitrary: i)
  case Nil
  then show ?case by simp
next
  case (Cons w ws)
  then show ?case by (cases i) simp_all
qed

lemma unat_hi_lo: "unat (hi_byte d) * 256 + unat (lo_byte d) = unat d"
proof -
  have "unat d < 2 ^ LENGTH(16)" by (rule unsigned_less)
  then have "unat d < 65536" by simp
  then have "unat (hi_byte d) = unat d div 256" "unat (lo_byte d) = unat d mod 256"
    by (simp_all add: hi_byte_eq lo_byte_eq unsigned_ucast_eq unsigned_drop_bit_eq drop_bit_eq_div take_bit_eq_mod unat_div)
  then show ?thesis by simp
qed

lemma data_frame_answer:
  assumes "length da = 6" and "length ws < 65536"
  shows "data_frame da ws (answer_frame da ws)"
proof -
  define n :: "16 word" where "n = of_nat (length ws)"
  define h where "h = replicate 6 0 @ da @ [0, 0, 0, 5, 0, 0, 0, 0, hi_byte n, lo_byte n]"
  define d where "d = concat (map (\<lambda>w. [hi_byte w, lo_byte w]) ws)"
  have f: "answer_frame da ws = h @ d" by (simp add: answer_frame_def h_def d_def n_def)
  have h: "length h = 22" "take 6 h = replicate 6 0" "take 6 (drop 6 h) = da" "h ! 15 = 5"
    "h ! 20 = hi_byte n" "h ! 21 = lo_byte n"
    using assms(1) by (simp_all add: h_def nth_append)
  have d: "length d = 2 * length ws" by (simp add: d_def length_concat comp_def sum_list_triv)
  have n: "unat n = length ws" using assms(2) by (simp add: n_def unat_of_nat take_bit_nat_eq_self)
  have data: "(h @ d) ! (22 + 2 * i) = hi_byte (ws ! i)" "(h @ d) ! (23 + 2 * i) = lo_byte (ws ! i)"
    if "i < length ws" for i
    using nth_append_length_plus[of h d "2 * i"] nth_append_length_plus[of h d "Suc (2 * i)"] nth_hi_lo[OF that]
    by (simp_all add: h(1) d_def)
  have "replicate 6 0 \<noteq> (replicate 6 0xFF :: byte list)" by simp
  then show ?thesis
    unfolding data_frame_def f
    using h d data unat_hi_lo[of n] by (simp add: nth_append n broadcast_addr_def)
qed

lemma crate_controller_serves:
  assumes "length da = 6"
  shows "vcc_serves (crate_controller bus da) bus da"
  unfolding vcc_serves_def
proof (intro allI impI)
  fix ops :: "vme_op list" and w
  assume p: "length (packet ops) \<le> 8990"
  then have len: "length ops < 65536" using length_ops_bytes[of ops] by (simp add: packet_def)
  then have "unat (of_nat (length ops) :: 16 word) = length ops"
    by (simp add: unat_of_nat take_bit_nat_eq_self)
  then have dec: "crate_controller bus da (packet ops) w = (let (rs, w) = bus_run bus ops w
      in (if rs = [] then [] else [answer_frame da rs], w))"
    by (simp add: crate_controller_def packet_def decode_ops_bytes numeral_2_eq_2 numeral_3_eq_3)
  have "reads_of ops \<le> length ops" by (simp add: reads_of_def)
  then have "data_frame da (fst (bus_run bus ops w)) (answer_frame da (fst (bus_run bus ops w)))"
    using data_frame_answer[OF assms] len by simp
  moreover have "fst (bus_run bus ops w) = [] \<longleftrightarrow> reads_of ops = 0"
    by (metis length_0_conv length_bus_run)
  ultimately show "\<exists>noise answer. crate_controller bus da (packet ops) w = (noise @ answer, snd (bus_run bus ops w)) \<and>
      list_all (no_answer da) noise \<and>
      (if reads_of ops = 0 then answer = []
       else \<exists>f. answer = [f] \<and> data_frame da (fst (bus_run bus ops w)) f)"
    unfolding dec
    by (intro exI[of _ "[]"] exI[of _ "if reads_of ops = 0 then [] else [answer_frame da (fst (bus_run bus ops w))]"])
      (simp add: split_beta)
qed

section \<open>Size of a packet\<close>

definition packet_fits :: "'w vcc \<Rightarrow> bool" where
  "packet_fits s \<longleftrightarrow> (istrt s \<longrightarrow> 4 \<le> length (wbuf s) \<and> length (wbuf s) \<le> MAX_DATA)"

definition same_below :: "nat \<Rightarrow> 'w link \<Rightarrow> 'w link \<Rightarrow> bool" where
  "same_below n link link' \<longleftrightarrow> (\<forall>p w. length p \<le> n \<longrightarrow> link p w = link' p w)"

lemma eth_write_below: "same_below n link link' \<Longrightarrow> length (wbuf s) \<le> n \<Longrightarrow> eth_write link s = eth_write link' s"
  by (simp add: same_below_def eth_write_def)

lemma reset_below:
  assumes "same_below 7808 link link'"
  shows "reset link s = reset link' s"
  using eth_write_below[OF assms, of "s\<lparr>wbuf := [0x00, word_of_int (0xF9 AND 0xFF)]\<rparr>"]
  by (simp add: reset_def vcc_write_command_def split_bytes_def)

text \<open>One round of the loop: its result, or the next counter and state.\<close>

definition look :: "'w link \<Rightarrow> nat \<Rightarrow> 'w vcc \<Rightarrow> (bool \<times> 'w vcc) + (nat \<times> 'w vcc)" where
  "look link n s =
     (let (k, s) = eth_read (s\<lparr>nrbuf := nread s\<rparr>)
      in if k < 10 then Inl (False, SetLife False (s\<lparr>error_count := error_count s + 1\<rparr>))
         else if unexpected s then Inr (n, s)
         else let s = SetLife True s
              in if return_type s = 5 then Inl (True, s)
                 else if return_type s \<in> {0xff, 0xfe, 0xfd}
                 then (let s = note_error s
                       in if return_type s = 0xff \<and> EWI s = 2 \<and> error_type s = 306
                          then Inr (n + 1, if n = 0 then reset link s else s) else Inr (n, s))
                 else Inr (n, s))"

lemma read_answer_look:
  "read_answer link n s = (case look link n s of Inl r \<Rightarrow> r | Inr (n, s) \<Rightarrow> read_answer link n s)"
  by (subst read_answer.simps) (auto simp: look_def Let_def split: prod.splits)

lemma look_smaller:
  assumes "look link n s = Inr (n', s')"
  shows "n = 0 \<and> n' \<noteq> 0 \<or> (n = 0 \<longleftrightarrow> n' = 0) \<and> length (rx_ring s') < length (rx_ring s)"
proof -
  obtain k t where read: "eth_read (s\<lparr>nrbuf := nread s\<rparr>) = (k, t)" by fastforce
  with assms have "\<not> k < 10" by (auto simp: look_def)
  then have "length (rx_ring t) < length (rx_ring s)" by (rule ring_decr[OF read])
  then show ?thesis using assms read by (auto simp: look_def Let_def split: if_splits)
qed

lemma read_answer_rule:
  assumes "\<And>n s. (\<And>n' s'. look link n s = Inr (n', s') \<Longrightarrow> P n' s') \<Longrightarrow> P n s"
  shows "P n s"
proof -
  let ?R = "measures [\<lambda>(n :: nat, s). if n = 0 then 1 else 0, \<lambda>(n, s). length (rx_ring s)]"
  have "wf ?R" by simp
  then have "case_prod P (n, s)"
  proof (induction "(n, s)" arbitrary: n s rule: wf_induct_rule)
    case (less n s)
    show ?case
    proof (clarsimp, rule assms)
      fix n' s' assume "look link n s = Inr (n', s')"
      then have "((n', s'), (n, s)) \<in> ?R" using look_smaller by fastforce
      then show "P n' s'" using less by auto
    qed
  qed
  then show ?thesis by simp
qed

lemma read_answer_below:
  assumes "same_below 7808 link link'"
  shows "read_answer link n s = read_answer link' n s"
proof (induction n s rule: read_answer_rule[where link = link])
  case (1 n s)
  have "reset link' = reset link" using reset_below[OF assms] by (intro ext) simp
  then have "look link' n s = look link n s" by (simp only: look_def)
  then show ?case using 1 read_answer_look[of link n s] read_answer_look[of link' n s]
    by (auto split: sum.splits)
qed

lemma kept_eth_read: "kept (snd (eth_read s)) = kept s"
proof -
  have "kept (snd (read_frame s)) = kept s" for s :: "'a vcc"
    by (simp add: read_frame_def Let_def split_beta)
  then have "kept (snd (eth_read_loop n s)) = kept s" for n
    by (induction n arbitrary: s) (simp_all add: split_beta Let_def)
  then show ?thesis by (simp add: eth_read_def)
qed

lemma istrt_eth_read: "istrt (snd (eth_read s)) = istrt s"
  using kept_fields(2)[OF kept_eth_read] .

lemma read_answer_unsent: "\<not> istrt s \<Longrightarrow> \<not> istrt (snd (read_answer link n s))"
proof (induction n s rule: read_answer_rule[where link = link])
  case (1 n s)
  obtain k t where read: "eth_read (s\<lparr>nrbuf := nread s\<rparr>) = (k, t)" by fastforce
  have t: "\<not> istrt t" using 1(2) istrt_eth_read[of "s\<lparr>nrbuf := nread s\<rparr>"] by (simp add: read)
  have upd: "istrt (SetLife l u) = istrt u" "istrt (note_error u) = istrt u" "istrt (reset link u) = istrt u"
    for l and u :: "'a vcc"
    by (simp_all add: SetLife_def note_error_def reset_def vcc_write_command_def eth_write_def Let_def split_beta)
  show ?case
  proof (cases "look link n s")
    case (Inl r)
    then have "\<not> istrt (snd r)" using t read by (auto simp: look_def Let_def upd split: if_splits)
    then show ?thesis using Inl read_answer_look[of link n s] by simp
  next
    case (Inr q)
    then have "\<not> istrt (snd q)" using t read by (auto simp: look_def Let_def upd split: if_splits)
    then show ?thesis using 1(1)[of "fst q" "snd q"] Inr read_answer_look[of link n s] by (simp add: split_beta)
  qed
qed

lemma send_packet_below:
  assumes "same_below 7808 link link'" and "length (wbuf s) \<le> 7808"
  shows "send_packet link s = send_packet link' s"
  unfolding send_packet_def by (subst eth_write_below[OF assms(1)]) (use assms(2) in simp_all)

lemma read_back_below:
  "same_below 7808 link link' \<Longrightarrow> read_back link large s = read_back link' large s"
  by (simp add: read_back_def read_answer_below)

lemma read_back_unsent: "\<not> istrt s \<Longrightarrow> \<not> istrt (snd (snd (read_back link large s)))"
  using read_answer_unsent[of "clear_error s" link 0]
  by (auto simp: read_back_def clear_error_def split_beta Let_def)

lemma length_command_bytes: "length (command_bytes irdwr ptr data) \<le> 8"
  by (simp add: command_bytes_def address_bytes_def Let_def)

lemma packet_fits_initialize: "packet_fits s \<Longrightarrow> packet_fits (initialize s) \<and> istrt (initialize s)"
  by (simp add: packet_fits_def initialize_def MAX_DATA_def)

lemma VME_controller_packet_fits:
  assumes "packet_fits s" and below: "same_below 7808 link link'"
  shows "VME_controller link irdwr ptr data s = VME_controller link' irdwr ptr data s"
    and "packet_fits (snd (snd (VME_controller link irdwr ptr data s)))"
proof -
  define f where "f = fill_buffer irdwr ptr data (initialize s)"
  have i: "4 \<le> length (wbuf (initialize s))" "length (wbuf (initialize s)) \<le> 7800" "istrt (initialize s)"
    using packet_fits_initialize[OF assms(1)] by (simp_all add: packet_fits_def MAX_DATA_def)
  then have f: "4 \<le> length (wbuf f)" "length (wbuf f) \<le> 7808" "istrt f"
    using length_command_bytes[of irdwr ptr data] by (simp_all add: f_def fill_buffer_def)
  note same = send_packet_below[OF below f(2)] read_back_below[OF below]
  show "VME_controller link irdwr ptr data s = VME_controller link' irdwr ptr data s"
    unfolding VME_controller_def Let_def f_def[symmetric] same ..
  have unsent: "\<not> istrt (snd (snd (read_back link large (send_packet link f))))" for large
    by (intro read_back_unsent) (simp add: send_packet_def Let_def)
  have other: "length (wbuf f) \<le> MAX_DATA \<or> irdwr = 0 \<or> irdwr = 1 \<or> irdwr = 2 \<or> irdwr = 3 \<or> irdwr = 6"
    using i(2) by (auto simp: f_def fill_buffer_def command_bytes_def MAX_DATA_def)
  show "packet_fits (snd (snd (VME_controller link irdwr ptr data s)))"
    unfolding VME_controller_def Let_def f_def[symmetric]
    using other unsent f i packet_fits_initialize[OF assms(1)] by (auto simp: packet_fits_def)
qed

section \<open>Delays\<close>

lemma word_and_ffff: "word_of_int (x AND 0xffff) = (word_of_int x :: 16 word)"
proof -
  have "x AND 0xffff = take_bit 16 x" using take_bit_eq_mask[of 16 x] by (simp add: mask_eq_exp_minus_1)
  moreover have "word_of_int (take_bit 16 x) = (word_of_int x :: 16 word)"
    by (rule bit_word_eqI) (simp add: bit_simps)
  ultimately show ?thesis by simp
qed

lemma unat_word_16: "unat (word_of_int x :: 16 word) = nat (x mod 65536)"
  by (simp add: unsigned_of_int take_bit_eq_mod)

section \<open>Properties\<close>

text \<open>A crate with one register, for concrete examples.\<close>

definition register_bus :: "(16 word) bus" where
  "register_bus = \<lparr>bus_read = (\<lambda>a w. (w, w)), bus_write = (\<lambda>a d w. d), bus_wait = (\<lambda>t w. w)\<rparr>"

definition crate_address :: "byte list" where
  "crate_address = [2, 0, 0, 0, 0, 1]"

definition blank_vcc :: "'w \<Rightarrow> 'w vcc" where
  "blank_vcc w = \<lparr>wbuf = [], rbuf = [], nrbuf = 0, istrt = False, nvme = 0, nread = 0, spebuff = [],
     rx_ring = [], hw_dest_addr = crate_address, alive = True, error_count = 0, error_type = 0,
     useDCS = True, fill_write_vme_vectors = False, ok_vme_write = False, write_vme_address = [],
     write_data_lsb = [], write_data_msb = [], board = 0, vmeadd = 0, add_ucla = 0, pvme = 0,
     JtagBaseAddress = 0, TCK_pin = 0, TMS_pin = 0, TDI_pin = 0, TDO_pin = 0, crate = w\<rparr>"

lemma blank_vcc_idle: "idle (blank_vcc w)" "hw_dest_addr (blank_vcc w) = crate_address" "crate (blank_vcc w) = w"
  by (simp_all add: blank_vcc_def idle_def)

text \<open>C23. However the commands are distributed over packets, the crate sees them one by one in the order
  of the calls: calls that are only buffered, followed by one that sends, have the effect of their
  operations on the bus, and the last call returns all the words the reads got, in order, low byte
  first, with their number. It holds through every packet that is sent because it is full, and
  whatever frames that are no answer arrive in between; afterwards nothing is pending.\<close>

theorem buffered_calls_in_order:
  assumes "vcc_serves link bus (hw_dest_addr s)" and "idle s"
    and "list_all buffered cs" and "requested c"
  shows "case (bus_run bus (map call_op (cs @ [c])) (crate s), vme_calls link (cs @ [c]) s) of
     ((rs, w), (ret, rcv, s')) \<Rightarrow>
       ret = int (length rs) \<and> rcv = word_bytes rs \<and> crate s' = w \<and> idle s' \<and> config s' = config s"
proof -
  obtain rs w where run: "bus_run bus (map call_op (cs @ [c])) (crate s) = (rs, w)" by fastforce
  then have "fold (bus_op bus) (map call_op (cs @ [c])) ([], crate s) = (rs, w)" by (simp add: bus_run_def)
  then obtain s' where "vme_calls link (cs @ [c]) s = (int (length rs), word_bytes rs, s')"
    and "idle s'" and "crate s' = w" and "config s' = config s"
    by (rule requested_call[OF assms(1) idle_represents[OF assms(2)] assms(3,4)])
  then show ?thesis unfolding run by simp
qed

theorem buffered_calls_in_order_witness:
  "fst (snd (vme_calls (crate_controller register_bus crate_address)
     [(1, 0x80000, [0x1234]), (0, 0x80000, [0]), (1, 0x80000, [7]), (2, 0x80000, [0])] (blank_vcc 0))) =
   [0x34, 0x12, 0x07, 0x00]"
proof -
  let ?cs = "[(1, 0x80000, [0x1234]), (0, 0x80000, [0]), (1, 0x80000, [7])] :: vme_call list"
  let ?c = "(2, 0x80000, [0]) :: vme_call"
  have "bus_run register_bus (map call_op (?cs @ [?c])) 0 = ([0x1234, 7], 7)"
    by (simp add: bus_run_def register_bus_def call_op_def op_of_def)
  moreover have "list_all buffered ?cs" "requested ?c"
    by (simp_all add: buffered_def requested_def legal_def sends_def)
  moreover have "vcc_serves (crate_controller register_bus crate_address) register_bus (hw_dest_addr (blank_vcc 0))"
    unfolding blank_vcc_idle by (rule crate_controller_serves) (simp add: crate_address_def)
  moreover have "word_bytes [0x1234, 7] = [0x34, 0x12, 0x07, 0x00]" by code_simp
  ultimately show ?thesis
    using buffered_calls_in_order[of "crate_controller register_bus crate_address" register_bus "blank_vcc 0" ?cs ?c]
    by (auto simp: blank_vcc_idle split_beta simp del: vme_calls.simps)
qed

text \<open>C24. No packet outgrows the buffers: whatever is called and whatever the crate answers, the
  commands waiting in \<^verbatim>\<open>wbuf\<close> stay within \<^verbatim>\<open>MAX_DATA\<close> bytes between calls, and the controller never
  writes a packet of more than 7808 bytes (the buffer has 9000): it behaves alike on any two links that
  agree on the packets of that size.\<close>

theorem packets_stay_small:
  assumes "packet_fits s" and "same_below 7808 link link'"
  shows "vme_controller link irdwr ptr data s = vme_controller link' irdwr ptr data s \<and>
     packet_fits (snd (snd (vme_controller link irdwr ptr data s)))"
proof -
  have "packet_fits (record_write irdwr ptr data s)" using assms(1) by (simp add: record_write_def packet_fits_def)
  then show ?thesis using VME_controller_packet_fits[OF _ assms(2)] by (simp add: vme_controller_alt)
qed

theorem packets_stay_small_witness:
  "packet_fits (snd (snd (vme_controller (\<lambda>p w. ([], w)) 1 0x80000 [5] (blank_vcc 0))))"
  using packets_stay_small[of "blank_vcc 0" "\<lambda>p w. ([], w)" "\<lambda>p w. ([], w)" 1 "0x80000" "[5]"]
  by (simp add: packet_fits_def blank_vcc_def same_below_def)

text \<open>C25. The words of a packet that was sent because it was full survive a read that gets no answer:
  the call returns -100 and leaves them in \<^verbatim>\<open>spebuff\<close>, and the next read, although it is
  answered, returns them in front of its own word.\<close>

theorem unanswered_read_leaves_words:
  assumes "holds_ops s [] old" and "\<not> istrt s" and "rx_ring s = []"
    and "\<And>p w. link p w = ([], w)" and "vcc_serves link' bus (hw_dest_addr s)"
    and "0x80000 \<le> ptr" and "ptr < 0xC00000" and "bus_read bus (ucast ptr) (crate s) = (d, w)"
  shows "case vme_controller link 2 ptr data s of (ret, rcv, s1) \<Rightarrow>
     ret = -100 \<and> alive s1 = False \<and>
     (case vme_controller link' 2 ptr data s1 of (ret2, rcv2, s2) \<Rightarrow>
        ret2 = int (length old) + 1 \<and> rcv2 = word_bytes (old @ [d]) \<and> crate s2 = w)"
proof -
  have legal: "legal 2 ptr data" using assms(6,7) by (simp add: legal_def)
  define f where "f = fill_buffer 2 ptr data (initialize s)"
  note i = initialize_holds[OF assms(1)]
  note fill = fill_holds[OF i(1,2) legal, folded f_def]
  define t where "t = send_packet link f"
  have ring: "rx_ring (initialize s) = []" using assms(3) by (simp add: initialize_def)
  have t: "rx_ring t = []" "\<not> istrt t" "config t = config s" "crate t = crate s" "spebuff t = word_bytes old" "0 < nread t"
    using fill i ring by (simp_all add: t_def send_packet_def eth_write_def assms(4) config_def holds_ops_def
        f_def fill_buffer_def op_of_def reads_of_def)
  define u where "u = snd (eth_read ((clear_error t)\<lparr>nrbuf := nread (clear_error t)\<rparr>))"
  have "fst (eth_read ((clear_error t)\<lparr>nrbuf := nread (clear_error t)\<rparr>)) = 6"
    unfolding eth_read_def using t(1) by (intro size_read_loop) (simp add: clear_error_def)
  then have "eth_read ((clear_error t)\<lparr>nrbuf := nread (clear_error t)\<rparr>) = (6, u)"
    by (simp add: u_def prod_eq_iff)
  then have ans: "read_answer link 0 (clear_error t) =
      (False, SetLife False (u\<lparr>error_count := error_count u + 1\<rparr>))"
    by (subst read_answer.simps) simp
  have "kept u = kept t" unfolding u_def kept_eth_read by simp
  note same = kept_fields[OF this]
  have uring: "rx_ring u = []"
  proof -
    have "length (rx_ring u) \<le> length (rx_ring ((clear_error t)\<lparr>nrbuf := nread (clear_error t)\<rparr>)) - 1"
      unfolding u_def eth_read_def by (rule ring_read_loop)
    then show ?thesis using t(1) by (simp add: clear_error_def)
  qed
  define s1 where "s1 = (SetLife False (u\<lparr>error_count := error_count u + 1\<rparr>))\<lparr>nread := 0\<rparr>"
  have call: "vme_controller link 2 ptr data s = (-100, word_bytes old, s1)"
    using assms(6,7) t ans
    by (auto simp: vme_controller_alt record_write_def VME_controller_def Let_def read_back_def s1_def
        simp flip: f_def t_def)
  have "holds_ops s1 [] old"
    using same t uring by (simp add: holds_ops_def s1_def SetLife_def pending_def)
  then have rep: "represents bus s1 old (crate s)"
    unfolding represents_def using same t
    by (intro exI[of _ "[]"] exI[of _ old]) (simp add: s1_def SetLife_def pending_def bus_run_def MAX_DATA_def)
  have cfg: "config s1 = config s" using same(7) t(3) by (simp add: s1_def SetLife_def config_def)
  have op: "bus_op bus (op_of 2 ptr data) (old, crate s) = (old @ [d], w)"
    using assms(8) by (simp add: op_of_def)
  have "call_result bus 2 data (old @ [d]) w (vme_controller link' 2 ptr data s1)"
    using assms(5) hw_dest_config[OF cfg] by (intro vme_controller_step(1)[OF _ rep legal op]) simp
  then show ?thesis
    by (auto simp: call s1_def SetLife_def call_result_def sends_def split: prod.splits)
qed

theorem unanswered_read_leaves_words_witness:
  "case vme_controller (\<lambda>p w. ([], w)) 2 0x80000 [0] ((blank_vcc 3)\<lparr>spebuff := word_bytes [1]\<rparr>) of (ret, rcv, s1) \<Rightarrow>
     ret = -100 \<and> alive s1 = False \<and>
     (case vme_controller (crate_controller register_bus crate_address) 2 0x80000 [0] s1 of (ret2, rcv2, s2) \<Rightarrow>
        ret2 = 2 \<and> rcv2 = word_bytes [1, 3] \<and> crate s2 = 3)"
proof -
  let ?s = "(blank_vcc 3)\<lparr>spebuff := word_bytes [1]\<rparr> :: (16 word) vcc"
  have s: "hw_dest_addr ?s = crate_address" "crate ?s = 3" "\<not> istrt ?s" "rx_ring ?s = []" "holds_ops ?s [] [1]"
    by (simp_all add: blank_vcc_def holds_ops_def pending_def)
  have serves: "vcc_serves (crate_controller register_bus crate_address) register_bus (hw_dest_addr ?s)"
    unfolding s by (rule crate_controller_serves) (simp add: crate_address_def)
  show ?thesis
    using unanswered_read_leaves_words[OF s(5,3,4) _ serves, of "\<lambda>p w. ([], w)" "0x80000" 3 3 "[0]"]
    by (simp add: s(2) register_bus_def split: prod.splits)
qed

text \<open>C26. The bytes of the packets can be decoded without loss: the commands of any sequence of legal
  calls, one after the other, are read back as the operations of the calls. In particular the three
  forms (8 bytes for a write, 6 for a read, 4 or 6 for a delay) are told apart by their first bytes.\<close>

theorem command_bytes_roundtrip:
  assumes "list_all (\<lambda>(irdwr, ptr, data). legal irdwr ptr data) cs"
  shows "decode_ops (length cs) (concat (map (\<lambda>(irdwr, ptr, data). command_bytes irdwr ptr data) cs)) =
     Some (map call_op cs)"
proof -
  have "map (\<lambda>(irdwr, ptr, data). command_bytes irdwr ptr data) cs = map op_bytes (map call_op cs)"
    using assms by (auto simp: list_all_iff call_op_def command_bytes_op)
  then show ?thesis using decode_ops_bytes[of "map call_op cs"] by (simp only: length_map)
qed

theorem command_bytes_roundtrip_witness:
  "decode_ops 2 (command_bytes 1 0x580070 [0xABCD] @ command_bytes 6 0 [50, 0]) =
   Some [Vwrite 0x580070 0xABCD, Vwait 0 50]"
proof -
  let ?cs = "[(1, 0x580070, [0xABCD]), (6, 0, [50, 0])] :: vme_call list"
  have ops: "map call_op ?cs = [Vwrite 0x580070 0xABCD, Vwait 0 50]"
    by (simp add: call_op_def op_of_def)
  have bytes: "concat (map (\<lambda>(irdwr, ptr, data). command_bytes irdwr ptr data) ?cs) =
      command_bytes 1 0x580070 [0xABCD] @ command_bytes 6 0 [50, 0]" by simp
  have "decode_ops (length ?cs) (concat (map (\<lambda>(irdwr, ptr, data). command_bytes irdwr ptr data) ?cs)) =
      Some (map call_op ?cs)"
    by (rule command_bytes_roundtrip) (simp add: legal_def)
  then show ?thesis unfolding ops bytes by (simp only: list.size numeral_2_eq_2 add_0 add_Suc add_Suc_right plus_nat.simps)
qed

text \<open>C27. A delay is never too short: the units of 16 ns that \<^verbatim>\<open>sleep_vme\<close> asks the crate to wait are at
  least the time in microseconds, and at most one microsecond more, for every time whose units an
  \<^verbatim>\<open>int\<close> can hold. The call appends exactly one operation, this wait, and a wait of 65536 units or more
  sends the packet.\<close>

theorem sleep_long_enough:
  assumes "vcc_serves link bus (hw_dest_addr s)" and "represents bus s rs w" and "0 < time" and "time < 34000000"
  shows "\<exists>units. 1000 * time \<le> 16 * int units \<and> 16 * int units \<le> 1000 * time + 1000 \<and>
     (if units < 65536 then represents bus (sleep_vme link time s) rs (bus_wait bus units w)
      else idle (sleep_vme link time s) \<and> crate (sleep_vme link time s) = bus_wait bus units w)"
proof -
  define u where "u = (time + 1) sdiv 2 * 125"
  have u: "1000 * time \<le> 16 * u" "16 * u \<le> 1000 * time + 1000" "0 \<le> u" "u < 4294967296"
  proof -
    have "(time + 1) sdiv 2 = (time + 1) div 2" using assms(3) by (simp add: signed_divide_int_def)
    moreover have "time \<le> 2 * ((time + 1) div 2)" "2 * ((time + 1) div 2) \<le> time + 1" by presburger+
    ultimately show "1000 * time \<le> 16 * u" "16 * u \<le> 1000 * time + 1000" "0 \<le> u" "u < 4294967296"
      using assms(3,4) by (simp_all add: u_def)
  qed
  define hi lo :: "16 word" where "hi = word_of_int (u div 65536)" and "lo = word_of_int u"
  have dw: "delay_words u = [lo, hi]" by (simp add: delay_words_def word_and_ffff drop_bit_eq_div hi_def lo_def)
  have n: "unat hi = nat (u div 65536)" "unat lo = nat (u mod 65536)"
    using u(3,4) by (simp_all add: hi_def lo_def unat_word_16)
  have units: "65536 * unat hi + unat lo = nat u"
  proof -
    have "int (65536 * nat (u div 65536) + nat (u mod 65536)) = u"
      using u(3) by (simp add: pos_imp_zdiv_nonneg_iff)
    then show ?thesis unfolding n by linarith
  qed
  have zero: "hi = 0 \<longleftrightarrow> u < 65536" "hi = 0 \<Longrightarrow> lo = 0 \<Longrightarrow> False"
    using n u assms(3) by (auto simp: unat_eq_0[symmetric] simp del: unat_eq_0)
  have legal: "legal 6 0 (delay_words u)" using zero(2) by (auto simp: legal_def dw)
  have op: "bus_op bus (op_of 6 0 (delay_words u)) (rs, w) = (rs, bus_wait bus (nat u) w)"
    by (simp add: op_of_def dw units)
  have "call_result bus 6 (delay_words u) rs (bus_wait bus (nat u) w) (vme_controller link 6 0 (delay_words u) s)"
    by (rule vme_controller_step(1)[OF assms(1,2) legal op])
  then show ?thesis
    using u zero(1) by (intro exI[of _ "nat u"])
      (auto simp: call_result_def sends_def dw sleep_vme_def simp flip: u_def split: if_splits)
qed

theorem sleep_long_enough_witness:
  "\<exists>units. 1000 * 100 \<le> 16 * int units \<and> 16 * int units \<le> 1000 * 100 + 1000 \<and>
     (if units < 65536 then represents register_bus (sleep_vme (crate_controller register_bus crate_address) 100 (blank_vcc 3)) [] 3
      else idle (sleep_vme (crate_controller register_bus crate_address) 100 (blank_vcc 3)) \<and>
        crate (sleep_vme (crate_controller register_bus crate_address) 100 (blank_vcc 3)) = 3)"
proof -
  have "vcc_serves (crate_controller register_bus crate_address) register_bus (hw_dest_addr (blank_vcc 3))"
    unfolding blank_vcc_idle by (rule crate_controller_serves) (simp add: crate_address_def)
  note sleep_long_enough[OF this idle_represents[OF blank_vcc_idle(1)], of 100]
  moreover have "bus_wait register_bus t x = x" for t x by (simp add: register_bus_def)
  ultimately show ?thesis by (simp only: blank_vcc_idle simp_thms)
qed

end
