(* ===== verification/Vme_Jtag.thy ===== *)
theory Vme_Jtag
  imports Vcc_Calls
begin

text \<open>
  The bit-banged JTAG of \<^verbatim>\<open>VMEController_jtag.cc\<close>: a board register holds the four JTAG lines, and
  every JTAG clock takes three VME writes to it. The last argument of a buffered call is not used
  (a call with 0 or 1 stores nothing), so it is left out; the words read come back with the last call.
\<close>

unbundle bit_operations_syntax

section \<open>Clocks\<close>

definition vme_buffered :: "'w link \<Rightarrow> int \<Rightarrow> 32 word \<Rightarrow> 16 word \<Rightarrow> 'w vcc \<Rightarrow> 'w vcc" where
  "vme_buffered link irdwr ptr d s = snd (snd (vme_controller link irdwr ptr [d] s))"

text \<open>The lines set by the three writes; the last write is buffered (1) or sends the packet (3).\<close>

definition tck_cycle :: "'w link \<Rightarrow> int \<Rightarrow> 32 word \<Rightarrow> 16 word \<Rightarrow> 'w vcc \<Rightarrow> byte list \<times> 'w vcc" where
  "tck_cycle link when ptr d s =
     (let TCK = push_bit (TCK_pin s) 1;
          s = vme_buffered link 1 ptr d s;
          s = vme_buffered link 1 ptr (d OR TCK) s;
          (ret, rcv, s) = vme_controller link when ptr [d] s
      in (rcv, s))"

definition TMS_word :: "'w vcc \<Rightarrow> bool \<Rightarrow> 16 word" where
  "TMS_word s tms = (if tms then pvme s OR push_bit (TMS_pin s) 1 else pvme s)"

text \<open>A sequence of TMS values; only the last write of the last clock may send.\<close>

fun tms_cycles :: "'w link \<Rightarrow> int \<Rightarrow> 32 word \<Rightarrow> bool list \<Rightarrow> 'w vcc \<Rightarrow> byte list \<times> 'w vcc" where
  "tms_cycles link when ptr [] s = ([], s)"
| "tms_cycles link when ptr [tms] s = tck_cycle link when ptr (TMS_word s tms) s"
| "tms_cycles link when ptr (tms # tms' # rest) s =
     tms_cycles link when ptr (tms' # rest) (snd (tck_cycle link 1 ptr (TMS_word s tms) s))"

section \<open>Shifting bits\<close>

text \<open>The loop over the bits: the next bit of the data goes to TDI, after TDO has been read; with
  \<open>exit\<close> the last bit is shifted with TMS on.\<close>

fun shift_loop :: "'w link \<Rightarrow> 32 word \<Rightarrow> bool \<Rightarrow> bool \<Rightarrow> int \<Rightarrow> byte list \<Rightarrow> nat \<Rightarrow> nat \<Rightarrow> nat \<Rightarrow> byte
    \<Rightarrow> 'w vcc \<Rightarrow> byte list \<times> 'w vcc" where
  "shift_loop link ptr ird exit when data 0 bitno k bdata s = ([], s)"
| "shift_loop link ptr ird exit when data (Suc n) bitno k bdata s =
     (let ival = bdata AND 0x01;
          bdata = drop_bit 1 bdata;
          bitno = bitno + 1;
          (bitno, k, bdata) = (if bitno = 8 then (0, k + 1, data ! (k + 1)) else (bitno, k, bdata));
          s = (if ird then vme_buffered link 0 ptr 0 s else s);
          d = pvme s OR push_bit (TDI_pin s) (ucast ival);
          d = (if exit \<and> n = 0 then d OR push_bit (TMS_pin s) 1 else d);
          (rcv, s) = tck_cycle link (if n = 0 then when else 1) ptr d s
      in if n = 0 then (rcv, s) else shift_loop link ptr ird exit when data n bitno k bdata s)"

text \<open>The words read, collected in \<^verbatim>\<open>mytmp\<close> low byte first, hold TDO in one bit of their high byte.\<close>

fun combine_loop :: "nat \<Rightarrow> byte list \<Rightarrow> nat \<Rightarrow> nat \<Rightarrow> nat \<Rightarrow> nat \<Rightarrow> byte \<Rightarrow> nat \<Rightarrow> byte list \<Rightarrow> byte list" where
  "combine_loop tdo mytmp cnt i 0 bitno bdata j rcv = rcv"
| "combine_loop tdo mytmp cnt i (Suc n) bitno bdata j rcv =
     (let bdata = (if i < cnt then bdata OR push_bit (7 - tdo) (mytmp ! (2 * i + 1) AND push_bit tdo 1) else bdata)
      in if bitno = 7 then combine_loop tdo mytmp cnt (i + 1) n 0 0 (j + 1) (rcv[j := bdata])
         else combine_loop tdo mytmp cnt (i + 1) n (bitno + 1) (drop_bit 1 bdata) j rcv)"

definition MAXLINE :: nat where "MAXLINE = 70000"

definition read_bits :: "nat \<Rightarrow> byte list \<Rightarrow> nat \<Rightarrow> byte list \<Rightarrow> byte list" where
  "read_bits tdo got cnt rcv =
     combine_loop tdo (got @ drop (length got) (replicate MAXLINE 0)) cnt 0 (8 * ((cnt + 7) div 8)) 0 0 0 rcv"

definition scan_jtag :: "'w link \<Rightarrow> int \<Rightarrow> byte list \<Rightarrow> int \<Rightarrow> byte list \<Rightarrow> bool \<Rightarrow> 'w vcc \<Rightarrow> byte list \<times> 'w vcc" where
  "scan_jtag link reg snd_data cnt rcv ird s =
     (if cnt < 0 \<or> reg < 0 \<or> 1 < reg then (rcv, s)
      else let ptr = add_ucla s;
               (_, s) = tms_cycles link 1 ptr (map (\<lambda>i. i < 2) [nat reg..<4]) s;
               (_, s) = shift_loop link ptr ird True 1 snd_data (nat cnt) 0 0 (snd_data ! 0) s;
               (got, s) = tms_cycles link 3 ptr [True, False] s
           in (if ird then read_bits (TDO_pin s) got (nat cnt) rcv else rcv, s))"

definition shift_bits :: "'w link \<Rightarrow> int \<Rightarrow> byte list \<Rightarrow> int \<Rightarrow> byte list \<Rightarrow> bool \<Rightarrow> 'w vcc \<Rightarrow> byte list \<times> 'w vcc" where
  "shift_bits link reg snd_data cnt rcv ird s =
     (if cnt < 0 \<or> reg < 0 \<or> 1 < reg then (rcv, s)
      else let (got, s) = shift_loop link (add_ucla s) ird (reg = 1) 3 snd_data (nat cnt) 0 0 (snd_data ! 0) s
           in (if ird then read_bits (TDO_pin s) got (nat cnt) rcv else rcv, s))"

definition shift_state :: "'w link \<Rightarrow> int \<Rightarrow> int \<Rightarrow> 'w vcc \<Rightarrow> 'w vcc" where
  "shift_state link cnt tms_mask s =
     (if cnt < 0 \<or> 32 < cnt then s
      else snd (tms_cycles link 3 (add_ucla s) (map (\<lambda>i. drop_bit i tms_mask AND 0x01 \<noteq> 0) [0..<nat cnt]) s))"

section \<open>Driving the state machine\<close>

definition RestoreIdle_jtag :: "'w link \<Rightarrow> 'w vcc \<Rightarrow> 'w vcc" where
  "RestoreIdle_jtag link s =
     snd (tms_cycles link 3 (add_ucla s) [True, True, True, True, True, False] s)"

definition RestoreReset_jtag :: "'w link \<Rightarrow> 'w vcc \<Rightarrow> 'w vcc" where
  "RestoreReset_jtag link s = snd (tms_cycles link 3 (add_ucla s) [True, True, True, True, True] s)"

definition CycleIdle_jtag :: "'w link \<Rightarrow> int \<Rightarrow> 'w vcc \<Rightarrow> 'w vcc" where
  "CycleIdle_jtag link cycles s = snd (tms_cycles link 3 (add_ucla s) (replicate (nat cycles) False) s)"

section \<open>The board and its JTAG lines\<close>

text \<open>\<^verbatim>\<open>initDevice\<close> selects a chain; the bits of \<^verbatim>\<open>pvme\<close> are written with every clock.\<close>

definition initDevice :: "int \<Rightarrow> 'w vcc \<Rightarrow> 'w vcc" where
  "initDevice idev s =
     (case map_of [(1, 0x0), (2, 0x0098), (3, 0x08b8), (4, 0x00d8), (5, 0x00f8), (6, 0x0080), (7, 0x0088),
                   (8, 0x0090), (9, 0x0098), (10, 0x00e8)] idev of
        None \<Rightarrow> s | Some v \<Rightarrow> s\<lparr>pvme := v\<rparr>)"

datatype board_type = TMB_ENUM | MPC_ENUM | CCB_ENUM | OTHER_BOARD int

definition SetupJtag :: "board_type \<Rightarrow> int \<Rightarrow> 'w vcc \<Rightarrow> 'w vcc" where
  "SetupJtag boardType JtagSource s =
     (if boardType = TMB_ENUM then
        s\<lparr>JtagBaseAddress := (if JtagSource \<noteq> 0 then 0x10 else 0x70000),
          TCK_pin := 2, TMS_pin := 1, TDI_pin := 0, TDO_pin := 7\<rparr>
      else if boardType = MPC_ENUM \<or> boardType = CCB_ENUM then
        s\<lparr>JtagBaseAddress := 0x0, TCK_pin := 7, TMS_pin := 6, TDI_pin := 5, TDO_pin := 0\<rparr>
      else s)"

end
