(* ===== verification/Tap.thy ===== *)
theory Tap
  imports Vme_Jtag Jtag
begin

text \<open>
  What the clocks of \<^verbatim>\<open>Vme_Jtag\<close> do in the chips: the state machine of IEEE 1149.1 with the register
  between TDI and TDO, and the predicate \<open>jtag_register\<close>, which says that the register of a board drives
  such a machine: a rising edge of TCK is a clock with the TMS and TDI written along, and TDO is read
  from the same register.
\<close>

unbundle bit_operations_syntax

section \<open>The state machine\<close>

datatype tap_state = Test_Logic_Reset | Run_Test_Idle
  | Select_DR | Capture_DR | Shift_DR | Exit1_DR | Pause_DR | Exit2_DR | Update_DR
  | Select_IR | Capture_IR | Shift_IR | Exit1_IR | Pause_IR | Exit2_IR | Update_IR

fun tap_next :: "bool \<Rightarrow> tap_state \<Rightarrow> tap_state" where
  "tap_next tms Test_Logic_Reset = (if tms then Test_Logic_Reset else Run_Test_Idle)"
| "tap_next tms Run_Test_Idle = (if tms then Select_DR else Run_Test_Idle)"
| "tap_next tms Select_DR = (if tms then Select_IR else Capture_DR)"
| "tap_next tms Capture_DR = (if tms then Exit1_DR else Shift_DR)"
| "tap_next tms Shift_DR = (if tms then Exit1_DR else Shift_DR)"
| "tap_next tms Exit1_DR = (if tms then Update_DR else Pause_DR)"
| "tap_next tms Pause_DR = (if tms then Exit2_DR else Pause_DR)"
| "tap_next tms Exit2_DR = (if tms then Update_DR else Shift_DR)"
| "tap_next tms Update_DR = (if tms then Select_DR else Run_Test_Idle)"
| "tap_next tms Select_IR = (if tms then Test_Logic_Reset else Capture_IR)"
| "tap_next tms Capture_IR = (if tms then Exit1_IR else Shift_IR)"
| "tap_next tms Shift_IR = (if tms then Exit1_IR else Shift_IR)"
| "tap_next tms Exit1_IR = (if tms then Update_IR else Pause_IR)"
| "tap_next tms Pause_IR = (if tms then Exit2_IR else Pause_IR)"
| "tap_next tms Exit2_IR = (if tms then Update_IR else Shift_IR)"
| "tap_next tms Update_IR = (if tms then Select_DR else Run_Test_Idle)"

text \<open>The chips of a chain: what they put into the register between TDI and TDO in Capture-DR and
  Capture-IR (bit nearest to TDO first), and what they take from it when it is updated.\<close>

record 'r chips =
  capture_dr :: "'r \<Rightarrow> int list"
  capture_ir :: "'r \<Rightarrow> int list"
  update_dr :: "int list \<Rightarrow> 'r \<Rightarrow> 'r"
  update_ir :: "int list \<Rightarrow> 'r \<Rightarrow> 'r"

record 'r tap =
  tap_state :: tap_state
  tap_shift :: "int list"
  tap_regs :: 'r

definition tap_clock :: "'r chips \<Rightarrow> bool \<Rightarrow> int \<Rightarrow> 'r tap \<Rightarrow> 'r tap" where
  "tap_clock chips tms tdi t =
     (let t = (case tap_state t of
                 Capture_DR \<Rightarrow> t\<lparr>tap_shift := capture_dr chips (tap_regs t)\<rparr>
               | Capture_IR \<Rightarrow> t\<lparr>tap_shift := capture_ir chips (tap_regs t)\<rparr>
               | Shift_DR \<Rightarrow> t\<lparr>tap_shift := tl (tap_shift t) @ [tdi]\<rparr>
               | Shift_IR \<Rightarrow> t\<lparr>tap_shift := tl (tap_shift t) @ [tdi]\<rparr>
               | _ \<Rightarrow> t);
          t = t\<lparr>tap_state := tap_next tms (tap_state t)\<rparr>
      in case tap_state t of
           Update_DR \<Rightarrow> t\<lparr>tap_regs := update_dr chips (tap_shift t) (tap_regs t)\<rparr>
         | Update_IR \<Rightarrow> t\<lparr>tap_regs := update_ir chips (tap_shift t) (tap_regs t)\<rparr>
         | _ \<Rightarrow> t)"

definition tap_clocks :: "'r chips \<Rightarrow> bool list \<Rightarrow> 'r tap \<Rightarrow> 'r tap" where
  "tap_clocks chips tmss t = fold (\<lambda>tms. tap_clock chips tms 0) tmss t"

definition shifting :: "'r tap \<Rightarrow> bool" where
  "shifting t \<longleftrightarrow> tap_state t = Shift_DR \<or> tap_state t = Shift_IR"

lemma tap_state_clock [simp]: "tap_state (tap_clock chips tms tdi t) = tap_next tms (tap_state t)"
  by (cases "tap_state t") (simp_all add: tap_clock_def Let_def split: if_splits)

lemma tap_state_clocks: "tap_state (tap_clocks chips tmss t) = fold tap_next tmss (tap_state t)"
  by (induction tmss arbitrary: t) (simp_all add: tap_clocks_def)

lemma five_ones: "fold tap_next [True, True, True, True, True] st = Test_Logic_Reset"
  by (cases st) simp_all

text \<open>TDI matters only while shifting.\<close>

lemma tap_clock_tdi: "\<not> shifting t \<Longrightarrow> tap_clock chips tms tdi t = tap_clock chips tms 0 t"
  by (cases "tap_state t") (simp_all add: tap_clock_def shifting_def)

section \<open>The register of a board\<close>

record ('r, 'w) jtag_board =
  jb_chips :: "'r chips"
  jb_tck :: "'w \<Rightarrow> bool"
  jb_tap :: "'w \<Rightarrow> 'r tap"

definition jtag_register :: "'w bus \<Rightarrow> 24 word \<Rightarrow> nat \<times> nat \<times> nat \<times> nat \<Rightarrow> ('r, 'w) jtag_board \<Rightarrow> bool" where
  "jtag_register bus a pins b \<longleftrightarrow> (case pins of (tck, tms, tdi, tdo) \<Rightarrow>
     (\<forall>d w. jb_tck b (bus_write bus a d w) = bit d tck \<and>
        jb_tap b (bus_write bus a d w) =
          (if \<not> jb_tck b w \<and> bit d tck then tap_clock (jb_chips b) (bit d tms) (of_bool (bit d tdi)) (jb_tap b w)
           else jb_tap b w)) \<and>
     (\<forall>w. jb_tck b (snd (bus_read bus a w)) = jb_tck b w \<and> jb_tap b (snd (bus_read bus a w)) = jb_tap b w \<and>
        (shifting (jb_tap b w) \<longrightarrow>
           (bit (fst (bus_read bus a w)) (8 + tdo) \<longleftrightarrow> hd (tap_shift (jb_tap b w)) = 1))))"

text \<open>What a controller needs to drive the register: the crate serves its packets, the register is at
  its JTAG address, which the software may read and write, and the lines are four different bits that
  \<^verbatim>\<open>pvme\<close> leaves off.\<close>

definition drives :: "'w link \<Rightarrow> 'w bus \<Rightarrow> ('r, 'w) jtag_board \<Rightarrow> 'w vcc \<Rightarrow> bool" where
  "drives link bus b s \<longleftrightarrow>
     vcc_serves link bus (hw_dest_addr s) \<and>
     jtag_register bus (ucast (add_ucla s)) (TCK_pin s, TMS_pin s, TDI_pin s, TDO_pin s) b \<and>
     0x80000 \<le> add_ucla s \<and> add_ucla s < 0xC00000 \<and>
     TCK_pin s < 16 \<and> TMS_pin s < 16 \<and> TDI_pin s < 16 \<and> TDO_pin s < 8 \<and>
     TCK_pin s \<noteq> TMS_pin s \<and> TCK_pin s \<noteq> TDI_pin s \<and> TMS_pin s \<noteq> TDI_pin s \<and>
     \<not> bit (pvme s) (TCK_pin s) \<and> \<not> bit (pvme s) (TMS_pin s) \<and> \<not> bit (pvme s) (TDI_pin s)"

lemma drives_config: "config s = config t \<Longrightarrow> drives link bus b s = drives link bus b t"
  by (simp add: drives_def config_def)

text \<open>The machine as the controller will have driven it: the packet waiting in the buffer counts.\<close>

definition tap_view :: "'w bus \<Rightarrow> ('r, 'w) jtag_board \<Rightarrow> 'w vcc \<Rightarrow> 16 word list \<Rightarrow> 'r tap \<Rightarrow> bool" where
  "tap_view bus b s rs t \<longleftrightarrow> (\<exists>w. represents bus s rs w \<and> jb_tap b w = t)"

lemma buffered_write:
  assumes "drives link bus b s" and "represents bus s rs w"
  shows "represents bus (vme_buffered link 1 (add_ucla s) d s) rs (bus_write bus (ucast (add_ucla s)) d w) \<and>
    config (vme_buffered link 1 (add_ucla s) d s) = config s"
proof -
  have l: "legal 1 (add_ucla s) [d]" using assms(1) by (simp add: legal_def drives_def)
  have "vcc_serves link bus (hw_dest_addr s)" using assms(1) by (simp add: drives_def)
  from vme_controller_step[OF this assms(2) l] show ?thesis
    by (simp add: op_of_def call_result_def sends_def vme_buffered_def)
qed

lemma buffered_read:
  assumes "drives link bus b s" and "tap_view bus b s rs t"
  shows "\<exists>r. tap_view bus b (vme_buffered link 0 (add_ucla s) d s) (rs @ [r]) t \<and>
    (shifting t \<longrightarrow> (bit r (8 + TDO_pin s) \<longleftrightarrow> hd (tap_shift t) = 1)) \<and>
    config (vme_buffered link 0 (add_ucla s) d s) = config s"
proof -
  obtain w where w: "represents bus s rs w" "jb_tap b w = t" using assms(2) by (auto simp: tap_view_def)
  obtain r w' where r: "bus_read bus (ucast (add_ucla s)) w = (r, w')" by fastforce
  have l: "legal 0 (add_ucla s) [d]" using assms(1) by (simp add: legal_def drives_def)
  have op: "bus_op bus (op_of 0 (add_ucla s) [d]) (rs, w) = (rs @ [r], w')" by (simp add: op_of_def r)
  have "vcc_serves link bus (hw_dest_addr s)" using assms(1) by (simp add: drives_def)
  from vme_controller_step[OF this w(1) l op]
  have "represents bus (vme_buffered link 0 (add_ucla s) d s) (rs @ [r]) w'"
    "config (vme_buffered link 0 (add_ucla s) d s) = config s"
    by (simp_all add: call_result_def sends_def vme_buffered_def)
  moreover have "jb_tap b (snd (bus_read bus (ucast (add_ucla s)) w)) = t"
    "shifting t \<longrightarrow> (bit (fst (bus_read bus (ucast (add_ucla s)) w)) (8 + TDO_pin s) \<longleftrightarrow> hd (tap_shift t) = 1)"
    using assms(1) w(2) unfolding drives_def jtag_register_def by auto
  ultimately show ?thesis unfolding tap_view_def using r by auto
qed

lemma three_writes:
  assumes "jtag_register bus a (tck, tms, tdi, tdo) b" and "\<not> bit d tck" and "tck < 16" and "tms \<noteq> tck" and "tdi \<noteq> tck"
  shows "jb_tap b (bus_write bus a d (bus_write bus a (d OR push_bit tck 1) (bus_write bus a d w))) =
    tap_clock (jb_chips b) (bit d tms) (of_bool (bit d tdi)) (jb_tap b w)"
proof -
  have "bit (d OR push_bit tck 1) tck" "bit (d OR push_bit tck 1) tms = bit d tms"
    "bit (d OR push_bit tck 1) tdi = bit d tdi"
    using assms(3-5) by (auto simp: bit_simps)
  then show ?thesis using assms(1,2) by (simp add: jtag_register_def)
qed

text \<open>The result of a clock: the machine makes one step; a clock that sends gives all the words back.\<close>

definition clocked :: "'w bus \<Rightarrow> ('r, 'w) jtag_board \<Rightarrow> int \<Rightarrow> 'w vcc \<Rightarrow> 16 word list \<Rightarrow> 'r tap \<Rightarrow> byte list \<times> 'w vcc \<Rightarrow> bool" where
  "clocked bus b when s rs t r \<longleftrightarrow> config (snd r) = config s \<and>
     (if when = 3 then fst r = word_bytes rs \<and> idle (snd r) \<and> jb_tap b (crate (snd r)) = t
      else tap_view bus b (snd r) rs t)"

lemma clocked_config: "config s = config s' \<Longrightarrow> clocked bus b when s = clocked bus b when s'"
  by (intro ext) (simp add: clocked_def)

lemma tck_cycle_clocked:
  assumes dr: "drives link bus b s" and view: "tap_view bus b s rs t" and "\<not> bit d (TCK_pin s)" and "when = 1 \<or> when = 3"
  shows "clocked bus b when s rs (tap_clock (jb_chips b) (bit d (TMS_pin s)) (of_bool (bit d (TDI_pin s))) t)
    (tck_cycle link when (add_ucla s) d s)"
proof -
  obtain w where w: "represents bus s rs w" "jb_tap b w = t" using view by (auto simp: tap_view_def)
  define a where "a = add_ucla s"
  define s1 where "s1 = vme_buffered link 1 a d s"
  define s2 where "s2 = vme_buffered link 1 a (d OR push_bit (TCK_pin s) 1) s1"
  define w1 where "w1 = bus_write bus (ucast a) d w"
  define w2 where "w2 = bus_write bus (ucast a) (d OR push_bit (TCK_pin s) 1) w1"
  have 1: "represents bus s1 rs w1" "config s1 = config s"
    using buffered_write[OF dr w(1), of d] by (simp_all add: s1_def w1_def a_def)
  have a1: "add_ucla s1 = a" using 1(2) by (simp add: config_def a_def)
  have dr1: "drives link bus b s1" using dr by (simp add: drives_config[OF 1(2)])
  have 2: "represents bus s2 rs w2" "config s2 = config s"
    using buffered_write[OF dr1 1(1), of "d OR push_bit (TCK_pin s) 1"] 1(2) by (simp_all add: s2_def w2_def a1)
  have a2: "add_ucla s2 = a" using 2(2) by (simp add: config_def a_def)
  have dr2: "drives link bus b s2" using dr by (simp add: drives_config[OF 2(2)])
  then have l: "legal when a [d]" using assms(4) a2 by (auto simp: legal_def drives_def)
  have serves: "vcc_serves link bus (hw_dest_addr s2)" using dr2 by (simp add: drives_def)
  have op: "bus_op bus (op_of when a [d]) (rs, w2) = (rs, bus_write bus (ucast a) d w2)"
    using assms(4) by (auto simp: op_of_def)
  have tap: "jb_tap b (bus_write bus (ucast a) d w2) =
      tap_clock (jb_chips b) (bit d (TMS_pin s)) (of_bool (bit d (TDI_pin s))) t"
    unfolding w2_def w1_def w(2)[symmetric]
    by (rule three_writes) (use dr assms(3) in \<open>auto simp: drives_def a_def\<close>)
  obtain ret rcv s' where r: "vme_controller link when a [d] s2 = (ret, rcv, s')" by (metis prod.collapse)
  then have cyc: "tck_cycle link when a d s = (rcv, s')"
    by (simp add: tck_cycle_def Let_def s1_def s2_def)
  show ?thesis
    using vme_controller_step[OF serves 2(1) l op] r 2(2) tap assms(4)
    by (auto simp: clocked_def cyc[unfolded a_def] call_result_def sends_def tap_view_def a_def)
qed

section \<open>Sequences of clocks\<close>

lemma TMS_word_bits:
  assumes "drives link bus b s"
  shows "\<not> bit (TMS_word s tms) (TCK_pin s)" "bit (TMS_word s tms) (TMS_pin s) = tms"
    "\<not> bit (TMS_word s tms) (TDI_pin s)"
  using assms by (auto simp: drives_def TMS_word_def bit_simps)

lemma tms_cycles_clocked:
  assumes "drives link bus b s" and "tap_view bus b s rs t" and "when = 1 \<or> when = 3"
    and "when = 3 \<Longrightarrow> tmss \<noteq> []"
  shows "clocked bus b when s rs (tap_clocks (jb_chips b) tmss t) (tms_cycles link when (add_ucla s) tmss s)"
  using assms
proof (induction tmss arbitrary: s t rule: induct_list012)
  case 1
  then show ?case by (auto simp: clocked_def tap_clocks_def)
next
  case (2 tms)
  then show ?case using tck_cycle_clocked[OF 2(1,2) TMS_word_bits(1)[OF 2(1)] 2(3)] TMS_word_bits[OF 2(1)]
    by (simp add: tap_clocks_def)
next
  case (3 tms tms' rest)
  let ?s = "snd (tck_cycle link 1 (add_ucla s) (TMS_word s tms) s)"
  have "clocked bus b 1 s rs (tap_clock (jb_chips b) tms 0 t) (tck_cycle link 1 (add_ucla s) (TMS_word s tms) s)"
    using tck_cycle_clocked[OF 3(3,4) TMS_word_bits(1)[OF 3(3)], of 1] TMS_word_bits[OF 3(3)] by simp
  then have s: "tap_view bus b ?s rs (tap_clock (jb_chips b) tms 0 t)" "config ?s = config s"
    by (simp_all add: clocked_def)
  have "add_ucla ?s = add_ucla s" using s(2) by (simp add: config_def)
  moreover have "drives link bus b ?s" using 3(3) by (simp add: drives_config[OF s(2)])
  ultimately show ?case using 3(2)[OF _ s(1) 3(5)] s(2)
    by (cases "when = 3") (simp_all add: clocked_def tap_clocks_def)
qed

section \<open>Shifting\<close>

lemma tap_clock_shift:
  "shifting t \<Longrightarrow> tap_clock chips tms tdi t =
     t\<lparr>tap_shift := tl (tap_shift t) @ [tdi], tap_state := tap_next tms (tap_state t)\<rparr>"
  by (cases t) (auto simp: shifting_def tap_clock_def Let_def)

lemma shift_state_next: "shifting t \<Longrightarrow> tap_next False (tap_state t) = tap_state t"
  by (auto simp: shifting_def)

definition data_bits :: "byte list \<Rightarrow> nat \<Rightarrow> nat \<Rightarrow> int list" where
  "data_bits data a n = map (\<lambda>i. of_bool (bit (data ! (i div 8)) (i mod 8))) [a..<a + n]"

lemma data_bits_simps [simp]:
  "data_bits data a 0 = []"
  "data_bits data a (Suc n) = of_bool (bit (data ! (a div 8)) (a mod 8)) # data_bits data (a + 1) n"
  by (simp_all add: data_bits_def upt_conv_Cons del: upt_Suc)

lemma shift_through_Cons:
  "shift_through (x # bs) r = (hd r # fst (shift_through bs (tl r @ [x])), snd (shift_through bs (tl r @ [x])))"
  by (simp add: split_beta)

lemma ival_bit: "bit (pvme s OR push_bit tdi (ucast (bd AND 0x01 :: byte))) i \<longleftrightarrow>
   bit (pvme s) i \<or> (i = tdi \<and> i < 16 \<and> bit bd 0)"
  by (auto simp: bit_simps)

text \<open>One round of the loop: the word read, if any, and the clock.\<close>

lemma shift_round:
  fixes ird tms :: bool and bd :: byte
  assumes dr: "drives link bus b s" and view: "tap_view bus b s rs t" and sh: "shifting t"
    and wh: "when = 1 \<or> when = 3"
  defines "s1 \<equiv> (if ird then vme_buffered link 0 (add_ucla s) 0 s else s)"
  defines "d0 \<equiv> pvme s1 OR push_bit (TDI_pin s1) (ucast (bd AND 0x01))"
  defines "d \<equiv> (if tms then d0 OR push_bit (TMS_pin s1) 1 else d0)"
  shows "\<exists>ws. clocked bus b when s (rs @ ws)
      (t\<lparr>tap_shift := tl (tap_shift t) @ [of_bool (bit bd 0)], tap_state := tap_next tms (tap_state t)\<rparr>)
      (tck_cycle link when (add_ucla s) d s1) \<and>
    (if ird then \<exists>r. ws = [r] \<and> (bit r (8 + TDO_pin s) \<longleftrightarrow> hd (tap_shift t) = 1) else ws = [])"
proof -
  obtain ws where s1: "tap_view bus b s1 (rs @ ws) t" "config s1 = config s"
    and ws: "if ird then \<exists>r. ws = [r] \<and> (bit r (8 + TDO_pin s) \<longleftrightarrow> hd (tap_shift t) = 1) else ws = []"
  proof (cases ird)
    case True
    then show thesis using buffered_read[OF dr view, of 0] sh that by (auto simp: s1_def)
  next
    case False
    then show thesis using view that[of "[]"] by (simp add: s1_def)
  qed
  have dr1: "drives link bus b s1" using dr by (simp add: drives_config[OF s1(2)])
  have a: "add_ucla s1 = add_ucla s" using s1(2) by (simp add: config_def)
  have "bit d i \<longleftrightarrow> bit (pvme s1) i \<or> (i = TDI_pin s1 \<and> i < 16 \<and> bit bd 0) \<or> (tms \<and> i = TMS_pin s1 \<and> i < 16)" for i
    by (auto simp: d_def d0_def ival_bit bit_simps)
  then have bits: "\<not> bit d (TCK_pin s1)" "bit d (TMS_pin s1) = tms" "bit d (TDI_pin s1) = bit bd 0"
    using dr1 by (auto simp: drives_def)
  show ?thesis
    using tck_cycle_clocked[OF dr1 s1(1) bits(1) wh] s1(2) ws
    unfolding bits(2,3) tap_clock_shift[OF sh] a clocked_config[OF s1(2)] by blast
qed

lemma shift_loop_clocked:
  assumes "drives link bus b s" and "tap_view bus b s rs t" and "shifting t"
    and "when = 1 \<or> when = 3" and "0 < n" and "bd = drop_bit bitno (data ! k)" and "bitno < 8"
  shows "\<exists>ws. clocked bus b when s (rs @ ws)
      (t\<lparr>tap_shift := snd (shift_through (data_bits data (8 * k + bitno) n) (tap_shift t)),
         tap_state := tap_next exit (tap_state t)\<rparr>)
      (shift_loop link (add_ucla s) ird exit when data n bitno k bd s) \<and>
    (if ird then map (\<lambda>r. bit r (8 + TDO_pin s)) ws =
              map (\<lambda>x. x = 1) (fst (shift_through (data_bits data (8 * k + bitno) n) (tap_shift t)))
     else ws = [])"
  using assms
proof (induction n arbitrary: s rs t bitno k bd)
  case 0
  then show ?case by simp
next
  case (Suc n)
  define s1 where "s1 = (if ird then vme_buffered link 0 (add_ucla s) 0 s else s)"
  define d0 where "d0 = pvme s1 OR push_bit (TDI_pin s1) (ucast (bd AND 0x01))"
  define tms where "tms \<longleftrightarrow> exit \<and> n = 0"
  define d where "d = (if tms then d0 OR push_bit (TMS_pin s1) 1 else d0)"
  define wh where "wh = (if n = 0 then when else 1)"
  define r where "r = tck_cycle link wh (add_ucla s) d s1"
  define x where "x = (of_bool (bit (data ! k) bitno) :: int)"
  define t1 where "t1 = t\<lparr>tap_shift := tl (tap_shift t) @ [x], tap_state := tap_next tms (tap_state t)\<rparr>"
  have wh: "wh = 1 \<or> wh = 3" using Suc.prems(4) by (simp add: wh_def)
  have bd0: "bit bd 0 = bit (data ! k) bitno" using Suc.prems(6) by (simp add: bit_drop_bit_eq)
  obtain ws where ws: "clocked bus b wh s (rs @ ws) t1 r"
    "if ird then \<exists>q. ws = [q] \<and> (bit q (8 + TDO_pin s) \<longleftrightarrow> hd (tap_shift t) = 1) else ws = []"
    using shift_round[OF Suc.prems(1-3) wh, where ird = ird and bd = bd and tms = tms,
        folded s1_def d0_def, folded d_def, folded r_def]
    unfolding bd0 x_def[symmetric] t1_def[symmetric] by blast
  define bitno' k' where "bitno' = (if bitno = 7 then 0 else bitno + 1)" and "k' = (if bitno = 7 then k + 1 else k)"
  define bd' where "bd' = (if bitno = 7 then data ! (k + 1) else drop_bit 1 bd)"
  have loop: "shift_loop link (add_ucla s) ird exit when data (Suc n) bitno k bd s =
    (if n = 0 then r else shift_loop link (add_ucla s) ird exit when data n bitno' k' bd' (snd r))"
    by (auto simp: Let_def split_beta bitno'_def k'_def bd'_def r_def wh_def d_def tms_def d0_def s1_def)
  have pos: "(8 * k + bitno) div 8 = k" "(8 * k + bitno) mod 8 = bitno" using Suc.prems(7) by simp_all
  have bits: "data_bits data (8 * k + bitno) (Suc n) = x # data_bits data (8 * k' + bitno') n"
    using Suc.prems(7) by (auto simp: pos x_def k'_def bitno'_def)
  show ?case
  proof (cases "n = 0")
    case True
    then show ?thesis using ws unfolding loop bits
      by (intro exI[of _ ws]) (auto simp: shift_through_Cons t1_def tms_def wh_def clocked_def)
  next
    case False
    have bd': "bd' = drop_bit bitno' (data ! k')"
      using Suc.prems(6) by (simp add: bd'_def bitno'_def k'_def)
    have s2: "tap_view bus b (snd r) (rs @ ws) t1" "config (snd r) = config s"
      using ws(1) False by (simp_all add: clocked_def wh_def)
    have dr2: "drives link bus b (snd r)" using Suc.prems(1) by (simp add: drives_config[OF s2(2)])
    have st: "tap_state t1 = tap_state t" "shifting t1"
      using False Suc.prems(3) shift_state_next by (auto simp: t1_def tms_def shifting_def)
    have same: "add_ucla (snd r) = add_ucla s" "TDO_pin (snd r) = TDO_pin s" using s2(2) by (simp_all add: config_def)
    have bn: "bitno' < 8" using Suc.prems(7) by (simp add: bitno'_def)
    obtain vs where vs: "clocked bus b when (snd r) ((rs @ ws) @ vs)
        (t1\<lparr>tap_shift := snd (shift_through (data_bits data (8 * k' + bitno') n) (tap_shift t1)),
            tap_state := tap_next exit (tap_state t1)\<rparr>)
        (shift_loop link (add_ucla s) ird exit when data n bitno' k' bd' (snd r))"
      "if ird then map (\<lambda>r. bit r (8 + TDO_pin s)) vs =
              map (\<lambda>x. x = 1) (fst (shift_through (data_bits data (8 * k' + bitno') n) (tap_shift t1)))
       else vs = []"
      using Suc.IH[OF dr2 s2(1) st(2) Suc.prems(4) _ bd' bn] False unfolding same by blast
    have t1: "tap_shift t1 = tl (tap_shift t) @ [x]"
      "t1\<lparr>tap_shift := v, tap_state := q\<rparr> = t\<lparr>tap_shift := v, tap_state := q\<rparr>" for v q
      by (simp_all add: t1_def)
    have "clocked bus b when s (rs @ (ws @ vs))
        (t\<lparr>tap_shift := snd (shift_through (x # data_bits data (8 * k' + bitno') n) (tap_shift t)),
            tap_state := tap_next exit (tap_state t)\<rparr>)
        (shift_loop link (add_ucla s) ird exit when data n bitno' k' bd' (snd r))"
      using vs(1) unfolding clocked_config[OF s2(2)] st(1) t1 shift_through_Cons snd_conv append_assoc .
    moreover have "if ird then map (\<lambda>r. bit r (8 + TDO_pin s)) (ws @ vs) =
              map (\<lambda>x. x = 1) (fst (shift_through (x # data_bits data (8 * k' + bitno') n) (tap_shift t)))
       else ws @ vs = []"
      using vs(2) ws(2) unfolding t1 shift_through_Cons fst_conv by auto
    ultimately show ?thesis unfolding loop bits using False by (intro exI[of _ "ws @ vs"]) simp
  qed
qed

section \<open>The bits read\<close>

definition tdo_bit :: "nat \<Rightarrow> byte list \<Rightarrow> nat \<Rightarrow> nat \<Rightarrow> bool" where
  "tdo_bit tdo mytmp cnt m \<longleftrightarrow> m < cnt \<and> bit (mytmp ! (2 * m + 1)) tdo"

lemma insert_tdo:
  "tdo < 8 \<Longrightarrow> bit (bdata OR push_bit (7 - tdo) (w AND push_bit tdo 1) :: byte) p \<longleftrightarrow> bit bdata p \<or> (p = 7 \<and> bit w tdo)"
  by (auto simp: bit_simps)

lemma combine_loop_bits:
  assumes "tdo < 8" and "i = 8 * j + bitno" and "bitno < 8" and "(i + n) mod 8 = 0" and "m < length rcv"
    and "\<And>p. bit bdata p \<longleftrightarrow> p < 7 \<and> 7 \<le> p + bitno \<and> tdo_bit tdo mytmp cnt (8 * j + (p + bitno - 7))"
  shows "bit (combine_loop tdo mytmp cnt i n bitno bdata j rcv ! m) p \<longleftrightarrow>
    (if j \<le> m \<and> m < (i + n) div 8 then p < 8 \<and> tdo_bit tdo mytmp cnt (8 * m + p) else bit (rcv ! m) p)"
  using assms
proof (induction n arbitrary: i bitno bdata j rcv)
  case 0
  then have "i div 8 = j" by simp
  then show ?case by auto
next
  case (Suc n)
  define bd where "bd = (if i < cnt then bdata OR push_bit (7 - tdo) (mytmp ! (2 * i + 1) AND push_bit tdo 1) else bdata)"
  have bd: "bit bd q \<longleftrightarrow> bit bdata q \<or> (q = 7 \<and> tdo_bit tdo mytmp cnt i)" for q
    using insert_tdo[OF Suc.prems(1), of bdata "mytmp ! (2 * i + 1)" q]
    unfolding bd_def tdo_bit_def by (cases "i < cnt") (simp_all only: if_True if_False simp_thms)
  show ?case
  proof (cases "bitno = 7")
    case True
    have eq: "combine_loop tdo mytmp cnt i (Suc n) bitno bdata j rcv =
        combine_loop tdo mytmp cnt (i + 1) n 0 0 (j + 1) (rcv[j := bd])"
      using True by (simp add: bd_def Let_def)
    have "bit (combine_loop tdo mytmp cnt (i + 1) n 0 0 (j + 1) (rcv[j := bd]) ! m) p \<longleftrightarrow>
       (if j + 1 \<le> m \<and> m < (i + 1 + n) div 8 then p < 8 \<and> tdo_bit tdo mytmp cnt (8 * m + p)
        else bit (rcv[j := bd] ! m) p)"
      by (rule Suc.IH[OF Suc.prems(1)]) (use Suc.prems(2-5) True in auto)
    moreover have "bit bd p \<longleftrightarrow> p < 8 \<and> tdo_bit tdo mytmp cnt (8 * j + p)"
      using True Suc.prems(2) by (cases "p = 7") (auto simp: bd Suc.prems(6))
    moreover have "j < (i + Suc n) div 8" using Suc.prems(2) True by auto
    ultimately show ?thesis unfolding eq using Suc.prems(5) by (cases "m = j") auto
  next
    case False
    have eq: "combine_loop tdo mytmp cnt i (Suc n) bitno bdata j rcv =
        combine_loop tdo mytmp cnt (i + 1) n (bitno + 1) (drop_bit 1 bd) j rcv"
      using False by (simp add: bd_def Let_def)
    have next_bits: "bit (drop_bit 1 bd) q \<longleftrightarrow> q < 7 \<and> 7 \<le> q + (bitno + 1) \<and> tdo_bit tdo mytmp cnt (8 * j + (q + (bitno + 1) - 7))" for q
    proof (cases "q = 6")
      case True
      then show ?thesis using Suc.prems(2) by (simp add: bit_drop_bit_eq bd Suc.prems(6))
    next
      case False
      then show ?thesis by (auto simp: bit_drop_bit_eq bd Suc.prems(6))
    qed
    have pos: "i + 1 = 8 * j + (bitno + 1)" "bitno + 1 < 8" "(i + 1 + n) mod 8 = 0"
      using Suc.prems(2,3,4) False by simp_all
    have "bit (combine_loop tdo mytmp cnt (i + 1) n (bitno + 1) (drop_bit 1 bd) j rcv ! m) p \<longleftrightarrow>
       (if j \<le> m \<and> m < (i + 1 + n) div 8 then p < 8 \<and> tdo_bit tdo mytmp cnt (8 * m + p) else bit (rcv ! m) p)"
      by (rule Suc.IH[OF Suc.prems(1) pos Suc.prems(5) next_bits])
    then show ?thesis unfolding eq by simp
  qed
qed

lemma length_combine_loop [simp]: "length (combine_loop tdo mytmp cnt i n bitno bdata j rcv) = length rcv"
  by (induction n arbitrary: i bitno bdata j rcv) (simp_all add: Let_def)

lemma nth_word_bytes: "i < length ws \<Longrightarrow> word_bytes ws ! Suc (2 * i) = hi_byte (ws ! i)"
  unfolding word_bytes_def
proof (induction ws arbitrary: i)
  case Nil
  then show ?case by simp
next
  case (Cons w ws)
  then show ?case by (cases i) simp_all
qed

lemma read_bits_bit:
  assumes "tdo < 8" and "length ws = cnt" and "2 * cnt \<le> MAXLINE" and "m < length rcv"
  shows "bit (read_bits tdo (word_bytes ws) cnt rcv ! m) p \<longleftrightarrow>
    (if m < (cnt + 7) div 8 then p < 8 \<and> 8 * m + p < cnt \<and> bit (ws ! (8 * m + p)) (8 + tdo) else bit (rcv ! m) p)"
proof -
  let ?mytmp = "word_bytes ws @ drop (length (word_bytes ws)) (replicate MAXLINE 0)"
  have "tdo_bit tdo ?mytmp cnt k \<longleftrightarrow> k < cnt \<and> bit (ws ! k) (8 + tdo)" for k
    using assms(1,2) by (auto simp: tdo_bit_def nth_append nth_word_bytes hi_byte_eq bit_simps)
  then show ?thesis
    using combine_loop_bits[OF assms(1), of 0 0 0 "8 * ((cnt + 7) div 8)" m rcv 0 ?mytmp cnt p] assms(4)
    by (simp add: read_bits_def)
qed

lemma length_read_bits [simp]: "length (read_bits tdo got cnt rcv) = length rcv"
  by (simp add: read_bits_def)

section \<open>A scan\<close>

definition scan_capture :: "'r chips \<Rightarrow> int \<Rightarrow> 'r \<Rightarrow> int list" where
  "scan_capture chips reg = (if reg = 0 then capture_ir chips else capture_dr chips)"

definition scan_update :: "'r chips \<Rightarrow> int \<Rightarrow> int list \<Rightarrow> 'r \<Rightarrow> 'r" where
  "scan_update chips reg = (if reg = 0 then update_ir chips else update_dr chips)"

text \<open>The way from Run-Test/Idle to the shift states and back.\<close>

lemma to_shift:
  assumes "tap_state t = Run_Test_Idle" and "reg = 0 \<or> reg = 1"
  shows "tap_clocks chips (map (\<lambda>i. i < 2) [nat reg..<4]) t =
    t\<lparr>tap_state := (if reg = 0 then Shift_IR else Shift_DR), tap_shift := scan_capture chips reg (tap_regs t)\<rparr>"
proof -
  have "map (\<lambda>i. i < 2) [0..<4] = [True, True, False, False]" "map (\<lambda>i. i < 2) [Suc 0..<4] = [True, False, False]"
    by (simp_all add: upt_rec)
  then show ?thesis using assms
    by (cases t) (auto simp: tap_clocks_def tap_clock_def scan_capture_def Let_def)
qed

lemma from_exit:
  assumes "tap_state t = (if reg = 0 then Exit1_IR else Exit1_DR)"
  shows "tap_clocks chips [True, False] t =
    t\<lparr>tap_state := Run_Test_Idle, tap_regs := scan_update chips reg (tap_shift t) (tap_regs t)\<rparr>"
  using assms by (cases t; cases "reg = 0") (simp_all add: tap_clocks_def tap_clock_def scan_update_def Let_def)

lemma idle_view: "idle s \<Longrightarrow> tap_view bus b s [] (jb_tap b (crate s))"
  using idle_represents by (auto simp: tap_view_def)

lemma scan_jtag_scans:
  fixes snd_data :: "byte list"
  assumes dr: "drives link bus b s" and s: "idle s" "tap_state (jb_tap b (crate s)) = Run_Test_Idle"
    and reg: "reg = 0 \<or> reg = 1" and cnt: "0 < n" "2 * n \<le> MAXLINE"
  defines "r \<equiv> scan_capture (jb_chips b) reg (tap_regs (jb_tap b (crate s)))"
  defines "through \<equiv> shift_through (data_bits snd_data 0 n) r"
  shows "\<exists>s' got. scan_jtag link reg snd_data (int n) rcv ird s = (got, s') \<and> config s' = config s \<and> idle s' \<and>
     jb_tap b (crate s') = \<lparr>tap_state = Run_Test_Idle, tap_shift = snd through,
        tap_regs = scan_update (jb_chips b) reg (snd through) (tap_regs (jb_tap b (crate s)))\<rparr> \<and>
     (if ird then length got = length rcv \<and>
        (\<forall>m < length rcv. \<forall>p. bit (got ! m) p \<longleftrightarrow>
           (if m < (n + 7) div 8 then p < 8 \<and> 8 * m + p < n \<and> fst through ! (8 * m + p) = 1 else bit (rcv ! m) p))
      else got = rcv)"
proof -
  define t where "t = jb_tap b (crate s)"
  define ptr where "ptr = add_ucla s"
  define s1 where "s1 = snd (tms_cycles link 1 ptr (map (\<lambda>i. i < 2) [nat reg..<4]) s)"
  define t1 where "t1 = t\<lparr>tap_state := (if reg = 0 then Shift_IR else Shift_DR), tap_shift := r\<rparr>"
  have 1: "tap_view bus b s1 [] t1" "config s1 = config s"
    using tms_cycles_clocked[OF dr idle_view[OF s(1)], of 1 "map (\<lambda>i. i < 2) [nat reg..<4]"]
      to_shift[OF s(2) reg, of "jb_chips b"]
    by (simp_all add: clocked_def s1_def t1_def t_def r_def ptr_def)
  have dr1: "drives link bus b s1" using dr by (simp add: drives_config[OF 1(2)])
  have p1: "add_ucla s1 = ptr" "TDO_pin s1 = TDO_pin s" using 1(2) by (simp_all add: config_def ptr_def)
  have sh: "shifting t1" by (simp add: shifting_def t1_def)
  define s2 where "s2 = snd (shift_loop link ptr ird True 1 snd_data n 0 0 (snd_data ! 0) s1)"
  define t2 where "t2 = t1\<lparr>tap_shift := snd through, tap_state := (if reg = 0 then Exit1_IR else Exit1_DR)\<rparr>"
  obtain ws where ws: "tap_view bus b s2 ws t2" "config s2 = config s"
    "if ird then map (\<lambda>w. bit w (8 + TDO_pin s)) ws = map (\<lambda>x. x = 1) (fst through) else ws = []"
  proof -
    have "tap_next True (tap_state t1) = (if reg = 0 then Exit1_IR else Exit1_DR)" "tap_shift t1 = r"
      by (simp_all add: t1_def)
    moreover have d0: "snd_data ! 0 = drop_bit 0 (snd_data ! 0)" "(0 :: nat) < 8" by simp_all
    ultimately have "\<exists>ws. clocked bus b 1 s1 ws t2 (shift_loop link ptr ird True 1 snd_data n 0 0 (snd_data ! 0) s1) \<and>
        (if ird then map (\<lambda>w. bit w (8 + TDO_pin s)) ws = map (\<lambda>x. x = 1) (fst through) else ws = [])"
      using shift_loop_clocked[OF dr1 1(1) sh disjI1[OF refl] cnt(1) d0, of True ird]
      unfolding p1 t2_def through_def by (simp only: mult_0_right add_0_left append_Nil)
    then show thesis using that 1(2) by (auto simp: clocked_def s2_def)
  qed
  have dr2: "drives link bus b s2" using dr by (simp add: drives_config[OF ws(2)])
  have p2: "add_ucla s2 = ptr" "TDO_pin s2 = TDO_pin s" using ws(2) by (simp_all add: config_def ptr_def)
  obtain got s3 where 3: "tms_cycles link 3 ptr [True, False] s2 = (got, s3)" by fastforce
  have t2: "tap_state t2 = (if reg = 0 then Exit1_IR else Exit1_DR)" "tap_shift t2 = snd through" "tap_regs t2 = tap_regs t"
    by (simp_all add: t2_def t1_def)
  have c: "clocked bus b 3 s2 ws (tap_clocks (jb_chips b) [True, False] t2) (got, s3)"
    using tms_cycles_clocked[OF dr2 ws(1), of 3 "[True, False]"] by (simp only: 3 p2) simp
  then have fin: "got = word_bytes ws" "idle s3" "config s3 = config s" "TDO_pin s3 = TDO_pin s"
    "jb_tap b (crate s3) = \<lparr>tap_state = Run_Test_Idle, tap_shift = snd through,
        tap_regs = scan_update (jb_chips b) reg (snd through) (tap_regs t)\<rparr>"
    using ws(2) unfolding from_exit[OF t2(1)] by (auto simp: clocked_def t2 config_def intro!: tap.equality)
  have scan: "scan_jtag link reg snd_data (int n) rcv ird s = (if ird then read_bits (TDO_pin s) got n rcv else rcv, s3)"
    using reg 3 fin(4) by (auto simp: scan_jtag_def Let_def split_beta s1_def s2_def ptr_def)
  have tdo: "TDO_pin s < 8" using dr by (simp add: drives_def)
  have read: "\<forall>m < length rcv. \<forall>p. bit (read_bits (TDO_pin s) got n rcv ! m) p \<longleftrightarrow>
     (if m < (n + 7) div 8 then p < 8 \<and> 8 * m + p < n \<and> fst through ! (8 * m + p) = 1 else bit (rcv ! m) p)" if ird
  proof -
    have eq: "map (\<lambda>w. bit w (8 + TDO_pin s)) ws = map (\<lambda>x. x = 1) (fst through)" using ws(3) that by simp
    have "length (fst (shift_through bs q)) = length bs" for bs q
      by (induction bs arbitrary: q) (simp_all add: split_beta)
    then have "length (fst through) = n" by (simp add: through_def data_bits_def)
    then have len: "length ws = n" using arg_cong[OF eq, of length] by simp
    have "bit (ws ! k) (8 + TDO_pin s) \<longleftrightarrow> fst through ! k = 1" if "k < n" for k
      using arg_cong[OF eq, of "\<lambda>xs. xs ! k"] that len \<open>length (fst through) = n\<close> by simp
    then show ?thesis unfolding fin(1) using read_bits_bit[OF tdo len cnt(2)] by auto
  qed
  show ?thesis using scan fin read unfolding t_def by auto
qed

end
