(* ===== verification/Tmb_Vme.thy ===== *)
theory Tmb_Vme
  imports Tap
begin

text \<open>
  The VME accesses of a module and of the TMB (\<^verbatim>\<open>VMEModule.cc\<close>, the VME part of \<^verbatim>\<open>TMB.cc\<close>): every
  access sets the slot of the module in the controller first; the TMB sets the source of its JTAG lines
  and the selected chain with it.
\<close>

unbundle bit_operations_syntax

section \<open>The controller calls of a module\<close>

definition VME_READ :: int where "VME_READ = 1"
definition VME_WRITE :: int where "VME_WRITE = 2"
definition VME_DELAY :: int where "VME_DELAY = 3"
definition VME_BOOT_REG :: int where "VME_BOOT_REG = 0x04"
definition LATER :: nat where "LATER = 0"
definition NOW :: nat where "NOW = 1"

definition store :: "byte list \<Rightarrow> byte list \<Rightarrow> byte list" where
  "store got rcv = got @ drop (length got) rcv"

definition new_vme :: "'w link \<Rightarrow> int \<Rightarrow> 32 word \<Rightarrow> 16 word \<Rightarrow> nat \<Rightarrow> 'w vcc \<Rightarrow> int \<times> byte list \<times> 'w vcc" where
  "new_vme link fcn vme data when s =
     (let itrd = [0, 2 :: int]; add_rice = vmeadd s OR vme
      in if fcn < 1 \<or> 3 < fcn then (-1, [], s)
         else if fcn = 1 \<or> fcn = 2 then vme_controller link (itrd ! when + fcn - 1) add_rice [data] s
         else (0, [], sleep_vme link (uint data) s))"

text \<open>The older entry point: bytes high first, and a read is never buffered.\<close>

definition swap01 :: "byte list \<Rightarrow> byte list" where
  "swap01 rcv = rcv[0 := rcv ! 1, 1 := rcv ! 0]"

definition two_bytes :: "byte list \<Rightarrow> 16 word" where
  "two_bytes snd_data = (ucast (snd_data ! 1) AND 0x00ff) OR (push_bit 8 (ucast (snd_data ! 0)) AND 0xff00)"

definition sleep_vme_bytes :: "'w link \<Rightarrow> byte list \<Rightarrow> 'w vcc \<Rightarrow> 'w vcc" where
  "sleep_vme_bytes link outbuf s =
     (let time = uint (outbuf ! 0) + 256 * uint (outbuf ! 1);
          tmp_time = drop_bit 4 (time * 1000 + 15)
      in snd (snd (vme_controller link 6 0 (delay_words tmp_time) s)))"

definition do_vme :: "'w link \<Rightarrow> int \<Rightarrow> byte \<Rightarrow> byte list \<Rightarrow> byte list \<Rightarrow> nat \<Rightarrow> 'w vcc \<Rightarrow> byte list \<times> 'w vcc" where
  "do_vme link fcn vme snd_data rcv when s =
     (let itwr = [1, 3 :: int]; itrd = [2, 2 :: int];
          add_rice = vmeadd s OR ucast vme; boot = vmeadd s OR 0x70000
      in if fcn = 15 then (rcv, s)
         else if fcn = 2 then
           (let (ret, got, s) = vme_controller link (itwr ! when) add_rice [two_bytes snd_data] s
            in (store got rcv, s))
         else if fcn = 1 then
           (let (ret, got, s) = vme_controller link (itrd ! when) add_rice [0] s
            in (swap01 (store got rcv), s))
         else if fcn = 5 then
           (let (ret, got, s) = vme_controller link (itrd ! when) boot [0] s
            in (swap01 (store got rcv), s))
         else if fcn = 6 then
           (let (ret, got, s) = vme_controller link (itwr ! when) boot [two_bytes snd_data] s
            in (store got rcv, s))
         else if fcn = 3 then (rcv, sleep_vme_bytes link snd_data s)
         else (rcv, s))"

section \<open>The accesses of a TMB\<close>

text \<open>The members of the module and of the TMB that a VME access uses, with the controller.\<close>

record 'w tmb_io =
  io_vcc :: "'w vcc"
  theSlot :: int
  JtagSource :: int
  ucla_ldev :: int

definition on_vcc :: "('w vcc \<Rightarrow> 'w vcc) \<Rightarrow> 'w tmb_io \<Rightarrow> 'w tmb_io" where
  "on_vcc f m = m\<lparr>io_vcc := f (io_vcc m)\<rparr>"

definition TMB_board :: int where "TMB_board = 2"

definition VMEModule_start :: "'w tmb_io \<Rightarrow> 'w tmb_io" where
  "VMEModule_start m = on_vcc (start (theSlot m) TMB_board) m"

definition tmb_start0 :: "'w tmb_io \<Rightarrow> 'w tmb_io" where
  "tmb_start0 m =
     (let m = on_vcc (SetupJtag TMB_ENUM (JtagSource m)) m;
          m = VMEModule_start m
      in on_vcc (initDevice (ucla_ldev m)) m)"

definition tmb_start :: "int \<Rightarrow> int \<Rightarrow> 'w tmb_io \<Rightarrow> 'w tmb_io" where
  "tmb_start idev source m =
     (let m = m\<lparr>JtagSource := source\<rparr>;
          m = (if idev \<noteq> ucla_ldev m then m\<lparr>ucla_ldev := idev\<rparr> else m)
      in tmb_start0 m)"

definition tmb_vme :: "'w link \<Rightarrow> int \<Rightarrow> byte \<Rightarrow> byte list \<Rightarrow> byte list \<Rightarrow> nat \<Rightarrow> 'w tmb_io \<Rightarrow> byte list \<times> 'w tmb_io" where
  "tmb_vme link fcn vme snd_data rcv when m =
     (let m = VMEModule_start (tmb_start 1 jtagSourceBoot m);
          (rcv, s) = do_vme link fcn vme snd_data rcv when (io_vcc m)
      in (rcv, m\<lparr>io_vcc := s\<rparr>))"

text \<open>The access itself of \<^verbatim>\<open>tmb_vme_new\<close>; the vectors it records are \<^verbatim>\<open>tmb_vme_write\<close> of
  \<open>TMB_Config\<close>.\<close>

definition tmb_vme_access :: "'w link \<Rightarrow> int \<Rightarrow> 32 word \<Rightarrow> 16 word \<Rightarrow> nat \<Rightarrow> 'w tmb_io \<Rightarrow> byte list \<times> 'w tmb_io" where
  "tmb_vme_access link fcn vme data when m =
     (let m = VMEModule_start (tmb_start 1 jtagSourceBoot m);
          (ret, got, s) = new_vme link fcn vme data when (io_vcc m)
      in (got, m\<lparr>io_vcc := s\<rparr>))"

definition boot_reg_word :: "'w link \<Rightarrow> 'w tmb_io \<Rightarrow> int \<times> 'w tmb_io" where
  "boot_reg_word link m =
     (let (rcv, m) = tmb_vme link 5 0 [0, 0] [0, 0] NOW m
      in (uint ((ucast (rcv ! 1) AND 0xff) OR push_bit 8 (ucast (rcv ! 0)) :: 16 word), m))"

definition tmb_set_boot_reg :: "'w link \<Rightarrow> int \<Rightarrow> 'w tmb_io \<Rightarrow> 'w tmb_io" where
  "tmb_set_boot_reg link value m =
     snd (tmb_vme link 6 0 [word_of_int (drop_bit 8 value AND 0xff), word_of_int (value AND 0xff)] [0, 0] NOW m)"

definition TMB_scan ::
  "'w link \<Rightarrow> int \<Rightarrow> byte list \<Rightarrow> int \<Rightarrow> byte list \<Rightarrow> bool \<Rightarrow> 'w tmb_io \<Rightarrow> byte list \<times> 'w tmb_io" where
  "TMB_scan link reg snd_data cnt rcv ird m =
     (let m = VMEModule_start m;
          (rcv, s) = scan_jtag link reg snd_data cnt rcv ird (io_vcc m)
      in (rcv, m\<lparr>io_vcc := s\<rparr>))"

definition TMB_RestoreIdle :: "'w link \<Rightarrow> 'w tmb_io \<Rightarrow> 'w tmb_io" where
  "TMB_RestoreIdle link m = on_vcc (RestoreIdle_jtag link) (VMEModule_start m)"

definition SetALCTOkVMEWriteAddress :: "bool \<Rightarrow> 'w tmb_io \<Rightarrow> 'w tmb_io" where
  "SetALCTOkVMEWriteAddress address_ok = on_vcc (\<lambda>s. s\<lparr>ok_vme_write := address_ok\<rparr>)"

section \<open>The port of the JTAG class\<close>

text \<open>What \<^verbatim>\<open>EMUjtag\<close> calls on its \<^verbatim>\<open>TMB\<close>, as the controller executes it. The buffers of the class are
  \<^verbatim>\<open>char\<close>s, those of the controller bytes; the host sleeps without an access.\<close>

definition vme_port :: "'w link \<Rightarrow> 'w tmb_io jtag_port" where
  "vme_port link = \<lparr>port_scan = (\<lambda>reg bytes n rcv ird m.
       (let (got, m) = TMB_scan link (case reg of INSTR_REGISTER \<Rightarrow> 0 | DATA_REGISTER \<Rightarrow> 1)
              (map word_of_int bytes) (int n) (map word_of_int rcv) ird m
        in (map sint got, m))),
     port_start = tmb_start, port_idle = TMB_RestoreIdle link,
     port_get_boot = boot_reg_word link, port_set_boot = tmb_set_boot_reg link,
     port_usleep = (\<lambda>t m. m), port_ok_vme = SetALCTOkVMEWriteAddress\<rparr>"

end
