(* ===== verification/Tap_Scan.thy ===== *)
theory Tap_Scan
  imports Tap
begin

text \<open>
  The properties of the bit-banged scans, from the calls of \<^verbatim>\<open>VMEController_jtag.cc\<close> down to the
  registers of the chips.
\<close>

unbundle bit_operations_syntax

section \<open>A board for concrete examples\<close>

text \<open>One register at every address; TDO is bit 15 when it is read. The chips keep one data register.\<close>

definition demo_chips :: "int list chips" where
  "demo_chips = \<lparr>capture_dr = map (\<lambda>x. of_bool (x = 1)), capture_ir = (\<lambda>r. [1, 0]),
     update_dr = (\<lambda>d r. d), update_ir = (\<lambda>i r. r)\<rparr>"

definition demo_bus :: "(bool \<times> int list tap) bus" where
  "demo_bus = \<lparr>
     bus_read = (\<lambda>a w. (if hd (tap_shift (snd w)) = 1 then 0x8000 else 0, w)),
     bus_write = (\<lambda>a d w. (bit d 2, if \<not> fst w \<and> bit d 2
        then tap_clock demo_chips (bit d 1) (of_bool (bit d 0)) (snd w) else snd w)),
     bus_wait = (\<lambda>t w. w)\<rparr>"

definition demo_board :: "(int list, bool \<times> int list tap) jtag_board" where
  "demo_board = \<lparr>jb_chips = demo_chips, jb_tck = fst, jb_tap = snd\<rparr>"

definition demo_link :: "(bool \<times> int list tap) link" where
  "demo_link = crate_controller demo_bus crate_address"

definition demo_vcc :: "tap_state \<Rightarrow> int list \<Rightarrow> (bool \<times> int list tap) vcc" where
  "demo_vcc st regs = (blank_vcc (False, \<lparr>tap_state = st, tap_shift = [0], tap_regs = regs\<rparr>))
     \<lparr>add_ucla := 0x180010, pvme := 0x80, TCK_pin := 2, TMS_pin := 1, TDI_pin := 0, TDO_pin := 7\<rparr>"

lemma demo_register: "jtag_register demo_bus a (2, 1, 0, 7) demo_board"
proof -
  have "bit (0x8000 :: 16 word) 15" by simp
  then show ?thesis by (auto simp: jtag_register_def demo_bus_def demo_board_def)
qed

lemma demo_drives: "drives demo_link demo_bus demo_board (demo_vcc st regs)"
proof -
  have "vcc_serves demo_link demo_bus crate_address"
    unfolding demo_link_def by (rule crate_controller_serves) (simp add: crate_address_def)
  moreover have "\<not> bit (0x80 :: 16 word) 2" "\<not> bit (0x80 :: 16 word) 1" "\<not> bit (0x80 :: 16 word) 0" by simp_all
  ultimately show ?thesis
    using demo_register by (simp add: drives_def demo_vcc_def blank_vcc_def)
qed

lemma demo_idle: "idle (demo_vcc st regs)"
  by (simp add: demo_vcc_def blank_vcc_def idle_def)

lemma demo_tap: "jb_tap demo_board (crate (demo_vcc st regs)) = \<lparr>tap_state = st, tap_shift = [0], tap_regs = regs\<rparr>"
  "jb_chips demo_board = demo_chips"
  by (simp_all add: demo_board_def demo_vcc_def blank_vcc_def)

section \<open>Properties\<close>

text \<open>C28. A scan shifts the given bits through the register the chips offer: from Run-Test/Idle,
  \<^verbatim>\<open>scan_jtag\<close> takes the state machine through Capture, one Shift per bit and Update back to
  Run-Test/Idle; the chips are updated with what is left in the register after \<open>n\<close> bits have gone
  in, and the \<open>n\<close> bits that came out are packed into the receive buffer, the first bit lowest,
  whole bytes of it being written. Nothing stays pending in the controller, however many packets the
  \<open>3 (n + 6)\<close> writes and \<open>n\<close> reads take.\<close>

theorem scan_jtag_shifts:
  assumes "drives link bus b s" and "idle s" and "tap_state (jb_tap b (crate s)) = Run_Test_Idle"
    and "reg = 0 \<or> reg = 1" and "0 < n" and "2 * n \<le> MAXLINE"
    and "shift_through (data_bits snd_data 0 n) (scan_capture (jb_chips b) reg (tap_regs (jb_tap b (crate s)))) = (out, left)"
  shows "\<exists>s' got. scan_jtag link reg snd_data (int n) rcv ird s = (got, s') \<and> config s' = config s \<and> idle s' \<and>
     jb_tap b (crate s') = \<lparr>tap_state = Run_Test_Idle, tap_shift = left,
        tap_regs = scan_update (jb_chips b) reg left (tap_regs (jb_tap b (crate s)))\<rparr> \<and>
     (if ird then length got = length rcv \<and>
        (\<forall>m < length rcv. \<forall>p. bit (got ! m) p \<longleftrightarrow>
           (if m < (n + 7) div 8 then p < 8 \<and> 8 * m + p < n \<and> out ! (8 * m + p) = 1 else bit (rcv ! m) p))
      else got = rcv)"
  using scan_jtag_scans[OF assms(1-6), of snd_data rcv ird] unfolding assms(7) fst_conv snd_conv .

theorem scan_jtag_shifts_witness:
  "\<exists>s' got. scan_jtag demo_link 1 [5] 3 [0] True (demo_vcc Run_Test_Idle [1, 1, 0]) = (got, s') \<and>
     tap_regs (jb_tap demo_board (crate s')) = [1, 0, 1] \<and> bit (got ! 0) 0 \<and> bit (got ! 0) 1 \<and> \<not> bit (got ! 0) 2"
proof -
  have "data_bits [5] 0 3 = [1, 0, 1]" by (simp add: numeral_3_eq_3)
  then have "shift_through (data_bits [5] 0 3) (scan_capture (jb_chips demo_board) 1
      (tap_regs (jb_tap demo_board (crate (demo_vcc Run_Test_Idle [1, 1, 0]))))) = ([1, 1, 0], [1, 0, 1])"
    by (simp add: demo_tap scan_capture_def demo_chips_def)
  from scan_jtag_shifts[OF demo_drives demo_idle _ _ _ _ this, of "[0]" True]
  have "\<exists>s' got. scan_jtag demo_link 1 [5] 3 [0] True (demo_vcc Run_Test_Idle [1, 1, 0]) = (got, s') \<and>
     jb_tap demo_board (crate s') = \<lparr>tap_state = Run_Test_Idle, tap_shift = [1, 0, 1],
        tap_regs = scan_update demo_chips 1 [1, 0, 1] [1, 1, 0]\<rparr> \<and>
     (\<forall>p. bit (got ! 0) p \<longleftrightarrow> p < 8 \<and> p < 3 \<and> [1, 1, 0 :: int] ! p = 1)"
    by (auto simp: demo_tap MAXLINE_def)
  then obtain s' got where "scan_jtag demo_link 1 [5] 3 [0] True (demo_vcc Run_Test_Idle [1, 1, 0]) = (got, s')"
    and "tap_regs (jb_tap demo_board (crate s')) = [1, 0, 1]"
    and "\<forall>p. bit (got ! 0) p \<longleftrightarrow> p < 8 \<and> p < 3 \<and> [1, 1, 0 :: int] ! p = 1"
    by (auto simp: scan_update_def demo_chips_def)
  then show ?thesis by (intro exI conjI) (assumption | simp)+
qed

text \<open>C29. The state machine always comes home: from any of its sixteen states, with whatever is still
  waiting in the packet, \<^verbatim>\<open>RestoreIdle_jtag\<close> ends in Run-Test/Idle and \<^verbatim>\<open>RestoreReset_jtag\<close> in
  Test-Logic-Reset, and both send everything; \<^verbatim>\<open>CycleIdle_jtag\<close> with one cycle or more keeps a machine
  that is in Run-Test/Idle there, its registers untouched.\<close>

theorem jtag_comes_home:
  assumes "drives link bus b s" and "tap_view bus b s rs t"
  shows "idle (RestoreIdle_jtag link s) \<and>
      tap_state (jb_tap b (crate (RestoreIdle_jtag link s))) = Run_Test_Idle \<and>
    idle (RestoreReset_jtag link s) \<and>
      tap_state (jb_tap b (crate (RestoreReset_jtag link s))) = Test_Logic_Reset \<and>
    (0 < cycles \<and> tap_state t = Run_Test_Idle \<longrightarrow>
      idle (CycleIdle_jtag link cycles s) \<and> jb_tap b (crate (CycleIdle_jtag link cycles s)) = t)"
proof -
  have go: "idle (snd (tms_cycles link 3 (add_ucla s) tmss s)) \<and>
      jb_tap b (crate (snd (tms_cycles link 3 (add_ucla s) tmss s))) = tap_clocks (jb_chips b) tmss t"
    if "tmss \<noteq> []" for tmss
    using tms_cycles_clocked[OF assms, of 3 tmss] that by (simp add: clocked_def)
  have home: "fold tap_next ([True, True, True, True, True] @ [False]) st = Run_Test_Idle" for st
    by (simp only: fold_append comp_def five_ones) simp
  have stay: "tap_clocks (jb_chips b) (replicate n False) t = t" if "tap_state t = Run_Test_Idle" for n
  proof (induction n)
    case 0
    then show ?case by (simp add: tap_clocks_def)
  next
    case (Suc n)
    have "tap_clock (jb_chips b) False 0 t = t" using that by (cases t) (simp add: tap_clock_def)
    with Suc show ?case by (simp add: tap_clocks_def)
  qed
  show ?thesis
    using go[of "[True, True, True, True, True, False]"] go[of "[True, True, True, True, True]"]
      go[of "replicate (nat cycles) False"] home[of "tap_state t"] five_ones[of "tap_state t"] stay
    by (simp add: RestoreIdle_jtag_def RestoreReset_jtag_def CycleIdle_jtag_def tap_state_clocks
        del: fold_simps fold.simps)
qed

theorem jtag_comes_home_witness:
  "tap_state (jb_tap demo_board (crate (RestoreIdle_jtag demo_link (demo_vcc Pause_IR [1])))) = Run_Test_Idle"
  using jtag_comes_home[OF demo_drives idle_view[OF demo_idle]] by blast

text \<open>C30. A scan of no bits does not come back: \<^verbatim>\<open>scan_jtag\<close> with a count of 0, which it accepts, leaves
  the state machine in Pause-DR or Pause-IR instead of Run-Test/Idle, because the last bit is the one
  that leaves the shift state.\<close>

theorem empty_scan_pauses:
  assumes "drives link bus b s" and "idle s" and "tap_state (jb_tap b (crate s)) = Run_Test_Idle"
    and "reg = 0 \<or> reg = 1"
  shows "tap_state (jb_tap b (crate (snd (scan_jtag link reg snd_data 0 rcv ird s)))) =
     (if reg = 0 then Pause_IR else Pause_DR)"
proof -
  let ?to = "map (\<lambda>i. i < 2) [nat reg..<4]"
  define s1 where "s1 = snd (tms_cycles link 1 (add_ucla s) ?to s)"
  have 1: "tap_view bus b s1 [] (tap_clocks (jb_chips b) ?to (jb_tap b (crate s)))" "config s1 = config s"
    using tms_cycles_clocked[OF assms(1) idle_view[OF assms(2)], of 1 ?to] by (simp_all add: clocked_def s1_def)
  have "drives link bus b s1" using assms(1) by (simp add: drives_config[OF 1(2)])
  from tms_cycles_clocked[OF this 1(1), of 3 "[True, False]"] 1(2)
  have "jb_tap b (crate (snd (tms_cycles link 3 (add_ucla s) [True, False] s1))) =
      tap_clocks (jb_chips b) [True, False] (tap_clocks (jb_chips b) ?to (jb_tap b (crate s)))"
    by (simp add: clocked_def config_def)
  moreover have "snd (scan_jtag link reg snd_data 0 rcv ird s) = snd (tms_cycles link 3 (add_ucla s) [True, False] s1)"
    using assms(4) by (auto simp: scan_jtag_def Let_def split_beta s1_def)
  ultimately show ?thesis
    unfolding to_shift[OF assms(3,4)] by (simp add: tap_state_clocks)
qed

theorem empty_scan_pauses_witness:
  "tap_state (jb_tap demo_board (crate (snd (scan_jtag demo_link 1 [0] 0 [0] True (demo_vcc Run_Test_Idle [1]))))) = Pause_DR"
  using empty_scan_pauses[OF demo_drives demo_idle, of Run_Test_Idle "[1]" 1 "[0]" "[0]" True] by (simp add: demo_tap)

end
