(* ===== verification/Jtag_Link.thy ===== *)
theory Jtag_Link
  imports Tmb_Vme Tap_Scan
begin

text \<open>
  The JTAG class on the controller. The interface \<open>scan_chain\<close> states what the shift operations of
  \<^verbatim>\<open>EMUjtag\<close> need of the port they call; their effect on the chips is proved from it once. It is
  interpreted on a bare chain of shift registers and on the port that goes through the VME controller,
  its packets and the clocks of the board register.
\<close>

unbundle bit_operations_syntax

section \<open>The interface\<close>

locale scan_chain =
  fixes port :: "'h jtag_port"
    and ready :: "'h \<Rightarrow> bool"
    and captured :: "scan_register \<Rightarrow> 'h \<Rightarrow> int list"
    and wrote :: "scan_register \<Rightarrow> int list \<Rightarrow> 'h \<Rightarrow> 'h \<Rightarrow> bool"
  assumes captured_bits: "ready h \<Longrightarrow> is_bits (captured r h)"
    and data_scan: "ready h \<Longrightarrow> length bytes = MAX_BUFFER_SIZE \<Longrightarrow> 0 < n \<Longrightarrow> n \<le> MAX_NUM_FRAMES \<Longrightarrow>
      n = length (captured DATA_REGISTER h) \<Longrightarrow>
      \<exists>h'. port_scan port DATA_REGISTER bytes n (replicate MAX_BUFFER_SIZE 0) True h =
             (packCharBuffer (captured DATA_REGISTER h) n (replicate MAX_BUFFER_SIZE 0), h') \<and>
           ready h' \<and> wrote DATA_REGISTER (frames_of bytes n) h h'"
    and instr_scan: "ready h \<Longrightarrow> length bytes = MAX_BUFFER_SIZE \<Longrightarrow> 0 < n \<Longrightarrow> n \<le> MAX_NUM_FRAMES \<Longrightarrow>
      n = length (captured INSTR_REGISTER h) \<Longrightarrow>
      \<exists>h'. port_scan port INSTR_REGISTER bytes n (replicate MAX_BUFFER_SIZE 0) False h =
             (replicate MAX_BUFFER_SIZE 0, h') \<and>
           ready h' \<and> wrote INSTR_REGISTER (frames_of bytes n) h h'"
    and ok_vme: "ready h \<Longrightarrow> ready (port_ok_vme port f h) \<and> captured r (port_ok_vme port f h) = captured r h"
begin

lemma ShfDR_selected:
  assumes "ready h" and j: "0 \<le> jtag_chain j" "write_to_device j" "sel < devices_in_chain j"
    and wd: "is_bits wd" "length wd = len" and len: "0 < len"
    and cap: "length (captured DATA_REGISTER h) = devices_in_chain j - 1 + len"
      "length (captured DATA_REGISTER h) \<le> MAX_NUM_FRAMES"
  shows "\<exists>j' h'. ShfDR port (int sel) len wd (j, h) = (j', h') \<and> ready h' \<and>
    wrote DATA_REGISTER (replicate (devices_in_chain j - sel - 1) 0 @ wd @ replicate sel 0) h h' \<and>
    take len (chip_tdo_in_bits j') = take len (drop (devices_in_chain j - sel - 1) (captured DATA_REGISTER h)) \<and>
    jtag_chain j' = jtag_chain j \<and> devices_in_chain j' = devices_in_chain j \<and> bits_in_opcode j' = bits_in_opcode j"
proof -
  define d cp where "d = devices_in_chain j" and "cp = captured DATA_REGISTER h"
  define frames where "frames = replicate (d - sel - 1) 0 @ wd @ replicate sel (0::int)"
  have loop: "dr_loop d (int sel) len wd = (frames, d - sel - 1)"
    using dr_loop_eq[of sel d len wd] j(3) wd(2) by (simp add: frames_def d_def map_nth_take)
  have bits: "is_bits frames" using wd(1) by (simp add: frames_def)
  have flen: "length frames = length cp" using wd(2) cap j(3) by (simp add: frames_def d_def cp_def)
  define j' where "j' = put_frames frames (clear_buffers (j\<lparr>register_length := len\<rparr>))"
  have fr: "frames_of (tdi_in_bytes j') (length frames) = frames"
    unfolding j'_def by (rule put_frames_clear[OF bits]) (use flen cap in \<open>simp add: cp_def\<close>)
  have tdi: "length (tdi_in_bytes j') = MAX_BUFFER_SIZE"
    by (simp add: j'_def put_frames_def clear_buffers_def Let_def)
  define zeros where "zeros = replicate MAX_BUFFER_SIZE (0::int)"
  obtain h' where scan: "port_scan port DATA_REGISTER (tdi_in_bytes j') (length frames) zeros True h =
      (packCharBuffer cp (length frames) zeros, h')" and h': "ready h'" "wrote DATA_REGISTER frames h h'"
    using data_scan[OF assms(1) tdi, of "length frames"] flen cap len fr by (auto simp: cp_def zeros_def)
  have eq: "ShfDR port (int sel) len wd (j, h) =
      (j'\<lparr>tdo_in_bytes := packCharBuffer cp (length frames) zeros,
          chip_tdo_in_bits := unpackCharBuffer (packCharBuffer cp (length frames) zeros)
            len (d - sel - 1) (replicate MAX_NUM_FRAMES 0)\<rparr>, h')"
    using j scan loop by (simp add: ShfDR_def Let_def not_less d_def j'_def zeros_def)
  define U where "U = unpackCharBuffer (packCharBuffer cp (length frames) zeros) len (d - sel - 1) (replicate MAX_NUM_FRAMES 0)"
  have read: "U ! m = cp ! (d - sel - 1 + m)" if "m < len" for m
    unfolding U_def using that captured_bits[OF assms(1)] cap j(3) flen
    by (intro unpack_pack) (auto simp: MAX_BUFFER_SIZE_def MAX_NUM_FRAMES_def d_def cp_def zeros_def)
  have "length U = MAX_NUM_FRAMES" "len \<le> MAX_NUM_FRAMES" "d - sel - 1 + len \<le> length cp"
    using cap j(3) by (simp_all add: U_def d_def cp_def)
  then have "take len U = take len (drop (d - sel - 1) cp)"
    by (intro nth_equalityI) (simp_all add: read del: diff_diff_left)
  then show ?thesis using h'
    unfolding d_def[symmetric] cp_def[symmetric] frames_def[symmetric] eq U_def[symmetric]
    by (simp add: j'_def d_def)
qed

lemma ShfIR_opcodes:
  assumes "ready h" and j: "0 \<le> jtag_chain j" "write_to_device j"
    and cap: "length (captured INSTR_REGISTER h) = length (ir_frames j sel opc)"
      "0 < length (ir_frames j sel opc)" "length (ir_frames j sel opc) \<le> MAX_NUM_FRAMES"
  shows "\<exists>j' h'. ShfIR port sel opc (j, h) = (j', h') \<and> ready h' \<and> wrote INSTR_REGISTER (ir_frames j sel opc) h h' \<and>
    jtag_chain j' = jtag_chain j \<and> devices_in_chain j' = devices_in_chain j \<and>
    bits_in_opcode j' = bits_in_opcode j \<and> write_to_device j'"
proof -
  define j' where "j' = put_frames (ir_frames j sel opc) (clear_buffers j)"
  have fr: "frames_of (tdi_in_bytes j') (length (ir_frames j sel opc)) = ir_frames j sel opc"
    unfolding j'_def by (rule put_frames_clear[OF is_bits_ir cap(3)])
  have tdi: "length (tdi_in_bytes j') = MAX_BUFFER_SIZE"
    by (simp add: j'_def put_frames_def clear_buffers_def Let_def)
  obtain h' where scan: "port_scan port INSTR_REGISTER (tdi_in_bytes j') (length (ir_frames j sel opc))
      (replicate MAX_BUFFER_SIZE 0) False h = (replicate MAX_BUFFER_SIZE 0, h')"
    and h': "ready h'" "wrote INSTR_REGISTER (ir_frames j sel opc) h h'"
    using instr_scan[OF assms(1) tdi cap(2,3) cap(1)[symmetric]] fr by auto
  have "ShfIR port sel opc (j, h) = (j'\<lparr>tdo_in_bytes := replicate MAX_BUFFER_SIZE 0\<rparr>, h')"
    using j scan by (simp add: ShfIR_def Let_def not_less j'_def)
  then show ?thesis using h' j by (simp add: j'_def)
qed

text \<open>Both scans: the opcode selects a register of the chip, whose contents come back while the new
  ones go in.\<close>

lemma ShfIR_ShfDR_register:
  assumes "ready h" and j: "0 \<le> jtag_chain j" "sel < devices_in_chain j"
    and wd: "is_bits wd" "length wd = len" and len: "0 < len"
    and ir: "length (captured INSTR_REGISTER h) = length (ir_frames j (int sel) opc)"
      "0 < length (ir_frames j (int sel) opc)" "length (ir_frames j (int sel) opc) \<le> MAX_NUM_FRAMES"
    and dr: "\<And>h1. ready h1 \<Longrightarrow> wrote INSTR_REGISTER (ir_frames j (int sel) opc) (port_ok_vme port True h) h1 \<Longrightarrow>
       length (captured DATA_REGISTER h1) = devices_in_chain j - 1 + len"
    and small: "devices_in_chain j - 1 + len \<le> MAX_NUM_FRAMES"
  shows "\<exists>j' h1 h2. ShfIR_ShfDR port (int sel) opc len wd (j, h) = (j', port_ok_vme port False h2) \<and> ready h2 \<and>
    wrote INSTR_REGISTER (ir_frames j (int sel) opc) (port_ok_vme port True h) h1 \<and>
    wrote DATA_REGISTER (replicate (devices_in_chain j - sel - 1) 0 @ wd @ replicate sel 0) h1 h2 \<and>
    take len (chip_tdo_in_bits j') = take len (drop (devices_in_chain j - sel - 1) (captured DATA_REGISTER h1))"
proof -
  let ?j = "j\<lparr>write_to_device := True\<rparr>" and ?h = "port_ok_vme port True h"
  have frames: "ir_frames ?j (int sel) opc = ir_frames j (int sel) opc" by (simp add: ir_frames_def)
  have h: "ready ?h" "captured INSTR_REGISTER ?h = captured INSTR_REGISTER h" using ok_vme[OF assms(1)] by blast+
  obtain j1 h1 where 1: "ShfIR port (int sel) opc (?j, ?h) = (j1, h1)" "ready h1"
    "wrote INSTR_REGISTER (ir_frames j (int sel) opc) ?h h1" "jtag_chain j1 = jtag_chain j"
    "devices_in_chain j1 = devices_in_chain j" "write_to_device j1"
    using ShfIR_opcodes[OF h(1), of ?j "int sel" opc] j ir by (auto simp: frames h(2))
  have cap: "length (captured DATA_REGISTER h1) = devices_in_chain j1 - 1 + len" using dr 1 by simp
  obtain j2 h2 where 2: "ShfDR port (int sel) len wd (j1, h1) = (j2, h2)" "ready h2"
    "wrote DATA_REGISTER (replicate (devices_in_chain j - sel - 1) 0 @ wd @ replicate sel 0) h1 h2"
    "take len (chip_tdo_in_bits j2) = take len (drop (devices_in_chain j - sel - 1) (captured DATA_REGISTER h1))"
  proof -
    have "0 \<le> jtag_chain j1" "sel < devices_in_chain j1" "length (captured DATA_REGISTER h1) \<le> MAX_NUM_FRAMES"
      using 1 j small cap by simp_all
    from ShfDR_selected[OF 1(2) this(1) 1(6) this(2) wd len cap this(3)] show thesis
      using that unfolding 1(5) by blast
  qed
  have "ShfIR_ShfDR port (int sel) opc len wd (j, h) = (j2, port_ok_vme port False h2)"
    by (simp add: ShfIR_ShfDR_def Let_def 1(1) 2(1))
  then show ?thesis using 1(3) 2 by blast
qed

end

section \<open>A bare chain\<close>

lemma frames_of_bits: "is_bits (frames_of bytes n)"
  by (simp add: frames_of_def is_bits_def list_all_iff)

interpretation bare: scan_chain chain_port is_bits "\<lambda>r h. h" "\<lambda>r f h h'. h' = f"
proof unfold_locales
  fix h :: "int list" and bytes :: "int list" and n :: nat
  assume "n = length h"
  then have "chain_scan bytes n rcv h = (packCharBuffer h n rcv, frames_of bytes n)" for rcv
    by (intro chain_scan_full) (simp_all add: frames_of_def)
  then show
    "\<exists>h'. port_scan chain_port DATA_REGISTER bytes n (replicate MAX_BUFFER_SIZE 0) True h =
       (packCharBuffer h n (replicate MAX_BUFFER_SIZE 0), h') \<and> is_bits h' \<and> h' = frames_of bytes n"
    "\<exists>h'. port_scan chain_port INSTR_REGISTER bytes n (replicate MAX_BUFFER_SIZE 0) False h =
       (replicate MAX_BUFFER_SIZE 0, h') \<and> is_bits h' \<and> h' = frames_of bytes n"
    by (simp_all add: chain_port_def frames_of_bits)
qed (simp_all add: chain_port_def)

section \<open>The port through the VME controller\<close>

text \<open>The module is ready when its accesses drive a board whose machine rests in Run-Test/Idle, with
  nothing pending in the controller.\<close>

definition chips_ok :: "'r chips \<Rightarrow> bool" where
  "chips_ok chips \<longleftrightarrow> (\<forall>r. is_bits (capture_dr chips r) \<and> is_bits (capture_ir chips r))"

definition board_tap :: "('r, 'w) jtag_board \<Rightarrow> 'w tmb_io \<Rightarrow> 'r tap" where
  "board_tap b m = jb_tap b (crate (io_vcc m))"

definition jtag_ready :: "'w link \<Rightarrow> 'w bus \<Rightarrow> ('r, 'w) jtag_board \<Rightarrow> 'w tmb_io \<Rightarrow> bool" where
  "jtag_ready link bus b m \<longleftrightarrow> chips_ok (jb_chips b) \<and> drives link bus b (io_vcc (VMEModule_start m)) \<and>
     idle (io_vcc m) \<and> tap_state (board_tap b m) = Run_Test_Idle"

definition reg_code :: "scan_register \<Rightarrow> int" where
  "reg_code reg = (case reg of INSTR_REGISTER \<Rightarrow> 0 | DATA_REGISTER \<Rightarrow> 1)"

definition vme_captured :: "('r, 'w) jtag_board \<Rightarrow> scan_register \<Rightarrow> 'w tmb_io \<Rightarrow> int list" where
  "vme_captured b reg m = scan_capture (jb_chips b) (reg_code reg) (tap_regs (board_tap b m))"

definition vme_wrote :: "('r, 'w) jtag_board \<Rightarrow> scan_register \<Rightarrow> int list \<Rightarrow> 'w tmb_io \<Rightarrow> 'w tmb_io \<Rightarrow> bool" where
  "vme_wrote b reg frames m m' \<longleftrightarrow>
     tap_regs (board_tap b m') = scan_update (jb_chips b) (reg_code reg) frames (tap_regs (board_tap b m))"

lemma io_start: "io_vcc (VMEModule_start m) = start (theSlot m) TMB_board (io_vcc m)"
  "theSlot (VMEModule_start m) = theSlot m"
  by (simp_all add: VMEModule_start_def on_vcc_def)

lemma start_frame [simp]:
  "idle (start slot bt s) = idle s" "crate (start slot bt s) = crate s"
  by (simp_all add: start_def Let_def idle_def)

lemma start_again: "config s = config (start slot bt s0) \<Longrightarrow> start slot bt s = s"
  by (cases s) (auto simp: start_def config_def Let_def)

lemma bit_word_of_int_byte: "p < 8 \<Longrightarrow> bit (word_of_int x :: byte) p = bit x p"
  by (simp add: bit_simps)

lemma data_bits_frames:
  assumes "n \<le> 8 * length bytes"
  shows "data_bits (map word_of_int bytes) 0 n = frames_of bytes n"
  unfolding data_bits_def frames_of_def using assms
  by (intro map_cong) (auto simp: bit_word_of_int_byte less_mult_imp_div_less mult.commute)

lemma sint_of_bits:
  assumes "to_char v = v" and "\<And>p. p < 8 \<Longrightarrow> bit (w :: byte) p = bit v p"
  shows "sint w = v"
proof (rule int_eq_by_bits)
  fix i
  have "bit (sint w) i = bit w (min 7 i)"
    by (cases "i = 7") (auto simp: bit_sint_iff min_def dest: bit_imp_le_length)
  also have "\<dots> = bit v (min 7 i)" by (rule assms(2)) simp
  also have "\<dots> = bit (to_char v) i" by (auto simp: to_char_def bit_signed_take_bit_iff min_def)
  finally show "bit (sint w) i = bit v i" unfolding assms(1) .
qed

lemma scanned_bytes:
  fixes got :: "byte list"
  assumes "is_bits cap" and "n = length cap" and "n \<le> 8 * k"
    and "length got = k"
    and "\<forall>m < k. \<forall>p. bit (got ! m) p \<longleftrightarrow> (if m < (n + 7) div 8 then p < 8 \<and> 8 * m + p < n \<and> cap ! (8 * m + p) = 1
      else bit (replicate k (0 :: byte) ! m) p)"
  shows "map sint got = packCharBuffer cap n (replicate k 0)"
proof (rule nth_equalityI)
  show "length (map sint got) = length (packCharBuffer cap n (replicate k 0))" using assms(4) by simp
  fix m assume "m < length (map sint got)"
  then have m: "m < k" using assms(4) by simp
  have char: "to_char (packCharBuffer cap n (replicate k 0) ! m) = packCharBuffer cap n (replicate k 0) ! m"
    using chars_pack[of "replicate k 0" cap n] m unfolding list_all_length by (simp add: is_char_def to_char_def)
  have same: "bit (got ! m) p = bit (packCharBuffer cap n (replicate k 0) ! m) p" if "p < 8" for p
  proof -
    have "bit (packCharBuffer cap n (replicate k 0) ! m) p \<longleftrightarrow> 8 * m + p < n \<and> cap ! (8 * m + p) = 1"
      using assms(1-3) m that by (intro pack_bit) auto
    moreover have "bit (got ! m) p \<longleftrightarrow> 8 * m + p < n \<and> cap ! (8 * m + p) = 1"
      using assms(5) m that by auto
    ultimately show ?thesis by simp
  qed
  have "sint (got ! m) = packCharBuffer cap n (replicate k 0) ! m" by (rule sint_of_bits[OF char same])
  then show "map sint got ! m = packCharBuffer cap n (replicate k 0) ! m" using m assms(4) by simp
qed

lemma TMB_scan_scans:
  assumes ready: "jtag_ready link bus b m" and n: "0 < n" "n \<le> MAX_NUM_FRAMES" "n = length (vme_captured b reg m)"
    and bytes: "length bytes = MAX_BUFFER_SIZE"
  shows "\<exists>m'. port_scan (vme_port link) reg bytes n (replicate MAX_BUFFER_SIZE 0) ird m =
      (if ird then packCharBuffer (vme_captured b reg m) n (replicate MAX_BUFFER_SIZE 0)
       else replicate MAX_BUFFER_SIZE 0, m') \<and>
    jtag_ready link bus b m' \<and> vme_wrote b reg (frames_of bytes n) m m'"
proof -
  define s where "s = start (theSlot m) TMB_board (io_vcc m)"
  have dr: "drives link bus b s" and chips: "chips_ok (jb_chips b)" and idle: "idle s"
    and tap: "jb_tap b (crate s) = board_tap b m" "tap_state (jb_tap b (crate s)) = Run_Test_Idle"
    using ready by (simp_all add: jtag_ready_def io_start s_def board_tap_def)
  have cap: "scan_capture (jb_chips b) (reg_code reg) (tap_regs (board_tap b m)) = vme_captured b reg m"
    by (simp add: vme_captured_def)
  have zeros: "map word_of_int (replicate MAX_BUFFER_SIZE 0) = replicate MAX_BUFFER_SIZE (0 :: byte)"
    by simp
  have bits: "is_bits (vme_captured b reg m)"
    using chips by (auto simp: chips_ok_def vme_captured_def scan_capture_def)
  have code: "reg_code reg = 0 \<or> reg_code reg = 1" by (cases reg) (simp_all add: reg_code_def)
  have small: "2 * n \<le> MAXLINE" "n \<le> 8 * MAX_BUFFER_SIZE"
    using n(2) by (simp_all add: MAX_NUM_FRAMES_def MAX_BUFFER_SIZE_def MAXLINE_def)
  have frames: "data_bits (map word_of_int bytes) 0 n = frames_of bytes n"
    using data_bits_frames[of n bytes] small bytes by simp
  have through: "shift_through (frames_of bytes n) (vme_captured b reg m) = (vme_captured b reg m, frames_of bytes n)"
    using n(3) by (intro shift_through_full) (simp add: frames_of_def)
  obtain s' got where scan: "scan_jtag link (reg_code reg) (map word_of_int bytes) (int n)
      (replicate MAX_BUFFER_SIZE 0) ird s = (got, s')"
    and s': "config s' = config s" "idle s'"
    "jb_tap b (crate s') = \<lparr>tap_state = Run_Test_Idle, tap_shift = frames_of bytes n,
        tap_regs = scan_update (jb_chips b) (reg_code reg) (frames_of bytes n) (tap_regs (board_tap b m))\<rparr>"
    and got: "if ird then length got = MAX_BUFFER_SIZE \<and>
        (\<forall>k < MAX_BUFFER_SIZE. \<forall>p. bit (got ! k) p \<longleftrightarrow>
           (if k < (n + 7) div 8 then p < 8 \<and> 8 * k + p < n \<and> vme_captured b reg m ! (8 * k + p) = 1
            else bit (replicate MAX_BUFFER_SIZE (0 :: byte) ! k) p))
      else got = replicate MAX_BUFFER_SIZE 0"
    using scan_jtag_scans[OF dr idle tap(2) code n(1) small(1), of "map word_of_int bytes"
        "map word_of_int (replicate MAX_BUFFER_SIZE 0)" ird]
    unfolding tap(1) cap frames through fst_conv snd_conv zeros length_replicate by blast
  define m' where "m' = (VMEModule_start m)\<lparr>io_vcc := s'\<rparr>"
  have io: "io_vcc m' = s'" "theSlot m' = theSlot m" by (simp_all add: m'_def io_start)
  have again: "start (theSlot m) TMB_board s' = s'" by (rule start_again) (simp add: s'(1) s_def)
  have "port_scan (vme_port link) reg bytes n (replicate MAX_BUFFER_SIZE 0) ird m = (map sint got, m')"
    using scan by (simp add: vme_port_def TMB_scan_def Let_def io_start m'_def reg_code_def s_def)
  moreover have "map sint got = (if ird then packCharBuffer (vme_captured b reg m) n (replicate MAX_BUFFER_SIZE 0)
       else replicate MAX_BUFFER_SIZE 0)"
    using got scanned_bytes[OF bits n(3) small(2), of got] by (cases ird) simp_all
  moreover have "jtag_ready link bus b m'"
    unfolding jtag_ready_def io_start io again board_tap_def
    using chips s' dr by (simp add: drives_config[OF s'(1)])
  moreover have "vme_wrote b reg (frames_of bytes n) m m'"
    using s'(3) by (simp add: vme_wrote_def board_tap_def io)
  ultimately show ?thesis by (intro exI[of _ m'] conjI) (simp_all only:)
qed

lemma ok_write_frame: "io_vcc (SetALCTOkVMEWriteAddress f m) = (io_vcc m)\<lparr>ok_vme_write := f\<rparr>"
  "theSlot (SetALCTOkVMEWriteAddress f m) = theSlot m"
  by (simp_all add: SetALCTOkVMEWriteAddress_def on_vcc_def)

lemma ok_write_ready: "jtag_ready link bus b m \<Longrightarrow> jtag_ready link bus b (SetALCTOkVMEWriteAddress f m)"
  by (simp add: jtag_ready_def io_start ok_write_frame board_tap_def idle_def start_def Let_def drives_def)

interpretation vme: scan_chain "vme_port link" "jtag_ready link bus b" "vme_captured b" "vme_wrote b"
  for link :: "'w link" and bus :: "'w bus" and b :: "('r, 'w) jtag_board"
proof unfold_locales
  fix m :: "'w tmb_io" and r :: scan_register
  assume "jtag_ready link bus b m"
  then show "is_bits (vme_captured b r m)"
    by (auto simp: jtag_ready_def chips_ok_def vme_captured_def scan_capture_def)
next
  fix m :: "'w tmb_io" and bytes :: "int list" and n :: nat
  assume "jtag_ready link bus b m" and "length bytes = MAX_BUFFER_SIZE" and "0 < n" and "n \<le> MAX_NUM_FRAMES"
    and "n = length (vme_captured b DATA_REGISTER m)"
  with TMB_scan_scans[of link bus b m n DATA_REGISTER bytes True]
  show "\<exists>h'. port_scan (vme_port link) DATA_REGISTER bytes n (replicate MAX_BUFFER_SIZE 0) True m =
      (packCharBuffer (vme_captured b DATA_REGISTER m) n (replicate MAX_BUFFER_SIZE 0), h') \<and>
      jtag_ready link bus b h' \<and> vme_wrote b DATA_REGISTER (frames_of bytes n) m h'" by simp
next
  fix m :: "'w tmb_io" and bytes :: "int list" and n :: nat
  assume "jtag_ready link bus b m" and "length bytes = MAX_BUFFER_SIZE" and "0 < n" and "n \<le> MAX_NUM_FRAMES"
    and "n = length (vme_captured b INSTR_REGISTER m)"
  with TMB_scan_scans[of link bus b m n INSTR_REGISTER bytes False]
  show "\<exists>h'. port_scan (vme_port link) INSTR_REGISTER bytes n (replicate MAX_BUFFER_SIZE 0) False m =
      (replicate MAX_BUFFER_SIZE 0, h') \<and>
      jtag_ready link bus b h' \<and> vme_wrote b INSTR_REGISTER (frames_of bytes n) m h'" by simp
next
  fix m :: "'w tmb_io" and f r
  assume "jtag_ready link bus b m"
  then show "jtag_ready link bus b (port_ok_vme (vme_port link) f m) \<and>
      vme_captured b r (port_ok_vme (vme_port link) f m) = vme_captured b r m"
    using ok_write_ready[of link bus b m f] by (simp add: vme_port_def vme_captured_def board_tap_def ok_write_frame)
qed


section \<open>Property\<close>

text \<open>C31. A register of a chip behind the VME controller: \<^verbatim>\<open>ShfIR_ShfDR\<close> of the JTAG class, through the
  port of the TMB, the bit-banged scans and the packets, loads the opcode frames into the instruction
  registers and then the given bits into the register the chips offer for them, padded for the chips
  in bypass. It gets back what the selected chip held, and leaves the board ready for the next one.\<close>

theorem jtag_over_vme:
  assumes ready: "jtag_ready link bus b m" and chain: "0 \<le> jtag_chain j" "sel < devices_in_chain j"
    and wd: "is_bits wd" "length wd = len" "0 < len"
    and ir: "length (capture_ir (jb_chips b) (tap_regs (board_tap b m))) = length (ir_frames j (int sel) opc)"
      "0 < length (ir_frames j (int sel) opc)" "length (ir_frames j (int sel) opc) \<le> MAX_NUM_FRAMES"
    and selected: "regs = update_ir (jb_chips b) (ir_frames j (int sel) opc) (tap_regs (board_tap b m))"
    and dr: "length (capture_dr (jb_chips b) regs) = devices_in_chain j - 1 + len"
      "devices_in_chain j - 1 + len \<le> MAX_NUM_FRAMES"
  shows "\<exists>j' m'. ShfIR_ShfDR (vme_port link) (int sel) opc len wd (j, m) = (j', m') \<and> jtag_ready link bus b m' \<and>
    tap_regs (board_tap b m') =
      update_dr (jb_chips b) (replicate (devices_in_chain j - sel - 1) 0 @ wd @ replicate sel 0) regs \<and>
    take len (chip_tdo_in_bits j') =
      take len (drop (devices_in_chain j - sel - 1) (capture_dr (jb_chips b) regs))"
proof -
  have ok: "board_tap b (port_ok_vme (vme_port link) f x) = board_tap b x" for f x
    by (simp add: vme_port_def board_tap_def ok_write_frame)
  have cap: "vme_captured b INSTR_REGISTER x = capture_ir (jb_chips b) (tap_regs (board_tap b x))"
    "vme_captured b DATA_REGISTER x = capture_dr (jb_chips b) (tap_regs (board_tap b x))" for x
    by (simp_all add: vme_captured_def scan_capture_def reg_code_def)
  have instr: "tap_regs (board_tap b x) = regs"
    if "vme_wrote b INSTR_REGISTER (ir_frames j (int sel) opc) (port_ok_vme (vme_port link) True m) x" for x
    using that by (simp add: vme_wrote_def scan_update_def reg_code_def ok selected)
  obtain j' h1 h2 where run: "ShfIR_ShfDR (vme_port link) (int sel) opc len wd (j, m) =
      (j', port_ok_vme (vme_port link) False h2)" "jtag_ready link bus b h2"
    and 1: "vme_wrote b INSTR_REGISTER (ir_frames j (int sel) opc) (port_ok_vme (vme_port link) True m) h1"
    and 2: "vme_wrote b DATA_REGISTER (replicate (devices_in_chain j - sel - 1) 0 @ wd @ replicate sel 0) h1 h2"
    and 3: "take len (chip_tdo_in_bits j') = take len (drop (devices_in_chain j - sel - 1) (vme_captured b DATA_REGISTER h1))"
    using vme.ShfIR_ShfDR_register[OF ready chain wd ir[folded cap(1)] _ dr(2)] instr dr(1)
    unfolding cap(2) by metis
  have "tap_regs (board_tap b h2) =
      update_dr (jb_chips b) (replicate (devices_in_chain j - sel - 1) 0 @ wd @ replicate sel 0) regs"
    using 2 instr[OF 1] by (simp add: vme_wrote_def scan_update_def reg_code_def)
  moreover have "jtag_ready link bus b (port_ok_vme (vme_port link) False h2)"
    using ok_write_ready[OF run(2)] by (simp add: vme_port_def)
  ultimately show ?thesis
    using run(1) 3 unfolding cap(2) instr[OF 1] by (intro exI conjI) (assumption | simp add: ok)+
qed

definition demo_io :: "int list \<Rightarrow> (bool \<times> int list tap) tmb_io" where
  "demo_io regs = \<lparr>io_vcc = (demo_vcc Run_Test_Idle regs)\<lparr>JtagBaseAddress := 0x10\<rparr>, theSlot = 3,
     JtagSource = 1, ucla_ldev = 6\<rparr>"

lemma demo_ready: "jtag_ready demo_link demo_bus demo_board (demo_io regs)"
proof -
  have "config (io_vcc (VMEModule_start (demo_io regs))) =
      config ((demo_vcc Run_Test_Idle regs)\<lparr>JtagBaseAddress := 0x10, vmeadd := 0x180000, board := TMB_board\<rparr>)"
    by (simp add: io_start demo_io_def start_def demo_vcc_def blank_vcc_def config_def)
  moreover have "drives demo_link demo_bus demo_board
      ((demo_vcc Run_Test_Idle regs)\<lparr>JtagBaseAddress := 0x10, vmeadd := 0x180000, board := TMB_board\<rparr>)"
    using demo_drives[of Run_Test_Idle regs] by (simp add: drives_def)
  ultimately have "drives demo_link demo_bus demo_board (io_vcc (VMEModule_start (demo_io regs)))"
    by (simp only: drives_config[of "io_vcc (VMEModule_start (demo_io regs))"])
  moreover have "chips_ok (jb_chips demo_board)"
    by (auto simp: chips_ok_def demo_tap(2) demo_chips_def is_bits_def list_all_iff)
  ultimately show ?thesis
    using demo_idle[of Run_Test_Idle regs] demo_tap(1)[of Run_Test_Idle regs]
    by (simp add: jtag_ready_def demo_io_def board_tap_def idle_def)
qed

theorem jtag_over_vme_witness:
  "\<exists>j' m'. ShfIR_ShfDR (vme_port demo_link) 0 2 3 [1, 0, 1]
       (blank_jtag\<lparr>jtag_chain := 8, devices_in_chain := 1, bits_in_opcode := [2, 0, 0, 0, 0]\<rparr>, demo_io [0, 1, 1]) = (j', m') \<and>
     tap_regs (board_tap demo_board m') = [1, 0, 1] \<and> take 3 (chip_tdo_in_bits j') = [0, 1, 1]"
proof -
  define j where "j = blank_jtag\<lparr>jtag_chain := 8, devices_in_chain := 1, bits_in_opcode := [2, 0, 0, 0, 0]\<rparr>"
  have j: "jtag_chain j = 8" "devices_in_chain j = 1" "bits_in_opcode j = [2, 0, 0, 0, 0]" by (simp_all add: j_def)
  have regs: "tap_regs (board_tap demo_board (demo_io r)) = r" for r
    using demo_tap(1)[of Run_Test_Idle r] by (simp add: demo_io_def board_tap_def demo_board_def)
  have len: "length (ir_frames j 0 2) = 2" by (simp add: ir_frames_def j)
  then have "ir_frames j 0 2 \<noteq> []" by auto
  with len show ?thesis
    unfolding j_def[symmetric]
    using jtag_over_vme[OF demo_ready[of "[0, 1, 1]"], of j 0 "[1, 0, 1]" 3 2 "[0, 1, 1]"]
    by (auto simp: regs j demo_tap(2) demo_chips_def is_bits_def MAX_NUM_FRAMES_def)
qed

end
