(* ===== verification/Tmb_Board.thy ===== *)
theory Tmb_Board
  imports Tmb_Vme TMB_Configure
begin

text \<open>
  The register accesses of the TMB on the VME bus: both access routines reach the register of the
  board's slot, and what was proved of the configuration on an abstract board holds for a board behind
  the VME controller. The interface \<open>board_sim\<close> carries the configuration routines from one board to
  another that answers alike; it is interpreted on the controller and the plain bus.
\<close>

unbundle bit_operations_syntax

section \<open>One access\<close>

definition on_board :: "int \<Rightarrow> bool" where
  "on_board a \<longleftrightarrow> 0 \<le> a \<and> a < 0x80000"

definition flat :: "int \<Rightarrow> int \<Rightarrow> int" where
  "flat sl a = 0x80000 * sl + a"

definition board_address :: "int \<Rightarrow> int \<Rightarrow> 24 word" where
  "board_address sl a = word_of_int (flat sl a)"

definition vme_ready :: "'w link \<Rightarrow> 'w bus \<Rightarrow> 'w tmb_io \<Rightarrow> bool" where
  "vme_ready link bus m \<longleftrightarrow> vcc_serves link bus (hw_dest_addr (io_vcc m)) \<and> idle (io_vcc m) \<and>
     1 \<le> theSlot m \<and> theSlot m < 24"

lemma slot_or:
  assumes "1 \<le> sl" and "sl < 24" and "0 \<le> a" and "a < 0x80000"
  shows "(word_of_int (push_bit 19 sl) OR word_of_int a :: 32 word) = word_of_int (flat sl a)"
proof -
  have "push_bit 19 sl OR a = take_bit 19 a + push_bit 19 sl"
    using concat_bit_eq[of 19 a sl] assms(3,4) by (simp add: concat_bit_def take_bit_int_eq_self or.commute)
  moreover have "take_bit 19 a = a" using assms(3,4) by (simp add: take_bit_int_eq_self)
  ultimately have "push_bit 19 sl OR a = flat sl a" by (simp add: push_bit_eq_mult flat_def)
  moreover have "(word_of_int (push_bit 19 sl) OR word_of_int a :: 32 word) = word_of_int (push_bit 19 sl OR a)"
    by (rule bit_word_eqI) (simp add: bit_simps)
  ultimately show ?thesis by simp
qed

lemma slot_range:
  assumes "1 \<le> sl" and "sl < 24" and "on_board a"
  shows "(0x80000 :: 32 word) \<le> word_of_int (flat sl a)" "word_of_int (flat sl a) < (0xC00000 :: 32 word)"
    "ucast (word_of_int (flat sl a) :: 32 word) = board_address sl a"
proof -
  have b: "0x80000 \<le> flat sl a" "flat sl a < 0xC00000"
    using assms by (auto simp: on_board_def flat_def)
  then have u: "uint (word_of_int (flat sl a) :: 32 word) = flat sl a"
    by (simp add: uint_word_of_int_eq take_bit_int_eq_self)
  show "(0x80000 :: 32 word) \<le> word_of_int (flat sl a)" "word_of_int (flat sl a) < (0xC00000 :: 32 word)"
    using b u by (simp_all add: word_le_def word_less_def)
  show "ucast (word_of_int (flat sl a) :: 32 word) = board_address sl a"
    unfolding board_address_def by (rule bit_word_eqI) (simp add: bit_simps)
qed

text \<open>The controller after the module was started for an access.\<close>

definition accessing :: "'w tmb_io \<Rightarrow> 'w tmb_io" where
  "accessing m = VMEModule_start (tmb_start 1 jtagSourceBoot m)"

lemma initDevice_frame: "\<exists>v. initDevice i s = s\<lparr>pvme := v\<rparr>"
proof -
  have "\<exists>v. (case x of None \<Rightarrow> s | Some w \<Rightarrow> s\<lparr>pvme := w\<rparr>) = s\<lparr>pvme := v\<rparr>" for x
    by (cases x) (auto intro: exI[of _ "pvme s"])
  then show ?thesis unfolding initDevice_def .
qed

lemma accessing_frame:
  "idle (io_vcc (accessing m)) = idle (io_vcc m)" "crate (io_vcc (accessing m)) = crate (io_vcc m)"
  "hw_dest_addr (io_vcc (accessing m)) = hw_dest_addr (io_vcc m)"
  "vmeadd (io_vcc (accessing m)) = word_of_int (push_bit 19 (theSlot m))" "theSlot (accessing m) = theSlot m"
proof -
  obtain v where v: "initDevice 1 (start (theSlot m) TMB_board (SetupJtag TMB_ENUM jtagSourceBoot (io_vcc m))) =
      (start (theSlot m) TMB_board (SetupJtag TMB_ENUM jtagSourceBoot (io_vcc m)))\<lparr>pvme := v\<rparr>"
    using initDevice_frame by blast
  have io: "io_vcc (accessing m) = start (theSlot m) TMB_board
      (initDevice 1 (start (theSlot m) TMB_board (SetupJtag TMB_ENUM jtagSourceBoot (io_vcc m))))"
    by (simp add: accessing_def VMEModule_start_def tmb_start_def tmb_start0_def on_vcc_def Let_def)
  show "idle (io_vcc (accessing m)) = idle (io_vcc m)" "crate (io_vcc (accessing m)) = crate (io_vcc m)"
    "hw_dest_addr (io_vcc (accessing m)) = hw_dest_addr (io_vcc m)"
    "vmeadd (io_vcc (accessing m)) = word_of_int (push_bit 19 (theSlot m))"
    unfolding io v by (simp_all add: start_def SetupJtag_def Let_def idle_def)
  show "theSlot (accessing m) = theSlot m"
    by (simp add: accessing_def VMEModule_start_def tmb_start_def tmb_start0_def on_vcc_def Let_def)
qed

lemma access_call:
  assumes "vme_ready link bus m" and "on_board a" and "irdwr = 2 \<or> irdwr = 3"
    and "bus_op bus (if irdwr = 2 then Vread (board_address (theSlot m) a) else Vwrite (board_address (theSlot m) a) d)
      ([], crate (io_vcc m)) = (rs, w)"
  shows "\<exists>s'. vme_controller link irdwr (vmeadd (io_vcc (accessing m)) OR word_of_int a) [d] (io_vcc (accessing m)) =
      (int (length rs), word_bytes rs, s') \<and> crate s' = w \<and> vme_ready link bus ((accessing m)\<lparr>io_vcc := s'\<rparr>)"
proof -
  let ?s = "io_vcc (accessing m)"
  have slot: "1 \<le> theSlot m" "theSlot m < 24" using assms(1) by (simp_all add: vme_ready_def)
  have a: "0 \<le> a" "a < 0x80000" using assms(2) by (simp_all add: on_board_def)
  have ptr: "vmeadd ?s OR word_of_int a = word_of_int (flat (theSlot m) a)"
    unfolding accessing_frame by (rule slot_or[OF slot a])
  note range = slot_range[OF slot assms(2)]
  have legal: "legal irdwr (vmeadd ?s OR word_of_int a) [d]"
    unfolding ptr legal_def using range(1,2) assms(3) by auto
  have serves: "vcc_serves link bus (hw_dest_addr ?s)" using assms(1) by (simp add: vme_ready_def accessing_frame)
  have rep: "represents bus ?s [] (crate (io_vcc m))"
    using idle_represents[of ?s bus] assms(1) by (simp add: vme_ready_def accessing_frame)
  have op: "bus_op bus (op_of irdwr (vmeadd ?s OR word_of_int a) [d]) ([], crate (io_vcc m)) = (rs, w)"
    using assms(3,4) by (auto simp: op_of_def ptr range(3))
  obtain ret rcv s' where call: "vme_controller link irdwr (vmeadd ?s OR word_of_int a) [d] ?s = (ret, rcv, s')"
    by (metis prod.collapse)
  have res: "ret = int (length rs)" "rcv = word_bytes rs" "idle s'" "crate s' = w" "config s' = config ?s"
    using vme_controller_step[OF serves rep legal op] assms(3) by (auto simp: call call_result_def sends_def)
  have "hw_dest_addr s' = hw_dest_addr (io_vcc m)"
    using hw_dest_config[OF res(5)] by (simp add: accessing_frame)
  then have "vme_ready link bus ((accessing m)\<lparr>io_vcc := s'\<rparr>)"
    using assms(1) res by (simp add: vme_ready_def accessing_frame)
  then show ?thesis using call res by auto
qed

lemma new_vme_call:
  "tmb_vme_access link VME_READ a d NOW m =
     (let (ret, got, s) = vme_controller link 2 (vmeadd (io_vcc (accessing m)) OR a) [d] (io_vcc (accessing m))
      in (got, (accessing m)\<lparr>io_vcc := s\<rparr>))"
  "tmb_vme_access link VME_WRITE a d NOW m =
     (let (ret, got, s) = vme_controller link 3 (vmeadd (io_vcc (accessing m)) OR a) [d] (io_vcc (accessing m))
      in (got, (accessing m)\<lparr>io_vcc := s\<rparr>))"
  by (simp_all add: tmb_vme_access_def new_vme_def VME_READ_def VME_WRITE_def NOW_def Let_def accessing_def)

section \<open>The two access routines\<close>

lemma old_vme_call:
  "tmb_vme link VME_READ v snd_data rcv NOW m =
     (let (ret, got, s) = vme_controller link 2 (vmeadd (io_vcc (accessing m)) OR ucast v) [0] (io_vcc (accessing m))
      in (swap01 (store got rcv), (accessing m)\<lparr>io_vcc := s\<rparr>))"
  "tmb_vme link VME_WRITE v snd_data rcv NOW m =
     (let (ret, got, s) = vme_controller link 3 (vmeadd (io_vcc (accessing m)) OR ucast v) [two_bytes snd_data]
        (io_vcc (accessing m))
      in (store got rcv, (accessing m)\<lparr>io_vcc := s\<rparr>))"
  "tmb_vme link 5 v snd_data rcv NOW m =
     (let (ret, got, s) = vme_controller link 2 (vmeadd (io_vcc (accessing m)) OR 0x70000) [0] (io_vcc (accessing m))
      in (swap01 (store got rcv), (accessing m)\<lparr>io_vcc := s\<rparr>))"
  "tmb_vme link 6 v snd_data rcv NOW m =
     (let (ret, got, s) = vme_controller link 3 (vmeadd (io_vcc (accessing m)) OR 0x70000) [two_bytes snd_data]
        (io_vcc (accessing m))
      in (store got rcv, (accessing m)\<lparr>io_vcc := s\<rparr>))"
  by (simp_all add: tmb_vme_def do_vme_def VME_READ_def VME_WRITE_def NOW_def Let_def accessing_def split_beta)

lemma byte_masks: "bit (255 :: int) i \<longleftrightarrow> i < 8" "bit (65280 :: int) i \<longleftrightarrow> 8 \<le> i \<and> i < 16"
proof -
  have lo: "(255 :: int) = Bit_Operations.mask 8" by (simp add: mask_eq_exp_minus_1)
  have hi: "(65280 :: int) = push_bit 8 255" by (simp add: push_bit_eq_mult)
  show 1: "bit (255 :: int) i \<longleftrightarrow> i < 8" for i
    unfolding lo bit_mask_iff by auto
  show "bit (65280 :: int) i \<longleftrightarrow> 8 \<le> i \<and> i < 16"
    unfolding hi bit_push_bit_iff 1 by auto
qed

lemma two_bytes_word: "two_bytes [hi_byte d, lo_byte d] = d"
  by (rule bit_word_eqI) (auto simp: two_bytes_def bit_simps hi_byte_eq lo_byte_eq byte_masks)

lemma word_bytes_one: "word_bytes [x] = [lo_byte x, hi_byte x]"
  by (simp add: word_bytes_def)

lemma ucast_byte_of_int: "0 \<le> a \<Longrightarrow> a < 0x100 \<Longrightarrow> (ucast (word_of_int a :: byte) :: 32 word) = word_of_int a"
  by (simp add: unsigned_of_int take_bit_int_eq_self)

definition access_done :: "'w link \<Rightarrow> 'w bus \<Rightarrow> 'w tmb_io \<Rightarrow> 'w \<Rightarrow> 'w tmb_io \<Rightarrow> bool" where
  "access_done link bus m w m' \<longleftrightarrow> vme_ready link bus m' \<and> theSlot m' = theSlot m \<and> crate (io_vcc m') = w"

lemma access_result:
  assumes "vme_ready link bus m" and "on_board a" and "irdwr = 2 \<or> irdwr = 3"
    and "bus_op bus (if irdwr = 2 then Vread (board_address (theSlot m) a) else Vwrite (board_address (theSlot m) a) d)
      ([], crate (io_vcc m)) = (rs, w)"
  obtains s' where "vme_controller link irdwr (vmeadd (io_vcc (accessing m)) OR word_of_int a) [d] (io_vcc (accessing m)) =
      (int (length rs), word_bytes rs, s')" "access_done link bus m w ((accessing m)\<lparr>io_vcc := s'\<rparr>)"
proof -
  from access_call[OF assms] obtain s' where s': "vme_controller link irdwr (vmeadd (io_vcc (accessing m)) OR word_of_int a)
      [d] (io_vcc (accessing m)) = (int (length rs), word_bytes rs, s')" "crate s' = w"
    "vme_ready link bus ((accessing m)\<lparr>io_vcc := s'\<rparr>)" by blast
  then show thesis using that by (simp add: access_done_def accessing_frame)
qed

lemma new_read:
  assumes "vme_ready link bus m" and "on_board a"
    and "bus_read bus (board_address (theSlot m) a) (crate (io_vcc m)) = (x, w)"
  shows "\<exists>m'. tmb_vme_access link VME_READ (word_of_int a) d NOW m = ([lo_byte x, hi_byte x], m') \<and>
     access_done link bus m w m'"
proof -
  have "bus_op bus (if 2 = (2 :: int) then Vread (board_address (theSlot m) a) else Vwrite (board_address (theSlot m) a) d)
      ([], crate (io_vcc m)) = ([x], w)"
    using assms(3) by simp
  from access_result[OF assms(1,2) _ this] obtain s' where
    "vme_controller link 2 (vmeadd (io_vcc (accessing m)) OR word_of_int a) [d] (io_vcc (accessing m)) =
       (1, [lo_byte x, hi_byte x], s')"
    "access_done link bus m w ((accessing m)\<lparr>io_vcc := s'\<rparr>)"
    by (auto simp: word_bytes_one)
  then show ?thesis unfolding new_vme_call by simp
qed

lemma new_write:
  assumes "vme_ready link bus m" and "on_board a"
  shows "\<exists>m'. tmb_vme_access link VME_WRITE (word_of_int a) d NOW m = ([], m') \<and>
     access_done link bus m (bus_write bus (board_address (theSlot m) a) d (crate (io_vcc m))) m'"
proof -
  have "bus_op bus (if 3 = (2 :: int) then Vread (board_address (theSlot m) a) else Vwrite (board_address (theSlot m) a) d)
      ([], crate (io_vcc m)) = ([], bus_write bus (board_address (theSlot m) a) d (crate (io_vcc m)))"
    by simp
  from access_result[OF assms(1,2) _ this] obtain s' where
    "vme_controller link 3 (vmeadd (io_vcc (accessing m)) OR word_of_int a) [d] (io_vcc (accessing m)) = (0, [], s')"
    "access_done link bus m (bus_write bus (board_address (theSlot m) a) d (crate (io_vcc m))) ((accessing m)\<lparr>io_vcc := s'\<rparr>)"
    by auto
  then show ?thesis unfolding new_vme_call by simp
qed

lemma swap_two: "length rcv = 2 \<Longrightarrow> swap01 (store [x, y] rcv) = [y, x]"
  by (simp add: swap01_def store_def)

lemma old_read:
  assumes "vme_ready link bus m" and "0 \<le> a" and "a < 0x100" and "length rcv = 2"
    and "bus_read bus (board_address (theSlot m) a) (crate (io_vcc m)) = (x, w)"
  shows "\<exists>m'. tmb_vme link VME_READ (word_of_int a) snd_data rcv NOW m = ([hi_byte x, lo_byte x], m') \<and>
     access_done link bus m w m'"
proof -
  have on: "on_board a" using assms(2,3) by (simp add: on_board_def)
  have "bus_op bus (if 2 = (2 :: int) then Vread (board_address (theSlot m) a) else Vwrite (board_address (theSlot m) a) 0)
      ([], crate (io_vcc m)) = ([x], w)"
    using assms(5) by simp
  from access_result[OF assms(1) on _ this] obtain s' where
    "vme_controller link 2 (vmeadd (io_vcc (accessing m)) OR word_of_int a) [0] (io_vcc (accessing m)) =
       (1, [lo_byte x, hi_byte x], s')"
    "access_done link bus m w ((accessing m)\<lparr>io_vcc := s'\<rparr>)"
    by (auto simp: word_bytes_one)
  then show ?thesis
    unfolding old_vme_call ucast_byte_of_int[OF assms(2,3)] by (simp add: swap_two[OF assms(4)])
qed

lemma old_write:
  assumes "vme_ready link bus m" and "0 \<le> a" and "a < 0x100"
  shows "\<exists>m'. tmb_vme link VME_WRITE (word_of_int a) [hi_byte d, lo_byte d] rcv NOW m = (rcv, m') \<and>
     access_done link bus m (bus_write bus (board_address (theSlot m) a) d (crate (io_vcc m))) m'"
proof -
  have on: "on_board a" using assms(2,3) by (simp add: on_board_def)
  have "bus_op bus (if 3 = (2 :: int) then Vread (board_address (theSlot m) a) else Vwrite (board_address (theSlot m) a) d)
      ([], crate (io_vcc m)) = ([], bus_write bus (board_address (theSlot m) a) d (crate (io_vcc m)))"
    by simp
  from access_result[OF assms(1) on _ this] obtain s' where
    "vme_controller link 3 (vmeadd (io_vcc (accessing m)) OR word_of_int a) [d] (io_vcc (accessing m)) = (0, [], s')"
    "access_done link bus m (bus_write bus (board_address (theSlot m) a) d (crate (io_vcc m))) ((accessing m)\<lparr>io_vcc := s'\<rparr>)"
    by auto
  then show ?thesis
    unfolding old_vme_call ucast_byte_of_int[OF assms(2,3)] two_bytes_word by (simp add: store_def)
qed

section \<open>Boards that answer alike\<close>

text \<open>What the configuration routines need of two boards to end with the same object: related states
  give the same words for the addresses the routines read, and stay related.\<close>

locale board_sim =
  fixes rdv :: "'h vme_read" and wrv :: "'h vme_write"
    and rdv' :: "'g vme_read" and wrv' :: "'g vme_write"
    and related :: "'h \<Rightarrow> 'g \<Rightarrow> bool" and adrs :: "int set"
  assumes read_alike: "related h g \<Longrightarrow> a \<in> adrs \<Longrightarrow>
      fst (rdv a h) = fst (rdv' a g) \<and> related (snd (rdv a h)) (snd (rdv' a g))"
    and write_alike: "related h g \<Longrightarrow> a \<in> adrs \<inter> known_adrs \<Longrightarrow> 0 \<le> d \<Longrightarrow> d < 2 ^ 16 \<Longrightarrow>
      related (wrv a d h) (wrv' a d g)"
    and used: "set TMBConfigurationRegister \<subseteq> adrs"
      "{vme_idreg0_adr, vme_idreg1_adr, vme_idreg2_adr, vme_idreg3_adr, tmb_adr_boot, vme_dddsm_adr} \<subseteq> adrs"
begin

definition alike :: "tmb \<times> 'h \<Rightarrow> tmb \<times> 'g \<Rightarrow> bool" where
  "alike s s' \<longleftrightarrow> fst s = fst s' \<and> related (snd s) (snd s')"

lemma ReadRegister_alike:
  "alike s s' \<Longrightarrow> a \<in> adrs \<Longrightarrow>
     fst (ReadRegister rdv a s) = fst (ReadRegister rdv' a s') \<and> alike (snd (ReadRegister rdv a s)) (snd (ReadRegister rdv' a s'))"
  using read_alike[of "snd s" "snd s'" a] by (simp add: alike_def ReadRegister_def split_beta Let_def)

lemma read_registers_alike:
  "alike s s' \<Longrightarrow> set regs \<subseteq> adrs \<Longrightarrow> alike (read_registers rdv regs s) (read_registers rdv' regs s')"
  unfolding read_registers_def
  by (induction regs arbitrary: s s') (simp_all add: ReadRegister_alike)

lemma Firmware_alike:
  assumes "alike s s'"
  shows "alike (FirmwareDate rdv s) (FirmwareDate rdv' s')" "alike (FirmwareYear rdv s) (FirmwareYear rdv' s')"
    "alike (FirmwareVersion rdv s) (FirmwareVersion rdv' s')" "alike (FirmwareRevCode rdv s) (FirmwareRevCode rdv' s')"
    "alike (tmb_get_boot_reg rdv s) (tmb_get_boot_reg rdv' s')"
  using assms used(2) read_alike[of "snd s" "snd s'"]
  by (simp_all add: alike_def ReadRegister_def FirmwareDate_def FirmwareYear_def FirmwareVersion_def
      FirmwareRevCode_def tmb_get_boot_reg_def split_beta Let_def)

lemma ReadTMBConfiguration_alike:
  "alike s s' \<Longrightarrow> alike (ReadTMBConfiguration rdv s) (ReadTMBConfiguration rdv' s')"
  unfolding ReadTMBConfiguration_def using used(1) by (intro read_registers_alike Firmware_alike) auto

lemma check_reads_alike:
  assumes "alike (t, h) (t', h')"
  shows "fst (check_reads rdv k (ok, t, h)) = fst (check_reads rdv' k (ok, t', h')) \<and>
     alike (snd (check_reads rdv k (ok, t, h))) (snd (check_reads rdv' k (ok, t', h')))"
  using assms
proof (induction k arbitrary: ok t h t' h')
  case 0
  then show ?case by simp
next
  case (Suc k)
  let ?t = "t\<lparr>number_of_configuration_reads := number_of_configuration_reads t + 1\<rparr>"
  have t: "t' = t" "related h h'" using Suc.prems by (simp_all add: alike_def)
  then have "alike (?t, h) (?t, h')" by (simp add: alike_def)
  from ReadTMBConfiguration_alike[OF this] obtain t1 h1 h1' where
    "ReadTMBConfiguration rdv (?t, h) = (t1, h1)" "ReadTMBConfiguration rdv' (?t, h') = (t1, h1')"
    "alike (t1, h1) (t1, h1')"
    by (cases "ReadTMBConfiguration rdv (?t, h)", cases "ReadTMBConfiguration rdv' (?t, h')") (auto simp: alike_def)
  with Suc.IH[of t1 h1 t1 h1'] Suc.prems show ?case by (simp add: t)
qed

lemma CheckTMBConfiguration_alike:
  "alike s s' \<Longrightarrow> alike (CheckTMBConfiguration rdv n s) (CheckTMBConfiguration rdv' n s')"
  using check_reads_alike[of "(fst s)\<lparr>number_of_configuration_reads := 0\<rparr>" "snd s"
      "(fst s')\<lparr>number_of_configuration_reads := 0\<rparr>" "snd s'" n False]
  by (simp add: CheckTMBConfiguration_def alike_def split_beta)

lemma tmb_vme_write_alike:
  assumes "alike s s'" and "a \<in> adrs \<inter> known_adrs"
  shows "alike (tmb_vme_write wrv a d s) (tmb_vme_write wrv' a d s')"
proof -
  have "0 \<le> take_bit 16 d" "take_bit 16 d < 2 ^ 16" by simp (rule take_bit_int_less_exp)
  then show ?thesis
    using assms write_alike[of "snd s" "snd s'" a "take_bit 16 d"] by (simp add: alike_def tmb_vme_write_def Let_def)
qed

lemma WriteRegister_alike:
  "alike s s' \<Longrightarrow> a \<in> adrs \<Longrightarrow> alike (WriteRegister wrv a s) (WriteRegister wrv' a s')"
proof (cases "a \<in> known_adrs")
  case True
  assume *: "alike s s'" "a \<in> adrs"
  then have "fst s' = fst s" by (simp add: alike_def)
  with * True tmb_vme_write_alike[of s s' a] show ?thesis by (simp add: WriteRegister_def Let_def)
qed (simp add: WriteRegister_unknown)

lemma configured_alike:
  assumes "alike s s'"
  shows "alike (configured wrv s) (configured wrv' s')"
proof -
  have fold: "alike (fold (WriteRegister wrv) regs r) (fold (WriteRegister wrv') regs r')"
    if "alike r r'" "set regs \<subseteq> adrs" for regs r r'
    using that by (induction regs arbitrary: r r') (simp_all add: WriteRegister_alike)
  have dddsm: "vme_dddsm_adr \<in> adrs \<inter> known_adrs"
    using used(2) by (simp add: known_adrs_def fill_table_def adr_defs)
  have "alike (configure_begin False (fst s), snd s) (configure_begin False (fst s'), snd s')"
    using assms by (simp add: alike_def)
  from fold[OF this used(1)]
  have 1: "alike (configure_registers wrv (configure_begin False (fst s), snd s))
      (configure_registers wrv' (configure_begin False (fst s'), snd s'))"
    by (simp add: configure_registers_def)
  have "alike (start_ddd wrv r) (start_ddd wrv' r')" if "alike r r'" for r r'
  proof -
    have "fst r' = fst r" using that by (simp add: alike_def)
    then show ?thesis using that dddsm by (simp add: start_ddd_def tmb_vme_write_alike)
  qed
  from this[OF 1] show ?thesis by (simp add: configured_def)
qed

lemma configure2_alike:
  assumes "alike s s'"
  shows "alike (configure2 rdv wrv s) (configure2 rdv' wrv' s')"
proof -
  obtain t h h' where run: "configured wrv s = (t, h)" "configured wrv' s' = (t, h')" and r: "related h h'"
    using configured_alike[OF assms] by (cases "configured wrv s", cases "configured wrv' s'") (auto simp: alike_def)
  have "alike (CheckTMBConfiguration rdv 2 (t\<lparr>fill_vme_write_vecs := False\<rparr>, h))
      (CheckTMBConfiguration rdv' 2 (t\<lparr>fill_vme_write_vecs := False\<rparr>, h'))"
    by (rule CheckTMBConfiguration_alike) (simp add: alike_def r)
  then show ?thesis
    by (simp add: configure2_def run r alike_def Let_def flip: configured_def)
qed

end

section \<open>The board behind the controller\<close>

text \<open>How the TMB code reads and writes a register: the firmware identity through the old routine, the
  boot register at its own place, everything else through \<^verbatim>\<open>tmb_vme_new\<close>. A read ignores the data.\<close>

definition bytes_value :: "byte \<Rightarrow> byte \<Rightarrow> int" where
  "bytes_value hi lo = push_bit 8 (uint hi) OR uint lo"

definition vme_rdv :: "'w link \<Rightarrow> 'w tmb_io vme_read" where
  "vme_rdv link a m =
     (if a = tmb_adr_boot then boot_reg_word link m
      else if a \<in> {vme_idreg0_adr, vme_idreg2_adr, vme_idreg3_adr} then
        (let (rcv, m) = tmb_vme link VME_READ (word_of_int a) [0, 0] [0, 0] NOW m
         in (bytes_value (rcv ! 0) (rcv ! 1), m))
      else
        (let (rcv, m) = tmb_vme_access link VME_READ (word_of_int a) 0 NOW m
         in (bytes_value (rcv ! 1) (rcv ! 0), m)))"

definition vme_wrv :: "'w link \<Rightarrow> 'w tmb_io vme_write" where
  "vme_wrv link a d m = snd (tmb_vme_access link VME_WRITE (word_of_int a) (word_of_int d) NOW m)"

text \<open>The same registers on the bus, without the controller. Addresses the routines do not use are kept
  in a memory of their own, since the bus does not tell all addresses apart.\<close>

definition reg_place :: "int \<Rightarrow> int \<Rightarrow> 24 word" where
  "reg_place sl a = board_address sl (if a = tmb_adr_boot then 0x70000 else a)"

definition used_adrs :: "int set" where
  "used_adrs = set TMBConfigurationRegister \<union>
     {vme_idreg0_adr, vme_idreg1_adr, vme_idreg2_adr, vme_idreg3_adr, tmb_adr_boot, vme_dddsm_adr}"

definition bus_rdv :: "'w bus \<Rightarrow> int \<Rightarrow> ('w \<times> (int \<Rightarrow> int)) vme_read" where
  "bus_rdv bus sl a h =
     (if a \<in> used_adrs then (let (x, w) = bus_read bus (reg_place sl a) (fst h) in (uint x, (w, snd h)))
      else (snd h a, h))"

definition bus_wrv :: "'w bus \<Rightarrow> int \<Rightarrow> ('w \<times> (int \<Rightarrow> int)) vme_write" where
  "bus_wrv bus sl a d h =
     (if a \<in> used_adrs then (bus_write bus (reg_place sl a) (word_of_int d) (fst h), snd h)
      else (fst h, (snd h)(a := d)))"

lemma bytes_value_word: "bytes_value (hi_byte x) (lo_byte x) = uint x"
proof (rule int_eq_by_bits)
  fix i
  show "bit (bytes_value (hi_byte x) (lo_byte x)) i = bit (uint x) i"
    by (auto simp: bytes_value_def hi_byte_eq lo_byte_eq bit_simps bit_uint_iff dest: bit_imp_le_length)
qed

lemma boot_value: "uint ((ucast (lo_byte x) AND 0xff) OR push_bit 8 (ucast (hi_byte x)) :: 16 word) = uint x"
proof -
  have "((ucast (lo_byte x) AND 0xff) OR push_bit 8 (ucast (hi_byte x)) :: 16 word) = x"
    by (rule bit_word_eqI) (auto simp: bit_simps hi_byte_eq lo_byte_eq byte_masks)
  then show ?thesis by simp
qed

lemma used_places:
  assumes "a \<in> used_adrs" and "a \<noteq> tmb_adr_boot"
  shows "0 \<le> a" "a < 0x200"
proof -
  have "list_all (\<lambda>a. 0 \<le> a \<and> a < 0x200) TMBConfigurationRegister"
    by (simp add: TMBConfigurationRegister_def adr_defs)
  then have "(0 \<le> a \<and> a < 0x200) \<or> a \<in> {vme_idreg0_adr, vme_idreg1_adr, vme_idreg2_adr, vme_idreg3_adr, vme_dddsm_adr}"
    using assms by (auto simp: used_adrs_def list_all_iff)
  then show "0 \<le> a" "a < 0x200" by (auto simp: adr_defs)
qed

lemma boot_read:
  assumes "vme_ready link bus m" and "bus_read bus (board_address (theSlot m) 0x70000) (crate (io_vcc m)) = (x, w)"
  shows "\<exists>m'. boot_reg_word link m = (uint x, m') \<and> access_done link bus m w m'"
proof -
  have "bus_op bus (if 2 = (2 :: int) then Vread (board_address (theSlot m) 0x70000) else Vwrite (board_address (theSlot m) 0x70000) 0)
      ([], crate (io_vcc m)) = ([x], w)"
    using assms(2) by simp
  from access_result[OF assms(1) _ _ this] obtain s' where
    "vme_controller link 2 (vmeadd (io_vcc (accessing m)) OR 0x70000) [0] (io_vcc (accessing m)) =
       (1, [lo_byte x, hi_byte x], s')"
    "access_done link bus m w ((accessing m)\<lparr>io_vcc := s'\<rparr>)"
    by (auto simp: word_bytes_one on_board_def)
  then show ?thesis
    unfolding boot_reg_word_def old_vme_call by (simp add: swap_two boot_value)
qed

lemma vme_rdv_bus:
  assumes "vme_ready link bus m" and "a \<in> used_adrs"
    and "bus_read bus (reg_place (theSlot m) a) (crate (io_vcc m)) = (x, w)"
  shows "\<exists>m'. vme_rdv link a m = (uint x, m') \<and> access_done link bus m w m'"
proof (cases "a = tmb_adr_boot")
  case True
  with boot_read[OF assms(1)] assms(3) show ?thesis by (simp add: vme_rdv_def reg_place_def)
next
  case False
  note bounds = used_places[OF assms(2) False]
  have place: "bus_read bus (board_address (theSlot m) a) (crate (io_vcc m)) = (x, w)"
    using assms(3) False by (simp add: reg_place_def)
  show ?thesis
  proof (cases "a \<in> {vme_idreg0_adr, vme_idreg2_adr, vme_idreg3_adr}")
    case True
    then have "a < 0x100" by (auto simp: adr_defs)
    from old_read[OF assms(1) bounds(1) this _ place, of "[0, 0]" "[0, 0]"] True False
    show ?thesis by (auto simp: vme_rdv_def bytes_value_word)
  next
    case other: False
    have "on_board a" using bounds by (simp add: on_board_def)
    from new_read[OF assms(1) this place, of 0] False other
    show ?thesis by (auto simp: vme_rdv_def bytes_value_word)
  qed
qed

lemma vme_wrv_bus:
  assumes "vme_ready link bus m" and "a \<in> used_adrs" and "a \<noteq> tmb_adr_boot"
  shows "access_done link bus m (bus_write bus (reg_place (theSlot m) a) (word_of_int d) (crate (io_vcc m))) (vme_wrv link a d m)"
proof -
  have "on_board a" using used_places[OF assms(2,3)] by (simp add: on_board_def)
  from new_write[OF assms(1) this, of "word_of_int d"] assms(3) show ?thesis
    by (auto simp: vme_wrv_def reg_place_def)
qed

definition mirrors :: "'w link \<Rightarrow> 'w bus \<Rightarrow> int \<Rightarrow> 'w tmb_io \<Rightarrow> 'w \<times> (int \<Rightarrow> int) \<Rightarrow> bool" where
  "mirrors link bus sl m g \<longleftrightarrow> vme_ready link bus m \<and> theSlot m = sl \<and> crate (io_vcc m) = fst g"

lemma boot_not_written: "tmb_adr_boot \<notin> known_adrs"
  by (simp add: known_adrs_def fill_table_def hcm_adrs_def phaser_table_def adr_defs)

interpretation conf: board_sim "vme_rdv link" "vme_wrv link" "bus_rdv bus sl" "bus_wrv bus sl" "mirrors link bus sl" used_adrs
  for link :: "'w link" and bus :: "'w bus" and sl :: int
proof unfold_locales
  fix m :: "'w tmb_io" and g a
  assume m: "mirrors link bus sl m g" and a: "a \<in> used_adrs"
  obtain x w where read: "bus_read bus (reg_place sl a) (fst g) = (x, w)" by fastforce
  with m vme_rdv_bus[of link bus m a x w] a
  show "fst (vme_rdv link a m) = fst (bus_rdv bus sl a g) \<and>
      mirrors link bus sl (snd (vme_rdv link a m)) (snd (bus_rdv bus sl a g))"
    by (auto simp: mirrors_def bus_rdv_def access_done_def)
next
  fix m :: "'w tmb_io" and g a d
  assume "mirrors link bus sl m g" and "a \<in> used_adrs \<inter> known_adrs"
  with vme_wrv_bus[of link bus m a d] boot_not_written
  show "mirrors link bus sl (vme_wrv link a d m) (bus_wrv bus sl a d g)"
    by (auto simp: mirrors_def bus_wrv_def access_done_def)
qed (auto simp: used_adrs_def)

section \<open>A crate whose TMB keeps its registers\<close>

text \<open>What a read of a register returns, and what the configuration needs of the registers it uses: a
  read changes nothing, a write leaves the other registers as they read - but 0x68 may follow 0x42 - and
  the register keeps its writable bits.\<close>

definition reg_view :: "'w bus \<Rightarrow> int \<Rightarrow> 'w \<Rightarrow> int \<Rightarrow> int" where
  "reg_view bus sl w a = uint (fst (bus_read bus (reg_place sl a) w))"

definition keeps_registers :: "'w bus \<Rightarrow> int \<Rightarrow> bool" where
  "keeps_registers bus sl \<longleftrightarrow>
     (\<forall>w. shows_copy (reg_view bus sl w)) \<and>
     (\<forall>a \<in> used_adrs. \<forall>w. snd (bus_read bus (reg_place sl a) w) = w) \<and>
     (\<forall>a \<in> used_adrs \<inter> known_adrs. \<forall>d w. let w' = bus_write bus (reg_place sl a) d w in
        (\<forall>b \<in> used_adrs. b \<noteq> a \<longrightarrow> leaves_alone a b (reg_view bus sl w b) (reg_view bus sl w' b)) \<and>
        register_keeps a (uint d) (reg_view bus sl w' a))"

definition plain_view :: "'w bus \<Rightarrow> int \<Rightarrow> 'w \<times> (int \<Rightarrow> int) \<Rightarrow> int \<Rightarrow> int" where
  "plain_view bus sl g a = (if a \<in> used_adrs then reg_view bus sl (fst g) a else snd g a)"

lemma uint_16: "0 \<le> uint (x :: 16 word)" "uint (x :: 16 word) < 2 ^ 16"
  using uint_bounded[of x] by simp_all

lemma keeps_registers_faithful:
  assumes "keeps_registers bus sl"
  shows "faithful_board (bus_rdv bus sl) (bus_wrv bus sl) (plain_view bus sl)"
proof -
  have keep: "snd (bus_read bus (reg_place sl a) w) = w" if "a \<in> used_adrs" for a w
    using assms that by (simp add: keeps_registers_def)
  have put: "b \<in> used_adrs \<Longrightarrow> b \<noteq> a \<Longrightarrow>
      leaves_alone a b (reg_view bus sl w b) (reg_view bus sl (bus_write bus (reg_place sl a) d w) b)"
    "register_keeps a (uint d) (reg_view bus sl (bus_write bus (reg_place sl a) d w) a)"
    if "a \<in> used_adrs" "a \<in> known_adrs" for a b d w
    using assms that unfolding keeps_registers_def Let_def by blast+
  have word: "vme_word (reg_view bus sl w a) = reg_view bus sl w a" for w a
    unfolding reg_view_def by (rule vme_word_id[OF uint_16])
  show ?thesis
    unfolding faithful_board_def
  proof (intro conjI allI ballI impI)
    fix g
    show "steady (bus_rdv bus sl) (plain_view bus sl g) g"
      by (auto simp: steady_def bus_rdv_def plain_view_def reg_view_def keep split_beta)
    have "seq_trig_en_adr \<in> used_adrs" "cfeb_inj_adr \<in> used_adrs"
      by (simp_all add: used_adrs_def TMBConfigurationRegister_def)
    then show "shows_copy (plain_view bus sl g)"
      using assms by (simp add: keeps_registers_def shows_copy_def plain_view_def Let_def)
  next
    fix a d g b assume "a \<in> known_adrs" "b \<noteq> (a :: int)"
    then show "leaves_alone a b (plain_view bus sl g b) (plain_view bus sl (bus_wrv bus sl a d g) b)"
      by (simp add: plain_view_def bus_wrv_def put(1)) (simp add: leaves_alone_def)
  next
    fix a d g assume *: "a \<in> known_adrs" "0 \<le> d" "d < (2 ^ 16 :: int)"
    then have "uint (word_of_int d :: 16 word) = d" by (simp add: uint_word_of_int_eq take_bit_int_eq_self)
    with * put(2)[of a "word_of_int d"]
    show "register_keeps a d (vme_word (plain_view bus sl (bus_wrv bus sl a d g) a))"
      by (auto simp: plain_view_def bus_wrv_def word vme_word_id register_keeps_same)
  qed
qed

lemma identity_used:
  assumes "\<And>a. a \<in> used_adrs \<Longrightarrow> D a = D' a"
  shows "identity_ok D t = identity_ok D' t"
proof -
  have fields: "list_all (\<lambda>f. vmereg f \<in> used_adrs) firmware_type_fields" "non_trig_readout_adr \<in> used_adrs"
    by (simp_all add: used_adrs_def firmware_type_fields_def TMBConfigurationRegister_def field_defs)
  then have "list_all (\<lambda>f. read_field (vme_word (D (vmereg f))) f = wr t f) firmware_type_fields =
      list_all (\<lambda>f. read_field (vme_word (D' (vmereg f))) f = wr t f) firmware_type_fields"
    using assms by (auto simp: list_all_iff)
  moreover have "D a = D' a" if "a \<in> {vme_idreg0_adr, vme_idreg1_adr, vme_idreg2_adr, vme_idreg3_adr, tmb_adr_boot}" for a
    using that by (intro assms) (auto simp: used_adrs_def)
  ultimately show ?thesis using assms[OF fields(2)] by (simp add: identity_ok_def firmware_of_def)
qed

text \<open>A crate of plain 16-bit registers, for concrete examples.\<close>

definition mem_bus :: "(24 word \<Rightarrow> 16 word) bus" where
  "mem_bus = \<lparr>bus_read = (\<lambda>a w. (w a, w)), bus_write = (\<lambda>a d w. w(a := d)), bus_wait = (\<lambda>t w. w)\<rparr>"

definition mem_link :: "(24 word \<Rightarrow> 16 word) link" where
  "mem_link = crate_controller mem_bus crate_address"

definition demo_tmb_io :: "(24 word \<Rightarrow> 16 word) \<Rightarrow> (24 word \<Rightarrow> 16 word) tmb_io" where
  "demo_tmb_io w = \<lparr>io_vcc = blank_vcc w, theSlot = 4, JtagSource = 1, ucla_ldev = 6\<rparr>"

lemma demo_crate_ready: "vme_ready (crate_controller bus crate_address) bus (demo_tmb_io w)"
proof -
  have "vcc_serves (crate_controller bus crate_address) bus crate_address"
    by (rule crate_controller_serves) (simp add: crate_address_def)
  then show ?thesis by (simp add: vme_ready_def demo_tmb_io_def blank_vcc_idle)
qed

lemma demo_vme_ready: "vme_ready mem_link mem_bus (demo_tmb_io w)"
  unfolding mem_link_def by (rule demo_crate_ready)

lemma reg_place_inj:
  assumes "a \<in> used_adrs" and "b \<in> used_adrs" and "reg_place 4 a = reg_place 4 b"
  shows "a = b"
proof -
  define p where "p c = (if c = tmb_adr_boot then 0x70000 else c)" for c
  have range: "0 \<le> p c \<and> p c \<le> 0x70000" if "c \<in> used_adrs" for c
    using used_places[OF that] by (auto simp: p_def)
  have "take_bit 24 (flat 4 (p a)) = take_bit 24 (flat 4 (p b))"
    using assms(3) by (simp add: reg_place_def board_address_def word_of_int_eq_iff flip: p_def)
  then have "p a = p b"
    using range[OF assms(1)] range[OF assms(2)] by (simp add: flat_def take_bit_int_eq_self)
  then show "a = b"
    using used_places[OF assms(1)] used_places[OF assms(2)] by (auto simp: p_def split: if_splits)
qed

text \<open>The same with register 0x68 of the TMB in slot 4.\<close>

definition tmb_registers :: "(24 word \<Rightarrow> 16 word) \<Rightarrow> int \<Rightarrow> int" where
  "tmb_registers w a = (if a \<in> used_adrs then uint (w (reg_place 4 a)) else 0)"

definition tmb_bus :: "(24 word \<Rightarrow> 16 word) bus" where
  "tmb_bus = \<lparr>bus_read = (\<lambda>p w. (if p = reg_place 4 seq_trig_en_adr
      then word_of_int (trig_en_word (tmb_registers w)) else w p, w)),
     bus_write = (\<lambda>a d w. w(a := d)), bus_wait = (\<lambda>t w. w)\<rparr>"

lemma tmb_bus_view: "a \<in> used_adrs \<Longrightarrow> reg_view tmb_bus 4 w a = tmb_view (tmb_registers w) a"
proof -
  assume a: "a \<in> used_adrs"
  have s: "seq_trig_en_adr \<in> used_adrs" by (simp add: used_adrs_def TMBConfigurationRegister_def)
  have "uint (word_of_int (trig_en_word h) :: 16 word) = trig_en_word h" for h
    using insert_fields_range by (simp add: uint_word_of_int_eq take_bit_int_eq_self trig_en_word_def Let_def)
  then show ?thesis
    using a reg_place_inj[OF a s] by (auto simp: reg_view_def tmb_bus_def tmb_view_def tmb_registers_def)
qed

lemma tmb_keeps_registers: "keeps_registers tmb_bus 4"
proof -
  have used: "seq_trig_en_adr \<in> used_adrs" "cfeb_inj_adr \<in> used_adrs"
    by (simp_all add: used_adrs_def TMBConfigurationRegister_def)
  have stored: "tmb_registers (bus_write tmb_bus (reg_place 4 a) d w) = (tmb_registers w)(a := uint d)"
    if "a \<in> used_adrs" for a d w
    using that reg_place_inj[OF _ that] by (auto simp: tmb_registers_def tmb_bus_def)
  have "register_keeps a (uint d) (tmb_view ((tmb_registers w)(a := uint d)) a)" for a w and d :: "16 word"
    using tmb_view_keeps[of "(tmb_registers w)(a := uint d)" "uint d"] uint_16[of d]
    by (cases "a = seq_trig_en_adr") (auto simp: tmb_view_def register_keeps_same)
  moreover have "shows_copy (reg_view tmb_bus 4 w)" for w
    using tmb_view_copy[of "tmb_registers w"] by (simp add: shows_copy_def tmb_bus_view[OF used(1)] tmb_bus_view[OF used(2)])
  moreover have "snd (bus_read tmb_bus p w) = w" for p w by (simp add: tmb_bus_def)
  ultimately show ?thesis by (simp add: keeps_registers_def tmb_bus_view stored tmb_view_other)
qed

section \<open>Properties\<close>

text \<open>C32. The two access routines of the TMB reach the same register of the board's slot. A read through
  \<^verbatim>\<open>tmb_vme_new\<close> stores the word low byte first, a read through \<^verbatim>\<open>tmb_vme\<close> high byte first; a write of
  the same word through either, as a number or as two bytes high first, changes the bus in the same
  way; and the boot register is read at 0x70000. After each of them the controller is ready again.\<close>

theorem register_access_routes:
  assumes "vme_ready link bus m" and "0 \<le> a" and "a < 0x100" and "length rcv = 2"
    and "bus_read bus (board_address (theSlot m) a) (crate (io_vcc m)) = (x, w)"
    and "bus_read bus (board_address (theSlot m) 0x70000) (crate (io_vcc m)) = (y, v)"
  shows "\<exists>m1 m2 m3 m4 m5.
     tmb_vme_access link VME_READ (word_of_int a) d NOW m = ([lo_byte x, hi_byte x], m1) \<and> access_done link bus m w m1 \<and>
     tmb_vme link VME_READ (word_of_int a) snd_data rcv NOW m = ([hi_byte x, lo_byte x], m2) \<and> access_done link bus m w m2 \<and>
     tmb_vme_access link VME_WRITE (word_of_int a) d NOW m = ([], m3) \<and>
       access_done link bus m (bus_write bus (board_address (theSlot m) a) d (crate (io_vcc m))) m3 \<and>
     tmb_vme link VME_WRITE (word_of_int a) [hi_byte d, lo_byte d] rcv NOW m = (rcv, m4) \<and>
       access_done link bus m (bus_write bus (board_address (theSlot m) a) d (crate (io_vcc m))) m4 \<and>
     boot_reg_word link m = (uint y, m5) \<and> access_done link bus m v m5"
proof -
  have on: "on_board a" using assms(2,3) by (simp add: on_board_def)
  show ?thesis
    using new_read[OF assms(1) on assms(5), of d] old_read[OF assms(1-5), of snd_data]
      new_write[OF assms(1) on, of d] old_write[OF assms(1-3), of d rcv] boot_read[OF assms(1,6)]
    by (elim exE) (intro exI conjI; blast)
qed

theorem register_access_routes_witness:
  "\<exists>m'. tmb_vme mem_link VME_READ 0x2A [0, 0] [0, 0] NOW (demo_tmb_io (\<lambda>a. 0xABCD)) = ([0xAB, 0xCD], m')"
proof -
  have "bus_read mem_bus a (crate (io_vcc (demo_tmb_io (\<lambda>a. 0xABCD)))) = (0xABCD, \<lambda>a. 0xABCD)" for a
    by (simp add: mem_bus_def demo_tmb_io_def blank_vcc_idle)
  from register_access_routes[OF demo_vme_ready _ _ _ this this, of "0x2A" "[0, 0]" 0 "[0, 0]"]
  have "\<exists>m'. tmb_vme mem_link VME_READ 0x2A [0, 0] [0, 0] NOW (demo_tmb_io (\<lambda>a. 0xABCD)) =
      ([hi_byte 0xABCD, lo_byte 0xABCD], m')" by auto
  moreover have "hi_byte 0xABCD = 0xAB" "lo_byte 0xABCD = 0xCD" by code_simp+
  ultimately show ?thesis by simp
qed

text \<open>C33. Configuring and checking a TMB through the VME controller. When the controller has nothing
  pending and the TMB in the slot keeps its registers, with 0x68 as in C1, \<^verbatim>\<open>configure(2)\<close>, with all its
  accesses as packets of the controller, ends with the status of C1: 1 exactly when the values fit and the
  identity read over the bus is the expected one. It leaves the controller ready for the next access.\<close>

theorem configure_over_vme:
  assumes "vme_ready link bus m" and "keeps_registers bus (theSlot m)" and "slot t < 22"
    and "list_all (\<lambda>p. 0 \<le> clock_delay t p \<and> clock_delay t p < 25) default_phasers"
  shows "tmb_configuration_status (fst (configure2 (vme_rdv link) (vme_wrv link) (t, m))) =
     (if fits t \<and>
         identity_ok (reg_view bus (theSlot m) (crate (io_vcc (snd (configured (vme_wrv link) (t, m)))))) t
      then 1 else 0) \<and>
     vme_ready link bus (snd (configure2 (vme_rdv link) (vme_wrv link) (t, m)))"
proof -
  let ?g = "(crate (io_vcc m), \<lambda>_. 0) :: 'a \<times> (int \<Rightarrow> int)" and ?sl = "theSlot m"
  have start: "conf.alike link bus ?sl (t, m) (t, ?g)"
    using assms(1) by (simp add: conf.alike_def mirrors_def)
  have run: "conf.alike link bus ?sl (configure2 (vme_rdv link) (vme_wrv link) (t, m))
      (configure2 (bus_rdv bus ?sl) (bus_wrv bus ?sl) (t, ?g))"
    by (rule conf.configure2_alike[OF start])
  have "crate (io_vcc (snd (configured (vme_wrv link) (t, m)))) = fst (snd (configured (bus_wrv bus ?sl) (t, ?g)))"
    using conf.configured_alike[OF start] by (simp add: conf.alike_def mirrors_def)
  then have "identity_ok (plain_view bus ?sl (snd (configured (bus_wrv bus ?sl) (t, ?g)))) t =
      identity_ok (reg_view bus ?sl (crate (io_vcc (snd (configured (vme_wrv link) (t, m)))))) t"
    by (intro identity_used) (simp add: plain_view_def)
  with configure2_verdict[OF keeps_registers_faithful[OF assms(2)] assms(3,4), of ?g] run
  show ?thesis by (simp add: conf.alike_def mirrors_def)
qed

theorem configure_over_vme_witness:
  "vme_ready (crate_controller tmb_bus crate_address) tmb_bus
     (snd (configure2 (vme_rdv (crate_controller tmb_bus crate_address)) (vme_wrv (crate_controller tmb_bus crate_address))
        (TMB_init 4 blank_tmb, demo_tmb_io (\<lambda>_. 0))))"
  using configure_over_vme[OF demo_crate_ready _ _ default_phases_in_range(1), of tmb_bus "\<lambda>_. 0" 4 blank_tmb]
    tmb_keeps_registers
  by (simp add: demo_tmb_io_def TMB_init_def SetTMBRegisterDefaults_def SetTMBFirmwareCompileType_def Let_def)

end
