(* ===== verification/Crc22.thy ===== *)
theory Crc22
  imports Prelude
begin

text \<open>
  The 22-bit check sum of the trigger data, computed twice in the program: \<^verbatim>\<open>TMB.cc\<close> takes 16 bits at a
  time (\<^verbatim>\<open>nextCRC22_D16\<close>, \<^verbatim>\<open>calCRC22\<close>), \<^verbatim>\<open>dduBinExaminer.cc\<close> one bit at a time. Both are proved equal to a
  shift register with feedback, and so to each other.
\<close>

unbundle bit_operations_syntax

section \<open>Sixteen bits at a time\<close>

definition xors :: "bool list \<Rightarrow> bool" where
  "xors bs = foldr (\<noteq>) bs False"

definition nextCRC22_D16 :: "16 word \<Rightarrow> 22 word \<Rightarrow> 22 word" where
  "nextCRC22_D16 D C = horner_sum of_bool 2
    [xors [bit D 0, bit C 6],
     xors [bit D 1, bit D 0, bit C 6, bit C 7],
     xors [bit D 2, bit D 1, bit C 7, bit C 8],
     xors [bit D 3, bit D 2, bit C 8, bit C 9],
     xors [bit D 4, bit D 3, bit C 9, bit C 10],
     xors [bit D 5, bit D 4, bit C 10, bit C 11],
     xors [bit D 6, bit D 5, bit C 11, bit C 12],
     xors [bit D 7, bit D 6, bit C 12, bit C 13],
     xors [bit D 8, bit D 7, bit C 13, bit C 14],
     xors [bit D 9, bit D 8, bit C 14, bit C 15],
     xors [bit D 10, bit D 9, bit C 15, bit C 16],
     xors [bit D 11, bit D 10, bit C 16, bit C 17],
     xors [bit D 12, bit D 11, bit C 17, bit C 18],
     xors [bit D 13, bit D 12, bit C 18, bit C 19],
     xors [bit D 14, bit D 13, bit C 19, bit C 20],
     xors [bit D 15, bit D 14, bit C 20, bit C 21],
     xors [bit D 15, bit C 0, bit C 21],
     bit C 1, bit C 2, bit C 3, bit C 4, bit C 5]"

text \<open>The sum leaves out the last four words. The code subtracts 4 from an unsigned size: with fewer
  words it runs out of the array (None).\<close>

definition calCRC22 :: "16 word list \<Rightarrow> 22 word option" where
  "calCRC22 datain =
     (if length datain < 4 then None
      else Some (fold nextCRC22_D16 (take (length datain - 4) datain) 0))"

definition TMBCRCcalc :: "16 word list \<Rightarrow> int option" where
  "TMBCRCcalc TMBData = map_option uint (calCRC22 TMBData)"

section \<open>One bit at a time\<close>

definition crc_bit :: "32 word \<Rightarrow> nat \<Rightarrow> 32 word \<Rightarrow> 32 word" where
  "crc_bit w i CRC =
     (let t = (drop_bit i w AND 1) XOR (drop_bit 21 CRC AND 1);
          ncrc = push_bit 1 CRC AND 0x3ffffc;
          ncrc = ncrc OR push_bit 1 (t XOR (CRC AND 1));
          ncrc = ncrc OR t
      in ncrc)"

definition crc_word :: "16 word \<Rightarrow> 32 word \<Rightarrow> 32 word" where
  "crc_word buf CRC = fold (crc_bit (ucast (buf AND 0x7fff))) (rev [0..<16]) CRC"

section \<open>The shift register\<close>

text \<open>A register of 22 bits, the lowest first. The bit that is fed back goes into the two lowest ones.\<close>

fun lfsr :: "bool \<Rightarrow> bool list \<Rightarrow> bool list" where
  "lfsr b [] = []"
| "lfsr b (c # cs) = (let t = (b \<noteq> List.last (c # cs)) in t # (t \<noteq> c) # butlast cs)"

definition word_bits :: "'a::len word \<Rightarrow> bool list" where
  "word_bits w = map (bit w) [0..<22]"

lemma word_bits_eq:
  fixes v w :: "22 word"
  shows "word_bits v = word_bits w \<longleftrightarrow> v = w"
  by (auto simp: word_bits_def intro: bit_word_eqI)

lemma upt_22: "[0..<22] = [0, 1, 2, 3, 4, 5, 6, 7, 8, 9, 10, 11, 12, 13, 14, 15, 16, 17, 18, 19, 20, 21]"
  by (simp add: upt_rec)

lemma word_bits_22: "word_bits w = [bit w 0, bit w 1, bit w 2, bit w 3, bit w 4, bit w 5, bit w 6, bit w 7, bit w 8,
    bit w 9, bit w 10, bit w 11, bit w 12, bit w 13, bit w 14, bit w 15, bit w 16, bit w 17, bit w 18, bit w 19,
    bit w 20, bit w 21]"
  by (simp add: word_bits_def upt_22)

lemma word_bits_horner: "length bs = 22 \<Longrightarrow> word_bits (horner_sum of_bool 2 bs :: 22 word) = bs"
  by (rule nth_equalityI) (simp_all add: word_bits_def bit_horner_sum_bit_word_iff)

definition lfsr_word :: "16 word \<Rightarrow> bool list \<Rightarrow> bool list" where
  "lfsr_word w cs = fold (\<lambda>i. lfsr (bit w i)) [15, 14, 13, 12, 11, 10, 9, 8, 7, 6, 5, 4, 3, 2, 1, 0] cs"

lemma lfsr_word_22:
  "lfsr_word D [c0, c1, c2, c3, c4, c5, c6, c7, c8, c9, c10, c11, c12, c13, c14, c15, c16, c17, c18, c19, c20, c21] =
    [xors [bit D 0, c6], xors [bit D 1, bit D 0, c6, c7], xors [bit D 2, bit D 1, c7, c8],
     xors [bit D 3, bit D 2, c8, c9], xors [bit D 4, bit D 3, c9, c10], xors [bit D 5, bit D 4, c10, c11],
     xors [bit D 6, bit D 5, c11, c12], xors [bit D 7, bit D 6, c12, c13], xors [bit D 8, bit D 7, c13, c14],
     xors [bit D 9, bit D 8, c14, c15], xors [bit D 10, bit D 9, c15, c16], xors [bit D 11, bit D 10, c16, c17],
     xors [bit D 12, bit D 11, c17, c18], xors [bit D 13, bit D 12, c18, c19], xors [bit D 14, bit D 13, c19, c20],
     xors [bit D 15, bit D 14, c20, c21], xors [bit D 15, c0, c21], c1, c2, c3, c4, c5]"
  unfolding lfsr_word_def by (simp add: Let_def xors_def) blast

lemma nextCRC22_lfsr: "word_bits (nextCRC22_D16 D C) = lfsr_word D (word_bits C)"
  unfolding nextCRC22_D16_def word_bits_22[of C] lfsr_word_22 by (rule word_bits_horner) simp

lemma bit_crc_mask: "bit (0x3ffffc :: 32 word) n \<longleftrightarrow> 2 \<le> n \<and> n < 22"
proof -
  have mask: "(0x3ffffc :: 32 word) = push_bit 2 (Bit_Operations.mask 20)"
    by (simp add: mask_eq_exp_minus_1 push_bit_eq_mult)
  show ?thesis unfolding mask bit_push_bit_iff bit_mask_iff by auto
qed

lemma bit_bool_word: "bit (of_bool b :: 'a::len word) n \<longleftrightarrow> n = 0 \<and> b"
  by (cases b) (simp_all add: bit_1_iff)

lemma crc_low_bit: "(drop_bit i w AND 1 :: 'a::len word) = of_bool (bit w i)"
  by (simp add: bit_iff_and_drop_bit_eq_1 and_one_eq odd_iff_mod_2_eq_one)

lemma bit_crc_bit:
  "bit (crc_bit w i CRC) n \<longleftrightarrow>
     (let t = (bit w i \<noteq> bit CRC 21) in
      if n = 0 then t else if n = 1 then t \<noteq> bit CRC 0 else n < 22 \<and> bit CRC (n - 1))"
proof -
  define t where "t = (bit w i \<noteq> bit CRC 21)"
  have t: "(drop_bit i w AND 1) XOR (drop_bit 21 CRC AND 1) = of_bool t"
    unfolding crc_low_bit by (rule bit_word_eqI) (auto simp: bit_bool_word bit_xor_iff t_def)
  have c: "CRC AND 1 = of_bool (bit CRC 0)" using crc_low_bit[of 0 CRC] by simp
  show ?thesis
    unfolding crc_bit_def Let_def t c t_def[symmetric] bit_or_iff bit_and_iff bit_push_bit_iff bit_bool_word
      bit_xor_iff bit_crc_mask
    by auto
qed

lemma lfsr_crc_bit: "word_bits (crc_bit w i CRC) = lfsr (bit w i) (word_bits CRC)"
  unfolding word_bits_22 by (simp add: bit_crc_bit Let_def)

lemma crc_bit_small: "drop_bit 22 (crc_bit w i CRC) = 0"
  by (rule bit_word_eqI) (simp add: bit_simps bit_crc_bit)

lemma upt_16: "rev [0..<16] = [15, 14, 13, 12, 11, 10, 9, 8, 7, 6, 5, 4, 3, 2, 1, 0]"
  by (simp add: upt_rec)

lemma crc_word_lfsr: "word_bits (crc_word buf CRC) = lfsr_word (buf AND 0x7fff) (word_bits CRC)"
proof -
  have "word_bits (fold (crc_bit v) is c) = fold (\<lambda>i. lfsr (bit v i)) is (word_bits c)" for v c "is"
    by (induction "is" arbitrary: c) (simp_all add: lfsr_crc_bit)
  then have "word_bits (crc_word buf CRC) =
      fold (\<lambda>i. lfsr (bit (ucast (buf AND 0x7fff) :: 32 word) i)) (rev [0..<16]) (word_bits CRC)"
    by (simp add: crc_word_def)
  moreover have "bit (ucast (buf AND 0x7fff) :: 32 word) i = bit (buf AND 0x7fff) i" for i
    by (auto simp: bit_simps dest: bit_imp_le_length)
  ultimately show ?thesis by (simp only: lfsr_word_def upt_16)
qed

lemma crc_word_small: "drop_bit 22 (crc_word buf CRC) = 0"
  unfolding crc_word_def upt_16 by (simp only: fold.simps comp_def crc_bit_small id_apply)

lemma drop_22_eq:
  fixes v :: "32 word" and w :: "22 word"
  assumes "drop_bit 22 v = 0" and "word_bits v = word_bits w"
  shows "v = ucast w"
proof (rule bit_word_eqI)
  fix n assume "n < LENGTH(32)"
  have high: "\<not> bit v n" if "22 \<le> n"
  proof -
    have "bit (drop_bit 22 v) (n - 22) = bit v n" using that by (simp add: bit_simps)
    then show ?thesis using assms(1) by simp
  qed
  have "n < 22 \<Longrightarrow> bit v n = bit w n" using assms(2) by (auto simp: word_bits_def)
  then show "bit v n = bit (ucast w :: 32 word) n"
    using high \<open>n < LENGTH(32)\<close> by (cases "n < 22") (auto simp: bit_simps dest: bit_imp_le_length)
qed

lemma word_bits_ucast: "word_bits (ucast (w :: 22 word) :: 32 word) = word_bits w"
  by (auto simp: word_bits_def bit_simps dest: bit_imp_le_length)

lemma crc_word_next: "crc_word buf (ucast C) = ucast (nextCRC22_D16 (buf AND 0x7fff) C)"
  by (rule drop_22_eq[OF crc_word_small])
    (simp only: crc_word_lfsr nextCRC22_lfsr word_bits_ucast)

section \<open>What the sum detects\<close>

lemma lfsr_inj:
  assumes "length cs = length ds" and eq: "lfsr b cs = lfsr b ds"
  shows "cs = ds"
proof (cases cs)
  case Nil
  then show ?thesis using assms(1) by simp
next
  case cs: (Cons c ct)
  then obtain d dt where ds: "ds = d # dt" using assms(1) by (cases ds) simp_all
  have l: "length ct = length dt" using assms(1) by (simp add: cs ds)
  have e: "lfsr b (c # ct) = lfsr b (d # dt)" using eq by (simp only: cs ds)
  have t: "(b \<noteq> List.last (c # ct)) = (b \<noteq> List.last (d # dt))" and but: "butlast ct = butlast dt"
    and c: "((b \<noteq> List.last (c # ct)) \<noteq> c) = ((b \<noteq> List.last (d # dt)) \<noteq> d)"
    using arg_cong[OF e, of hd] arg_cong[OF e, of "\<lambda>l. tl (tl l)"] arg_cong[OF e, of "\<lambda>l. hd (tl l)"]
    by (simp_all only: lfsr.simps Let_def list.sel)
  have last: "List.last (c # ct) = List.last (d # dt)" using t by (cases b) simp_all
  have "c = d" using c t by (cases "b \<noteq> List.last (d # dt)") simp_all
  moreover have "ct = dt"
  proof (cases "ct = []")
    case True
    then show ?thesis using l by simp
  next
    case False
    then have "dt \<noteq> []" using l by auto
    have "List.last ct = List.last dt" using last False \<open>dt \<noteq> []\<close> by simp
    then have "butlast ct @ [List.last ct] = butlast dt @ [List.last dt]" using but by (simp only:)
    then show ?thesis using append_butlast_last_id[OF False] append_butlast_last_id[OF \<open>dt \<noteq> []\<close>] by (simp only:)
  qed
  ultimately show ?thesis by (simp add: cs ds)
qed

lemma length_lfsr [simp]: "length (lfsr b cs) = (if length cs = 1 then 2 else length cs)"
  by (cases cs) (simp_all add: Let_def)

lemma fold_lfsr_inj:
  "length cs = 22 \<Longrightarrow> length ds = 22 \<Longrightarrow>
   fold (\<lambda>i. lfsr (bit D i)) is cs = fold (\<lambda>i. lfsr (bit D i)) is ds \<Longrightarrow> cs = ds"
proof (induction "is" arbitrary: cs ds)
  case (Cons i "is")
  have "lfsr (bit D i) cs = lfsr (bit D i) ds"
    by (rule Cons.IH) (use Cons.prems in \<open>simp_all only: length_lfsr fold.simps comp_def\<close>, simp_all)
  then show ?case using lfsr_inj[of cs ds "bit D i"] Cons.prems(1,2) by simp
qed simp

lemma length_word_bits [simp]: "length (word_bits w) = 22"
  by (simp add: word_bits_def)

lemma next_inj_C:
  assumes "nextCRC22_D16 D C = nextCRC22_D16 D C'"
  shows "C = C'"
proof -
  have "lfsr_word D (word_bits C) = lfsr_word D (word_bits C')"
    unfolding nextCRC22_lfsr[symmetric] assms ..
  then have "word_bits C = word_bits C'"
    unfolding lfsr_word_def by (rule fold_lfsr_inj[OF length_word_bits length_word_bits])
  then show ?thesis by (simp only: word_bits_eq)
qed

lemma bit_next:
  assumes "n < 16"
  shows "bit (nextCRC22_D16 D C) n \<longleftrightarrow>
    (if n = 0 then xors [bit D 0, bit C 6] else xors [bit D n, bit D (n - 1), bit C (n + 5), bit C (n + 6)])"
proof -
  have "n \<in> set [0..<16]" using assms by simp
  then have "n \<in> set [15, 14, 13, 12, 11, 10, 9, 8, 7, 6, 5, 4, 3, 2, 1, 0]"
    unfolding upt_16[symmetric] set_rev .
  then show ?thesis
    unfolding nextCRC22_D16_def bit_horner_sum_bit_word_iff list.set insert_iff
    by (elim disjE) (simp_all add: eval_nat_numeral)
qed

lemma xors_cancel: "xors (a # cs) = xors (b # cs) \<longleftrightarrow> a = b"
  by (auto simp: xors_def)

lemma next_inj_D:
  assumes "nextCRC22_D16 D C = nextCRC22_D16 D' C"
  shows "D = D'"
proof (rule bit_word_eqI)
  fix n assume "n < LENGTH(16)"
  then have "n < 16" by simp
  then show "bit D n = bit D' n"
  proof (induction n)
    case 0
    with bit_next[of 0 D C] bit_next[of 0 D' C] show ?case by (simp add: assms xors_cancel)
  next
    case (Suc n)
    with bit_next[of "Suc n" D C] bit_next[of "Suc n" D' C] show ?case by (simp add: assms xors_cancel)
  qed
qed

lemma fold_next_inj: "fold nextCRC22_D16 ws C = fold nextCRC22_D16 ws C' \<Longrightarrow> C = C'"
  by (induction ws arbitrary: C C') (auto dest: next_inj_C)

section \<open>Properties\<close>

text \<open>C34. The two programs compute the same check sum: over any words, the sum \<^verbatim>\<open>dduBinExaminer\<close> builds
  bit by bit (it drops the top bit of each word) is the sum \<^verbatim>\<open>TMB\<close> builds 16 bits at a time, from the
  words without their top bits. Both are the shift register of 22 bits with one feedback bit.\<close>

theorem crc22_implementations_agree:
  "fold crc_word ws 0 = ucast (fold nextCRC22_D16 (map (\<lambda>w. w AND 0x7fff) ws) 0) \<and>
   word_bits (fold nextCRC22_D16 ws C) = fold lfsr_word ws (word_bits C)"
proof
  have "fold crc_word ws (ucast C) = ucast (fold nextCRC22_D16 (map (\<lambda>w. w AND 0x7fff) ws) C)" for C
    by (induction ws arbitrary: C) (simp_all add: crc_word_next)
  from this[of 0] show "fold crc_word ws 0 = ucast (fold nextCRC22_D16 (map (\<lambda>w. w AND 0x7fff) ws) 0)" by simp
  show "word_bits (fold nextCRC22_D16 ws C) = fold lfsr_word ws (word_bits C)"
    by (induction ws arbitrary: C) (simp_all add: nextCRC22_lfsr)
qed

text \<open>C35. The sum detects every error within one word: when two readings of the trigger data have the
  same length and differ in a single word that the sum covers, in however many bits, their sums
  differ.\<close>

theorem crc22_detects_changed_word:
  assumes "w \<noteq> w'" and "4 \<le> length post"
  shows "TMBCRCcalc (pre @ w # post) \<noteq> TMBCRCcalc (pre @ w' # post) \<and>
     TMBCRCcalc (pre @ w # post) \<noteq> None"
proof -
  let ?post = "take (length post - 4) post"
  have len: "length post - 3 = Suc (length post - 4)" using assms(2) by simp
  have take: "take (length post - 3) (v # post) = v # ?post" for v unfolding len by simp
  have "fold nextCRC22_D16 (pre @ w # ?post) 0 \<noteq> fold nextCRC22_D16 (pre @ w' # ?post) 0"
    using assms(1) by (auto dest!: fold_next_inj next_inj_D)
  then show ?thesis using assms(2) by (simp add: TMBCRCcalc_def calCRC22_def take word_uint_eq_iff[symmetric])
qed

theorem crc22_detects_changed_word_witness:
  "TMBCRCcalc ([0x6b0c] @ 0x1234 # [0x6e0c, 1, 2, 0xde0f, 3]) \<noteq> TMBCRCcalc ([0x6b0c] @ 0x1235 # [0x6e0c, 1, 2, 0xde0f, 3])"
  using crc22_detects_changed_word[of "0x1234" "0x1235" "[0x6e0c, 1, 2, 0xde0f, 3]" "[0x6b0c]"] by simp

end
