(* ===== verification/Examiner.thy ===== *)
theory Examiner
  imports Crc22
begin

text \<open>
  The format checker of the event data, \<^verbatim>\<open>dduBinExaminer.cc\<close>. \<^verbatim>\<open>check\<close> reads 64-bit words (four words of
  16 bits) through a pipeline of four of them, looks for the headers and trailers of the data blocks in
  \<^verbatim>\<open>buf0\<close>, counts words and compares counts and check sums with those in the data. Every block of the
  code that looks for one header or trailer is one definition here, in the order of the code; printing is
  left out. The buffer is a list of 64-bit words; what lies before the pointer is kept, because the code
  goes back in it.
\<close>

unbundle bit_operations_syntax

section \<open>State\<close>

datatype quad = Quad (q0: "16 word") (q1: "16 word") (q2: "16 word") (q3: "16 word")

definition no_quad :: quad where "no_quad = Quad 0 0 0 0"

record examiner =
  bERROR :: "32 word"
  bWARNING :: "32 word"
  fERROR :: "nat \<Rightarrow> bool"
  fWARNING :: "nat \<Rightarrow> bool"
  fCHAMB_ERR :: "nat \<Rightarrow> int set"
  fCHAMB_WRN :: "nat \<Rightarrow> int set"
  bCHAMB_ERR :: "int \<rightharpoonup> 32 word"
  bCHAMB_WRN :: "int \<rightharpoonup> 32 word"
  currentChamber :: int
  buf_1 :: quad
  buf0 :: quad
  buf1 :: quad
  buf2 :: quad
  fDDU_Header :: bool
  fDDU_Trailer :: bool
  fDMB_Header :: bool
  fDMB_Trailer :: bool
  fALCT_Header :: bool
  fTMB_Header :: bool
  uniqueALCT :: bool
  uniqueTMB :: bool
  DAV_ALCT :: bool
  DAV_TMB :: bool
  DAV_CFEB :: int
  DAV_DMB :: int
  cntDDU_Headers :: "32 word"
  cntDDU_Trailers :: "32 word"
  cntCHAMB_Headers :: "int \<rightharpoonup> 32 word"
  cntCHAMB_Trailers :: "int \<rightharpoonup> 32 word"
  DDU_WordsSinceLastHeader :: "32 word"
  DDU_WordCount :: "32 word"
  DDU_WordsSinceLastTrailer :: "32 word"
  ALCT_WordsSinceLastHeader :: "32 word"
  ALCT_WordCount :: "32 word"
  ALCT_WordsExpected :: "32 word"
  TMB_WordsSinceLastHeader :: "32 word"
  TMB_WordCount :: "32 word"
  TMB_WordsExpected :: "32 word"
  TMB_Tbins :: "32 word"
  TMB_WordsExpectedCorrection :: "32 word"
  CFEB_SampleWordCount :: "32 word"
  CFEB_SampleCount :: "32 word"
  CFEB_BSampleCount :: "32 word"
  checkCrcALCT :: bool
  ALCT_CRC :: "32 word"
  checkCrcTMB :: bool
  TMB_CRC :: "32 word"
  checkCrcCFEB :: bool
  CFEB_CRC :: "32 word"

definition nERRORS :: nat where "nERRORS = 25"
definition nWARNINGS :: nat where "nWARNINGS = 5"

text \<open>Maps of the standard library: an access creates the entry.\<close>

definition mget :: "('k \<rightharpoonup> 32 word) \<Rightarrow> 'k \<Rightarrow> 32 word" where
  "mget m k = (case m k of None \<Rightarrow> 0 | Some v \<Rightarrow> v)"

definition mor :: "'k \<Rightarrow> 32 word \<Rightarrow> ('k \<rightharpoonup> 32 word) \<Rightarrow> ('k \<rightharpoonup> 32 word)" where
  "mor k v m = m(k \<mapsto> mget m k OR v)"

definition mcount :: "'k \<Rightarrow> ('k \<rightharpoonup> 32 word) \<Rightarrow> ('k \<rightharpoonup> 32 word)" where
  "mcount k m = m(k \<mapsto> mget m k + 1)"

text \<open>The constructor; the chamber and the two flags for repeated records are not set there.\<close>

definition dduBinExaminer :: "examiner \<Rightarrow> examiner" where
  "dduBinExaminer s = s\<lparr>
     fDDU_Header := False, fDDU_Trailer := False, fDMB_Header := False, fDMB_Trailer := False,
     fALCT_Header := False, fTMB_Header := False, cntDDU_Headers := 0, cntDDU_Trailers := 0,
     cntCHAMB_Headers := Map.empty, cntCHAMB_Trailers := Map.empty,
     DAV_ALCT := False, DAV_TMB := False, DAV_CFEB := 0, DAV_DMB := 0,
     DDU_WordsSinceLastHeader := 0, DDU_WordCount := 0, DDU_WordsSinceLastTrailer := 0,
     ALCT_WordsSinceLastHeader := 0, ALCT_WordCount := 0, ALCT_WordsExpected := 0,
     TMB_WordsSinceLastHeader := 0, TMB_WordCount := 0, TMB_WordsExpected := 0, TMB_Tbins := 0,
     TMB_WordsExpectedCorrection := 0, CFEB_SampleWordCount := 0, CFEB_SampleCount := 0,
     CFEB_BSampleCount := 0, checkCrcALCT := False, ALCT_CRC := 0, checkCrcTMB := False, TMB_CRC := 0,
     checkCrcCFEB := False, CFEB_CRC := 0, bERROR := 0, bWARNING := 0, fERROR := (\<lambda>_. False),
     fWARNING := (\<lambda>_. False), bCHAMB_ERR := Map.empty, bCHAMB_WRN := Map.empty,
     fCHAMB_ERR := (\<lambda>_. {}), fCHAMB_WRN := (\<lambda>_. {}),
     buf_1 := no_quad, buf0 := no_quad, buf1 := no_quad, buf2 := no_quad\<rparr>"

definition crcALCT :: "bool \<Rightarrow> examiner \<Rightarrow> examiner" where "crcALCT enable s = s\<lparr>checkCrcALCT := enable\<rparr>"
definition crcTMB :: "bool \<Rightarrow> examiner \<Rightarrow> examiner" where "crcTMB enable s = s\<lparr>checkCrcTMB := enable\<rparr>"
definition crcCFEB :: "bool \<Rightarrow> examiner \<Rightarrow> examiner" where "crcCFEB enable s = s\<lparr>checkCrcCFEB := enable\<rparr>"

text \<open>What the class tells its user.\<close>

definition errors :: "examiner \<Rightarrow> 32 word" where "errors s = bERROR s"
definition warnings :: "examiner \<Rightarrow> 32 word" where "warnings s = bWARNING s"

definition error :: "int \<Rightarrow> examiner \<Rightarrow> bool" where
  "error num s \<longleftrightarrow> num \<ge> 0 \<and> num < int nERRORS \<and> fERROR s (nat num)"

definition warning :: "int \<Rightarrow> examiner \<Rightarrow> bool" where
  "warning num s \<longleftrightarrow> num \<ge> 0 \<and> num < int nWARNINGS \<and> fWARNING s (nat num)"

definition chambersWithError :: "int \<Rightarrow> examiner \<Rightarrow> int set" where
  "chambersWithError num s = (if num \<ge> 0 \<and> num < int nERRORS then fCHAMB_ERR s (nat num) else {})"

definition chambersWithWarning :: "int \<Rightarrow> examiner \<Rightarrow> int set" where
  "chambersWithWarning num s = (if num \<ge> 0 \<and> num < int nWARNINGS then fCHAMB_WRN s (nat num) else {})"

definition errorsForChamber :: "int \<Rightarrow> examiner \<Rightarrow> 32 word" where
  "errorsForChamber chamber s = (case bCHAMB_ERR s chamber of Some item \<Rightarrow> item | None \<Rightarrow> 0)"

definition warningsForChamber :: "int \<Rightarrow> examiner \<Rightarrow> 32 word" where
  "warningsForChamber chamber s = (case bCHAMB_WRN s chamber of Some item \<Rightarrow> item | None \<Rightarrow> 0)"

section \<open>Errors\<close>

definition flag :: "nat \<Rightarrow> 32 word \<Rightarrow> examiner \<Rightarrow> examiner" where
  "flag err m s = s\<lparr>fERROR := (fERROR s)(err := True), bERROR := bERROR s OR m\<rparr>"

definition flag_chamber :: "nat \<Rightarrow> 32 word \<Rightarrow> examiner \<Rightarrow> examiner" where
  "flag_chamber err m s =
     s\<lparr>fCHAMB_ERR := (fCHAMB_ERR s)(err := insert (currentChamber s) (fCHAMB_ERR s err)),
       bCHAMB_ERR := mor (currentChamber s) m (bCHAMB_ERR s)\<rparr>"

text \<open>An error of the current chamber, with its bit in both words; most are followed by error 0 of the
  chamber.\<close>

definition chamber_error :: "nat \<Rightarrow> 32 word \<Rightarrow> examiner \<Rightarrow> examiner" where
  "chamber_error err m s = flag_chamber err m (flag err m s)"

definition chamber_error0 :: "nat \<Rightarrow> 32 word \<Rightarrow> examiner \<Rightarrow> examiner" where
  "chamber_error0 err m s = flag_chamber 0 0x1 (chamber_error err m s)"

text \<open>The chamber -1 (not known yet) becomes -2 (not known).\<close>

definition moved :: "int \<Rightarrow> int \<Rightarrow> int set \<Rightarrow> int set" where
  "moved a b X = (if a \<in> X then insert b (X - {a}) else X)"

definition forget_unknown :: "examiner \<Rightarrow> examiner" where
  "forget_unknown s = s\<lparr>
     fCHAMB_ERR := (\<lambda>err. if err < nERRORS then moved (-1) (-2) (fCHAMB_ERR s err) else fCHAMB_ERR s err),
     fCHAMB_WRN := (fCHAMB_WRN s)(1 := moved (-1) (-2) (fCHAMB_WRN s 1)),
     bCHAMB_ERR := (mor (-2) (mget (bCHAMB_ERR s) (-1)) (bCHAMB_ERR s))(-1 \<mapsto> 0),
     bCHAMB_WRN := (mor (-2) (mget (bCHAMB_WRN s) (-1)) (bCHAMB_WRN s))(-1 \<mapsto> 0)\<rparr>"

text \<open>Error 0 of a chamber, when it has any other.\<close>

definition sum_errors :: "int \<Rightarrow> examiner \<Rightarrow> examiner" where
  "sum_errors c s =
     (if \<exists>err \<in> {1..<nERRORS}. c \<in> fCHAMB_ERR s err
      then s\<lparr>fCHAMB_ERR := (fCHAMB_ERR s)(0 := insert c (fCHAMB_ERR s 0)), bCHAMB_ERR := mor c 0x1 (bCHAMB_ERR s)\<rparr>
      else s)"

section \<open>Counting words\<close>

definition shift_in :: "quad \<Rightarrow> examiner \<Rightarrow> examiner" where
  "shift_in q s = s\<lparr>buf_1 := buf0 s, buf0 := buf1 s, buf1 := buf2 s, buf2 := q\<rparr>"

definition reset_pipeline :: "examiner \<Rightarrow> examiner" where
  "reset_pipeline s = s\<lparr>buf_1 := no_quad, buf0 := no_quad, buf1 := no_quad, buf2 := no_quad\<rparr>"

definition check_size :: "examiner \<Rightarrow> examiner" where
  "check_size s = (if \<not> fERROR s 19 \<and> 50000 < DDU_WordsSinceLastHeader s then flag 19 0x80000 s else s)"

definition count_words :: "examiner \<Rightarrow> examiner" where
  "count_words s =
     (let s = (if fDDU_Header s then s\<lparr>DDU_WordsSinceLastHeader := DDU_WordsSinceLastHeader s + 1\<rparr> else s);
          s = (if fDDU_Trailer s then s\<lparr>DDU_WordsSinceLastTrailer := DDU_WordsSinceLastTrailer s + 1\<rparr> else s);
          s = (if fALCT_Header s then s\<lparr>ALCT_WordsSinceLastHeader := ALCT_WordsSinceLastHeader s + 4\<rparr> else s);
          s = (if fTMB_Header s then s\<lparr>TMB_WordsSinceLastHeader := TMB_WordsSinceLastHeader s + 4\<rparr> else s)
      in if fDMB_Header s then s\<lparr>CFEB_SampleWordCount := CFEB_SampleWordCount s + 4\<rparr> else s)"

section \<open>The signatures\<close>

definition nibble :: "16 word \<Rightarrow> 16 word \<Rightarrow> bool" where
  "nibble v w \<longleftrightarrow> w AND 0xF000 = v"

definition all_nibbles :: "16 word \<Rightarrow> quad \<Rightarrow> bool" where
  "all_nibbles v q \<longleftrightarrow> nibble v (q0 q) \<and> nibble v (q1 q) \<and> nibble v (q2 q) \<and> nibble v (q3 q)"

definition some_nibble :: "16 word \<Rightarrow> quad \<Rightarrow> bool" where
  "some_nibble v q \<longleftrightarrow> nibble v (q0 q) \<or> nibble v (q1 q) \<or> nibble v (q2 q) \<or> nibble v (q3 q)"

definition is_ddu_header :: "quad \<Rightarrow> bool" where
  "is_ddu_header q \<longleftrightarrow> q1 q = 0x8000 \<and> q2 q = 0x0001 \<and> q3 q = 0x8000"

definition is_dmb_header :: "quad \<Rightarrow> bool" where
  "is_dmb_header q \<longleftrightarrow> all_nibbles 0xA000 q"

definition is_alct_header :: "quad \<Rightarrow> bool" where
  "is_alct_header q \<longleftrightarrow> q0 q AND 0xF800 = 0x6000 \<and> q1 q AND 0x8F80 = 0x0080 \<and> q2 q AND 0x8000 = 0x0000 \<and>
     q3 q AND 0xc000 = 0x0000"

definition is_alct_trailer :: "quad \<Rightarrow> bool" where
  "is_alct_trailer q \<longleftrightarrow> q0 q AND 0x0800 = 0x0000 \<and> q1 q AND 0xF800 = 0xD000 \<and> q2 q = 0xDE0D \<and>
     q3 q AND 0xF000 = 0xD000"

definition is_tmb_trailer :: "quad \<Rightarrow> bool" where
  "is_tmb_trailer q \<longleftrightarrow> nibble 0xD000 (q0 q) \<and> nibble 0xD000 (q1 q) \<and> q2 q = 0xDE0F \<and> nibble 0xD000 (q3 q)"

definition is_cfeb_trailer :: "quad \<Rightarrow> bool" where
  "is_cfeb_trailer q \<longleftrightarrow> nibble 0x7000 (q1 q) \<and> nibble 0x7000 (q2 q) \<and> q3 q = 0x7FFF"

definition is_ddu_trailer :: "quad \<Rightarrow> bool" where
  "is_ddu_trailer q \<longleftrightarrow> q0 q = 0x8000 \<and> q1 q = 0x8000 \<and> q2 q = 0xFFFF \<and> q3 q = 0x8000"

section \<open>DDU and DMB headers\<close>

definition c_words :: "examiner \<Rightarrow> examiner" where
  "c_words s =
     (if fDDU_Header s \<and> some_nibble 0xC000 (buf0 s) \<and> \<not> is_ddu_header (buf_1 s)
      then flag 20 0x100000 (flag 0 0x1 s) else s)"

text \<open>A second header before a trailer ends the work on the event; the caller goes back to the word in
  front of the header.\<close>

definition second_ddu_header :: "examiner \<Rightarrow> examiner" where
  "second_ddu_header s =
     (let s = flag 0 0x1 (flag 1 0x2 s);
          s = s\<lparr>fDDU_Header := False\<rparr>;
          s = (if fDMB_Header s \<or> fDMB_Trailer s then
                 (let s = flag 5 0x20 s;
                      s = (if currentChamber s = -1 then s\<lparr>currentChamber := -2\<rparr> else s)
                  in flag_chamber 0 0x1 (flag_chamber 5 0x20 s))
               else s);
          s = s\<lparr>fDMB_Header := False, fDMB_Trailer := False\<rparr>;
          s = (if DAV_DMB s \<noteq> 0 then flag 24 0x1000000 s else s);
          s = s\<lparr>DAV_DMB := 0\<rparr>;
          s = sum_errors (-2) s
      in reset_pipeline s)"

definition clear_errors :: "examiner \<Rightarrow> examiner" where
  "clear_errors s = s\<lparr>fERROR := (\<lambda>_. False), fWARNING := (\<lambda>_. False), bERROR := 0, bWARNING := 0,
     fCHAMB_ERR := (\<lambda>_. {}), fCHAMB_WRN := (\<lambda>_. {}), bCHAMB_ERR := Map.empty, bCHAMB_WRN := Map.empty,
     currentChamber := -1\<rparr>"

definition clear_chamber_counts :: "examiner \<Rightarrow> examiner" where
  "clear_chamber_counts s = s\<lparr>fALCT_Header := False, fTMB_Header := False, uniqueALCT := True, uniqueTMB := True,
     ALCT_WordsSinceLastHeader := 0, ALCT_WordCount := 0, ALCT_WordsExpected := 0,
     TMB_WordsSinceLastHeader := 0, TMB_WordCount := 0, TMB_WordsExpected := 0, TMB_Tbins := 0,
     CFEB_SampleWordCount := 0, CFEB_SampleCount := 0, CFEB_BSampleCount := 0\<rparr>"

definition ddu_header :: "examiner \<Rightarrow> examiner" where
  "ddu_header s =
     (if is_ddu_header (buf0 s) then
        (let s = clear_errors s;
             s = (if fDDU_Trailer s \<and> DDU_WordsSinceLastTrailer s \<noteq> 4
                  then s\<lparr>fWARNING := (fWARNING s)(0 := True), bWARNING := bWARNING s OR 0x1\<rparr> else s);
             s = s\<lparr>fDDU_Header := True, fDDU_Trailer := False, DDU_WordCount := 0,
                    fDMB_Header := False, fDMB_Trailer := False\<rparr>;
             s = clear_chamber_counts s
         in s\<lparr>DAV_DMB := uint (q0 (buf1 s) AND 0xF), cntDDU_Headers := cntDDU_Headers s + 1,
              DDU_WordsSinceLastHeader := 0\<rparr>)
      else s)"

definition dmb_header :: "examiner \<Rightarrow> examiner" where
  "dmb_header s =
     (if is_dmb_header (buf0 s) then
        (let s = (if fDMB_Header s \<or> fDMB_Trailer s then chamber_error0 5 0x20 s else s);
             s = s\<lparr>fDMB_Header := True, fDMB_Trailer := False\<rparr>;
             s = forget_unknown s;
             s = s\<lparr>currentChamber := uint (q1 (buf0 s) AND 0x0FFF)\<rparr>;
             s = s\<lparr>cntCHAMB_Headers := mcount (currentChamber s) (cntCHAMB_Headers s)\<rparr>;
             s = (clear_chamber_counts s)\<lparr>CFEB_CRC := 0\<rparr>;
             s = s\<lparr>DAV_DMB := DAV_DMB s - 1\<rparr>
         in s\<lparr>DAV_ALCT := bit (q0 (buf0 s)) 9, DAV_TMB := bit (q0 (buf0 s)) 11,
              DAV_CFEB := of_bool (bit (q0 (buf0 s)) 0) + of_bool (bit (q0 (buf0 s)) 1) +
                of_bool (bit (q0 (buf0 s)) 2) + of_bool (bit (q0 (buf0 s)) 3) + of_bool (bit (q0 (buf0 s)) 4)\<rparr>)
      else s)"

section \<open>ALCT and TMB blocks\<close>

definition popcount7 :: "16 word \<Rightarrow> 32 word" where
  "popcount7 w = of_bool (bit w 0) + of_bool (bit w 1) + of_bool (bit w 2) + of_bool (bit w 3) +
     of_bool (bit w 4) + of_bool (bit w 5) + of_bool (bit w 6)"

definition alct_header :: "examiner \<Rightarrow> examiner" where
  "alct_header s =
     (if is_alct_header (buf0 s) \<and> is_dmb_header (buf_1 s) then
        (let s = s\<lparr>fALCT_Header := True, ALCT_CRC := 0, ALCT_WordsSinceLastHeader := 4\<rparr>;
             s = (if q3 (buf0 s) AND 0x0003 = 0 then s\<lparr>ALCT_WordsExpected := 12\<rparr> else s)
         in if q1 (buf0 s) AND 0x0003 = 1
            then s\<lparr>ALCT_WordsExpected := drop_bit 2 (ucast (q1 (buf0 s)) AND 0x007c) * popcount7 (q3 (buf0 s)) * 12 + 12\<rparr>
            else s)
      else s)"

definition tmb_header :: "examiner \<Rightarrow> examiner" where
  "tmb_header s =
     (if q0 (buf0 s) = 0x6B0C \<and> (is_dmb_header (buf_1 s) \<or> is_alct_trailer (buf_1 s)) then
        (let s = s\<lparr>fTMB_Header := True, TMB_CRC := 0, TMB_WordsSinceLastHeader := 4\<rparr>;
             s = (if q1 (buf0 s) AND 0x3000 = 0x3000 then s\<lparr>TMB_WordsExpected := 8\<rparr> else s);
             s = (if q1 (buf0 s) AND 0x3000 = 0x0000 then s\<lparr>TMB_WordsExpected := 32\<rparr> else s)
         in if q1 (buf0 s) AND 0x3000 = 0x1000
            then (let s = s\<lparr>TMB_Tbins := ucast (q1 (buf0 s) AND 0x001F)\<rparr>
                  in s\<lparr>TMB_WordsExpected := 28 + TMB_Tbins s * drop_bit 5 (ucast (q0 (buf1 s)) AND 0x00E0) * 6\<rparr>)
            else s)
      else s)"

text \<open>The sum in the trailer and the sum of the words of a block.\<close>

definition reported_crc :: "quad \<Rightarrow> 32 word" where
  "reported_crc q = ucast (q0 q AND 0x7ff) OR push_bit 11 (ucast (q1 q AND 0x7ff))"

definition crc_quad :: "quad \<Rightarrow> 32 word \<Rightarrow> 32 word" where
  "crc_quad q CRC = fold crc_word [q0 q, q1 q, q2 q, q3 q] CRC"

definition alct_trailer :: "examiner \<Rightarrow> examiner" where
  "alct_trailer s =
     (if is_alct_trailer (buf0 s) then
        (let s = (if \<not> uniqueALCT s then s\<lparr>currentChamber := -1\<rparr> else s);
             s = s\<lparr>DAV_ALCT := \<not> DAV_ALCT s\<rparr>;
             s = (if \<not> fALCT_Header s then chamber_error0 8 0x100 s else s);
             s = (if q0 (buf0 s) AND 0xF800 \<noteq> 0xD000 then chamber_error0 11 0x800 s else s);
             s = (if checkCrcALCT s \<and> ALCT_CRC s \<noteq> reported_crc (buf0 s) then chamber_error0 10 0x400 s else s)
         in s\<lparr>fALCT_Header := False, uniqueALCT := False, CFEB_CRC := 0,
              ALCT_WordCount := ucast (q3 (buf0 s) AND 0x07FF), CFEB_SampleWordCount := 0\<rparr>)
      else s)"

definition alct_crc :: "examiner \<Rightarrow> examiner" where
  "alct_crc s = (if fALCT_Header s \<and> checkCrcALCT s then s\<lparr>ALCT_CRC := crc_quad (buf0 s) (ALCT_CRC s)\<rparr> else s)"

definition tmb_correction :: "examiner \<Rightarrow> examiner" where
  "tmb_correction s =
     (if fTMB_Header s \<and> q2 (buf0 s) = 0x6E0B
      then s\<lparr>TMB_WordsExpectedCorrection :=
               2 + drop_bit 6 (ucast (q2 (buf_1 s)) AND 0x0040) * drop_bit 4 (ucast (q2 (buf_1 s)) AND 0x0030) *
                 TMB_Tbins s * 2\<rparr>
      else s)"

definition tmb_trailer :: "examiner \<Rightarrow> examiner" where
  "tmb_trailer s =
     (if is_tmb_trailer (buf0 s) then
        (let s = (if \<not> uniqueTMB s then s\<lparr>currentChamber := -1\<rparr> else s);
             s = s\<lparr>DAV_TMB := \<not> DAV_TMB s\<rparr>;
             s = (if \<not> fTMB_Header s then chamber_error0 13 0x2000 s else s);
             s = (if checkCrcTMB s \<and> TMB_CRC s \<noteq> reported_crc (buf0 s) then chamber_error0 15 0x8000 s else s);
             s = s\<lparr>fTMB_Header := False, uniqueTMB := False, CFEB_CRC := 0,
                    TMB_WordCount := ucast (q3 (buf0 s) AND 0x07FF)\<rparr>;
             s = (if q1 (buf_1 s) = 0x6E0C then
                    (let s = s\<lparr>TMB_WordsExpected := TMB_WordsExpected s + 2\<rparr>
                     in if q0 (buf_1 s) = 0x6E04
                        then s\<lparr>TMB_WordsExpected := TMB_WordsExpected s + 4 + TMB_WordsExpectedCorrection s\<rparr> else s)
                  else s);
             s = (if q3 (buf_1 s) = 0x6E0C \<and> q2 (buf_1 s) = 0x6E04
                  then s\<lparr>TMB_WordsExpected := TMB_WordsExpected s + 4 + TMB_WordsExpectedCorrection s\<rparr> else s)
         in s\<lparr>CFEB_SampleWordCount := 0\<rparr>)
      else s)"

definition tmb_crc :: "examiner \<Rightarrow> examiner" where
  "tmb_crc s = (if fTMB_Header s \<and> checkCrcTMB s then s\<lparr>TMB_CRC := crc_quad (buf0 s) (TMB_CRC s)\<rparr> else s)"

section \<open>CFEB samples\<close>

definition cfeb_trailer :: "examiner \<Rightarrow> examiner" where
  "cfeb_trailer s =
     (if is_cfeb_trailer (buf0 s) then
        (let s = (if CFEB_SampleWordCount s \<noteq> 100 then chamber_error0 16 0x10000 s else s);
             s = s\<lparr>CFEB_SampleCount := CFEB_SampleCount s + 1\<rparr>;
             s = (if CFEB_SampleCount s mod 8 = 0 then s\<lparr>CFEB_BSampleCount := 0, DAV_CFEB := DAV_CFEB s - 1\<rparr> else s);
             s = (if checkCrcCFEB s \<and> CFEB_CRC s \<noteq> ucast (q0 (buf0 s)) then chamber_error0 18 0x40000 s else s)
         in s\<lparr>CFEB_CRC := 0, CFEB_SampleWordCount := 0\<rparr>)
      else s)"

definition cfeb_crc_word :: "16 word \<Rightarrow> 32 word \<Rightarrow> 32 word" where
  "cfeb_crc_word w CRC =
     (let d = ucast w AND 0x1fff
      in d XOR push_bit 1 d XOR (drop_bit 2 (CRC AND 0x7ffc) OR push_bit 13 (0x0003 AND CRC)) XOR
         drop_bit 1 (CRC AND 0x7ffc))"

definition cfeb_crc :: "examiner \<Rightarrow> examiner" where
  "cfeb_crc s =
     (if checkCrcCFEB s \<and> fDMB_Header s \<and> \<not> fTMB_Header s \<and> \<not> fALCT_Header s \<and> CFEB_SampleWordCount s \<noteq> 0
      then s\<lparr>CFEB_CRC := fold cfeb_crc_word [q0 (buf0 s), q1 (buf0 s), q2 (buf0 s), q3 (buf0 s)] (CFEB_CRC s)\<rparr>
      else s)"

definition cfeb_b_word :: "examiner \<Rightarrow> examiner" where
  "cfeb_b_word s =
     (if all_nibbles 0xB000 (buf0 s) then
        (let s = s\<lparr>fWARNING := (fWARNING s)(1 := True), bWARNING := bWARNING s OR 0x2,
                    fCHAMB_WRN := (fCHAMB_WRN s)(1 := insert (currentChamber s) (fCHAMB_WRN s 1)),
                    bCHAMB_WRN := mor (currentChamber s) 0x2 (bCHAMB_WRN s)\<rparr>;
             s = s\<lparr>CFEB_SampleCount := CFEB_SampleCount s + 1, CFEB_BSampleCount := CFEB_BSampleCount s + 1\<rparr>;
             s = (if CFEB_SampleCount s mod 8 = 0 then s\<lparr>CFEB_BSampleCount := 0\<rparr> else s)
         in s\<lparr>CFEB_SampleWordCount := 0\<rparr>)
      else s)"

section \<open>DMB trailers\<close>

definition check_davs :: "examiner \<Rightarrow> examiner" where
  "check_davs s =
     (let s = (if DAV_ALCT s then chamber_error 21 0x200000 s else s);
          s = (if DAV_TMB s then chamber_error 22 0x400000 s else s)
      in if DAV_CFEB s \<noteq> 0 \<and> DAV_CFEB s \<noteq> -16 then chamber_error 23 0x800000 s else s)"

definition dmb_f_trailer :: "examiner \<Rightarrow> examiner" where
  "dmb_f_trailer s =
     (if all_nibbles 0xF000 (buf0 s) then
        (let s = (if \<not> fDMB_Header s then (chamber_error 6 0x40 s)\<lparr>DAV_DMB := DAV_DMB s - 1\<rparr> else s);
             s = s\<lparr>fDMB_Header := False, fDMB_Trailer := True, uniqueALCT := True, uniqueTMB := True\<rparr>;
             s = check_davs s
         in if \<not> all_nibbles 0xE000 (buf1 s) then (sum_errors (currentChamber s) s)\<lparr>currentChamber := -1\<rparr> else s)
      else s)"

text \<open>The chamber of a record whose header was lost is in its last trailer.\<close>

definition find_chamber :: "int \<Rightarrow> examiner \<Rightarrow> examiner" where
  "find_chamber c s = s\<lparr>currentChamber := c,
     fCHAMB_ERR := (\<lambda>err. if err < nERRORS then moved (-1) c (fCHAMB_ERR s err) else fCHAMB_ERR s err),
     fCHAMB_WRN := (fCHAMB_WRN s)(1 := moved (-1) c (fCHAMB_WRN s 1)),
     bCHAMB_ERR := (bCHAMB_ERR s)(c \<mapsto> mget (bCHAMB_ERR s) (-1), -1 \<mapsto> 0),
     bCHAMB_WRN := (bCHAMB_WRN s)(c \<mapsto> mget (bCHAMB_WRN s) (-1), -1 \<mapsto> 0)\<rparr>"

definition check_counts :: "examiner \<Rightarrow> examiner" where
  "check_counts s =
     (let s = (if \<not> fALCT_Header s \<and> (ALCT_WordsSinceLastHeader s \<noteq> ALCT_WordCount s \<or>
                 ALCT_WordsSinceLastHeader s \<noteq> ALCT_WordsExpected s) then chamber_error 9 0x200 s else s);
          s = (if \<not> fTMB_Header s \<and> (TMB_WordsSinceLastHeader s \<noteq> TMB_WordCount s \<or>
                 TMB_WordsSinceLastHeader s \<noteq> TMB_WordsExpected s) then chamber_error 14 0x4000 s else s);
          s = (if CFEB_SampleCount s mod 8 \<noteq> 0 then chamber_error 17 0x20000 s else s);
          s = (if fALCT_Header s then (chamber_error 7 0x80 s)\<lparr>ALCT_WordsSinceLastHeader := 0, ALCT_WordsExpected := 0\<rparr> else s)
      in if fTMB_Header s then (chamber_error 12 0x1000 s)\<lparr>TMB_WordsSinceLastHeader := 0, TMB_WordsExpected := 0\<rparr> else s)"

definition dmb_e_trailer :: "examiner \<Rightarrow> examiner" where
  "dmb_e_trailer s =
     (if all_nibbles 0xE000 (buf0 s) then
        (let c = uint (q1 (buf0 s) AND 0x0FFF);
             s = (if \<not> fDMB_Header s \<and> \<not> fDMB_Trailer s then s\<lparr>DAV_DMB := DAV_DMB s - 1\<rparr> else s);
             s = s\<lparr>fDMB_Header := False\<rparr>;
             s = (if currentChamber s = -1 then find_chamber c s else s);
             s = s\<lparr>cntCHAMB_Trailers := mcount c (cntCHAMB_Trailers s)\<rparr>;
             s = (if \<not> fDMB_Trailer s then check_davs (chamber_error0 6 0x40 s) else s);
             s = s\<lparr>fDMB_Trailer := False\<rparr>;
             s = check_counts s;
             s = forget_unknown s;
             s = (if currentChamber s \<noteq> -1 then sum_errors (currentChamber s) s else s)
         in s\<lparr>currentChamber := -1\<rparr>)
      else s)"

section \<open>The DDU trailer\<close>

definition ddu_trailer :: "examiner \<Rightarrow> examiner" where
  "ddu_trailer s =
     (let s = (if fDDU_Trailer s then flag 2 0x4 s else s);
          s = s\<lparr>fDDU_Trailer := True, fDDU_Header := False\<rparr>;
          s = (if fDMB_Header s \<or> fDMB_Trailer s
               then flag_chamber 0 0x20 (flag_chamber 5 0x20 (flag 5 0x20 s)) else s);
          s = s\<lparr>fDMB_Header := False, fDMB_Trailer := False\<rparr>;
          s = s\<lparr>currentChamber := -1\<rparr>;
          s = forget_unknown s;
          s = sum_errors (-2) s;
          s = s\<lparr>cntDDU_Trailers := cntDDU_Trailers s + 1,
                 DDU_WordCount := ucast (q2 (buf2 s)) OR push_bit 16 (ucast (q3 (buf2 s)) AND 0xFF)\<rparr>;
          s = (if DDU_WordsSinceLastHeader s + 4 \<noteq> DDU_WordCount s then flag 4 0x10 s else s);
          s = (if DAV_DMB s \<noteq> 0 then flag 24 0x1000000 s else s);
          s = (if \<exists>err \<in> {1..<nERRORS}. fERROR s err then flag 0 0x1 s else s)
      in reset_pipeline (s\<lparr>DDU_WordsSinceLastHeader := 0, DDU_WordsSinceLastTrailer := 0\<rparr>))"

section \<open>Reading a buffer\<close>

definition read_word :: "quad \<Rightarrow> examiner \<Rightarrow> examiner" where
  "read_word q s = c_words (count_words (check_size (shift_in q s)))"

definition blocks :: "examiner \<Rightarrow> examiner" where
  "blocks s = dmb_e_trailer (dmb_f_trailer (cfeb_b_word (cfeb_crc (cfeb_trailer (tmb_crc (tmb_trailer (tmb_correction
     (alct_crc (alct_trailer (tmb_header (alct_header (dmb_header s))))))))))))"

text \<open>The results of \<^verbatim>\<open>check\<close>, with what lies before and behind the pointer: no event end in the rest
  of the buffer (the code returns -1), the end of an event, or a step back to the word before a
  second header. \<open>Outside\<close> is an access in front of the memory the caller gave.\<close>

datatype check_result =
    No_event
  | Event "quad list" "quad list"
  | Again "quad list" "quad list"
  | Outside

fun check_loop :: "quad list \<Rightarrow> quad list \<Rightarrow> examiner \<Rightarrow> check_result \<times> examiner" where
  "check_loop before [] s =
     (case before of
        r3 # r2 # r1 # r0 # _ \<Rightarrow> (No_event, s\<lparr>buf_1 := r0, buf0 := r1, buf1 := r2, buf2 := r3\<rparr>)
      | _ \<Rightarrow> (Outside, s))"
| "check_loop before (q # buffer) s =
     (let s = read_word q s
      in if is_ddu_header (buf0 s) \<and> fDDU_Header s then
           (case before of
              r0 # r1 # r2 # before \<Rightarrow> (Again before (r2 # r1 # r0 # q # buffer), second_ddu_header s)
            | _ \<Rightarrow> (Outside, second_ddu_header s))
         else
           let s = blocks (ddu_header s)
           in if is_ddu_trailer (buf0 s) then (Event (q # before) buffer, ddu_trailer s)
              else check_loop (q # before) buffer s)"

definition check :: "quad list \<Rightarrow> quad list \<Rightarrow> examiner \<Rightarrow> check_result \<times> examiner" where
  "check before buffer s = (if buffer = [] then (No_event, s) else check_loop before buffer s)"

end
