(* ===== verification/Examiner_Words.thy ===== *)
theory Examiner_Words
  imports Examiner
begin

text \<open>
  The words the format checker tells apart, and what one round of its loop does with a word of each kind:
  the blocks of the code whose condition does not hold drop out.
\<close>

unbundle bit_operations_syntax

section \<open>One round of the loop\<close>

definition at :: "quad \<Rightarrow> quad \<Rightarrow> quad \<Rightarrow> quad \<Rightarrow> examiner \<Rightarrow> examiner" where
  "at p c n nn s = s\<lparr>buf_1 := p, buf0 := c, buf1 := n, buf2 := nn\<rparr>"

definition work :: "examiner \<Rightarrow> examiner" where
  "work s = blocks (ddu_header (c_words (count_words (check_size s))))"

lemma shift_in_at: "shift_in nn (at x p c n s) = at p c n nn s"
  by (simp add: shift_in_def at_def)

lemma at_fields [simp]:
  "bERROR (at p c n nn s) = bERROR s" "bWARNING (at p c n nn s) = bWARNING s" "fERROR (at p c n nn s) = fERROR s"
  "fWARNING (at p c n nn s) = fWARNING s" "fCHAMB_ERR (at p c n nn s) = fCHAMB_ERR s"
  "fCHAMB_WRN (at p c n nn s) = fCHAMB_WRN s" "bCHAMB_ERR (at p c n nn s) = bCHAMB_ERR s"
  "bCHAMB_WRN (at p c n nn s) = bCHAMB_WRN s" "currentChamber (at p c n nn s) = currentChamber s"
  "buf_1 (at p c n nn s) = p" "buf0 (at p c n nn s) = c" "buf1 (at p c n nn s) = n" "buf2 (at p c n nn s) = nn"
  "fDDU_Header (at p c n nn s) = fDDU_Header s" "fDDU_Trailer (at p c n nn s) = fDDU_Trailer s"
  "fDMB_Header (at p c n nn s) = fDMB_Header s" "fDMB_Trailer (at p c n nn s) = fDMB_Trailer s"
  "fALCT_Header (at p c n nn s) = fALCT_Header s" "fTMB_Header (at p c n nn s) = fTMB_Header s"
  "uniqueALCT (at p c n nn s) = uniqueALCT s" "uniqueTMB (at p c n nn s) = uniqueTMB s"
  "DAV_ALCT (at p c n nn s) = DAV_ALCT s" "DAV_TMB (at p c n nn s) = DAV_TMB s" "DAV_CFEB (at p c n nn s) = DAV_CFEB s"
  "DAV_DMB (at p c n nn s) = DAV_DMB s" "cntDDU_Headers (at p c n nn s) = cntDDU_Headers s"
  "cntDDU_Trailers (at p c n nn s) = cntDDU_Trailers s" "cntCHAMB_Headers (at p c n nn s) = cntCHAMB_Headers s"
  "cntCHAMB_Trailers (at p c n nn s) = cntCHAMB_Trailers s"
  "DDU_WordsSinceLastHeader (at p c n nn s) = DDU_WordsSinceLastHeader s"
  "DDU_WordCount (at p c n nn s) = DDU_WordCount s"
  "DDU_WordsSinceLastTrailer (at p c n nn s) = DDU_WordsSinceLastTrailer s"
  "ALCT_WordsSinceLastHeader (at p c n nn s) = ALCT_WordsSinceLastHeader s"
  "ALCT_WordCount (at p c n nn s) = ALCT_WordCount s" "ALCT_WordsExpected (at p c n nn s) = ALCT_WordsExpected s"
  "TMB_WordsSinceLastHeader (at p c n nn s) = TMB_WordsSinceLastHeader s"
  "TMB_WordCount (at p c n nn s) = TMB_WordCount s" "TMB_WordsExpected (at p c n nn s) = TMB_WordsExpected s"
  "TMB_Tbins (at p c n nn s) = TMB_Tbins s"
  "TMB_WordsExpectedCorrection (at p c n nn s) = TMB_WordsExpectedCorrection s"
  "CFEB_SampleWordCount (at p c n nn s) = CFEB_SampleWordCount s"
  "CFEB_SampleCount (at p c n nn s) = CFEB_SampleCount s" "CFEB_BSampleCount (at p c n nn s) = CFEB_BSampleCount s"
  "checkCrcALCT (at p c n nn s) = checkCrcALCT s" "ALCT_CRC (at p c n nn s) = ALCT_CRC s"
  "checkCrcTMB (at p c n nn s) = checkCrcTMB s" "TMB_CRC (at p c n nn s) = TMB_CRC s"
  "checkCrcCFEB (at p c n nn s) = checkCrcCFEB s" "CFEB_CRC (at p c n nn s) = CFEB_CRC s"
  by (simp_all add: at_def)

lemma at_at [simp]: "at p c n nn (at p' c' n' nn' s) = at p c n nn s"
  by (simp add: at_def)

lemma at_self: "at (buf_1 s) (buf0 s) (buf1 s) (buf2 s) s = s"
  by (simp add: at_def)

section \<open>What the reports leave alone\<close>

lemma flag_keeps [simp]:
  "currentChamber (flag e m s) = currentChamber s" "buf_1 (flag e m s) = buf_1 s" "buf0 (flag e m s) = buf0 s"
  "buf1 (flag e m s) = buf1 s" "buf2 (flag e m s) = buf2 s" "fDDU_Header (flag e m s) = fDDU_Header s"
  "fDDU_Trailer (flag e m s) = fDDU_Trailer s" "fDMB_Header (flag e m s) = fDMB_Header s"
  "fDMB_Trailer (flag e m s) = fDMB_Trailer s" "fALCT_Header (flag e m s) = fALCT_Header s"
  "fTMB_Header (flag e m s) = fTMB_Header s" "uniqueALCT (flag e m s) = uniqueALCT s"
  "uniqueTMB (flag e m s) = uniqueTMB s" "DAV_ALCT (flag e m s) = DAV_ALCT s" "DAV_TMB (flag e m s) = DAV_TMB s"
  "DAV_CFEB (flag e m s) = DAV_CFEB s" "DAV_DMB (flag e m s) = DAV_DMB s"
  "cntDDU_Headers (flag e m s) = cntDDU_Headers s" "cntDDU_Trailers (flag e m s) = cntDDU_Trailers s"
  "cntCHAMB_Headers (flag e m s) = cntCHAMB_Headers s" "cntCHAMB_Trailers (flag e m s) = cntCHAMB_Trailers s"
  "DDU_WordsSinceLastHeader (flag e m s) = DDU_WordsSinceLastHeader s" "DDU_WordCount (flag e m s) = DDU_WordCount s"
  "DDU_WordsSinceLastTrailer (flag e m s) = DDU_WordsSinceLastTrailer s"
  "ALCT_WordsSinceLastHeader (flag e m s) = ALCT_WordsSinceLastHeader s"
  "ALCT_WordCount (flag e m s) = ALCT_WordCount s" "ALCT_WordsExpected (flag e m s) = ALCT_WordsExpected s"
  "TMB_WordsSinceLastHeader (flag e m s) = TMB_WordsSinceLastHeader s" "TMB_WordCount (flag e m s) = TMB_WordCount s"
  "TMB_WordsExpected (flag e m s) = TMB_WordsExpected s" "TMB_Tbins (flag e m s) = TMB_Tbins s"
  "TMB_WordsExpectedCorrection (flag e m s) = TMB_WordsExpectedCorrection s"
  "CFEB_SampleWordCount (flag e m s) = CFEB_SampleWordCount s" "CFEB_SampleCount (flag e m s) = CFEB_SampleCount s"
  "CFEB_BSampleCount (flag e m s) = CFEB_BSampleCount s" "checkCrcALCT (flag e m s) = checkCrcALCT s"
  "ALCT_CRC (flag e m s) = ALCT_CRC s" "checkCrcTMB (flag e m s) = checkCrcTMB s" "TMB_CRC (flag e m s) = TMB_CRC s"
  "checkCrcCFEB (flag e m s) = checkCrcCFEB s" "CFEB_CRC (flag e m s) = CFEB_CRC s"
  "fCHAMB_ERR (flag e m s) = fCHAMB_ERR s" "bCHAMB_ERR (flag e m s) = bCHAMB_ERR s"
  "fWARNING (flag e m s) = fWARNING s" "bWARNING (flag e m s) = bWARNING s" "fCHAMB_WRN (flag e m s) = fCHAMB_WRN s"
  "bCHAMB_WRN (flag e m s) = bCHAMB_WRN s"
  by (simp_all add: flag_def)

lemma flag_chamber_keeps [simp]:
  "currentChamber (flag_chamber e m s) = currentChamber s" "buf_1 (flag_chamber e m s) = buf_1 s"
  "buf0 (flag_chamber e m s) = buf0 s" "buf1 (flag_chamber e m s) = buf1 s" "buf2 (flag_chamber e m s) = buf2 s"
  "fDDU_Header (flag_chamber e m s) = fDDU_Header s" "fDDU_Trailer (flag_chamber e m s) = fDDU_Trailer s"
  "fDMB_Header (flag_chamber e m s) = fDMB_Header s" "fDMB_Trailer (flag_chamber e m s) = fDMB_Trailer s"
  "fALCT_Header (flag_chamber e m s) = fALCT_Header s" "fTMB_Header (flag_chamber e m s) = fTMB_Header s"
  "uniqueALCT (flag_chamber e m s) = uniqueALCT s" "uniqueTMB (flag_chamber e m s) = uniqueTMB s"
  "DAV_ALCT (flag_chamber e m s) = DAV_ALCT s" "DAV_TMB (flag_chamber e m s) = DAV_TMB s"
  "DAV_CFEB (flag_chamber e m s) = DAV_CFEB s" "DAV_DMB (flag_chamber e m s) = DAV_DMB s"
  "cntDDU_Headers (flag_chamber e m s) = cntDDU_Headers s" "cntDDU_Trailers (flag_chamber e m s) = cntDDU_Trailers s"
  "cntCHAMB_Headers (flag_chamber e m s) = cntCHAMB_Headers s"
  "cntCHAMB_Trailers (flag_chamber e m s) = cntCHAMB_Trailers s"
  "DDU_WordsSinceLastHeader (flag_chamber e m s) = DDU_WordsSinceLastHeader s"
  "DDU_WordCount (flag_chamber e m s) = DDU_WordCount s"
  "DDU_WordsSinceLastTrailer (flag_chamber e m s) = DDU_WordsSinceLastTrailer s"
  "ALCT_WordsSinceLastHeader (flag_chamber e m s) = ALCT_WordsSinceLastHeader s"
  "ALCT_WordCount (flag_chamber e m s) = ALCT_WordCount s"
  "ALCT_WordsExpected (flag_chamber e m s) = ALCT_WordsExpected s"
  "TMB_WordsSinceLastHeader (flag_chamber e m s) = TMB_WordsSinceLastHeader s"
  "TMB_WordCount (flag_chamber e m s) = TMB_WordCount s" "TMB_WordsExpected (flag_chamber e m s) = TMB_WordsExpected s"
  "TMB_Tbins (flag_chamber e m s) = TMB_Tbins s"
  "TMB_WordsExpectedCorrection (flag_chamber e m s) = TMB_WordsExpectedCorrection s"
  "CFEB_SampleWordCount (flag_chamber e m s) = CFEB_SampleWordCount s"
  "CFEB_SampleCount (flag_chamber e m s) = CFEB_SampleCount s"
  "CFEB_BSampleCount (flag_chamber e m s) = CFEB_BSampleCount s" "checkCrcALCT (flag_chamber e m s) = checkCrcALCT s"
  "ALCT_CRC (flag_chamber e m s) = ALCT_CRC s" "checkCrcTMB (flag_chamber e m s) = checkCrcTMB s"
  "TMB_CRC (flag_chamber e m s) = TMB_CRC s" "checkCrcCFEB (flag_chamber e m s) = checkCrcCFEB s"
  "CFEB_CRC (flag_chamber e m s) = CFEB_CRC s" "fERROR (flag_chamber e m s) = fERROR s"
  "bERROR (flag_chamber e m s) = bERROR s" "fWARNING (flag_chamber e m s) = fWARNING s"
  "bWARNING (flag_chamber e m s) = bWARNING s" "fCHAMB_WRN (flag_chamber e m s) = fCHAMB_WRN s"
  "bCHAMB_WRN (flag_chamber e m s) = bCHAMB_WRN s"
  by (simp_all add: flag_chamber_def)

lemma chamber_error_keeps [simp]:
  "currentChamber (chamber_error e m s) = currentChamber s" "buf_1 (chamber_error e m s) = buf_1 s"
  "buf0 (chamber_error e m s) = buf0 s" "buf1 (chamber_error e m s) = buf1 s" "buf2 (chamber_error e m s) = buf2 s"
  "fDDU_Header (chamber_error e m s) = fDDU_Header s" "fDDU_Trailer (chamber_error e m s) = fDDU_Trailer s"
  "fDMB_Header (chamber_error e m s) = fDMB_Header s" "fDMB_Trailer (chamber_error e m s) = fDMB_Trailer s"
  "fALCT_Header (chamber_error e m s) = fALCT_Header s" "fTMB_Header (chamber_error e m s) = fTMB_Header s"
  "uniqueALCT (chamber_error e m s) = uniqueALCT s" "uniqueTMB (chamber_error e m s) = uniqueTMB s"
  "DAV_ALCT (chamber_error e m s) = DAV_ALCT s" "DAV_TMB (chamber_error e m s) = DAV_TMB s"
  "DAV_CFEB (chamber_error e m s) = DAV_CFEB s" "DAV_DMB (chamber_error e m s) = DAV_DMB s"
  "cntDDU_Headers (chamber_error e m s) = cntDDU_Headers s" "cntDDU_Trailers (chamber_error e m s) = cntDDU_Trailers s"
  "cntCHAMB_Headers (chamber_error e m s) = cntCHAMB_Headers s"
  "cntCHAMB_Trailers (chamber_error e m s) = cntCHAMB_Trailers s"
  "DDU_WordsSinceLastHeader (chamber_error e m s) = DDU_WordsSinceLastHeader s"
  "DDU_WordCount (chamber_error e m s) = DDU_WordCount s"
  "DDU_WordsSinceLastTrailer (chamber_error e m s) = DDU_WordsSinceLastTrailer s"
  "ALCT_WordsSinceLastHeader (chamber_error e m s) = ALCT_WordsSinceLastHeader s"
  "ALCT_WordCount (chamber_error e m s) = ALCT_WordCount s"
  "ALCT_WordsExpected (chamber_error e m s) = ALCT_WordsExpected s"
  "TMB_WordsSinceLastHeader (chamber_error e m s) = TMB_WordsSinceLastHeader s"
  "TMB_WordCount (chamber_error e m s) = TMB_WordCount s"
  "TMB_WordsExpected (chamber_error e m s) = TMB_WordsExpected s" "TMB_Tbins (chamber_error e m s) = TMB_Tbins s"
  "TMB_WordsExpectedCorrection (chamber_error e m s) = TMB_WordsExpectedCorrection s"
  "CFEB_SampleWordCount (chamber_error e m s) = CFEB_SampleWordCount s"
  "CFEB_SampleCount (chamber_error e m s) = CFEB_SampleCount s"
  "CFEB_BSampleCount (chamber_error e m s) = CFEB_BSampleCount s" "checkCrcALCT (chamber_error e m s) = checkCrcALCT s"
  "ALCT_CRC (chamber_error e m s) = ALCT_CRC s" "checkCrcTMB (chamber_error e m s) = checkCrcTMB s"
  "TMB_CRC (chamber_error e m s) = TMB_CRC s" "checkCrcCFEB (chamber_error e m s) = checkCrcCFEB s"
  "CFEB_CRC (chamber_error e m s) = CFEB_CRC s" "fWARNING (chamber_error e m s) = fWARNING s"
  "bWARNING (chamber_error e m s) = bWARNING s" "fCHAMB_WRN (chamber_error e m s) = fCHAMB_WRN s"
  "bCHAMB_WRN (chamber_error e m s) = bCHAMB_WRN s"
  by (simp_all add: chamber_error_def)

lemma chamber_error0_keeps [simp]:
  "currentChamber (chamber_error0 e m s) = currentChamber s" "buf_1 (chamber_error0 e m s) = buf_1 s"
  "buf0 (chamber_error0 e m s) = buf0 s" "buf1 (chamber_error0 e m s) = buf1 s" "buf2 (chamber_error0 e m s) = buf2 s"
  "fDDU_Header (chamber_error0 e m s) = fDDU_Header s" "fDDU_Trailer (chamber_error0 e m s) = fDDU_Trailer s"
  "fDMB_Header (chamber_error0 e m s) = fDMB_Header s" "fDMB_Trailer (chamber_error0 e m s) = fDMB_Trailer s"
  "fALCT_Header (chamber_error0 e m s) = fALCT_Header s" "fTMB_Header (chamber_error0 e m s) = fTMB_Header s"
  "uniqueALCT (chamber_error0 e m s) = uniqueALCT s" "uniqueTMB (chamber_error0 e m s) = uniqueTMB s"
  "DAV_ALCT (chamber_error0 e m s) = DAV_ALCT s" "DAV_TMB (chamber_error0 e m s) = DAV_TMB s"
  "DAV_CFEB (chamber_error0 e m s) = DAV_CFEB s" "DAV_DMB (chamber_error0 e m s) = DAV_DMB s"
  "cntDDU_Headers (chamber_error0 e m s) = cntDDU_Headers s"
  "cntDDU_Trailers (chamber_error0 e m s) = cntDDU_Trailers s"
  "cntCHAMB_Headers (chamber_error0 e m s) = cntCHAMB_Headers s"
  "cntCHAMB_Trailers (chamber_error0 e m s) = cntCHAMB_Trailers s"
  "DDU_WordsSinceLastHeader (chamber_error0 e m s) = DDU_WordsSinceLastHeader s"
  "DDU_WordCount (chamber_error0 e m s) = DDU_WordCount s"
  "DDU_WordsSinceLastTrailer (chamber_error0 e m s) = DDU_WordsSinceLastTrailer s"
  "ALCT_WordsSinceLastHeader (chamber_error0 e m s) = ALCT_WordsSinceLastHeader s"
  "ALCT_WordCount (chamber_error0 e m s) = ALCT_WordCount s"
  "ALCT_WordsExpected (chamber_error0 e m s) = ALCT_WordsExpected s"
  "TMB_WordsSinceLastHeader (chamber_error0 e m s) = TMB_WordsSinceLastHeader s"
  "TMB_WordCount (chamber_error0 e m s) = TMB_WordCount s"
  "TMB_WordsExpected (chamber_error0 e m s) = TMB_WordsExpected s" "TMB_Tbins (chamber_error0 e m s) = TMB_Tbins s"
  "TMB_WordsExpectedCorrection (chamber_error0 e m s) = TMB_WordsExpectedCorrection s"
  "CFEB_SampleWordCount (chamber_error0 e m s) = CFEB_SampleWordCount s"
  "CFEB_SampleCount (chamber_error0 e m s) = CFEB_SampleCount s"
  "CFEB_BSampleCount (chamber_error0 e m s) = CFEB_BSampleCount s"
  "checkCrcALCT (chamber_error0 e m s) = checkCrcALCT s" "ALCT_CRC (chamber_error0 e m s) = ALCT_CRC s"
  "checkCrcTMB (chamber_error0 e m s) = checkCrcTMB s" "TMB_CRC (chamber_error0 e m s) = TMB_CRC s"
  "checkCrcCFEB (chamber_error0 e m s) = checkCrcCFEB s" "CFEB_CRC (chamber_error0 e m s) = CFEB_CRC s"
  "fWARNING (chamber_error0 e m s) = fWARNING s" "bWARNING (chamber_error0 e m s) = bWARNING s"
  "fCHAMB_WRN (chamber_error0 e m s) = fCHAMB_WRN s" "bCHAMB_WRN (chamber_error0 e m s) = bCHAMB_WRN s"
  by (simp_all add: chamber_error0_def)

lemma forget_unknown_keeps [simp]:
  "currentChamber (forget_unknown s) = currentChamber s" "buf_1 (forget_unknown s) = buf_1 s"
  "buf0 (forget_unknown s) = buf0 s" "buf1 (forget_unknown s) = buf1 s" "buf2 (forget_unknown s) = buf2 s"
  "fDDU_Header (forget_unknown s) = fDDU_Header s" "fDDU_Trailer (forget_unknown s) = fDDU_Trailer s"
  "fDMB_Header (forget_unknown s) = fDMB_Header s" "fDMB_Trailer (forget_unknown s) = fDMB_Trailer s"
  "fALCT_Header (forget_unknown s) = fALCT_Header s" "fTMB_Header (forget_unknown s) = fTMB_Header s"
  "uniqueALCT (forget_unknown s) = uniqueALCT s" "uniqueTMB (forget_unknown s) = uniqueTMB s"
  "DAV_ALCT (forget_unknown s) = DAV_ALCT s" "DAV_TMB (forget_unknown s) = DAV_TMB s"
  "DAV_CFEB (forget_unknown s) = DAV_CFEB s" "DAV_DMB (forget_unknown s) = DAV_DMB s"
  "cntDDU_Headers (forget_unknown s) = cntDDU_Headers s" "cntDDU_Trailers (forget_unknown s) = cntDDU_Trailers s"
  "cntCHAMB_Headers (forget_unknown s) = cntCHAMB_Headers s"
  "cntCHAMB_Trailers (forget_unknown s) = cntCHAMB_Trailers s"
  "DDU_WordsSinceLastHeader (forget_unknown s) = DDU_WordsSinceLastHeader s"
  "DDU_WordCount (forget_unknown s) = DDU_WordCount s"
  "DDU_WordsSinceLastTrailer (forget_unknown s) = DDU_WordsSinceLastTrailer s"
  "ALCT_WordsSinceLastHeader (forget_unknown s) = ALCT_WordsSinceLastHeader s"
  "ALCT_WordCount (forget_unknown s) = ALCT_WordCount s" "ALCT_WordsExpected (forget_unknown s) = ALCT_WordsExpected s"
  "TMB_WordsSinceLastHeader (forget_unknown s) = TMB_WordsSinceLastHeader s"
  "TMB_WordCount (forget_unknown s) = TMB_WordCount s" "TMB_WordsExpected (forget_unknown s) = TMB_WordsExpected s"
  "TMB_Tbins (forget_unknown s) = TMB_Tbins s"
  "TMB_WordsExpectedCorrection (forget_unknown s) = TMB_WordsExpectedCorrection s"
  "CFEB_SampleWordCount (forget_unknown s) = CFEB_SampleWordCount s"
  "CFEB_SampleCount (forget_unknown s) = CFEB_SampleCount s"
  "CFEB_BSampleCount (forget_unknown s) = CFEB_BSampleCount s" "checkCrcALCT (forget_unknown s) = checkCrcALCT s"
  "ALCT_CRC (forget_unknown s) = ALCT_CRC s" "checkCrcTMB (forget_unknown s) = checkCrcTMB s"
  "TMB_CRC (forget_unknown s) = TMB_CRC s" "checkCrcCFEB (forget_unknown s) = checkCrcCFEB s"
  "CFEB_CRC (forget_unknown s) = CFEB_CRC s" "fERROR (forget_unknown s) = fERROR s"
  "bERROR (forget_unknown s) = bERROR s" "fWARNING (forget_unknown s) = fWARNING s"
  "bWARNING (forget_unknown s) = bWARNING s"
  by (simp_all add: forget_unknown_def)

lemma sum_errors_keeps [simp]:
  "currentChamber (sum_errors a s) = currentChamber s" "buf_1 (sum_errors a s) = buf_1 s"
  "buf0 (sum_errors a s) = buf0 s" "buf1 (sum_errors a s) = buf1 s" "buf2 (sum_errors a s) = buf2 s"
  "fDDU_Header (sum_errors a s) = fDDU_Header s" "fDDU_Trailer (sum_errors a s) = fDDU_Trailer s"
  "fDMB_Header (sum_errors a s) = fDMB_Header s" "fDMB_Trailer (sum_errors a s) = fDMB_Trailer s"
  "fALCT_Header (sum_errors a s) = fALCT_Header s" "fTMB_Header (sum_errors a s) = fTMB_Header s"
  "uniqueALCT (sum_errors a s) = uniqueALCT s" "uniqueTMB (sum_errors a s) = uniqueTMB s"
  "DAV_ALCT (sum_errors a s) = DAV_ALCT s" "DAV_TMB (sum_errors a s) = DAV_TMB s"
  "DAV_CFEB (sum_errors a s) = DAV_CFEB s" "DAV_DMB (sum_errors a s) = DAV_DMB s"
  "cntDDU_Headers (sum_errors a s) = cntDDU_Headers s" "cntDDU_Trailers (sum_errors a s) = cntDDU_Trailers s"
  "cntCHAMB_Headers (sum_errors a s) = cntCHAMB_Headers s" "cntCHAMB_Trailers (sum_errors a s) = cntCHAMB_Trailers s"
  "DDU_WordsSinceLastHeader (sum_errors a s) = DDU_WordsSinceLastHeader s"
  "DDU_WordCount (sum_errors a s) = DDU_WordCount s"
  "DDU_WordsSinceLastTrailer (sum_errors a s) = DDU_WordsSinceLastTrailer s"
  "ALCT_WordsSinceLastHeader (sum_errors a s) = ALCT_WordsSinceLastHeader s"
  "ALCT_WordCount (sum_errors a s) = ALCT_WordCount s" "ALCT_WordsExpected (sum_errors a s) = ALCT_WordsExpected s"
  "TMB_WordsSinceLastHeader (sum_errors a s) = TMB_WordsSinceLastHeader s"
  "TMB_WordCount (sum_errors a s) = TMB_WordCount s" "TMB_WordsExpected (sum_errors a s) = TMB_WordsExpected s"
  "TMB_Tbins (sum_errors a s) = TMB_Tbins s"
  "TMB_WordsExpectedCorrection (sum_errors a s) = TMB_WordsExpectedCorrection s"
  "CFEB_SampleWordCount (sum_errors a s) = CFEB_SampleWordCount s"
  "CFEB_SampleCount (sum_errors a s) = CFEB_SampleCount s" "CFEB_BSampleCount (sum_errors a s) = CFEB_BSampleCount s"
  "checkCrcALCT (sum_errors a s) = checkCrcALCT s" "ALCT_CRC (sum_errors a s) = ALCT_CRC s"
  "checkCrcTMB (sum_errors a s) = checkCrcTMB s" "TMB_CRC (sum_errors a s) = TMB_CRC s"
  "checkCrcCFEB (sum_errors a s) = checkCrcCFEB s" "CFEB_CRC (sum_errors a s) = CFEB_CRC s"
  "fERROR (sum_errors a s) = fERROR s" "bERROR (sum_errors a s) = bERROR s" "fWARNING (sum_errors a s) = fWARNING s"
  "bWARNING (sum_errors a s) = bWARNING s" "fCHAMB_WRN (sum_errors a s) = fCHAMB_WRN s"
  "bCHAMB_WRN (sum_errors a s) = bCHAMB_WRN s"
  by (simp_all add: sum_errors_def)

section \<open>Kinds of words\<close>

lemma and_sub: "w AND m = v \<Longrightarrow> m AND n = n \<Longrightarrow> w AND n = v AND n" for w m n v :: "16 word"
  by (metis and.assoc)

definition special :: "quad \<Rightarrow> bool" where
  "special q \<longleftrightarrow> is_ddu_header q \<or> is_ddu_trailer q \<or> is_dmb_header q \<or> is_alct_trailer q \<or> is_tmb_trailer q \<or>
     is_cfeb_trailer q \<or> all_nibbles 0xB000 q \<or> all_nibbles 0xF000 q \<or> all_nibbles 0xE000 q"

text \<open>A word that starts a block, or looks as if it did.\<close>

definition starts :: "quad \<Rightarrow> bool" where
  "starts q \<longleftrightarrow> is_alct_header q \<or> q0 q = 0x6B0C"

definition plain :: "quad \<Rightarrow> bool" where
  "plain q \<longleftrightarrow> \<not> special q \<and> \<not> some_nibble 0xC000 q"

text \<open>The cases exclude each other.\<close>

lemma special_nibble:
  assumes "all_nibbles v q" and "v AND 0xF000 = v"
  shows "is_ddu_header q \<longleftrightarrow> False" "is_ddu_trailer q \<longleftrightarrow> v = 0x8000 \<and> is_ddu_trailer q"
    "is_dmb_header q \<longleftrightarrow> v = 0xA000" "is_alct_trailer q \<longleftrightarrow> v = 0xD000 \<and> is_alct_trailer q"
    "is_tmb_trailer q \<longleftrightarrow> v = 0xD000 \<and> is_tmb_trailer q"
    "is_cfeb_trailer q \<longleftrightarrow> v = 0x7000 \<and> is_cfeb_trailer q"
    "all_nibbles w q \<longleftrightarrow> v = w" "is_alct_header q \<longleftrightarrow> v = 0x6000 \<and> is_alct_header q"
    "q0 q = 0x6B0C \<longleftrightarrow> v = 0x6000 \<and> q0 q = 0x6B0C" "some_nibble 0xC000 q \<longleftrightarrow> v = 0xC000"
  using assms
  by (auto simp: all_nibbles_def nibble_def is_ddu_header_def is_ddu_trailer_def is_dmb_header_def is_alct_trailer_def
    is_tmb_trailer_def is_cfeb_trailer_def some_nibble_def is_alct_header_def dest: and_sub[where n = "0xF000"])

lemmas signature_defs = all_nibbles_def nibble_def is_ddu_header_def is_ddu_trailer_def is_dmb_header_def
  is_alct_trailer_def is_tmb_trailer_def is_cfeb_trailer_def some_nibble_def is_alct_header_def

lemma alct_header_only:
  assumes "is_alct_header q"
  shows "\<not> special q" "\<not> some_nibble 0xC000 q" "q0 q \<noteq> 0x6B0C"
proof -
  have q: "q0 q AND 0xF800 = 0x6000" "q1 q AND 0x8F80 = 0x0080" "q2 q AND 0x8000 = 0" "q3 q AND 0xC000 = 0"
    using assms by (simp_all add: is_alct_header_def)
  have n: "q0 q AND 0xF000 = 0x6000" "q1 q AND 0x8000 = 0" "q3 q AND 0x8000 = 0"
    using and_sub[OF q(1), of "0xF000"] and_sub[OF q(2), of "0x8000"] and_sub[OF q(4), of "0x8000"] by simp_all
  have no: "w AND 0xF000 \<noteq> 0xC000" "w AND 0xF000 \<noteq> 0xD000" if "w AND 0x8000 = 0" for w :: "16 word"
    using that and_sub[of w "0xF000" "0xC000" "0x8000"] and_sub[of w "0xF000" "0xD000" "0x8000"] by auto
  show "\<not> some_nibble 0xC000 q" using n q(3) no by (auto simp: some_nibble_def nibble_def)
  show "q0 q \<noteq> 0x6B0C" using q(1) by auto
  show "\<not> special q" using n q no(2)[OF n(2)]
    by (auto simp: special_def signature_defs dest: and_sub[where n = "0x8000"] and_sub[where n = "0xF000"])
qed

lemma alct_trailer_only:
  assumes "is_alct_trailer q"
  shows "\<not> is_ddu_header q" "\<not> is_ddu_trailer q" "\<not> is_dmb_header q" "\<not> is_tmb_trailer q" "\<not> is_cfeb_trailer q"
    "\<not> all_nibbles 0xB000 q" "\<not> all_nibbles 0xF000 q" "\<not> all_nibbles 0xE000 q" "\<not> is_alct_header q"
    "q0 q \<noteq> 0x6B0C" "q2 q \<noteq> 0x6E0B"
  using assms by (auto simp: signature_defs)

lemma tmb_trailer_only:
  assumes "is_tmb_trailer q"
  shows "\<not> is_ddu_header q" "\<not> is_ddu_trailer q" "\<not> is_dmb_header q" "\<not> is_alct_trailer q" "\<not> is_cfeb_trailer q"
    "\<not> all_nibbles 0xB000 q" "\<not> all_nibbles 0xF000 q" "\<not> all_nibbles 0xE000 q" "\<not> is_alct_header q"
    "q0 q \<noteq> 0x6B0C" "q2 q \<noteq> 0x6E0B" "\<not> some_nibble 0xC000 q"
  using assms by (auto simp: signature_defs)

lemma cfeb_trailer_only:
  assumes "is_cfeb_trailer q"
  shows "\<not> is_ddu_header q" "\<not> is_ddu_trailer q" "\<not> is_dmb_header q" "\<not> is_alct_trailer q" "\<not> is_tmb_trailer q"
    "\<not> all_nibbles 0xB000 q" "\<not> all_nibbles 0xF000 q" "\<not> all_nibbles 0xE000 q" "\<not> is_alct_header q"
  using assms by (auto simp: signature_defs)

lemma ddu_header_only:
  assumes "is_ddu_header q"
  shows "\<not> is_ddu_trailer q" "\<not> is_dmb_header q" "\<not> is_alct_trailer q" "\<not> is_tmb_trailer q" "\<not> is_cfeb_trailer q"
    "\<not> all_nibbles 0xB000 q" "\<not> all_nibbles 0xF000 q" "\<not> all_nibbles 0xE000 q" "\<not> is_alct_header q" "q2 q \<noteq> 0x6E0B"
  using assms by (auto simp: signature_defs)

lemma ddu_trailer_only:
  assumes "is_ddu_trailer q"
  shows "\<not> is_ddu_header q" "\<not> is_dmb_header q" "\<not> is_alct_trailer q" "\<not> is_tmb_trailer q" "\<not> is_cfeb_trailer q"
    "\<not> all_nibbles 0xB000 q" "\<not> all_nibbles 0xF000 q" "\<not> all_nibbles 0xE000 q" "\<not> is_alct_header q" "q2 q \<noteq> 0x6E0B"
    "\<not> some_nibble 0xC000 q" "q0 q \<noteq> 0x6B0C"
  using assms by (auto simp: signature_defs)

section \<open>What a round does with each kind\<close>

text \<open>The state when the blocks are reached.\<close>

definition counted :: "examiner \<Rightarrow> examiner" where
  "counted s = c_words (count_words (check_size s))"

lemma buf_counting:
  "buf_1 (count_words s) = buf_1 s" "buf0 (count_words s) = buf0 s" "buf1 (count_words s) = buf1 s"
  "buf2 (count_words s) = buf2 s"
  by (simp_all add: count_words_def Let_def)

lemma buf_counted [simp]:
  "buf_1 (counted s) = buf_1 s" "buf0 (counted s) = buf0 s" "buf1 (counted s) = buf1 s" "buf2 (counted s) = buf2 s"
  by (simp_all add: counted_def c_words_def check_size_def buf_counting)

text \<open>Words of data, also those that look like the start of a block in the wrong place.\<close>

definition no_start :: "examiner \<Rightarrow> bool" where
  "no_start s \<longleftrightarrow> \<not> (is_dmb_header (buf_1 s) \<and> starts (buf0 s)) \<and> \<not> (is_alct_trailer (buf_1 s) \<and> q0 (buf0 s) = 0x6B0C)"

lemma not_started:
  assumes "no_start s"
  shows "alct_header s = s" "tmb_header s = s"
  using assms by (auto simp: no_start_def alct_header_def tmb_header_def starts_def)

lemma quiet:
  "\<not> is_ddu_header (buf0 s) \<Longrightarrow> ddu_header s = s" "\<not> is_dmb_header (buf0 s) \<Longrightarrow> dmb_header s = s"
  "\<not> is_alct_trailer (buf0 s) \<Longrightarrow> alct_trailer s = s" "\<not> is_tmb_trailer (buf0 s) \<Longrightarrow> tmb_trailer s = s"
  "\<not> is_cfeb_trailer (buf0 s) \<Longrightarrow> cfeb_trailer s = s" "\<not> all_nibbles 0xB000 (buf0 s) \<Longrightarrow> cfeb_b_word s = s"
  "\<not> all_nibbles 0xF000 (buf0 s) \<Longrightarrow> dmb_f_trailer s = s" "\<not> all_nibbles 0xE000 (buf0 s) \<Longrightarrow> dmb_e_trailer s = s"
  by (simp_all add: ddu_header_def dmb_header_def alct_trailer_def tmb_trailer_def cfeb_trailer_def
    cfeb_b_word_def dmb_f_trailer_def dmb_e_trailer_def)

lemma not_special:
  assumes "\<not> special (buf0 s)"
  shows "ddu_header s = s" "dmb_header s = s" "alct_trailer s = s" "tmb_trailer s = s" "cfeb_trailer s = s"
    "cfeb_b_word s = s" "dmb_f_trailer s = s" "dmb_e_trailer s = s"
  using assms by (simp_all add: special_def quiet)

lemma buf_crcs [simp]:
  "buf_1 (alct_crc s) = buf_1 s" "buf0 (alct_crc s) = buf0 s" "buf1 (alct_crc s) = buf1 s"
  "buf_1 (tmb_correction s) = buf_1 s" "buf0 (tmb_correction s) = buf0 s" "buf1 (tmb_correction s) = buf1 s"
  "buf_1 (tmb_crc s) = buf_1 s" "buf0 (tmb_crc s) = buf0 s" "buf1 (tmb_crc s) = buf1 s"
  "buf_1 (cfeb_crc s) = buf_1 s" "buf0 (cfeb_crc s) = buf0 s" "buf1 (cfeb_crc s) = buf1 s"
  by (simp_all add: alct_crc_def tmb_correction_def tmb_crc_def cfeb_crc_def)

lemma blocks_plain:
  assumes "\<not> special (buf0 s)" and "no_start s"
  shows "blocks s = cfeb_crc (tmb_crc (tmb_correction (alct_crc s)))"
  using assms(1) by (simp add: blocks_def not_started[OF assms(2)] not_special)

lemma work_plain:
  assumes "\<not> special (buf0 s)" and "no_start s"
  shows "work s = cfeb_crc (tmb_crc (tmb_correction (alct_crc (counted s))))"
proof -
  have "no_start (counted s)" using assms(2) by (simp add: no_start_def)
  then show ?thesis using assms(1) by (simp add: work_def counted_def[symmetric] not_special blocks_plain)
qed

text \<open>Words outside a record.\<close>

lemma outside_record:
  assumes "\<not> fALCT_Header s" "\<not> fTMB_Header s" "\<not> fDMB_Header s"
  shows "alct_crc s = s" "tmb_correction s = s" "tmb_crc s = s" "cfeb_crc s = s"
  using assms by (simp_all add: alct_crc_def tmb_correction_def tmb_crc_def cfeb_crc_def)

lemma work_outside:
  assumes "\<not> special (buf0 s)" "no_start s" "\<not> fALCT_Header s" "\<not> fTMB_Header s" "\<not> fDMB_Header s"
  shows "work s = counted s"
proof -
  have "\<not> fALCT_Header (counted s)" "\<not> fTMB_Header (counted s)" "\<not> fDMB_Header (counted s)"
    using assms(3-5) by (simp_all add: counted_def c_words_def count_words_def check_size_def flag_def Let_def)
  then show ?thesis by (simp add: work_plain[OF assms(1,2)] outside_record)
qed

lemma work_ddu_trailer:
  assumes t: "is_ddu_trailer (buf0 s)" and "\<not> fALCT_Header s" "\<not> fTMB_Header s" "\<not> fDMB_Header s"
  shows "work s = counted s"
proof -
  have "\<not> fALCT_Header (counted s)" "\<not> fTMB_Header (counted s)" "\<not> fDMB_Header (counted s)"
    using assms(2-4) by (simp_all add: counted_def c_words_def count_words_def check_size_def flag_def Let_def)
  moreover have "no_start (counted s)" using t by (simp add: no_start_def starts_def ddu_trailer_only)
  ultimately show ?thesis
    using t by (simp add: work_def counted_def[symmetric] blocks_def not_started quiet ddu_trailer_only outside_record)
qed

lemma check_loop_round:
  assumes "\<not> (is_ddu_header c \<and> fDDU_Header (counted (at p c n nn s)))" and "\<not> is_ddu_trailer (buf0 (work (at p c n nn s)))"
  shows "check_loop before (nn # buffer) (at x p c n s) = check_loop (nn # before) buffer (work (at p c n nn s))"
proof -
  have 1: "read_word nn (at x p c n s) = counted (at p c n nn s)" by (simp add: read_word_def shift_in_at counted_def)
  have "work (at p c n nn s) = blocks (ddu_header (counted (at p c n nn s)))" by (simp add: work_def counted_def)
  then show ?thesis using assms by (auto simp: Let_def 1)
qed

lemma check_loop_end:
  assumes "\<not> is_ddu_header c" and "is_ddu_trailer (buf0 (work (at p c n nn s)))"
  shows "check_loop before (nn # buffer) (at x p c n s) = (Event (nn # before) buffer, ddu_trailer (work (at p c n nn s)))"
proof -
  have 1: "read_word nn (at x p c n s) = counted (at p c n nn s)" by (simp add: read_word_def shift_in_at counted_def)
  have "work (at p c n nn s) = blocks (ddu_header (counted (at p c n nn s)))" by (simp add: work_def counted_def)
  then show ?thesis using assms by (auto simp: Let_def 1)
qed

end
