(* ===== verification/Examiner_Inv.thy ===== *)
theory Examiner_Inv
  imports Examiner_Words
begin

text \<open>
  What holds of the format checker on every input: the two ways in which it reports an error agree, an
  error of a chamber is an error of the event, and it does not matter how the data are cut into buffers.
\<close>

unbundle bit_operations_syntax

section \<open>The bits of the errors\<close>

definition is_bit :: "nat \<Rightarrow> 32 word \<Rightarrow> bool" where
  "is_bit e m \<longleftrightarrow> e < 25 \<and> (\<forall>i. bit m i \<longleftrightarrow> i = e)"

lemma is_bitI: "m = 2 ^ e \<Longrightarrow> e < 25 \<Longrightarrow> is_bit e m"
  by (auto simp: is_bit_def bit_exp_iff)

lemma is_bit_literals:
  "is_bit 0 0x1" "is_bit 1 0x2" "is_bit 2 0x4" "is_bit 4 0x10" "is_bit 5 0x20" "is_bit 6 0x40" "is_bit 7 0x80"
  "is_bit 8 0x100" "is_bit 9 0x200" "is_bit 10 0x400" "is_bit 11 0x800" "is_bit 12 0x1000" "is_bit 13 0x2000"
  "is_bit 14 0x4000" "is_bit 15 0x8000" "is_bit 16 0x10000" "is_bit 17 0x20000" "is_bit 18 0x40000"
  "is_bit 19 0x80000" "is_bit 20 0x100000" "is_bit 21 0x200000" "is_bit 22 0x400000" "is_bit 23 0x800000"
  "is_bit 24 0x1000000"
  by (rule is_bitI; simp)+

section \<open>The reports agree\<close>

definition consistent :: "examiner \<Rightarrow> bool" where
  "consistent s \<longleftrightarrow>
     (\<forall>i. fERROR s i = bit (bERROR s) i) \<and> (\<forall>i. fERROR s i \<longrightarrow> i < nERRORS) \<and>
     (\<forall>i. fWARNING s i = bit (bWARNING s) i) \<and> (\<forall>i. fWARNING s i \<longrightarrow> i < nWARNINGS) \<and>
     (\<forall>c i. bit (mget (bCHAMB_ERR s) c) i \<longrightarrow> c \<in> fCHAMB_ERR s i) \<and>
     (\<forall>c i. c \<in> fCHAMB_ERR s i \<longrightarrow> i = 0 \<or> fERROR s i) \<and>
     (\<forall>c i. bit (mget (bCHAMB_WRN s) c) i \<longrightarrow> c \<in> fCHAMB_WRN s i) \<and>
     (\<forall>c i. c \<in> fCHAMB_WRN s i \<longrightarrow> i = 1 \<and> fWARNING s 1)"

text \<open>The parts of the state it is about.\<close>

definition reports :: "examiner \<Rightarrow> 32 word \<times> 32 word \<times> (nat \<Rightarrow> bool) \<times> (nat \<Rightarrow> bool) \<times> (nat \<Rightarrow> int set) \<times>
    (nat \<Rightarrow> int set) \<times> (int \<rightharpoonup> 32 word) \<times> (int \<rightharpoonup> 32 word)" where
  "reports s = (bERROR s, bWARNING s, fERROR s, fWARNING s, fCHAMB_ERR s, fCHAMB_WRN s, bCHAMB_ERR s, bCHAMB_WRN s)"

lemma consistent_reports: "reports s = reports t \<Longrightarrow> consistent s = consistent t"
  by (simp add: reports_def consistent_def)

lemma mget_upd [simp]: "mget (m(k \<mapsto> v)) c = (if c = k then v else mget m c)"
  by (simp add: mget_def)

lemma mget_mor: "mget (mor k v m) c = (if c = k then mget m c OR v else mget m c)"
  by (simp add: mor_def)

lemma mget_empty [simp]: "mget Map.empty c = 0"
  by (simp add: mget_def)

lemma consistentI:
  assumes "\<And>i. fERROR s i = bit (bERROR s) i" and "\<And>i. fERROR s i \<Longrightarrow> i < nERRORS"
    and "\<And>i. fWARNING s i = bit (bWARNING s) i" and "\<And>i. fWARNING s i \<Longrightarrow> i < nWARNINGS"
    and "\<And>c i. bit (mget (bCHAMB_ERR s) c) i \<Longrightarrow> c \<in> fCHAMB_ERR s i"
    and "\<And>c i. c \<in> fCHAMB_ERR s i \<Longrightarrow> i = 0 \<or> fERROR s i"
    and "\<And>c i. bit (mget (bCHAMB_WRN s) c) i \<Longrightarrow> c \<in> fCHAMB_WRN s i"
    and "\<And>c i. c \<in> fCHAMB_WRN s i \<Longrightarrow> i = 1 \<and> fWARNING s 1"
  shows "consistent s"
  using assms unfolding consistent_def by blast

lemma consistent_same:
  assumes "consistent s"
  shows "bit (bERROR s) = fERROR s" "bit (bWARNING s) = fWARNING s"
  using assms by (simp_all add: consistent_def fun_eq_iff)

lemma consistentD:
  assumes "consistent s"
  shows "fERROR s i \<Longrightarrow> i < nERRORS" and "fWARNING s i \<Longrightarrow> i < nWARNINGS"
    and "bit (mget (bCHAMB_ERR s) c) i \<Longrightarrow> c \<in> fCHAMB_ERR s i"
    and "c \<in> fCHAMB_ERR s i \<Longrightarrow> i = 0 \<or> fERROR s i"
    and "bit (mget (bCHAMB_WRN s) c) i \<Longrightarrow> c \<in> fCHAMB_WRN s i"
    and "c \<in> fCHAMB_WRN s i \<Longrightarrow> i = 1" and "c \<in> fCHAMB_WRN s i \<Longrightarrow> fWARNING s 1"
    and "c \<in> fCHAMB_ERR s i \<Longrightarrow> i < nERRORS"
proof -
  note 1 = assms[unfolded consistent_def, THEN conjunct2]
  note 2 = 1[THEN conjunct2, THEN conjunct2]
  note 3 = 2[THEN conjunct2]
  note 4 = 3[THEN conjunct2, THEN conjunct2]
  show err: "fERROR s i \<Longrightarrow> i < nERRORS" using 1[THEN conjunct1] by blast
  show "fWARNING s i \<Longrightarrow> i < nWARNINGS" using 2[THEN conjunct1] by blast
  show "bit (mget (bCHAMB_ERR s) c) i \<Longrightarrow> c \<in> fCHAMB_ERR s i" using 3[THEN conjunct1] by blast
  show set: "c \<in> fCHAMB_ERR s i \<Longrightarrow> i = 0 \<or> fERROR s i" using 3[THEN conjunct2, THEN conjunct1] by blast
  show "bit (mget (bCHAMB_WRN s) c) i \<Longrightarrow> c \<in> fCHAMB_WRN s i" using 4[THEN conjunct1] by blast
  show "c \<in> fCHAMB_WRN s i \<Longrightarrow> i = 1" "c \<in> fCHAMB_WRN s i \<Longrightarrow> fWARNING s 1"
    using 4[THEN conjunct2] by blast+
  show "c \<in> fCHAMB_ERR s i \<Longrightarrow> i < nERRORS" using set err by (auto simp: nERRORS_def)
qed

lemma consistent_flag:
  assumes "is_bit e m" and "consistent s"
  shows "consistent (flag e m s)"
proof -
  note D = consistentD[OF assms(2)] and same = consistent_same[OF assms(2)]
  have m: "e < nERRORS" "bit m i \<longleftrightarrow> i = e" for i using assms(1) by (simp_all add: is_bit_def nERRORS_def)
  show ?thesis
    by (rule consistentI) (auto simp: flag_def bit_or_iff m same split: if_splits dest: D)
qed

lemma fERROR_flag [simp]: "fERROR (flag e m s) = (fERROR s)(e := True)"
  by (simp_all add: flag_def)

lemma fCHAMB_ERR_flag_chamber [simp]:
  "fCHAMB_ERR (flag_chamber e m s) = (fCHAMB_ERR s)(e := insert (currentChamber s) (fCHAMB_ERR s e))"
  by (simp_all add: flag_chamber_def)

lemma consistent_flag_chamber:
  assumes "is_bit e' m" and "consistent s" and "e = 0 \<or> fERROR s e" and "e' = e \<or> currentChamber s \<in> fCHAMB_ERR s e'"
  shows "consistent (flag_chamber e m s)"
proof -
  note D = consistentD[OF assms(2)] and same = consistent_same[OF assms(2)]
  have m: "bit m i \<longleftrightarrow> i = e'" for i using assms(1) by (simp add: is_bit_def)
  show ?thesis
    by (rule consistentI)
      (use assms(3,4) in \<open>auto simp: flag_chamber_def bit_or_iff m mget_mor same
        split: if_splits dest: D\<close>)
qed

lemma consistent_chamber_error:
  assumes "is_bit e m" and "consistent s"
  shows "consistent (chamber_error e m s)" "consistent (chamber_error0 e m s)"
proof -
  show 1: "consistent (chamber_error e m s)"
    unfolding chamber_error_def using assms by (intro consistent_flag_chamber[of e] consistent_flag) simp_all
  show "consistent (chamber_error0 e m s)"
    unfolding chamber_error0_def using 1 by (intro consistent_flag_chamber[of 0] is_bit_literals) simp_all
qed

lemma moved_iff: "x \<in> moved a b X \<longleftrightarrow> (if a \<in> X then x = b \<or> (x \<in> X \<and> x \<noteq> a) else x \<in> X)"
  by (simp add: moved_def)

lemma moved_subset:
  assumes "bit (mget t x) i \<Longrightarrow> x \<noteq> -1 \<and> (x \<in> X \<or> x = b \<and> -1 \<in> X)" and "bit (mget t x) i"
  shows "x \<in> moved (-1) b X"
  using assms by (auto simp: moved_iff)

lemma in_moved: "x \<in> moved a b X \<Longrightarrow> (\<And>y. y \<in> X \<Longrightarrow> P) \<Longrightarrow> P"
  by (auto simp: moved_iff split: if_splits)

text \<open>The bits of the unknown chamber go to another one.\<close>

lemma consistent_move:
  assumes s: "consistent s"
    and same: "fERROR t = fERROR s" "bERROR t = bERROR s" "fWARNING t = fWARNING s" "bWARNING t = bWARNING s"
    and sets: "\<And>i. i < nERRORS \<Longrightarrow> fCHAMB_ERR t i = moved (-1) b (fCHAMB_ERR s i)"
      "\<And>i. \<not> i < nERRORS \<Longrightarrow> fCHAMB_ERR t i = fCHAMB_ERR s i"
      "fCHAMB_WRN t = (fCHAMB_WRN s)(1 := moved (-1) b (fCHAMB_WRN s 1))"
    and bits: "\<And>x i. bit (mget (bCHAMB_ERR t) x) i \<Longrightarrow>
        x \<noteq> -1 \<and> (bit (mget (bCHAMB_ERR s) x) i \<or> x = b \<and> bit (mget (bCHAMB_ERR s) (-1)) i)"
      "\<And>x i. bit (mget (bCHAMB_WRN t) x) i \<Longrightarrow>
        x \<noteq> -1 \<and> (bit (mget (bCHAMB_WRN s) x) i \<or> x = b \<and> bit (mget (bCHAMB_WRN s) (-1)) i)"
  shows "consistent t"
proof (rule consistentI)
  note D = consistentD[OF s]
  show "fERROR t i = bit (bERROR t) i" "fWARNING t i = bit (bWARNING t) i" for i
    by (simp_all add: same consistent_same[OF s])
  show "i < nERRORS" if "fERROR t i" for i using that D(1) by (simp add: same)
  show "i < nWARNINGS" if "fWARNING t i" for i using that D(2) by (simp add: same)
  show "x \<in> fCHAMB_ERR t i" if b: "bit (mget (bCHAMB_ERR t) x) i" for x i
  proof -
    have x: "x \<noteq> -1 \<and> (x \<in> fCHAMB_ERR s i \<or> x = b \<and> -1 \<in> fCHAMB_ERR s i)" using bits(1)[OF b] D(3) by blast
    then have "i < nERRORS" using D(8) by blast
    then show ?thesis using x by (auto simp: sets moved_iff)
  qed
  show "i = 0 \<or> fERROR t i" if "x \<in> fCHAMB_ERR t i" for x i
  proof -
    have "\<exists>y. y \<in> fCHAMB_ERR s i"
      using that sets(1,2) by (cases "i < nERRORS") (auto elim: in_moved)
    then show ?thesis using D(4) by (auto simp: same)
  qed
  show "x \<in> fCHAMB_WRN t i" if b: "bit (mget (bCHAMB_WRN t) x) i" for x i
  proof -
    have x: "x \<noteq> -1 \<and> (x \<in> fCHAMB_WRN s i \<or> x = b \<and> -1 \<in> fCHAMB_WRN s i)" using bits(2)[OF b] D(5) by blast
    then have "i = 1" using D(6) by blast
    then show ?thesis using x by (auto simp: sets moved_iff)
  qed
  show "i = 1 \<and> fWARNING t 1" if "x \<in> fCHAMB_WRN t i" for x i
  proof -
    have "\<exists>y. y \<in> fCHAMB_WRN s i"
      using that sets(3) by (cases "i = 1") (auto elim: in_moved)
    then show ?thesis using D(6,7) by (auto simp: same)
  qed
qed

lemma consistent_forget_unknown:
  assumes "consistent s"
  shows "consistent (forget_unknown s)"
  by (rule consistent_move[OF assms, where b = "-2"])
    (auto simp: forget_unknown_def mget_mor bit_or_iff split: if_splits)

lemma consistent_find_chamber:
  assumes "consistent s" and "c \<noteq> -1"
  shows "consistent (find_chamber c s)"
  by (rule consistent_move[OF assms(1), where b = c])
    (use assms(2) in \<open>auto simp: find_chamber_def split: if_splits\<close>)

lemma consistent_sum_errors:
  assumes "consistent s"
  shows "consistent (sum_errors c s)"
proof (cases "\<exists>err \<in> {1..<nERRORS}. c \<in> fCHAMB_ERR s err")
  case True
  note D = consistentD[OF assms]
  have bit1: "bit (0x1 :: 32 word) i \<longleftrightarrow> i = 0" for i using is_bit_literals(1) by (simp add: is_bit_def)
  have "consistent (s\<lparr>fCHAMB_ERR := (fCHAMB_ERR s)(0 := insert c (fCHAMB_ERR s 0)), bCHAMB_ERR := mor c 0x1 (bCHAMB_ERR s)\<rparr>)"
    (is "consistent ?t")
  proof (rule consistentI)
    show "x \<in> fCHAMB_ERR ?t i" if "bit (mget (bCHAMB_ERR ?t) x) i" for x i
      using that D(3) by (auto simp: mget_mor bit_or_iff bit1 simp del: One_nat_def split: if_splits)
    show "i = 0 \<or> fERROR ?t i" if "x \<in> fCHAMB_ERR ?t i" for x i using that D(4)[of x i] by (cases "i = 0") simp_all
  qed (use D in \<open>simp_all add: consistent_same[OF assms]\<close>)
  then show ?thesis using True by (simp add: sum_errors_def)
next
  case False
  then show ?thesis using assms by (simp add: sum_errors_def)
qed

lemma consistent_clear_errors: "consistent (clear_errors s)"
  by (simp add: consistent_def clear_errors_def)

section \<open>Every step keeps them so\<close>

lemma consistent_other [simp]:
  "consistent (s\<lparr>currentChamber := v1\<rparr>) = consistent s"
  "consistent (s\<lparr>buf_1 := v2\<rparr>) = consistent s"
  "consistent (s\<lparr>buf0 := v3\<rparr>) = consistent s"
  "consistent (s\<lparr>buf1 := v4\<rparr>) = consistent s"
  "consistent (s\<lparr>buf2 := v5\<rparr>) = consistent s"
  "consistent (s\<lparr>fDDU_Header := v6\<rparr>) = consistent s"
  "consistent (s\<lparr>fDDU_Trailer := v7\<rparr>) = consistent s"
  "consistent (s\<lparr>fDMB_Header := v8\<rparr>) = consistent s"
  "consistent (s\<lparr>fDMB_Trailer := v9\<rparr>) = consistent s"
  "consistent (s\<lparr>fALCT_Header := v10\<rparr>) = consistent s"
  "consistent (s\<lparr>fTMB_Header := v11\<rparr>) = consistent s"
  "consistent (s\<lparr>uniqueALCT := v12\<rparr>) = consistent s"
  "consistent (s\<lparr>uniqueTMB := v13\<rparr>) = consistent s"
  "consistent (s\<lparr>DAV_ALCT := v14\<rparr>) = consistent s"
  "consistent (s\<lparr>DAV_TMB := v15\<rparr>) = consistent s"
  "consistent (s\<lparr>DAV_CFEB := v16\<rparr>) = consistent s"
  "consistent (s\<lparr>DAV_DMB := v17\<rparr>) = consistent s"
  "consistent (s\<lparr>cntDDU_Headers := v18\<rparr>) = consistent s"
  "consistent (s\<lparr>cntDDU_Trailers := v19\<rparr>) = consistent s"
  "consistent (s\<lparr>cntCHAMB_Headers := v20\<rparr>) = consistent s"
  "consistent (s\<lparr>cntCHAMB_Trailers := v21\<rparr>) = consistent s"
  "consistent (s\<lparr>DDU_WordsSinceLastHeader := v22\<rparr>) = consistent s"
  "consistent (s\<lparr>DDU_WordCount := v23\<rparr>) = consistent s"
  "consistent (s\<lparr>DDU_WordsSinceLastTrailer := v24\<rparr>) = consistent s"
  "consistent (s\<lparr>ALCT_WordsSinceLastHeader := v25\<rparr>) = consistent s"
  "consistent (s\<lparr>ALCT_WordCount := v26\<rparr>) = consistent s"
  "consistent (s\<lparr>ALCT_WordsExpected := v27\<rparr>) = consistent s"
  "consistent (s\<lparr>TMB_WordsSinceLastHeader := v28\<rparr>) = consistent s"
  "consistent (s\<lparr>TMB_WordCount := v29\<rparr>) = consistent s"
  "consistent (s\<lparr>TMB_WordsExpected := v30\<rparr>) = consistent s"
  "consistent (s\<lparr>TMB_Tbins := v31\<rparr>) = consistent s"
  "consistent (s\<lparr>TMB_WordsExpectedCorrection := v32\<rparr>) = consistent s"
  "consistent (s\<lparr>CFEB_SampleWordCount := v33\<rparr>) = consistent s"
  "consistent (s\<lparr>CFEB_SampleCount := v34\<rparr>) = consistent s"
  "consistent (s\<lparr>CFEB_BSampleCount := v35\<rparr>) = consistent s"
  "consistent (s\<lparr>checkCrcALCT := v36\<rparr>) = consistent s"
  "consistent (s\<lparr>ALCT_CRC := v37\<rparr>) = consistent s"
  "consistent (s\<lparr>checkCrcTMB := v38\<rparr>) = consistent s"
  "consistent (s\<lparr>TMB_CRC := v39\<rparr>) = consistent s"
  "consistent (s\<lparr>checkCrcCFEB := v40\<rparr>) = consistent s"
  "consistent (s\<lparr>CFEB_CRC := v41\<rparr>) = consistent s"
  by (simp_all add: consistent_def)

lemma consistent_let: "consistent a \<Longrightarrow> (\<And>s. consistent s \<Longrightarrow> consistent (f s)) \<Longrightarrow> consistent (let s = a in f s)"
  by (simp add: Let_def)

lemma consistent_if: "(b \<Longrightarrow> consistent s) \<Longrightarrow> (\<not> b \<Longrightarrow> consistent t) \<Longrightarrow> consistent (if b then s else t)"
  by simp

lemmas consistent_intros = consistent_let consistent_if consistent_flag consistent_chamber_error consistent_sum_errors
  consistent_find_chamber consistent_forget_unknown consistent_clear_errors is_bit_literals

lemma consistent_warning:
  assumes "consistent s" and "is_bit e m" and "e < nWARNINGS"
  shows "consistent (s\<lparr>fWARNING := (fWARNING s)(e := True), bWARNING := bWARNING s OR m\<rparr>)"
proof -
  note D = consistentD[OF assms(1)]
  have m: "bit m i \<longleftrightarrow> i = e" for i using assms(2) by (simp add: is_bit_def)
  show ?thesis
    by (rule consistentI)
      (use D assms(3) in \<open>auto simp: consistent_same[OF assms(1)] bit_or_iff m split: if_splits\<close>)
qed

lemma consistent_chamber_warning:
  assumes "consistent s" and "is_bit 1 m"
  shows "consistent (s\<lparr>fWARNING := (fWARNING s)(1 := True), bWARNING := bWARNING s OR m,
      fCHAMB_WRN := (fCHAMB_WRN s)(1 := insert c (fCHAMB_WRN s 1)), bCHAMB_WRN := mor c m (bCHAMB_WRN s)\<rparr>)"
proof -
  note D = consistentD[OF assms(1)]
  have m: "bit m i \<longleftrightarrow> i = 1" for i using assms(2) by (simp add: is_bit_def)
  show ?thesis
    by (rule consistentI)
      (use D in \<open>auto simp: consistent_same[OF assms(1)] bit_or_iff m mget_mor nWARNINGS_def split: if_splits\<close>)
qed

lemma consistent_read_word: "consistent s \<Longrightarrow> consistent (read_word q s)"
proof -
  assume s: "consistent s"
  have "consistent (check_size (shift_in q s))"
    unfolding check_size_def shift_in_def using s by (intro consistent_intros) simp_all
  then have "consistent (count_words (check_size (shift_in q s)))" (is "consistent ?t")
    unfolding count_words_def by (intro consistent_intros) simp_all
  then show "consistent (read_word q s)"
    unfolding read_word_def c_words_def[of ?t] by (intro consistent_intros)
qed

lemma consistent_clear_chamber_counts: "consistent (clear_chamber_counts s) = consistent s"
  by (simp add: clear_chamber_counts_def)

lemma consistent_ddu_header: "consistent s \<Longrightarrow> consistent (ddu_header s)"
  unfolding ddu_header_def
  by (intro consistent_intros consistent_warning[of _ 0]) (simp_all add: consistent_clear_chamber_counts nWARNINGS_def)

lemma consistent_blocks_parts:
  assumes "consistent s"
  shows "consistent (dmb_header s)" "consistent (alct_header s)" "consistent (tmb_header s)" "consistent (alct_trailer s)"
    "consistent (alct_crc s)" "consistent (tmb_correction s)" "consistent (tmb_trailer s)" "consistent (tmb_crc s)"
    "consistent (cfeb_trailer s)" "consistent (cfeb_crc s)" "consistent (cfeb_b_word s)"
  unfolding dmb_header_def alct_header_def tmb_header_def alct_trailer_def alct_crc_def tmb_correction_def
    tmb_trailer_def tmb_crc_def cfeb_trailer_def cfeb_crc_def cfeb_b_word_def
  by (intro consistent_intros consistent_chamber_warning; simp add: assms consistent_clear_chamber_counts)+

lemma consistent_check_davs: "consistent s \<Longrightarrow> consistent (check_davs s)"
  unfolding check_davs_def by (intro consistent_intros) simp_all

lemma consistent_check_counts: "consistent s \<Longrightarrow> consistent (check_counts s)"
  unfolding check_counts_def
  by (intro consistent_intros) (simp_all add: consistent_chamber_error is_bit_literals)

lemma consistent_dmb_f_trailer: "consistent s \<Longrightarrow> consistent (dmb_f_trailer s)"
  unfolding dmb_f_trailer_def by (intro consistent_intros consistent_check_davs) (simp_all add: consistent_intros)

lemma chamber_number: "uint (w AND 0x0FFF :: 16 word) \<noteq> -1"
  using uint_ge_0[of "w AND 0x0FFF"] by linarith

lemma consistent_dmb_e_trailer: "consistent s \<Longrightarrow> consistent (dmb_e_trailer s)"
  unfolding dmb_e_trailer_def Let_def[of "uint _"]
  by (intro consistent_intros consistent_check_davs consistent_check_counts chamber_number) (simp_all add: consistent_intros)

lemma consistent_blocks: "consistent s \<Longrightarrow> consistent (blocks s)"
  unfolding blocks_def
  by (intro consistent_dmb_e_trailer consistent_dmb_f_trailer consistent_blocks_parts)

lemma consistent_missing_trailer0:
  assumes "consistent s" and "fERROR s 5"
  shows "consistent (flag_chamber 0 0x1 (flag_chamber 5 0x20 s))"
  by (intro consistent_flag_chamber[of 0] consistent_flag_chamber[of 5] is_bit_literals assms disjI1 disjI2 refl)

lemma consistent_missing_trailer1:
  assumes "consistent s"
  shows "consistent (let s = flag 5 0x20 s; s = (if currentChamber s = -1 then s\<lparr>currentChamber := -2\<rparr> else s)
    in flag_chamber 0 0x1 (flag_chamber 5 0x20 s))"
  unfolding Let_def by (rule consistent_missing_trailer0) (simp_all add: assms consistent_flag is_bit_literals)

lemma consistent_missing_trailer:
  assumes "consistent s"
  shows "consistent (flag_chamber 5 0x20 (flag 5 0x20 s))" 
    "consistent (flag_chamber 0 0x1 (flag_chamber 5 0x20 (flag 5 0x20 s)))"
    "consistent (flag_chamber 0 0x20 (flag_chamber 5 0x20 (flag 5 0x20 s)))"
  using consistent_chamber_error[OF is_bit_literals(5) assms]
    consistent_flag_chamber[OF is_bit_literals(5) consistent_chamber_error(1)[OF is_bit_literals(5) assms], of 0]
  by (simp_all add: chamber_error_def chamber_error0_def)

lemma consistent_reset_pipeline: "consistent (reset_pipeline s) = consistent s"
  by (simp add: reset_pipeline_def)

lemma consistent_second_ddu_header: "consistent s \<Longrightarrow> consistent (second_ddu_header s)"
  unfolding second_ddu_header_def
  by (intro consistent_missing_trailer1 consistent_intros) (simp_all add: consistent_reset_pipeline consistent_intros)

lemma consistent_ddu_trailer: "consistent s \<Longrightarrow> consistent (ddu_trailer s)"
  unfolding ddu_trailer_def
  by (intro consistent_intros consistent_missing_trailer) (simp_all add: consistent_reset_pipeline)

lemma consistent_check_loop: "consistent s \<Longrightarrow> consistent (snd (check_loop before buffer s))"
proof (induction before buffer s rule: check_loop.induct)
  case (1 before s)
  then show ?case by (auto split: list.split)
next
  case (2 before q buffer s)
  let ?s = "read_word q s" and ?t = "blocks (ddu_header (read_word q s))"
  have s: "consistent ?s" "consistent ?t"
    using "2.prems" by (simp_all add: consistent_read_word consistent_ddu_header consistent_blocks)
  show ?case
  proof (cases "is_ddu_header (buf0 ?s) \<and> fDDU_Header ?s")
    case True
    then show ?thesis using consistent_second_ddu_header[OF s(1)] by (auto simp: Let_def split: list.split)
  next
    case head: False
    show ?thesis
    proof (cases "is_ddu_trailer (buf0 ?t)")
      case True
      then show ?thesis using head consistent_ddu_trailer[OF s(2)] by (auto simp: Let_def)
    next
      case False
      then show ?thesis using head "2.IH"[OF refl head refl False s(2)] by (auto simp: Let_def)
    qed
  qed
qed

lemma consistent_check: "consistent s \<Longrightarrow> consistent (snd (check before buffer s))"
  by (simp add: check_def consistent_check_loop)

section \<open>The summary error\<close>

text \<open>Error 0 of the event is only set together with another one.\<close>

definition summed :: "examiner \<Rightarrow> bool" where
  "summed s \<longleftrightarrow> (fERROR s 0 \<longrightarrow> (\<exists>i \<in> {1..<nERRORS}. fERROR s i))"

lemma summed_flag: "0 < e \<Longrightarrow> e < nERRORS \<Longrightarrow> summed (flag e m s)"
  by (force simp: summed_def flag_def)

lemma summed_flag0: "\<exists>i \<in> {1..<nERRORS}. fERROR s i \<Longrightarrow> summed (flag 0 m s)"
  by (force simp: summed_def flag_def)

lemma summed_same: "fERROR s = fERROR t \<Longrightarrow> summed s = summed t"
  by (simp add: summed_def)

lemma fERROR_other [simp]:
  "fERROR (find_chamber c s) = fERROR s" "fERROR (shift_in q s) = fERROR s" "fERROR (reset_pipeline s) = fERROR s"
  "fERROR (clear_chamber_counts s) = fERROR s" "fERROR (chamber_error e m s) = (fERROR s)(e := True)"
  "fERROR (chamber_error0 e m s) = (fERROR s)(e := True)"
  by (simp_all add: find_chamber_def shift_in_def reset_pipeline_def clear_chamber_counts_def chamber_error_def
    chamber_error0_def)

text \<open>What the blocks do to the errors: only errors other than 0 are added.\<close>

definition adds_errors :: "examiner \<Rightarrow> examiner \<Rightarrow> bool" where
  "adds_errors s t \<longleftrightarrow> (\<forall>i. fERROR s i \<longrightarrow> fERROR t i) \<and> fERROR t 0 = fERROR s 0"

lemma summed_adds: "adds_errors s t \<Longrightarrow> summed s \<Longrightarrow> summed t"
  by (auto simp: adds_errors_def summed_def)

lemma adds_trans: "adds_errors s t \<Longrightarrow> adds_errors t u \<Longrightarrow> adds_errors s u"
  by (simp add: adds_errors_def)

lemma adds_let: "adds_errors s a \<Longrightarrow> (\<And>t. adds_errors s t \<Longrightarrow> adds_errors s (f t)) \<Longrightarrow> adds_errors s (let t = a in f t)"
  by (simp add: Let_def)

lemma adds_if: "adds_errors s a \<Longrightarrow> adds_errors s b \<Longrightarrow> adds_errors s (if c then a else b)"
  by simp

lemma adds_steps:
  assumes "adds_errors s t"
  shows "0 < e \<Longrightarrow> adds_errors s (chamber_error e m t)" "0 < e \<Longrightarrow> adds_errors s (chamber_error0 e m t)"
    "0 < e \<Longrightarrow> adds_errors s (flag e m t)"
    "adds_errors s (forget_unknown t)" "adds_errors s (find_chamber c t)" "adds_errors s (sum_errors c t)"
    "adds_errors s (clear_chamber_counts t)"
  using assms by (auto simp: adds_errors_def)

lemma adds_other [simp]:
  "adds_errors s (t\<lparr>bERROR := v0\<rparr>) = adds_errors s t"
  "adds_errors s (t\<lparr>bWARNING := v1\<rparr>) = adds_errors s t"
  "adds_errors s (t\<lparr>fWARNING := v2\<rparr>) = adds_errors s t"
  "adds_errors s (t\<lparr>fCHAMB_ERR := v3\<rparr>) = adds_errors s t"
  "adds_errors s (t\<lparr>fCHAMB_WRN := v4\<rparr>) = adds_errors s t"
  "adds_errors s (t\<lparr>bCHAMB_ERR := v5\<rparr>) = adds_errors s t"
  "adds_errors s (t\<lparr>bCHAMB_WRN := v6\<rparr>) = adds_errors s t"
  "adds_errors s (t\<lparr>currentChamber := v7\<rparr>) = adds_errors s t"
  "adds_errors s (t\<lparr>buf_1 := v8\<rparr>) = adds_errors s t"
  "adds_errors s (t\<lparr>buf0 := v9\<rparr>) = adds_errors s t"
  "adds_errors s (t\<lparr>buf1 := v10\<rparr>) = adds_errors s t"
  "adds_errors s (t\<lparr>buf2 := v11\<rparr>) = adds_errors s t"
  "adds_errors s (t\<lparr>fDDU_Header := v12\<rparr>) = adds_errors s t"
  "adds_errors s (t\<lparr>fDDU_Trailer := v13\<rparr>) = adds_errors s t"
  "adds_errors s (t\<lparr>fDMB_Header := v14\<rparr>) = adds_errors s t"
  "adds_errors s (t\<lparr>fDMB_Trailer := v15\<rparr>) = adds_errors s t"
  "adds_errors s (t\<lparr>fALCT_Header := v16\<rparr>) = adds_errors s t"
  "adds_errors s (t\<lparr>fTMB_Header := v17\<rparr>) = adds_errors s t"
  "adds_errors s (t\<lparr>uniqueALCT := v18\<rparr>) = adds_errors s t"
  "adds_errors s (t\<lparr>uniqueTMB := v19\<rparr>) = adds_errors s t"
  "adds_errors s (t\<lparr>DAV_ALCT := v20\<rparr>) = adds_errors s t"
  "adds_errors s (t\<lparr>DAV_TMB := v21\<rparr>) = adds_errors s t"
  "adds_errors s (t\<lparr>DAV_CFEB := v22\<rparr>) = adds_errors s t"
  "adds_errors s (t\<lparr>DAV_DMB := v23\<rparr>) = adds_errors s t"
  "adds_errors s (t\<lparr>cntDDU_Headers := v24\<rparr>) = adds_errors s t"
  "adds_errors s (t\<lparr>cntDDU_Trailers := v25\<rparr>) = adds_errors s t"
  "adds_errors s (t\<lparr>cntCHAMB_Headers := v26\<rparr>) = adds_errors s t"
  "adds_errors s (t\<lparr>cntCHAMB_Trailers := v27\<rparr>) = adds_errors s t"
  "adds_errors s (t\<lparr>DDU_WordsSinceLastHeader := v28\<rparr>) = adds_errors s t"
  "adds_errors s (t\<lparr>DDU_WordCount := v29\<rparr>) = adds_errors s t"
  "adds_errors s (t\<lparr>DDU_WordsSinceLastTrailer := v30\<rparr>) = adds_errors s t"
  "adds_errors s (t\<lparr>ALCT_WordsSinceLastHeader := v31\<rparr>) = adds_errors s t"
  "adds_errors s (t\<lparr>ALCT_WordCount := v32\<rparr>) = adds_errors s t"
  "adds_errors s (t\<lparr>ALCT_WordsExpected := v33\<rparr>) = adds_errors s t"
  "adds_errors s (t\<lparr>TMB_WordsSinceLastHeader := v34\<rparr>) = adds_errors s t"
  "adds_errors s (t\<lparr>TMB_WordCount := v35\<rparr>) = adds_errors s t"
  "adds_errors s (t\<lparr>TMB_WordsExpected := v36\<rparr>) = adds_errors s t"
  "adds_errors s (t\<lparr>TMB_Tbins := v37\<rparr>) = adds_errors s t"
  "adds_errors s (t\<lparr>TMB_WordsExpectedCorrection := v38\<rparr>) = adds_errors s t"
  "adds_errors s (t\<lparr>CFEB_SampleWordCount := v39\<rparr>) = adds_errors s t"
  "adds_errors s (t\<lparr>CFEB_SampleCount := v40\<rparr>) = adds_errors s t"
  "adds_errors s (t\<lparr>CFEB_BSampleCount := v41\<rparr>) = adds_errors s t"
  "adds_errors s (t\<lparr>checkCrcALCT := v42\<rparr>) = adds_errors s t"
  "adds_errors s (t\<lparr>ALCT_CRC := v43\<rparr>) = adds_errors s t"
  "adds_errors s (t\<lparr>checkCrcTMB := v44\<rparr>) = adds_errors s t"
  "adds_errors s (t\<lparr>TMB_CRC := v45\<rparr>) = adds_errors s t"
  "adds_errors s (t\<lparr>checkCrcCFEB := v46\<rparr>) = adds_errors s t"
  "adds_errors s (t\<lparr>CFEB_CRC := v47\<rparr>) = adds_errors s t"
  by (simp_all add: adds_errors_def)

lemma adds_refl: "adds_errors s s"
  by (simp add: adds_errors_def)

lemmas adds_intros = adds_let adds_if adds_steps

lemma adds_check_davs: "adds_errors s t \<Longrightarrow> adds_errors s (check_davs t)"
  unfolding check_davs_def by (intro adds_intros) simp_all

lemma adds_check_counts: "adds_errors s t \<Longrightarrow> adds_errors s (check_counts t)"
  unfolding check_counts_def by (intro adds_intros) (simp_all add: adds_steps)

lemma adds_blocks_parts:
  assumes "adds_errors s t"
  shows "adds_errors s (dmb_header t)" "adds_errors s (alct_header t)" "adds_errors s (tmb_header t)"
    "adds_errors s (alct_trailer t)" "adds_errors s (alct_crc t)" "adds_errors s (tmb_correction t)"
    "adds_errors s (tmb_trailer t)" "adds_errors s (tmb_crc t)" "adds_errors s (cfeb_trailer t)"
    "adds_errors s (cfeb_crc t)" "adds_errors s (cfeb_b_word t)" "adds_errors s (dmb_f_trailer t)"
    "adds_errors s (dmb_e_trailer t)"
  unfolding dmb_header_def alct_header_def tmb_header_def alct_trailer_def alct_crc_def tmb_correction_def
    tmb_trailer_def tmb_crc_def cfeb_trailer_def cfeb_crc_def cfeb_b_word_def dmb_f_trailer_def dmb_e_trailer_def
    Let_def[of "uint _"]
  by (intro adds_intros adds_check_davs adds_check_counts;
    simp add: assms adds_steps)+

lemma summed_blocks:
  assumes "summed s"
  shows "summed (blocks s)"
  by (rule summed_adds[OF _ assms]) (unfold blocks_def, intro adds_blocks_parts adds_refl)

lemma summed_read_word:
  assumes "summed s"
  shows "summed (read_word q s)"
proof -
  have "adds_errors s (count_words (check_size (shift_in q s)))"
    unfolding count_words_def check_size_def shift_in_def
    by (intro adds_intros) (simp_all add: adds_refl adds_steps)
  then have t: "summed (count_words (check_size (shift_in q s)))" (is "summed ?t") using assms by (rule summed_adds)
  show ?thesis unfolding read_word_def c_words_def[of ?t] using t by (simp add: summed_flag nERRORS_def)
qed

lemma summed_ddu_header:
  assumes "summed s"
  shows "summed (ddu_header s)"
  using assms by (simp add: ddu_header_def summed_def clear_errors_def Let_def)

lemma error1: "\<exists>i \<in> {1..<nERRORS}. fERROR (flag 1 m s) i"
  by (auto simp: nERRORS_def intro!: bexI[of _ 1])

lemma summed_second_ddu_header: "summed (second_ddu_header s)"
proof -
  have "adds_errors (flag 0 0x1 (flag 1 0x2 s)) (second_ddu_header s)"
    unfolding second_ddu_header_def reset_pipeline_def
    by (rule adds_let[OF adds_refl]) (intro adds_intros; simp add: adds_steps flag_chamber_def)
  then show ?thesis by (rule summed_adds) (rule summed_flag0[OF error1])
qed

text \<open>The trailer sums the errors up.\<close>

definition sums_up :: "examiner \<Rightarrow> bool" where
  "sums_up s \<longleftrightarrow> ((\<exists>i \<in> {1..<nERRORS}. fERROR s i) \<longleftrightarrow> fERROR s 0)"

lemma sums_up_if:
  assumes "summed s"
  shows "sums_up (if \<exists>i \<in> {1..<nERRORS}. fERROR s i then flag 0 m s else s)"
  using assms by (auto simp: summed_def sums_up_def)

lemma sums_up_let:
  assumes "adds_errors s a" and "\<And>t. adds_errors s t \<Longrightarrow> sums_up (f t)"
  shows "sums_up (let t = a in f t)"
  using assms by (simp add: Let_def)

lemma sums_up_other: "sums_up t \<Longrightarrow>
  sums_up (reset_pipeline (t\<lparr>DDU_WordsSinceLastHeader := v, DDU_WordsSinceLastTrailer := w\<rparr>))"
  by (simp add: sums_up_def)

lemma ddu_trailer_sums:
  assumes "summed s"
  shows "sums_up (ddu_trailer s)"
  unfolding ddu_trailer_def
  apply (rule sums_up_let[where s = s], (intro adds_intros; simp add: adds_refl)[1])
  apply (rule sums_up_let[where s = s], simp)
  apply (rule sums_up_let[where s = s], (intro adds_intros; simp add: adds_steps flag_chamber_def)[1])
  apply (rule sums_up_let[where s = s], simp)
  apply (rule sums_up_let[where s = s], simp)
  apply (rule sums_up_let[where s = s], intro adds_intros, assumption)
  apply (rule sums_up_let[where s = s], intro adds_intros, assumption)
  apply (rule sums_up_let[where s = s], simp)
  apply (rule sums_up_let[where s = s], (intro adds_intros; simp)[1])
  apply (rule sums_up_let[where s = s], (intro adds_intros; simp)[1])
  unfolding Let_def
  by (intro sums_up_other sums_up_if summed_adds[OF _ assms])

lemma summed_check_loop: "summed s \<Longrightarrow> summed (snd (check_loop before buffer s))"
proof (induction before buffer s rule: check_loop.induct)
  case (1 before s)
  have "summed (s\<lparr>buf_1 := a, buf0 := b, buf1 := c, buf2 := d\<rparr>)" for a b c d using 1 by (simp add: summed_def)
  then show ?case using 1 by (auto split: list.split)
next
  case (2 before q buffer s)
  let ?s = "read_word q s" and ?t = "blocks (ddu_header (read_word q s))"
  have t: "summed ?t" using "2.prems" by (intro summed_blocks summed_ddu_header summed_read_word)
  show ?case
  proof (cases "is_ddu_header (buf0 ?s) \<and> fDDU_Header ?s")
    case True
    then show ?thesis using summed_second_ddu_header[of ?s] by (auto simp: Let_def split: list.split)
  next
    case head: False
    show ?thesis
    proof (cases "is_ddu_trailer (buf0 ?t)")
      case True
      moreover have "summed (ddu_trailer ?t)" using ddu_trailer_sums[OF t] by (auto simp: sums_up_def summed_def)
      ultimately show ?thesis using head by (auto simp: Let_def)
    next
      case False
      then show ?thesis using head "2.IH"[OF refl head refl False t] by (auto simp: Let_def)
    qed
  qed
qed

lemma event_sums_up: "summed s \<Longrightarrow> fst (check_loop before buffer s) = Event b r \<Longrightarrow> sums_up (snd (check_loop before buffer s))"
proof (induction before buffer s rule: check_loop.induct)
  case (1 before s)
  then show ?case by (simp split: list.splits)
next
  case (2 before q buffer s)
  let ?s = "read_word q s" and ?t = "blocks (ddu_header (read_word q s))"
  have t: "summed ?t" using "2.prems" by (intro summed_blocks summed_ddu_header summed_read_word)
  have head: "\<not> (is_ddu_header (buf0 ?s) \<and> fDDU_Header ?s)"
    using "2.prems"(2) by (auto simp: Let_def split: list.splits)
  show ?case
  proof (cases "is_ddu_trailer (buf0 ?t)")
    case True
    then show ?thesis using head ddu_trailer_sums[OF t] by (auto simp: Let_def)
  next
    case False
    then have "check_loop before (q # buffer) s = check_loop (q # before) buffer ?t" using head by (auto simp: Let_def)
    then show ?thesis using "2.IH"[OF refl head refl False t] "2.prems"(2) by simp
  qed
qed

section \<open>The states the methods reach\<close>

inductive reachable :: "examiner \<Rightarrow> bool" where
  constructed: "reachable (dduBinExaminer s)"
| enable_ALCT: "reachable s \<Longrightarrow> reachable (crcALCT enable s)"
| enable_TMB: "reachable s \<Longrightarrow> reachable (crcTMB enable s)"
| enable_CFEB: "reachable s \<Longrightarrow> reachable (crcCFEB enable s)"
| checked: "reachable s \<Longrightarrow> reachable (snd (check before buffer s))"

lemma constructor_invariants: "consistent (dduBinExaminer s)" "summed (dduBinExaminer s)"
  by (rule consistentI; simp add: dduBinExaminer_def) (simp add: summed_def dduBinExaminer_def)

lemma reachable_consistent: "reachable s \<Longrightarrow> consistent s"
  by (induction rule: reachable.induct)
    (simp_all add: constructor_invariants crcALCT_def crcTMB_def crcCFEB_def consistent_check)

lemma summed_check: "summed s \<Longrightarrow> summed (snd (check before buffer s))"
  by (simp add: check_def summed_check_loop)

lemma reachable_summed: "reachable s \<Longrightarrow> summed s"
proof (induction rule: reachable.induct)
  case (constructed s)
  show ?case by (rule constructor_invariants)
next
  case (checked s before buffer)
  show ?case using checked.IH by (rule summed_check)
qed (simp_all add: summed_def crcALCT_def crcTMB_def crcCFEB_def)

lemma all_nums: "(\<exists>num \<in> {1..24}. error num s) \<longleftrightarrow> (\<exists>i \<in> {1..<nERRORS}. fERROR s i)"
proof
  assume "\<exists>num \<in> {1..24}. error num s"
  then obtain num where num: "1 \<le> num" "num \<le> 24" "fERROR s (nat num)" by (auto simp: error_def)
  then have "nat num \<in> {1..<nERRORS}" unfolding nERRORS_def atLeastLessThan_iff by linarith
  with num(3) show "\<exists>i \<in> {1..<nERRORS}. fERROR s i" by blast
next
  assume "\<exists>i \<in> {1..<nERRORS}. fERROR s i"
  then obtain i where i: "1 \<le> i" "i < nERRORS" "fERROR s i" by auto
  then have "int i \<in> {1..24}" "error (int i) s" by (simp_all add: error_def nERRORS_def)
  then show "\<exists>num \<in> {1..24}. error num s" by blast
qed

section \<open>Properties\<close>

text \<open>C36. In every state that the constructor and any calls of \<^verbatim>\<open>check\<close> and of the \<^verbatim>\<open>crc\<close> setters lead to,
  on any data, the reports of the class fit together: the bits of \<^verbatim>\<open>errors()\<close> are exactly the numbers for
  which \<^verbatim>\<open>error(num)\<close> holds, and so for the warnings; a bit of \<^verbatim>\<open>errorsForChamber\<close> means that the chamber is
  in \<^verbatim>\<open>chambersWithError\<close>, and a chamber there with an error other than 0 means that the event has the
  error. Error 0 comes only with another error, and at the end of an event it says that there is one.\<close>

theorem error_reports_agree:
  assumes "reachable s"
  shows "(\<forall>num. error num s \<longleftrightarrow> num \<ge> 0 \<and> bit (errors s) (nat num)) \<and>
    (\<forall>num. warning num s \<longleftrightarrow> num \<ge> 0 \<and> bit (warnings s) (nat num)) \<and>
    (\<forall>chamber num. num \<ge> 0 \<and> bit (errorsForChamber chamber s) (nat num) \<longrightarrow> chamber \<in> chambersWithError num s) \<and>
    (\<forall>chamber num. chamber \<in> chambersWithError num s \<longrightarrow> num = 0 \<or> error num s) \<and>
    (\<forall>chamber num. num \<ge> 0 \<and> bit (warningsForChamber chamber s) (nat num) \<longrightarrow> chamber \<in> chambersWithWarning num s) \<and>
    (\<forall>chamber num. chamber \<in> chambersWithWarning num s \<longrightarrow> warning num s) \<and>
    (error 0 s \<longrightarrow> (\<exists>num \<in> {1..24}. error num s)) \<and>
    (\<forall>before buffer b r. fst (check before buffer s) = Event b r \<longrightarrow>
      error 0 (snd (check before buffer s)) = (\<exists>num \<in> {1..24}. error num (snd (check before buffer s))))"
proof -
  note D = consistentD[OF reachable_consistent[OF assms]] and same = consistent_same[OF reachable_consistent[OF assms]]
  have m: "errorsForChamber c s = mget (bCHAMB_ERR s) c" "warningsForChamber c s = mget (bCHAMB_WRN s) c" for c
    by (simp_all add: errorsForChamber_def warningsForChamber_def mget_def split: option.split)
  have nat: "num < int n" if "nat num < n" for num n using that by linarith
  have 1: "error num s \<longleftrightarrow> num \<ge> 0 \<and> bit (errors s) (nat num)" for num
    using D(1)[of "nat num"] by (auto simp: error_def errors_def same intro: nat)
  have 2: "warning num s \<longleftrightarrow> num \<ge> 0 \<and> bit (warnings s) (nat num)" for num
    using D(2)[of "nat num"] by (auto simp: warning_def warnings_def same intro: nat)
  have 3: "chamber \<in> chambersWithError num s"
    if "num \<ge> 0 \<and> bit (errorsForChamber chamber s) (nat num)" for chamber num
    using that D(3)[of chamber "nat num"] D(8)[of chamber "nat num"] by (auto simp: chambersWithError_def m intro: nat)
  have 4: "num = 0 \<or> error num s" if "chamber \<in> chambersWithError num s" for chamber num
    using that D(4)[of chamber "nat num"] by (auto simp: chambersWithError_def error_def split: if_splits)
  have wrn: "nat num = 1 \<and> fWARNING s 1" if "chamber \<in> fCHAMB_WRN s (nat num)" for chamber num
    using that D(6,7) by blast
  have 5: "chamber \<in> chambersWithWarning num s"
    if b: "num \<ge> 0 \<and> bit (warningsForChamber chamber s) (nat num)" for chamber num
  proof -
    have c: "chamber \<in> fCHAMB_WRN s (nat num)" using b D(5) by (simp add: m)
    then have "num = 1" using b wrn[OF c] by linarith
    then show ?thesis using c by (simp add: chambersWithWarning_def nWARNINGS_def)
  qed
  have 6: "warning num s" if "chamber \<in> chambersWithWarning num s" for chamber num
    using that wrn[of chamber num] by (auto simp: chambersWithWarning_def warning_def split: if_splits)
  have zero: "error 0 t = fERROR t 0" for t by (simp add: error_def nERRORS_def)
  have 7: "error 0 s \<longrightarrow> (\<exists>num \<in> {1..24}. error num s)"
    unfolding all_nums zero using reachable_summed[OF assms] by (simp add: summed_def)
  have 8: "error 0 (snd (check before buffer s)) = (\<exists>num \<in> {1..24}. error num (snd (check before buffer s)))"
    if "fst (check before buffer s) = Event b r" for before buffer b r
    unfolding all_nums zero using that event_sums_up[OF reachable_summed[OF assms], of before buffer b r]
    by (auto simp: check_def sums_up_def split: if_splits)
  show ?thesis by (intro conjI allI impI; (rule 1 2 3 4 5 6 8 7[THEN mp]; assumption?))
qed

lemma count_error:
  assumes "DDU_WordsSinceLastHeader s + 4 \<noteq> ucast (q2 (buf2 s)) OR push_bit 16 (ucast (q3 (buf2 s)) AND 0xFF)"
  shows "fERROR (ddu_trailer s) 4"
  using assms by (simp add: ddu_trailer_def Let_def)

theorem error_reports_agree_witness:
  "\<forall>s0. let s = snd (check [] [Quad 0x8000 0x8000 0xFFFF 0x8000, no_quad, no_quad] (dduBinExaminer s0))
     in error 4 s \<and> bit (errors s) 4"
proof
  fix s0
  let ?t = "Quad 0x8000 0x8000 0xFFFF 0x8000" and ?s = "dduBinExaminer s0"
  let ?b = "[?t, no_quad, no_quad]"
  have no: "\<not> special no_quad" "\<not> starts no_quad" "\<not> is_dmb_header no_quad" "\<not> is_alct_trailer no_quad"
    "\<not> is_ddu_header no_quad" "\<not> is_ddu_trailer no_quad"
    by (simp_all add: special_def starts_def signature_defs no_quad_def)
  have t: "is_ddu_trailer ?t" by (simp add: signature_defs)
  have s: "?s = at no_quad no_quad no_quad no_quad ?s" by (simp add: dduBinExaminer_def at_def)
  have fl: "\<not> fALCT_Header ?s" "\<not> fTMB_Header ?s" "\<not> fDMB_Header ?s" "DDU_WordsSinceLastHeader ?s = 0"
    by (simp_all add: dduBinExaminer_def)
  have c: "counted (at p q n nn ?s) = at p q n nn ?s" for p q n nn
    by (simp add: counted_def c_words_def count_words_def check_size_def at_def dduBinExaminer_def)
  have w: "work (at no_quad no_quad n nn ?s) = at no_quad no_quad n nn ?s" for n nn
    using no by (subst work_outside) (simp_all add: c no_start_def fl)
  have e: "work (at no_quad ?t no_quad no_quad ?s) = counted (at no_quad ?t no_quad no_quad ?s)"
    using t by (subst work_ddu_trailer) (simp_all add: fl)
  have "check_loop [] ?b (at no_quad no_quad no_quad no_quad ?s) =
      (Event (rev ?b) [], ddu_trailer (counted (at no_quad ?t no_quad no_quad ?s)))"
    using no t by (simp add: check_loop_round check_loop_end w c e ddu_trailer_only del: check_loop.simps)
  then have check: "check [] ?b ?s = (Event (rev ?b) [], ddu_trailer (at no_quad ?t no_quad no_quad ?s))"
    by (simp add: check_def s[symmetric] c del: check_loop.simps)
  have "error 4 (ddu_trailer (at no_quad ?t no_quad no_quad ?s))"
    by (simp add: error_def nERRORS_def, rule count_error) (simp add: fl no_quad_def)
  then have "error 4 (snd (check [] ?b ?s))" by (simp add: check)
  then show "let s = snd (check [] ?b ?s) in error 4 s \<and> bit (errors s) 4"
    using error_reports_agree[OF reachable.checked[OF reachable.constructed], of "[]" ?b s0] unfolding Let_def by simp
qed

end
