(* ===== verification/Examiner_Run.thy ===== *)
theory Examiner_Run
  imports Examiner_Words
begin

text \<open>
  The loop of the format checker over many words: the pipeline set apart from the rest of the state, and
  the rounds over a list of words as one function.
\<close>

unbundle bit_operations_syntax

declare check_loop.simps(2) [simp del]

section \<open>Rounds over many words\<close>

definition bufs :: "examiner \<Rightarrow> quad \<times> quad \<times> quad \<times> quad" where
  "bufs s = (buf_1 s, buf0 s, buf1 s, buf2 s)"

lemma bufs_let: "bufs a = l \<Longrightarrow> (\<And>t. bufs t = l \<Longrightarrow> bufs (f t) = l) \<Longrightarrow> bufs (let t = a in f t) = l"
  by (simp add: Let_def)

lemma bufs_if: "bufs a = l \<Longrightarrow> bufs b = l \<Longrightarrow> bufs (if c then a else b) = l"
  by simp

lemma bufs_steps [simp]:
  "bufs (flag e m s) = bufs s" "bufs (flag_chamber e m s) = bufs s" "bufs (chamber_error e m s) = bufs s"
  "bufs (chamber_error0 e m s) = bufs s" "bufs (forget_unknown s) = bufs s" "bufs (sum_errors c s) = bufs s"
  "bufs (find_chamber c s) = bufs s" "bufs (clear_errors s) = bufs s" "bufs (clear_chamber_counts s) = bufs s"
  by (simp_all add: bufs_def find_chamber_def clear_errors_def clear_chamber_counts_def)

lemma bufs_other [simp]:
  "bufs (s\<lparr>bERROR := v0\<rparr>) = bufs s" "bufs (s\<lparr>bWARNING := v1\<rparr>) = bufs s"
  "bufs (s\<lparr>fERROR := v2\<rparr>) = bufs s" "bufs (s\<lparr>fWARNING := v3\<rparr>) = bufs s"
  "bufs (s\<lparr>fCHAMB_ERR := v4\<rparr>) = bufs s" "bufs (s\<lparr>fCHAMB_WRN := v5\<rparr>) = bufs s"
  "bufs (s\<lparr>bCHAMB_ERR := v6\<rparr>) = bufs s" "bufs (s\<lparr>bCHAMB_WRN := v7\<rparr>) = bufs s"
  "bufs (s\<lparr>currentChamber := v8\<rparr>) = bufs s" "bufs (s\<lparr>fDDU_Header := v9\<rparr>) = bufs s"
  "bufs (s\<lparr>fDDU_Trailer := v10\<rparr>) = bufs s" "bufs (s\<lparr>fDMB_Header := v11\<rparr>) = bufs s"
  "bufs (s\<lparr>fDMB_Trailer := v12\<rparr>) = bufs s" "bufs (s\<lparr>fALCT_Header := v13\<rparr>) = bufs s"
  "bufs (s\<lparr>fTMB_Header := v14\<rparr>) = bufs s" "bufs (s\<lparr>uniqueALCT := v15\<rparr>) = bufs s"
  "bufs (s\<lparr>uniqueTMB := v16\<rparr>) = bufs s" "bufs (s\<lparr>DAV_ALCT := v17\<rparr>) = bufs s"
  "bufs (s\<lparr>DAV_TMB := v18\<rparr>) = bufs s" "bufs (s\<lparr>DAV_CFEB := v19\<rparr>) = bufs s"
  "bufs (s\<lparr>DAV_DMB := v20\<rparr>) = bufs s" "bufs (s\<lparr>cntDDU_Headers := v21\<rparr>) = bufs s"
  "bufs (s\<lparr>cntDDU_Trailers := v22\<rparr>) = bufs s" "bufs (s\<lparr>cntCHAMB_Headers := v23\<rparr>) = bufs s"
  "bufs (s\<lparr>cntCHAMB_Trailers := v24\<rparr>) = bufs s"
  "bufs (s\<lparr>DDU_WordsSinceLastHeader := v25\<rparr>) = bufs s"
  "bufs (s\<lparr>DDU_WordCount := v26\<rparr>) = bufs s"
  "bufs (s\<lparr>DDU_WordsSinceLastTrailer := v27\<rparr>) = bufs s"
  "bufs (s\<lparr>ALCT_WordsSinceLastHeader := v28\<rparr>) = bufs s"
  "bufs (s\<lparr>ALCT_WordCount := v29\<rparr>) = bufs s" "bufs (s\<lparr>ALCT_WordsExpected := v30\<rparr>) = bufs s"
  "bufs (s\<lparr>TMB_WordsSinceLastHeader := v31\<rparr>) = bufs s"
  "bufs (s\<lparr>TMB_WordCount := v32\<rparr>) = bufs s" "bufs (s\<lparr>TMB_WordsExpected := v33\<rparr>) = bufs s"
  "bufs (s\<lparr>TMB_Tbins := v34\<rparr>) = bufs s"
  "bufs (s\<lparr>TMB_WordsExpectedCorrection := v35\<rparr>) = bufs s"
  "bufs (s\<lparr>CFEB_SampleWordCount := v36\<rparr>) = bufs s"
  "bufs (s\<lparr>CFEB_SampleCount := v37\<rparr>) = bufs s"
  "bufs (s\<lparr>CFEB_BSampleCount := v38\<rparr>) = bufs s" "bufs (s\<lparr>checkCrcALCT := v39\<rparr>) = bufs s"
  "bufs (s\<lparr>ALCT_CRC := v40\<rparr>) = bufs s" "bufs (s\<lparr>checkCrcTMB := v41\<rparr>) = bufs s"
  "bufs (s\<lparr>TMB_CRC := v42\<rparr>) = bufs s" "bufs (s\<lparr>checkCrcCFEB := v43\<rparr>) = bufs s"
  "bufs (s\<lparr>CFEB_CRC := v44\<rparr>) = bufs s"
  by (simp_all add: bufs_def)

lemmas bufs_intros = bufs_let bufs_if

lemma bufs_check_davs: "bufs s = l \<Longrightarrow> bufs (check_davs s) = l"
  unfolding check_davs_def by (intro bufs_intros) simp_all

lemma bufs_check_counts: "bufs s = l \<Longrightarrow> bufs (check_counts s) = l"
  unfolding check_counts_def by (intro bufs_intros) simp_all

lemma bufs_parts:
  assumes "bufs s = l"
  shows "bufs (ddu_header s) = l" "bufs (dmb_header s) = l" "bufs (alct_header s) = l" "bufs (tmb_header s) = l"
    "bufs (alct_trailer s) = l" "bufs (alct_crc s) = l" "bufs (tmb_correction s) = l" "bufs (tmb_trailer s) = l"
    "bufs (tmb_crc s) = l" "bufs (cfeb_trailer s) = l" "bufs (cfeb_crc s) = l" "bufs (cfeb_b_word s) = l"
    "bufs (dmb_f_trailer s) = l" "bufs (dmb_e_trailer s) = l"
  unfolding ddu_header_def dmb_header_def alct_header_def tmb_header_def alct_trailer_def alct_crc_def tmb_correction_def
    tmb_trailer_def tmb_crc_def cfeb_trailer_def cfeb_crc_def cfeb_b_word_def dmb_f_trailer_def dmb_e_trailer_def
    Let_def[of "uint _"]
  by (intro bufs_intros bufs_check_davs bufs_check_counts; simp add: assms)+

lemma buf_parts [simp]:
  "buf_1 (ddu_header s) = buf_1 s" "buf0 (ddu_header s) = buf0 s" "buf1 (ddu_header s) = buf1 s"
  "buf2 (ddu_header s) = buf2 s" "buf_1 (dmb_header s) = buf_1 s" "buf0 (dmb_header s) = buf0 s"
  "buf1 (dmb_header s) = buf1 s" "buf2 (dmb_header s) = buf2 s" "buf_1 (alct_header s) = buf_1 s"
  "buf0 (alct_header s) = buf0 s" "buf1 (alct_header s) = buf1 s" "buf2 (alct_header s) = buf2 s"
  "buf_1 (tmb_header s) = buf_1 s" "buf0 (tmb_header s) = buf0 s" "buf1 (tmb_header s) = buf1 s"
  "buf2 (tmb_header s) = buf2 s" "buf_1 (alct_trailer s) = buf_1 s" "buf0 (alct_trailer s) = buf0 s"
  "buf1 (alct_trailer s) = buf1 s" "buf2 (alct_trailer s) = buf2 s" "buf_1 (tmb_trailer s) = buf_1 s"
  "buf0 (tmb_trailer s) = buf0 s" "buf1 (tmb_trailer s) = buf1 s" "buf2 (tmb_trailer s) = buf2 s"
  "buf_1 (cfeb_trailer s) = buf_1 s" "buf0 (cfeb_trailer s) = buf0 s" "buf1 (cfeb_trailer s) = buf1 s"
  "buf2 (cfeb_trailer s) = buf2 s" "buf_1 (cfeb_b_word s) = buf_1 s" "buf0 (cfeb_b_word s) = buf0 s"
  "buf1 (cfeb_b_word s) = buf1 s" "buf2 (cfeb_b_word s) = buf2 s" "buf_1 (dmb_f_trailer s) = buf_1 s"
  "buf0 (dmb_f_trailer s) = buf0 s" "buf1 (dmb_f_trailer s) = buf1 s" "buf2 (dmb_f_trailer s) = buf2 s"
  "buf_1 (dmb_e_trailer s) = buf_1 s" "buf0 (dmb_e_trailer s) = buf0 s" "buf1 (dmb_e_trailer s) = buf1 s"
  "buf2 (dmb_e_trailer s) = buf2 s"
  using bufs_parts[OF refl, of s] by (simp_all add: bufs_def)

lemma bufs_work: "bufs (work s) = bufs s"
proof -
  have "bufs (c_words (count_words (check_size s))) = bufs s" by (simp add: bufs_def counted_def[symmetric])
  then show ?thesis unfolding work_def blocks_def by (intro bufs_parts)
qed

lemma buf_work [simp]: "buf_1 (work s) = buf_1 s" "buf0 (work s) = buf0 s" "buf1 (work s) = buf1 s" "buf2 (work s) = buf2 s"
  using bufs_work[of s] by (simp_all add: bufs_def)

text \<open>The state without the pipeline, and the rounds over some words, when \<open>p\<close> came before and \<open>n\<close> and
  \<open>nn\<close> follow.\<close>

definition bare :: "examiner \<Rightarrow> examiner" where
  "bare s = at no_quad no_quad no_quad no_quad s"

lemma bare_at [simp]: "bare (at p c n nn s) = bare s" "at p c n nn (bare s) = at p c n nn s" "bare (bare s) = bare s"
  by (simp_all add: bare_def)

lemma at_work [simp]: "at p c n nn (work (at p c n nn s)) = work (at p c n nn s)"
  using at_self[of "work (at p c n nn s)"] by simp

fun run :: "quad \<Rightarrow> quad list \<Rightarrow> quad \<Rightarrow> quad \<Rightarrow> examiner \<Rightarrow> examiner" where
  "run p [] n nn s = s"
| "run p (c # cs) n nn s =
     run c cs n nn (bare (work (at p c (hd (cs @ [n, nn])) (hd (tl (cs @ [n, nn]))) s)))"

lemma run_append:
  "run p (cs @ ds) n nn s =
   run (List.last (p # cs)) ds n nn (run p cs (hd (ds @ [n, nn])) (hd (tl (ds @ [n, nn]))) s)"
proof (induction cs arbitrary: p s)
  case (Cons c cs)
  have "hd (tl ((cs @ ds) @ [n, nn])) = hd (tl (cs @ [hd (ds @ [n, nn]), hd (tl (ds @ [n, nn]))]))"
    "hd ((cs @ ds) @ [n, nn]) = hd (cs @ [hd (ds @ [n, nn]), hd (tl (ds @ [n, nn]))])"
    by (cases cs; cases "tl cs"; cases ds; cases "tl ds"; auto)+
  then show ?case by (simp add: Cons.IH)
qed simp

text \<open>The loop over words that neither begin nor end an event.\<close>

lemma check_loop_run:
  assumes "\<forall>c \<in> set cs. \<not> is_ddu_trailer c \<and> \<not> is_ddu_header c"
  shows "\<exists>x'. check_loop before (drop 2 (cs @ [n, nn]) @ rest) (at x p (hd (cs @ [n, nn])) (hd (tl (cs @ [n, nn]))) s) =
    check_loop (rev (drop 2 (cs @ [n, nn])) @ before) rest
      (at x' (List.last (p # cs)) n nn (run p cs n nn s))"
  using assms
proof (induction cs arbitrary: before x p s)
  case (Cons c cs)
  obtain d e ds where l: "cs @ [n, nn] = d # e # ds" by (cases cs; cases "tl cs"; auto)
  have round: "check_loop before (e # ds @ rest) (at x p c d s) =
      check_loop (e # before) (ds @ rest) (at p c d e (bare (work (at p c d e s))))"
    using Cons.prems by (subst check_loop_round) simp_all
  obtain x' where "check_loop (e # before) (ds @ rest) (at p c d e (bare (work (at p c d e s)))) =
      check_loop (rev ds @ e # before) rest (at x' (List.last (c # cs)) n nn (run c cs n nn (bare (work (at p c d e s)))))"
    using Cons.IH[of "e # before" p c "bare (work (at p c d e s))"] Cons.prems by (auto simp: l)
  then show ?case using round by (auto simp: l)
qed (auto)

lemma bare_upd [simp]:
  "bare (s\<lparr>bERROR := v0\<rparr>) = bare s\<lparr>bERROR := v0\<rparr>"
  "bare (s\<lparr>bWARNING := v1\<rparr>) = bare s\<lparr>bWARNING := v1\<rparr>"
  "bare (s\<lparr>fERROR := v2\<rparr>) = bare s\<lparr>fERROR := v2\<rparr>"
  "bare (s\<lparr>fWARNING := v3\<rparr>) = bare s\<lparr>fWARNING := v3\<rparr>"
  "bare (s\<lparr>fCHAMB_ERR := v4\<rparr>) = bare s\<lparr>fCHAMB_ERR := v4\<rparr>"
  "bare (s\<lparr>fCHAMB_WRN := v5\<rparr>) = bare s\<lparr>fCHAMB_WRN := v5\<rparr>"
  "bare (s\<lparr>bCHAMB_ERR := v6\<rparr>) = bare s\<lparr>bCHAMB_ERR := v6\<rparr>"
  "bare (s\<lparr>bCHAMB_WRN := v7\<rparr>) = bare s\<lparr>bCHAMB_WRN := v7\<rparr>"
  "bare (s\<lparr>currentChamber := v8\<rparr>) = bare s\<lparr>currentChamber := v8\<rparr>"
  "bare (s\<lparr>fDDU_Header := v9\<rparr>) = bare s\<lparr>fDDU_Header := v9\<rparr>"
  "bare (s\<lparr>fDDU_Trailer := v10\<rparr>) = bare s\<lparr>fDDU_Trailer := v10\<rparr>"
  "bare (s\<lparr>fDMB_Header := v11\<rparr>) = bare s\<lparr>fDMB_Header := v11\<rparr>"
  "bare (s\<lparr>fDMB_Trailer := v12\<rparr>) = bare s\<lparr>fDMB_Trailer := v12\<rparr>"
  "bare (s\<lparr>fALCT_Header := v13\<rparr>) = bare s\<lparr>fALCT_Header := v13\<rparr>"
  "bare (s\<lparr>fTMB_Header := v14\<rparr>) = bare s\<lparr>fTMB_Header := v14\<rparr>"
  "bare (s\<lparr>uniqueALCT := v15\<rparr>) = bare s\<lparr>uniqueALCT := v15\<rparr>"
  "bare (s\<lparr>uniqueTMB := v16\<rparr>) = bare s\<lparr>uniqueTMB := v16\<rparr>"
  "bare (s\<lparr>DAV_ALCT := v17\<rparr>) = bare s\<lparr>DAV_ALCT := v17\<rparr>"
  "bare (s\<lparr>DAV_TMB := v18\<rparr>) = bare s\<lparr>DAV_TMB := v18\<rparr>"
  "bare (s\<lparr>DAV_CFEB := v19\<rparr>) = bare s\<lparr>DAV_CFEB := v19\<rparr>"
  "bare (s\<lparr>DAV_DMB := v20\<rparr>) = bare s\<lparr>DAV_DMB := v20\<rparr>"
  "bare (s\<lparr>cntDDU_Headers := v21\<rparr>) = bare s\<lparr>cntDDU_Headers := v21\<rparr>"
  "bare (s\<lparr>cntDDU_Trailers := v22\<rparr>) = bare s\<lparr>cntDDU_Trailers := v22\<rparr>"
  "bare (s\<lparr>cntCHAMB_Headers := v23\<rparr>) = bare s\<lparr>cntCHAMB_Headers := v23\<rparr>"
  "bare (s\<lparr>cntCHAMB_Trailers := v24\<rparr>) = bare s\<lparr>cntCHAMB_Trailers := v24\<rparr>"
  "bare (s\<lparr>DDU_WordsSinceLastHeader := v25\<rparr>) = bare s\<lparr>DDU_WordsSinceLastHeader := v25\<rparr>"
  "bare (s\<lparr>DDU_WordCount := v26\<rparr>) = bare s\<lparr>DDU_WordCount := v26\<rparr>"
  "bare (s\<lparr>DDU_WordsSinceLastTrailer := v27\<rparr>) = bare s\<lparr>DDU_WordsSinceLastTrailer := v27\<rparr>"
  "bare (s\<lparr>ALCT_WordsSinceLastHeader := v28\<rparr>) = bare s\<lparr>ALCT_WordsSinceLastHeader := v28\<rparr>"
  "bare (s\<lparr>ALCT_WordCount := v29\<rparr>) = bare s\<lparr>ALCT_WordCount := v29\<rparr>"
  "bare (s\<lparr>ALCT_WordsExpected := v30\<rparr>) = bare s\<lparr>ALCT_WordsExpected := v30\<rparr>"
  "bare (s\<lparr>TMB_WordsSinceLastHeader := v31\<rparr>) = bare s\<lparr>TMB_WordsSinceLastHeader := v31\<rparr>"
  "bare (s\<lparr>TMB_WordCount := v32\<rparr>) = bare s\<lparr>TMB_WordCount := v32\<rparr>"
  "bare (s\<lparr>TMB_WordsExpected := v33\<rparr>) = bare s\<lparr>TMB_WordsExpected := v33\<rparr>"
  "bare (s\<lparr>TMB_Tbins := v34\<rparr>) = bare s\<lparr>TMB_Tbins := v34\<rparr>"
  "bare (s\<lparr>TMB_WordsExpectedCorrection := v35\<rparr>) = bare s\<lparr>TMB_WordsExpectedCorrection := v35\<rparr>"
  "bare (s\<lparr>CFEB_SampleWordCount := v36\<rparr>) = bare s\<lparr>CFEB_SampleWordCount := v36\<rparr>"
  "bare (s\<lparr>CFEB_SampleCount := v37\<rparr>) = bare s\<lparr>CFEB_SampleCount := v37\<rparr>"
  "bare (s\<lparr>CFEB_BSampleCount := v38\<rparr>) = bare s\<lparr>CFEB_BSampleCount := v38\<rparr>"
  "bare (s\<lparr>checkCrcALCT := v39\<rparr>) = bare s\<lparr>checkCrcALCT := v39\<rparr>"
  "bare (s\<lparr>ALCT_CRC := v40\<rparr>) = bare s\<lparr>ALCT_CRC := v40\<rparr>"
  "bare (s\<lparr>checkCrcTMB := v41\<rparr>) = bare s\<lparr>checkCrcTMB := v41\<rparr>"
  "bare (s\<lparr>TMB_CRC := v42\<rparr>) = bare s\<lparr>TMB_CRC := v42\<rparr>"
  "bare (s\<lparr>checkCrcCFEB := v43\<rparr>) = bare s\<lparr>checkCrcCFEB := v43\<rparr>"
  "bare (s\<lparr>CFEB_CRC := v44\<rparr>) = bare s\<lparr>CFEB_CRC := v44\<rparr>"
  by (simp_all add: bare_def at_def)

lemma at_upd [simp]:
  "at p c n nn s\<lparr>bERROR := v0\<rparr> = at p c n nn (s\<lparr>bERROR := v0\<rparr>)"
  "at p c n nn s\<lparr>bWARNING := v1\<rparr> = at p c n nn (s\<lparr>bWARNING := v1\<rparr>)"
  "at p c n nn s\<lparr>fERROR := v2\<rparr> = at p c n nn (s\<lparr>fERROR := v2\<rparr>)"
  "at p c n nn s\<lparr>fWARNING := v3\<rparr> = at p c n nn (s\<lparr>fWARNING := v3\<rparr>)"
  "at p c n nn s\<lparr>fCHAMB_ERR := v4\<rparr> = at p c n nn (s\<lparr>fCHAMB_ERR := v4\<rparr>)"
  "at p c n nn s\<lparr>fCHAMB_WRN := v5\<rparr> = at p c n nn (s\<lparr>fCHAMB_WRN := v5\<rparr>)"
  "at p c n nn s\<lparr>bCHAMB_ERR := v6\<rparr> = at p c n nn (s\<lparr>bCHAMB_ERR := v6\<rparr>)"
  "at p c n nn s\<lparr>bCHAMB_WRN := v7\<rparr> = at p c n nn (s\<lparr>bCHAMB_WRN := v7\<rparr>)"
  "at p c n nn s\<lparr>currentChamber := v8\<rparr> = at p c n nn (s\<lparr>currentChamber := v8\<rparr>)"
  "at p c n nn s\<lparr>fDDU_Header := v9\<rparr> = at p c n nn (s\<lparr>fDDU_Header := v9\<rparr>)"
  "at p c n nn s\<lparr>fDDU_Trailer := v10\<rparr> = at p c n nn (s\<lparr>fDDU_Trailer := v10\<rparr>)"
  "at p c n nn s\<lparr>fDMB_Header := v11\<rparr> = at p c n nn (s\<lparr>fDMB_Header := v11\<rparr>)"
  "at p c n nn s\<lparr>fDMB_Trailer := v12\<rparr> = at p c n nn (s\<lparr>fDMB_Trailer := v12\<rparr>)"
  "at p c n nn s\<lparr>fALCT_Header := v13\<rparr> = at p c n nn (s\<lparr>fALCT_Header := v13\<rparr>)"
  "at p c n nn s\<lparr>fTMB_Header := v14\<rparr> = at p c n nn (s\<lparr>fTMB_Header := v14\<rparr>)"
  "at p c n nn s\<lparr>uniqueALCT := v15\<rparr> = at p c n nn (s\<lparr>uniqueALCT := v15\<rparr>)"
  "at p c n nn s\<lparr>uniqueTMB := v16\<rparr> = at p c n nn (s\<lparr>uniqueTMB := v16\<rparr>)"
  "at p c n nn s\<lparr>DAV_ALCT := v17\<rparr> = at p c n nn (s\<lparr>DAV_ALCT := v17\<rparr>)"
  "at p c n nn s\<lparr>DAV_TMB := v18\<rparr> = at p c n nn (s\<lparr>DAV_TMB := v18\<rparr>)"
  "at p c n nn s\<lparr>DAV_CFEB := v19\<rparr> = at p c n nn (s\<lparr>DAV_CFEB := v19\<rparr>)"
  "at p c n nn s\<lparr>DAV_DMB := v20\<rparr> = at p c n nn (s\<lparr>DAV_DMB := v20\<rparr>)"
  "at p c n nn s\<lparr>cntDDU_Headers := v21\<rparr> = at p c n nn (s\<lparr>cntDDU_Headers := v21\<rparr>)"
  "at p c n nn s\<lparr>cntDDU_Trailers := v22\<rparr> = at p c n nn (s\<lparr>cntDDU_Trailers := v22\<rparr>)"
  "at p c n nn s\<lparr>cntCHAMB_Headers := v23\<rparr> = at p c n nn (s\<lparr>cntCHAMB_Headers := v23\<rparr>)"
  "at p c n nn s\<lparr>cntCHAMB_Trailers := v24\<rparr> = at p c n nn (s\<lparr>cntCHAMB_Trailers := v24\<rparr>)"
  "at p c n nn s\<lparr>DDU_WordsSinceLastHeader := v25\<rparr> = at p c n nn (s\<lparr>DDU_WordsSinceLastHeader := v25\<rparr>)"
  "at p c n nn s\<lparr>DDU_WordCount := v26\<rparr> = at p c n nn (s\<lparr>DDU_WordCount := v26\<rparr>)"
  "at p c n nn s\<lparr>DDU_WordsSinceLastTrailer := v27\<rparr> = at p c n nn (s\<lparr>DDU_WordsSinceLastTrailer := v27\<rparr>)"
  "at p c n nn s\<lparr>ALCT_WordsSinceLastHeader := v28\<rparr> = at p c n nn (s\<lparr>ALCT_WordsSinceLastHeader := v28\<rparr>)"
  "at p c n nn s\<lparr>ALCT_WordCount := v29\<rparr> = at p c n nn (s\<lparr>ALCT_WordCount := v29\<rparr>)"
  "at p c n nn s\<lparr>ALCT_WordsExpected := v30\<rparr> = at p c n nn (s\<lparr>ALCT_WordsExpected := v30\<rparr>)"
  "at p c n nn s\<lparr>TMB_WordsSinceLastHeader := v31\<rparr> = at p c n nn (s\<lparr>TMB_WordsSinceLastHeader := v31\<rparr>)"
  "at p c n nn s\<lparr>TMB_WordCount := v32\<rparr> = at p c n nn (s\<lparr>TMB_WordCount := v32\<rparr>)"
  "at p c n nn s\<lparr>TMB_WordsExpected := v33\<rparr> = at p c n nn (s\<lparr>TMB_WordsExpected := v33\<rparr>)"
  "at p c n nn s\<lparr>TMB_Tbins := v34\<rparr> = at p c n nn (s\<lparr>TMB_Tbins := v34\<rparr>)"
  "at p c n nn s\<lparr>TMB_WordsExpectedCorrection := v35\<rparr> = at p c n nn (s\<lparr>TMB_WordsExpectedCorrection := v35\<rparr>)"
  "at p c n nn s\<lparr>CFEB_SampleWordCount := v36\<rparr> = at p c n nn (s\<lparr>CFEB_SampleWordCount := v36\<rparr>)"
  "at p c n nn s\<lparr>CFEB_SampleCount := v37\<rparr> = at p c n nn (s\<lparr>CFEB_SampleCount := v37\<rparr>)"
  "at p c n nn s\<lparr>CFEB_BSampleCount := v38\<rparr> = at p c n nn (s\<lparr>CFEB_BSampleCount := v38\<rparr>)"
  "at p c n nn s\<lparr>checkCrcALCT := v39\<rparr> = at p c n nn (s\<lparr>checkCrcALCT := v39\<rparr>)"
  "at p c n nn s\<lparr>ALCT_CRC := v40\<rparr> = at p c n nn (s\<lparr>ALCT_CRC := v40\<rparr>)"
  "at p c n nn s\<lparr>checkCrcTMB := v41\<rparr> = at p c n nn (s\<lparr>checkCrcTMB := v41\<rparr>)"
  "at p c n nn s\<lparr>TMB_CRC := v42\<rparr> = at p c n nn (s\<lparr>TMB_CRC := v42\<rparr>)"
  "at p c n nn s\<lparr>checkCrcCFEB := v43\<rparr> = at p c n nn (s\<lparr>checkCrcCFEB := v43\<rparr>)"
  "at p c n nn s\<lparr>CFEB_CRC := v44\<rparr> = at p c n nn (s\<lparr>CFEB_CRC := v44\<rparr>)"
  by (simp_all add: bare_def at_def)

lemma bare_fields [simp]:
  "bERROR (bare s) = bERROR s" "bWARNING (bare s) = bWARNING s" "fERROR (bare s) = fERROR s"
  "fWARNING (bare s) = fWARNING s" "fCHAMB_ERR (bare s) = fCHAMB_ERR s" "fCHAMB_WRN (bare s) = fCHAMB_WRN s"
  "bCHAMB_ERR (bare s) = bCHAMB_ERR s" "bCHAMB_WRN (bare s) = bCHAMB_WRN s"
  "currentChamber (bare s) = currentChamber s" "fDDU_Header (bare s) = fDDU_Header s"
  "fDDU_Trailer (bare s) = fDDU_Trailer s" "fDMB_Header (bare s) = fDMB_Header s"
  "fDMB_Trailer (bare s) = fDMB_Trailer s" "fALCT_Header (bare s) = fALCT_Header s"
  "fTMB_Header (bare s) = fTMB_Header s" "uniqueALCT (bare s) = uniqueALCT s" "uniqueTMB (bare s) = uniqueTMB s"
  "DAV_ALCT (bare s) = DAV_ALCT s" "DAV_TMB (bare s) = DAV_TMB s" "DAV_CFEB (bare s) = DAV_CFEB s"
  "DAV_DMB (bare s) = DAV_DMB s" "cntDDU_Headers (bare s) = cntDDU_Headers s"
  "cntDDU_Trailers (bare s) = cntDDU_Trailers s" "cntCHAMB_Headers (bare s) = cntCHAMB_Headers s"
  "cntCHAMB_Trailers (bare s) = cntCHAMB_Trailers s" "DDU_WordsSinceLastHeader (bare s) = DDU_WordsSinceLastHeader s"
  "DDU_WordCount (bare s) = DDU_WordCount s" "DDU_WordsSinceLastTrailer (bare s) = DDU_WordsSinceLastTrailer s"
  "ALCT_WordsSinceLastHeader (bare s) = ALCT_WordsSinceLastHeader s" "ALCT_WordCount (bare s) = ALCT_WordCount s"
  "ALCT_WordsExpected (bare s) = ALCT_WordsExpected s" "TMB_WordsSinceLastHeader (bare s) = TMB_WordsSinceLastHeader s"
  "TMB_WordCount (bare s) = TMB_WordCount s" "TMB_WordsExpected (bare s) = TMB_WordsExpected s"
  "TMB_Tbins (bare s) = TMB_Tbins s" "TMB_WordsExpectedCorrection (bare s) = TMB_WordsExpectedCorrection s"
  "CFEB_SampleWordCount (bare s) = CFEB_SampleWordCount s" "CFEB_SampleCount (bare s) = CFEB_SampleCount s"
  "CFEB_BSampleCount (bare s) = CFEB_BSampleCount s" "checkCrcALCT (bare s) = checkCrcALCT s"
  "ALCT_CRC (bare s) = ALCT_CRC s" "checkCrcTMB (bare s) = checkCrcTMB s" "TMB_CRC (bare s) = TMB_CRC s"
  "checkCrcCFEB (bare s) = checkCrcCFEB s" "CFEB_CRC (bare s) = CFEB_CRC s"
  by (simp_all add: bare_def at_def)

text \<open>Errors can be entered before or after the other changes of a state.\<close>

lemma flag_upd [simp]:
  "flag e m (s\<lparr>buf_1 := v0\<rparr>) = flag e m s\<lparr>buf_1 := v0\<rparr>"
  "flag e m (s\<lparr>buf0 := v1\<rparr>) = flag e m s\<lparr>buf0 := v1\<rparr>"
  "flag e m (s\<lparr>buf1 := v2\<rparr>) = flag e m s\<lparr>buf1 := v2\<rparr>"
  "flag e m (s\<lparr>buf2 := v3\<rparr>) = flag e m s\<lparr>buf2 := v3\<rparr>"
  "flag e m (s\<lparr>fDDU_Header := v4\<rparr>) = flag e m s\<lparr>fDDU_Header := v4\<rparr>"
  "flag e m (s\<lparr>fDDU_Trailer := v5\<rparr>) = flag e m s\<lparr>fDDU_Trailer := v5\<rparr>"
  "flag e m (s\<lparr>fDMB_Header := v6\<rparr>) = flag e m s\<lparr>fDMB_Header := v6\<rparr>"
  "flag e m (s\<lparr>fDMB_Trailer := v7\<rparr>) = flag e m s\<lparr>fDMB_Trailer := v7\<rparr>"
  "flag e m (s\<lparr>fALCT_Header := v8\<rparr>) = flag e m s\<lparr>fALCT_Header := v8\<rparr>"
  "flag e m (s\<lparr>fTMB_Header := v9\<rparr>) = flag e m s\<lparr>fTMB_Header := v9\<rparr>"
  "flag e m (s\<lparr>uniqueALCT := v10\<rparr>) = flag e m s\<lparr>uniqueALCT := v10\<rparr>"
  "flag e m (s\<lparr>uniqueTMB := v11\<rparr>) = flag e m s\<lparr>uniqueTMB := v11\<rparr>"
  "flag e m (s\<lparr>DAV_ALCT := v12\<rparr>) = flag e m s\<lparr>DAV_ALCT := v12\<rparr>"
  "flag e m (s\<lparr>DAV_TMB := v13\<rparr>) = flag e m s\<lparr>DAV_TMB := v13\<rparr>"
  "flag e m (s\<lparr>DAV_CFEB := v14\<rparr>) = flag e m s\<lparr>DAV_CFEB := v14\<rparr>"
  "flag e m (s\<lparr>DAV_DMB := v15\<rparr>) = flag e m s\<lparr>DAV_DMB := v15\<rparr>"
  "flag e m (s\<lparr>cntDDU_Headers := v16\<rparr>) = flag e m s\<lparr>cntDDU_Headers := v16\<rparr>"
  "flag e m (s\<lparr>cntDDU_Trailers := v17\<rparr>) = flag e m s\<lparr>cntDDU_Trailers := v17\<rparr>"
  "flag e m (s\<lparr>cntCHAMB_Headers := v18\<rparr>) = flag e m s\<lparr>cntCHAMB_Headers := v18\<rparr>"
  "flag e m (s\<lparr>cntCHAMB_Trailers := v19\<rparr>) = flag e m s\<lparr>cntCHAMB_Trailers := v19\<rparr>"
  "flag e m (s\<lparr>DDU_WordsSinceLastHeader := v20\<rparr>) = flag e m s\<lparr>DDU_WordsSinceLastHeader := v20\<rparr>"
  "flag e m (s\<lparr>DDU_WordCount := v21\<rparr>) = flag e m s\<lparr>DDU_WordCount := v21\<rparr>"
  "flag e m (s\<lparr>DDU_WordsSinceLastTrailer := v22\<rparr>) = flag e m s\<lparr>DDU_WordsSinceLastTrailer := v22\<rparr>"
  "flag e m (s\<lparr>ALCT_WordsSinceLastHeader := v23\<rparr>) = flag e m s\<lparr>ALCT_WordsSinceLastHeader := v23\<rparr>"
  "flag e m (s\<lparr>ALCT_WordCount := v24\<rparr>) = flag e m s\<lparr>ALCT_WordCount := v24\<rparr>"
  "flag e m (s\<lparr>ALCT_WordsExpected := v25\<rparr>) = flag e m s\<lparr>ALCT_WordsExpected := v25\<rparr>"
  "flag e m (s\<lparr>TMB_WordsSinceLastHeader := v26\<rparr>) = flag e m s\<lparr>TMB_WordsSinceLastHeader := v26\<rparr>"
  "flag e m (s\<lparr>TMB_WordCount := v27\<rparr>) = flag e m s\<lparr>TMB_WordCount := v27\<rparr>"
  "flag e m (s\<lparr>TMB_WordsExpected := v28\<rparr>) = flag e m s\<lparr>TMB_WordsExpected := v28\<rparr>"
  "flag e m (s\<lparr>TMB_Tbins := v29\<rparr>) = flag e m s\<lparr>TMB_Tbins := v29\<rparr>"
  "flag e m (s\<lparr>TMB_WordsExpectedCorrection := v30\<rparr>) = flag e m s\<lparr>TMB_WordsExpectedCorrection := v30\<rparr>"
  "flag e m (s\<lparr>CFEB_SampleWordCount := v31\<rparr>) = flag e m s\<lparr>CFEB_SampleWordCount := v31\<rparr>"
  "flag e m (s\<lparr>CFEB_SampleCount := v32\<rparr>) = flag e m s\<lparr>CFEB_SampleCount := v32\<rparr>"
  "flag e m (s\<lparr>CFEB_BSampleCount := v33\<rparr>) = flag e m s\<lparr>CFEB_BSampleCount := v33\<rparr>"
  "flag e m (s\<lparr>checkCrcALCT := v34\<rparr>) = flag e m s\<lparr>checkCrcALCT := v34\<rparr>"
  "flag e m (s\<lparr>ALCT_CRC := v35\<rparr>) = flag e m s\<lparr>ALCT_CRC := v35\<rparr>"
  "flag e m (s\<lparr>checkCrcTMB := v36\<rparr>) = flag e m s\<lparr>checkCrcTMB := v36\<rparr>"
  "flag e m (s\<lparr>TMB_CRC := v37\<rparr>) = flag e m s\<lparr>TMB_CRC := v37\<rparr>"
  "flag e m (s\<lparr>checkCrcCFEB := v38\<rparr>) = flag e m s\<lparr>checkCrcCFEB := v38\<rparr>"
  "flag e m (s\<lparr>CFEB_CRC := v39\<rparr>) = flag e m s\<lparr>CFEB_CRC := v39\<rparr>"
  by (simp_all add: flag_def)

lemma flag_at [simp]: "flag e m (at p c n nn s) = at p c n nn (flag e m s)"
  by (simp add: at_def)

lemma flag_chamber_upd [simp]:
  "flag_chamber e m (s\<lparr>buf_1 := v0\<rparr>) = flag_chamber e m s\<lparr>buf_1 := v0\<rparr>"
  "flag_chamber e m (s\<lparr>buf0 := v1\<rparr>) = flag_chamber e m s\<lparr>buf0 := v1\<rparr>"
  "flag_chamber e m (s\<lparr>buf1 := v2\<rparr>) = flag_chamber e m s\<lparr>buf1 := v2\<rparr>"
  "flag_chamber e m (s\<lparr>buf2 := v3\<rparr>) = flag_chamber e m s\<lparr>buf2 := v3\<rparr>"
  "flag_chamber e m (s\<lparr>fDDU_Header := v4\<rparr>) = flag_chamber e m s\<lparr>fDDU_Header := v4\<rparr>"
  "flag_chamber e m (s\<lparr>fDDU_Trailer := v5\<rparr>) = flag_chamber e m s\<lparr>fDDU_Trailer := v5\<rparr>"
  "flag_chamber e m (s\<lparr>fDMB_Header := v6\<rparr>) = flag_chamber e m s\<lparr>fDMB_Header := v6\<rparr>"
  "flag_chamber e m (s\<lparr>fDMB_Trailer := v7\<rparr>) = flag_chamber e m s\<lparr>fDMB_Trailer := v7\<rparr>"
  "flag_chamber e m (s\<lparr>fALCT_Header := v8\<rparr>) = flag_chamber e m s\<lparr>fALCT_Header := v8\<rparr>"
  "flag_chamber e m (s\<lparr>fTMB_Header := v9\<rparr>) = flag_chamber e m s\<lparr>fTMB_Header := v9\<rparr>"
  "flag_chamber e m (s\<lparr>uniqueALCT := v10\<rparr>) = flag_chamber e m s\<lparr>uniqueALCT := v10\<rparr>"
  "flag_chamber e m (s\<lparr>uniqueTMB := v11\<rparr>) = flag_chamber e m s\<lparr>uniqueTMB := v11\<rparr>"
  "flag_chamber e m (s\<lparr>DAV_ALCT := v12\<rparr>) = flag_chamber e m s\<lparr>DAV_ALCT := v12\<rparr>"
  "flag_chamber e m (s\<lparr>DAV_TMB := v13\<rparr>) = flag_chamber e m s\<lparr>DAV_TMB := v13\<rparr>"
  "flag_chamber e m (s\<lparr>DAV_CFEB := v14\<rparr>) = flag_chamber e m s\<lparr>DAV_CFEB := v14\<rparr>"
  "flag_chamber e m (s\<lparr>DAV_DMB := v15\<rparr>) = flag_chamber e m s\<lparr>DAV_DMB := v15\<rparr>"
  "flag_chamber e m (s\<lparr>cntDDU_Headers := v16\<rparr>) = flag_chamber e m s\<lparr>cntDDU_Headers := v16\<rparr>"
  "flag_chamber e m (s\<lparr>cntDDU_Trailers := v17\<rparr>) = flag_chamber e m s\<lparr>cntDDU_Trailers := v17\<rparr>"
  "flag_chamber e m (s\<lparr>cntCHAMB_Headers := v18\<rparr>) = flag_chamber e m s\<lparr>cntCHAMB_Headers := v18\<rparr>"
  "flag_chamber e m (s\<lparr>cntCHAMB_Trailers := v19\<rparr>) = flag_chamber e m s\<lparr>cntCHAMB_Trailers := v19\<rparr>"
  "flag_chamber e m (s\<lparr>DDU_WordsSinceLastHeader := v20\<rparr>) = flag_chamber e m s\<lparr>DDU_WordsSinceLastHeader := v20\<rparr>"
  "flag_chamber e m (s\<lparr>DDU_WordCount := v21\<rparr>) = flag_chamber e m s\<lparr>DDU_WordCount := v21\<rparr>"
  "flag_chamber e m (s\<lparr>DDU_WordsSinceLastTrailer := v22\<rparr>) = flag_chamber e m s\<lparr>DDU_WordsSinceLastTrailer := v22\<rparr>"
  "flag_chamber e m (s\<lparr>ALCT_WordsSinceLastHeader := v23\<rparr>) = flag_chamber e m s\<lparr>ALCT_WordsSinceLastHeader := v23\<rparr>"
  "flag_chamber e m (s\<lparr>ALCT_WordCount := v24\<rparr>) = flag_chamber e m s\<lparr>ALCT_WordCount := v24\<rparr>"
  "flag_chamber e m (s\<lparr>ALCT_WordsExpected := v25\<rparr>) = flag_chamber e m s\<lparr>ALCT_WordsExpected := v25\<rparr>"
  "flag_chamber e m (s\<lparr>TMB_WordsSinceLastHeader := v26\<rparr>) = flag_chamber e m s\<lparr>TMB_WordsSinceLastHeader := v26\<rparr>"
  "flag_chamber e m (s\<lparr>TMB_WordCount := v27\<rparr>) = flag_chamber e m s\<lparr>TMB_WordCount := v27\<rparr>"
  "flag_chamber e m (s\<lparr>TMB_WordsExpected := v28\<rparr>) = flag_chamber e m s\<lparr>TMB_WordsExpected := v28\<rparr>"
  "flag_chamber e m (s\<lparr>TMB_Tbins := v29\<rparr>) = flag_chamber e m s\<lparr>TMB_Tbins := v29\<rparr>"
  "flag_chamber e m (s\<lparr>TMB_WordsExpectedCorrection := v30\<rparr>) = flag_chamber e m s\<lparr>TMB_WordsExpectedCorrection := v30\<rparr>"
  "flag_chamber e m (s\<lparr>CFEB_SampleWordCount := v31\<rparr>) = flag_chamber e m s\<lparr>CFEB_SampleWordCount := v31\<rparr>"
  "flag_chamber e m (s\<lparr>CFEB_SampleCount := v32\<rparr>) = flag_chamber e m s\<lparr>CFEB_SampleCount := v32\<rparr>"
  "flag_chamber e m (s\<lparr>CFEB_BSampleCount := v33\<rparr>) = flag_chamber e m s\<lparr>CFEB_BSampleCount := v33\<rparr>"
  "flag_chamber e m (s\<lparr>checkCrcALCT := v34\<rparr>) = flag_chamber e m s\<lparr>checkCrcALCT := v34\<rparr>"
  "flag_chamber e m (s\<lparr>ALCT_CRC := v35\<rparr>) = flag_chamber e m s\<lparr>ALCT_CRC := v35\<rparr>"
  "flag_chamber e m (s\<lparr>checkCrcTMB := v36\<rparr>) = flag_chamber e m s\<lparr>checkCrcTMB := v36\<rparr>"
  "flag_chamber e m (s\<lparr>TMB_CRC := v37\<rparr>) = flag_chamber e m s\<lparr>TMB_CRC := v37\<rparr>"
  "flag_chamber e m (s\<lparr>checkCrcCFEB := v38\<rparr>) = flag_chamber e m s\<lparr>checkCrcCFEB := v38\<rparr>"
  "flag_chamber e m (s\<lparr>CFEB_CRC := v39\<rparr>) = flag_chamber e m s\<lparr>CFEB_CRC := v39\<rparr>"
  by (simp_all add: flag_chamber_def)

lemma flag_chamber_at [simp]: "flag_chamber e m (at p c n nn s) = at p c n nn (flag_chamber e m s)"
  by (simp add: at_def)

lemma chamber_error_upd [simp]:
  "chamber_error e m (s\<lparr>buf_1 := v0\<rparr>) = chamber_error e m s\<lparr>buf_1 := v0\<rparr>"
  "chamber_error e m (s\<lparr>buf0 := v1\<rparr>) = chamber_error e m s\<lparr>buf0 := v1\<rparr>"
  "chamber_error e m (s\<lparr>buf1 := v2\<rparr>) = chamber_error e m s\<lparr>buf1 := v2\<rparr>"
  "chamber_error e m (s\<lparr>buf2 := v3\<rparr>) = chamber_error e m s\<lparr>buf2 := v3\<rparr>"
  "chamber_error e m (s\<lparr>fDDU_Header := v4\<rparr>) = chamber_error e m s\<lparr>fDDU_Header := v4\<rparr>"
  "chamber_error e m (s\<lparr>fDDU_Trailer := v5\<rparr>) = chamber_error e m s\<lparr>fDDU_Trailer := v5\<rparr>"
  "chamber_error e m (s\<lparr>fDMB_Header := v6\<rparr>) = chamber_error e m s\<lparr>fDMB_Header := v6\<rparr>"
  "chamber_error e m (s\<lparr>fDMB_Trailer := v7\<rparr>) = chamber_error e m s\<lparr>fDMB_Trailer := v7\<rparr>"
  "chamber_error e m (s\<lparr>fALCT_Header := v8\<rparr>) = chamber_error e m s\<lparr>fALCT_Header := v8\<rparr>"
  "chamber_error e m (s\<lparr>fTMB_Header := v9\<rparr>) = chamber_error e m s\<lparr>fTMB_Header := v9\<rparr>"
  "chamber_error e m (s\<lparr>uniqueALCT := v10\<rparr>) = chamber_error e m s\<lparr>uniqueALCT := v10\<rparr>"
  "chamber_error e m (s\<lparr>uniqueTMB := v11\<rparr>) = chamber_error e m s\<lparr>uniqueTMB := v11\<rparr>"
  "chamber_error e m (s\<lparr>DAV_ALCT := v12\<rparr>) = chamber_error e m s\<lparr>DAV_ALCT := v12\<rparr>"
  "chamber_error e m (s\<lparr>DAV_TMB := v13\<rparr>) = chamber_error e m s\<lparr>DAV_TMB := v13\<rparr>"
  "chamber_error e m (s\<lparr>DAV_CFEB := v14\<rparr>) = chamber_error e m s\<lparr>DAV_CFEB := v14\<rparr>"
  "chamber_error e m (s\<lparr>DAV_DMB := v15\<rparr>) = chamber_error e m s\<lparr>DAV_DMB := v15\<rparr>"
  "chamber_error e m (s\<lparr>cntDDU_Headers := v16\<rparr>) = chamber_error e m s\<lparr>cntDDU_Headers := v16\<rparr>"
  "chamber_error e m (s\<lparr>cntDDU_Trailers := v17\<rparr>) = chamber_error e m s\<lparr>cntDDU_Trailers := v17\<rparr>"
  "chamber_error e m (s\<lparr>cntCHAMB_Headers := v18\<rparr>) = chamber_error e m s\<lparr>cntCHAMB_Headers := v18\<rparr>"
  "chamber_error e m (s\<lparr>cntCHAMB_Trailers := v19\<rparr>) = chamber_error e m s\<lparr>cntCHAMB_Trailers := v19\<rparr>"
  "chamber_error e m (s\<lparr>DDU_WordsSinceLastHeader := v20\<rparr>) = chamber_error e m s\<lparr>DDU_WordsSinceLastHeader := v20\<rparr>"
  "chamber_error e m (s\<lparr>DDU_WordCount := v21\<rparr>) = chamber_error e m s\<lparr>DDU_WordCount := v21\<rparr>"
  "chamber_error e m (s\<lparr>DDU_WordsSinceLastTrailer := v22\<rparr>) = chamber_error e m s\<lparr>DDU_WordsSinceLastTrailer := v22\<rparr>"
  "chamber_error e m (s\<lparr>ALCT_WordsSinceLastHeader := v23\<rparr>) = chamber_error e m s\<lparr>ALCT_WordsSinceLastHeader := v23\<rparr>"
  "chamber_error e m (s\<lparr>ALCT_WordCount := v24\<rparr>) = chamber_error e m s\<lparr>ALCT_WordCount := v24\<rparr>"
  "chamber_error e m (s\<lparr>ALCT_WordsExpected := v25\<rparr>) = chamber_error e m s\<lparr>ALCT_WordsExpected := v25\<rparr>"
  "chamber_error e m (s\<lparr>TMB_WordsSinceLastHeader := v26\<rparr>) = chamber_error e m s\<lparr>TMB_WordsSinceLastHeader := v26\<rparr>"
  "chamber_error e m (s\<lparr>TMB_WordCount := v27\<rparr>) = chamber_error e m s\<lparr>TMB_WordCount := v27\<rparr>"
  "chamber_error e m (s\<lparr>TMB_WordsExpected := v28\<rparr>) = chamber_error e m s\<lparr>TMB_WordsExpected := v28\<rparr>"
  "chamber_error e m (s\<lparr>TMB_Tbins := v29\<rparr>) = chamber_error e m s\<lparr>TMB_Tbins := v29\<rparr>"
  "chamber_error e m (s\<lparr>TMB_WordsExpectedCorrection := v30\<rparr>) = chamber_error e m s\<lparr>TMB_WordsExpectedCorrection := v30\<rparr>"
  "chamber_error e m (s\<lparr>CFEB_SampleWordCount := v31\<rparr>) = chamber_error e m s\<lparr>CFEB_SampleWordCount := v31\<rparr>"
  "chamber_error e m (s\<lparr>CFEB_SampleCount := v32\<rparr>) = chamber_error e m s\<lparr>CFEB_SampleCount := v32\<rparr>"
  "chamber_error e m (s\<lparr>CFEB_BSampleCount := v33\<rparr>) = chamber_error e m s\<lparr>CFEB_BSampleCount := v33\<rparr>"
  "chamber_error e m (s\<lparr>checkCrcALCT := v34\<rparr>) = chamber_error e m s\<lparr>checkCrcALCT := v34\<rparr>"
  "chamber_error e m (s\<lparr>ALCT_CRC := v35\<rparr>) = chamber_error e m s\<lparr>ALCT_CRC := v35\<rparr>"
  "chamber_error e m (s\<lparr>checkCrcTMB := v36\<rparr>) = chamber_error e m s\<lparr>checkCrcTMB := v36\<rparr>"
  "chamber_error e m (s\<lparr>TMB_CRC := v37\<rparr>) = chamber_error e m s\<lparr>TMB_CRC := v37\<rparr>"
  "chamber_error e m (s\<lparr>checkCrcCFEB := v38\<rparr>) = chamber_error e m s\<lparr>checkCrcCFEB := v38\<rparr>"
  "chamber_error e m (s\<lparr>CFEB_CRC := v39\<rparr>) = chamber_error e m s\<lparr>CFEB_CRC := v39\<rparr>"
  by (simp_all add: chamber_error_def)

lemma chamber_error_at [simp]: "chamber_error e m (at p c n nn s) = at p c n nn (chamber_error e m s)"
  by (simp add: at_def)

lemma chamber_error0_upd [simp]:
  "chamber_error0 e m (s\<lparr>buf_1 := v0\<rparr>) = chamber_error0 e m s\<lparr>buf_1 := v0\<rparr>"
  "chamber_error0 e m (s\<lparr>buf0 := v1\<rparr>) = chamber_error0 e m s\<lparr>buf0 := v1\<rparr>"
  "chamber_error0 e m (s\<lparr>buf1 := v2\<rparr>) = chamber_error0 e m s\<lparr>buf1 := v2\<rparr>"
  "chamber_error0 e m (s\<lparr>buf2 := v3\<rparr>) = chamber_error0 e m s\<lparr>buf2 := v3\<rparr>"
  "chamber_error0 e m (s\<lparr>fDDU_Header := v4\<rparr>) = chamber_error0 e m s\<lparr>fDDU_Header := v4\<rparr>"
  "chamber_error0 e m (s\<lparr>fDDU_Trailer := v5\<rparr>) = chamber_error0 e m s\<lparr>fDDU_Trailer := v5\<rparr>"
  "chamber_error0 e m (s\<lparr>fDMB_Header := v6\<rparr>) = chamber_error0 e m s\<lparr>fDMB_Header := v6\<rparr>"
  "chamber_error0 e m (s\<lparr>fDMB_Trailer := v7\<rparr>) = chamber_error0 e m s\<lparr>fDMB_Trailer := v7\<rparr>"
  "chamber_error0 e m (s\<lparr>fALCT_Header := v8\<rparr>) = chamber_error0 e m s\<lparr>fALCT_Header := v8\<rparr>"
  "chamber_error0 e m (s\<lparr>fTMB_Header := v9\<rparr>) = chamber_error0 e m s\<lparr>fTMB_Header := v9\<rparr>"
  "chamber_error0 e m (s\<lparr>uniqueALCT := v10\<rparr>) = chamber_error0 e m s\<lparr>uniqueALCT := v10\<rparr>"
  "chamber_error0 e m (s\<lparr>uniqueTMB := v11\<rparr>) = chamber_error0 e m s\<lparr>uniqueTMB := v11\<rparr>"
  "chamber_error0 e m (s\<lparr>DAV_ALCT := v12\<rparr>) = chamber_error0 e m s\<lparr>DAV_ALCT := v12\<rparr>"
  "chamber_error0 e m (s\<lparr>DAV_TMB := v13\<rparr>) = chamber_error0 e m s\<lparr>DAV_TMB := v13\<rparr>"
  "chamber_error0 e m (s\<lparr>DAV_CFEB := v14\<rparr>) = chamber_error0 e m s\<lparr>DAV_CFEB := v14\<rparr>"
  "chamber_error0 e m (s\<lparr>DAV_DMB := v15\<rparr>) = chamber_error0 e m s\<lparr>DAV_DMB := v15\<rparr>"
  "chamber_error0 e m (s\<lparr>cntDDU_Headers := v16\<rparr>) = chamber_error0 e m s\<lparr>cntDDU_Headers := v16\<rparr>"
  "chamber_error0 e m (s\<lparr>cntDDU_Trailers := v17\<rparr>) = chamber_error0 e m s\<lparr>cntDDU_Trailers := v17\<rparr>"
  "chamber_error0 e m (s\<lparr>cntCHAMB_Headers := v18\<rparr>) = chamber_error0 e m s\<lparr>cntCHAMB_Headers := v18\<rparr>"
  "chamber_error0 e m (s\<lparr>cntCHAMB_Trailers := v19\<rparr>) = chamber_error0 e m s\<lparr>cntCHAMB_Trailers := v19\<rparr>"
  "chamber_error0 e m (s\<lparr>DDU_WordsSinceLastHeader := v20\<rparr>) = chamber_error0 e m s\<lparr>DDU_WordsSinceLastHeader := v20\<rparr>"
  "chamber_error0 e m (s\<lparr>DDU_WordCount := v21\<rparr>) = chamber_error0 e m s\<lparr>DDU_WordCount := v21\<rparr>"
  "chamber_error0 e m (s\<lparr>DDU_WordsSinceLastTrailer := v22\<rparr>) = chamber_error0 e m s\<lparr>DDU_WordsSinceLastTrailer := v22\<rparr>"
  "chamber_error0 e m (s\<lparr>ALCT_WordsSinceLastHeader := v23\<rparr>) = chamber_error0 e m s\<lparr>ALCT_WordsSinceLastHeader := v23\<rparr>"
  "chamber_error0 e m (s\<lparr>ALCT_WordCount := v24\<rparr>) = chamber_error0 e m s\<lparr>ALCT_WordCount := v24\<rparr>"
  "chamber_error0 e m (s\<lparr>ALCT_WordsExpected := v25\<rparr>) = chamber_error0 e m s\<lparr>ALCT_WordsExpected := v25\<rparr>"
  "chamber_error0 e m (s\<lparr>TMB_WordsSinceLastHeader := v26\<rparr>) = chamber_error0 e m s\<lparr>TMB_WordsSinceLastHeader := v26\<rparr>"
  "chamber_error0 e m (s\<lparr>TMB_WordCount := v27\<rparr>) = chamber_error0 e m s\<lparr>TMB_WordCount := v27\<rparr>"
  "chamber_error0 e m (s\<lparr>TMB_WordsExpected := v28\<rparr>) = chamber_error0 e m s\<lparr>TMB_WordsExpected := v28\<rparr>"
  "chamber_error0 e m (s\<lparr>TMB_Tbins := v29\<rparr>) = chamber_error0 e m s\<lparr>TMB_Tbins := v29\<rparr>"
  "chamber_error0 e m (s\<lparr>TMB_WordsExpectedCorrection := v30\<rparr>) = chamber_error0 e m s\<lparr>TMB_WordsExpectedCorrection := v30\<rparr>"
  "chamber_error0 e m (s\<lparr>CFEB_SampleWordCount := v31\<rparr>) = chamber_error0 e m s\<lparr>CFEB_SampleWordCount := v31\<rparr>"
  "chamber_error0 e m (s\<lparr>CFEB_SampleCount := v32\<rparr>) = chamber_error0 e m s\<lparr>CFEB_SampleCount := v32\<rparr>"
  "chamber_error0 e m (s\<lparr>CFEB_BSampleCount := v33\<rparr>) = chamber_error0 e m s\<lparr>CFEB_BSampleCount := v33\<rparr>"
  "chamber_error0 e m (s\<lparr>checkCrcALCT := v34\<rparr>) = chamber_error0 e m s\<lparr>checkCrcALCT := v34\<rparr>"
  "chamber_error0 e m (s\<lparr>ALCT_CRC := v35\<rparr>) = chamber_error0 e m s\<lparr>ALCT_CRC := v35\<rparr>"
  "chamber_error0 e m (s\<lparr>checkCrcTMB := v36\<rparr>) = chamber_error0 e m s\<lparr>checkCrcTMB := v36\<rparr>"
  "chamber_error0 e m (s\<lparr>TMB_CRC := v37\<rparr>) = chamber_error0 e m s\<lparr>TMB_CRC := v37\<rparr>"
  "chamber_error0 e m (s\<lparr>checkCrcCFEB := v38\<rparr>) = chamber_error0 e m s\<lparr>checkCrcCFEB := v38\<rparr>"
  "chamber_error0 e m (s\<lparr>CFEB_CRC := v39\<rparr>) = chamber_error0 e m s\<lparr>CFEB_CRC := v39\<rparr>"
  by (simp_all add: chamber_error0_def chamber_error_def)

lemma chamber_error0_at [simp]: "chamber_error0 e m (at p c n nn s) = at p c n nn (chamber_error0 e m s)"
  by (simp add: at_def)

text \<open>The errors of a block, with their bits in the order of the code.\<close>

definition marks :: "(nat \<times> 32 word) list \<Rightarrow> examiner \<Rightarrow> examiner" where
  "marks L s = fold (\<lambda>(e, m). chamber_error0 e m) L s"

definition mark_if :: "bool \<Rightarrow> nat \<Rightarrow> 32 word \<Rightarrow> (nat \<times> 32 word) list" where
  "mark_if b e m = (if b then [(e, m)] else [])"

lemma marks_simps: "marks [] s = s" "marks (L @ M) s = marks M (marks L s)" "marks ((e, m) # L) s = marks L (chamber_error0 e m s)"
  by (simp_all add: marks_def)

lemma marks_if: "marks (mark_if b e m) s = (if b then chamber_error0 e m s else s)"
  by (simp add: mark_if_def marks_simps)

lemma marks_keep: "(\<And>e m s. f (chamber_error0 e m s) = f s) \<Longrightarrow> f (marks L s) = f s"
  by (induction L arbitrary: s) (auto simp: marks_def)

lemma marks_fields [simp]:
  "currentChamber (marks L s) = currentChamber s" "buf_1 (marks L s) = buf_1 s" "buf0 (marks L s) = buf0 s"
  "buf1 (marks L s) = buf1 s" "buf2 (marks L s) = buf2 s" "fDDU_Header (marks L s) = fDDU_Header s"
  "fDDU_Trailer (marks L s) = fDDU_Trailer s" "fDMB_Header (marks L s) = fDMB_Header s"
  "fDMB_Trailer (marks L s) = fDMB_Trailer s" "fALCT_Header (marks L s) = fALCT_Header s"
  "fTMB_Header (marks L s) = fTMB_Header s" "uniqueALCT (marks L s) = uniqueALCT s"
  "uniqueTMB (marks L s) = uniqueTMB s" "DAV_ALCT (marks L s) = DAV_ALCT s" "DAV_TMB (marks L s) = DAV_TMB s"
  "DAV_CFEB (marks L s) = DAV_CFEB s" "DAV_DMB (marks L s) = DAV_DMB s" "cntDDU_Headers (marks L s) = cntDDU_Headers s"
  "cntDDU_Trailers (marks L s) = cntDDU_Trailers s" "cntCHAMB_Headers (marks L s) = cntCHAMB_Headers s"
  "cntCHAMB_Trailers (marks L s) = cntCHAMB_Trailers s"
  "DDU_WordsSinceLastHeader (marks L s) = DDU_WordsSinceLastHeader s" "DDU_WordCount (marks L s) = DDU_WordCount s"
  "DDU_WordsSinceLastTrailer (marks L s) = DDU_WordsSinceLastTrailer s"
  "ALCT_WordsSinceLastHeader (marks L s) = ALCT_WordsSinceLastHeader s" "ALCT_WordCount (marks L s) = ALCT_WordCount s"
  "ALCT_WordsExpected (marks L s) = ALCT_WordsExpected s"
  "TMB_WordsSinceLastHeader (marks L s) = TMB_WordsSinceLastHeader s" "TMB_WordCount (marks L s) = TMB_WordCount s"
  "TMB_WordsExpected (marks L s) = TMB_WordsExpected s" "TMB_Tbins (marks L s) = TMB_Tbins s"
  "TMB_WordsExpectedCorrection (marks L s) = TMB_WordsExpectedCorrection s"
  "CFEB_SampleWordCount (marks L s) = CFEB_SampleWordCount s" "CFEB_SampleCount (marks L s) = CFEB_SampleCount s"
  "CFEB_BSampleCount (marks L s) = CFEB_BSampleCount s" "checkCrcALCT (marks L s) = checkCrcALCT s"
  "ALCT_CRC (marks L s) = ALCT_CRC s" "checkCrcTMB (marks L s) = checkCrcTMB s" "TMB_CRC (marks L s) = TMB_CRC s"
  "checkCrcCFEB (marks L s) = checkCrcCFEB s" "CFEB_CRC (marks L s) = CFEB_CRC s"
  by (rule marks_keep, simp)+

lemma marks_push: "(\<And>e m s. chamber_error0 e m (g s) = g (chamber_error0 e m s)) \<Longrightarrow> marks L (g s) = g (marks L s)"
  by (induction L arbitrary: s) (auto simp: marks_def)

lemma marks_upd [simp]:
  "marks L (s\<lparr>buf_1 := v0\<rparr>) = marks L s\<lparr>buf_1 := v0\<rparr>"
  "marks L (s\<lparr>buf0 := v1\<rparr>) = marks L s\<lparr>buf0 := v1\<rparr>"
  "marks L (s\<lparr>buf1 := v2\<rparr>) = marks L s\<lparr>buf1 := v2\<rparr>"
  "marks L (s\<lparr>buf2 := v3\<rparr>) = marks L s\<lparr>buf2 := v3\<rparr>"
  "marks L (s\<lparr>fDDU_Header := v4\<rparr>) = marks L s\<lparr>fDDU_Header := v4\<rparr>"
  "marks L (s\<lparr>fDDU_Trailer := v5\<rparr>) = marks L s\<lparr>fDDU_Trailer := v5\<rparr>"
  "marks L (s\<lparr>fDMB_Header := v6\<rparr>) = marks L s\<lparr>fDMB_Header := v6\<rparr>"
  "marks L (s\<lparr>fDMB_Trailer := v7\<rparr>) = marks L s\<lparr>fDMB_Trailer := v7\<rparr>"
  "marks L (s\<lparr>fALCT_Header := v8\<rparr>) = marks L s\<lparr>fALCT_Header := v8\<rparr>"
  "marks L (s\<lparr>fTMB_Header := v9\<rparr>) = marks L s\<lparr>fTMB_Header := v9\<rparr>"
  "marks L (s\<lparr>uniqueALCT := v10\<rparr>) = marks L s\<lparr>uniqueALCT := v10\<rparr>"
  "marks L (s\<lparr>uniqueTMB := v11\<rparr>) = marks L s\<lparr>uniqueTMB := v11\<rparr>"
  "marks L (s\<lparr>DAV_ALCT := v12\<rparr>) = marks L s\<lparr>DAV_ALCT := v12\<rparr>"
  "marks L (s\<lparr>DAV_TMB := v13\<rparr>) = marks L s\<lparr>DAV_TMB := v13\<rparr>"
  "marks L (s\<lparr>DAV_CFEB := v14\<rparr>) = marks L s\<lparr>DAV_CFEB := v14\<rparr>"
  "marks L (s\<lparr>DAV_DMB := v15\<rparr>) = marks L s\<lparr>DAV_DMB := v15\<rparr>"
  "marks L (s\<lparr>cntDDU_Headers := v16\<rparr>) = marks L s\<lparr>cntDDU_Headers := v16\<rparr>"
  "marks L (s\<lparr>cntDDU_Trailers := v17\<rparr>) = marks L s\<lparr>cntDDU_Trailers := v17\<rparr>"
  "marks L (s\<lparr>cntCHAMB_Headers := v18\<rparr>) = marks L s\<lparr>cntCHAMB_Headers := v18\<rparr>"
  "marks L (s\<lparr>cntCHAMB_Trailers := v19\<rparr>) = marks L s\<lparr>cntCHAMB_Trailers := v19\<rparr>"
  "marks L (s\<lparr>DDU_WordsSinceLastHeader := v20\<rparr>) = marks L s\<lparr>DDU_WordsSinceLastHeader := v20\<rparr>"
  "marks L (s\<lparr>DDU_WordCount := v21\<rparr>) = marks L s\<lparr>DDU_WordCount := v21\<rparr>"
  "marks L (s\<lparr>DDU_WordsSinceLastTrailer := v22\<rparr>) = marks L s\<lparr>DDU_WordsSinceLastTrailer := v22\<rparr>"
  "marks L (s\<lparr>ALCT_WordsSinceLastHeader := v23\<rparr>) = marks L s\<lparr>ALCT_WordsSinceLastHeader := v23\<rparr>"
  "marks L (s\<lparr>ALCT_WordCount := v24\<rparr>) = marks L s\<lparr>ALCT_WordCount := v24\<rparr>"
  "marks L (s\<lparr>ALCT_WordsExpected := v25\<rparr>) = marks L s\<lparr>ALCT_WordsExpected := v25\<rparr>"
  "marks L (s\<lparr>TMB_WordsSinceLastHeader := v26\<rparr>) = marks L s\<lparr>TMB_WordsSinceLastHeader := v26\<rparr>"
  "marks L (s\<lparr>TMB_WordCount := v27\<rparr>) = marks L s\<lparr>TMB_WordCount := v27\<rparr>"
  "marks L (s\<lparr>TMB_WordsExpected := v28\<rparr>) = marks L s\<lparr>TMB_WordsExpected := v28\<rparr>"
  "marks L (s\<lparr>TMB_Tbins := v29\<rparr>) = marks L s\<lparr>TMB_Tbins := v29\<rparr>"
  "marks L (s\<lparr>TMB_WordsExpectedCorrection := v30\<rparr>) = marks L s\<lparr>TMB_WordsExpectedCorrection := v30\<rparr>"
  "marks L (s\<lparr>CFEB_SampleWordCount := v31\<rparr>) = marks L s\<lparr>CFEB_SampleWordCount := v31\<rparr>"
  "marks L (s\<lparr>CFEB_SampleCount := v32\<rparr>) = marks L s\<lparr>CFEB_SampleCount := v32\<rparr>"
  "marks L (s\<lparr>CFEB_BSampleCount := v33\<rparr>) = marks L s\<lparr>CFEB_BSampleCount := v33\<rparr>"
  "marks L (s\<lparr>checkCrcALCT := v34\<rparr>) = marks L s\<lparr>checkCrcALCT := v34\<rparr>"
  "marks L (s\<lparr>ALCT_CRC := v35\<rparr>) = marks L s\<lparr>ALCT_CRC := v35\<rparr>"
  "marks L (s\<lparr>checkCrcTMB := v36\<rparr>) = marks L s\<lparr>checkCrcTMB := v36\<rparr>"
  "marks L (s\<lparr>TMB_CRC := v37\<rparr>) = marks L s\<lparr>TMB_CRC := v37\<rparr>"
  "marks L (s\<lparr>checkCrcCFEB := v38\<rparr>) = marks L s\<lparr>checkCrcCFEB := v38\<rparr>"
  "marks L (s\<lparr>CFEB_CRC := v39\<rparr>) = marks L s\<lparr>CFEB_CRC := v39\<rparr>"
  by (rule marks_push, simp)+

lemma marks_at [simp]: "marks L (at p c n nn s) = at p c n nn (marks L s)" "bare (marks L s) = marks L (bare s)"
  by (rule marks_push, simp) (rule marks_push[symmetric], simp add: bare_def)

section \<open>Words within an event\<close>

text \<open>There is room for \<open>k\<close> more words before the event counts as too long.\<close>

definition room :: "nat \<Rightarrow> examiner \<Rightarrow> bool" where
  "room k s \<longleftrightarrow> fDDU_Header s \<and> \<not> fDDU_Trailer s \<and> unat (DDU_WordsSinceLastHeader s) + k \<le> 50001"

definition tick :: "examiner \<Rightarrow> examiner" where
  "tick s = s\<lparr>DDU_WordsSinceLastHeader := DDU_WordsSinceLastHeader s + 1,
     ALCT_WordsSinceLastHeader := ALCT_WordsSinceLastHeader s + (if fALCT_Header s then 4 else 0),
     TMB_WordsSinceLastHeader := TMB_WordsSinceLastHeader s + (if fTMB_Header s then 4 else 0),
     CFEB_SampleWordCount := CFEB_SampleWordCount s + (if fDMB_Header s then 4 else 0)\<rparr>"

lemma room_0: "room (Suc k) s \<Longrightarrow> \<not> 50000 < DDU_WordsSinceLastHeader s"
  by (simp add: room_def word_less_nat_alt)

lemma room_tick:
  assumes "room (Suc k) s"
  shows "unat (DDU_WordsSinceLastHeader s + 1) = unat (DDU_WordsSinceLastHeader s) + 1"
  using assms by (simp add: room_def unat_word_ariths)

lemma room_step:
  assumes "room k s" "l + j \<le> k" "fDDU_Header t = fDDU_Header s" "fDDU_Trailer t = fDDU_Trailer s"
    and "DDU_WordsSinceLastHeader t = DDU_WordsSinceLastHeader s + of_nat j"
  shows "room l t"
proof -
  have "unat (of_nat j :: 32 word) = j" using assms(1,2) by (simp add: room_def unsigned_of_nat take_bit_nat_eq_self)
  then have "unat (DDU_WordsSinceLastHeader t) = unat (DDU_WordsSinceLastHeader s) + j"
    using assms(1,2) by (simp add: assms(5) room_def unat_word_ariths)
  then show ?thesis using assms(1-4) by (simp add: room_def)
qed

lemma counted_in_event:
  assumes "room (Suc k) s" and "\<not> some_nibble 0xC000 c \<or> is_ddu_header p"
  shows "counted (at p c n nn s) = at p c n nn (tick s)"
proof -
  have 1: "check_size (at p c n nn s) = at p c n nn s" using room_0[OF assms(1)] by (simp add: check_size_def)
  have 2: "count_words (at p c n nn s) = at p c n nn (tick s)"
    using assms(1) by (simp add: count_words_def tick_def room_def Let_def)
  show ?thesis using assms(2) by (auto simp: counted_def 1 2 c_words_def)
qed

lemma room_upd [simp]: "room k (bare s) = room k s" "room k (at p c n nn s) = room k s"
  by (simp_all add: room_def)

end
