(* ===== verification/Examiner_Blocks.thy ===== *)
theory Examiner_Blocks
  imports Examiner_Run
begin

text \<open>
  The data of an event as records of chambers with ALCT and TMB blocks and CFEB samples, and what the format
  checker does with each block.
\<close>

unbundle bit_operations_syntax

section \<open>Descriptions of the data\<close>

datatype block = Block (head_word: quad) (body: "quad list") (end_word: quad)
datatype sample = Sample (data: "quad list") (close_word: quad)
datatype dmb = Dmb (head9: quad) (dmb_head: quad) (alct: "block option") (tmb: "block option") (samples: "sample list")
  (f_word: quad) (e_word: quad)
datatype event = Event_of (first_word: quad) (head2: quad) (head3: quad) (dmbs: "dmb list")
  (trail1: quad) (trail2: quad) (trail3: quad)

fun block_words :: "block option \<Rightarrow> quad list" where
  "block_words None = []"
| "block_words (Some (Block h b t)) = h # b @ [t]"

fun sample_words :: "sample \<Rightarrow> quad list" where
  "sample_words (Sample d c) = d @ [c]"

fun dmb_words :: "dmb \<Rightarrow> quad list" where
  "dmb_words (Dmb g h a t ss f e) = g # h # block_words a @ block_words t @ concat (map sample_words ss) @ [f, e]"

fun event_words :: "event \<Rightarrow> quad list" where
  "event_words (Event_of h1 h2 h3 rs t1 t2 t3) = h1 # h2 # h3 # concat (map dmb_words rs) @ [t1, t2, t3]"

text \<open>The words are where they can be told apart.\<close>

fun alct_ok :: "block option \<Rightarrow> bool" where
  "alct_ok None = True"
| "alct_ok (Some (Block h b t)) \<longleftrightarrow> is_alct_header h \<and> list_all plain b \<and> is_alct_trailer t \<and> \<not> some_nibble 0xC000 t"

fun tmb_ok :: "block option \<Rightarrow> bool" where
  "tmb_ok None = True"
| "tmb_ok (Some (Block h b t)) \<longleftrightarrow> q0 h = 0x6B0C \<and> q2 h \<noteq> 0x6E0B \<and> plain h \<and> list_all plain b \<and> is_tmb_trailer t"

fun sample_ok :: "sample \<Rightarrow> bool" where
  "sample_ok (Sample d c) \<longleftrightarrow> list_all plain d \<and> is_cfeb_trailer c \<and> \<not> some_nibble 0xC000 c \<and> \<not> starts (hd (d @ [c]))"

fun dmb_ok :: "dmb \<Rightarrow> bool" where
  "dmb_ok (Dmb g h a t ss f e) \<longleftrightarrow> all_nibbles 0x9000 g \<and> is_dmb_header h \<and> alct_ok a \<and> tmb_ok t \<and> list_all sample_ok ss \<and>
     all_nibbles 0xF000 f \<and> all_nibbles 0xE000 e"

fun event_ok :: "event \<Rightarrow> bool" where
  "event_ok (Event_of h1 h2 h3 rs t1 t2 t3) \<longleftrightarrow> \<not> special h1 \<and> is_ddu_header h2 \<and> \<not> special h3 \<and>
     list_all dmb_ok rs \<and> is_ddu_trailer t1"

section \<open>ALCT blocks\<close>

text \<open>One step of a chain of assignments.\<close>

lemma let_to: "a = b \<Longrightarrow> f b = r \<Longrightarrow> (let s = a in f s) = r"
  by simp

lemma if_to: "c \<Longrightarrow> a = r \<Longrightarrow> (if c then a else b) = r"
  by simp


definition alct_expected :: "quad \<Rightarrow> 32 word" where
  "alct_expected h =
     (if q1 h AND 0x0003 = 1 then drop_bit 2 (ucast (q1 h) AND 0x007c) * popcount7 (q3 h) * 12 + 12
      else if q3 h AND 0x0003 = 0 then 12 else 0)"

fun alct_marks :: "bool \<Rightarrow> block \<Rightarrow> (nat \<times> 32 word) list" where
  "alct_marks enabled (Block h b t) = mark_if (q0 t AND 0xF800 \<noteq> 0xD000) 11 0x800 @
     mark_if (enabled \<and> fold crc_quad (h # b) 0 \<noteq> reported_crc t) 10 0x400"

lemma plain_not:
  assumes "plain c"
  shows "\<not> special c" "\<not> some_nibble 0xC000 c" "\<not> is_ddu_header c" "\<not> is_ddu_trailer c" "\<not> is_dmb_header c"
    "\<not> is_alct_trailer c" "\<not> is_tmb_trailer c" "\<not> is_cfeb_trailer c"
  using assms by (simp_all add: plain_def special_def)

text \<open>The check sums in a block and behind it.\<close>

lemma sums_alct:
  assumes "fALCT_Header s" "\<not> fTMB_Header s"
  shows "cfeb_crc (tmb_crc (tmb_correction (alct_crc (at p c n nn s)))) =
    at p c n nn (s\<lparr>ALCT_CRC := if checkCrcALCT s then crc_quad c (ALCT_CRC s) else ALCT_CRC s\<rparr>)"
  using assms by (cases "checkCrcALCT s") (simp_all add: alct_crc_def tmb_correction_def tmb_crc_def cfeb_crc_def)

lemma sums_end:
  assumes "\<not> fALCT_Header s" "\<not> fTMB_Header s" "CFEB_SampleWordCount s = 0"
  shows "cfeb_crc (tmb_crc (tmb_correction (alct_crc (at p c n nn s)))) = at p c n nn s"
  using assms by (simp add: alct_crc_def tmb_correction_def tmb_crc_def cfeb_crc_def)

lemma alct_body_round:
  assumes "room (Suc k) s" "fALCT_Header s" "\<not> fTMB_Header s" "fDMB_Header s" "plain c"
    and "\<not> is_dmb_header p" "\<not> is_alct_trailer p"
  shows "work (at p c n nn s) = at p c n nn (s\<lparr>
    DDU_WordsSinceLastHeader := DDU_WordsSinceLastHeader s + 1,
    ALCT_WordsSinceLastHeader := ALCT_WordsSinceLastHeader s + 4, CFEB_SampleWordCount := CFEB_SampleWordCount s + 4,
    ALCT_CRC := if checkCrcALCT s then crc_quad c (ALCT_CRC s) else ALCT_CRC s\<rparr>)"
proof -
  have w: "work (at p c n nn s) = cfeb_crc (tmb_crc (tmb_correction (alct_crc (at p c n nn (tick s)))))"
    using assms(5-7) by (subst work_plain) (simp_all add: plain_def no_start_def counted_in_event[OF assms(1)])
  have t: "tick s = s\<lparr>DDU_WordsSinceLastHeader := DDU_WordsSinceLastHeader s + 1,
    ALCT_WordsSinceLastHeader := ALCT_WordsSinceLastHeader s + 4, CFEB_SampleWordCount := CFEB_SampleWordCount s + 4\<rparr>"
    using assms(2-4) by (simp add: tick_def)
  show ?thesis unfolding w t using assms(2,3) by (subst sums_alct) simp_all
qed

lemma alct_body:
  assumes "room (length cs) s" "fALCT_Header s" "\<not> fTMB_Header s" "fDMB_Header s" "list_all plain cs"
    and "\<not> is_dmb_header p" "\<not> is_alct_trailer p" "bare s = s"
  shows "run p cs n nn s = s\<lparr>
    DDU_WordsSinceLastHeader := DDU_WordsSinceLastHeader s + of_nat (length cs),
    ALCT_WordsSinceLastHeader := ALCT_WordsSinceLastHeader s + 4 * of_nat (length cs),
    CFEB_SampleWordCount := CFEB_SampleWordCount s + 4 * of_nat (length cs),
    ALCT_CRC := if checkCrcALCT s then fold crc_quad cs (ALCT_CRC s) else ALCT_CRC s\<rparr>"
  using assms
proof (induction cs arbitrary: p s)
  case (Cons c cs)
  have c: "plain c" "\<not> is_dmb_header c" "\<not> is_alct_trailer c" "list_all plain cs"
    using Cons.prems(5) by (simp_all add: plain_not)
  have r: "room (Suc (length cs)) s" using Cons.prems(1) by simp
  let ?s = "s\<lparr>DDU_WordsSinceLastHeader := DDU_WordsSinceLastHeader s + 1,
    ALCT_WordsSinceLastHeader := ALCT_WordsSinceLastHeader s + 4, CFEB_SampleWordCount := CFEB_SampleWordCount s + 4,
    ALCT_CRC := if checkCrcALCT s then crc_quad c (ALCT_CRC s) else ALCT_CRC s\<rparr>"
  have "room (length cs) ?s" using r room_tick[OF r] by (simp add: room_def)
  then have IH: "run c cs n nn ?s = ?s\<lparr>
    DDU_WordsSinceLastHeader := DDU_WordsSinceLastHeader ?s + of_nat (length cs),
    ALCT_WordsSinceLastHeader := ALCT_WordsSinceLastHeader ?s + 4 * of_nat (length cs),
    CFEB_SampleWordCount := CFEB_SampleWordCount ?s + 4 * of_nat (length cs),
    ALCT_CRC := if checkCrcALCT ?s then fold crc_quad cs (ALCT_CRC ?s) else ALCT_CRC ?s\<rparr>"
    using Cons.prems c by (intro Cons.IH) simp_all
  have "run p (c # cs) n nn s = run c cs n nn ?s"
    using Cons.prems by (simp add: alct_body_round[OF r _ _ _ c(1)])
  then show ?case unfolding IH by (simp add: algebra_simps)
qed simp

lemma alct_header_round:
  assumes "room (Suc k) s" "\<not> fALCT_Header s" "\<not> fTMB_Header s" "fDMB_Header s" "is_alct_header h" "is_dmb_header p"
    and "ALCT_WordsExpected s = 0"
  shows "work (at p h n nn s) = at p h n nn (s\<lparr>
    DDU_WordsSinceLastHeader := DDU_WordsSinceLastHeader s + 1, CFEB_SampleWordCount := CFEB_SampleWordCount s + 4,
    fALCT_Header := True, ALCT_CRC := if checkCrcALCT s then crc_quad h 0 else 0, ALCT_WordsSinceLastHeader := 4,
    ALCT_WordsExpected := alct_expected h\<rparr>)"
proof -
  let ?t = "s\<lparr>DDU_WordsSinceLastHeader := DDU_WordsSinceLastHeader s + 1, CFEB_SampleWordCount := CFEB_SampleWordCount s + 4\<rparr>"
  have t: "counted (at p h n nn s) = at p h n nn ?t"
    using assms(2-5) by (simp add: counted_in_event[OF assms(1)] tick_def alct_header_only)
  have h: "alct_header (at p h n nn ?t) = at p h n nn (?t\<lparr>fALCT_Header := True, ALCT_CRC := 0,
      ALCT_WordsSinceLastHeader := 4, ALCT_WordsExpected := alct_expected h\<rparr>)"
    using assms(5-7) by (simp add: alct_header_def alct_expected_def Let_def)
  have "work (at p h n nn s) = cfeb_crc (tmb_crc (tmb_correction (alct_crc (alct_header (at p h n nn ?t)))))"
    using alct_header_only[OF assms(5)]
    by (simp add: work_def counted_def[symmetric] t blocks_def not_special h tmb_header_def)
  then show ?thesis unfolding h using alct_header_only(3)[OF assms(5)] assms(3)
    by (subst (asm) sums_alct) (simp_all add: tmb_header_def)
qed

lemma alct_trailer_at:
  assumes "fALCT_Header s" "is_alct_trailer t" "uniqueALCT s"
  shows "alct_trailer (at p t n nn s) = at p t n nn ((marks (mark_if (q0 t AND 0xF800 \<noteq> 0xD000) 11 0x800 @
      mark_if (checkCrcALCT s \<and> ALCT_CRC s \<noteq> reported_crc t) 10 0x400) s)\<lparr>
    CFEB_SampleWordCount := 0, DAV_ALCT := \<not> DAV_ALCT s, fALCT_Header := False, uniqueALCT := False, CFEB_CRC := 0,
    ALCT_WordCount := ucast (q3 t AND 0x07FF)\<rparr>)"
  by (cases "q0 t AND 0xF800 = 0xD000"; cases "checkCrcALCT s"; cases "ALCT_CRC s = reported_crc t")
    (simp_all add: alct_trailer_def Let_def marks_simps mark_if_def assms)

lemma alct_trailer_round:
  assumes "room (Suc k) s" "fALCT_Header s" "\<not> fTMB_Header s" "fDMB_Header s" "is_alct_trailer t" "\<not> some_nibble 0xC000 t"
    and "uniqueALCT s"
  shows "work (at p t n nn s) = at p t n nn ((marks (mark_if (q0 t AND 0xF800 \<noteq> 0xD000) 11 0x800 @
      mark_if (checkCrcALCT s \<and> ALCT_CRC s \<noteq> reported_crc t) 10 0x400) s)\<lparr>
    DDU_WordsSinceLastHeader := DDU_WordsSinceLastHeader s + 1, ALCT_WordsSinceLastHeader := ALCT_WordsSinceLastHeader s + 4,
    CFEB_SampleWordCount := 0, DAV_ALCT := \<not> DAV_ALCT s, fALCT_Header := False, uniqueALCT := False, CFEB_CRC := 0,
    ALCT_WordCount := ucast (q3 t AND 0x07FF)\<rparr>)"
proof -
  let ?t = "s\<lparr>DDU_WordsSinceLastHeader := DDU_WordsSinceLastHeader s + 1,
    ALCT_WordsSinceLastHeader := ALCT_WordsSinceLastHeader s + 4, CFEB_SampleWordCount := CFEB_SampleWordCount s + 4\<rparr>"
  have t: "counted (at p t n nn s) = at p t n nn ?t"
    using assms(2-4,6) by (simp add: counted_in_event[OF assms(1)] tick_def)
  note only = alct_trailer_only[OF assms(5)]
  have w: "work (at p t n nn s) = cfeb_crc (tmb_crc (tmb_correction (alct_crc (alct_trailer (at p t n nn ?t)))))"
    using only by (simp add: work_def counted_def[symmetric] t blocks_def quiet not_started no_start_def starts_def)
  have a: "alct_trailer (at p t n nn ?t) = at p t n nn ((marks (mark_if (q0 t AND 0xF800 \<noteq> 0xD000) 11 0x800 @
      mark_if (checkCrcALCT s \<and> ALCT_CRC s \<noteq> reported_crc t) 10 0x400) s)\<lparr>
    DDU_WordsSinceLastHeader := DDU_WordsSinceLastHeader s + 1, ALCT_WordsSinceLastHeader := ALCT_WordsSinceLastHeader s + 4,
    CFEB_SampleWordCount := 0, DAV_ALCT := \<not> DAV_ALCT s, fALCT_Header := False, uniqueALCT := False, CFEB_CRC := 0,
    ALCT_WordCount := ucast (q3 t AND 0x07FF)\<rparr>)"
    by (subst alct_trailer_at) (simp_all add: assms(2,5,7))
  show ?thesis unfolding w a by (rule sums_end) (simp_all add: assms(3))
qed

text \<open>What a block does to the state.\<close>

fun after_alct :: "block option \<Rightarrow> examiner \<Rightarrow> examiner" where
  "after_alct None s = s"
| "after_alct (Some (Block h b t)) s = (marks (alct_marks (checkCrcALCT s) (Block h b t)) s)\<lparr>
    DDU_WordsSinceLastHeader := DDU_WordsSinceLastHeader s + of_nat (length b + 2),
    ALCT_WordsSinceLastHeader := of_nat (4 * (length b + 2)), ALCT_WordsExpected := alct_expected h,
    ALCT_WordCount := ucast (q3 t AND 0x07FF), DAV_ALCT := \<not> DAV_ALCT s, uniqueALCT := False,
    ALCT_CRC := if checkCrcALCT s then fold crc_quad (h # b) 0 else 0, CFEB_CRC := 0, CFEB_SampleWordCount := 0,
    fALCT_Header := False\<rparr>"

lemma alct_block:
  assumes "room (length b + 2) s" "\<not> fALCT_Header s" "\<not> fTMB_Header s" "fDMB_Header s" "alct_ok (Some (Block h b t))"
    and "is_dmb_header p" "ALCT_WordsExpected s = 0" "uniqueALCT s" "bare s = s"
  shows "run p (h # b @ [t]) n nn s = after_alct (Some (Block h b t)) s"
proof -
  have ok: "is_alct_header h" "list_all plain b" "is_alct_trailer t" "\<not> some_nibble 0xC000 t"
    using assms(5) by simp_all
  let ?s1 = "s\<lparr>DDU_WordsSinceLastHeader := DDU_WordsSinceLastHeader s + 1,
    CFEB_SampleWordCount := CFEB_SampleWordCount s + 4, fALCT_Header := True,
    ALCT_CRC := if checkCrcALCT s then crc_quad h 0 else 0, ALCT_WordsSinceLastHeader := 4,
    ALCT_WordsExpected := alct_expected h\<rparr>"
  have r: "room (Suc (length b + 1)) s" using assms(1) by simp
  have r1: "room (length b + 1) ?s1" by (rule room_step[OF r, where j = 1]) simp_all
  have 1: "run p (h # b @ [t]) n nn s = run h (b @ [t]) n nn ?s1"
    using alct_header_round[OF r assms(2-4) ok(1) assms(6,7)] assms(9) by simp
  let ?s2 = "?s1\<lparr>DDU_WordsSinceLastHeader := DDU_WordsSinceLastHeader ?s1 + of_nat (length b),
    ALCT_WordsSinceLastHeader := ALCT_WordsSinceLastHeader ?s1 + 4 * of_nat (length b),
    CFEB_SampleWordCount := CFEB_SampleWordCount ?s1 + 4 * of_nat (length b),
    ALCT_CRC := if checkCrcALCT ?s1 then fold crc_quad b (ALCT_CRC ?s1) else ALCT_CRC ?s1\<rparr>"
  have "room (length b) ?s1" by (rule room_step[OF r1, where j = 0]) simp_all
  then have 2: "run h b t n ?s1 = ?s2"
    using assms(3,4,9) ok(2) alct_header_only(1)[OF ok(1)] by (intro alct_body) (simp_all add: special_def)
  have r2: "room (Suc 0) ?s2" by (rule room_step[OF r1, where j = "length b"]) simp_all
  have b: "bare ?s2 = ?s2" by (simp add: assms(9))
  have 3: "run h (b @ [t]) n nn ?s1 = run (List.last (h # b)) [t] n nn ?s2" by (simp add: run_append 2 del: list.map)
  also have "\<dots> = bare (work (at (List.last (h # b)) t n nn ?s2))" by simp
  also have "\<dots> = after_alct (Some (Block h b t)) s"
    by (subst alct_trailer_round[OF r2 _ _ _ ok(3,4)]) (simp_all add: assms(3,4,8,9) algebra_simps)
  finally show ?thesis unfolding 1 .
qed


section \<open>TMB blocks\<close>

definition tmb_tbins :: "quad \<Rightarrow> 32 word" where
  "tmb_tbins h = (if q1 h AND 0x3000 = 0x1000 then ucast (q1 h AND 0x001F) else 0)"

definition tmb_base :: "quad \<Rightarrow> quad \<Rightarrow> 32 word" where
  "tmb_base h n =
     (if q1 h AND 0x3000 = 0x3000 then 8 else if q1 h AND 0x3000 = 0x0000 then 32
      else if q1 h AND 0x3000 = 0x1000 then 28 + tmb_tbins h * drop_bit 5 (ucast (q0 n) AND 0x00E0) * 6 else 0)"

text \<open>The correction for the RPC data is taken from the word before the one that begins them.\<close>

definition corr1 :: "32 word \<Rightarrow> quad \<Rightarrow> quad \<Rightarrow> 32 word \<Rightarrow> 32 word" where
  "corr1 tb p c k =
     (if q2 c = 0x6E0B
      then 2 + drop_bit 6 (ucast (q2 p) AND 0x0040) * drop_bit 4 (ucast (q2 p) AND 0x0030) * tb * 2 else k)"

fun corr :: "32 word \<Rightarrow> quad \<Rightarrow> quad list \<Rightarrow> 32 word \<Rightarrow> 32 word" where
  "corr tb p [] k = k"
| "corr tb p (c # cs) k = corr tb c cs (corr1 tb p c k)"

definition tmb_extra :: "quad \<Rightarrow> 32 word \<Rightarrow> 32 word" where
  "tmb_extra p k =
     (if q1 p = 0x6E0C then (if q0 p = 0x6E04 then 2 + (4 + k) else 2) else 0) +
     (if q3 p = 0x6E0C \<and> q2 p = 0x6E04 then 4 + k else 0)"

lemma sums_tmb:
  assumes "\<not> fALCT_Header s" "fTMB_Header s"
  shows "cfeb_crc (tmb_crc (tmb_correction (alct_crc (at p c n nn s)))) =
    at p c n nn (s\<lparr>TMB_WordsExpectedCorrection := corr1 (TMB_Tbins s) p c (TMB_WordsExpectedCorrection s),
      TMB_CRC := if checkCrcTMB s then crc_quad c (TMB_CRC s) else TMB_CRC s\<rparr>)"
  using assms by (cases "checkCrcTMB s"; cases "q2 c = 0x6E0B")
    (simp_all add: alct_crc_def tmb_correction_def tmb_crc_def cfeb_crc_def corr1_def)

lemma tmb_header_at:
  assumes "q0 h = 0x6B0C" "is_dmb_header p \<or> is_alct_trailer p" "TMB_WordsExpected s = 0" "TMB_Tbins s = 0"
  shows "tmb_header (at p h n nn s) = at p h n nn (s\<lparr>fTMB_Header := True, TMB_CRC := 0, TMB_WordsSinceLastHeader := 4,
    TMB_WordsExpected := tmb_base h n, TMB_Tbins := tmb_tbins h\<rparr>)"
  using assms by (simp add: tmb_header_def tmb_base_def tmb_tbins_def Let_def)

lemma tmb_head_round:
  assumes "room (Suc k) s" "\<not> fALCT_Header s" "\<not> fTMB_Header s" "fDMB_Header s" "q0 h = 0x6B0C" "plain h" "q2 h \<noteq> 0x6E0B"
    and "is_dmb_header p \<or> is_alct_trailer p" "TMB_WordsExpected s = 0" "TMB_Tbins s = 0"
  shows "work (at p h n nn s) = at p h n nn (s\<lparr>
    DDU_WordsSinceLastHeader := DDU_WordsSinceLastHeader s + 1, CFEB_SampleWordCount := CFEB_SampleWordCount s + 4,
    fTMB_Header := True, TMB_CRC := if checkCrcTMB s then crc_quad h 0 else 0, TMB_WordsSinceLastHeader := 4,
    TMB_WordsExpected := tmb_base h n, TMB_Tbins := tmb_tbins h\<rparr>)"
proof -
  let ?t = "s\<lparr>DDU_WordsSinceLastHeader := DDU_WordsSinceLastHeader s + 1, CFEB_SampleWordCount := CFEB_SampleWordCount s + 4\<rparr>"
  let ?u = "?t\<lparr>fTMB_Header := True, TMB_CRC := 0, TMB_WordsSinceLastHeader := 4,
    TMB_WordsExpected := tmb_base h n, TMB_Tbins := tmb_tbins h\<rparr>"
  have t: "counted (at p h n nn s) = at p h n nn ?t"
    using assms(2-4) plain_not(2)[OF assms(6)] by (simp add: counted_in_event[OF assms(1)] tick_def)
  have "\<not> is_alct_header h" using assms(5) by (auto simp: is_alct_header_def)
  then have a: "alct_header (at p h n nn ?t) = at p h n nn ?t" by (simp add: alct_header_def)
  have h: "tmb_header (at p h n nn ?t) = at p h n nn ?u"
    using assms(5,8-10) by (subst tmb_header_at) simp_all
  have "work (at p h n nn s) = cfeb_crc (tmb_crc (tmb_correction (alct_crc (at p h n nn ?u))))"
    using plain_not(1)[OF assms(6)] by (simp add: work_def counted_def[symmetric] t blocks_def not_special a h)
  also have "\<dots> = at p h n nn (?u\<lparr>TMB_WordsExpectedCorrection := corr1 (TMB_Tbins ?u) p h (TMB_WordsExpectedCorrection ?u),
      TMB_CRC := if checkCrcTMB ?u then crc_quad h (TMB_CRC ?u) else TMB_CRC ?u\<rparr>)"
    using assms(2) by (intro sums_tmb) simp_all
  also have "\<dots> = at p h n nn (s\<lparr>
    DDU_WordsSinceLastHeader := DDU_WordsSinceLastHeader s + 1, CFEB_SampleWordCount := CFEB_SampleWordCount s + 4,
    fTMB_Header := True, TMB_CRC := if checkCrcTMB s then crc_quad h 0 else 0, TMB_WordsSinceLastHeader := 4,
    TMB_WordsExpected := tmb_base h n, TMB_Tbins := tmb_tbins h\<rparr>)"
    using assms(7) by (simp add: corr1_def)
  finally show ?thesis .
qed

lemma tmb_body_round:
  assumes "room (Suc k) s" "\<not> fALCT_Header s" "fTMB_Header s" "fDMB_Header s" "plain c"
    and "\<not> is_dmb_header p" "\<not> is_alct_trailer p"
  shows "work (at p c n nn s) = at p c n nn (s\<lparr>
    DDU_WordsSinceLastHeader := DDU_WordsSinceLastHeader s + 1,
    TMB_WordsSinceLastHeader := TMB_WordsSinceLastHeader s + 4, CFEB_SampleWordCount := CFEB_SampleWordCount s + 4,
    TMB_WordsExpectedCorrection := corr1 (TMB_Tbins s) p c (TMB_WordsExpectedCorrection s),
    TMB_CRC := if checkCrcTMB s then crc_quad c (TMB_CRC s) else TMB_CRC s\<rparr>)"
proof -
  have w: "work (at p c n nn s) = cfeb_crc (tmb_crc (tmb_correction (alct_crc (at p c n nn (tick s)))))"
    using assms(5-7) by (subst work_plain) (simp_all add: plain_def no_start_def counted_in_event[OF assms(1)])
  have t: "tick s = s\<lparr>DDU_WordsSinceLastHeader := DDU_WordsSinceLastHeader s + 1,
    TMB_WordsSinceLastHeader := TMB_WordsSinceLastHeader s + 4, CFEB_SampleWordCount := CFEB_SampleWordCount s + 4\<rparr>"
    using assms(2-4) by (simp add: tick_def)
  show ?thesis unfolding w t using assms(2,3) by (subst sums_tmb) simp_all
qed

lemma tmb_body:
  assumes "room (length cs) s" "\<not> fALCT_Header s" "fTMB_Header s" "fDMB_Header s" "list_all plain cs"
    and "\<not> is_dmb_header p" "\<not> is_alct_trailer p" "bare s = s"
  shows "run p cs n nn s = s\<lparr>
    DDU_WordsSinceLastHeader := DDU_WordsSinceLastHeader s + of_nat (length cs),
    TMB_WordsSinceLastHeader := TMB_WordsSinceLastHeader s + 4 * of_nat (length cs),
    CFEB_SampleWordCount := CFEB_SampleWordCount s + 4 * of_nat (length cs),
    TMB_WordsExpectedCorrection := corr (TMB_Tbins s) p cs (TMB_WordsExpectedCorrection s),
    TMB_CRC := if checkCrcTMB s then fold crc_quad cs (TMB_CRC s) else TMB_CRC s\<rparr>"
  using assms
proof (induction cs arbitrary: p s)
  case (Cons c cs)
  have c: "plain c" "\<not> is_dmb_header c" "\<not> is_alct_trailer c" "list_all plain cs"
    using Cons.prems(5) by (simp_all add: plain_not)
  have r: "room (Suc (length cs)) s" using Cons.prems(1) by simp
  let ?s = "s\<lparr>DDU_WordsSinceLastHeader := DDU_WordsSinceLastHeader s + 1,
    TMB_WordsSinceLastHeader := TMB_WordsSinceLastHeader s + 4, CFEB_SampleWordCount := CFEB_SampleWordCount s + 4,
    TMB_WordsExpectedCorrection := corr1 (TMB_Tbins s) p c (TMB_WordsExpectedCorrection s),
    TMB_CRC := if checkCrcTMB s then crc_quad c (TMB_CRC s) else TMB_CRC s\<rparr>"
  have "room (length cs) ?s" by (rule room_step[OF r, where j = 1]) simp_all
  then have IH: "run c cs n nn ?s = ?s\<lparr>
    DDU_WordsSinceLastHeader := DDU_WordsSinceLastHeader ?s + of_nat (length cs),
    TMB_WordsSinceLastHeader := TMB_WordsSinceLastHeader ?s + 4 * of_nat (length cs),
    CFEB_SampleWordCount := CFEB_SampleWordCount ?s + 4 * of_nat (length cs),
    TMB_WordsExpectedCorrection := corr (TMB_Tbins ?s) c cs (TMB_WordsExpectedCorrection ?s),
    TMB_CRC := if checkCrcTMB ?s then fold crc_quad cs (TMB_CRC ?s) else TMB_CRC ?s\<rparr>"
    using Cons.prems c by (intro Cons.IH) simp_all
  have "run p (c # cs) n nn s = run c cs n nn ?s"
    using Cons.prems by (simp add: tmb_body_round[OF r _ _ _ c(1)])
  then show ?case unfolding IH by (simp add: algebra_simps)
qed simp

lemma tmb_extra_at:
  "s' = at p c n nn s \<Longrightarrow>
   (let s = (if q1 (buf_1 s') = 0x6E0C then
               (let s = s'\<lparr>TMB_WordsExpected := TMB_WordsExpected s' + 2\<rparr>
                in if q0 (buf_1 s) = 0x6E04
                   then s\<lparr>TMB_WordsExpected := TMB_WordsExpected s + 4 + TMB_WordsExpectedCorrection s\<rparr> else s)
             else s');
        s = (if q3 (buf_1 s) = 0x6E0C \<and> q2 (buf_1 s) = 0x6E04
             then s\<lparr>TMB_WordsExpected := TMB_WordsExpected s + 4 + TMB_WordsExpectedCorrection s\<rparr> else s)
    in s\<lparr>CFEB_SampleWordCount := 0\<rparr>) =
   at p c n nn (s\<lparr>TMB_WordsExpected := TMB_WordsExpected s + tmb_extra p (TMB_WordsExpectedCorrection s), CFEB_SampleWordCount := 0\<rparr>)"
  by (simp add: tmb_extra_def Let_def algebra_simps)

lemma tmb_trailer_at:
  assumes "fTMB_Header s" "is_tmb_trailer t" "uniqueTMB s"
  shows "tmb_trailer (at p t n nn s) =
    at p t n nn ((marks (mark_if (checkCrcTMB s \<and> TMB_CRC s \<noteq> reported_crc t) 15 0x8000) s)\<lparr>
    CFEB_SampleWordCount := 0, DAV_TMB := \<not> DAV_TMB s, fTMB_Header := False, uniqueTMB := False, CFEB_CRC := 0,
    TMB_WordCount := ucast (q3 t AND 0x07FF),
    TMB_WordsExpected := TMB_WordsExpected s + tmb_extra p (TMB_WordsExpectedCorrection s)\<rparr>)"
proof -
  let ?S = "(marks (mark_if (checkCrcTMB s \<and> TMB_CRC s \<noteq> reported_crc t) 15 0x8000) s)\<lparr>DAV_TMB := \<not> DAV_TMB s,
    fTMB_Header := False, uniqueTMB := False, CFEB_CRC := 0, TMB_WordCount := ucast (q3 t AND 0x07FF)\<rparr>"
  have "tmb_trailer (at p t n nn s) = at p t n nn (?S\<lparr>
      TMB_WordsExpected := TMB_WordsExpected ?S + tmb_extra p (TMB_WordsExpectedCorrection ?S), CFEB_SampleWordCount := 0\<rparr>)"
    unfolding tmb_trailer_def
    apply (rule if_to, simp add: assms(2))
    apply (rule let_to[where b = "at p t n nn s"], simp add: assms(3))
    apply (rule let_to[where b = "at p t n nn (s\<lparr>DAV_TMB := \<not> DAV_TMB s\<rparr>)"], simp)
    apply (rule let_to[where b = "at p t n nn (s\<lparr>DAV_TMB := \<not> DAV_TMB s\<rparr>)"], simp add: assms(1))
    apply (rule let_to[where b = "at p t n nn (marks (mark_if (checkCrcTMB s \<and> TMB_CRC s \<noteq> reported_crc t) 15 0x8000) s\<lparr>DAV_TMB := \<not> DAV_TMB s\<rparr>)"],
      simp add: mark_if_def marks_simps)
    apply (rule let_to[where b = "at p t n nn ?S"], simp)
    by (rule tmb_extra_at[OF refl])
  then show ?thesis by simp
qed

lemma tmb_trailer_round:
  assumes "room (Suc k) s" "\<not> fALCT_Header s" "fTMB_Header s" "fDMB_Header s" "is_tmb_trailer t" "uniqueTMB s"
  shows "work (at p t n nn s) =
    at p t n nn ((marks (mark_if (checkCrcTMB s \<and> TMB_CRC s \<noteq> reported_crc t) 15 0x8000) s)\<lparr>
    DDU_WordsSinceLastHeader := DDU_WordsSinceLastHeader s + 1, TMB_WordsSinceLastHeader := TMB_WordsSinceLastHeader s + 4,
    CFEB_SampleWordCount := 0, DAV_TMB := \<not> DAV_TMB s, fTMB_Header := False, uniqueTMB := False, CFEB_CRC := 0,
    TMB_WordCount := ucast (q3 t AND 0x07FF),
    TMB_WordsExpected := TMB_WordsExpected s + tmb_extra p (TMB_WordsExpectedCorrection s)\<rparr>)"
proof -
  let ?t = "s\<lparr>DDU_WordsSinceLastHeader := DDU_WordsSinceLastHeader s + 1,
    TMB_WordsSinceLastHeader := TMB_WordsSinceLastHeader s + 4, CFEB_SampleWordCount := CFEB_SampleWordCount s + 4\<rparr>"
  note only = tmb_trailer_only[OF assms(5)]
  have t: "counted (at p t n nn s) = at p t n nn ?t"
    using assms(2-4) only by (simp add: counted_in_event[OF assms(1)] tick_def)
  have c: "tmb_correction (alct_crc (at p t n nn ?t)) = at p t n nn ?t"
    using assms(2) only by (simp add: tmb_correction_def alct_crc_def)
  have w: "work (at p t n nn s) = cfeb_crc (tmb_crc (tmb_trailer (at p t n nn ?t)))"
    using only by (simp add: work_def counted_def[symmetric] t blocks_def quiet not_started no_start_def starts_def c)
  have a: "tmb_trailer (at p t n nn ?t) =
    at p t n nn ((marks (mark_if (checkCrcTMB s \<and> TMB_CRC s \<noteq> reported_crc t) 15 0x8000) s)\<lparr>
    DDU_WordsSinceLastHeader := DDU_WordsSinceLastHeader s + 1, TMB_WordsSinceLastHeader := TMB_WordsSinceLastHeader s + 4,
    CFEB_SampleWordCount := 0, DAV_TMB := \<not> DAV_TMB s, fTMB_Header := False, uniqueTMB := False, CFEB_CRC := 0,
    TMB_WordCount := ucast (q3 t AND 0x07FF),
    TMB_WordsExpected := TMB_WordsExpected s + tmb_extra p (TMB_WordsExpectedCorrection s)\<rparr>)" (is "_ = at p t n nn ?X")
    by (subst tmb_trailer_at) (simp_all add: assms(3,5,6))
  have "cfeb_crc (tmb_crc (at p t n nn ?X)) = cfeb_crc (tmb_crc (tmb_correction (alct_crc (at p t n nn ?X))))"
    by (simp add: alct_crc_def tmb_correction_def assms(2))
  also have "\<dots> = at p t n nn ?X" by (rule sums_end) (simp_all add: assms(2))
  finally show ?thesis unfolding w a .
qed

fun tmb_marks :: "bool \<Rightarrow> block \<Rightarrow> (nat \<times> 32 word) list" where
  "tmb_marks enabled (Block h b t) = mark_if (enabled \<and> fold crc_quad (h # b) 0 \<noteq> reported_crc t) 15 0x8000"

text \<open>The words a TMB block should have, when \<open>k\<close> is the correction found before it.\<close>

fun tmb_expected :: "block \<Rightarrow> 32 word \<Rightarrow> 32 word" where
  "tmb_expected (Block h b t) k =
     tmb_base h (hd (b @ [t])) + tmb_extra (List.last (h # b)) (corr (tmb_tbins h) h b k)"

fun after_tmb :: "block option \<Rightarrow> examiner \<Rightarrow> examiner" where
  "after_tmb None s = s"
| "after_tmb (Some (Block h b t)) s = (marks (tmb_marks (checkCrcTMB s) (Block h b t)) s)\<lparr>
    DDU_WordsSinceLastHeader := DDU_WordsSinceLastHeader s + of_nat (length b + 2),
    TMB_WordsSinceLastHeader := of_nat (4 * (length b + 2)),
    TMB_WordsExpected := tmb_expected (Block h b t) (TMB_WordsExpectedCorrection s),
    TMB_WordsExpectedCorrection := corr (tmb_tbins h) h b (TMB_WordsExpectedCorrection s), TMB_Tbins := tmb_tbins h,
    TMB_WordCount := ucast (q3 t AND 0x07FF), DAV_TMB := \<not> DAV_TMB s, uniqueTMB := False,
    TMB_CRC := if checkCrcTMB s then fold crc_quad (h # b) 0 else 0, CFEB_CRC := 0, CFEB_SampleWordCount := 0,
    fTMB_Header := False\<rparr>"

lemma tmb_block:
  assumes "room (length b + 2) s" "\<not> fALCT_Header s" "\<not> fTMB_Header s" "fDMB_Header s" "tmb_ok (Some (Block h b t))"
    and "is_dmb_header p \<or> is_alct_trailer p" "TMB_WordsExpected s = 0" "TMB_Tbins s = 0" "uniqueTMB s" "bare s = s"
  shows "run p (h # b @ [t]) n nn s = after_tmb (Some (Block h b t)) s"
proof -
  have ok: "q0 h = 0x6B0C" "q2 h \<noteq> 0x6E0B" "plain h" "list_all plain b" "is_tmb_trailer t"
    using assms(5) by simp_all
  let ?n = "hd (b @ [t])"
  let ?s1 = "s\<lparr>DDU_WordsSinceLastHeader := DDU_WordsSinceLastHeader s + 1,
    CFEB_SampleWordCount := CFEB_SampleWordCount s + 4, fTMB_Header := True,
    TMB_CRC := if checkCrcTMB s then crc_quad h 0 else 0, TMB_WordsSinceLastHeader := 4,
    TMB_WordsExpected := tmb_base h ?n, TMB_Tbins := tmb_tbins h\<rparr>"
  have r: "room (Suc (length b + 1)) s" using assms(1) by simp
  have r1: "room (length b + 1) ?s1" by (rule room_step[OF r, where j = 1]) simp_all
  have hd: "hd ((b @ [t]) @ [n, nn]) = ?n" by (cases b) simp_all
  have 1: "run p (h # b @ [t]) n nn s = run h (b @ [t]) n nn ?s1"
    using tmb_head_round[OF r assms(2-4) ok(1,3,2) assms(6-8)] assms(10) by (simp only: run.simps hd) simp
  let ?s2 = "?s1\<lparr>DDU_WordsSinceLastHeader := DDU_WordsSinceLastHeader ?s1 + of_nat (length b),
    TMB_WordsSinceLastHeader := TMB_WordsSinceLastHeader ?s1 + 4 * of_nat (length b),
    CFEB_SampleWordCount := CFEB_SampleWordCount ?s1 + 4 * of_nat (length b),
    TMB_WordsExpectedCorrection := corr (TMB_Tbins ?s1) h b (TMB_WordsExpectedCorrection ?s1),
    TMB_CRC := if checkCrcTMB ?s1 then fold crc_quad b (TMB_CRC ?s1) else TMB_CRC ?s1\<rparr>"
  have "room (length b) ?s1" by (rule room_step[OF r1, where j = 0]) simp_all
  then have 2: "run h b t n ?s1 = ?s2"
    using assms(2,4,10) ok(4) plain_not[OF ok(3)] by (intro tmb_body) simp_all
  have r2: "room (Suc 0) ?s2" by (rule room_step[OF r1, where j = "length b"]) simp_all
  have 3: "run h (b @ [t]) n nn ?s1 = run (List.last (h # b)) [t] n nn ?s2" by (simp add: run_append 2)
  also have "\<dots> = bare (work (at (List.last (h # b)) t n nn ?s2))" by simp
  also have "\<dots> = after_tmb (Some (Block h b t)) s"
    by (subst tmb_trailer_round[OF r2 _ _ _ ok(5)]) (simp_all add: assms(2,4,9,10) algebra_simps)
  finally show ?thesis unfolding 1 .
qed

section \<open>CFEB samples\<close>

definition cfeb_quad :: "quad \<Rightarrow> 32 word \<Rightarrow> 32 word" where
  "cfeb_quad q CRC = fold cfeb_crc_word [q0 q, q1 q, q2 q, q3 q] CRC"

lemma sums_cfeb:
  assumes "\<not> fALCT_Header s" "\<not> fTMB_Header s" "fDMB_Header s" "CFEB_SampleWordCount s \<noteq> 0"
  shows "cfeb_crc (tmb_crc (tmb_correction (alct_crc (at p c n nn s)))) =
    at p c n nn (s\<lparr>CFEB_CRC := if checkCrcCFEB s then cfeb_quad c (CFEB_CRC s) else CFEB_CRC s\<rparr>)"
  using assms by (cases "checkCrcCFEB s") (simp_all add: alct_crc_def tmb_correction_def tmb_crc_def cfeb_crc_def cfeb_quad_def)

lemma data_round:
  assumes "room (Suc k) s" "\<not> fALCT_Header s" "\<not> fTMB_Header s" "fDMB_Header s" "plain c" "\<not> starts c \<or> plain p"
    and "CFEB_SampleWordCount s + 4 \<noteq> 0"
  shows "work (at p c n nn s) = at p c n nn (s\<lparr>
    DDU_WordsSinceLastHeader := DDU_WordsSinceLastHeader s + 1, CFEB_SampleWordCount := CFEB_SampleWordCount s + 4,
    CFEB_CRC := if checkCrcCFEB s then cfeb_quad c (CFEB_CRC s) else CFEB_CRC s\<rparr>)"
proof -
  have n: "no_start (at p c n nn s)" using assms(6) plain_not[of p] by (auto simp: no_start_def starts_def)
  have w: "work (at p c n nn s) = cfeb_crc (tmb_crc (tmb_correction (alct_crc (at p c n nn (tick s)))))"
    using assms(5) n by (subst work_plain) (simp_all add: plain_not counted_in_event[OF assms(1)])
  have t: "tick s = s\<lparr>DDU_WordsSinceLastHeader := DDU_WordsSinceLastHeader s + 1,
    CFEB_SampleWordCount := CFEB_SampleWordCount s + 4\<rparr>"
    using assms(2-4) by (simp add: tick_def)
  show ?thesis unfolding w t using assms(2-4,7) by (subst sums_cfeb) simp_all
qed

lemma four_times: "j \<le> 60000 \<Longrightarrow> j \<noteq> 0 \<Longrightarrow> (of_nat (4 * j) :: 32 word) \<noteq> 0"
  by (simp only: word_unat_eq_iff unsigned_of_nat unat_0) (simp add: take_bit_nat_eq_self)

lemma data_words:
  assumes "room (length cs) s" "\<not> fALCT_Header s" "\<not> fTMB_Header s" "fDMB_Header s" "list_all plain cs"
    and "cs = [] \<or> \<not> starts (hd cs) \<or> plain p" "bare s = s"
    and "CFEB_SampleWordCount s = of_nat (4 * j)" "j + length cs \<le> 60000"
  shows "run p cs n nn s = s\<lparr>
    DDU_WordsSinceLastHeader := DDU_WordsSinceLastHeader s + of_nat (length cs),
    CFEB_SampleWordCount := of_nat (4 * (j + length cs)),
    CFEB_CRC := if checkCrcCFEB s then fold cfeb_quad cs (CFEB_CRC s) else CFEB_CRC s\<rparr>"
  using assms
proof (induction cs arbitrary: p s j)
  case Nil
  have "of_nat (4 * (j + length [])) = CFEB_SampleWordCount s" using Nil.prems(8) by simp
  then show ?case by (simp only: run.simps list.size of_nat_0 add_0_right fold.simps id_apply if_cancel) simp
next
  case (Cons c cs)
  have c: "plain c" "list_all plain cs" using Cons.prems(5) by simp_all
  have r: "room (Suc (length cs)) s" using Cons.prems(1) by simp
  have st: "\<not> starts c \<or> plain p" using Cons.prems(6) by simp
  let ?s = "s\<lparr>DDU_WordsSinceLastHeader := DDU_WordsSinceLastHeader s + 1,
    CFEB_SampleWordCount := CFEB_SampleWordCount s + 4,
    CFEB_CRC := if checkCrcCFEB s then cfeb_quad c (CFEB_CRC s) else CFEB_CRC s\<rparr>"
  have j: "CFEB_SampleWordCount s + 4 = of_nat (4 * Suc j)" using Cons.prems(8) by simp
  have nz: "CFEB_SampleWordCount s + 4 \<noteq> 0" unfolding j using Cons.prems(9) by (intro four_times) simp_all
  have "room (length cs) ?s" by (rule room_step[OF r, where j = 1]) simp_all
  then have IH: "run c cs n nn ?s = ?s\<lparr>
    DDU_WordsSinceLastHeader := DDU_WordsSinceLastHeader ?s + of_nat (length cs),
    CFEB_SampleWordCount := of_nat (4 * (Suc j + length cs)),
    CFEB_CRC := if checkCrcCFEB ?s then fold cfeb_quad cs (CFEB_CRC ?s) else CFEB_CRC ?s\<rparr>"
    using Cons.prems c by (intro Cons.IH) (simp_all add: j del: of_nat_mult of_nat_Suc)
  have "run p (c # cs) n nn s = run c cs n nn ?s"
    by (simp add: data_round[OF r Cons.prems(2-4) c(1) st nz] Cons.prems(7))
  then show ?case unfolding IH by (simp add: algebra_simps)
qed

fun sample_marks :: "bool \<Rightarrow> sample \<Rightarrow> (nat \<times> 32 word) list" where
  "sample_marks enabled (Sample d c) = mark_if ((of_nat (4 * (length d + 1)) :: 32 word) \<noteq> 100) 16 0x10000 @
     mark_if (enabled \<and> fold cfeb_quad d 0 \<noteq> ucast (q0 c)) 18 0x40000"

lemma cfeb_trailer_at:
  assumes "is_cfeb_trailer c"
  shows "cfeb_trailer (at p c n nn s) = at p c n nn ((marks (mark_if (CFEB_SampleWordCount s \<noteq> 100) 16 0x10000 @
      mark_if (checkCrcCFEB s \<and> CFEB_CRC s \<noteq> ucast (q0 c)) 18 0x40000) s)\<lparr>
    CFEB_SampleCount := CFEB_SampleCount s + 1,
    CFEB_BSampleCount := if (CFEB_SampleCount s + 1) mod 8 = 0 then 0 else CFEB_BSampleCount s,
    DAV_CFEB := if (CFEB_SampleCount s + 1) mod 8 = 0 then DAV_CFEB s - 1 else DAV_CFEB s,
    CFEB_CRC := 0, CFEB_SampleWordCount := 0\<rparr>)"
proof -
  let ?M = "mark_if (CFEB_SampleWordCount s \<noteq> 100) 16 0x10000" and ?eight = "(CFEB_SampleCount s + 1) mod 8 = 0"
  let ?N = "mark_if (checkCrcCFEB s \<and> CFEB_CRC s \<noteq> ucast (q0 c)) 18 0x40000"
  let ?s = "\<lambda>t. t\<lparr>CFEB_SampleCount := CFEB_SampleCount s + 1,
    CFEB_BSampleCount := if ?eight then 0 else CFEB_BSampleCount s, DAV_CFEB := if ?eight then DAV_CFEB s - 1 else DAV_CFEB s\<rparr>"
  show ?thesis
    unfolding cfeb_trailer_def
    apply (rule if_to, simp add: assms)
    apply (rule let_to[where b = "at p c n nn (marks ?M s)"], simp add: marks_if)
    apply (rule let_to[where b = "at p c n nn ((marks ?M s)\<lparr>CFEB_SampleCount := CFEB_SampleCount s + 1\<rparr>)"], simp)
    apply (rule let_to[where b = "at p c n nn (?s (marks ?M s))"], (cases ?eight; simp))
    apply (rule let_to[where b = "at p c n nn (?s (marks (?M @ ?N) s))"], simp add: marks_if marks_simps(2))
    by simp
qed

lemma cfeb_trailer_round:
  assumes "room (Suc k) s" "\<not> fALCT_Header s" "\<not> fTMB_Header s" "fDMB_Header s" "is_cfeb_trailer c"
    and "\<not> some_nibble 0xC000 c" "\<not> starts c \<or> plain p"
  shows "work (at p c n nn s) = at p c n nn ((marks (mark_if (CFEB_SampleWordCount s + 4 \<noteq> 100) 16 0x10000 @
      mark_if (checkCrcCFEB s \<and> CFEB_CRC s \<noteq> ucast (q0 c)) 18 0x40000) s)\<lparr>
    DDU_WordsSinceLastHeader := DDU_WordsSinceLastHeader s + 1, CFEB_SampleCount := CFEB_SampleCount s + 1,
    CFEB_BSampleCount := if (CFEB_SampleCount s + 1) mod 8 = 0 then 0 else CFEB_BSampleCount s,
    DAV_CFEB := if (CFEB_SampleCount s + 1) mod 8 = 0 then DAV_CFEB s - 1 else DAV_CFEB s,
    CFEB_CRC := 0, CFEB_SampleWordCount := 0\<rparr>)" (is "_ = at p c n nn ?X")
proof -
  let ?t = "s\<lparr>DDU_WordsSinceLastHeader := DDU_WordsSinceLastHeader s + 1, CFEB_SampleWordCount := CFEB_SampleWordCount s + 4\<rparr>"
  note only = cfeb_trailer_only[OF assms(5)]
  have t: "counted (at p c n nn s) = at p c n nn ?t"
    using assms(2-4,6) by (simp add: counted_in_event[OF assms(1)] tick_def)
  have "no_start (at p c n nn ?t)" using assms(7) plain_not[of p] by (auto simp: no_start_def starts_def)
  then have st: "alct_header (at p c n nn ?t) = at p c n nn ?t" "tmb_header (at p c n nn ?t) = at p c n nn ?t"
    by (simp_all only: not_started)
  have cr: "tmb_crc (tmb_correction (alct_crc (at p c n nn ?t))) = at p c n nn ?t"
    using assms(2,3) by (simp add: tmb_correction_def alct_crc_def tmb_crc_def)
  have w: "work (at p c n nn s) = cfeb_crc (cfeb_trailer (at p c n nn ?t))"
    using only by (simp add: work_def counted_def[symmetric] t blocks_def quiet st cr)
  have a: "cfeb_trailer (at p c n nn ?t) = at p c n nn ?X"
    by (subst cfeb_trailer_at) (simp_all add: assms(5) add.assoc)
  show ?thesis unfolding w a by (simp add: cfeb_crc_def)
qed

fun after_sample :: "sample \<Rightarrow> examiner \<Rightarrow> examiner" where
  "after_sample (Sample d c) s = (marks (sample_marks (checkCrcCFEB s) (Sample d c)) s)\<lparr>
    DDU_WordsSinceLastHeader := DDU_WordsSinceLastHeader s + of_nat (length d + 1),
    CFEB_SampleCount := CFEB_SampleCount s + 1,
    CFEB_BSampleCount := if (CFEB_SampleCount s + 1) mod 8 = 0 then 0 else CFEB_BSampleCount s,
    DAV_CFEB := if (CFEB_SampleCount s + 1) mod 8 = 0 then DAV_CFEB s - 1 else DAV_CFEB s,
    CFEB_CRC := 0, CFEB_SampleWordCount := 0\<rparr>"

lemma sample_block:
  assumes "room (length d + 1) s" "\<not> fALCT_Header s" "\<not> fTMB_Header s" "fDMB_Header s" "sample_ok (Sample d c)"
    and "CFEB_SampleWordCount s = 0" "CFEB_CRC s = 0" "bare s = s"
  shows "run p (d @ [c]) n nn s = after_sample (Sample d c) s"
proof -
  have ok: "list_all plain d" "is_cfeb_trailer c" "\<not> some_nibble 0xC000 c" "\<not> starts (hd (d @ [c]))"
    using assms(5) by simp_all
  let ?s = "s\<lparr>DDU_WordsSinceLastHeader := DDU_WordsSinceLastHeader s + of_nat (length d),
    CFEB_SampleWordCount := of_nat (4 * length d), CFEB_CRC := if checkCrcCFEB s then fold cfeb_quad d 0 else 0\<rparr>"
  have l: "length d \<le> 60000" using assms(1) by (simp add: room_def)
  have r0: "room (length d) s" by (rule room_step[OF assms(1), where j = 0]) simp_all
  have r: "room (Suc 0) ?s" by (rule room_step[OF assms(1), where j = "length d"]) simp_all
  have d: "d = [] \<or> \<not> starts (hd d) \<or> plain p" using ok(4) by (cases d) simp_all
  have c0: "CFEB_SampleWordCount s = of_nat (4 * 0)" using assms(6) by simp
  have 1: "run p d c n s = ?s"
    using data_words[OF r0 assms(2-4) ok(1) d assms(8) c0, of c n] l assms(7) by simp
  have q: "\<not> starts c \<or> plain (List.last (p # d))"
    using ok(1,4) by (cases "d = []") (auto simp: list_all_iff)
  have "run p (d @ [c]) n nn s = bare (work (at (List.last (p # d)) c n nn ?s))" by (simp add: run_append 1)
  also have "\<dots> = after_sample (Sample d c) s"
    by (subst cfeb_trailer_round[OF r _ _ _ ok(2,3) q]) (simp_all add: assms(2-4,8) algebra_simps)
  finally show ?thesis .
qed

text \<open>A state between the blocks of a record.\<close>

definition between :: "examiner \<Rightarrow> bool" where
  "between s \<longleftrightarrow> \<not> fALCT_Header s \<and> \<not> fTMB_Header s \<and> fDMB_Header s \<and> CFEB_SampleWordCount s = 0 \<and> CFEB_CRC s = 0 \<and>
     bare s = s"

lemma between_sample: "between s \<Longrightarrow> between (after_sample b s)"
  by (cases b) (simp add: between_def)

lemma sample_run:
  assumes "room (length (concat (map sample_words ss))) s" "between s" "list_all sample_ok ss"
  shows "run p (concat (map sample_words ss)) n nn s = fold after_sample ss s"
  using assms
proof (induction ss arbitrary: p s)
  case (Cons b ss)
  obtain d c where b: "b = Sample d c" by (cases b)
  let ?w = "concat (map sample_words ss)"
  have r: "room (length d + 1) s" by (rule room_step[OF Cons.prems(1), where j = 0]) (simp_all add: b)
  have r1: "room (length ?w) (after_sample b s)"
    by (rule room_step[OF Cons.prems(1), where j = "length d + 1"]) (simp_all add: b)
  have "run p (concat (map sample_words (b # ss))) n nn s =
      run (List.last (p # d @ [c])) ?w n nn (run p (d @ [c]) (hd (?w @ [n, nn])) (hd (tl (?w @ [n, nn]))) s)"
    using run_append[of p "d @ [c]" ?w] by (simp add: b del: append_assoc)
  also have "\<dots> = run (List.last (p # d @ [c])) ?w n nn (after_sample b s)"
    using Cons.prems(2,3) r unfolding b by (subst sample_block) (simp_all add: between_def)
  also have "\<dots> = fold after_sample ss (after_sample b s)"
    using Cons.prems(3) by (intro Cons.IH r1 between_sample[OF Cons.prems(2)]) simp
  finally show ?case by simp
qed simp

end
