(* ===== verification/Examiner_Event.thy ===== *)
theory Examiner_Event
  imports Examiner_Blocks
begin

text \<open>
  The checker against a description of an event: what \<^verbatim>\<open>check\<close> reports on an event that consists of a DDU
  header, records of chambers and a DDU trailer, in terms of the parts of the records.
\<close>

unbundle bit_operations_syntax

section \<open>Errors of chambers\<close>

text \<open>The chambers with each error, while the record of chamber \<open>c\<close> is being read: error 0 of this chamber
  may not be entered yet.\<close>

definition tracked :: "(nat \<Rightarrow> int set) \<Rightarrow> int \<Rightarrow> examiner \<Rightarrow> bool" where
  "tracked E c s \<longleftrightarrow> \<not> fERROR s 0 \<and> (\<forall>e \<ge> 1. (fERROR s e \<longleftrightarrow> E e \<noteq> {}) \<and> fCHAMB_ERR s e = E e) \<and>
     (\<forall>x. x \<noteq> c \<longrightarrow> (x \<in> fCHAMB_ERR s 0 \<longleftrightarrow> (\<exists>e. x \<in> E e))) \<and> (c \<in> fCHAMB_ERR s 0 \<longrightarrow> (\<exists>e. c \<in> E e)) \<and>
     (\<forall>e x. x \<in> E e \<longrightarrow> 0 \<le> x \<and> 1 \<le> e \<and> e < 25)"

lemma trackedI:
  assumes "\<not> fERROR s 0" "\<And>e. 1 \<le> e \<Longrightarrow> fERROR s e \<longleftrightarrow> E e \<noteq> {}" "\<And>e. 1 \<le> e \<Longrightarrow> fCHAMB_ERR s e = E e"
    "\<And>x. x \<noteq> c \<Longrightarrow> x \<in> fCHAMB_ERR s 0 \<longleftrightarrow> (\<exists>e. x \<in> E e)" "c \<in> fCHAMB_ERR s 0 \<Longrightarrow> \<exists>e. c \<in> E e"
    "\<And>e x. x \<in> E e \<Longrightarrow> 0 \<le> x \<and> 1 \<le> e \<and> e < 25"
  shows "tracked E c s"
  unfolding tracked_def using assms by blast

lemma trackedD:
  assumes "tracked E c s"
  shows "\<not> fERROR s 0" "1 \<le> e \<Longrightarrow> fERROR s e \<longleftrightarrow> E e \<noteq> {}" "1 \<le> e \<Longrightarrow> fCHAMB_ERR s e = E e"
    "x \<noteq> c \<Longrightarrow> x \<in> fCHAMB_ERR s 0 \<longleftrightarrow> (\<exists>e. x \<in> E e)" "c \<in> fCHAMB_ERR s 0 \<Longrightarrow> \<exists>e. c \<in> E e"
    "x \<in> E e \<Longrightarrow> 0 \<le> x" "x \<in> E e \<Longrightarrow> 1 \<le> e" "x \<in> E e \<Longrightarrow> e < 25"
  using assms unfolding tracked_def by blast+

definition add_errors :: "int \<Rightarrow> nat set \<Rightarrow> (nat \<Rightarrow> int set) \<Rightarrow> nat \<Rightarrow> int set" where
  "add_errors c F E e = (if e \<in> F then insert c (E e) else E e)"

lemma add_errors_empty [simp]: "add_errors c {} E = E"
  by (simp add: add_errors_def fun_eq_iff)

lemma add_errors_add [simp]: "add_errors c G (add_errors c F E) = add_errors c (F \<union> G) E"
  by (auto simp: add_errors_def fun_eq_iff)

lemma tracked_cong: "fERROR s = fERROR t \<Longrightarrow> fCHAMB_ERR s = fCHAMB_ERR t \<Longrightarrow> tracked E c s = tracked E c t"
  by (simp add: tracked_def)

lemma fCHAMB_ERR_chamber_error:
  "fCHAMB_ERR (chamber_error e m s) = (fCHAMB_ERR s)(e := insert (currentChamber s) (fCHAMB_ERR s e))"
  "fCHAMB_ERR (chamber_error0 e m s) =
    (fCHAMB_ERR (chamber_error e m s))(0 := insert (currentChamber s) (fCHAMB_ERR (chamber_error e m s) 0))"
  by (simp_all add: chamber_error_def chamber_error0_def flag_chamber_def)

lemma fERROR_chamber_error: "fERROR (chamber_error e m s) = (fERROR s)(e := True)"
  "fERROR (chamber_error0 e m s) = (fERROR s)(e := True)"
  by (simp_all add: chamber_error_def chamber_error0_def flag_def)

lemma tracked_mark:
  assumes "tracked E c s" "currentChamber s = c" "0 \<le> c" "1 \<le> e" "e < 25"
  shows "tracked (add_errors c {e} E) c (chamber_error e m s)" "tracked (add_errors c {e} E) c (chamber_error0 e m s)"
proof -
  note D = trackedD[OF assms(1)]
  have ex: "(\<exists>i. x \<in> add_errors c {e} E i) \<longleftrightarrow> x = c \<or> (\<exists>i. x \<in> E i)" for x
    by (auto simp: add_errors_def)
  have e: "e \<noteq> 0" using assms(4) by simp
  have bd: "0 \<le> x \<and> 1 \<le> i \<and> i < 25" if "x \<in> add_errors c {e} E i" for i x
    using that D(6-8)[of x i] assms(3-5) by (simp add: add_errors_def split: if_splits) blast
  have i: "((fERROR s)(e := True)) i \<longleftrightarrow> add_errors c {e} E i \<noteq> {}" if "1 \<le> i" for i
    using D(2)[OF that] by (simp add: add_errors_def)
  have f: "((fCHAMB_ERR s)(e := insert c (fCHAMB_ERR s e))) i = add_errors c {e} E i" if "1 \<le> i" for i
    using D(3)[OF assms(4)] D(3)[OF that] by (simp add: add_errors_def)
  show "tracked (add_errors c {e} E) c (chamber_error e m s)"
  proof (rule trackedI)
    show "\<exists>i. c \<in> add_errors c {e} E i" unfolding ex by simp
  qed (use e D(1,4) i f bd in \<open>simp_all add: ex fERROR_chamber_error fCHAMB_ERR_chamber_error assms(2)\<close>)
  show "tracked (add_errors c {e} E) c (chamber_error0 e m s)"
  proof (rule trackedI)
    show "\<exists>i. c \<in> add_errors c {e} E i" unfolding ex by simp
  qed (use e D(1,4) i f bd in \<open>simp_all add: ex fERROR_chamber_error fCHAMB_ERR_chamber_error assms(2)\<close>)
qed

lemma tracked_marks:
  assumes "tracked E c s" "currentChamber s = c" "0 \<le> c" "\<forall>(e, m) \<in> set L. 1 \<le> e \<and> e < 25"
  shows "tracked (add_errors c (fst ` set L) E) c (marks L s)"
  using assms
proof (induction L arbitrary: E s)
  case (Cons a L)
  obtain e m where a: "a = (e, m)" by (cases a)
  have "tracked (add_errors c {e} E) c (chamber_error0 e m s)" using Cons.prems by (intro tracked_mark) (simp_all add: a)
  then have "tracked (add_errors c (fst ` set L) (add_errors c {e} E)) c (marks L (chamber_error0 e m s))"
    using Cons.prems by (intro Cons.IH) simp_all
  then show ?case by (simp add: a marks_simps)
qed (simp add: marks_simps)

lemma tracked_not_in:
  assumes "tracked E c s" "x < 0"
  shows "x \<notin> fCHAMB_ERR s e"
proof
  note D = trackedD[OF assms(1)]
  assume x: "x \<in> fCHAMB_ERR s e"
  have "\<exists>i. x \<in> E i"
  proof (cases "e = 0")
    case True
    then show ?thesis using x D(4,5) by (cases "x = c") simp_all
  next
    case False
    then show ?thesis using x D(3)[of e] by auto
  qed
  then show False using D(6) assms(2) by fastforce
qed

lemma tracked_unknown:
  assumes "tracked E (-1) s"
  shows "tracked E c s"
proof (rule trackedI)
  note D = trackedD[OF assms]
  have e: "x \<in> fCHAMB_ERR s 0 \<longleftrightarrow> (\<exists>e. x \<in> E e)" for x
  proof (cases "x = -1")
    case True
    then show ?thesis using tracked_not_in[OF assms, of x 0] D(6)[of x] by fastforce
  qed (rule D(4))
  show "x \<in> fCHAMB_ERR s 0 \<longleftrightarrow> (\<exists>e. x \<in> E e)" for x by (rule e)
  show "\<exists>e. c \<in> E e" if "c \<in> fCHAMB_ERR s 0" using that e by simp
  show "0 \<le> x \<and> 1 \<le> e \<and> e < 25" if "x \<in> E e" for x e using D(6-8)[OF that] by simp
qed (use trackedD(1-3)[OF assms] in simp_all)

lemma tracked_forget:
  assumes "tracked E c s"
  shows "tracked E c (forget_unknown s)"
proof -
  have "fCHAMB_ERR (forget_unknown s) = fCHAMB_ERR s"
    using tracked_not_in[OF assms, of "-1"] by (simp add: forget_unknown_def moved_def fun_eq_iff)
  then show ?thesis using assms by (simp add: tracked_cong[of "forget_unknown s" s])
qed

lemma tracked_sum:
  assumes "tracked E c s"
  shows "tracked E (-1) (sum_errors c s)"
proof -
  note D = trackedD[OF assms]
  have any: "(\<exists>e \<in> {1..<nERRORS}. c \<in> fCHAMB_ERR s e) \<longleftrightarrow> (\<exists>e. c \<in> E e)"
  proof
    assume "\<exists>e \<in> {1..<nERRORS}. c \<in> fCHAMB_ERR s e"
    then show "\<exists>e. c \<in> E e" using D(3) by auto
  next
    assume "\<exists>e. c \<in> E e"
    then obtain e where e: "c \<in> E e" by blast
    then show "\<exists>e \<in> {1..<nERRORS}. c \<in> fCHAMB_ERR s e"
      using D(3)[OF D(7)[OF e]] D(7,8)[OF e] by (auto simp: nERRORS_def intro!: bexI[of _ e])
  qed
  have set0: "x \<in> fCHAMB_ERR (sum_errors c s) 0 \<longleftrightarrow> (\<exists>e. x \<in> E e)" for x
    using D(4,5) any by (cases "x = c") (auto simp: sum_errors_def)
  have set1: "1 \<le> e \<Longrightarrow> fCHAMB_ERR (sum_errors c s) e = E e" for e
    using D(3)[of e] by (simp add: sum_errors_def)
  show ?thesis
  proof (rule trackedI)
    show "0 \<le> x \<and> 1 \<le> e \<and> e < 25" if "x \<in> E e" for x e using D(6-8)[OF that] by simp
  qed (use set0 set1 D(1,2) in simp_all)
qed

lemma check_davs_keeps [simp]:
  "currentChamber (check_davs s) = currentChamber s" "buf_1 (check_davs s) = buf_1 s" "buf0 (check_davs s) = buf0 s"
  "buf1 (check_davs s) = buf1 s" "buf2 (check_davs s) = buf2 s" "fDDU_Header (check_davs s) = fDDU_Header s"
  "fDDU_Trailer (check_davs s) = fDDU_Trailer s" "fDMB_Header (check_davs s) = fDMB_Header s"
  "fDMB_Trailer (check_davs s) = fDMB_Trailer s" "fALCT_Header (check_davs s) = fALCT_Header s"
  "fTMB_Header (check_davs s) = fTMB_Header s" "uniqueALCT (check_davs s) = uniqueALCT s"
  "uniqueTMB (check_davs s) = uniqueTMB s" "DAV_ALCT (check_davs s) = DAV_ALCT s" "DAV_TMB (check_davs s) = DAV_TMB s"
  "DAV_CFEB (check_davs s) = DAV_CFEB s" "DAV_DMB (check_davs s) = DAV_DMB s"
  "cntDDU_Headers (check_davs s) = cntDDU_Headers s" "cntDDU_Trailers (check_davs s) = cntDDU_Trailers s"
  "cntCHAMB_Headers (check_davs s) = cntCHAMB_Headers s" "cntCHAMB_Trailers (check_davs s) = cntCHAMB_Trailers s"
  "DDU_WordsSinceLastHeader (check_davs s) = DDU_WordsSinceLastHeader s"
  "DDU_WordCount (check_davs s) = DDU_WordCount s"
  "DDU_WordsSinceLastTrailer (check_davs s) = DDU_WordsSinceLastTrailer s"
  "ALCT_WordsSinceLastHeader (check_davs s) = ALCT_WordsSinceLastHeader s"
  "ALCT_WordCount (check_davs s) = ALCT_WordCount s" "ALCT_WordsExpected (check_davs s) = ALCT_WordsExpected s"
  "TMB_WordsSinceLastHeader (check_davs s) = TMB_WordsSinceLastHeader s"
  "TMB_WordCount (check_davs s) = TMB_WordCount s" "TMB_WordsExpected (check_davs s) = TMB_WordsExpected s"
  "TMB_Tbins (check_davs s) = TMB_Tbins s" "TMB_WordsExpectedCorrection (check_davs s) = TMB_WordsExpectedCorrection s"
  "CFEB_SampleWordCount (check_davs s) = CFEB_SampleWordCount s" "CFEB_SampleCount (check_davs s) = CFEB_SampleCount s"
  "CFEB_BSampleCount (check_davs s) = CFEB_BSampleCount s" "checkCrcALCT (check_davs s) = checkCrcALCT s"
  "ALCT_CRC (check_davs s) = ALCT_CRC s" "checkCrcTMB (check_davs s) = checkCrcTMB s"
  "TMB_CRC (check_davs s) = TMB_CRC s" "checkCrcCFEB (check_davs s) = checkCrcCFEB s"
  "CFEB_CRC (check_davs s) = CFEB_CRC s"
  by (simp_all add: check_davs_def Let_def)

lemma check_counts_keeps [simp]:
  "currentChamber (check_counts s) = currentChamber s" "buf_1 (check_counts s) = buf_1 s"
  "buf0 (check_counts s) = buf0 s" "buf1 (check_counts s) = buf1 s" "buf2 (check_counts s) = buf2 s"
  "fDDU_Header (check_counts s) = fDDU_Header s" "fDDU_Trailer (check_counts s) = fDDU_Trailer s"
  "fDMB_Header (check_counts s) = fDMB_Header s" "fDMB_Trailer (check_counts s) = fDMB_Trailer s"
  "fALCT_Header (check_counts s) = fALCT_Header s" "fTMB_Header (check_counts s) = fTMB_Header s"
  "uniqueALCT (check_counts s) = uniqueALCT s" "uniqueTMB (check_counts s) = uniqueTMB s"
  "DAV_ALCT (check_counts s) = DAV_ALCT s" "DAV_TMB (check_counts s) = DAV_TMB s"
  "DAV_CFEB (check_counts s) = DAV_CFEB s" "DAV_DMB (check_counts s) = DAV_DMB s"
  "cntDDU_Headers (check_counts s) = cntDDU_Headers s" "cntDDU_Trailers (check_counts s) = cntDDU_Trailers s"
  "cntCHAMB_Headers (check_counts s) = cntCHAMB_Headers s" "cntCHAMB_Trailers (check_counts s) = cntCHAMB_Trailers s"
  "DDU_WordsSinceLastHeader (check_counts s) = DDU_WordsSinceLastHeader s"
  "DDU_WordCount (check_counts s) = DDU_WordCount s"
  "DDU_WordsSinceLastTrailer (check_counts s) = DDU_WordsSinceLastTrailer s"
  "ALCT_WordCount (check_counts s) = ALCT_WordCount s" "TMB_WordCount (check_counts s) = TMB_WordCount s"
  "TMB_Tbins (check_counts s) = TMB_Tbins s"
  "TMB_WordsExpectedCorrection (check_counts s) = TMB_WordsExpectedCorrection s"
  "CFEB_SampleWordCount (check_counts s) = CFEB_SampleWordCount s"
  "CFEB_SampleCount (check_counts s) = CFEB_SampleCount s" "CFEB_BSampleCount (check_counts s) = CFEB_BSampleCount s"
  "checkCrcALCT (check_counts s) = checkCrcALCT s" "ALCT_CRC (check_counts s) = ALCT_CRC s"
  "checkCrcTMB (check_counts s) = checkCrcTMB s" "TMB_CRC (check_counts s) = TMB_CRC s"
  "checkCrcCFEB (check_counts s) = checkCrcCFEB s" "CFEB_CRC (check_counts s) = CFEB_CRC s"
  by (simp_all add: check_counts_def Let_def)

section \<open>Headers and trailers of records\<close>

text \<open>The state between the records of an event.\<close>

definition idle_event :: "(nat \<Rightarrow> int set) \<Rightarrow> examiner \<Rightarrow> bool" where
  "idle_event E s \<longleftrightarrow> \<not> fDMB_Header s \<and> \<not> fDMB_Trailer s \<and> \<not> fALCT_Header s \<and> \<not> fTMB_Header s \<and>
     currentChamber s = -1 \<and> bare s = s \<and> tracked E (-1) s"

definition chamber_of :: "quad \<Rightarrow> int" where
  "chamber_of h = uint (q1 h AND 0x0FFF)"

definition cfeb_bits :: "quad \<Rightarrow> int" where
  "cfeb_bits h = of_bool (bit (q0 h) 0) + of_bool (bit (q0 h) 1) + of_bool (bit (q0 h) 2) + of_bool (bit (q0 h) 3) +
     of_bool (bit (q0 h) 4)"

lemma dmb_header_eq:
  assumes "is_dmb_header (buf0 s)" "\<not> fDMB_Header s" "\<not> fDMB_Trailer s"
    and F: "F = forget_unknown (s\<lparr>fDMB_Header := True, fDMB_Trailer := False\<rparr>)"
  shows "dmb_header s = F\<lparr>currentChamber := chamber_of (buf0 F),
    cntCHAMB_Headers := mcount (chamber_of (buf0 F)) (cntCHAMB_Headers F), fALCT_Header := False, fTMB_Header := False,
    uniqueALCT := True, uniqueTMB := True, ALCT_WordsSinceLastHeader := 0, ALCT_WordCount := 0, ALCT_WordsExpected := 0,
    TMB_WordsSinceLastHeader := 0, TMB_WordCount := 0, TMB_WordsExpected := 0, TMB_Tbins := 0,
    CFEB_SampleWordCount := 0, CFEB_SampleCount := 0, CFEB_BSampleCount := 0, CFEB_CRC := 0, DAV_DMB := DAV_DMB F - 1,
    DAV_ALCT := bit (q0 (buf0 F)) 9, DAV_TMB := bit (q0 (buf0 F)) 11, DAV_CFEB := cfeb_bits (buf0 F)\<rparr>"
  unfolding dmb_header_def
  apply (rule if_to, rule assms(1))
  apply (rule let_to[where b = s], simp add: assms(2,3))
  apply (rule let_to[OF refl])
  apply (rule let_to[OF F[symmetric]])
  apply (simp only: Let_def clear_chamber_counts_def)
  by (simp add: chamber_of_def cfeb_bits_def)

lemma dmb_header_fields:
  assumes "is_dmb_header (buf0 s)" "\<not> fDMB_Header s" "\<not> fDMB_Trailer s"
  shows "fDMB_Header (dmb_header s)" "\<not> fDMB_Trailer (dmb_header s)" "\<not> fALCT_Header (dmb_header s)"
    "\<not> fTMB_Header (dmb_header s)" "CFEB_SampleWordCount (dmb_header s) = 0" "CFEB_CRC (dmb_header s) = 0"
    "currentChamber (dmb_header s) = chamber_of (buf0 s)" "DAV_DMB (dmb_header s) = DAV_DMB s - 1"
    "DAV_ALCT (dmb_header s) = bit (q0 (buf0 s)) 9" "DAV_TMB (dmb_header s) = bit (q0 (buf0 s)) 11"
    "DAV_CFEB (dmb_header s) = cfeb_bits (buf0 s)" "uniqueALCT (dmb_header s)" "uniqueTMB (dmb_header s)"
    "ALCT_WordsSinceLastHeader (dmb_header s) = 0" "ALCT_WordCount (dmb_header s) = 0" "ALCT_WordsExpected (dmb_header s) = 0"
    "TMB_WordsSinceLastHeader (dmb_header s) = 0" "TMB_WordCount (dmb_header s) = 0" "TMB_WordsExpected (dmb_header s) = 0"
    "TMB_Tbins (dmb_header s) = 0" "CFEB_SampleCount (dmb_header s) = 0"
    "fDDU_Header (dmb_header s) = fDDU_Header s" "fDDU_Trailer (dmb_header s) = fDDU_Trailer s"
    "DDU_WordsSinceLastHeader (dmb_header s) = DDU_WordsSinceLastHeader s"
    "TMB_WordsExpectedCorrection (dmb_header s) = TMB_WordsExpectedCorrection s"
    "checkCrcALCT (dmb_header s) = checkCrcALCT s" "checkCrcTMB (dmb_header s) = checkCrcTMB s"
    "checkCrcCFEB (dmb_header s) = checkCrcCFEB s"
    "fERROR (dmb_header s) = fERROR s" "fCHAMB_ERR (dmb_header s) = fCHAMB_ERR (forget_unknown s)"
proof -
  have "fCHAMB_ERR (forget_unknown (s\<lparr>fDMB_Header := True, fDMB_Trailer := False\<rparr>)) = fCHAMB_ERR (forget_unknown s)"
    by (simp add: forget_unknown_def cong: if_cong)
  then obtain F where F: "F = forget_unknown (s\<lparr>fDMB_Header := True, fDMB_Trailer := False\<rparr>)"
    and sets: "fCHAMB_ERR F = fCHAMB_ERR (forget_unknown s)" by simp
  have f: "buf0 F = buf0 s" "DAV_DMB F = DAV_DMB s" "fDMB_Header F" "\<not> fDMB_Trailer F" "fDDU_Header F = fDDU_Header s"
    "fDDU_Trailer F = fDDU_Trailer s" "DDU_WordsSinceLastHeader F = DDU_WordsSinceLastHeader s"
    "TMB_WordsExpectedCorrection F = TMB_WordsExpectedCorrection s" "checkCrcALCT F = checkCrcALCT s"
    "checkCrcTMB F = checkCrcTMB s" "checkCrcCFEB F = checkCrcCFEB s" "fERROR F = fERROR s"
    by (simp_all add: F)
  show "fDMB_Header (dmb_header s)" "\<not> fDMB_Trailer (dmb_header s)" "\<not> fALCT_Header (dmb_header s)"
    "\<not> fTMB_Header (dmb_header s)" "CFEB_SampleWordCount (dmb_header s) = 0" "CFEB_CRC (dmb_header s) = 0"
    "currentChamber (dmb_header s) = chamber_of (buf0 s)" "DAV_DMB (dmb_header s) = DAV_DMB s - 1"
    "DAV_ALCT (dmb_header s) = bit (q0 (buf0 s)) 9" "DAV_TMB (dmb_header s) = bit (q0 (buf0 s)) 11"
    "DAV_CFEB (dmb_header s) = cfeb_bits (buf0 s)" "uniqueALCT (dmb_header s)" "uniqueTMB (dmb_header s)"
    "ALCT_WordsSinceLastHeader (dmb_header s) = 0" "ALCT_WordCount (dmb_header s) = 0" "ALCT_WordsExpected (dmb_header s) = 0"
    "TMB_WordsSinceLastHeader (dmb_header s) = 0" "TMB_WordCount (dmb_header s) = 0" "TMB_WordsExpected (dmb_header s) = 0"
    "TMB_Tbins (dmb_header s) = 0" "CFEB_SampleCount (dmb_header s) = 0"
    "fDDU_Header (dmb_header s) = fDDU_Header s" "fDDU_Trailer (dmb_header s) = fDDU_Trailer s"
    "DDU_WordsSinceLastHeader (dmb_header s) = DDU_WordsSinceLastHeader s"
    "TMB_WordsExpectedCorrection (dmb_header s) = TMB_WordsExpectedCorrection s"
    "checkCrcALCT (dmb_header s) = checkCrcALCT s" "checkCrcTMB (dmb_header s) = checkCrcTMB s"
    "checkCrcCFEB (dmb_header s) = checkCrcCFEB s"
    "fERROR (dmb_header s) = fERROR s" "fCHAMB_ERR (dmb_header s) = fCHAMB_ERR (forget_unknown s)"
    unfolding dmb_header_eq[OF assms F] by (simp_all add: f sets)
qed

lemma tracked_dmb_header:
  assumes "tracked E (-1) s" "is_dmb_header (buf0 s)" "\<not> fDMB_Header s" "\<not> fDMB_Trailer s"
  shows "tracked E c (dmb_header s)"
proof -
  have "tracked E c (forget_unknown s)" by (rule tracked_unknown, rule tracked_forget, rule assms(1))
  then show ?thesis using dmb_header_fields(29,30)[OF assms(2-4)] by (simp add: tracked_cong[of "dmb_header s" "forget_unknown s"])
qed

lemma dmb_header_round:
  assumes "room (Suc k) s" "idle_event E s" "is_dmb_header h"
  shows "work (at p h n nn s) = dmb_header (at p h n nn (s\<lparr>DDU_WordsSinceLastHeader := DDU_WordsSinceLastHeader s + 1\<rparr>))"
proof -
  have i: "\<not> fDMB_Header s" "\<not> fDMB_Trailer s" "\<not> fALCT_Header s" "\<not> fTMB_Header s"
    using assms(2) by (simp_all add: idle_event_def)
  let ?t = "at p h n nn (s\<lparr>DDU_WordsSinceLastHeader := DDU_WordsSinceLastHeader s + 1\<rparr>)"
  have n: "all_nibbles 0xA000 h" using assms(3) by (simp add: is_dmb_header_def)
  note only = special_nibble[OF n, simplified]
  have t: "counted (at p h n nn s) = ?t"
    using i only by (simp add: counted_in_event[OF assms(1)] tick_def)
  note f = dmb_header_fields[of ?t]
  have at: "dmb_header ?t = at p h n nn (dmb_header ?t)"
    using at_self[of "dmb_header ?t"] by simp
  have "work (at p h n nn s) = cfeb_crc (tmb_crc (tmb_correction (alct_crc (dmb_header ?t))))"
    using only by (simp add: work_def counted_def[symmetric] t blocks_def quiet not_started no_start_def starts_def)
  also have "\<dots> = dmb_header ?t"
    using f assms(3) i by (subst (1 2) at) (intro sums_end; simp)
  finally show ?thesis .
qed

definition err :: "nat \<Rightarrow> bool \<Rightarrow> nat set" where
  "err n b = (if b then {n} else {})"

lemma err_simps [simp]: "err n True = {n}" "err n False = {}"
  by (simp_all add: err_def)

lemma tracked_err:
  assumes "tracked E c s" "currentChamber s = c" "0 \<le> c" "1 \<le> n" "n < 25"
  shows "tracked (add_errors c (err n b) E) c (if b then chamber_error n m s else s)"
  using tracked_mark(1)[OF assms] assms(1) by simp

lemma tracked_check_davs:
  assumes "tracked E c s" "currentChamber s = c" "0 \<le> c"
  shows "tracked (add_errors c (err 21 (DAV_ALCT s) \<union> err 22 (DAV_TMB s) \<union>
    err 23 (DAV_CFEB s \<noteq> 0 \<and> DAV_CFEB s \<noteq> -16)) E) c (check_davs s)"
proof -
  define s1 where "s1 = (if DAV_ALCT s then chamber_error 21 0x200000 s else s)"
  define s2 where "s2 = (if DAV_TMB s then chamber_error 22 0x400000 s1 else s1)"
  have k: "DAV_TMB s1 = DAV_TMB s" "DAV_CFEB s1 = DAV_CFEB s" "currentChamber s1 = c" "DAV_CFEB s2 = DAV_CFEB s"
    "currentChamber s2 = c"
    by (simp_all add: s1_def s2_def assms(2))
  have 1: "tracked (add_errors c (err 21 (DAV_ALCT s)) E) c s1" unfolding s1_def by (rule tracked_err) (simp_all add: assms)
  have 2: "tracked (add_errors c (err 22 (DAV_TMB s)) (add_errors c (err 21 (DAV_ALCT s)) E)) c s2"
    unfolding s2_def by (rule tracked_err[OF 1]) (simp_all add: k assms)
  have "check_davs s = (if DAV_CFEB s \<noteq> 0 \<and> DAV_CFEB s \<noteq> -16 then chamber_error 23 0x800000 s2 else s2)"
    by (simp add: check_davs_def Let_def s1_def[symmetric] s2_def[symmetric] k)
  then show ?thesis using tracked_err[OF 2 k(5) assms(3), of 23] by simp
qed

text \<open>The counts in a record that has the ends of its blocks.\<close>

lemma tracked_check_counts:
  assumes "tracked E c s" "currentChamber s = c" "0 \<le> c" "\<not> fALCT_Header s" "\<not> fTMB_Header s"
  shows "tracked (add_errors c (err 9 (ALCT_WordsSinceLastHeader s \<noteq> ALCT_WordCount s \<or>
      ALCT_WordsSinceLastHeader s \<noteq> ALCT_WordsExpected s) \<union>
    err 14 (TMB_WordsSinceLastHeader s \<noteq> TMB_WordCount s \<or> TMB_WordsSinceLastHeader s \<noteq> TMB_WordsExpected s) \<union>
    err 17 (CFEB_SampleCount s mod 8 \<noteq> 0)) E) c (check_counts s)"
proof -
  let ?a = "ALCT_WordsSinceLastHeader s \<noteq> ALCT_WordCount s \<or> ALCT_WordsSinceLastHeader s \<noteq> ALCT_WordsExpected s"
  let ?t = "TMB_WordsSinceLastHeader s \<noteq> TMB_WordCount s \<or> TMB_WordsSinceLastHeader s \<noteq> TMB_WordsExpected s"
  let ?c = "CFEB_SampleCount s mod 8 \<noteq> 0"
  define s1 where "s1 = (if ?a then chamber_error 9 0x200 s else s)"
  define s2 where "s2 = (if ?t then chamber_error 14 0x4000 s1 else s1)"
  define s3 where "s3 = (if ?c then chamber_error 17 0x20000 s2 else s2)"
  have k: "fTMB_Header s1 = fTMB_Header s" "TMB_WordsSinceLastHeader s1 = TMB_WordsSinceLastHeader s"
    "TMB_WordCount s1 = TMB_WordCount s" "TMB_WordsExpected s1 = TMB_WordsExpected s" "CFEB_SampleCount s2 = CFEB_SampleCount s"
    "currentChamber s1 = c" "currentChamber s2 = c" "fALCT_Header s3 = fALCT_Header s" "fTMB_Header s3 = fTMB_Header s"
    by (simp_all add: s1_def s2_def s3_def assms(2))
  have 1: "tracked (add_errors c (err 9 ?a) E) c s1" unfolding s1_def by (rule tracked_err) (simp_all add: assms)
  have 2: "tracked (add_errors c (err 14 ?t) (add_errors c (err 9 ?a) E)) c s2"
    unfolding s2_def by (rule tracked_err[OF 1]) (simp_all add: k assms)
  have 3: "tracked (add_errors c (err 17 ?c) (add_errors c (err 14 ?t) (add_errors c (err 9 ?a) E))) c s3"
    unfolding s3_def by (rule tracked_err[OF 2]) (simp_all add: k assms)
  have "check_counts s = s3"
    unfolding check_counts_def
    apply (rule let_to[where b = s1], simp add: s1_def assms(4))
    apply (rule let_to[where b = s2], simp add: s2_def k assms(5))
    apply (rule let_to[where b = s3], simp add: s3_def k)
    by (simp add: k assms(4,5))
  then show ?thesis using 3 by simp
qed

lemma check_davs_at [simp]: "check_davs (at p c n nn s) = at p c n nn (check_davs s)"
  by (simp add: check_davs_def Let_def)

lemma dmb_f_trailer_at:
  assumes "all_nibbles 0xF000 f" "all_nibbles 0xE000 e" "fDMB_Header s"
  shows "dmb_f_trailer (at p f e nn s) = at p f e nn (check_davs (s\<lparr>fDMB_Header := False, fDMB_Trailer := True,
    uniqueALCT := True, uniqueTMB := True\<rparr>))"
  unfolding dmb_f_trailer_def using assms by (simp add: Let_def)

lemma f_trailer_round:
  assumes "room (Suc k) s" "between s" "all_nibbles 0xF000 f" "all_nibbles 0xE000 e"
  shows "\<exists>v. work (at p f e nn s) = at p f e nn (check_davs (s\<lparr>
    DDU_WordsSinceLastHeader := DDU_WordsSinceLastHeader s + 1, CFEB_SampleWordCount := 4, CFEB_CRC := v,
    fDMB_Header := False, fDMB_Trailer := True, uniqueALCT := True, uniqueTMB := True\<rparr>))"
proof -
  have b: "\<not> fALCT_Header s" "\<not> fTMB_Header s" "fDMB_Header s" "CFEB_SampleWordCount s = 0"
    using assms(2) by (simp_all add: between_def)
  let ?t = "s\<lparr>DDU_WordsSinceLastHeader := DDU_WordsSinceLastHeader s + 1, CFEB_SampleWordCount := 4\<rparr>"
  let ?v = "if checkCrcCFEB ?t then cfeb_quad f (CFEB_CRC ?t) else CFEB_CRC ?t"
  note only = special_nibble[OF assms(3), simplified]
  have t: "counted (at p f e nn s) = at p f e nn ?t"
    using b only by (simp add: counted_in_event[OF assms(1)] tick_def)
  have c: "cfeb_crc (tmb_crc (tmb_correction (alct_crc (at p f e nn ?t)))) = at p f e nn (?t\<lparr>CFEB_CRC := ?v\<rparr>)"
    using b by (intro sums_cfeb) simp_all
  have "work (at p f e nn s) = dmb_f_trailer (cfeb_crc (tmb_crc (tmb_correction (alct_crc (at p f e nn ?t)))))"
    using only by (simp add: work_def counted_def[symmetric] t blocks_def quiet not_started no_start_def starts_def)
  also have "\<dots> = dmb_f_trailer (at p f e nn (?t\<lparr>CFEB_CRC := ?v\<rparr>))" unfolding c ..
  also have "\<dots> = at p f e nn (check_davs (?t\<lparr>CFEB_CRC := ?v, fDMB_Header := False, fDMB_Trailer := True,
    uniqueALCT := True, uniqueTMB := True\<rparr>))"
    using assms(3,4) b by (subst dmb_f_trailer_at) simp_all
  finally show ?thesis by (intro exI[of _ ?v])
qed

text \<open>The last word of a record: the counts are checked and the errors of the chamber summed up.\<close>

definition after_e :: "quad \<Rightarrow> examiner \<Rightarrow> examiner" where
  "after_e e s = sum_errors (currentChamber s) (forget_unknown (check_counts (s\<lparr>
     fDMB_Header := False, cntCHAMB_Trailers := mcount (chamber_of e) (cntCHAMB_Trailers s), fDMB_Trailer := False\<rparr>)))
     \<lparr>currentChamber := -1\<rparr>"

lemma dmb_e_trailer_eq:
  assumes "all_nibbles 0xE000 (buf0 s)" "fDMB_Trailer s" "currentChamber s \<noteq> -1"
  shows "dmb_e_trailer s = after_e (buf0 s) s"
  unfolding dmb_e_trailer_def after_e_def
  apply (rule if_to, rule assms(1))
  apply (rule let_to[OF chamber_of_def[symmetric]])
  apply (rule let_to[where b = s], simp add: assms(2))
  apply (rule let_to[OF refl])
  apply (rule let_to[where b = "s\<lparr>fDMB_Header := False\<rparr>"], simp add: assms(3))
  apply (rule let_to[OF refl])
  apply (rule let_to[where b = "s\<lparr>fDMB_Header := False, cntCHAMB_Trailers := mcount (chamber_of (buf0 s)) (cntCHAMB_Trailers s)\<rparr>"],
    simp add: assms(2))
  apply (rule let_to[OF refl])
  apply (rule let_to[OF refl])
  apply (rule let_to[OF refl])
  by (simp add: assms(3))

lemma tracked_after_e:
  assumes "tracked E c s" "currentChamber s = c" "0 \<le> c" "\<not> fALCT_Header s" "\<not> fTMB_Header s"
  shows "tracked (add_errors c (err 9 (ALCT_WordsSinceLastHeader s \<noteq> ALCT_WordCount s \<or>
      ALCT_WordsSinceLastHeader s \<noteq> ALCT_WordsExpected s) \<union>
    err 14 (TMB_WordsSinceLastHeader s \<noteq> TMB_WordCount s \<or> TMB_WordsSinceLastHeader s \<noteq> TMB_WordsExpected s) \<union>
    err 17 (CFEB_SampleCount s mod 8 \<noteq> 0)) E) (-1) (after_e e s)" (is "tracked ?E _ _")
proof -
  let ?t = "s\<lparr>fDMB_Header := False, cntCHAMB_Trailers := mcount (chamber_of e) (cntCHAMB_Trailers s), fDMB_Trailer := False\<rparr>"
  have "tracked E c ?t" using assms(1) by (simp add: tracked_cong[of ?t s])
  then have "tracked ?E c (check_counts ?t)" using tracked_check_counts[of E c ?t] assms(2-5) by simp
  then have "tracked ?E (-1) (sum_errors c (forget_unknown (check_counts ?t)))" by (intro tracked_sum tracked_forget)
  then show ?thesis
    unfolding after_e_def assms(2)
    by (subst tracked_cong[where t = "sum_errors c (forget_unknown (check_counts ?t))"]) simp_all
qed

lemma after_e_fields:
  "\<not> fDMB_Header (after_e e s)" "\<not> fDMB_Trailer (after_e e s)" "fALCT_Header (after_e e s) = fALCT_Header s"
  "fTMB_Header (after_e e s) = fTMB_Header s" "currentChamber (after_e e s) = -1" "DAV_DMB (after_e e s) = DAV_DMB s"
  "fDDU_Header (after_e e s) = fDDU_Header s" "fDDU_Trailer (after_e e s) = fDDU_Trailer s"
  "DDU_WordsSinceLastHeader (after_e e s) = DDU_WordsSinceLastHeader s"
  "TMB_WordsExpectedCorrection (after_e e s) = TMB_WordsExpectedCorrection s"
  "checkCrcALCT (after_e e s) = checkCrcALCT s" "checkCrcTMB (after_e e s) = checkCrcTMB s"
  "checkCrcCFEB (after_e e s) = checkCrcCFEB s" "buf_1 (after_e e s) = buf_1 s" "buf0 (after_e e s) = buf0 s"
  "buf1 (after_e e s) = buf1 s" "buf2 (after_e e s) = buf2 s"
  by (simp_all add: after_e_def)

lemma e_trailer_round:
  assumes "room (Suc k) s" "all_nibbles 0xE000 e" "\<not> fDMB_Header s" "fDMB_Trailer s" "\<not> fALCT_Header s" "\<not> fTMB_Header s"
    and "currentChamber s \<noteq> -1"
  shows "work (at p e n nn s) = after_e e (at p e n nn (s\<lparr>DDU_WordsSinceLastHeader := DDU_WordsSinceLastHeader s + 1\<rparr>))"
proof -
  let ?t = "s\<lparr>DDU_WordsSinceLastHeader := DDU_WordsSinceLastHeader s + 1\<rparr>"
  note only = special_nibble[OF assms(2), simplified]
  have t: "counted (at p e n nn s) = at p e n nn ?t"
    using assms only by (simp add: counted_in_event[OF assms(1)] tick_def)
  have "work (at p e n nn s) = dmb_e_trailer (at p e n nn ?t)"
    using only assms
    by (simp add: work_def counted_def[symmetric] t blocks_def quiet not_started no_start_def starts_def outside_record)
  then show ?thesis using assms by (simp add: dmb_e_trailer_eq)
qed

section \<open>The errors of a record\<close>

fun alct_errors :: "bool \<Rightarrow> bool \<Rightarrow> block option \<Rightarrow> nat set" where
  "alct_errors enabled dav None = err 21 dav"
| "alct_errors enabled dav (Some (Block h b t)) = err 21 (\<not> dav) \<union> err 11 (q0 t AND 0xF800 \<noteq> 0xD000) \<union>
     err 10 (enabled \<and> fold crc_quad (h # b) 0 \<noteq> reported_crc t) \<union>
     err 9 ((of_nat (4 * (length b + 2)) :: 32 word) \<noteq> ucast (q3 t AND 0x07FF) \<or>
       of_nat (4 * (length b + 2)) \<noteq> alct_expected h)"

fun tmb_errors :: "bool \<Rightarrow> bool \<Rightarrow> 32 word \<Rightarrow> block option \<Rightarrow> nat set" where
  "tmb_errors enabled dav k None = err 22 dav"
| "tmb_errors enabled dav k (Some (Block h b t)) = err 22 (\<not> dav) \<union>
     err 15 (enabled \<and> fold crc_quad (h # b) 0 \<noteq> reported_crc t) \<union>
     err 14 ((of_nat (4 * (length b + 2)) :: 32 word) \<noteq> ucast (q3 t AND 0x07FF) \<or>
       of_nat (4 * (length b + 2)) \<noteq> tmb_expected (Block h b t) k)"

fun sample_errors :: "bool \<Rightarrow> sample \<Rightarrow> nat set" where
  "sample_errors enabled (Sample d c) = err 16 ((of_nat (4 * (length d + 1)) :: 32 word) \<noteq> 100) \<union>
     err 18 (enabled \<and> fold cfeb_quad d 0 \<noteq> ucast (q0 c))"

text \<open>\<open>k\<close> is the correction that the records before have left.\<close>

fun dmb_errors :: "bool \<Rightarrow> bool \<Rightarrow> bool \<Rightarrow> 32 word \<Rightarrow> dmb \<Rightarrow> nat set" where
  "dmb_errors ea et ec k (Dmb g h a t ss f e) =
     alct_errors ea (bit (q0 h) 9) a \<union> tmb_errors et (bit (q0 h) 11) k t \<union> \<Union> (sample_errors ec ` set ss) \<union>
     err 17 (length ss mod 8 \<noteq> 0) \<union>
     err 23 (cfeb_bits h - int (length ss div 8) \<noteq> 0 \<and> cfeb_bits h - int (length ss div 8) \<noteq> -16)"

fun block_corr :: "block option \<Rightarrow> 32 word \<Rightarrow> 32 word" where
  "block_corr None k = k"
| "block_corr (Some (Block h b t)) k = corr (tmb_tbins h) h b k"

fun dmb_corr :: "dmb \<Rightarrow> 32 word \<Rightarrow> 32 word" where
  "dmb_corr (Dmb g h a t ss f e) k = block_corr t k"

fun dmb_chamber :: "dmb \<Rightarrow> int" where
  "dmb_chamber (Dmb g h a t ss f e) = chamber_of h"

section \<open>What the blocks leave\<close>

lemma after_alct_keeps [simp]:
  "currentChamber (after_alct a s) = currentChamber s" "DAV_DMB (after_alct a s) = DAV_DMB s"
  "fDDU_Header (after_alct a s) = fDDU_Header s" "fDDU_Trailer (after_alct a s) = fDDU_Trailer s"
  "checkCrcALCT (after_alct a s) = checkCrcALCT s" "checkCrcTMB (after_alct a s) = checkCrcTMB s"
  "checkCrcCFEB (after_alct a s) = checkCrcCFEB s" "fDMB_Trailer (after_alct a s) = fDMB_Trailer s"
  "DAV_TMB (after_alct a s) = DAV_TMB s" "DAV_CFEB (after_alct a s) = DAV_CFEB s"
  "uniqueTMB (after_alct a s) = uniqueTMB s" "TMB_WordsSinceLastHeader (after_alct a s) = TMB_WordsSinceLastHeader s"
  "TMB_WordCount (after_alct a s) = TMB_WordCount s" "TMB_WordsExpected (after_alct a s) = TMB_WordsExpected s"
  "TMB_Tbins (after_alct a s) = TMB_Tbins s"
  "TMB_WordsExpectedCorrection (after_alct a s) = TMB_WordsExpectedCorrection s"
  "CFEB_SampleCount (after_alct a s) = CFEB_SampleCount s"
  by (induction a s rule: after_alct.induct) simp_all

lemma after_tmb_keeps [simp]:
  "currentChamber (after_tmb a s) = currentChamber s" "DAV_DMB (after_tmb a s) = DAV_DMB s"
  "fDDU_Header (after_tmb a s) = fDDU_Header s" "fDDU_Trailer (after_tmb a s) = fDDU_Trailer s"
  "checkCrcALCT (after_tmb a s) = checkCrcALCT s" "checkCrcTMB (after_tmb a s) = checkCrcTMB s"
  "checkCrcCFEB (after_tmb a s) = checkCrcCFEB s" "fDMB_Trailer (after_tmb a s) = fDMB_Trailer s"
  "DAV_ALCT (after_tmb a s) = DAV_ALCT s" "DAV_CFEB (after_tmb a s) = DAV_CFEB s"
  "ALCT_WordsSinceLastHeader (after_tmb a s) = ALCT_WordsSinceLastHeader s"
  "ALCT_WordCount (after_tmb a s) = ALCT_WordCount s" "ALCT_WordsExpected (after_tmb a s) = ALCT_WordsExpected s"
  "CFEB_SampleCount (after_tmb a s) = CFEB_SampleCount s"
  by (induction a s rule: after_tmb.induct) simp_all

lemma after_sample_keeps [simp]:
  "currentChamber (after_sample b s) = currentChamber s" "DAV_DMB (after_sample b s) = DAV_DMB s"
  "fDDU_Header (after_sample b s) = fDDU_Header s" "fDDU_Trailer (after_sample b s) = fDDU_Trailer s"
  "checkCrcALCT (after_sample b s) = checkCrcALCT s" "checkCrcTMB (after_sample b s) = checkCrcTMB s"
  "checkCrcCFEB (after_sample b s) = checkCrcCFEB s" "fDMB_Trailer (after_sample b s) = fDMB_Trailer s"
  "DAV_ALCT (after_sample b s) = DAV_ALCT s" "DAV_TMB (after_sample b s) = DAV_TMB s"
  "ALCT_WordsSinceLastHeader (after_sample b s) = ALCT_WordsSinceLastHeader s"
  "ALCT_WordCount (after_sample b s) = ALCT_WordCount s" "ALCT_WordsExpected (after_sample b s) = ALCT_WordsExpected s"
  "TMB_WordsSinceLastHeader (after_sample b s) = TMB_WordsSinceLastHeader s"
  "TMB_WordCount (after_sample b s) = TMB_WordCount s" "TMB_WordsExpected (after_sample b s) = TMB_WordsExpected s"
  "TMB_WordsExpectedCorrection (after_sample b s) = TMB_WordsExpectedCorrection s"
  by (induction b s rule: after_sample.induct) simp_all

lemma fold_keep: "(\<And>b s. f (g b s) = f s) \<Longrightarrow> f (fold g bs s) = f s"
  by (induction bs arbitrary: s) auto

lemma after_samples_keeps [simp]:
  "currentChamber (fold after_sample ss s) = currentChamber s" "DAV_DMB (fold after_sample ss s) = DAV_DMB s"
  "fDDU_Header (fold after_sample ss s) = fDDU_Header s" "fDDU_Trailer (fold after_sample ss s) = fDDU_Trailer s"
  "checkCrcALCT (fold after_sample ss s) = checkCrcALCT s" "checkCrcTMB (fold after_sample ss s) = checkCrcTMB s"
  "checkCrcCFEB (fold after_sample ss s) = checkCrcCFEB s" "fDMB_Trailer (fold after_sample ss s) = fDMB_Trailer s"
  "DAV_ALCT (fold after_sample ss s) = DAV_ALCT s" "DAV_TMB (fold after_sample ss s) = DAV_TMB s"
  "ALCT_WordsSinceLastHeader (fold after_sample ss s) = ALCT_WordsSinceLastHeader s"
  "ALCT_WordCount (fold after_sample ss s) = ALCT_WordCount s"
  "ALCT_WordsExpected (fold after_sample ss s) = ALCT_WordsExpected s"
  "TMB_WordsSinceLastHeader (fold after_sample ss s) = TMB_WordsSinceLastHeader s"
  "TMB_WordCount (fold after_sample ss s) = TMB_WordCount s"
  "TMB_WordsExpected (fold after_sample ss s) = TMB_WordsExpected s"
  "TMB_WordsExpectedCorrection (fold after_sample ss s) = TMB_WordsExpectedCorrection s"
  by (rule fold_keep, simp)+

lemma between_alct: "between s \<Longrightarrow> between (after_alct a s)"
  by (induction a s rule: after_alct.induct) (simp_all add: between_def)

lemma between_tmb: "between s \<Longrightarrow> between (after_tmb a s)"
  by (induction a s rule: after_tmb.induct) (simp_all add: between_def)

lemma between_samples: "between s \<Longrightarrow> between (fold after_sample ss s)"
  by (induction ss arbitrary: s) (simp_all add: between_sample)

lemma word_mod_8: "(of_nat m :: 32 word) mod 8 = 0 \<longleftrightarrow> m mod 8 = 0"
proof -
  have "unat ((of_nat m :: 32 word) mod 8) = m mod 8"
    by (simp add: unat_mod_distrib unsigned_of_nat take_bit_eq_mod mod_mod_cancel)
  then show ?thesis by (metis unat_eq_0)
qed

lemma samples_counted:
  assumes "CFEB_SampleCount s = of_nat m"
  shows "CFEB_SampleCount (fold after_sample ss s) = of_nat (m + length ss)"
    "DAV_CFEB (fold after_sample ss s) = DAV_CFEB s - int ((m + length ss) div 8) + int (m div 8)"
  using assms
proof (induction ss arbitrary: s m)
  case (Cons b ss)
  obtain d c where b: "b = Sample d c" by (cases b)
  {
    case 1
    have "CFEB_SampleCount (after_sample b s) = of_nat (Suc m)" using 1 by (simp add: b)
    from Cons.IH(1)[OF this] show ?case by simp
  next
    case 2
    have n: "CFEB_SampleCount (after_sample b s) = of_nat (Suc m)" using 2 by (simp add: b)
    have "CFEB_SampleCount s + 1 = of_nat (Suc m)" using 2 by simp
    then have "DAV_CFEB (after_sample b s) = DAV_CFEB s - (if Suc m mod 8 = 0 then 1 else 0)"
      by (simp add: b word_mod_8 del: of_nat_Suc)
    moreover have "Suc m div 8 = m div 8 + (if Suc m mod 8 = 0 then 1 else 0)" by (simp add: div_Suc)
    ultimately show ?case using Cons.IH(2)[OF n] by simp
  }
qed simp_all

lemma reports_alct [simp]:
  "fERROR (after_alct (Some b) s) = fERROR (marks (alct_marks (checkCrcALCT s) b) s)"
  "fCHAMB_ERR (after_alct (Some b) s) = fCHAMB_ERR (marks (alct_marks (checkCrcALCT s) b) s)"
  by (cases b; simp)+

lemma reports_tmb [simp]:
  "fERROR (after_tmb (Some b) s) = fERROR (marks (tmb_marks (checkCrcTMB s) b) s)"
  "fCHAMB_ERR (after_tmb (Some b) s) = fCHAMB_ERR (marks (tmb_marks (checkCrcTMB s) b) s)"
  by (cases b; simp)+

lemma reports_sample [simp]:
  "fERROR (after_sample b s) = fERROR (marks (sample_marks (checkCrcCFEB s) b) s)"
  "fCHAMB_ERR (after_sample b s) = fCHAMB_ERR (marks (sample_marks (checkCrcCFEB s) b) s)"
  by (cases b; simp)+

lemma fst_mark_if: "fst ` set (mark_if b e m) = err e b"
  by (simp add: mark_if_def err_def)

fun alct_found :: "bool \<Rightarrow> block option \<Rightarrow> nat set" where
  "alct_found enabled None = {}"
| "alct_found enabled (Some (Block h b t)) = err 11 (q0 t AND 0xF800 \<noteq> 0xD000) \<union>
     err 10 (enabled \<and> fold crc_quad (h # b) 0 \<noteq> reported_crc t)"

fun tmb_found :: "bool \<Rightarrow> block option \<Rightarrow> nat set" where
  "tmb_found enabled None = {}"
| "tmb_found enabled (Some (Block h b t)) = err 15 (enabled \<and> fold crc_quad (h # b) 0 \<noteq> reported_crc t)"

lemma tracked_after:
  assumes "tracked E c s" "currentChamber s = c" "0 \<le> c" "\<forall>(e, m) \<in> set L. 1 \<le> e \<and> e < 25" "fst ` set L = F"
    and "fERROR t = fERROR (marks L s)" "fCHAMB_ERR t = fCHAMB_ERR (marks L s)"
  shows "tracked (add_errors c F E) c t"
  using tracked_marks[OF assms(1-4)] assms(5) tracked_cong[OF assms(6,7)] by simp

lemma tracked_alct:
  assumes "tracked E c s" "currentChamber s = c" "0 \<le> c"
  shows "tracked (add_errors c (alct_found (checkCrcALCT s) a) E) c (after_alct a s)"
proof (cases a)
  case None
  then show ?thesis using assms(1) by simp
next
  case (Some b)
  obtain h cs t where b: "b = Block h cs t" by (cases b)
  show ?thesis unfolding Some b
    by (rule tracked_after[OF assms, where L = "alct_marks (checkCrcALCT s) (Block h cs t)"])
      (simp_all add: image_Un fst_mark_if, auto simp: mark_if_def)
qed

lemma tracked_tmb:
  assumes "tracked E c s" "currentChamber s = c" "0 \<le> c"
  shows "tracked (add_errors c (tmb_found (checkCrcTMB s) a) E) c (after_tmb a s)"
proof (cases a)
  case None
  then show ?thesis using assms(1) by simp
next
  case (Some b)
  obtain h cs t where b: "b = Block h cs t" by (cases b)
  show ?thesis unfolding Some b
    by (rule tracked_after[OF assms, where L = "tmb_marks (checkCrcTMB s) (Block h cs t)"])
      (simp_all add: fst_mark_if, auto simp: mark_if_def)
qed

lemma tracked_samples:
  assumes "tracked E c s" "currentChamber s = c" "0 \<le> c"
  shows "tracked (add_errors c (\<Union> (sample_errors (checkCrcCFEB s) ` set ss)) E) c (fold after_sample ss s)"
  using assms
proof (induction ss arbitrary: E s)
  case (Cons b ss)
  obtain d w where b: "b = Sample d w" by (cases b)
  have 1: "tracked (add_errors c (sample_errors (checkCrcCFEB s) b) E) c (after_sample b s)" unfolding b
    by (rule tracked_after[OF Cons.prems, where L = "sample_marks (checkCrcCFEB s) (Sample d w)"])
      (simp_all add: image_Un fst_mark_if, auto simp: mark_if_def)
  show ?case using Cons.IH[OF 1] Cons.prems(2,3) by simp
qed simp

section \<open>A whole record\<close>

lemma alct_run:
  assumes "room (length (block_words a)) s" "between s" "alct_ok a" "is_dmb_header p" "ALCT_WordsExpected s = 0" "uniqueALCT s"
  shows "run p (block_words a) n nn s = after_alct a s"
proof (cases a)
  case (Some b)
  obtain h cs t where b: "b = Block h cs t" by (cases b)
  show ?thesis using assms alct_block[of cs s h t p n nn] by (simp add: Some b between_def)
qed simp

lemma tmb_run:
  assumes "room (length (block_words a)) s" "between s" "tmb_ok a" "is_dmb_header p \<or> is_alct_trailer p"
    and "TMB_WordsExpected s = 0" "TMB_Tbins s = 0" "uniqueTMB s"
  shows "run p (block_words a) n nn s = after_tmb a s"
proof (cases a)
  case (Some b)
  obtain h cs t where b: "b = Block h cs t" by (cases b)
  show ?thesis using assms tmb_block[of cs s h t p n nn] by (simp add: Some b between_def)
qed simp

lemma words_after_alct: "DDU_WordsSinceLastHeader (after_alct a s) = DDU_WordsSinceLastHeader s + of_nat (length (block_words a))"
  by (induction a s rule: after_alct.induct) simp_all

lemma words_after_tmb: "DDU_WordsSinceLastHeader (after_tmb a s) = DDU_WordsSinceLastHeader s + of_nat (length (block_words a))"
  by (induction a s rule: after_tmb.induct) simp_all

lemma words_after_samples:
  "DDU_WordsSinceLastHeader (fold after_sample ss s) =
   DDU_WordsSinceLastHeader s + of_nat (length (concat (map sample_words ss)))"
proof (induction ss arbitrary: s)
  case (Cons b ss)
  obtain d w where b: "b = Sample d w" by (cases b)
  show ?case by (simp add: Cons.IH b algebra_simps)
qed simp

text \<open>What a record does to the state between records.\<close>

definition same_setting :: "examiner \<Rightarrow> examiner \<Rightarrow> bool" where
  "same_setting s t \<longleftrightarrow> fDDU_Header t = fDDU_Header s \<and> fDDU_Trailer t = fDDU_Trailer s \<and>
     checkCrcALCT t = checkCrcALCT s \<and> checkCrcTMB t = checkCrcTMB s \<and> checkCrcCFEB t = checkCrcCFEB s"

lemma head_run:
  assumes "room (Suc k) s" "idle_event E s" "is_dmb_header h"
  shows "\<exists>t. bare (work (at p h n nn s)) = t \<and> between t \<and> tracked E (chamber_of h) t \<and> same_setting s t \<and>
    currentChamber t = chamber_of h \<and> DAV_DMB t = DAV_DMB s - 1 \<and> DAV_ALCT t = bit (q0 h) 9 \<and> DAV_TMB t = bit (q0 h) 11 \<and>
    DAV_CFEB t = cfeb_bits h \<and> uniqueALCT t \<and> uniqueTMB t \<and> ALCT_WordsSinceLastHeader t = 0 \<and> ALCT_WordCount t = 0 \<and>
    ALCT_WordsExpected t = 0 \<and> TMB_WordsSinceLastHeader t = 0 \<and> TMB_WordCount t = 0 \<and> TMB_WordsExpected t = 0 \<and>
    TMB_Tbins t = 0 \<and> CFEB_SampleCount t = 0 \<and> DDU_WordsSinceLastHeader t = DDU_WordsSinceLastHeader s + 1 \<and>
    TMB_WordsExpectedCorrection t = TMB_WordsExpectedCorrection s"
proof -
  let ?t = "at p h n nn (s\<lparr>DDU_WordsSinceLastHeader := DDU_WordsSinceLastHeader s + 1\<rparr>)"
  have i: "\<not> fDMB_Header s" "\<not> fDMB_Trailer s" "tracked E (-1) s" using assms(2) by (simp_all add: idle_event_def)
  have h: "is_dmb_header (buf0 ?t)" "\<not> fDMB_Header ?t" "\<not> fDMB_Trailer ?t" using i assms(3) by simp_all
  have "tracked E (-1) ?t" using i(3) by (simp add: tracked_cong[of ?t s])
  then have tr: "tracked E (chamber_of h) (dmb_header ?t)" using h by (rule tracked_dmb_header)
  have "tracked E (chamber_of h) (bare (dmb_header ?t))" using tr by (simp add: tracked_cong[of "bare (dmb_header ?t)" "dmb_header ?t"])
  then show ?thesis
    unfolding dmb_header_round[OF assms] using dmb_header_fields[OF h]
    by (simp add: between_def same_setting_def)
qed

lemma end_run:
  assumes "room (Suc (Suc k)) s" "between s" "all_nibbles 0xF000 f" "all_nibbles 0xE000 e"
    and "tracked E c s" "currentChamber s = c" "0 \<le> c"
  shows "\<exists>t. run p [f, e] n nn s = t \<and> idle_event (add_errors c
      (err 21 (DAV_ALCT s) \<union> err 22 (DAV_TMB s) \<union> err 23 (DAV_CFEB s \<noteq> 0 \<and> DAV_CFEB s \<noteq> -16) \<union>
       err 9 (ALCT_WordsSinceLastHeader s \<noteq> ALCT_WordCount s \<or> ALCT_WordsSinceLastHeader s \<noteq> ALCT_WordsExpected s) \<union>
       err 14 (TMB_WordsSinceLastHeader s \<noteq> TMB_WordCount s \<or> TMB_WordsSinceLastHeader s \<noteq> TMB_WordsExpected s) \<union>
       err 17 (CFEB_SampleCount s mod 8 \<noteq> 0)) E) t \<and> same_setting s t \<and> DAV_DMB t = DAV_DMB s \<and>
    DDU_WordsSinceLastHeader t = DDU_WordsSinceLastHeader s + 2 \<and>
    TMB_WordsExpectedCorrection t = TMB_WordsExpectedCorrection s"
proof -
  have b: "\<not> fALCT_Header s" "\<not> fTMB_Header s" "bare s = s" using assms(2) by (simp_all add: between_def)
  obtain v where v: "work (at p f e n s) = at p f e n (check_davs (s\<lparr>
    DDU_WordsSinceLastHeader := DDU_WordsSinceLastHeader s + 1, CFEB_SampleWordCount := 4, CFEB_CRC := v,
    fDMB_Header := False, fDMB_Trailer := True, uniqueALCT := True, uniqueTMB := True\<rparr>))"
    using f_trailer_round[OF assms(1-4)] by blast
  obtain X where X: "X = s\<lparr>DDU_WordsSinceLastHeader := DDU_WordsSinceLastHeader s + 1, CFEB_SampleWordCount := 4, CFEB_CRC := v,
    fDMB_Header := False, fDMB_Trailer := True, uniqueALCT := True, uniqueTMB := True\<rparr>" by simp
  have Xf: "fALCT_Header X = fALCT_Header s" "fTMB_Header X = fTMB_Header s" "currentChamber X = c" "DAV_ALCT X = DAV_ALCT s"
    "DAV_TMB X = DAV_TMB s" "DAV_CFEB X = DAV_CFEB s" "DAV_DMB X = DAV_DMB s" "fDMB_Trailer X" "\<not> fDMB_Header X"
    "ALCT_WordsSinceLastHeader X = ALCT_WordsSinceLastHeader s" "ALCT_WordCount X = ALCT_WordCount s"
    "ALCT_WordsExpected X = ALCT_WordsExpected s" "TMB_WordsSinceLastHeader X = TMB_WordsSinceLastHeader s"
    "TMB_WordCount X = TMB_WordCount s" "TMB_WordsExpected X = TMB_WordsExpected s" "CFEB_SampleCount X = CFEB_SampleCount s"
    "DDU_WordsSinceLastHeader X = DDU_WordsSinceLastHeader s + 1" "same_setting s X"
    "TMB_WordsExpectedCorrection X = TMB_WordsExpectedCorrection s"
    by (simp_all add: X assms(6) same_setting_def)
  have "tracked E c X = tracked E c s" by (rule tracked_cong) (simp_all add: X)
  then have "tracked E c X" using assms(5) by simp
  then have T1: "tracked (add_errors c (err 21 (DAV_ALCT s) \<union> err 22 (DAV_TMB s) \<union>
      err 23 (DAV_CFEB s \<noteq> 0 \<and> DAV_CFEB s \<noteq> -16)) E) c (check_davs X)"
    using tracked_check_davs[of E c X] assms(7) by (simp add: Xf)
  have bX: "bare X = X" using b(3) by (simp add: X)
  have w1: "bare (work (at p f e n s)) = bare (check_davs X)" unfolding v X[symmetric] by simp
  let ?Y = "at f e n nn ((check_davs X)\<lparr>DDU_WordsSinceLastHeader := DDU_WordsSinceLastHeader X + 1\<rparr>)"
  have r: "room (Suc k) (check_davs X)"
    using Xf(17,18) by (intro room_step[OF assms(1), where j = 1]) (simp_all add: same_setting_def)
  have w2: "work (at f e n nn (check_davs X)) = after_e e ?Y"
    using e_trailer_round[OF r assms(4), of f n nn] b assms(7) by (simp add: Xf)
  have T2: "tracked (add_errors c (err 21 (DAV_ALCT s) \<union> err 22 (DAV_TMB s) \<union>
      err 23 (DAV_CFEB s \<noteq> 0 \<and> DAV_CFEB s \<noteq> -16)) E) c ?Y"
    using T1 by (subst tracked_cong[where t = "check_davs X"]) simp_all
  have Yf: "currentChamber ?Y = c" "\<not> fALCT_Header ?Y" "\<not> fTMB_Header ?Y"
    "ALCT_WordsSinceLastHeader ?Y = ALCT_WordsSinceLastHeader s" "ALCT_WordCount ?Y = ALCT_WordCount s"
    "ALCT_WordsExpected ?Y = ALCT_WordsExpected s" "TMB_WordsSinceLastHeader ?Y = TMB_WordsSinceLastHeader s"
    "TMB_WordCount ?Y = TMB_WordCount s" "TMB_WordsExpected ?Y = TMB_WordsExpected s" "CFEB_SampleCount ?Y = CFEB_SampleCount s"
    using b by (simp_all add: Xf)
  note T3 = tracked_after_e[OF T2 Yf(1) assms(7) Yf(2,3), of e, unfolded Yf add_errors_add]
  have run: "run p [f, e] n nn s = bare (after_e e ?Y)" by (simp add: w1 w2)
  obtain Z where Z: "Z = after_e e ?Y" by simp
  have Zf: "\<not> fDMB_Header Z" "\<not> fDMB_Trailer Z" "\<not> fALCT_Header Z" "\<not> fTMB_Header Z" "currentChamber Z = -1"
    using Yf(2,3) by (simp_all only: Z after_e_fields) simp_all
  have "idle_event (add_errors c (err 21 (DAV_ALCT s) \<union> err 22 (DAV_TMB s) \<union> err 23 (DAV_CFEB s \<noteq> 0 \<and> DAV_CFEB s \<noteq> -16) \<union>
       err 9 (ALCT_WordsSinceLastHeader s \<noteq> ALCT_WordCount s \<or> ALCT_WordsSinceLastHeader s \<noteq> ALCT_WordsExpected s) \<union>
       err 14 (TMB_WordsSinceLastHeader s \<noteq> TMB_WordCount s \<or> TMB_WordsSinceLastHeader s \<noteq> TMB_WordsExpected s) \<union>
       err 17 (CFEB_SampleCount s mod 8 \<noteq> 0)) E) (bare Z)"
    using T3 Zf unfolding idle_event_def Z[symmetric] tracked_cong[where s = "bare Z" and t = Z, simplified]
    by (simp add: Un_assoc)
  then have idle: "idle_event (add_errors c (err 21 (DAV_ALCT s) \<union> err 22 (DAV_TMB s) \<union> err 23 (DAV_CFEB s \<noteq> 0 \<and> DAV_CFEB s \<noteq> -16) \<union>
       err 9 (ALCT_WordsSinceLastHeader s \<noteq> ALCT_WordCount s \<or> ALCT_WordsSinceLastHeader s \<noteq> ALCT_WordsExpected s) \<union>
       err 14 (TMB_WordsSinceLastHeader s \<noteq> TMB_WordCount s \<or> TMB_WordsSinceLastHeader s \<noteq> TMB_WordsExpected s) \<union>
       err 17 (CFEB_SampleCount s mod 8 \<noteq> 0)) E) (bare (after_e e ?Y))" unfolding Z .
  then show ?thesis unfolding run using Xf(7,17-19) by (simp add: after_e_fields same_setting_def)
qed

text \<open>The counts a block leaves decide errors 9 and 14, its presence errors 21 and 22.\<close>

lemma alct_decided:
  assumes "ALCT_WordsSinceLastHeader s = 0" "ALCT_WordCount s = 0" "ALCT_WordsExpected s = 0"
  shows "alct_found (checkCrcALCT s) a \<union> (err 21 (DAV_ALCT (after_alct a s)) \<union>
      err 9 (ALCT_WordsSinceLastHeader (after_alct a s) \<noteq> ALCT_WordCount (after_alct a s) \<or>
        ALCT_WordsSinceLastHeader (after_alct a s) \<noteq> ALCT_WordsExpected (after_alct a s))) =
    alct_errors (checkCrcALCT s) (DAV_ALCT s) a"
proof (cases a)
  case None
  then show ?thesis using assms by simp
next
  case (Some b)
  obtain h cs t where b: "b = Block h cs t" by (cases b)
  show ?thesis unfolding Some b by (simp del: of_nat_mult of_nat_add of_nat_Suc mult_Suc_right) blast
qed

lemma tmb_decided:
  assumes "TMB_WordsSinceLastHeader s = 0" "TMB_WordCount s = 0" "TMB_WordsExpected s = 0"
  shows "tmb_found (checkCrcTMB s) a \<union> (err 22 (DAV_TMB (after_tmb a s)) \<union>
      err 14 (TMB_WordsSinceLastHeader (after_tmb a s) \<noteq> TMB_WordCount (after_tmb a s) \<or>
        TMB_WordsSinceLastHeader (after_tmb a s) \<noteq> TMB_WordsExpected (after_tmb a s))) =
    tmb_errors (checkCrcTMB s) (DAV_TMB s) (TMB_WordsExpectedCorrection s) a"
proof (cases a)
  case None
  then show ?thesis using assms by simp
next
  case (Some b)
  obtain h cs t where b: "b = Block h cs t" by (cases b)
  show ?thesis unfolding Some b by (simp del: of_nat_mult of_nat_add of_nat_Suc mult_Suc_right tmb_expected.simps) blast
qed

lemma corr_after_tmb: "TMB_WordsExpectedCorrection (after_tmb a s) = block_corr a (TMB_WordsExpectedCorrection s)"
  by (induction a s rule: after_tmb.induct) simp_all

lemma last_block: "a \<noteq> None \<Longrightarrow> alct_ok a \<Longrightarrow> is_alct_trailer (List.last (h # block_words a))"
  by (cases a rule: alct_ok.cases) simp_all

lemma idle_event_words:
  assumes "idle_event E s"
  shows "idle_event E (s\<lparr>DDU_WordsSinceLastHeader := v\<rparr>)"
proof -
  have "tracked E (-1) (s\<lparr>DDU_WordsSinceLastHeader := v\<rparr>) = tracked E (-1) s" by (rule tracked_cong) simp_all
  then show ?thesis using assms by (simp add: idle_event_def)
qed

lemma ninth_run:
  assumes "room (Suc k) s" "idle_event E s" "all_nibbles 0x9000 c"
  shows "bare (work (at p c n nn s)) = s\<lparr>DDU_WordsSinceLastHeader := DDU_WordsSinceLastHeader s + 1\<rparr>"
proof -
  have i: "\<not> fDMB_Header s" "\<not> fALCT_Header s" "\<not> fTMB_Header s" "bare s = s" using assms(2) by (simp_all add: idle_event_def)
  note only = special_nibble[OF assms(3), simplified]
  have "no_start (at p c n nn s)" using only by (simp add: no_start_def starts_def)
  then have w: "work (at p c n nn s) = counted (at p c n nn s)"
    using only i by (subst work_outside) (simp_all add: special_def)
  show ?thesis unfolding w using i only by (simp add: counted_in_event[OF assms(1)] tick_def)
qed

lemma body_run:
  assumes "room (length (tl (dmb_words r))) s" "idle_event E s" "dmb_ok r"
  shows "\<exists>t. run p (tl (dmb_words r)) n nn s = t \<and>
    idle_event (add_errors (dmb_chamber r) (dmb_errors (checkCrcALCT s) (checkCrcTMB s) (checkCrcCFEB s)
      (TMB_WordsExpectedCorrection s) r) E) t \<and> same_setting s t \<and> DAV_DMB t = DAV_DMB s - 1 \<and>
    DDU_WordsSinceLastHeader t = DDU_WordsSinceLastHeader s + of_nat (length (tl (dmb_words r))) \<and>
    TMB_WordsExpectedCorrection t = dmb_corr r (TMB_WordsExpectedCorrection s)"
proof -
  obtain g h a t ss f e where r: "r = Dmb g h a t ss f e" by (cases r)
  have ok: "is_dmb_header h" "alct_ok a" "tmb_ok t" "list_all sample_ok ss" "all_nibbles 0xF000 f" "all_nibbles 0xE000 e"
    using assms(3) by (simp_all add: r)
  let ?c = "chamber_of h" and ?aw = "block_words a" and ?tw = "block_words t" and ?sw = "concat (map sample_words ss)"
  let ?k = "TMB_WordsExpectedCorrection s"
  have c: "0 \<le> ?c" by (simp add: chamber_of_def)
  let ?rest = "?aw @ ?tw @ ?sw @ [f, e]"
  have r0: "room (Suc (length ?rest)) s" using assms(1) by (simp add: r)
  obtain s1 where s1: "bare (work (at p h (hd (?rest @ [n, nn])) (hd (tl (?rest @ [n, nn]))) s)) = s1" "between s1"
    "tracked E ?c s1" "same_setting s s1" "currentChamber s1 = ?c" "DAV_DMB s1 = DAV_DMB s - 1" "DAV_ALCT s1 = bit (q0 h) 9"
    "DAV_TMB s1 = bit (q0 h) 11" "DAV_CFEB s1 = cfeb_bits h" "uniqueALCT s1" "uniqueTMB s1" "ALCT_WordsSinceLastHeader s1 = 0"
    "ALCT_WordCount s1 = 0" "ALCT_WordsExpected s1 = 0" "TMB_WordsSinceLastHeader s1 = 0" "TMB_WordCount s1 = 0"
    "TMB_WordsExpected s1 = 0" "TMB_Tbins s1 = 0" "CFEB_SampleCount s1 = 0"
    "DDU_WordsSinceLastHeader s1 = DDU_WordsSinceLastHeader s + 1" "TMB_WordsExpectedCorrection s1 = ?k"
    using head_run[OF r0 assms(2) ok(1)] by blast
  have en: "checkCrcALCT s1 = checkCrcALCT s" "checkCrcTMB s1 = checkCrcTMB s" "checkCrcCFEB s1 = checkCrcCFEB s"
    "fDDU_Header s1 = fDDU_Header s" "fDDU_Trailer s1 = fDDU_Trailer s"
    using s1(4) by (simp_all add: same_setting_def)
  define s2 where "s2 = after_alct a s1"
  define s3 where "s3 = after_tmb t s2"
  define s4 where "s4 = fold after_sample ss s3"
  have b: "between s2" "between s3" "between s4"
    using s1(2) by (simp_all add: s2_def s3_def s4_def between_alct between_tmb between_samples)
  have ws: "DDU_WordsSinceLastHeader s2 = DDU_WordsSinceLastHeader s + of_nat (1 + length ?aw)"
    "DDU_WordsSinceLastHeader s3 = DDU_WordsSinceLastHeader s + of_nat (1 + length ?aw + length ?tw)"
    "DDU_WordsSinceLastHeader s4 = DDU_WordsSinceLastHeader s + of_nat (1 + length ?aw + length ?tw + length ?sw)"
    by (simp_all add: s2_def s3_def s4_def words_after_alct words_after_tmb words_after_samples s1(20))
  have rm: "room (length ?rest) s1" "room (length ?tw + length ?sw + 2) s2" "room (length ?sw + 2) s3" "room (Suc (Suc 0)) s4"
    by (rule room_step[OF r0, where j = 1]; simp add: en s1(20))
      (rule room_step[OF r0 _ _ _ ws(1)] room_step[OF r0 _ _ _ ws(2)] room_step[OF r0 _ _ _ ws(3)];
        simp add: en s2_def s3_def s4_def)+
  have f4: "currentChamber s4 = ?c" "DAV_DMB s4 = DAV_DMB s - 1" "DAV_ALCT s4 = DAV_ALCT s2" "DAV_TMB s4 = DAV_TMB s3"
    "ALCT_WordsSinceLastHeader s4 = ALCT_WordsSinceLastHeader s2" "ALCT_WordCount s4 = ALCT_WordCount s2"
    "ALCT_WordsExpected s4 = ALCT_WordsExpected s2" "TMB_WordsSinceLastHeader s4 = TMB_WordsSinceLastHeader s3"
    "TMB_WordCount s4 = TMB_WordCount s3" "TMB_WordsExpected s4 = TMB_WordsExpected s3" "same_setting s s4"
    "TMB_WordsExpectedCorrection s4 = block_corr t ?k"
    by (simp_all add: s2_def s3_def s4_def s1(5,6,21) en corr_after_tmb same_setting_def)
  have cf: "CFEB_SampleCount s4 mod 8 = 0 \<longleftrightarrow> length ss mod 8 = 0" "DAV_CFEB s4 = cfeb_bits h - int (length ss div 8)"
    using samples_counted[of s3 0 ss] by (simp_all add: s4_def s3_def s2_def s1(9,19) word_mod_8)
  have "run p (tl (dmb_words r)) n nn s = run h ?rest n nn s1" unfolding r by (simp only: dmb_words.simps list.sel run.simps s1(1))
  also have "\<dots> = run (List.last (h # ?aw)) (?tw @ ?sw @ [f, e]) n nn s2"
    unfolding run_append s2_def using rm(1) s1(2,10,14) ok
    by (subst alct_run) (auto intro: room_step[where j = 0])
  also have "\<dots> = run (List.last (List.last (h # ?aw) # ?tw)) (?sw @ [f, e]) n nn s3"
  proof -
    have "is_dmb_header (List.last (h # ?aw)) \<or> is_alct_trailer (List.last (h # ?aw))"
      using ok(1) last_block[OF _ ok(2)] by (cases a) simp_all
    moreover have "room (length ?tw) s2" by (rule room_step[OF rm(2), where j = 0]) simp_all
    ultimately show ?thesis unfolding run_append s3_def using ok b(1)
      by (subst tmb_run) (simp_all add: s2_def s1(11,17,18))
  qed
  also have "\<dots> = run (List.last (List.last (List.last (h # ?aw) # ?tw) # ?sw)) [f, e] n nn s4"
  proof -
    have "room (length ?sw) s3" by (rule room_step[OF rm(3), where j = 0]) simp_all
    then show ?thesis unfolding run_append[of _ ?sw] s4_def using ok b(2) by (subst sample_run) simp_all
  qed
  finally have run: "run p (tl (dmb_words r)) n nn s = run (List.last (List.last (List.last (h # ?aw) # ?tw) # ?sw)) [f, e] n nn s4" .
  have T2: "tracked (add_errors ?c (alct_found (checkCrcALCT s) a) E) ?c s2"
    unfolding s2_def en(1)[symmetric] by (rule tracked_alct[OF s1(3,5) c])
  have T3: "tracked (add_errors ?c (tmb_found (checkCrcTMB s) t) (add_errors ?c (alct_found (checkCrcALCT s) a) E)) ?c s3"
    unfolding s3_def using tracked_tmb[OF T2 _ c, of t] by (simp add: s2_def s1(5) en)
  have T4: "tracked (add_errors ?c (\<Union> (sample_errors (checkCrcCFEB s) ` set ss)) (add_errors ?c (tmb_found (checkCrcTMB s) t)
      (add_errors ?c (alct_found (checkCrcALCT s) a) E))) ?c s4"
    unfolding s4_def using tracked_samples[OF T3 _ c, of ss] by (simp add: s3_def s2_def s1(5) en)
  have A: "alct_found (checkCrcALCT s) a \<union> (err 21 (DAV_ALCT s2) \<union>
      err 9 (ALCT_WordsSinceLastHeader s2 \<noteq> ALCT_WordCount s2 \<or> ALCT_WordsSinceLastHeader s2 \<noteq> ALCT_WordsExpected s2)) =
    alct_errors (checkCrcALCT s) (bit (q0 h) 9) a"
    unfolding s2_def using alct_decided[OF s1(12-14), of a] by (simp only: en s1(7))
  have T: "tmb_found (checkCrcTMB s) t \<union> (err 22 (DAV_TMB s3) \<union>
      err 14 (TMB_WordsSinceLastHeader s3 \<noteq> TMB_WordCount s3 \<or> TMB_WordsSinceLastHeader s3 \<noteq> TMB_WordsExpected s3)) =
    tmb_errors (checkCrcTMB s) (bit (q0 h) 11) ?k t"
    unfolding s3_def using tmb_decided[of s2 t] by (simp add: s2_def s1(8,15-17,21) en)
  have errs: "(alct_found (checkCrcALCT s) a \<union> tmb_found (checkCrcTMB s) t \<union> \<Union> (sample_errors (checkCrcCFEB s) ` set ss)) \<union>
      (err 21 (DAV_ALCT s2) \<union> err 22 (DAV_TMB s3) \<union> err 23 (DAV_CFEB s4 \<noteq> 0 \<and> DAV_CFEB s4 \<noteq> -16) \<union>
       err 9 (ALCT_WordsSinceLastHeader s2 \<noteq> ALCT_WordCount s2 \<or> ALCT_WordsSinceLastHeader s2 \<noteq> ALCT_WordsExpected s2) \<union>
       err 14 (TMB_WordsSinceLastHeader s3 \<noteq> TMB_WordCount s3 \<or> TMB_WordsSinceLastHeader s3 \<noteq> TMB_WordsExpected s3) \<union>
       err 17 (CFEB_SampleCount s4 mod 8 \<noteq> 0)) =
    dmb_errors (checkCrcALCT s) (checkCrcTMB s) (checkCrcCFEB s) ?k r"
    unfolding r dmb_errors.simps A[symmetric] T[symmetric] cf by blast
  note E = end_run[OF rm(4) b(3) ok(5,6) T4 f4(1) c, of "List.last (List.last (List.last (h # ?aw) # ?tw) # ?sw)" n nn,
      unfolded add_errors_add f4 errs]
  obtain u where u: "run (List.last (List.last (List.last (h # ?aw) # ?tw) # ?sw)) [f, e] n nn s4 = u"
    "idle_event (add_errors ?c (dmb_errors (checkCrcALCT s) (checkCrcTMB s) (checkCrcCFEB s) ?k r) E) u" "same_setting s4 u"
    "DAV_DMB u = DAV_DMB s - 1" "DDU_WordsSinceLastHeader u = DDU_WordsSinceLastHeader s4 + 2"
    "TMB_WordsExpectedCorrection u = block_corr t ?k"
    using E by blast
  have "same_setting s u" using u(3) f4(11) by (simp add: same_setting_def)
  moreover have "DDU_WordsSinceLastHeader u = DDU_WordsSinceLastHeader s + of_nat (length (tl (dmb_words r)))"
    unfolding u(5) ws(3) by (simp add: r)
  ultimately show ?thesis unfolding run u(1) using u(2,4,6) by (simp add: r)
qed

lemma dmb_run:
  assumes "room (length (dmb_words r)) s" "idle_event E s" "dmb_ok r"
  shows "\<exists>t. run p (dmb_words r) n nn s = t \<and>
    idle_event (add_errors (dmb_chamber r) (dmb_errors (checkCrcALCT s) (checkCrcTMB s) (checkCrcCFEB s)
      (TMB_WordsExpectedCorrection s) r) E) t \<and> same_setting s t \<and> DAV_DMB t = DAV_DMB s - 1 \<and>
    DDU_WordsSinceLastHeader t = DDU_WordsSinceLastHeader s + of_nat (length (dmb_words r)) \<and>
    TMB_WordsExpectedCorrection t = dmb_corr r (TMB_WordsExpectedCorrection s)"
proof -
  let ?w = "tl (dmb_words r)" and ?g = "head9 r"
  have w: "dmb_words r = ?g # ?w" and g: "all_nibbles 0x9000 ?g" using assms(3) by (cases r; simp)+
  let ?u = "s\<lparr>DDU_WordsSinceLastHeader := DDU_WordsSinceLastHeader s + 1\<rparr>"
  have r: "room (Suc (length ?w)) s" using assms(1) by (subst (asm) w) simp
  have u: "room (length ?w) ?u" by (rule room_step[OF r, where j = 1]) simp_all
  have "run p (dmb_words r) n nn s = run ?g ?w n nn ?u"
    by (subst w) (simp only: run.simps ninth_run[OF r assms(2) g])
  moreover have "length (dmb_words r) = Suc (length ?w)" by (subst w) simp
  ultimately show ?thesis using body_run[OF u idle_event_words[OF assms(2)] assms(3), of ?g n nn]
    by (simp add: same_setting_def add.assoc)
qed

text \<open>Records one after the other.\<close>

fun all_errors :: "bool \<Rightarrow> bool \<Rightarrow> bool \<Rightarrow> 32 word \<Rightarrow> dmb list \<Rightarrow> (int \<times> nat set) list" where
  "all_errors ea et ec k [] = []"
| "all_errors ea et ec k (r # rs) = (dmb_chamber r, dmb_errors ea et ec k r) # all_errors ea et ec (dmb_corr r k) rs"

fun add_all :: "(int \<times> nat set) list \<Rightarrow> (nat \<Rightarrow> int set) \<Rightarrow> nat \<Rightarrow> int set" where
  "add_all [] E = E"
| "add_all ((c, F) # l) E = add_all l (add_errors c F E)"

lemma add_all_iff: "x \<in> add_all l E e \<longleftrightarrow> x \<in> E e \<or> (\<exists>F. (x, F) \<in> set l \<and> e \<in> F)"
proof (induction l arbitrary: E)
  case (Cons a l)
  obtain c F where a: "a = (c, F)" by (cases a)
  have "x \<in> add_errors c F E e \<longleftrightarrow> x \<in> E e \<or> (x = c \<and> e \<in> F)" by (auto simp: add_errors_def)
  then show ?case unfolding a by (auto simp: Cons.IH)
qed simp

lemma dmbs_run:
  assumes "room (length (concat (map dmb_words rs))) s" "idle_event E s" "list_all dmb_ok rs"
  shows "\<exists>t. run p (concat (map dmb_words rs)) n nn s = t \<and>
    idle_event (add_all (all_errors (checkCrcALCT s) (checkCrcTMB s) (checkCrcCFEB s) (TMB_WordsExpectedCorrection s) rs) E) t \<and>
    same_setting s t \<and> DAV_DMB t = DAV_DMB s - int (length rs) \<and>
    DDU_WordsSinceLastHeader t = DDU_WordsSinceLastHeader s + of_nat (length (concat (map dmb_words rs))) \<and>
    TMB_WordsExpectedCorrection t = fold dmb_corr rs (TMB_WordsExpectedCorrection s)"
  using assms
proof (induction rs arbitrary: p s E)
  case Nil
  then show ?case by (simp add: same_setting_def)
next
  case (Cons r rs)
  let ?w = "concat (map dmb_words rs)"
  have r: "room (length (dmb_words r)) s" by (rule room_step[OF Cons.prems(1), where j = 0]) simp_all
  obtain u where u: "run p (dmb_words r) (hd (?w @ [n, nn])) (hd (tl (?w @ [n, nn]))) s = u"
    "idle_event (add_errors (dmb_chamber r) (dmb_errors (checkCrcALCT s) (checkCrcTMB s) (checkCrcCFEB s)
      (TMB_WordsExpectedCorrection s) r) E) u" "same_setting s u" "DAV_DMB u = DAV_DMB s - 1"
    "DDU_WordsSinceLastHeader u = DDU_WordsSinceLastHeader s + of_nat (length (dmb_words r))"
    "TMB_WordsExpectedCorrection u = dmb_corr r (TMB_WordsExpectedCorrection s)"
    using dmb_run[OF r Cons.prems(2)] Cons.prems(3) by fastforce
  have st: "fDDU_Header u = fDDU_Header s" "fDDU_Trailer u = fDDU_Trailer s" "checkCrcALCT u = checkCrcALCT s"
    "checkCrcTMB u = checkCrcTMB s" "checkCrcCFEB u = checkCrcCFEB s"
    using u(3) by (simp_all add: same_setting_def)
  have r1: "room (length ?w) u" by (rule room_step[OF Cons.prems(1) _ st(1,2) u(5)]) simp
  have ok: "list_all dmb_ok rs" using Cons.prems(3) by simp
  have run: "run p (concat (map dmb_words (r # rs))) n nn s = run (List.last (p # dmb_words r)) ?w n nn u"
    using run_append[of p "dmb_words r" ?w] u(1) by simp
  obtain t where t: "run (List.last (p # dmb_words r)) ?w n nn u = t"
    "idle_event (add_all (all_errors (checkCrcALCT u) (checkCrcTMB u) (checkCrcCFEB u) (TMB_WordsExpectedCorrection u) rs)
      (add_errors (dmb_chamber r) (dmb_errors (checkCrcALCT s) (checkCrcTMB s) (checkCrcCFEB s)
        (TMB_WordsExpectedCorrection s) r) E)) t" "same_setting u t" "DAV_DMB t = DAV_DMB u - int (length rs)"
    "DDU_WordsSinceLastHeader t = DDU_WordsSinceLastHeader u + of_nat (length ?w)"
    "TMB_WordsExpectedCorrection t = fold dmb_corr rs (TMB_WordsExpectedCorrection u)"
    using Cons.IH[OF r1 u(2) ok, of "List.last (p # dmb_words r)"] by blast
  show ?case unfolding run t(1) using t(2-6) u(4-6) st by (simp add: same_setting_def)
qed

section \<open>The event\<close>

text \<open>The state before an event and after it.\<close>

definition between_events :: "examiner \<Rightarrow> bool" where
  "between_events s \<longleftrightarrow> \<not> fDDU_Header s \<and> \<not> fDMB_Header s \<and> \<not> fDMB_Trailer s \<and> \<not> fALCT_Header s \<and> \<not> fTMB_Header s \<and>
     bare s = s"

definition same_checks :: "examiner \<Rightarrow> examiner \<Rightarrow> bool" where
  "same_checks s t \<longleftrightarrow> checkCrcALCT t = checkCrcALCT s \<and> checkCrcTMB t = checkCrcTMB s \<and> checkCrcCFEB t = checkCrcCFEB s \<and>
     TMB_WordsExpectedCorrection t = TMB_WordsExpectedCorrection s"

lemma counted_outside:
  assumes "\<not> fDDU_Header s" "\<not> fDMB_Header s" "\<not> fDMB_Trailer s" "\<not> fALCT_Header s" "\<not> fTMB_Header s"
  shows "\<not> fDDU_Header (counted s)" "\<not> fDMB_Header (counted s)" "\<not> fDMB_Trailer (counted s)" "\<not> fALCT_Header (counted s)"
    "\<not> fTMB_Header (counted s)" "same_checks s (counted s)"
proof -
  obtain t where t: "t = check_size s" by simp
  have tf: "\<not> fDDU_Header t" "\<not> fDMB_Header t" "\<not> fDMB_Trailer t" "\<not> fALCT_Header t" "\<not> fTMB_Header t" "same_checks s t"
    using assms by (simp_all add: t check_size_def same_checks_def)
  obtain u where u: "u = (if fDDU_Trailer t then t\<lparr>DDU_WordsSinceLastTrailer := DDU_WordsSinceLastTrailer t + 1\<rparr> else t)" by simp
  have c: "count_words t = u" using tf by (simp add: count_words_def u Let_def)
  have uf: "\<not> fDDU_Header u" "\<not> fDMB_Header u" "\<not> fDMB_Trailer u" "\<not> fALCT_Header u" "\<not> fTMB_Header u" "same_checks s u"
    using tf by (simp_all add: u same_checks_def)
  have "counted s = u" using uf(1) by (simp add: counted_def t[symmetric] c c_words_def)
  then show "\<not> fDDU_Header (counted s)" "\<not> fDMB_Header (counted s)" "\<not> fDMB_Trailer (counted s)"
    "\<not> fALCT_Header (counted s)" "\<not> fTMB_Header (counted s)" "same_checks s (counted s)"
    using uf by simp_all
qed

lemma outside_round:
  assumes "between_events s" "\<not> special c" "\<not> special p"
  shows "between_events (bare (work (at p c n nn s)))" "same_checks s (bare (work (at p c n nn s)))"
proof -
  have "no_start (at p c n nn s)" using assms(3) by (simp add: no_start_def special_def)
  then have w: "work (at p c n nn s) = counted (at p c n nn s)"
    using assms(1,2) by (subst work_outside) (simp_all add: between_events_def)
  note c = counted_outside[of "at p c n nn s"]
  show "between_events (bare (work (at p c n nn s)))" "same_checks s (bare (work (at p c n nn s)))"
    unfolding w using c assms(1) by (simp_all add: between_events_def same_checks_def)
qed

lemma outside_run:
  assumes "between_events s" "list_all (\<lambda>c. \<not> special c) cs" "\<not> special p"
  shows "between_events (run p cs n nn s)" "same_checks s (run p cs n nn s)"
  using assms
proof (induction cs arbitrary: p s)
  case (Cons c cs)
  {
    case 1
    then show ?case using outside_round[OF 1(1) _ 1(3)] Cons.IH(1) by simp
  next
    case 2
    let ?t = "bare (work (at p c (hd (cs @ [n, nn])) (hd (tl (cs @ [n, nn]))) s))"
    have t: "between_events ?t" "same_checks s ?t" using 2 outside_round[OF 2(1) _ 2(3)] by simp_all
    have "same_checks ?t (run c cs n nn ?t)" using Cons.IH(2)[OF t(1)] 2 by simp
    then show ?case using t(2) by (simp add: same_checks_def)
  }
qed (simp_all add: same_checks_def)

text \<open>The second word of the DDU header clears the reports.\<close>

lemma ddu_header_fields:
  assumes "is_ddu_header (buf0 s)"
  shows "fDDU_Header (ddu_header s)" "\<not> fDDU_Trailer (ddu_header s)" "\<not> fDMB_Header (ddu_header s)"
    "\<not> fDMB_Trailer (ddu_header s)" "\<not> fALCT_Header (ddu_header s)" "\<not> fTMB_Header (ddu_header s)"
    "currentChamber (ddu_header s) = -1" "DAV_DMB (ddu_header s) = uint (q0 (buf1 s) AND 0xF)"
    "DDU_WordsSinceLastHeader (ddu_header s) = 0" "fERROR (ddu_header s) = (\<lambda>_. False)" "fCHAMB_ERR (ddu_header s) = (\<lambda>_. {})"
    "same_checks s (ddu_header s)"
  using assms by (simp_all add: ddu_header_def Let_def clear_errors_def clear_chamber_counts_def same_checks_def)

lemma ddu_header_round:
  assumes "between_events s" "is_ddu_header h" "\<not> special p"
  shows "work (at p h n nn s) = ddu_header (counted (at p h n nn s))"
proof -
  note c = counted_outside[of "at p h n nn s"]
  let ?t = "ddu_header (counted (at p h n nn s))"
  note f = ddu_header_fields[of "counted (at p h n nn s)"]
  have "no_start ?t" using assms(3) by (simp add: no_start_def special_def)
  then show ?thesis
    using assms(2) f ddu_header_only[OF assms(2)]
    by (simp add: work_def counted_def[symmetric] blocks_def quiet not_started outside_record)
qed

lemma header_run:
  assumes "between_events s" "is_ddu_header h" "\<not> special p"
  shows "idle_event (\<lambda>_. {}) (bare (work (at p h n nn s)))" "room 50001 (bare (work (at p h n nn s)))"
    "same_checks s (bare (work (at p h n nn s)))" "DAV_DMB (bare (work (at p h n nn s))) = uint (q0 n AND 0xF)"
    "DDU_WordsSinceLastHeader (bare (work (at p h n nn s))) = 0"
proof -
  let ?c = "counted (at p h n nn s)"
  have h: "is_ddu_header (buf0 ?c)" using assms(2) by simp
  note f = ddu_header_fields[OF h]
  have "same_checks (at p h n nn s) ?c" using assms(1) by (intro counted_outside) (simp_all add: between_events_def)
  then show "same_checks s (bare (work (at p h n nn s)))"
    unfolding ddu_header_round[OF assms] using f(12) by (simp add: same_checks_def)
  have "tracked (\<lambda>_. {}) (-1) (bare (ddu_header ?c))" using f(10,11) by (intro trackedI) simp_all
  then show "idle_event (\<lambda>_. {}) (bare (work (at p h n nn s)))"
    unfolding ddu_header_round[OF assms] using f by (simp add: idle_event_def)
  show "room 50001 (bare (work (at p h n nn s)))" unfolding ddu_header_round[OF assms] using f by (simp add: room_def)
  show "DAV_DMB (bare (work (at p h n nn s))) = uint (q0 n AND 0xF)"
    "DDU_WordsSinceLastHeader (bare (work (at p h n nn s))) = 0"
    unfolding ddu_header_round[OF assms] using f by simp_all
qed

text \<open>The third word of the header, which may have any bits in front.\<close>

lemma third_run:
  assumes "room (Suc k) s" "idle_event E s" "is_ddu_header p" "\<not> special c"
  shows "bare (work (at p c n nn s)) = s\<lparr>DDU_WordsSinceLastHeader := DDU_WordsSinceLastHeader s + 1\<rparr>"
proof -
  have i: "\<not> fDMB_Header s" "\<not> fALCT_Header s" "\<not> fTMB_Header s" "bare s = s" using assms(2) by (simp_all add: idle_event_def)
  have "no_start (at p c n nn s)" using ddu_header_only[OF assms(3)] by (simp add: no_start_def)
  then have w: "work (at p c n nn s) = counted (at p c n nn s)" using assms(4) i by (subst work_outside) simp_all
  show ?thesis unfolding w using i assms(3) by (simp add: counted_in_event[OF assms(1)] tick_def)
qed

text \<open>The trailer.\<close>

definition wrong_count :: "examiner \<Rightarrow> bool" where
  "wrong_count s \<longleftrightarrow>
     DDU_WordsSinceLastHeader s + 4 \<noteq> ucast (q2 (buf2 s)) OR push_bit 16 (ucast (q3 (buf2 s)) AND 0xFF)"

lemma ddu_trailer_steps:
  assumes "\<not> fDDU_Trailer s" "\<not> fDMB_Header s" "\<not> fDMB_Trailer s" "tracked E (-1) s"
  shows "\<exists>t. fERROR t = fERROR s \<and> fCHAMB_ERR t = fCHAMB_ERR s \<and> \<not> fDDU_Header t \<and> \<not> fDMB_Header t \<and> \<not> fDMB_Trailer t \<and>
    fALCT_Header t = fALCT_Header s \<and> fTMB_Header t = fTMB_Header s \<and> same_checks s t \<and>
    ddu_trailer s =
      (let t = (if wrong_count s then flag 4 0x10 t else t);
           t = (if DAV_DMB s \<noteq> 0 then flag 24 0x1000000 t else t);
           t = (if \<exists>err \<in> {1..<nERRORS}. fERROR t err then flag 0 0x1 t else t)
       in reset_pipeline (t\<lparr>DDU_WordsSinceLastHeader := 0, DDU_WordsSinceLastTrailer := 0\<rparr>))"
proof -
  obtain s5 where s5: "s5 = s\<lparr>fDDU_Trailer := True, fDDU_Header := False, fDMB_Header := False, fDMB_Trailer := False,
    currentChamber := -1\<rparr>" by simp
  have "tracked E (-1) s5 = tracked E (-1) s" by (rule tracked_cong) (simp_all add: s5)
  then have t5: "tracked E (-1) s5" using assms(4) by simp
  note no = tracked_not_in[OF t5]
  have f5: "fCHAMB_ERR (forget_unknown s5) = fCHAMB_ERR s"
    using no[of "-1"] by (simp add: forget_unknown_def moved_def fun_eq_iff) (simp add: s5)
  have s7: "sum_errors (-2) (forget_unknown s5) = forget_unknown s5"
    using no[of "-2"] unfolding sum_errors_def f5 by (simp add: s5)
  obtain u where u: "u = forget_unknown s5" by simp
  let ?t = "u\<lparr>cntDDU_Trailers := cntDDU_Trailers u + 1,
    DDU_WordCount := ucast (q2 (buf2 u)) OR push_bit 16 (ucast (q3 (buf2 u)) AND 0xFF)\<rparr>"
  have uf: "fERROR u = fERROR s" "fCHAMB_ERR u = fCHAMB_ERR s" "\<not> fDDU_Header u" "\<not> fDMB_Header u" "\<not> fDMB_Trailer u"
    "fALCT_Header u = fALCT_Header s" "fTMB_Header u = fTMB_Header s" "buf2 u = buf2 s" "DAV_DMB u = DAV_DMB s"
    "DDU_WordsSinceLastHeader u = DDU_WordsSinceLastHeader s" "same_checks s u"
    by (simp_all add: u f5) (simp_all add: s5 same_checks_def)
  have eq: "ddu_trailer s =
      (let t = (if wrong_count s then flag 4 0x10 ?t else ?t);
           t = (if DAV_DMB s \<noteq> 0 then flag 24 0x1000000 t else t);
           t = (if \<exists>err \<in> {1..<nERRORS}. fERROR t err then flag 0 0x1 t else t)
       in reset_pipeline (t\<lparr>DDU_WordsSinceLastHeader := 0, DDU_WordsSinceLastTrailer := 0\<rparr>))"
    unfolding ddu_trailer_def
    apply (rule let_to[where b = s], simp add: assms(1))
    apply (rule let_to[OF refl])
    apply (rule let_to[where b = "s\<lparr>fDDU_Trailer := True, fDDU_Header := False\<rparr>"], simp add: assms(2,3))
    apply (rule let_to[OF refl])
    apply (rule let_to[where b = s5], simp add: s5)
    apply (rule let_to[where b = u], simp add: u)
    apply (rule let_to[where b = u], simp only: u s7)
    apply (rule let_to[where b = ?t], rule refl)
    apply (rule let_to[where b = "if wrong_count s then flag 4 0x10 ?t else ?t"], simp add: wrong_count_def uf)
    apply (rule let_to[where b = "if DAV_DMB s \<noteq> 0 then flag 24 0x1000000 (if wrong_count s then flag 4 0x10 ?t else ?t)
      else (if wrong_count s then flag 4 0x10 ?t else ?t)"], simp add: uf)
    by (simp only: Let_def)
  show ?thesis
    by (rule exI[of _ ?t]) (use uf eq in \<open>simp add: same_checks_def\<close>)
qed

lemma reported_flag: "fERROR (flag e m s) = (fERROR s)(e := True)"
  by (simp add: flag_def)

lemma ddu_trailer_fields:
  assumes "\<not> fDDU_Trailer s" "\<not> fDMB_Header s" "\<not> fDMB_Trailer s" "\<not> fALCT_Header s" "\<not> fTMB_Header s" "tracked E (-1) s"
  shows "1 \<le> e \<Longrightarrow> fERROR (ddu_trailer s) e \<longleftrightarrow> E e \<noteq> {} \<or> (e = 4 \<and> wrong_count s) \<or> (e = 24 \<and> DAV_DMB s \<noteq> 0)"
    "fERROR (ddu_trailer s) 0 \<longleftrightarrow> (\<exists>e. E e \<noteq> {}) \<or> wrong_count s \<or> DAV_DMB s \<noteq> 0"
    "fCHAMB_ERR (ddu_trailer s) = fCHAMB_ERR s" "between_events (ddu_trailer s)" "same_checks s (ddu_trailer s)"
proof -
  obtain t where t: "fERROR t = fERROR s" "fCHAMB_ERR t = fCHAMB_ERR s" "\<not> fDDU_Header t" "\<not> fDMB_Header t" "\<not> fDMB_Trailer t"
    "fALCT_Header t = fALCT_Header s" "fTMB_Header t = fTMB_Header s" "same_checks s t" and eq: "ddu_trailer s =
      (let t = (if wrong_count s then flag 4 0x10 t else t);
           t = (if DAV_DMB s \<noteq> 0 then flag 24 0x1000000 t else t);
           t = (if \<exists>err \<in> {1..<nERRORS}. fERROR t err then flag 0 0x1 t else t)
       in reset_pipeline (t\<lparr>DDU_WordsSinceLastHeader := 0, DDU_WordsSinceLastTrailer := 0\<rparr>))"
    using ddu_trailer_steps[OF assms(1-3,6)] by blast
  note D = trackedD[OF assms(6)]
  obtain u where u: "u = (if wrong_count s then flag 4 0x10 t else t)" by simp
  obtain v where v: "v = (if DAV_DMB s \<noteq> 0 then flag 24 0x1000000 u else u)" by simp
  have ve: "fERROR v e \<longleftrightarrow> fERROR s e \<or> (e = 4 \<and> wrong_count s) \<or> (e = 24 \<and> DAV_DMB s \<noteq> 0)" for e
    by (simp add: v u reported_flag t(1))
  have vf: "fCHAMB_ERR v = fCHAMB_ERR s" "\<not> fDDU_Header v" "\<not> fDMB_Header v" "\<not> fDMB_Trailer v" "\<not> fALCT_Header v"
    "\<not> fTMB_Header v" "same_checks s v"
    using t assms(4,5) by (simp_all add: v u same_checks_def)
  let ?any = "\<exists>err \<in> {1..<nERRORS}. fERROR v err"
  obtain w where w: "w = (if ?any then flag 0 0x1 v else v)" by simp
  have wf: "fCHAMB_ERR w = fCHAMB_ERR s" "\<not> fDDU_Header w" "\<not> fDMB_Header w" "\<not> fDMB_Trailer w" "\<not> fALCT_Header w"
    "\<not> fTMB_Header w" "same_checks s w"
    using vf by (simp_all add: w same_checks_def)
  have d: "ddu_trailer s = reset_pipeline (w\<lparr>DDU_WordsSinceLastHeader := 0, DDU_WordsSinceLastTrailer := 0\<rparr>)"
    unfolding eq u[symmetric] v[symmetric] Let_def w ..
  have err: "fERROR (ddu_trailer s) = fERROR w" by (simp add: d reset_pipeline_def)
  show "1 \<le> e \<Longrightarrow> fERROR (ddu_trailer s) e \<longleftrightarrow> E e \<noteq> {} \<or> (e = 4 \<and> wrong_count s) \<or> (e = 24 \<and> DAV_DMB s \<noteq> 0)"
    using D(2)[of e] ve[of e] by (simp add: err w reported_flag)
  have any: "?any \<longleftrightarrow> (\<exists>e. E e \<noteq> {}) \<or> wrong_count s \<or> DAV_DMB s \<noteq> 0"
  proof
    assume ?any
    then show "(\<exists>e. E e \<noteq> {}) \<or> wrong_count s \<or> DAV_DMB s \<noteq> 0" using D(2) ve by auto
  next
    assume "(\<exists>e. E e \<noteq> {}) \<or> wrong_count s \<or> DAV_DMB s \<noteq> 0"
    then consider e x where "x \<in> E e" | "wrong_count s" | "DAV_DMB s \<noteq> 0" by blast
    then show ?any
    proof cases
      case 1
      then have "1 \<le> e" "e < 25" "fERROR s e" using D(2)[of e] D(7,8)[OF 1] by auto
      then show ?thesis using ve[of e] by (auto simp: nERRORS_def intro!: bexI[of _ e])
    next
      case 2
      then show ?thesis using ve[of 4] by (auto simp: nERRORS_def intro!: bexI[of _ 4])
    next
      case 3
      then show ?thesis using ve[of 24] by (auto simp: nERRORS_def intro!: bexI[of _ 24])
    qed
  qed
  have "\<not> fERROR v 0" using ve[of 0] D(1) by simp
  then show "fERROR (ddu_trailer s) 0 \<longleftrightarrow> (\<exists>e. E e \<noteq> {}) \<or> wrong_count s \<or> DAV_DMB s \<noteq> 0"
    unfolding err w any[symmetric] by (simp add: reported_flag)
  show "fCHAMB_ERR (ddu_trailer s) = fCHAMB_ERR s" using wf(1) by (simp add: d reset_pipeline_def)
  show "between_events (ddu_trailer s)" using wf by (simp add: d reset_pipeline_def between_events_def bare_def at_def)
  show "same_checks s (ddu_trailer s)" using wf(7) by (simp add: d reset_pipeline_def same_checks_def)
qed

section \<open>No word of a record begins or ends an event\<close>

definition inner :: "quad \<Rightarrow> bool" where
  "inner c \<longleftrightarrow> \<not> is_ddu_trailer c \<and> \<not> is_ddu_header c"

lemma inner_kinds:
  "plain c \<Longrightarrow> inner c" "\<not> special c \<Longrightarrow> inner c" "is_dmb_header c \<Longrightarrow> inner c" "is_alct_header c \<Longrightarrow> inner c"
  "is_alct_trailer c \<Longrightarrow> inner c" "is_tmb_trailer c \<Longrightarrow> inner c" "is_cfeb_trailer c \<Longrightarrow> inner c"
  "all_nibbles 0xF000 c \<Longrightarrow> inner c" "all_nibbles 0xE000 c \<Longrightarrow> inner c" "all_nibbles 0x9000 c \<Longrightarrow> inner c"
proof -
  show "plain c \<Longrightarrow> inner c" by (simp add: inner_def plain_not)
  show 1: "\<not> special c \<Longrightarrow> inner c" by (simp add: inner_def special_def)
  show "is_alct_header c \<Longrightarrow> inner c" by (rule 1) (rule alct_header_only(1))
  show "is_alct_trailer c \<Longrightarrow> inner c" by (simp add: inner_def alct_trailer_only)
  show "is_tmb_trailer c \<Longrightarrow> inner c" by (simp add: inner_def tmb_trailer_only)
  show "is_cfeb_trailer c \<Longrightarrow> inner c" by (simp add: inner_def cfeb_trailer_only)
  have nib: "all_nibbles v c \<Longrightarrow> v AND 0xF000 = v \<Longrightarrow> v \<noteq> 0x8000 \<Longrightarrow> inner c" for v
    using special_nibble(1,2)[of v c] by (simp add: inner_def)
  show "is_dmb_header c \<Longrightarrow> inner c" by (rule nib[of "0xA000"]) (simp_all add: is_dmb_header_def)
  show "all_nibbles 0xF000 c \<Longrightarrow> inner c" by (rule nib[of "0xF000"]) simp_all
  show "all_nibbles 0xE000 c \<Longrightarrow> inner c" by (rule nib[of "0xE000"]) simp_all
  show "all_nibbles 0x9000 c \<Longrightarrow> inner c" by (rule nib[of "0x9000"]) simp_all
qed

lemma inner_all: "list_all plain cs \<Longrightarrow> list_all inner cs"
  by (auto simp: list_all_iff inner_kinds)

lemma inner_alct: "alct_ok a \<Longrightarrow> list_all inner (block_words a)"
  by (cases a rule: alct_ok.cases) (simp_all add: inner_kinds inner_all)

lemma inner_tmb: "tmb_ok a \<Longrightarrow> list_all inner (block_words a)"
  by (cases a rule: tmb_ok.cases) (simp_all add: inner_kinds inner_all)

lemma inner_samples: "list_all sample_ok ss \<Longrightarrow> list_all inner (concat (map sample_words ss))"
proof (induction ss)
  case (Cons b ss)
  then show ?case by (cases b) (simp add: inner_kinds inner_all)
qed simp

lemma inner_dmb: "dmb_ok r \<Longrightarrow> list_all inner (dmb_words r)"
  by (cases r) (simp add: inner_kinds inner_alct inner_tmb inner_samples)

lemma inner_dmbs: "list_all dmb_ok rs \<Longrightarrow> list_all inner (concat (map dmb_words rs))"
  by (induction rs) (simp_all add: inner_dmb)

section \<open>Properties\<close>

text \<open>What is to be reported for an event: the chambers with their errors, and the errors of the event.\<close>

fun event_found :: "bool \<Rightarrow> bool \<Rightarrow> bool \<Rightarrow> 32 word \<Rightarrow> event \<Rightarrow> (int \<times> nat set) list" where
  "event_found ea et ec k (Event_of h1 h2 h3 rs t1 t2 t3) = all_errors ea et ec k rs"

fun event_errors :: "bool \<Rightarrow> bool \<Rightarrow> bool \<Rightarrow> 32 word \<Rightarrow> event \<Rightarrow> nat set" where
  "event_errors ea et ec k (Event_of h1 h2 h3 rs t1 t2 t3) =
     \<Union> (snd ` set (all_errors ea et ec k rs)) \<union>
     err 4 ((of_nat (length (event_words (Event_of h1 h2 h3 rs t1 t2 t3))) :: 32 word) \<noteq>
       ucast (q2 t3) OR push_bit 16 (ucast (q3 t3) AND 0xFF)) \<union>
     err 24 (uint (q0 h3 AND 0xF) \<noteq> int (length rs))"

lemma window: "drop 2 ((c # cs) @ [a, b]) = tl (cs @ [a, b])" "hd ((c # cs) @ [a, b]) = c"
  "hd (tl ((c # cs) @ [a, b])) = hd (cs @ [a, b])" "cs @ [a, b] = hd (cs @ [a, b]) # tl (cs @ [a, b])"
  by (cases cs; simp)+

lemma check_event:
  assumes "between_events s" "event_ok (Event_of h1 h2 h3 rs t1 t2 t3)" "length (concat (map dmb_words rs)) + 3 \<le> 50000"
  shows "\<exists>t p. check before (event_words (Event_of h1 h2 h3 rs t1 t2 t3) @ rest) s =
      (Event (rev (event_words (Event_of h1 h2 h3 rs t1 t2 t3)) @ before) rest, ddu_trailer (counted (at p t1 t2 t3 t))) \<and>
    idle_event (add_all (all_errors (checkCrcALCT s) (checkCrcTMB s) (checkCrcCFEB s) (TMB_WordsExpectedCorrection s) rs)
      (\<lambda>_. {})) t \<and> room 1 t \<and> DAV_DMB t = uint (q0 h3 AND 0xF) - int (length rs) \<and>
    DDU_WordsSinceLastHeader t = of_nat (1 + length (concat (map dmb_words rs))) \<and>
    checkCrcALCT t = checkCrcALCT s \<and> checkCrcTMB t = checkCrcTMB s \<and> checkCrcCFEB t = checkCrcCFEB s \<and>
    TMB_WordsExpectedCorrection t = fold dmb_corr rs (TMB_WordsExpectedCorrection s)"
proof -
  have ok: "\<not> special h1" "is_ddu_header h2" "\<not> special h3" "list_all dmb_ok rs" "is_ddu_trailer t1"
    using assms(2) by simp_all
  let ?C = "concat (map dmb_words rs)"
  let ?q = "hd (?C @ [t1, t2])" and ?l = "tl (?C @ [t1, t2])"
  have nq: "\<not> special no_quad" by (simp add: special_def signature_defs no_quad_def)
  have C: "?C @ [t1, t2] = ?q # ?l" by (rule window)
  have s: "s = at no_quad no_quad no_quad no_quad s" using assms(1) by (simp add: between_events_def bare_def)
  define s1 where "s1 = run no_quad [no_quad, no_quad, h1] h2 h3 s"
  obtain x where 1: "check_loop before (h1 # h2 # h3 # ?q # ?l @ t3 # rest) (at no_quad no_quad no_quad no_quad s) =
      check_loop (h3 # h2 # h1 # before) (?q # ?l @ t3 # rest) (at x h1 h2 h3 s1)"
    using check_loop_run[of "[no_quad, no_quad, h1]" before h2 h3 "?q # ?l @ t3 # rest" no_quad no_quad s] ok(1) nq
    by (auto simp: special_def s1_def)
  have b1: "between_events s1" "same_checks s s1"
    unfolding s1_def using outside_run[OF assms(1), of "[no_quad, no_quad, h1]" no_quad] ok(1) nq by simp_all
  define s2 where "s2 = bare (work (at h1 h2 h3 ?q s1))"
  note H = header_run[OF b1(1) ok(2,1), of h3 ?q, folded s2_def]
  have "\<not> fDDU_Header (counted (at h1 h2 h3 ?q s1))"
    using b1(1) by (intro counted_outside) (simp_all add: between_events_def)
  then have 2: "check_loop (h3 # h2 # h1 # before) (?q # ?l @ t3 # rest) (at x h1 h2 h3 s1) =
      check_loop (?q # h3 # h2 # h1 # before) (?l @ t3 # rest) (at h1 h2 h3 ?q s2)"
    using ddu_header_only(1)[OF ok(2)] by (subst check_loop_round) (simp_all add: s2_def)
  have in3: "\<forall>c \<in> set (h3 # ?C). \<not> is_ddu_trailer c \<and> \<not> is_ddu_header c"
    using inner_kinds(2)[OF ok(3)] inner_dmbs[OF ok(4)] by (auto simp: list_all_iff inner_def)
  have d: "drop 2 ((h3 # ?C) @ [t1, t2]) = ?l" "hd ((h3 # ?C) @ [t1, t2]) = h3" "hd (tl ((h3 # ?C) @ [t1, t2])) = ?q"
    by (rule window)+
  define l where "l = List.last (h2 # h3 # ?C)"
  let ?s3 = "run h2 (h3 # ?C) t1 t2 s2" 
  obtain x' where 3: "check_loop (?q # h3 # h2 # h1 # before) (?l @ t3 # rest) (at h1 h2 h3 ?q s2) =
      check_loop (rev ?l @ ?q # h3 # h2 # h1 # before) (t3 # rest) (at x' l t1 t2 ?s3)"
    using check_loop_run[OF in3, of "?q # h3 # h2 # h1 # before" t1 t2 "t3 # rest" h1 h2 s2] unfolding d l_def by blast
  have r2: "room (Suc (length ?C + 1)) s2" by (rule room_step[OF H(2), where j = 0]) (use assms(3) in simp_all)
  have T: "bare (work (at h2 h3 (hd (?C @ [t1, t2])) (hd (tl (?C @ [t1, t2]))) s2)) =
      s2\<lparr>DDU_WordsSinceLastHeader := DDU_WordsSinceLastHeader s2 + 1\<rparr>" (is "_ = ?s2")
    by (rule third_run[OF r2 H(1) ok(2,3)])
  have i2: "idle_event (\<lambda>_. {}) ?s2" by (rule idle_event_words[OF H(1)])
  have r2': "room (length ?C) ?s2" by (rule room_step[OF r2, where j = 1]) simp_all
  have s3: "?s3 = run h3 ?C t1 t2 ?s2" by (simp only: run.simps T)
  obtain t where t: "run h3 ?C t1 t2 ?s2 = t"
    "idle_event (add_all (all_errors (checkCrcALCT ?s2) (checkCrcTMB ?s2) (checkCrcCFEB ?s2) (TMB_WordsExpectedCorrection ?s2) rs)
      (\<lambda>_. {})) t" "same_setting ?s2 t" "DAV_DMB t = DAV_DMB ?s2 - int (length rs)"
    "DDU_WordsSinceLastHeader t = DDU_WordsSinceLastHeader ?s2 + of_nat (length ?C)"
    "TMB_WordsExpectedCorrection t = fold dmb_corr rs (TMB_WordsExpectedCorrection ?s2)"
    using dmbs_run[OF r2' i2 ok(4)] by blast
  have set2: "checkCrcALCT ?s2 = checkCrcALCT s" "checkCrcTMB ?s2 = checkCrcTMB s" "checkCrcCFEB ?s2 = checkCrcCFEB s"
    "TMB_WordsExpectedCorrection ?s2 = TMB_WordsExpectedCorrection s" "DAV_DMB ?s2 = uint (q0 h3 AND 0xF)"
    "DDU_WordsSinceLastHeader ?s2 = 1"
    using b1(2) H(3-5) by (simp_all add: same_checks_def)
  have flt: "\<not> fALCT_Header t" "\<not> fTMB_Header t" "\<not> fDMB_Header t" using t(2) by (simp_all add: idle_event_def)
  have w: "work (at l t1 t2 t3 t) = counted (at l t1 t2 t3 t)" using ok(5) flt by (intro work_ddu_trailer) simp_all
  have 4: "check_loop (rev ?l @ ?q # h3 # h2 # h1 # before) (t3 # rest) (at x' l t1 t2 t) =
      (Event (t3 # rev ?l @ ?q # h3 # h2 # h1 # before) rest, ddu_trailer (counted (at l t1 t2 t3 t)))"
    using ok(5) ddu_trailer_only[OF ok(5)] by (subst check_loop_end) (simp_all add: w)
  have rt: "room 1 t" by (rule room_step[OF r2, where j = "length ?C + 1"]) (use t(3,5) set2(6) H(5) in \<open>simp_all add: same_setting_def\<close>)
  have words: "event_words (Event_of h1 h2 h3 rs t1 t2 t3) = h1 # h2 # h3 # ?q # ?l @ [t3]"
    using arg_cong[OF C, of "\<lambda>l. l @ [t3]"] by simp
  then have words': "rev (event_words (Event_of h1 h2 h3 rs t1 t2 t3)) @ before = t3 # rev ?l @ ?q # h3 # h2 # h1 # before"
    by (simp only: rev.simps rev_append append_assoc append.simps)
  have "check before (event_words (Event_of h1 h2 h3 rs t1 t2 t3) @ rest) s =
      check_loop before (h1 # h2 # h3 # ?q # ?l @ t3 # rest) s"
    unfolding words by (simp add: check_def)
  also have "\<dots> = check_loop before (h1 # h2 # h3 # ?q # ?l @ t3 # rest) (at no_quad no_quad no_quad no_quad s)"
    using s by simp
  also have "\<dots> = (Event (rev (event_words (Event_of h1 h2 h3 rs t1 t2 t3)) @ before) rest, ddu_trailer (counted (at l t1 t2 t3 t)))"
    unfolding 1 2 3 s3 t(1) 4 words' ..
  finally have chk: "check before (event_words (Event_of h1 h2 h3 rs t1 t2 t3) @ rest) s =
      (Event (rev (event_words (Event_of h1 h2 h3 rs t1 t2 t3)) @ before) rest, ddu_trailer (counted (at l t1 t2 t3 t)))" .
  have "DDU_WordsSinceLastHeader t = of_nat (1 + length ?C)" using t(5) set2(6) by simp
  then show ?thesis using chk t(2,3,4,6) rt by (intro exI[of _ t] exI[of _ l]) (simp add: set2 same_setting_def)
qed


lemma found_errors:
  "add_all l (\<lambda>_. {}) e \<noteq> {} \<longleftrightarrow> e \<in> \<Union> (snd ` set l)" "add_all l (\<lambda>_. {}) e = {c. \<exists>F. (c, F) \<in> set l \<and> e \<in> F}"
proof -
  show 1: "add_all l (\<lambda>_. {}) e = {c. \<exists>F. (c, F) \<in> set l \<and> e \<in> F}" by (auto simp: add_all_iff)
  show "add_all l (\<lambda>_. {}) e \<noteq> {} \<longleftrightarrow> e \<in> \<Union> (snd ` set l)" unfolding 1 by force
qed

text \<open>C37. On an event of DDU header, records of chambers and DDU trailer, at most 50000 words, \<^verbatim>\<open>check\<close> stops
  behind the trailer and reports exactly the errors of the event. A record is what a DMB writes: the header word
  0x9xxx and the header word 0xAxxx, at most one ALCT block, at most one TMB block, samples of CFEBs, and the
  trailer words 0xFxxx and 0xExxx; words inside a block or a sample carry no signature (\<open>event_ok\<close>). The errors are
  wrong sums and counts of the ALCT and TMB blocks (10, 9, 15, 14), lost bits (11), samples of the
  wrong size, sum or number (16, 18, 17), data that contradict the header of the record (21, 22, 23),
  a wrong count of words (4) or of records (24), each for the chambers that have it, and error 0
  exactly when there is one. Afterwards the checker is ready for the next event.\<close>

theorem event_errors_reported:
  assumes "between_events s" and "event_ok ev" and "length (event_words ev) \<le> 50000"
    and "k = TMB_WordsExpectedCorrection s"
    and "found = event_found (checkCrcALCT s) (checkCrcTMB s) (checkCrcCFEB s) k ev"
    and "errs = event_errors (checkCrcALCT s) (checkCrcTMB s) (checkCrcCFEB s) k ev"
  shows "\<exists>t. check before (event_words ev @ rest) s = (Event (rev (event_words ev) @ before) rest, t) \<and>
    (\<forall>num. error num t \<longleftrightarrow> num \<ge> 0 \<and> nat num \<in> errs \<union> err 0 (errs \<noteq> {})) \<and>
    (\<forall>num > 0. chambersWithError num t = {c. \<exists>F. (c, F) \<in> set found \<and> nat num \<in> F}) \<and>
    chambersWithError 0 t = {c. \<exists>F. (c, F) \<in> set found \<and> F \<noteq> {}} \<and>
    between_events t \<and> checkCrcALCT t = checkCrcALCT s \<and> checkCrcTMB t = checkCrcTMB s \<and>
    checkCrcCFEB t = checkCrcCFEB s \<and> TMB_WordsExpectedCorrection t = fold dmb_corr (dmbs ev) k"
proof -
  obtain h1 h2 h3 rs t1 t2 t3 where ev: "ev = Event_of h1 h2 h3 rs t1 t2 t3" by (cases ev)
  let ?C = "concat (map dmb_words rs)"
  have found: "found = all_errors (checkCrcALCT s) (checkCrcTMB s) (checkCrcCFEB s) (TMB_WordsExpectedCorrection s) rs"
    by (simp add: assms(4,5) ev)
  define E where "E = add_all found (\<lambda>_. {})"
  obtain t p where t: "check before (event_words ev @ rest) s =
      (Event (rev (event_words ev) @ before) rest, ddu_trailer (counted (at p t1 t2 t3 t)))" "idle_event E t" "room 1 t"
    "DAV_DMB t = uint (q0 h3 AND 0xF) - int (length rs)" "DDU_WordsSinceLastHeader t = of_nat (1 + length ?C)"
    "checkCrcALCT t = checkCrcALCT s" "checkCrcTMB t = checkCrcTMB s" "checkCrcCFEB t = checkCrcCFEB s"
    "TMB_WordsExpectedCorrection t = fold dmb_corr rs k"
    using check_event[of s h1 h2 h3 rs t1 t2 t3 before rest] assms(1-4) unfolding E_def found ev by auto
  have ok: "\<not> some_nibble 0xC000 t1" using assms(2) by (simp add: ev ddu_trailer_only)
  let ?t = "counted (at p t1 t2 t3 t)"
  have r: "room (Suc 0) t" using t(3) by simp
  have i: "\<not> fDMB_Header t" "\<not> fDMB_Trailer t" "\<not> fALCT_Header t" "\<not> fTMB_Header t" "tracked E (-1) t"
    using t(2) by (simp_all add: idle_event_def)
  have c: "?t = at p t1 t2 t3 (t\<lparr>DDU_WordsSinceLastHeader := DDU_WordsSinceLastHeader t + 1\<rparr>)"
    using ok i by (simp add: counted_in_event[OF r] tick_def)
  have "tracked E (-1) ?t = tracked E (-1) t" unfolding c by (rule tracked_cong) simp_all
  then have tr: "tracked E (-1) ?t" using i(5) by simp
  have f: "\<not> fDDU_Trailer ?t" "\<not> fDMB_Header ?t" "\<not> fDMB_Trailer ?t" "\<not> fALCT_Header ?t" "\<not> fTMB_Header ?t"
    using i t(3) by (simp_all add: c room_def)
  note F = ddu_trailer_fields[OF f tr]
  have wrong: "wrong_count ?t \<longleftrightarrow> (of_nat (length (event_words ev)) :: 32 word) \<noteq>
      ucast (q2 t3) OR push_bit 16 (ucast (q3 t3) AND 0xFF)"
    using t(5) by (simp add: wrong_count_def c ev add.commute)
  have dav: "DAV_DMB ?t \<noteq> 0 \<longleftrightarrow> uint (q0 h3 AND 0xF) \<noteq> int (length rs)" using t(4) by (simp add: c)
  have errs: "errs = \<Union> (snd ` set found) \<union> err 4 (wrong_count ?t) \<union> err 24 (DAV_DMB ?t \<noteq> 0)"
    unfolding wrong dav using assms(4,6) by (simp add: ev found)
  let ?u = "ddu_trailer ?t"
  note D = trackedD[OF i(5)]
  have E: "E e \<noteq> {} \<longleftrightarrow> e \<in> \<Union> (snd ` set found)" for e unfolding E_def by (rule found_errors(1))
  have in_errs: "e \<in> errs \<longleftrightarrow> E e \<noteq> {} \<or> (e = 4 \<and> wrong_count ?t) \<or> (e = 24 \<and> DAV_DMB ?t \<noteq> 0)" for e
    unfolding errs E by (auto simp: err_def)
  have small: "e < 25" if "e \<in> errs" for e using that D(8) unfolding in_errs by fastforce
  have any: "errs \<noteq> {} \<longleftrightarrow> (\<exists>e. E e \<noteq> {}) \<or> wrong_count ?t \<or> DAV_DMB ?t \<noteq> 0"
    using in_errs by blast
  have reported: "error num ?u \<longleftrightarrow> num \<ge> 0 \<and> nat num \<in> errs \<union> err 0 (errs \<noteq> {})" for num
  proof (cases "num \<ge> 1")
    case True
    then have "fERROR ?u (nat num) \<longleftrightarrow> nat num \<in> errs" using F(1)[of "nat num"] in_errs[of "nat num"] by simp
    then show ?thesis using True small[of "nat num"] by (auto simp: error_def nERRORS_def err_def)
  next
    case False
    have "0 \<notin> errs" using in_errs[of 0] D(7) by fastforce
    then show ?thesis using False F(2) any by (cases "num = 0") (auto simp: error_def nERRORS_def err_def)
  qed
  have sets: "fCHAMB_ERR ?u = fCHAMB_ERR t" using F(3) by (simp add: c)
  have chamber: "chambersWithError num ?u = {c. \<exists>F. (c, F) \<in> set found \<and> nat num \<in> F}" if "num > 0" for num
  proof -
    have "fCHAMB_ERR t (nat num) = {c. \<exists>F. (c, F) \<in> set found \<and> nat num \<in> F}"
      using D(3)[of "nat num"] that by (simp add: E_def found_errors(2))
    moreover have "{c. \<exists>F. (c, F) \<in> set found \<and> nat num \<in> F} = {}" if "\<not> num < 25"
    proof -
      have "E (nat num) = {}" using D(8)[of _ "nat num"] that by fastforce
      then show ?thesis by (simp add: E_def found_errors(2))
    qed
    ultimately show ?thesis using that by (auto simp: chambersWithError_def sets nERRORS_def)
  qed
  have chamber0: "chambersWithError 0 ?u = {c. \<exists>F. (c, F) \<in> set found \<and> F \<noteq> {}}"
  proof -
    have "x \<in> fCHAMB_ERR t 0 \<longleftrightarrow> (\<exists>e. x \<in> E e)" for x
      using D(4)[of x] tracked_not_in[OF i(5), of "-1" 0] D(6)[of "-1"] by (cases "x = -1") fastforce+
    then show ?thesis by (auto simp: chambersWithError_def sets nERRORS_def E_def found_errors(2))
  qed
  have same: "checkCrcALCT ?u = checkCrcALCT s \<and> checkCrcTMB ?u = checkCrcTMB s \<and> checkCrcCFEB ?u = checkCrcCFEB s \<and>
      TMB_WordsExpectedCorrection ?u = fold dmb_corr (dmbs ev) k"
    using F(5) t(6-9) by (simp add: same_checks_def c ev)
  show ?thesis by (rule exI[of _ ?u]) (use t(1) reported chamber chamber0 F(4) same in simp)
qed

text \<open>An event with one record: the check sum of its ALCT block is wrong, and the header of the record promises
  a CFEB that has no samples.\<close>

definition short_event :: event where
  "short_event = Event_of (Quad 0 0 0 0x5000) (Quad 0 0x8000 1 0x8000) (Quad 1 0 0 0)
     [Dmb (Quad 0x9201 0x9000 0x9000 0x9000) (Quad 0xA201 0xA005 0xA000 0xA000)
        (Some (Block (Quad 0x6000 0x0080 0 0) [Quad 1 0 0 0] (Quad 0xD000 0xD000 0xDE0D 0xD00C))) None []
        (Quad 0xF000 0xF000 0xF000 0xF000) (Quad 0xE000 0xE000 0xE000 0xE000)]
     (Quad 0x8000 0x8000 0xFFFF 0x8000) (Quad 0 0 0 0) (Quad 0 0 13 0)"

lemma short_event_ok: "event_ok short_event"
  by (simp add: short_event_def signature_defs special_def plain_def)

lemma short_event_sum: "fold crc_quad [Quad 0x6000 0x0080 0 0, Quad 1 0 0 0] 0 \<noteq> (0 :: 32 word)"
  by (simp add: crc_quad_def crc_word_def upt_16 crc_bit_def)

lemma short_event_found:
  "event_found True True True 0 short_event = [(5, {10, 23})]" "event_errors True True True 0 short_event = {10, 23}"
  using short_event_sum
  by (auto simp: short_event_def alct_expected_def reported_crc_def chamber_of_def cfeb_bits_def)

lemma event_errors_reported_witness:
  "\<forall>s0. \<exists>t. check [] (event_words short_event) (crcALCT True (crcTMB True (crcCFEB True (dduBinExaminer s0)))) =
      (Event (rev (event_words short_event)) [], t) \<and>
    error 10 t \<and> error 23 t \<and> error 0 t \<and> \<not> error 4 t \<and> \<not> error 24 t \<and>
    chambersWithError 10 t = {5} \<and> chambersWithError 0 t = {5} \<and> chambersWithError 9 t = {}"
proof
  fix s0
  let ?s = "crcALCT True (crcTMB True (crcCFEB True (dduBinExaminer s0)))"
  have s: "between_events ?s" "checkCrcALCT ?s" "checkCrcTMB ?s" "checkCrcCFEB ?s" "TMB_WordsExpectedCorrection ?s = 0"
    by (simp_all add: between_events_def crcALCT_def crcTMB_def crcCFEB_def dduBinExaminer_def bare_def at_def)
  have l: "length (event_words short_event) \<le> 50000" by (simp add: short_event_def)
  have k: "0 = TMB_WordsExpectedCorrection ?s" using s(5) by simp
  have f: "[(5, {10, 23})] = event_found (checkCrcALCT ?s) (checkCrcTMB ?s) (checkCrcCFEB ?s) 0 short_event"
    "{10, 23} = event_errors (checkCrcALCT ?s) (checkCrcTMB ?s) (checkCrcCFEB ?s) 0 short_event"
    using s(2-4) by (simp_all add: short_event_found)
  obtain t where t: "check [] (event_words short_event) ?s = (Event (rev (event_words short_event)) [], t)"
    "\<And>num. error num t \<longleftrightarrow> num \<ge> 0 \<and> nat num \<in> {10, 23} \<union> err 0 ({10, 23 :: nat} \<noteq> {})"
    "\<And>num. num > 0 \<Longrightarrow> chambersWithError num t = {c. \<exists>F. (c, F) \<in> set [(5, {10, 23})] \<and> nat num \<in> F}"
    "chambersWithError 0 t = {c. \<exists>F. (c, F) \<in> set [(5, {10, 23 :: nat})] \<and> F \<noteq> {}}"
    using event_errors_reported[OF s(1) short_event_ok l k f, of "[]" "[]"] by (simp only: append_Nil2) blast
  show "\<exists>t. check [] (event_words short_event) ?s = (Event (rev (event_words short_event)) [], t) \<and>
    error 10 t \<and> error 23 t \<and> error 0 t \<and> \<not> error 4 t \<and> \<not> error 24 t \<and>
    chambersWithError 10 t = {5} \<and> chambersWithError 0 t = {5} \<and> chambersWithError 9 t = {}"
    using t by (intro exI[of _ t]) simp
qed

end
