(* ===== verification/Examiner_Chunks.thy ===== *)
theory Examiner_Chunks
  imports Examiner_Event
begin

text \<open>
  Data that come in several buffers: as long as no call reaches in front of its buffer, the checker finds the
  same as in one buffer with all the data.
\<close>

section \<open>The pipeline\<close>

definition pipe :: "examiner \<Rightarrow> quad list" where
  "pipe s = [buf2 s, buf1 s, buf0 s, buf_1 s]"

lemma pipe_bufs: "bufs s = bufs t \<Longrightarrow> pipe s = pipe t"
  by (simp add: bufs_def pipe_def)

lemma pipe_read_word: "pipe (read_word q s) = q # take 3 (pipe s)"
proof -
  have "bufs (c_words (count_words (check_size t))) = bufs t" for t by (simp add: bufs_def counted_def[symmetric])
  from pipe_bufs[OF this] show ?thesis unfolding read_word_def by (simp add: pipe_def shift_in_def)
qed

lemma pipe_round: "pipe (blocks (ddu_header (read_word q s))) = q # take 3 (pipe s)"
proof -
  have "pipe (work (shift_in q s)) = pipe (shift_in q s)" by (rule pipe_bufs) (rule bufs_work)
  then show ?thesis by (simp add: work_def read_word_def pipe_def shift_in_def)
qed

text \<open>The loop reads on where an earlier one has stopped, if at least four words came before.\<close>

lemma check_loop_append:
  assumes "check_loop b xs s = (No_event, t)" "take n b = take n (pipe s)" "n \<le> length b" "4 \<le> n + length xs"
  shows "check_loop b (xs @ ys) s = check_loop (rev xs @ b) ys t"
  using assms
proof (induction b xs s arbitrary: n rule: check_loop.induct)
  case (1 b s)
  then obtain r3 r2 r1 r0 c where b: "b = r3 # r2 # r1 # r0 # c"
    by (cases b; cases "tl b"; cases "tl (tl b)"; cases "tl (tl (tl b))"; auto)
  have "take 4 (take n b) = take 4 (take n (pipe s))" using 1(2) by (rule arg_cong)
  then have "take 4 b = take 4 (pipe s)" using 1(4) by simp
  then show ?case using 1(1) by (simp add: b pipe_def check_loop.simps(1))
next
  case (2 b q xs s)
  let ?r = "read_word q s"
  let ?t = "blocks (ddu_header ?r)"
  have no: "\<not> (is_ddu_header (buf0 ?r) \<and> fDDU_Header ?r)"
    using 2(2) by (auto simp: check_loop.simps(2) Let_def split: list.splits)
  then have nt: "\<not> is_ddu_trailer (buf0 ?t)" using 2(2) by (auto simp: check_loop.simps(2) Let_def)
  have eq: "check_loop b (q # zs) s = check_loop (q # b) zs ?t" for zs using no nt by (auto simp: check_loop.simps(2) Let_def)
  let ?n = "min 4 (Suc n)"
  have n: "?n = Suc (min 3 n)" by simp
  have "take 3 (take n b) = take 3 (take n (pipe s))" using 2(3) by (rule arg_cong)
  then have "take ?n (q # b) = take ?n (q # take 3 (pipe s))" unfolding n by (simp add: min.absorb2 min.commute)
  then have p: "take ?n (q # b) = take ?n (pipe ?t)" by (simp add: pipe_round)
  have l: "?n \<le> length (q # b)" "4 \<le> ?n + length xs" using 2(4,5) by simp_all
  have "check_loop (q # b) (xs @ ys) ?t = check_loop (rev xs @ q # b) ys t"
    by (rule 2(1)[OF refl no refl nt _ p l]) (use 2(2) eq in simp)
  then show ?case by (simp only: eq append.simps rev.simps append_assoc)
qed

lemma no_event_length: "check_loop b xs s = (No_event, t) \<Longrightarrow> 4 \<le> length b + length xs"
proof (induction b xs s rule: check_loop.induct)
  case (1 b s)
  then show ?case by (auto simp: check_loop.simps(1) split: list.splits)
next
  case (2 b q xs s)
  let ?r = "read_word q s"
  have no: "\<not> (is_ddu_header (buf0 ?r) \<and> fDDU_Header ?r)"
    using 2(2) by (auto simp: check_loop.simps(2) Let_def split: list.splits)
  moreover have nt: "\<not> is_ddu_trailer (buf0 (blocks (ddu_header ?r)))"
    using no 2(2) by (auto simp: check_loop.simps(2) Let_def)
  ultimately show ?case using 2(1)[OF refl no refl nt] 2(2) by (auto simp: check_loop.simps(2) Let_def)
qed

lemma check_append:
  assumes "check_loop [] xs s = (No_event, t)"
  shows "check_loop [] (xs @ ys) s = check_loop (rev xs) ys t"
proof -
  have "4 \<le> length xs" using no_event_length[OF assms] by simp
  then show ?thesis using check_loop_append[OF assms, of 0 ys] by simp
qed

section \<open>What lies in front\<close>

fun in_front :: "quad list \<Rightarrow> check_result \<Rightarrow> check_result" where
  "in_front c No_event = No_event"
| "in_front c (Event b r) = Event (b @ c) r"
| "in_front c (Again b r) = Again (b @ c) r"
| "in_front c Outside = Outside"

lemma check_loop_in_front:
  assumes "check_loop b ys s = (r, t)" "r \<noteq> Outside"
  shows "check_loop (b @ c) ys s = (in_front c r, t)"
  using assms
proof (induction b ys s rule: check_loop.induct)
  case (1 b s)
  then show ?case by (auto simp: check_loop.simps(1) split: list.splits)
next
  case (2 b q ys s)
  let ?r = "read_word q s"
  show ?case
  proof (cases "is_ddu_header (buf0 ?r) \<and> fDDU_Header ?r")
    case True
    then show ?thesis using 2(2,3) by (auto simp: check_loop.simps(2) Let_def split: list.splits)
  next
    case False
    then show ?thesis using 2(1)[OF refl False refl] 2(2,3) by (auto simp: check_loop.simps(2) Let_def split: if_splits)
  qed
qed

section \<open>Reading by buffers\<close>

text \<open>Calls of \<^verbatim>\<open>check\<close> on one buffer after the other, until an event ends, and the place where that is, as
  seen in one buffer.\<close>

fun check_buffers :: "quad list list \<Rightarrow> examiner \<Rightarrow> check_result \<times> examiner" where
  "check_buffers [] s = (No_event, s)"
| "check_buffers (xs # xss) s =
     (case check [] xs s of (No_event, t) \<Rightarrow> check_buffers xss t | (r, t) \<Rightarrow> (r, t))"

fun same_place :: "quad list list \<Rightarrow> check_result \<Rightarrow> check_result \<Rightarrow> bool" where
  "same_place xss No_event r \<longleftrightarrow> r = No_event"
| "same_place xss (Event b c) r \<longleftrightarrow>
     (\<exists>us vs. xss = us @ (rev b @ c) # vs \<and> r = Event (b @ rev (concat us)) (c @ concat vs))"
| "same_place xss (Again b c) r \<longleftrightarrow>
     (\<exists>us vs. xss = us @ (rev b @ c) # vs \<and> r = Again (b @ rev (concat us)) (c @ concat vs))"
| "same_place xss Outside r \<longleftrightarrow> False"

lemma same_place_first: "same_place ((rev b @ c) # xss) (Event b c) (Event b (c @ concat xss))"
  unfolding same_place.simps by (intro exI[of _ "[]"] exI[of _ xss]) simp

text \<open>The words in the result are those of the buffer.\<close>

fun words_of :: "check_result \<Rightarrow> quad list" where
  "words_of (Event b c) = rev b @ c"
| "words_of (Again b c) = rev b @ c"
| "words_of No_event = []"
| "words_of Outside = []"

lemma check_loop_words:
  assumes "check_loop b xs s = (r, t)" "r \<noteq> No_event" "r \<noteq> Outside"
  shows "words_of r = rev b @ xs"
  using assms
proof (induction b xs s rule: check_loop.induct)
  case (1 b s)
  then show ?case by (auto simp: check_loop.simps(1) split: list.splits)
next
  case (2 b q xs s)
  let ?r = "read_word q s"
  show ?case
  proof (cases "is_ddu_header (buf0 ?r) \<and> fDDU_Header ?r")
    case True
    then show ?thesis using 2(2,3,4) by (auto simp: check_loop.simps(2) Let_def split: list.splits)
  next
    case False
    then show ?thesis using 2(1)[OF refl False refl] 2(2,3,4)
      by (auto simp: check_loop.simps(2) Let_def split: if_splits)
  qed
qed

text \<open>The end of an event is found before more data are looked at.\<close>

fun followed :: "quad list \<Rightarrow> check_result \<Rightarrow> check_result" where
  "followed ys No_event = No_event"
| "followed ys (Event b r) = Event b (r @ ys)"
| "followed ys (Again b r) = Again b (r @ ys)"
| "followed ys Outside = Outside"

lemma check_loop_followed:
  assumes "check_loop b xs s = (r, t)" "r \<noteq> No_event" "r \<noteq> Outside"
  shows "check_loop b (xs @ ys) s = (followed ys r, t)"
  using assms
proof (induction b xs s rule: check_loop.induct)
  case (1 b s)
  then show ?case by (auto simp: check_loop.simps(1) split: list.splits)
next
  case (2 b q xs s)
  let ?r = "read_word q s"
  show ?case
  proof (cases "is_ddu_header (buf0 ?r) \<and> fDDU_Header ?r")
    case True
    then show ?thesis using 2(2,3,4) by (auto simp: check_loop.simps(2) Let_def split: list.splits)
  next
    case False
    then show ?thesis using 2(1)[OF refl False refl] 2(2,3,4)
      by (auto simp: check_loop.simps(2) Let_def split: if_splits)
  qed
qed

lemma check_buffers_Cons:
  assumes "check [] xs s = (No_event, t)"
  shows "check [] (xs @ ys) s = (if ys = [] then (No_event, t) else if xs = [] then check [] ys t else check_loop (rev xs) ys t)"
proof (cases "xs = [] \<or> ys = []")
  case True
  then show ?thesis using assms by (auto simp: check_def)
next
  case False
  then show ?thesis using assms check_append[of xs s t ys] by (simp add: check_def)
qed

lemma same_place_Cons:
  assumes "same_place xss r r'"
  shows "same_place (xs # xss) r (in_front (rev xs) r')"
proof (cases r)
  case (Event b c)
  then obtain us vs where "xss = us @ (rev b @ c) # vs" "r' = Event (b @ rev (concat us)) (c @ concat vs)" using assms by auto
  then show ?thesis by (simp add: Event) (rule exI[of _ "xs # us"], simp)
next
  case (Again b c)
  then obtain us vs where "xss = us @ (rev b @ c) # vs" "r' = Again (b @ rev (concat us)) (c @ concat vs)" using assms by auto
  then show ?thesis by (simp add: Again) (rule exI[of _ "xs # us"], simp)
qed (use assms in simp_all)

lemma buffers_as_one:
  assumes "check_buffers xss s = (r, t)" "r \<noteq> Outside"
  shows "\<exists>r'. check [] (concat xss) s = (r', t) \<and> same_place xss r r'"
  using assms
proof (induction xss arbitrary: s)
  case Nil
  then show ?case by (auto simp: check_def)
next
  case (Cons xs xss)
  obtain r1 t1 where 1: "check [] xs s = (r1, t1)" by (cases "check [] xs s")
  show ?case
  proof (cases "r1 = No_event")
    case True
    then have "check_buffers xss t1 = (r, t)" using Cons.prems 1 by simp
    from Cons.IH[OF this Cons.prems(2)] obtain r' where r': "check [] (concat xss) t1 = (r', t)" "same_place xss r r'"
      by blast
    have "r' \<noteq> Outside" using r'(2) by (cases r) auto
    then have "check [] (concat (xs # xss)) s = (in_front (rev xs) r', t)"
      using r'(1) check_buffers_Cons[of xs s t1 "concat xss"] 1 True check_loop_in_front[of "[]" "concat xss" t1 r' t "rev xs"]
      by (cases r') (auto simp: check_def split: if_splits)
    then show ?thesis using same_place_Cons[OF r'(2)] by blast
  next
    case False
    then have r: "r1 = r" "t1 = t" using Cons.prems(1) 1 by (auto split: check_result.splits)
    have x: "check_loop [] xs s = (r, t)" "xs \<noteq> []" using 1 False r by (auto simp: check_def split: if_splits)
    have no: "r \<noteq> No_event" using False r by simp
    have "check [] (concat (xs # xss)) s = (followed (concat xss) r, t)"
      using check_loop_followed[OF x(1) no Cons.prems(2)] x(2) by (simp add: check_def)
    moreover have "same_place (xs # xss) r (followed (concat xss) r)"
    proof -
      have w: "words_of r = xs" using check_loop_words[OF x(1) no Cons.prems(2)] by simp
      show ?thesis using w no Cons.prems(2) by (cases r) (auto intro: exI[of _ "[]"])
    qed
    ultimately show ?thesis by blast
  qed
qed

text \<open>The end of an event does not depend on what lies in front.\<close>

lemma event_in_front:
  assumes "check_loop (b @ c) ys s = (Event d r, t)"
  shows "\<exists>e. check_loop b ys s = (Event e r, t) \<and> d = e @ c"
  using assms
proof (induction b ys s rule: check_loop.induct)
  case (1 b s)
  then show ?case by (auto simp: check_loop.simps(1) split: list.splits)
next
  case (2 b q ys s)
  let ?r = "read_word q s"
  have no: "\<not> (is_ddu_header (buf0 ?r) \<and> fDDU_Header ?r)"
    using 2(2) by (auto simp: check_loop.simps(2) Let_def split: list.splits)
  then show ?case using 2(1)[OF refl no refl] 2(2) by (auto simp: check_loop.simps(2) Let_def split: if_splits)
qed

lemma event_split:
  assumes "check_loop b (xs @ ys) s = (Event d r, t)" "4 \<le> length b + length xs"
  shows "(\<exists>u. check_loop b xs s = (Event d u, t) \<and> r = u @ ys) \<or> (\<exists>u. check_loop b xs s = (No_event, u))"
  using assms
proof (induction b xs s rule: check_loop.induct)
  case (1 b s)
  then obtain r3 r2 r1 r0 c where "b = r3 # r2 # r1 # r0 # c"
    by (cases b; cases "tl b"; cases "tl (tl b)"; cases "tl (tl (tl b))"; auto)
  then show ?case by (simp add: check_loop.simps(1))
next
  case (2 b q xs s)
  let ?r = "read_word q s"
  have no: "\<not> (is_ddu_header (buf0 ?r) \<and> fDDU_Header ?r)"
    using 2(2) by (auto simp: check_loop.simps(2) Let_def split: list.splits)
  then show ?case using 2(1)[OF refl no refl] 2(2,3) by (auto simp: check_loop.simps(2) Let_def split: if_splits)
qed

lemma buffers_find_event:
  assumes "check [] (concat xss) s = (Event d u, t)" "\<forall>xs \<in> set xss. 4 \<le> length xs"
  shows "\<exists>r. check_buffers xss s = (r, t) \<and> same_place xss r (Event d u)"
  using assms
proof (induction xss arbitrary: s d)
  case Nil
  then show ?case by (simp add: check_def)
next
  case (Cons xs xss)
  have l: "xs \<noteq> []" "4 \<le> length xs" using Cons.prems(2) by auto
  have all: "check_loop [] (xs @ concat xss) s = (Event d u, t)" using Cons.prems(1) l by (simp add: check_def)
  consider v where "check_loop [] xs s = (Event d v, t)" "u = v @ concat xss" | v where "check_loop [] xs s = (No_event, v)"
    using event_split[OF all] l(2) by auto
  then show ?case
  proof cases
    case 1
    then have "rev d @ v = xs" using check_loop_words[OF 1(1)] by simp
    then have xs: "xs = rev d @ v" ..
    have "check_buffers (xs # xss) s = (Event d v, t)" using 1(1) l by (simp add: check_def)
    then show ?thesis using same_place_first[of d v xss] unfolding xs[symmetric] 1(2) by blast
  next
    case 2
    then have "check_loop (rev xs) (concat xss) v = (Event d u, t)" using check_append[OF 2, of "concat xss"] all by simp
    then obtain e where e: "check_loop [] (concat xss) v = (Event e u, t)" "d = e @ rev xs"
      using event_in_front[of "[]" "rev xs" "concat xss" v d u t] by (simp only: append_Nil) blast
    then have "concat xss \<noteq> []" by (metis check_loop.simps(1) list.case(1) prod.inject check_result.distinct(9))
    then have "check [] (concat xss) v = (Event e u, t)" using e(1) by (simp only: check_def if_False)
    from Cons.IH[OF this] Cons.prems(2) obtain r where r: "check_buffers xss v = (r, t)" "same_place xss r (Event e u)"
      by auto
    have "same_place (xs # xss) r (Event d u)" using same_place_Cons[OF r(2), of xs] e(2) by simp
    then show ?thesis using r(1) 2 l by (auto simp: check_def)
  qed
qed

text \<open>C38. The checker may be given its data in buffers. When calls of \<^verbatim>\<open>check\<close> on one buffer after the other
  find the end of an event, or none, and none of them has had to reach in front of its buffer, then one
  call on all the data finds the end at the same place and leaves the checker in the same state: reports,
  counts and pipeline. Conversely, an event that one call on all the data finds is found by the calls on
  the buffers, at the same place and with the same state, when every buffer has at least four words.\<close>

theorem buffers_do_not_matter:
  "(\<forall>r t. check_buffers xss s = (r, t) \<and> r \<noteq> Outside \<longrightarrow> (\<exists>r'. check [] (concat xss) s = (r', t) \<and> same_place xss r r')) \<and>
   (\<forall>d u t. check [] (concat xss) s = (Event d u, t) \<and> (\<forall>xs \<in> set xss. 4 \<le> length xs) \<longrightarrow>
      (\<exists>r. check_buffers xss s = (r, t) \<and> same_place xss r (Event d u)))"
  using buffers_as_one buffers_find_event by blast

text \<open>The event of three buffers.\<close>

lemma short_event_checked: "\<exists>t. check [] (event_words short_event) (dduBinExaminer s) = (Event (rev (event_words short_event)) [], t)"
proof -
  have s: "between_events (dduBinExaminer s)"
    by (simp add: between_events_def dduBinExaminer_def bare_def at_def)
  obtain h1 h2 h3 rs t1 t2 t3 where ev: "short_event = Event_of h1 h2 h3 rs t1 t2 t3" by (cases short_event)
  have l: "length (event_words short_event) \<le> 50000" by (simp add: short_event_def)
  show ?thesis
    using check_event[of "dduBinExaminer s" h1 h2 h3 rs t1 t2 t3 "[]" "[]"] s short_event_ok l unfolding ev by auto
qed

lemma buffers_do_not_matter_witness:
  "\<forall>s. \<exists>t. check_buffers [take 4 (event_words short_event), take 4 (drop 4 (event_words short_event)), drop 8 (event_words short_event)]
     (dduBinExaminer s) = (Event (rev (drop 8 (event_words short_event))) [], t) \<and>
     check [] (event_words short_event) (dduBinExaminer s) = (Event (rev (event_words short_event)) [], t)"
proof
  fix s
  let ?w = "event_words short_event" and ?s = "dduBinExaminer s"
  let ?bs = "[take 4 ?w, take 4 (drop 4 ?w), drop 8 ?w]"
  obtain t where t: "check [] ?w ?s = (Event (rev ?w) [], t)" using short_event_checked by blast
  have l: "length ?w = 13" by (simp add: short_event_def)
  then have four: "\<forall>xs \<in> set ?bs. 4 \<le> length xs" by simp
  have w: "concat ?bs = ?w" using append_take_drop_id[of 4 "drop 4 ?w"] append_take_drop_id[of 4 ?w] by simp
  obtain r where r: "check_buffers ?bs ?s = (r, t)" "same_place ?bs r (Event (rev ?w) [])"
    using conjunct2[OF buffers_do_not_matter[of ?bs ?s]] t four unfolding w by blast
  obtain b c where bc: "r = Event b c" using r(2) by (cases r) auto
  then obtain us vs where uv: "?bs = us @ (rev b @ c) # vs" "c = []" "concat vs = []" using r(2) by auto
  have "vs = []"
  proof (rule ccontr)
    assume "vs \<noteq> []"
    then have "List.last vs = List.last ?bs" "List.last vs \<in> set vs" using uv(1) by simp_all
    moreover have "List.last ?bs \<noteq> []" using l by simp
    ultimately show False using uv(3) by auto
  qed
  then have "rev b = List.last ?bs" using uv by simp
  then have "b = rev (drop 8 ?w)" by (simp add: rev_swap)
  then show "\<exists>t. check_buffers ?bs ?s = (Event (rev (drop 8 ?w)) [], t) \<and> check [] ?w ?s = (Event (rev ?w) [], t)"
    using r(1) t bc uv(2) by auto
qed

end
