(* ===== verification/Eth_Hook.thy ===== *)
theory Eth_Hook
  imports Prelude
begin

text \<open>
  The kernel driver of the spy channel, \<^verbatim>\<open>eth_hook_2.c\<close>: it copies each packet of the DDU into a ring of data
  that it shares with the reader, and notes its length and flags in a second ring. The shared area is one
  memory of bytes; addresses are offsets from its start \<^verbatim>\<open>buf_start_2\<close>. The rate shown in \<^verbatim>\<open>/proc\<close> needs
  the clock of the kernel and is left out.
\<close>

unbundle bit_operations_syntax

section \<open>Memory\<close>

type_synonym memory = "nat \<Rightarrow> 8 word"

text \<open>Little endian numbers of \<open>n\<close> bytes.\<close>

fun le :: "memory \<Rightarrow> nat \<Rightarrow> nat \<Rightarrow> nat" where
  "le m a 0 = 0"
| "le m a (Suc n) = unat (m a) + 256 * le m (Suc a) n"

fun put_le :: "nat \<Rightarrow> nat \<Rightarrow> nat \<Rightarrow> memory \<Rightarrow> memory" where
  "put_le a 0 v m = m"
| "put_le a (Suc n) v m = put_le (Suc a) n (v div 256) (m(a := of_nat v))"

definition u16 :: "memory \<Rightarrow> nat \<Rightarrow> 16 word" where "u16 m a = of_nat (le m a 2)"
definition u64 :: "memory \<Rightarrow> nat \<Rightarrow> 64 word" where "u64 m a = of_nat (le m a 8)"
definition put16 :: "nat \<Rightarrow> 16 word \<Rightarrow> memory \<Rightarrow> memory" where "put16 a w = put_le a 2 (unat w)"
definition put64 :: "nat \<Rightarrow> 64 word \<Rightarrow> memory \<Rightarrow> memory" where "put64 a w = put_le a 8 (unat w)"

section \<open>Constants\<close>

definition PAGE_SIZE :: nat where "PAGE_SIZE = 4096"
definition BIGPHYS_PAGES_2 :: nat where "BIGPHYS_PAGES_2 = 5000"
definition RING_PAGES_2 :: nat where "RING_PAGES_2 = 1000"
definition RING_ENTRY_LENGTH :: nat where "RING_ENTRY_LENGTH = 8"
definition MAXPACKET_2 :: nat where "MAXPACKET_2 = 9100"
definition MAXEVENT_2 :: nat where "MAXEVENT_2 = 180000"
definition TAILMEM :: nat where "TAILMEM = 100"
definition TAILPOS :: nat where "TAILPOS = 80"
definition SKB_EXTRA :: nat where "SKB_EXTRA = 8"
definition SKB_OFFSET :: int where "SKB_OFFSET = -14"

text \<open>Set by \<^verbatim>\<open>init_module2_2\<close>.\<close>

definition buf_end_2 :: nat where "buf_end_2 = (BIGPHYS_PAGES_2 - RING_PAGES_2) * PAGE_SIZE - MAXPACKET_2"
definition buf_eend_2 :: nat where "buf_eend_2 = (BIGPHYS_PAGES_2 - RING_PAGES_2) * PAGE_SIZE - TAILPOS - MAXEVENT_2"
definition ring_start_2 :: nat where "ring_start_2 = (BIGPHYS_PAGES_2 - RING_PAGES_2) * PAGE_SIZE"
definition ring_size_2 :: nat where
  "ring_size_2 = (RING_PAGES_2 * PAGE_SIZE - RING_ENTRY_LENGTH - TAILMEM) div RING_ENTRY_LENGTH"
definition tail_start_2 :: nat where "tail_start_2 = BIGPHYS_PAGES_2 * PAGE_SIZE - TAILPOS"

section \<open>State\<close>

text \<open>A frame of the network: its length, and the bytes at and around \<^verbatim>\<open>skb->data\<close>, which the driver also reads in
  front of it and behind its end.\<close>

record skb =
  skb_data :: "int \<Rightarrow> 8 word"
  skb_len :: nat

definition skb16 :: "skb \<Rightarrow> int \<Rightarrow> 16 word" where
  "skb16 k i = of_nat (unat (skb_data k i) + 256 * unat (skb_data k (i + 1)))"

record hook =
  area :: memory
  buf_pnt_2 :: nat
  ring_pnt_2 :: nat
  ring_loop_2 :: "16 word"
  proc_rpackets_2 :: "64 word"
  proc_rbytesL_2 :: "64 word"
  proc_rbytesH_2 :: "16 word"
  proc_pmissing_2 :: "64 word"
  proc_last_pmissing_2 :: "16 word"
  proc_tpackets_2 :: "16 word"
  proc_tbytesL_2 :: "64 word"
  proc_tbytesH_2 :: "16 word"
  flag_pmissing_2 :: "32 word"
  flag_eevent_2 :: "32 word"

definition schar_reset_2 :: "hook \<Rightarrow> hook" where
  "schar_reset_2 s = s\<lparr>
     buf_pnt_2 := 0, ring_pnt_2 := 0, ring_loop_2 := 0, proc_rpackets_2 := 0, proc_rbytesL_2 := 0,
     proc_rbytesH_2 := 0, proc_pmissing_2 := 0, proc_last_pmissing_2 := 0, proc_tpackets_2 := 0,
     proc_tbytesL_2 := 0, proc_tbytesH_2 := 0, area := put64 tail_start_2 0 (area s)\<rparr>"

section \<open>A packet comes\<close>

definition copy_data :: "skb \<Rightarrow> hook \<Rightarrow> hook" where
  "copy_data k s =
     (let icnt = (skb_len k + SKB_EXTRA) div 8
      in s\<lparr>area := (\<lambda>x. if buf_pnt_2 s \<le> x \<and> x < buf_pnt_2 s + 8 * icnt
            then skb_data k (int (x - buf_pnt_2 s) + SKB_OFFSET) else area s x)\<rparr>)"

definition count_packet :: "skb \<Rightarrow> hook \<Rightarrow> hook" where
  "count_packet k s =
     (let s = s\<lparr>proc_rpackets_2 := proc_rpackets_2 s + 1\<rparr>;
          s = s\<lparr>proc_rbytesL_2 := proc_rbytesL_2 s + of_nat (skb_len k + SKB_EXTRA)\<rparr>
      in if proc_rbytesL_2 s > 1000000000
         then s\<lparr>proc_rbytesL_2 := proc_rbytesL_2 s - 1000000000, proc_rbytesH_2 := proc_rbytesH_2 s + 1\<rparr> else s)"

text \<open>The counter of the packets comes behind the data. The first packet after a reset is not checked.\<close>

definition packet_missing :: "skb \<Rightarrow> hook \<Rightarrow> bool" where
  "packet_missing k s \<longleftrightarrow>
     (let packet_count = skb16 k (int (skb_len k) + 8 + SKB_OFFSET) in
      flag_pmissing_2 s = 1 \<and> uint (proc_last_pmissing_2 s) + 1 \<noteq> uint packet_count \<and>
      (ring_pnt_2 s \<noteq> 0 \<or> ring_loop_2 s \<noteq> 0) \<and> (if proc_last_pmissing_2 s = 0xffff then packet_count \<noteq> 0 else True))"

definition check_missing :: "skb \<Rightarrow> hook \<Rightarrow> 16 word \<times> hook" where
  "check_missing k s =
     (let t = (if packet_missing k s then s\<lparr>proc_pmissing_2 := proc_pmissing_2 s + 1\<rparr> else s)
      in (if packet_missing k s then 0x8000 else 0x0000,
          if flag_pmissing_2 s = 1
          then t\<lparr>proc_last_pmissing_2 := skb16 k (int (skb_len k) + 8 + SKB_OFFSET)\<rparr> else t))"

definition ddu_end :: "skb \<Rightarrow> int \<Rightarrow> bool" where
  "ddu_end k e \<longleftrightarrow> skb16 k (e - 24) = 0x8000 \<and> skb16 k (e - 24 + 2) = 0x8000 \<and>
     skb16 k (e - 24 + 4) = 0xffff \<and> skb16 k (e - 24 + 6) = 0x8000"

definition dcc_end :: "skb \<Rightarrow> int \<Rightarrow> bool" where
  "dcc_end k e \<longleftrightarrow> skb16 k (e - 16 + 6) AND 0xff00 = 0xef00 \<and> skb16 k (e - 16 + 14) AND 0xff00 = 0xaf00"

definition dmb_end :: "skb \<Rightarrow> int \<Rightarrow> bool" where
  "dmb_end k e \<longleftrightarrow> skb16 k (e - 16 + 24) AND 0xf000 = 0xf000 \<and> skb16 k (e - 16 + 26) AND 0xf000 = 0xe000"

definition ends_event :: "skb \<Rightarrow> bool" where
  "ends_event k \<longleftrightarrow>
     (let end_of_packet = SKB_OFFSET + int (skb_len k) + int SKB_EXTRA in
      if skb_len k + SKB_EXTRA = 64 then True
      else if ddu_end k end_of_packet then True
      else dcc_end k end_of_packet \<or> dmb_end k end_of_packet)"

definition eevent_mask :: "skb \<Rightarrow> hook \<Rightarrow> 16 word" where
  "eevent_mask k s = (if flag_eevent_2 s = 1 \<and> ends_event k then 0x4000 else 0x0000)"

definition write_entry :: "16 word \<Rightarrow> skb \<Rightarrow> hook \<Rightarrow> hook" where
  "write_entry flags k s =
     (let e = ring_start_2 + ring_pnt_2 s * RING_ENTRY_LENGTH
      in s\<lparr>area := put16 (e + 4) (of_nat (skb_len k + SKB_EXTRA)) (put16 e (ring_loop_2 s OR flags) (area s))\<rparr>)"

definition next_place :: "bool \<Rightarrow> skb \<Rightarrow> hook \<Rightarrow> hook" where
  "next_place final k s =
     (let s = s\<lparr>ring_pnt_2 := ring_pnt_2 s + 1\<rparr>;
          s = s\<lparr>buf_pnt_2 := buf_pnt_2 s + skb_len k + SKB_EXTRA\<rparr>
      in if (final \<and> buf_pnt_2 s > buf_eend_2) \<or> buf_pnt_2 s > buf_end_2 \<or> ring_pnt_2 s \<ge> ring_size_2
         then s\<lparr>ring_pnt_2 := 0, ring_loop_2 := ring_loop_2 s + 1, buf_pnt_2 := 0\<rparr> else s)"

definition netif_rx_hook_2 :: "skb \<Rightarrow> hook \<Rightarrow> hook" where
  "netif_rx_hook_2 k s =
     (let s = copy_data k s;
          s = count_packet k s;
          (missing_mask, s) = check_missing k s;
          eevent = eevent_mask k s;
          s = write_entry (missing_mask OR eevent) k s;
          s = next_place (eevent = 0x4000) k s
      in s\<lparr>area := put64 tail_start_2 (of_nat (buf_pnt_2 s)) (area s)\<rparr>)"

section \<open>Commands\<close>

datatype schar_command = SCHAR_RESET | SCHAR_PAGES | SCHAR_RING | SCHAR_PMISSING | SCHAR_EEVENT | SCHAR_OTHER

definition ENOTTY :: int where "ENOTTY = 25"

definition toggle :: "32 word \<Rightarrow> 32 word" where
  "toggle f = (let f = (if f = 0 then 1 else f) in if sint f > 0 then 0 else f)"

text \<open>The result, what is copied to the caller, and the state.\<close>

fun schar_ioctl_2 :: "schar_command \<Rightarrow> hook \<Rightarrow> int \<times> nat option \<times> hook" where
  "schar_ioctl_2 SCHAR_RESET s = (0, None, schar_reset_2 s)"
| "schar_ioctl_2 SCHAR_PAGES s = (0, Some BIGPHYS_PAGES_2, s)"
| "schar_ioctl_2 SCHAR_RING s = (0, Some RING_PAGES_2, s)"
| "schar_ioctl_2 SCHAR_PMISSING s = (0, None, s\<lparr>flag_pmissing_2 := toggle (flag_pmissing_2 s)\<rparr>)"
| "schar_ioctl_2 SCHAR_EEVENT s = (0, None, s\<lparr>flag_eevent_2 := toggle (flag_eevent_2 s)\<rparr>)"
| "schar_ioctl_2 SCHAR_OTHER s = (- ENOTTY, None, s)"

text \<open>The commands that are meant to switch the checks off and on again only switch them off.\<close>

lemma toggle_never_on: "f = 0 \<or> f = 1 \<Longrightarrow> toggle f = 0"
  by (auto simp: toggle_def)

end
