(* ===== verification/Spy_Reader.thy ===== *)
theory Spy_Reader
  imports Eth_Hook
begin

text \<open>
  The reader of the spy channel, \<^verbatim>\<open>Spy.cc\<close>: it looks for the end of an event in the area it shares with the
  driver of \<^verbatim>\<open>Eth_Hook\<close> and tells where the event begins and how long it is. The area changes while it
  looks: each of the four reads of a round of the loop has the area as it is at that moment. Prints, the
  log message and the waiting between two looks at the pointer are left out.
\<close>

unbundle bit_operations_syntax

section \<open>State\<close>

definition EndOfEventMissing :: "16 word" where "EndOfEventMissing = 0x0001"
definition Timeout :: "16 word" where "Timeout = 0x0002"
definition PacketsMissing :: "16 word" where "PacketsMissing = 0x0004"
definition LoopOverwrite :: "16 word" where "LoopOverwrite = 0x0008"
definition BufferOverwrite :: "16 word" where "BufferOverwrite = 0x0010"
definition Oversized :: "16 word" where "Oversized = 0x0020"

text \<open>Positions are offsets from \<^verbatim>\<open>buf_start\<close>. The last two fields are locals of \<^verbatim>\<open>readDDU\<close>.\<close>

record spy =
  theErrorFlag :: "16 word"
  theDataLength :: int
  buf_data :: nat
  buf_pnt :: nat
  buf_pnt_kern :: nat
  ring_pnt :: nat
  ring_loop :: "16 word"
  ring_loop_kern :: "16 word"
  ring_loop_kern2 :: "16 word"
  timeout :: "16 word"
  packets :: "16 word"
  pmissing :: "16 word"
  pmissing_prev :: "16 word"
  end_event :: "16 word"
  overwrite :: "16 word"
  visitCount :: "32 word"
  oversizedCount :: "32 word"
  pmissingCount :: "32 word"
  loopOverwriteCount :: "32 word"
  bufferOverwriteCount :: "32 word"
  timeoutCount :: "32 word"
  endEventCount :: "32 word"
  insideEventWithMissingPackets :: bool
  read_len :: int
  iloop :: int

definition buf_end :: nat where "buf_end = (BIGPHYS_PAGES_2 - RING_PAGES_2) * PAGE_SIZE - MAXPACKET_2"
definition buf_eend :: nat where "buf_eend = (BIGPHYS_PAGES_2 - RING_PAGES_2) * PAGE_SIZE - TAILPOS - MAXEVENT_2"
definition ring_start :: nat where "ring_start = (BIGPHYS_PAGES_2 - RING_PAGES_2) * PAGE_SIZE"
definition ring_size :: nat where
  "ring_size = (RING_PAGES_2 * PAGE_SIZE - RING_ENTRY_LENGTH - TAILMEM) div RING_ENTRY_LENGTH"

definition spy_open :: "spy \<Rightarrow> spy" where
  "spy_open s = s\<lparr>buf_pnt := 0, ring_pnt := 0, ring_loop := 0, pmissing := 0, pmissing_prev := 0,
     insideEventWithMissingPackets := False\<rparr>"

definition Spy :: "spy \<Rightarrow> spy" where
  "Spy s = (spy_open s)\<lparr>visitCount := 0, oversizedCount := 0, pmissingCount := 0, loopOverwriteCount := 0,
     bufferOverwriteCount := 0, timeoutCount := 0, endEventCount := 0\<rparr>"

text \<open>Together with the reset of the driver, \<^verbatim>\<open>SCHAR_RESET\<close>.\<close>

definition spy_reset :: "spy \<Rightarrow> spy" where
  "spy_reset s = s\<lparr>buf_pnt := 0, ring_pnt := 0, ring_loop := 0, pmissing := 0, pmissing_prev := 0,
     insideEventWithMissingPackets := False\<rparr>"

section \<open>Reading an event\<close>

definition read_start :: "spy \<Rightarrow> spy" where
  "read_start s = s\<lparr>read_len := 0, iloop := 0, timeout := 0, overwrite := 0, pmissing := 0, pmissing_prev := 0,
     packets := 0, visitCount := visitCount s + 1, theErrorFlag := EndOfEventMissing\<rparr>"

definition resync :: "spy \<Rightarrow> spy" where
  "resync s = s\<lparr>buf_pnt := 0, ring_pnt := 0, ring_loop := ring_loop_kern2 s, read_len := 0,
     insideEventWithMissingPackets := False\<rparr>"

text \<open>The next packet; the result tells whether the loop ends.\<close>

definition move_on :: "nat \<Rightarrow> spy \<Rightarrow> spy" where
  "move_on l s =
     (let s = s\<lparr>buf_pnt := buf_pnt s + l\<rparr>;
          s = s\<lparr>ring_pnt := ring_pnt s + 1\<rparr>
      in if (end_event s = 0x4000 \<and> buf_pnt s > buf_eend) \<or> buf_pnt s > buf_end \<or> ring_pnt s \<ge> ring_size
         then s\<lparr>ring_pnt := 0, ring_loop := ring_loop s + 1, buf_pnt := 0\<rparr> else s)"

definition take_packet :: "nat \<Rightarrow> spy \<Rightarrow> bool \<times> spy" where
  "take_packet l s =
     (let s = (if packets s = 0 then s\<lparr>buf_data := buf_pnt s\<rparr> else s);
          s = s\<lparr>read_len := read_len s + int l\<rparr>;
          s = move_on l s;
          s = s\<lparr>packets := packets s + 1\<rparr>;
          s = (if read_len s > int MAXEVENT_2 then s\<lparr>theErrorFlag := theErrorFlag s OR Oversized\<rparr> else s);
          s = (if insideEventWithMissingPackets s then s\<lparr>read_len := 0\<rparr> else s);
          s = (if pmissing s \<noteq> 0
               then s\<lparr>pmissingCount := pmissingCount s + 1, theErrorFlag := theErrorFlag s OR PacketsMissing,
                      insideEventWithMissingPackets := True, read_len := 0\<rparr> else s)
      in if end_event s = 0x4000
         then (True, s\<lparr>endEventCount := endEventCount s + 1, theErrorFlag := theErrorFlag s AND NOT EndOfEventMissing,
                       insideEventWithMissingPackets := False\<rparr>)
         else (False, s))"

text \<open>The area when a round reads the write pointer, the word and the length in its entry, and the word in the
  first entry.\<close>

record look =
  at_pointer :: memory
  at_entry :: memory
  at_length :: memory
  at_first :: memory

definition readDDU_round :: "look \<Rightarrow> spy \<Rightarrow> bool \<times> spy" where
  "readDDU_round x s =
     (let s = s\<lparr>buf_pnt_kern := unat (u64 (at_pointer x) (BIGPHYS_PAGES_2 * PAGE_SIZE - TAILPOS))\<rparr>
      in if iloop s > 20000
         then (True, s\<lparr>timeout := 1, timeoutCount := timeoutCount s + 1, theErrorFlag := theErrorFlag s OR Timeout\<rparr>)
         else if buf_pnt s = buf_pnt_kern s then (False, s\<lparr>iloop := iloop s + 1\<rparr>)
         else
           let s = s\<lparr>iloop := 0\<rparr>;
               e = ring_start + ring_pnt s * RING_ENTRY_LENGTH;
               w = u16 (at_entry x) e;
               s = s\<lparr>pmissing := w AND 0x8000, end_event := w AND 0x4000, ring_loop_kern := w AND 0x3fff\<rparr>;
               l = unat (u16 (at_length x) (e + 4));
               s = s\<lparr>ring_loop_kern2 := 0x3fff AND u16 (at_first x) ring_start\<rparr>
           in if (uint (ring_loop_kern2 s) = uint (ring_loop s) + 1 \<and> buf_pnt s \<le> buf_pnt_kern s) \<or>
                 uint (ring_loop_kern2 s) > uint (ring_loop s) + 1
              then (True, resync (s\<lparr>bufferOverwriteCount := bufferOverwriteCount s + 1,
                                    theErrorFlag := theErrorFlag s OR BufferOverwrite\<rparr>))
              else if ring_loop_kern s \<noteq> ring_loop s
              then (True, resync (s\<lparr>loopOverwriteCount := loopOverwriteCount s + 1,
                                    theErrorFlag := theErrorFlag s OR LoopOverwrite\<rparr>))
              else take_packet l s)"

text \<open>The loop, over what the rounds to come see; \<open>None\<close> when they do not end it.\<close>

fun readDDU_loop :: "look list \<Rightarrow> spy \<Rightarrow> spy option" where
  "readDDU_loop [] s = None"
| "readDDU_loop (x # xs) s =
     (let (stop, t) = readDDU_round x s in if stop then Some t else readDDU_loop xs t)"

text \<open>The filler that Ethernet adds is left out of the length of the data.\<close>

definition filler :: "memory \<Rightarrow> nat \<Rightarrow> nat \<Rightarrow> bool" where
  "filler m data i \<longleftrightarrow> u16 m (data + 2 * i) AND 0xFF00 = 0xFF00 \<and> u16 m (data + 2 * (i + 1)) = 0xFFFF \<and>
     u16 m (data + 2 * (i + 2)) = 0xFFFF \<and> u16 m (data + 2 * (i + 3)) = 0xFFFF"

function strip_filler :: "memory \<Rightarrow> nat \<Rightarrow> int \<Rightarrow> int" where
  "strip_filler m data iShort =
     (if iShort \<ge> 0 then (if \<not> filler m data (nat iShort) then 2 * (iShort + 4) else strip_filler m data (iShort - 4))
      else 0)"
  by pat_completeness auto
termination by (relation "measure (\<lambda>(m, data, i). nat (i + 4))") auto

declare strip_filler.simps [simp del]

definition dataLengthWithoutPadding :: "memory \<Rightarrow> nat \<Rightarrow> int \<Rightarrow> int" where
  "dataLengthWithoutPadding m data dataLength =
     (if dataLength = 0 then 0 else strip_filler m data (dataLength div 2 - 4))"

definition read_end :: "memory \<Rightarrow> spy \<Rightarrow> spy" where
  "read_end m s =
     (let s = (if theErrorFlag s AND Oversized \<noteq> 0 then s\<lparr>oversizedCount := oversizedCount s + 1\<rparr> else s);
          s = s\<lparr>theErrorFlag := theErrorFlag s OR push_bit 8 (if packets s > 15 then 15 else packets s)\<rparr>
      in s\<lparr>theDataLength := dataLengthWithoutPadding m (buf_data s) (read_len s)\<rparr>)"

text \<open>\<open>xs\<close> is what the rounds see, \<open>m\<close> what the search for the filler sees, which reads each byte of the data
  once at most. The result is \<open>read_len\<close>, the data begin at \<open>buf_data\<close>.\<close>

definition readDDU :: "look list \<Rightarrow> memory \<Rightarrow> spy \<Rightarrow> spy option" where
  "readDDU xs m s = map_option (read_end m) (readDDU_loop xs (read_start s))"

end
