(* ===== verification/Eth_Ring.thy ===== *)
theory Eth_Ring
  imports Spy_Reader
begin

text \<open>
  The ring the driver and the reader share. The history of the packets gives every packet its place; what the
  area holds of it is stated for the packets that later ones have not written over.
\<close>

unbundle bit_operations_syntax

section \<open>Numbers in memory\<close>

lemma le_cong: "(\<And>i. i < n \<Longrightarrow> m (a + i) = m' (a + i)) \<Longrightarrow> le m a n = le m' a n"
proof (induction n arbitrary: a)
  case (Suc n)
  have "le m (Suc a) n = le m' (Suc a) n" using Suc.prems[of "Suc i" for i] by (intro Suc.IH) simp
  then show ?case using Suc.prems[of 0] by simp
qed simp

lemma put_le_other: "x < a \<or> a + n \<le> x \<Longrightarrow> put_le a n v m x = m x"
  by (induction n arbitrary: a v m) auto

lemma le_put_le: "le (put_le a n v m) a n = v mod 256 ^ n"
proof (induction n arbitrary: a v m)
  case (Suc n)
  have "put_le (Suc a) n (v div 256) (m(a := of_nat v)) a = of_nat v" by (simp add: put_le_other)
  then have "le (put_le a (Suc n) v m) a (Suc n) = v mod 256 + 256 * (v div 256 mod 256 ^ n)"
    by (simp only: put_le.simps le.simps Suc.IH) (simp add: unat_of_nat)
  then show ?case by (simp add: mod_mult2_eq)
qed simp

lemma le_put_le_other: "b + k \<le> a \<or> a + n \<le> b \<Longrightarrow> le (put_le a n v m) b k = le m b k"
  by (intro le_cong put_le_other) auto

lemma le_bound: "le m a n < 256 ^ n"
proof (induction n arbitrary: a)
  case (Suc n)
  have "unat (m a) < 256" using unsigned_less[of "m a", where 'a = nat] by simp
  then show ?case using Suc.IH[of "Suc a"] by simp
qed simp

lemma u16_put16: "u16 (put16 a w m) a = w"
  using unsigned_less[of w, where 'a = nat] by (simp add: u16_def put16_def le_put_le)

lemma u16_put16_other: "b + 2 \<le> a \<or> a + 2 \<le> b \<Longrightarrow> u16 (put16 a w m) b = u16 m b"
  by (simp add: u16_def put16_def le_put_le_other)

lemma u16_put64_other: "b + 2 \<le> a \<or> a + 8 \<le> b \<Longrightarrow> u16 (put64 a w m) b = u16 m b"
  by (simp add: u16_def put64_def le_put_le_other)

lemma unat_u64: "unat (u64 m a) = le m a 8"
  using le_bound[of m a 8] by (simp add: u64_def unat_of_nat)

lemma unat_u64_put64: "n < 2 ^ 64 \<Longrightarrow> unat (u64 (put64 a (of_nat n) m) a) = n"
  by (simp add: unat_u64 put64_def le_put_le unat_of_nat)

section \<open>Places\<close>

lemmas layout_defs = PAGE_SIZE_def BIGPHYS_PAGES_2_def RING_PAGES_2_def RING_ENTRY_LENGTH_def MAXPACKET_2_def
  MAXEVENT_2_def TAILMEM_def TAILPOS_def buf_end_2_def buf_eend_2_def ring_start_2_def ring_size_2_def tail_start_2_def

lemma layout [simp]:
  "buf_end_2 = 16374900" "buf_eend_2 = 16203920" "ring_start_2 = 16384000" "ring_size_2 = 511986"
  "tail_start_2 = 20479920" "RING_ENTRY_LENGTH = 8" "MAXEVENT_2 = 180000"
  "buf_end = 16374900" "buf_eend = 16203920" "ring_start = 16384000" "ring_size = 511986"
  by (simp_all add: layout_defs buf_end_def buf_eend_def ring_start_def ring_size_def)

record stored =
  bytes :: "8 word list"
  lost :: bool
  final :: bool

definition stored_of :: "skb \<Rightarrow> hook \<Rightarrow> stored" where
  "stored_of k d = \<lparr>bytes = map (\<lambda>i. skb_data k (int i + SKB_OFFSET)) [0..<skb_len k + SKB_EXTRA],
     lost = packet_missing k d, final = (eevent_mask k d = 0x4000)\<rparr>"

definition flags :: "stored \<Rightarrow> 16 word" where
  "flags p = (if lost p then 0x8000 else 0) OR (if final p then 0x4000 else 0)"

text \<open>Data position, entry and number of the loop.\<close>

type_synonym ring_place = "nat \<times> nat \<times> nat"

fun after :: "ring_place \<Rightarrow> stored \<Rightarrow> ring_place" where
  "after (b, r, l) p =
     (let b = b + length (bytes p); r = r + 1 in
      if (final p \<and> b > buf_eend_2) \<or> b > buf_end_2 \<or> r \<ge> ring_size_2 then (0, 0, l + 1) else (b, r, l))"

definition place :: "stored list \<Rightarrow> ring_place" where "place H = foldl after (0, 0, 0) H"
definition bufp :: "stored list \<Rightarrow> nat" where "bufp H = fst (place H)"
definition entp :: "stored list \<Rightarrow> nat" where "entp H = fst (snd (place H))"
definition loopp :: "stored list \<Rightarrow> nat" where "loopp H = snd (snd (place H))"

lemmas place_defs = bufp_def entp_def loopp_def

definition turns :: "stored list \<Rightarrow> stored \<Rightarrow> bool" where
  "turns H p \<longleftrightarrow> (final p \<and> bufp H + length (bytes p) > buf_eend_2) \<or> bufp H + length (bytes p) > buf_end_2 \<or>
     entp H + 1 \<ge> ring_size_2"

lemma place_Nil [simp]: "bufp [] = 0" "entp [] = 0" "loopp [] = 0"
  by (simp_all add: place_defs place_def)

lemma place_snoc [simp]:
  "bufp (H @ [p]) = (if turns H p then 0 else bufp H + length (bytes p))"
  "entp (H @ [p]) = (if turns H p then 0 else entp H + 1)"
  "loopp (H @ [p]) = (if turns H p then loopp H + 1 else loopp H)"
  by (cases "place H"; simp add: place_defs place_def turns_def Let_def)+

definition good :: "stored \<Rightarrow> bool" where
  "good p \<longleftrightarrow> 32 \<le> length (bytes p) \<and> length (bytes p) \<le> MAXPACKET_2 \<and> length (bytes p) mod 8 = 0"

lemma place_bounds: "bufp H \<le> buf_end_2" "entp H < ring_size_2"
  by (induction H rule: rev_induct) (auto simp: turns_def)

lemma entries_fit:
  assumes "\<forall>p \<in> set H. good p"
  shows "32 * entp H \<le> bufp H"
  using assms by (induction H rule: rev_induct) (auto simp: good_def)

text \<open>Every packet is behind the ones before it, in the same loop or in a later one.\<close>

lemma later:
  "loopp H < loopp (H @ p # K) \<or>
   (loopp H = loopp (H @ p # K) \<and> bufp H + length (bytes p) \<le> bufp (H @ p # K) \<and> entp H < entp (H @ p # K))"
proof (induction K rule: rev_induct)
  case (snoc q K)
  have "H @ p # K @ [q] = (H @ p # K) @ [q]" by simp
  then show ?case using snoc by (simp only: place_snoc) auto
qed simp

lemma later_take:
  assumes "j < n" "n \<le> length H"
  shows "loopp (take j H) < loopp (take n H) \<or>
    (loopp (take j H) = loopp (take n H) \<and> bufp (take j H) + length (bytes (H ! j)) \<le> bufp (take n H) \<and>
     entp (take j H) < entp (take n H))"
proof -
  have "take n H = take j H @ H ! j # take (n - j - 1) (drop (Suc j) H)"
    using id_take_nth_drop[of j "take n H"] assms by (simp add: min_def drop_take)
  then show ?thesis using later[of "take j H" "H ! j"] by simp
qed

section \<open>What the area holds\<close>

text \<open>Packets that no later one has written over.\<close>

definition entry_kept :: "stored list \<Rightarrow> nat \<Rightarrow> bool" where
  "entry_kept H j \<longleftrightarrow> (\<forall>k. j < k \<and> k < length H \<longrightarrow> entp (take k H) \<noteq> entp (take j H))"

definition apart :: "stored list \<Rightarrow> nat \<Rightarrow> nat \<Rightarrow> bool" where
  "apart H j k \<longleftrightarrow> bufp (take j H) + length (bytes (H ! j)) \<le> bufp (take k H) \<or>
     bufp (take k H) + length (bytes (H ! k)) \<le> bufp (take j H)"

definition data_kept :: "stored list \<Rightarrow> nat \<Rightarrow> bool" where
  "data_kept H j \<longleftrightarrow> (\<forall>k. j < k \<and> k < length H \<longrightarrow> apart H j k)"

definition entry_is :: "memory \<Rightarrow> nat \<Rightarrow> nat \<Rightarrow> stored \<Rightarrow> bool" where
  "entry_is m r l p \<longleftrightarrow> u16 m (ring_start_2 + r * RING_ENTRY_LENGTH) = of_nat l OR flags p \<and>
     u16 m (ring_start_2 + r * RING_ENTRY_LENGTH + 4) = of_nat (length (bytes p))"

definition data_is :: "memory \<Rightarrow> nat \<Rightarrow> stored \<Rightarrow> bool" where
  "data_is m b p \<longleftrightarrow> (\<forall>i < length (bytes p). m (b + i) = bytes p ! i)"

text \<open>The driver after the packets \<open>H\<close>; the entry 0 is that of the last packet that was first in a loop.\<close>

definition holds :: "stored list \<Rightarrow> hook \<Rightarrow> bool" where
  "holds H d \<longleftrightarrow> (\<forall>p \<in> set H. good p) \<and> buf_pnt_2 d = bufp H \<and> ring_pnt_2 d = entp H \<and> ring_loop_2 d = of_nat (loopp H) \<and>
     unat (u64 (area d) tail_start_2) = bufp H \<and>
     (\<forall>j < length H. entry_kept H j \<longrightarrow> entry_is (area d) (entp (take j H)) (loopp (take j H)) (H ! j)) \<and>
     (\<forall>j < length H. data_kept H j \<longrightarrow> data_is (area d) (bufp (take j H)) (H ! j)) \<and>
     (H \<noteq> [] \<longrightarrow> (\<exists>p. u16 (area d) ring_start_2 = of_nat (if entp H = 0 then loopp H - 1 else loopp H) OR flags p))"

lemma holds_reset: "holds [] (schar_reset_2 d)"
  using unat_u64_put64[of 0 tail_start_2 "area d"] by (simp add: holds_def schar_reset_2_def)

text \<open>One packet.\<close>

definition masks :: "skb \<Rightarrow> hook \<Rightarrow> 16 word" where
  "masks k d = (if packet_missing k d then 0x8000 else 0x0000) OR eevent_mask k d"

lemma flags_stored_of: "flags (stored_of k d) = masks k d"
  by (simp add: flags_def stored_of_def masks_def eevent_mask_def)

lemma length_stored_of: "length (bytes (stored_of k d)) = skb_len k + SKB_EXTRA"
  by (simp add: stored_of_def)

text \<open>The area while a packet is stored: when \<open>i\<close> words of eight bytes have been copied, when the loop and flags
  are in the entry, and when the length is there too. The write pointer comes last.\<close>

definition copied :: "skb \<Rightarrow> nat \<Rightarrow> hook \<Rightarrow> memory" where
  "copied k i d = (\<lambda>x. if buf_pnt_2 d \<le> x \<and> x < buf_pnt_2 d + 8 * i
     then skb_data k (int (x - buf_pnt_2 d) + SKB_OFFSET) else area d x)"

definition flagged :: "skb \<Rightarrow> hook \<Rightarrow> memory" where
  "flagged k d = put16 (ring_start_2 + ring_pnt_2 d * RING_ENTRY_LENGTH) (ring_loop_2 d OR masks k d) (area (copy_data k d))"

definition written :: "skb \<Rightarrow> hook \<Rightarrow> memory" where
  "written k d = put16 (ring_start_2 + ring_pnt_2 d * RING_ENTRY_LENGTH + 4) (of_nat (skb_len k + SKB_EXTRA)) (flagged k d)"

lemma copied_all: "area (copy_data k d) = copied k ((skb_len k + SKB_EXTRA) div 8) d"
  by (simp add: copy_data_def copied_def Let_def)

definition wraps :: "skb \<Rightarrow> hook \<Rightarrow> bool" where
  "wraps k d \<longleftrightarrow> (final (stored_of k d) \<and> buf_pnt_2 d + skb_len k + SKB_EXTRA > buf_eend_2) \<or>
     buf_pnt_2 d + skb_len k + SKB_EXTRA > buf_end_2 \<or> ring_pnt_2 d + 1 \<ge> ring_size_2"

lemma hook_fields:
  "buf_pnt_2 (netif_rx_hook_2 k d) = (if wraps k d then 0 else buf_pnt_2 d + skb_len k + SKB_EXTRA)"
  "ring_pnt_2 (netif_rx_hook_2 k d) = (if wraps k d then 0 else ring_pnt_2 d + 1)"
  "ring_loop_2 (netif_rx_hook_2 k d) = (if wraps k d then ring_loop_2 d + 1 else ring_loop_2 d)"
  "area (netif_rx_hook_2 k d) =
     put64 tail_start_2 (of_nat (if wraps k d then 0 else buf_pnt_2 d + skb_len k + SKB_EXTRA)) (written k d)"
  "flag_pmissing_2 (netif_rx_hook_2 k d) = flag_pmissing_2 d" "flag_eevent_2 (netif_rx_hook_2 k d) = flag_eevent_2 d"
proof -
  define s1 where "s1 = copy_data k d"
  define s2 where "s2 = count_packet k s1"
  define s3 where "s3 = snd (check_missing k s2)"
  have 1: "area s1 = area (copy_data k d)" "buf_pnt_2 s1 = buf_pnt_2 d" "ring_pnt_2 s1 = ring_pnt_2 d"
    "ring_loop_2 s1 = ring_loop_2 d" "flag_pmissing_2 s1 = flag_pmissing_2 d" "flag_eevent_2 s1 = flag_eevent_2 d"
    "proc_last_pmissing_2 s1 = proc_last_pmissing_2 d"
    by (simp_all add: s1_def copy_data_def Let_def)
  have 2: "area s2 = area (copy_data k d)" "buf_pnt_2 s2 = buf_pnt_2 d" "ring_pnt_2 s2 = ring_pnt_2 d"
    "ring_loop_2 s2 = ring_loop_2 d" "flag_pmissing_2 s2 = flag_pmissing_2 d" "flag_eevent_2 s2 = flag_eevent_2 d"
    "proc_last_pmissing_2 s2 = proc_last_pmissing_2 d"
    using 1 by (simp_all add: s2_def count_packet_def Let_def)
  have miss: "packet_missing k s2 = packet_missing k d" by (simp add: packet_missing_def 2)
  have 3: "area s3 = area (copy_data k d)" "buf_pnt_2 s3 = buf_pnt_2 d" "ring_pnt_2 s3 = ring_pnt_2 d"
    "ring_loop_2 s3 = ring_loop_2 d" "flag_pmissing_2 s3 = flag_pmissing_2 d" "flag_eevent_2 s3 = flag_eevent_2 d"
    by (simp_all add: s3_def check_missing_def Let_def 2)
  have m: "check_missing k s2 = (if packet_missing k d then 0x8000 else 0x0000, s3)"
    by (simp add: s3_def check_missing_def Let_def miss)
  have ev: "eevent_mask k s3 = eevent_mask k d" by (simp add: eevent_mask_def 3)
  define s4 where "s4 = write_entry (masks k d) k s3"
  have 4: "area s4 = written k d" "buf_pnt_2 s4 = buf_pnt_2 d" "ring_pnt_2 s4 = ring_pnt_2 d"
    "ring_loop_2 s4 = ring_loop_2 d" "flag_pmissing_2 s4 = flag_pmissing_2 d" "flag_eevent_2 s4 = flag_eevent_2 d"
    by (simp_all add: s4_def write_entry_def written_def flagged_def Let_def 3)
  define s5 where "s5 = next_place (eevent_mask k d = 0x4000) k s4"
  have hook: "netif_rx_hook_2 k d = s5\<lparr>area := put64 tail_start_2 (of_nat (buf_pnt_2 s5)) (area s5)\<rparr>"
    unfolding netif_rx_hook_2_def s1_def[symmetric] s2_def[symmetric] Let_def
    by (simp add: m s1_def[symmetric] s2_def[symmetric] ev masks_def[symmetric] s4_def[symmetric] s5_def[symmetric])
  have w: "wraps k d \<longleftrightarrow> (eevent_mask k d = 0x4000 \<and> buf_pnt_2 d + skb_len k + SKB_EXTRA > buf_eend_2) \<or>
     buf_pnt_2 d + skb_len k + SKB_EXTRA > buf_end_2 \<or> ring_pnt_2 d + 1 \<ge> ring_size_2"
    by (simp add: wraps_def stored_of_def)
  have 5: "area s5 = written k d" "buf_pnt_2 s5 = (if wraps k d then 0 else buf_pnt_2 d + skb_len k + SKB_EXTRA)"
    "ring_pnt_2 s5 = (if wraps k d then 0 else ring_pnt_2 d + 1)"
    "ring_loop_2 s5 = (if wraps k d then ring_loop_2 d + 1 else ring_loop_2 d)"
    "flag_pmissing_2 s5 = flag_pmissing_2 d" "flag_eevent_2 s5 = flag_eevent_2 d"
    unfolding w by (simp_all add: s5_def next_place_def Let_def 4)
  show "buf_pnt_2 (netif_rx_hook_2 k d) = (if wraps k d then 0 else buf_pnt_2 d + skb_len k + SKB_EXTRA)"
    "ring_pnt_2 (netif_rx_hook_2 k d) = (if wraps k d then 0 else ring_pnt_2 d + 1)"
    "ring_loop_2 (netif_rx_hook_2 k d) = (if wraps k d then ring_loop_2 d + 1 else ring_loop_2 d)"
    "area (netif_rx_hook_2 k d) =
     put64 tail_start_2 (of_nat (if wraps k d then 0 else buf_pnt_2 d + skb_len k + SKB_EXTRA)) (written k d)"
    "flag_pmissing_2 (netif_rx_hook_2 k d) = flag_pmissing_2 d" "flag_eevent_2 (netif_rx_hook_2 k d) = flag_eevent_2 d"
    by (simp_all add: hook 5)
qed

definition frame_fits :: "skb \<Rightarrow> bool" where
  "frame_fits k \<longleftrightarrow> 32 \<le> skb_len k + SKB_EXTRA \<and> skb_len k + SKB_EXTRA \<le> MAXPACKET_2 \<and> (skb_len k + SKB_EXTRA) mod 8 = 0"

lemma u16_cong: "m a = m' a \<Longrightarrow> m (Suc a) = m' (Suc a) \<Longrightarrow> u16 m a = u16 m' a"
  by (simp add: u16_def numeral_2_eq_2)

lemma area_data:
  assumes "frame_fits k" "buf_pnt_2 d \<le> buf_end_2" "ring_pnt_2 d < ring_size_2" "x < ring_start_2"
  shows "area (netif_rx_hook_2 k d) x =
    (if buf_pnt_2 d \<le> x \<and> x < buf_pnt_2 d + skb_len k + SKB_EXTRA
     then skb_data k (int (x - buf_pnt_2 d) + SKB_OFFSET) else area d x)"
proof -
  have "8 * ((skb_len k + SKB_EXTRA) div 8) = skb_len k + SKB_EXTRA" using assms(1) by (auto simp: frame_fits_def)
  then show ?thesis using assms
    by (simp add: hook_fields put64_def written_def flagged_def put16_def Let_def put_le_other copy_data_def add.assoc)
qed

lemma area_ring:
  assumes "frame_fits k" "buf_pnt_2 d \<le> buf_end_2" "ring_start_2 \<le> x"
  shows "area (copy_data k d) x = area d x"
proof -
  have "8 * ((skb_len k + SKB_EXTRA) div 8) \<le> 9100" using assms(1) by (auto simp: frame_fits_def MAXPACKET_2_def)
  then have "\<not> x < buf_pnt_2 d + 8 * ((skb_len k + SKB_EXTRA) div 8)" using assms(2,3) by simp
  then show ?thesis by (simp add: copy_data_def)
qed

lemma area_entry:
  assumes "frame_fits k" "buf_pnt_2 d \<le> buf_end_2" "ring_pnt_2 d < ring_size_2" "r < ring_size_2"
  defines "e \<equiv> ring_start_2 + r * RING_ENTRY_LENGTH"
  shows "u16 (area (netif_rx_hook_2 k d)) e =
      (if r = ring_pnt_2 d then ring_loop_2 d OR masks k d else u16 (area d) e)"
    "u16 (area (netif_rx_hook_2 k d)) (e + 4) =
      (if r = ring_pnt_2 d then of_nat (skb_len k + SKB_EXTRA) else u16 (area d) (e + 4))"
proof -
  let ?f = "ring_start_2 + ring_pnt_2 d * RING_ENTRY_LENGTH"
  have tail: "u16 (area (netif_rx_hook_2 k d)) a = u16 (written k d) a" if "a + 2 \<le> tail_start_2" for a
    using that by (simp add: hook_fields u16_put64_other)
  have le: "e + 6 \<le> tail_start_2" using assms(4) by (simp add: e_def)
  have c: "u16 (area (copy_data k d)) a = u16 (area d) a" if "ring_start_2 \<le> a" for a
    using that area_ring[OF assms(1,2)] by (intro u16_cong) simp_all
  have w: "u16 (written k d) e = (if r = ring_pnt_2 d then ring_loop_2 d OR masks k d else u16 (area d) e)"
  proof (cases "r = ring_pnt_2 d")
    case True
    then show ?thesis by (simp add: written_def flagged_def Let_def e_def u16_put16_other u16_put16)
  next
    case False
    then have "e + 8 \<le> ?f \<or> ?f + 8 \<le> e" by (auto simp: e_def)
    then show ?thesis using False c[of e] by (auto simp: written_def flagged_def Let_def u16_put16_other e_def)
  qed
  have w4: "u16 (written k d) (e + 4) = (if r = ring_pnt_2 d then of_nat (skb_len k + SKB_EXTRA) else u16 (area d) (e + 4))"
  proof (cases "r = ring_pnt_2 d")
    case True
    then show ?thesis by (simp add: written_def flagged_def Let_def e_def u16_put16)
  next
    case False
    then have "e + 8 \<le> ?f \<or> ?f + 8 \<le> e" by (auto simp: e_def)
    then show ?thesis using False c[of "e + 4"] by (auto simp: written_def flagged_def Let_def u16_put16_other e_def)
  qed
  show "u16 (area (netif_rx_hook_2 k d)) e =
      (if r = ring_pnt_2 d then ring_loop_2 d OR masks k d else u16 (area d) e)"
    "u16 (area (netif_rx_hook_2 k d)) (e + 4) =
      (if r = ring_pnt_2 d then of_nat (skb_len k + SKB_EXTRA) else u16 (area d) (e + 4))"
    using tail[of e] tail[of "e + 4"] le w w4 by simp_all
qed

text \<open>The history grows by the packet.\<close>

lemma holds_packet:
  assumes "holds H d" "frame_fits k"
  shows "holds (H @ [stored_of k d]) (netif_rx_hook_2 k d)"
proof -
  let ?p = "stored_of k d" and ?d = "netif_rx_hook_2 k d" and ?H = "H @ [stored_of k d]"
  have b: "buf_pnt_2 d = bufp H" "ring_pnt_2 d = entp H" "ring_loop_2 d = of_nat (loopp H)"
    using assms(1) by (simp_all add: holds_def)
  have bd: "buf_pnt_2 d \<le> buf_end_2" "ring_pnt_2 d < ring_size_2" using place_bounds[of H] b by simp_all
  have turns: "wraps k d \<longleftrightarrow> turns H ?p"
    unfolding wraps_def turns_def length_stored_of b by (simp only: add.assoc)
  note D = area_data[OF assms(2) bd] and R = area_entry[OF assms(2) bd]
  have size: "skb_len k + SKB_EXTRA \<le> 9100" using assms(2) by (simp add: frame_fits_def MAXPACKET_2_def)
  have old: "take j ?H = take j H" "?H ! j = H ! j" if "j < length H" for j using that by (simp_all add: nth_append)
  have new: "take (length H) ?H = H" "?H ! length H = ?p" by simp_all
  have ent: "entry_is (area ?d) (entp (take j ?H)) (loopp (take j ?H)) (?H ! j)" if j: "j < length ?H" "entry_kept ?H j" for j
  proof (cases "j < length H")
    case True
    have k: "entry_kept H j"
      using j(2) True unfolding entry_kept_def by (auto simp: nth_append dest: spec[of _ "_ :: nat"])
    have n: "entp (take j H) \<noteq> ring_pnt_2 d"
      using j(2) True unfolding entry_kept_def b by (auto dest: spec[of _ "length H"])
    from k have "entry_is (area d) (entp (take j H)) (loopp (take j H)) (H ! j)" using assms(1) True by (simp add: holds_def)
    then show ?thesis using R[of "entp (take j H)"] n place_bounds(2)[of "take j H"]
      unfolding old[OF True] entry_is_def by simp
  next
    case False
    then have "j = length H" using j(1) by simp
    then show ?thesis using R[of "entp H"] place_bounds(2)[of H] unfolding entry_is_def
      by (simp add: new b flags_stored_of length_stored_of del: layout)
  qed
  have dat: "data_is (area ?d) (bufp (take j ?H)) (?H ! j)" if j: "j < length ?H" "data_kept ?H j" for j
  proof (cases "j < length H")
    case True
    have k: "data_kept H j"
      using j(2) True by (auto simp: data_kept_def apart_def nth_append)
    have n: "bufp (take j H) + length (bytes (H ! j)) \<le> buf_pnt_2 d \<or>
        buf_pnt_2 d + (skb_len k + SKB_EXTRA) \<le> bufp (take j H)"
      using j(2) True unfolding data_kept_def apart_def b length_stored_of[symmetric, of k d]
      by (auto simp: nth_append dest: spec[of _ "length H"])
    from k have "data_is (area d) (bufp (take j H)) (H ! j)" using assms(1) True by (simp add: holds_def)
    moreover have "bufp (take j H) + length (bytes (H ! j)) \<le> ring_start_2"
      using assms(1) True place_bounds(1)[of "take j H"] by (auto simp: holds_def good_def MAXPACKET_2_def dest!: nth_mem[of j])
    ultimately show ?thesis using D n unfolding old[OF True] data_is_def by auto
  next
    case False
    then have j: "j = length H" using j(1) by simp
    have "area ?d (bufp H + i) = bytes ?p ! i" if "i < skb_len k + SKB_EXTRA" for i
    proof -
      have "bufp H + i < ring_start_2" using that size bd(1) b by simp
      then show ?thesis using D[of "bufp H + i"] that by (simp add: b stored_of_def)
    qed
    then show ?thesis unfolding j new data_is_def length_stored_of by simp
  qed
  have "(if wraps k d then 0 else buf_pnt_2 d + skb_len k + SKB_EXTRA) = bufp ?H"
    unfolding turns place_snoc length_stored_of b by simp
  then have "area ?d = put64 tail_start_2 (of_nat (bufp ?H)) (written k d)" unfolding hook_fields by (rule arg_cong)
  moreover have "bufp ?H < 2 ^ 64" using place_bounds(1)[of ?H] unfolding layout by (rule le_less_trans) simp
  ultimately have tail: "unat (u64 (area ?d) tail_start_2) = bufp ?H" by (simp only: unat_u64_put64)
  have first: "\<exists>q. u16 (area ?d) ring_start_2 = of_nat (if entp ?H = 0 then loopp ?H - 1 else loopp ?H) OR flags q"
  proof (cases "entp H = 0")
    case True
    have "u16 (area ?d) ring_start_2 = of_nat (loopp H) OR flags ?p" using R(1)[of 0] True b by (simp add: flags_stored_of)
    then show ?thesis by (auto simp: True)
  next
    case False
    then have "H \<noteq> []" by auto
    then obtain q where "u16 (area d) ring_start_2 = of_nat (loopp H) OR flags q" using assms(1) False by (auto simp: holds_def)
    then have "u16 (area ?d) ring_start_2 = of_nat (loopp H) OR flags q" using R(1)[of 0] False b by simp
    then show ?thesis by auto
  qed
  have good: "good ?p" using assms(2) by (simp add: good_def frame_fits_def length_stored_of)
  show ?thesis unfolding holds_def
    using assms(1)[unfolded holds_def] good ent dat tail first by (simp add: hook_fields turns b length_stored_of add.assoc)
qed

section \<open>Moments\<close>

text \<open>The reader does not take the lock of the driver, so it may see the area at any moment between two stores.
  A moment carries how many packets are accounted for in the write pointer, in the words of the entries
  and in their lengths. \<open>moments c ks d\<close> are those while the packets \<open>ks\<close> come, after \<open>c\<close> earlier ones.\<close>

record moment =
  tails :: nat
  words :: nat
  lengths :: nat
  mem :: memory

fun moments :: "nat \<Rightarrow> skb list \<Rightarrow> hook \<Rightarrow> moment list" where
  "moments c [] d = [\<lparr>tails = c, words = c, lengths = c, mem = area d\<rparr>]"
| "moments c (k # ks) d =
     map (\<lambda>i. \<lparr>tails = c, words = c, lengths = c, mem = copied k i d\<rparr>) [0..<Suc ((skb_len k + SKB_EXTRA) div 8)] @
     [\<lparr>tails = c, words = Suc c, lengths = c, mem = flagged k d\<rparr>,
      \<lparr>tails = c, words = Suc c, lengths = Suc c, mem = written k d\<rparr>] @
     moments (Suc c) ks (netif_rx_hook_2 k d)"

fun stored_list :: "skb list \<Rightarrow> hook \<Rightarrow> stored list" where
  "stored_list [] d = []"
| "stored_list (k # ks) d = stored_of k d # stored_list ks (netif_rx_hook_2 k d)"

text \<open>The pointer, the words and the lengths at a moment are those after so many packets.\<close>

definition words_of :: "memory \<Rightarrow> hook \<Rightarrow> bool" where
  "words_of m d \<longleftrightarrow> (\<forall>r < ring_size_2. u16 m (ring_start_2 + r * RING_ENTRY_LENGTH) =
     u16 (area d) (ring_start_2 + r * RING_ENTRY_LENGTH))"

definition lengths_of :: "memory \<Rightarrow> hook \<Rightarrow> bool" where
  "lengths_of m d \<longleftrightarrow> (\<forall>r < ring_size_2. u16 m (ring_start_2 + r * RING_ENTRY_LENGTH + 4) =
     u16 (area d) (ring_start_2 + r * RING_ENTRY_LENGTH + 4))"

definition observed :: "stored list \<Rightarrow> moment \<Rightarrow> bool" where
  "observed H x \<longleftrightarrow> tails x \<le> words x \<and> tails x \<le> lengths x \<and> words x \<le> length H \<and> lengths x \<le> length H \<and>
     unat (u64 (mem x) tail_start_2) = bufp (take (tails x) H) \<and>
     (\<exists>d. holds (take (words x) H) d \<and> words_of (mem x) d) \<and>
     (\<exists>d. holds (take (lengths x) H) d \<and> lengths_of (mem x) d)"

lemma u64_cong: "(\<And>i. i < 8 \<Longrightarrow> m (a + i) = m' (a + i)) \<Longrightarrow> u64 m a = u64 m' a"
  unfolding u64_def using le_cong[of 8 m a m'] by simp

lemma copied_ring:
  assumes "frame_fits k" "buf_pnt_2 d \<le> buf_end_2" "i \<le> (skb_len k + SKB_EXTRA) div 8" "ring_start_2 \<le> x"
  shows "copied k i d x = area d x"
proof -
  have "8 * ((skb_len k + SKB_EXTRA) div 8) \<le> 9100" using assms(1) by (auto simp: frame_fits_def MAXPACKET_2_def)
  then have "\<not> x < buf_pnt_2 d + 8 * i" using assms(2-4) by simp
  then show ?thesis by (simp add: copied_def)
qed

lemma during_packet:
  assumes "frame_fits k" "buf_pnt_2 d \<le> buf_end_2" "ring_pnt_2 d < ring_size_2"
  shows "i \<le> (skb_len k + SKB_EXTRA) div 8 \<Longrightarrow> u64 (copied k i d) tail_start_2 = u64 (area d) tail_start_2"
    "i \<le> (skb_len k + SKB_EXTRA) div 8 \<Longrightarrow> words_of (copied k i d) d"
    "i \<le> (skb_len k + SKB_EXTRA) div 8 \<Longrightarrow> lengths_of (copied k i d) d"
    "u64 (flagged k d) tail_start_2 = u64 (area d) tail_start_2" "words_of (flagged k d) (netif_rx_hook_2 k d)"
    "lengths_of (flagged k d) d"
    "u64 (written k d) tail_start_2 = u64 (area d) tail_start_2" "words_of (written k d) (netif_rx_hook_2 k d)"
    "lengths_of (written k d) (netif_rx_hook_2 k d)"
proof -
  let ?e = "\<lambda>r. ring_start_2 + r * RING_ENTRY_LENGTH" and ?c = "(skb_len k + SKB_EXTRA) div 8"
  have c: "copied k i d x = area d x" if "i \<le> ?c" "ring_start_2 \<le> x" for i x
    by (rule copied_ring[OF assms(1,2) that])
  have c16: "u16 (copied k i d) x = u16 (area d) x" if "i \<le> ?c" "ring_start_2 \<le> x" for i x
    using c[OF that(1)] that(2) by (intro u16_cong) simp_all
  show "i \<le> ?c \<Longrightarrow> u64 (copied k i d) tail_start_2 = u64 (area d) tail_start_2" by (intro u64_cong c) simp_all
  show "i \<le> ?c \<Longrightarrow> words_of (copied k i d) d" "i \<le> ?c \<Longrightarrow> lengths_of (copied k i d) d"
    using c16 by (simp_all add: words_of_def lengths_of_def)
  have all: "u16 (area (copy_data k d)) x = u16 (area d) x" "area (copy_data k d) x = area d x" if "ring_start_2 \<le> x" for x
    using c16[OF order_refl that] c[OF order_refl that] by (simp_all add: copied_all)
  have apart: "r \<noteq> ring_pnt_2 d \<Longrightarrow> ?e r + 8 \<le> ?e (ring_pnt_2 d) \<or> ?e (ring_pnt_2 d) + 8 \<le> ?e r" for r
    by auto
  have flag: "u16 (flagged k d) (?e r + 4) = u16 (area d) (?e r + 4)" for r
    using apart[of r] all(1)[of "?e r + 4"] by (cases "r = ring_pnt_2 d") (auto simp: flagged_def u16_put16_other)
  have flag0: "u16 (flagged k d) (?e r) = (if r = ring_pnt_2 d then ring_loop_2 d OR masks k d else u16 (area d) (?e r))" for r
    using apart[of r] all(1)[of "?e r"] by (auto simp: flagged_def u16_put16 u16_put16_other)
  show "lengths_of (flagged k d) d" using flag by (simp add: lengths_of_def)
  show "words_of (flagged k d) (netif_rx_hook_2 k d)"
    using flag0 area_entry(1)[OF assms] by (simp add: words_of_def del: layout)
  show "u64 (flagged k d) tail_start_2 = u64 (area d) tail_start_2"
    using assms(3) all(2) by (intro u64_cong) (simp add: flagged_def put16_def put_le_other)
  moreover have "u64 (written k d) tail_start_2 = u64 (flagged k d) tail_start_2"
    using assms(3) by (intro u64_cong) (simp add: written_def put16_def put_le_other)
  ultimately show "u64 (written k d) tail_start_2 = u64 (area d) tail_start_2" by simp
  have tail: "u16 (area (netif_rx_hook_2 k d)) a = u16 (written k d) a" if "a + 2 \<le> tail_start_2" for a
    using that by (simp add: hook_fields u16_put64_other)
  show "words_of (written k d) (netif_rx_hook_2 k d)" "lengths_of (written k d) (netif_rx_hook_2 k d)"
    using tail by (simp_all add: words_of_def lengths_of_def)
qed

lemma moments_observed:
  assumes "holds H d" "list_all frame_fits ks" "x \<in> set (moments (length H) ks d)"
  shows "observed (H @ stored_list ks d) x"
  using assms
proof (induction ks arbitrary: H d)
  case Nil
  have "unat (u64 (area d) tail_start_2) = bufp H" using Nil.prems(1) by (simp add: holds_def del: layout)
  moreover have "words_of (area d) d" "lengths_of (area d) d" by (simp_all add: words_of_def lengths_of_def)
  ultimately show ?case using Nil.prems(1,3) by (auto simp: observed_def simp del: layout)
next
  case (Cons k ks)
  let ?p = "stored_of k d" and ?d = "netif_rx_hook_2 k d" and ?c = "(skb_len k + SKB_EXTRA) div 8"
  have fit: "frame_fits k" "list_all frame_fits ks" using Cons.prems(2) by simp_all
  have h: "holds (H @ [?p]) ?d" by (rule holds_packet[OF Cons.prems(1) fit(1)])
  have b: "buf_pnt_2 d \<le> buf_end_2" "ring_pnt_2 d < ring_size_2" "unat (u64 (area d) tail_start_2) = bufp H"
    using Cons.prems(1) place_bounds[of H] by (simp_all add: holds_def del: layout)
  note D = during_packet[OF fit(1) b(1,2)]
  let ?H = "H @ stored_list (k # ks) d"
  have tk: "take (length H) ?H = H" "take (Suc (length H)) ?H = H @ [?p]" by simp_all
  consider (copy) "x \<in> (\<lambda>i. \<lparr>tails = length H, words = length H, lengths = length H, mem = copied k i d\<rparr>) ` set [0..<Suc ?c]"
    | (flag) "x = \<lparr>tails = length H, words = Suc (length H), lengths = length H, mem = flagged k d\<rparr>"
    | (entry) "x = \<lparr>tails = length H, words = Suc (length H), lengths = Suc (length H), mem = written k d\<rparr>"
    | (later) "x \<in> set (moments (length (H @ [?p])) ks ?d)"
    using Cons.prems(3) unfolding moments.simps set_append set_map by (auto simp del: upt_Suc set_upt)
  then show ?case
  proof cases
    case copy
    then obtain i where i: "i \<le> ?c" "x = \<lparr>tails = length H, words = length H, lengths = length H, mem = copied k i d\<rparr>"
      by (elim imageE) (simp del: upt_Suc add: less_Suc_eq_le)
    then show ?thesis using D(1-3)[OF i(1)] Cons.prems(1) b(3) unfolding observed_def
      by (auto simp: tk simp del: layout stored_list.simps)
  next
    case flag
    then show ?thesis using D(4-6) Cons.prems(1) h b(3) unfolding observed_def
      by (auto simp: tk simp del: layout)
  next
    case entry
    then show ?thesis using D(7-9) h b(3) unfolding observed_def
      by (auto simp: tk simp del: layout)
  next
    case later
    from Cons.IH[OF h fit(2) this] show ?thesis by simp
  qed
qed

lemma moments_bounds: "x \<in> set (moments c ks d) \<Longrightarrow> c \<le> tails x"
  by (induction ks arbitrary: c d) (fastforce simp del: upt_Suc)+

lemma moments_sorted: "sorted (map tails (moments c ks d))"
proof (induction ks arbitrary: c d)
  case (Cons k ks)
  have "sorted (map (\<lambda>i. c) ns)" for ns :: "nat list" by (induction ns) auto
  moreover have "c \<le> tails x" if "x \<in> set (moments (Suc c) ks (netif_rx_hook_2 k d))" for x
    using moments_bounds[OF that] by simp
  ultimately show ?case using Cons.IH by (auto simp: sorted_append comp_def simp del: upt_Suc)
qed simp

text \<open>The data of a packet that none of them writes over are there at every moment.\<close>

lemma moments_data:
  assumes "holds H d" "list_all frame_fits ks" "x \<in> set (moments (length H) ks d)" "q < length H"
    and "data_kept (H @ stored_list ks d) q"
  shows "data_is (mem x) (bufp (take q H)) (H ! q)"
  using assms
proof (induction ks arbitrary: H d)
  case Nil
  then show ?case by (auto simp: holds_def simp del: layout)
next
  case (Cons k ks)
  let ?p = "stored_of k d" and ?d = "netif_rx_hook_2 k d" and ?c = "(skb_len k + SKB_EXTRA) div 8"
  let ?a = "bufp (take q H)" and ?n = "length (bytes (H ! q))"
  have fit: "frame_fits k" "list_all frame_fits ks" using Cons.prems(2) by simp_all
  have h: "holds (H @ [?p]) ?d" by (rule holds_packet[OF Cons.prems(1) fit(1)])
  have b: "buf_pnt_2 d = bufp H" "ring_pnt_2 d = entp H" using Cons.prems(1) by (simp_all add: holds_def)
  have "apart (H @ stored_list (k # ks) d) q (length H)"
    using Cons.prems(4,5) by (simp add: data_kept_def)
  then have far: "?a + ?n \<le> bufp H \<or> bufp H + (skb_len k + SKB_EXTRA) \<le> ?a"
    using Cons.prems(4) by (simp add: apart_def length_stored_of nth_append)
  have kept: "data_kept H q"
    using Cons.prems(4,5) by (auto simp: data_kept_def apart_def nth_append)
  have now: "data_is (area d) ?a (H ! q)" using Cons.prems(1,4) kept by (simp add: holds_def)
  have "8 * ?c = skb_len k + SKB_EXTRA" using fit(1) by (auto simp: frame_fits_def)
  then have copied: "copied k i d (?a + j) = area d (?a + j)" if "i \<le> ?c" "j < ?n" for i j
    using far that by (auto simp: copied_def b)
  have "?a + ?n \<le> ring_start_2"
    using Cons.prems(1,4) place_bounds(1)[of "take q H"] by (auto simp: holds_def good_def MAXPACKET_2_def dest!: nth_mem[of q])
  then have stored: "flagged k d (?a + j) = area d (?a + j)" "written k d (?a + j) = area d (?a + j)" if "j < ?n" for j
    using that copied[OF order_refl that]
    by (simp_all add: flagged_def written_def put16_def put_le_other copied_all)
  have during: "data_is (copied k i d) ?a (H ! q)" "data_is (flagged k d) ?a (H ! q)" "data_is (written k d) ?a (H ! q)"
    if "i \<le> ?c" for i
    using now copied[OF that] stored by (simp_all add: data_is_def)
  consider (copy) "x \<in> (\<lambda>i. \<lparr>tails = length H, words = length H, lengths = length H, mem = copied k i d\<rparr>) ` set [0..<Suc ?c]"
    | (store) "mem x = flagged k d \<or> mem x = written k d"
    | (later) "x \<in> set (moments (length (H @ [?p])) ks ?d)"
    using Cons.prems(3) unfolding moments.simps set_append set_map by (auto simp del: upt_Suc set_upt)
  then show ?case
  proof cases
    case copy
    then obtain i where "i \<le> ?c" "mem x = copied k i d" by (elim imageE) (simp del: upt_Suc add: less_Suc_eq_le)
    then show ?thesis using during(1) by simp
  next
    case store
    then show ?thesis using during(2,3)[OF le0] by auto
  next
    case later
    have "data_is (mem x) (bufp (take q (H @ [?p]))) ((H @ [?p]) ! q)"
      by (rule Cons.IH[OF h fit(2) later]) (use Cons.prems(4,5) in simp_all)
    then show ?thesis using Cons.prems(4) by (simp add: nth_append)
  qed
qed

declare moments.simps [simp del]

end
