(* ===== verification/Spy_Events.thy ===== *)
theory Spy_Events
  imports Eth_Ring
begin

text \<open>
  What the reader finds while the driver goes on writing.
\<close>

unbundle bit_operations_syntax

section \<open>Histories\<close>

abbreviation arrive :: "skb list \<Rightarrow> hook \<Rightarrow> hook" where
  "arrive \<equiv> fold netif_rx_hook_2"

lemma holds_packets: "holds H d \<Longrightarrow> list_all frame_fits ks \<Longrightarrow> holds (H @ stored_list ks d) (arrive ks d)"
proof (induction ks arbitrary: H d)
  case (Cons k ks)
  then show ?case using Cons.IH[OF holds_packet[of H d k]] by simp
qed simp

lemma stored_list_append: "stored_list (ks @ ls) d = stored_list ks d @ stored_list ls (arrive ks d)"
  by (induction ks arbitrary: d) simp_all

lemma loopp_mono: "loopp H \<le> loopp (H @ K)"
proof (cases K)
  case (Cons p K')
  then show ?thesis using later[of H p K'] by auto
qed simp

lemma place_Suc:
  assumes "n < length H"
  shows "bufp (take (Suc n) H) = (if turns (take n H) (H ! n) then 0 else bufp (take n H) + length (bytes (H ! n)))"
    "entp (take (Suc n) H) = (if turns (take n H) (H ! n) then 0 else entp (take n H) + 1)"
    "loopp (take (Suc n) H) = (if turns (take n H) (H ! n) then loopp (take n H) + 1 else loopp (take n H))"
  by (simp_all add: take_Suc_conv_app_nth[OF assms])

section \<open>Entries\<close>

lemma bit_small: "l < 2 ^ 14 \<Longrightarrow> bit (of_nat l :: 16 word) i \<Longrightarrow> i < 14"
proof -
  assume l: "l < 2 ^ 14" and b: "bit (of_nat l :: 16 word) i"
  have "take_bit 14 l = l" using l by (simp add: take_bit_nat_eq_self_iff)
  then have "bit (take_bit 14 l) i" using b by (simp add: bit_simps)
  then show "i < 14" by (simp add: bit_take_bit_iff)
qed

lemma of_nat_small: "l < 2 ^ 14 \<Longrightarrow> uint (of_nat l :: 16 word) = int l"
  by (simp add: uint_nat unat_of_nat)

lemma small_mask: "l < 2 ^ 14 \<Longrightarrow> (of_nat l :: 16 word) AND 0x3fff = of_nat l"
proof -
  assume "l < 2 ^ 14"
  then have "take_bit 14 (of_nat l :: 16 word) = of_nat l" by (simp add: take_bit_of_nat take_bit_nat_eq_self)
  moreover have "(0x3fff :: 16 word) = mask 14" by (simp add: mask_eq_exp_minus_1)
  ultimately show ?thesis by (simp only: take_bit_eq_mask)
qed

lemma entry_bits:
  assumes "l < 2 ^ 14"
  shows "(of_nat l OR flags p) AND 0x8000 = (if lost p then 0x8000 else 0)"
    "(of_nat l OR flags p) AND 0x4000 = (if final p then 0x4000 else 0)"
    "(of_nat l OR flags p) AND 0x3fff = of_nat l" "0x3fff AND (of_nat l OR flags p) = of_nat l"
proof -
  have 1: "(of_nat l :: 16 word) AND 0x8000 = 0" "(of_nat l :: 16 word) AND 0x4000 = 0"
  proof -
    have "(of_nat l AND 0x3fff) AND (0x8000 :: 16 word) = 0" "(of_nat l AND 0x3fff) AND (0x4000 :: 16 word) = 0"
      by (simp_all add: and.assoc)
    then show "(of_nat l :: 16 word) AND 0x8000 = 0" "(of_nat l :: 16 word) AND 0x4000 = 0"
      by (simp_all add: small_mask[OF assms])
  qed
  show "(of_nat l OR flags p) AND 0x8000 = (if lost p then 0x8000 else 0)"
    "(of_nat l OR flags p) AND 0x4000 = (if final p then 0x4000 else 0)"
    "(of_nat l OR flags p) AND 0x3fff = of_nat l"
    by (simp_all add: flags_def bit.conj_disj_distrib2 1 small_mask[OF assms])
  then show "0x3fff AND (of_nat l OR flags p) = of_nat l" by (simp add: and.commute)
qed

text \<open>The entry the reader is at is that of its next packet, or one of a later loop.\<close>

lemma last_at_entry:
  assumes "n < length H"
  shows "\<exists>j. n \<le> j \<and> j < length H \<and> entp (take j H) = entp (take n H) \<and> entry_kept H j"
proof -
  let ?J = "{j. j < length H \<and> entp (take j H) = entp (take n H)}"
  have f: "finite ?J" "n \<in> ?J" using assms by simp_all
  have "Max ?J \<in> ?J" using f by (intro Max_in) auto
  moreover have "n \<le> Max ?J" using f by simp
  moreover have "entry_kept H (Max ?J)"
  proof -
    have "entp (take k H) \<noteq> entp (take (Max ?J) H)" if "Max ?J < k" "k < length H" for k
    proof
      assume "entp (take k H) = entp (take (Max ?J) H)"
      then have "k \<in> ?J" using \<open>Max ?J \<in> ?J\<close> that by simp
      then show False using Max_ge[OF f(1)] that(1) by fastforce
    qed
    then show ?thesis by (simp add: entry_kept_def)
  qed
  ultimately show ?thesis by auto
qed

lemma entry_read:
  assumes "holds H d" "n < length H" "loopp H < 2 ^ 14"
  obtains j where "n \<le> j" "j < length H" "entp (take j H) = entp (take n H)" "entry_kept H j"
    "j = n \<or> loopp (take n H) < loopp (take j H)" "loopp (take j H) < 2 ^ 14"
    "u16 (area d) (ring_start + entp (take n H) * RING_ENTRY_LENGTH) = of_nat (loopp (take j H)) OR flags (H ! j)"
    "unat (u16 (area d) (ring_start + entp (take n H) * RING_ENTRY_LENGTH + 4)) = length (bytes (H ! j))"
proof -
  obtain j where j: "n \<le> j" "j < length H" "entp (take j H) = entp (take n H)" "entry_kept H j"
    using last_at_entry[OF assms(2)] by blast
  have e: "entry_is (area d) (entp (take n H)) (loopp (take j H)) (H ! j)" using assms(1) j by (auto simp: holds_def)
  have "length (bytes (H ! j)) < 2 ^ 16" using assms(1) nth_mem[OF j(2)] by (auto simp: holds_def good_def MAXPACKET_2_def)
  then have l: "unat (of_nat (length (bytes (H ! j))) :: 16 word) = length (bytes (H ! j))" by (simp add: unat_of_nat)
  have "loopp (take j H) \<le> loopp H" using loopp_mono[of "take j H" "drop j H"] by simp
  then have s: "loopp (take j H) < 2 ^ 14" using assms(3) by simp
  have "j = n \<or> loopp (take n H) < loopp (take j H)" using later_take[of n j H] j(1-3) by (cases "j = n") auto
  then show ?thesis using that[of j] j s e l unfolding entry_is_def by simp
qed

section \<open>One round\<close>

text \<open>The reader has taken the first \<open>n\<close> packets.\<close>

definition in_step :: "stored list \<Rightarrow> nat \<Rightarrow> spy \<Rightarrow> bool" where
  "in_step H n s \<longleftrightarrow> n \<le> length H \<and> buf_pnt s = bufp (take n H) \<and> ring_pnt s = entp (take n H) \<and>
     ring_loop s = of_nat (loopp (take n H))"

text \<open>The locals of a round at an entry of packet \<open>p\<close> in loop \<open>l\<close>.\<close>

definition seen :: "nat \<Rightarrow> 16 word \<Rightarrow> nat \<Rightarrow> stored \<Rightarrow> spy \<Rightarrow> spy" where
  "seen w first l p s = s\<lparr>buf_pnt_kern := w, iloop := 0, pmissing := (if lost p then 0x8000 else 0),
     end_event := (if final p then 0x4000 else 0), ring_loop_kern := of_nat l, ring_loop_kern2 := first\<rparr>"

definition overtaken :: "spy \<Rightarrow> bool" where
  "overtaken s \<longleftrightarrow> (uint (ring_loop_kern2 s) = uint (ring_loop s) + 1 \<and> buf_pnt s \<le> buf_pnt_kern s) \<or>
     uint (ring_loop_kern2 s) > uint (ring_loop s) + 1"

lemma round_at:
  assumes "u16 (at_entry x) (ring_start + ring_pnt s * RING_ENTRY_LENGTH) = of_nat l OR flags p" "l < 2 ^ 14"
    and "iloop s \<le> 20000" "buf_pnt s \<noteq> unat (u64 (at_pointer x) tail_start_2)"
    and "f = 0x3fff AND u16 (at_first x) ring_start" "z = seen (unat (u64 (at_pointer x) tail_start_2)) f l p s"
  shows "readDDU_round x s =
    (if overtaken z
     then (True, resync (z\<lparr>bufferOverwriteCount := bufferOverwriteCount s + 1,
                           theErrorFlag := theErrorFlag s OR BufferOverwrite\<rparr>))
     else if of_nat l \<noteq> ring_loop s
     then (True, resync (z\<lparr>loopOverwriteCount := loopOverwriteCount s + 1,
                           theErrorFlag := theErrorFlag s OR LoopOverwrite\<rparr>))
     else take_packet (unat (u16 (at_length x) (ring_start + ring_pnt s * RING_ENTRY_LENGTH + 4))) z)"
proof -
  have t: "BIGPHYS_PAGES_2 * PAGE_SIZE - TAILPOS = tail_start_2" by (simp only: tail_start_2_def)
  have i: "\<not> iloop s > 20000" using assms(3) by simp
  define w where "w = u16 (at_entry x) (ring_start + ring_pnt s * RING_ENTRY_LENGTH)"
  obtain pm em where pe: "pm = (if lost p then 0x8000 else 0 :: 16 word)" "em = (if final p then 0x4000 else 0 :: 16 word)"
    by simp
  have w: "w AND 0x8000 = pm" "w AND 0x4000 = em" "w AND 0x3fff = of_nat l"
    by (simp_all only: w_def pe assms(1) entry_bits[OF assms(2)])
  have z: "s\<lparr>buf_pnt_kern := unat (u64 (at_pointer x) tail_start_2), iloop := 0,
      pmissing := pm, end_event := em, ring_loop_kern := of_nat l, ring_loop_kern2 := f\<rparr> = z"
    by (simp add: assms(6) seen_def pe)
  have k: "ring_loop_kern2 z = f" "ring_loop z = ring_loop s" "buf_pnt z = buf_pnt s"
    "buf_pnt_kern z = unat (u64 (at_pointer x) tail_start_2)" "ring_loop_kern z = of_nat l"
    "theErrorFlag z = theErrorFlag s" "bufferOverwriteCount z = bufferOverwriteCount s"
    "loopOverwriteCount z = loopOverwriteCount s"
    by (simp_all add: assms(6) seen_def)
  show ?thesis
  proof (cases "of_nat l = ring_loop s")
    case True
    show ?thesis unfolding readDDU_round_def t Let_def
      by (simp add: i assms(4) w_def[symmetric] w assms(5)[symmetric] z[unfolded True] True k overtaken_def del: layout)
  next
    case False
    show ?thesis unfolding readDDU_round_def t Let_def
      by (simp add: i assms(4) w_def[symmetric] w assms(5)[symmetric] z False k overtaken_def del: layout)
  qed
qed

text \<open>Bits of the error flag.\<close>

definition reported :: "16 word \<Rightarrow> spy \<Rightarrow> bool" where
  "reported f s \<longleftrightarrow> theErrorFlag s AND f \<noteq> 0"

lemmas flag_defs = EndOfEventMissing_def Timeout_def PacketsMissing_def LoopOverwrite_def BufferOverwrite_def Oversized_def

lemma and_bit: "(w :: 16 word) AND 2 ^ i \<noteq> 0 \<longleftrightarrow> bit w i"
  by (simp add: and_exp_eq_0_iff_not_bit)

lemma reported_bits:
  "reported EndOfEventMissing s \<longleftrightarrow> bit (theErrorFlag s) 0" "reported Timeout s \<longleftrightarrow> bit (theErrorFlag s) 1"
  "reported PacketsMissing s \<longleftrightarrow> bit (theErrorFlag s) 2" "reported LoopOverwrite s \<longleftrightarrow> bit (theErrorFlag s) 3"
  "reported BufferOverwrite s \<longleftrightarrow> bit (theErrorFlag s) 4" "reported Oversized s \<longleftrightarrow> bit (theErrorFlag s) 5"
  using and_bit[of "theErrorFlag s" 0] and_bit[of "theErrorFlag s" 1] and_bit[of "theErrorFlag s" 2]
    and_bit[of "theErrorFlag s" 3] and_bit[of "theErrorFlag s" 4] and_bit[of "theErrorFlag s" 5]
  by (simp_all add: reported_def flag_defs)

lemma flag_bits: "bit EndOfEventMissing i \<longleftrightarrow> i = 0" "bit Timeout i \<longleftrightarrow> i = 1" "bit PacketsMissing i \<longleftrightarrow> i = 2"
  "bit LoopOverwrite i \<longleftrightarrow> i = 3" "bit BufferOverwrite i \<longleftrightarrow> i = 4" "bit Oversized i \<longleftrightarrow> i = 5"
proof -
  have "bit (2 ^ n :: 16 word) i \<longleftrightarrow> i = n" if "n < 16" for n using that by (auto simp: bit_exp_iff)
  from this[of 0] this[of 1] this[of 2] this[of 3] this[of 4] this[of 5]
  show "bit EndOfEventMissing i \<longleftrightarrow> i = 0" "bit Timeout i \<longleftrightarrow> i = 1" "bit PacketsMissing i \<longleftrightarrow> i = 2"
    "bit LoopOverwrite i \<longleftrightarrow> i = 3" "bit BufferOverwrite i \<longleftrightarrow> i = 4" "bit Oversized i \<longleftrightarrow> i = 5"
    by (simp_all add: flag_defs)
qed

section \<open>Taking a packet\<close>

lemma move_on_fields:
  fixes l s
  defines "turn \<equiv> (end_event s = 0x4000 \<and> buf_pnt s + l > buf_eend) \<or> buf_pnt s + l > buf_end \<or> ring_pnt s + 1 \<ge> ring_size"
  shows "move_on l s = s\<lparr>buf_pnt := if turn then 0 else buf_pnt s + l, ring_pnt := if turn then 0 else ring_pnt s + 1,
    ring_loop := if turn then ring_loop s + 1 else ring_loop s\<rparr>"
  unfolding move_on_def Let_def by (simp add: turn_def del: layout)

lemma take_packet_fields:
  assumes "take_packet l s = (stop, t)"
  defines "turn \<equiv> (end_event s = 0x4000 \<and> buf_pnt s + l > buf_eend) \<or> buf_pnt s + l > buf_end \<or> ring_pnt s + 1 \<ge> ring_size"
  shows "stop \<longleftrightarrow> end_event s = 0x4000" "buf_pnt t = (if turn then 0 else buf_pnt s + l)"
    "ring_pnt t = (if turn then 0 else ring_pnt s + 1)" "ring_loop t = (if turn then ring_loop s + 1 else ring_loop s)"
    "packets t = packets s + 1" "buf_data t = (if packets s = 0 then buf_pnt s else buf_data s)"
    "read_len t = (if insideEventWithMissingPackets s \<or> pmissing s \<noteq> 0 then 0 else read_len s + int l)"
    "insideEventWithMissingPackets t \<longleftrightarrow> \<not> stop \<and> (insideEventWithMissingPackets s \<or> pmissing s \<noteq> 0)"
    "iloop t = iloop s"
    "bit (theErrorFlag t) i \<longleftrightarrow> (bit (theErrorFlag s) i \<or> (i = 5 \<and> read_len s + int l > int MAXEVENT_2) \<or>
       (i = 2 \<and> pmissing s \<noteq> 0)) \<and> \<not> (i = 0 \<and> stop)"
proof -
  define s1 where "s1 = (if packets s = 0 then s\<lparr>buf_data := buf_pnt s\<rparr> else s)"
  define s2 where "s2 = s1\<lparr>read_len := read_len s1 + int l\<rparr>"
  define s3 where "s3 = move_on l s2"
  define s4 where "s4 = s3\<lparr>packets := packets s3 + 1\<rparr>"
  define s5 where "s5 = (if read_len s4 > int MAXEVENT_2 then s4\<lparr>theErrorFlag := theErrorFlag s4 OR Oversized\<rparr> else s4)"
  define s6 where "s6 = (if insideEventWithMissingPackets s5 then s5\<lparr>read_len := 0\<rparr> else s5)"
  define s7 where "s7 = (if pmissing s6 \<noteq> 0
               then s6\<lparr>pmissingCount := pmissingCount s6 + 1, theErrorFlag := theErrorFlag s6 OR PacketsMissing,
                      insideEventWithMissingPackets := True, read_len := 0\<rparr> else s6)"
  have t: "(stop, t) = (if end_event s7 = 0x4000
         then (True, s7\<lparr>endEventCount := endEventCount s7 + 1, theErrorFlag := theErrorFlag s7 AND NOT EndOfEventMissing,
                       insideEventWithMissingPackets := False\<rparr>)
         else (False, s7))"
    unfolding assms(1)[symmetric] take_packet_def Let_def s7_def s6_def s5_def s4_def s3_def s2_def s1_def by (rule refl)
  have 1: "buf_pnt s1 = buf_pnt s" "ring_pnt s1 = ring_pnt s" "ring_loop s1 = ring_loop s" "packets s1 = packets s"
    "buf_data s1 = (if packets s = 0 then buf_pnt s else buf_data s)" "read_len s1 = read_len s" "iloop s1 = iloop s"
    "insideEventWithMissingPackets s1 = insideEventWithMissingPackets s" "pmissing s1 = pmissing s"
    "end_event s1 = end_event s" "theErrorFlag s1 = theErrorFlag s"
    by (simp_all add: s1_def)
  have 4: "buf_pnt s4 = (if turn then 0 else buf_pnt s + l)"
    "ring_pnt s4 = (if turn then 0 else ring_pnt s + 1)" "ring_loop s4 = (if turn then ring_loop s + 1 else ring_loop s)"
    "packets s4 = packets s + 1" "buf_data s4 = (if packets s = 0 then buf_pnt s else buf_data s)"
    "read_len s4 = read_len s + int l" "iloop s4 = iloop s" "pmissing s4 = pmissing s"
    "insideEventWithMissingPackets s4 = insideEventWithMissingPackets s"
    "end_event s4 = end_event s" "theErrorFlag s4 = theErrorFlag s"
    by (simp_all add: s4_def s3_def s2_def move_on_fields 1 turn_def del: layout)
  have 6: "buf_pnt s6 = buf_pnt s4" "ring_pnt s6 = ring_pnt s4" "ring_loop s6 = ring_loop s4" "packets s6 = packets s4"
    "buf_data s6 = buf_data s4" "iloop s6 = iloop s4" "pmissing s6 = pmissing s"
    "insideEventWithMissingPackets s6 = insideEventWithMissingPackets s" "end_event s6 = end_event s"
    "read_len s6 = (if insideEventWithMissingPackets s then 0 else read_len s + int l)"
    "bit (theErrorFlag s6) i \<longleftrightarrow> bit (theErrorFlag s) i \<or> (i = 5 \<and> read_len s + int l > int MAXEVENT_2)"
    using 4 by (auto simp: s6_def s5_def bit_or_iff flag_bits simp del: layout)
  have 7: "buf_pnt s7 = buf_pnt s4" "ring_pnt s7 = ring_pnt s4" "ring_loop s7 = ring_loop s4" "packets s7 = packets s4"
    "buf_data s7 = buf_data s4" "iloop s7 = iloop s4" "end_event s7 = end_event s"
    "insideEventWithMissingPackets s7 \<longleftrightarrow> insideEventWithMissingPackets s \<or> pmissing s \<noteq> 0"
    "read_len s7 = (if insideEventWithMissingPackets s \<or> pmissing s \<noteq> 0 then 0 else read_len s + int l)"
    "bit (theErrorFlag s7) i \<longleftrightarrow> bit (theErrorFlag s) i \<or> (i = 5 \<and> read_len s + int l > int MAXEVENT_2) \<or>
       (i = 2 \<and> pmissing s \<noteq> 0)"
    using 6 by (auto simp: s7_def bit_or_iff flag_bits simp del: layout)
  note final = t[unfolded 7(7)]
  show stop: "stop \<longleftrightarrow> end_event s = 0x4000" using final by (auto split: if_splits)
  show "buf_pnt t = (if turn then 0 else buf_pnt s + l)"
    "ring_pnt t = (if turn then 0 else ring_pnt s + 1)" "ring_loop t = (if turn then ring_loop s + 1 else ring_loop s)"
    "packets t = packets s + 1" "buf_data t = (if packets s = 0 then buf_pnt s else buf_data s)"
    "read_len t = (if insideEventWithMissingPackets s \<or> pmissing s \<noteq> 0 then 0 else read_len s + int l)"
    "insideEventWithMissingPackets t \<longleftrightarrow> \<not> stop \<and> (insideEventWithMissingPackets s \<or> pmissing s \<noteq> 0)" "iloop t = iloop s"
    using final 7 4 by (simp_all split: if_splits del: layout)
  show "bit (theErrorFlag t) i \<longleftrightarrow> (bit (theErrorFlag s) i \<or> (i = 5 \<and> read_len s + int l > int MAXEVENT_2) \<or>
       (i = 2 \<and> pmissing s \<noteq> 0)) \<and> \<not> (i = 0 \<and> stop)"
    using final 7(10) by (auto simp: bit_and_iff bit_not_iff flag_bits dest: bit_imp_le_length split: if_splits simp del: layout)
qed

text \<open>The loop of the packet in the first entry, after the packets \<open>H\<close>.\<close>

definition first_loop :: "stored list \<Rightarrow> nat" where
  "first_loop H = (if entp H = 0 then loopp H - 1 else loopp H)"

text \<open>The driver has come by the place of packet \<open>n\<close> again, or looks as if; \<open>x1\<close>, \<open>x2\<close> and \<open>x4\<close> are the moments when
  the write pointer, the word of the entry and that of the first entry were read.\<close>

definition passed :: "stored list \<Rightarrow> nat \<Rightarrow> moment \<Rightarrow> moment \<Rightarrow> moment \<Rightarrow> bool" where
  "passed H n x1 x2 x4 \<longleftrightarrow>
     (first_loop (take (words x4) H) = loopp (take n H) + 1 \<and> bufp (take n H) \<le> bufp (take (tails x1) H)) \<or>
     first_loop (take (words x4) H) > loopp (take n H) + 1 \<or>
     (\<exists>j. n < j \<and> j < words x2 \<and> entp (take j H) = entp (take n H) \<and> loopp (take n H) < loopp (take j H))"

text \<open>A packet is written into the entry of packet \<open>q\<close> between the moments \<open>x\<close>, when its word is read, and \<open>y\<close>, when
  its length is read.\<close>

definition torn :: "stored list \<Rightarrow> nat \<Rightarrow> moment \<Rightarrow> moment \<Rightarrow> bool" where
  "torn H q x y \<longleftrightarrow> (\<exists>p. q < p \<and> entp (take p H) = entp (take q H) \<and> words x \<le> p \<and> p < lengths y)"

lemma first_entry:
  assumes "holds H d" "H \<noteq> []" "loopp H < 2 ^ 14"
  shows "uint (0x3fff AND u16 (area d) ring_start) = int (first_loop H)"
proof -
  obtain p where p: "u16 (area d) ring_start_2 = of_nat (first_loop H) OR flags p"
    using assms(1,2) by (auto simp: holds_def first_loop_def simp del: layout)
  have "first_loop H < 2 ^ 14" using assms(3) by (auto simp: first_loop_def)
  then show ?thesis using entry_bits(4)[of "first_loop H" p] of_nat_small[of "first_loop H"] p by simp
qed

text \<open>The word and the length the reader takes at one entry, when it is not torn.\<close>

lemma entry_observed:
  assumes "observed H x2" "observed H x3" "n < words x2" "n < lengths x3" "loopp H < 2 ^ 14" "\<not> torn H n x2 x3"
  defines "e \<equiv> ring_start + entp (take n H) * RING_ENTRY_LENGTH"
  obtains j where "n \<le> j" "j < words x2" "entp (take j H) = entp (take n H)"
    "j = n \<or> loopp (take n H) < loopp (take j H)" "loopp (take j H) < 2 ^ 14"
    "u16 (mem x2) e = of_nat (loopp (take j H)) OR flags (H ! j)"
    "j = n \<Longrightarrow> unat (u16 (mem x3) (e + 4)) = length (bytes (H ! n))"
proof -
  obtain d2 where d2: "holds (take (words x2) H) d2" "words_of (mem x2) d2" "words x2 \<le> length H"
    using assms(1) by (auto simp: observed_def)
  obtain d3 where d3: "holds (take (lengths x3) H) d3" "lengths_of (mem x3) d3" "lengths x3 \<le> length H"
    using assms(2) by (auto simp: observed_def)
  have low: "loopp (take c H) < 2 ^ 14" for c using loopp_mono[of "take c H" "drop c H"] assms(5) by simp
  have tk: "take i (take c H) = take i H" "i < c \<Longrightarrow> take c H ! i = H ! i" if "i \<le> c" for i c
    using that by (simp_all add: min_def)
  have n: "n < length (take (words x2) H)" "n < length (take (lengths x3) H)" using assms(3,4) d2(3) d3(3) by simp_all
  obtain j where j: "n \<le> j" "j < words x2" "entry_kept (take (words x2) H) j" "entp (take j H) = entp (take n H)"
    "j = n \<or> loopp (take n H) < loopp (take j H)" "loopp (take j H) < 2 ^ 14"
    "u16 (area d2) e = of_nat (loopp (take j H)) OR flags (H ! j)"
    by (rule entry_read[OF d2(1) n(1) low]) (use assms(3) in \<open>simp add: tk e_def\<close>)
  obtain i where i: "n \<le> i" "i < lengths x3" "entp (take i H) = entp (take n H)"
    "unat (u16 (area d3) (e + 4)) = length (bytes (H ! i))"
    by (rule entry_read[OF d3(1) n(2) low]) (use assms(4) in \<open>simp add: tk e_def\<close>)
  have same: "i = n" if "j = n"
  proof (rule ccontr)
    assume "i \<noteq> n"
    then have "n < i" using i(1) by simp
    moreover have "\<not> i < words x2"
    proof
      assume w: "i < words x2"
      then have "entp (take i (take (words x2) H)) \<noteq> entp (take j (take (words x2) H))"
        using j(3) \<open>n < i\<close> d2(3) unfolding that entry_kept_def by (auto simp del: take_take)
      then show False using w \<open>n < i\<close> i(3) by (simp add: that tk)
    qed
    ultimately show False using assms(6) i(2,3) by (auto simp: torn_def)
  qed
  have e: "u16 (mem x2) e = u16 (area d2) e" "u16 (mem x3) (e + 4) = u16 (area d3) (e + 4)"
    using d2(2) d3(2) place_bounds(2)[of "take n H"] by (simp_all add: words_of_def lengths_of_def e_def)
  show ?thesis using that[of j] j i(4) same unfolding e by auto
qed

lemma round_cases:
  assumes "observed H x1" "observed H x2" "observed H x3" "observed H x4"
    and "tails x1 \<le> tails x2" "tails x1 \<le> tails x3" "tails x1 \<le> tails x4"
    and "in_step H n s" "n \<le> tails x1" "loopp H < 2 ^ 14" "\<not> torn H n x2 x3"
    and "readDDU_round \<lparr>at_pointer = mem x1, at_entry = mem x2, at_length = mem x3, at_first = mem x4\<rparr> s = (stop, t)"
  obtains
    (time) "iloop s > 20000" "stop" "t = s\<lparr>buf_pnt_kern := bufp (take (tails x1) H), timeout := 1,
      timeoutCount := timeoutCount s + 1, theErrorFlag := theErrorFlag s OR Timeout\<rparr>"
  | (idle) "iloop s \<le> 20000" "\<not> stop" "bufp (take (tails x1) H) = bufp (take n H)"
      "t = s\<lparr>buf_pnt_kern := bufp (take (tails x1) H), iloop := iloop s + 1\<rparr>"
  | (over) "stop" "n < tails x1" "passed H n x1 x2 x4" "bit (theErrorFlag t) 3 \<or> bit (theErrorFlag t) 4"
  | (taken) f where "n < tails x1"
      "take_packet (length (bytes (H ! n))) (seen (bufp (take (tails x1) H)) f (loopp (take n H)) (H ! n) s) = (stop, t)"
proof -
  let ?b = "bufp (take (tails x1) H)" and ?x = "\<lparr>at_pointer = mem x1, at_entry = mem x2, at_length = mem x3, at_first = mem x4\<rparr>"
  have tail: "unat (u64 (mem x1) tail_start_2) = ?b" using assms(1) by (simp add: observed_def del: layout)
  have t: "BIGPHYS_PAGES_2 * PAGE_SIZE - TAILPOS = tail_start_2" by (simp only: tail_start_2_def)
  have s: "buf_pnt s = bufp (take n H)" "ring_pnt s = entp (take n H)" "ring_loop s = of_nat (loopp (take n H))"
    using assms(8) by (simp_all add: in_step_def)
  note r = assms(12)[unfolded readDDU_round_def look.simps t tail Let_def]
  consider "iloop s > 20000" | "iloop s \<le> 20000" "?b = bufp (take n H)" | "iloop s \<le> 20000" "?b \<noteq> bufp (take n H)"
    by linarith
  then show ?thesis
  proof cases
    case 1
    then show ?thesis using r time by simp
  next
    case 2
    then show ?thesis using r idle s by simp
  next
    case 3
    have "n \<noteq> tails x1" using 3(2) by auto
    then have n: "n < tails x1" "n < words x2" "n < lengths x3" "0 < words x4"
      using assms(2-7,9) by (auto simp: observed_def)
    obtain d4 where d4: "holds (take (words x4) H) d4" "words_of (mem x4) d4" "words x4 \<le> length H"
      using assms(4) by (auto simp: observed_def)
    obtain j where j: "n \<le> j" "j < words x2" "entp (take j H) = entp (take n H)"
      "j = n \<or> loopp (take n H) < loopp (take j H)" "loopp (take j H) < 2 ^ 14"
      "u16 (mem x2) (ring_start + entp (take n H) * RING_ENTRY_LENGTH) = of_nat (loopp (take j H)) OR flags (H ! j)"
      "j = n \<Longrightarrow> unat (u16 (mem x3) (ring_start + entp (take n H) * RING_ENTRY_LENGTH + 4)) = length (bytes (H ! n))"
      using entry_observed[OF assms(2,3) n(2,3) assms(10,11)] by metis
    have low: "loopp (take c H) < 2 ^ 14" for c using loopp_mono[of "take c H" "drop c H"] assms(10) by simp
    let ?f = "0x3fff AND u16 (mem x4) ring_start" and ?F = "first_loop (take (words x4) H)"
    let ?z = "seen ?b ?f (loopp (take j H)) (H ! j) s"
    have "u16 (mem x4) ring_start = u16 (area d4) ring_start"
      using d4(2) unfolding words_of_def by (auto dest: spec[of _ 0])
    then have f: "uint ?f = int ?F" using first_entry[OF d4(1) _ low] n(4) d4(3) by (simp del: layout) fastforce
    have ln: "uint (ring_loop s) = int (loopp (take n H))" unfolding s by (rule of_nat_small[OF low])
    have ov: "overtaken ?z \<longleftrightarrow> (?F = loopp (take n H) + 1 \<and> bufp (take n H) \<le> ?b) \<or> ?F > loopp (take n H) + 1"
      using f ln s by (auto simp: overtaken_def seen_def)
    have eqv: "of_nat (loopp (take j H)) = ring_loop s \<longleftrightarrow> loopp (take j H) = loopp (take n H)"
      using ln of_nat_small[OF j(5)] s by (metis of_nat_eq_iff)
    have R: "(stop, t) = (if overtaken ?z
       then (True, resync (?z\<lparr>bufferOverwriteCount := bufferOverwriteCount s + 1,
                           theErrorFlag := theErrorFlag s OR BufferOverwrite\<rparr>))
       else if of_nat (loopp (take j H)) \<noteq> ring_loop s
       then (True, resync (?z\<lparr>loopOverwriteCount := loopOverwriteCount s + 1,
                           theErrorFlag := theErrorFlag s OR LoopOverwrite\<rparr>))
       else take_packet (unat (u16 (mem x3) (ring_start + entp (take n H) * RING_ENTRY_LENGTH + 4))) ?z)"
      using round_at[of ?x s "loopp (take j H)" "H ! j" ?f ?z] 3 j(5,6) assms(12) unfolding s look.simps tail by simp
    show ?thesis
    proof (cases "overtaken ?z \<or> loopp (take j H) \<noteq> loopp (take n H)")
      case True
      have "passed H n x1 x2 x4"
      proof (cases "overtaken ?z")
        case True
        then show ?thesis using ov unfolding passed_def by blast
      next
        case False
        then have "loopp (take n H) < loopp (take j H)" "n < j" using True j(1,4) by (cases "n = j"; auto)+
        then show ?thesis using j(2,3) by (auto simp: passed_def)
      qed
      moreover have "stop" "bit (theErrorFlag t) 3 \<or> bit (theErrorFlag t) 4"
        using R True eqv by (auto simp: resync_def bit_or_iff flag_bits split: if_splits)
      ultimately show ?thesis using over n by blast
    next
      case False
      then have "j = n" using j(4) by auto
      then show ?thesis using R False eqv j(7) taken[of ?f] n by simp
    qed
  qed
qed

section \<open>A call\<close>

text \<open>What a call has seen of the packets \<open>cs\<close>, when it began inside an event with missing packets or not.\<close>

definition size_of :: "stored list \<Rightarrow> nat" where
  "size_of cs = sum_list (map (\<lambda>p. length (bytes p)) cs)"

definition defect :: "bool \<Rightarrow> stored list \<Rightarrow> bool" where
  "defect F cs \<longleftrightarrow> F \<or> (\<exists>p \<in> set cs. lost p)"

definition complete :: "stored list \<Rightarrow> bool" where
  "complete cs \<longleftrightarrow> cs \<noteq> [] \<and> final (List.last cs)"

definition span :: "stored list \<Rightarrow> nat \<Rightarrow> nat \<Rightarrow> stored list" where
  "span H n m = take m (drop n H)"

definition tallied :: "stored list \<Rightarrow> nat \<Rightarrow> bool \<Rightarrow> nat \<Rightarrow> spy \<Rightarrow> bool" where
  "tallied H n F m s \<longleftrightarrow> in_step H (n + m) s \<and> (\<forall>p \<in> set (butlast (span H n m)). \<not> final p) \<and>
     read_len s = (if defect F (span H n m) then 0 else int (size_of (span H n m))) \<and>
     (bit (theErrorFlag s) 0 \<longleftrightarrow> \<not> complete (span H n m)) \<and>
     (bit (theErrorFlag s) 2 \<longleftrightarrow> (\<exists>p \<in> set (span H n m). lost p)) \<and>
     \<not> bit (theErrorFlag s) 3 \<and> \<not> bit (theErrorFlag s) 4 \<and>
     (\<not> defect F (span H n m) \<longrightarrow> (bit (theErrorFlag s) 5 \<longleftrightarrow> size_of (span H n m) > MAXEVENT_2)) \<and>
     (insideEventWithMissingPackets s \<longleftrightarrow> \<not> complete (span H n m) \<and> defect F (span H n m)) \<and>
     packets s = of_nat m \<and> (0 < m \<and> m < 2 ^ 16 \<longrightarrow> buf_data s = bufp (take n H))"

text \<open>The loop goes on while the end has not come.\<close>

definition reading :: "stored list \<Rightarrow> nat \<Rightarrow> bool \<Rightarrow> nat \<Rightarrow> spy \<Rightarrow> bool" where
  "reading H n F m s \<longleftrightarrow> tallied H n F m s \<and> \<not> complete (span H n m) \<and> \<not> bit (theErrorFlag s) 1 \<and>
     0 \<le> iloop s \<and> iloop s \<le> 20001"

definition returned :: "stored list \<Rightarrow> nat \<Rightarrow> bool \<Rightarrow> nat \<Rightarrow> spy \<Rightarrow> bool" where
  "returned H n F m s \<longleftrightarrow> tallied H n F m s \<and> (bit (theErrorFlag s) 1 \<longleftrightarrow> \<not> complete (span H n m))"

lemma span_append: "n + m \<le> length H \<Longrightarrow> span (H @ X) n m = span H n m"
  by (simp add: span_def)

lemma span_Suc: "n + m < length H \<Longrightarrow> span H n (Suc m) = span H n m @ [H ! (n + m)]"
  by (simp add: span_def take_Suc_conv_app_nth)

lemma reading_start:
  assumes "in_step H n s"
  shows "reading H n (insideEventWithMissingPackets s) 0 (read_start s)"
  using assms by (simp add: reading_def tallied_def in_step_def span_def read_start_def size_of_def defect_def complete_def
      flag_bits)

lemma tallied_idle: "tallied H n F m s \<Longrightarrow> tallied H n F m (s\<lparr>buf_pnt_kern := w, iloop := i\<rparr>)"
  by (simp add: tallied_def in_step_def)

lemma tallied_timeout:
  "tallied H n F m s \<Longrightarrow> tallied H n F m (s\<lparr>buf_pnt_kern := w, timeout := 1, timeoutCount := c, theErrorFlag := theErrorFlag s OR Timeout\<rparr>)"
  by (simp add: tallied_def in_step_def bit_or_iff flag_bits)

lemma taken_packet:
  assumes "reading H n F m s" "n + m < length H"
    and "take_packet (length (bytes (H ! (n + m)))) (seen w f (loopp (take (n + m) H)) (H ! (n + m)) s) = (stop, t)"
  shows "tallied H n F (Suc m) t" "stop \<longleftrightarrow> complete (span H n (Suc m))" "\<not> bit (theErrorFlag t) 1" "iloop t = 0"
proof -
  let ?p = "H ! (n + m)" and ?z = "seen w f (loopp (take (n + m) H)) (H ! (n + m)) s"
  let ?c = "span H n m"
  note P = take_packet_fields[OF assms(3)]
  have r: "in_step H (n + m) s" "\<forall>p \<in> set ?c. \<not> final p" "read_len s = (if defect F ?c then 0 else int (size_of ?c))"
    "bit (theErrorFlag s) 0" "bit (theErrorFlag s) 2 \<longleftrightarrow> (\<exists>p \<in> set ?c. lost p)" "\<not> bit (theErrorFlag s) 1"
    "\<not> bit (theErrorFlag s) 3" "\<not> bit (theErrorFlag s) 4"
    "\<not> defect F ?c \<longrightarrow> (bit (theErrorFlag s) 5 \<longleftrightarrow> size_of ?c > MAXEVENT_2)"
    "insideEventWithMissingPackets s \<longleftrightarrow> defect F ?c"
    "packets s = of_nat m" "0 < m \<and> m < 2 ^ 16 \<longrightarrow> buf_data s = bufp (take n H)"
  proof -
    show "\<forall>p \<in> set ?c. \<not> final p"
    proof
      fix p assume p: "p \<in> set ?c"
      then have "?c \<noteq> []" by auto
      then have "set ?c = set (butlast ?c) \<union> {List.last ?c}" by (metis append_butlast_last_id list.simps(15) set_append empty_set)
      then show "\<not> final p" using p assms(1) \<open>?c \<noteq> []\<close> by (auto simp: reading_def tallied_def complete_def)
    qed
  qed (use assms(1) in \<open>auto simp: reading_def tallied_def simp del: layout\<close>)
  have z: "end_event ?z = 0x4000 \<longleftrightarrow> final ?p" "pmissing ?z \<noteq> 0 \<longleftrightarrow> lost ?p" "buf_pnt ?z = bufp (take (n + m) H)"
    "ring_pnt ?z = entp (take (n + m) H)" "ring_loop ?z = of_nat (loopp (take (n + m) H))" "packets ?z = of_nat m"
    "read_len ?z = read_len s" "insideEventWithMissingPackets ?z = defect F ?c" "theErrorFlag ?z = theErrorFlag s"
    "buf_data ?z = buf_data s" "iloop ?z = 0"
    using r(1,10,11) by (simp_all add: seen_def in_step_def)
  have c: "span H n (Suc m) = ?c @ [?p]" by (rule span_Suc[OF assms(2)])
  have comp: "complete (?c @ [?p]) \<longleftrightarrow> final ?p" by (simp add: complete_def)
  have def: "defect F (?c @ [?p]) \<longleftrightarrow> defect F ?c \<or> lost ?p" by (auto simp: defect_def)
  have sz: "size_of (?c @ [?p]) = size_of ?c + length (bytes ?p)" by (simp add: size_of_def)
  have turn: "turns (take (n + m) H) ?p \<longleftrightarrow> (end_event ?z = 0x4000 \<and> buf_pnt ?z + length (bytes ?p) > buf_eend) \<or>
      buf_pnt ?z + length (bytes ?p) > buf_end \<or> ring_pnt ?z + 1 \<ge> ring_size"
    unfolding z turns_def by simp
  have stop: "stop \<longleftrightarrow> final ?p" using P(1) z(1) by simp
  have sync: "in_step H (n + Suc m) t"
    using P(2-4)[folded turn] place_Suc[OF assms(2)] assms(2) unfolding z by (simp add: in_step_def)
  have bits: "bit (theErrorFlag t) i \<longleftrightarrow> (bit (theErrorFlag s) i \<or> (i = 5 \<and> read_len s + int (length (bytes ?p)) > int MAXEVENT_2) \<or>
       (i = 2 \<and> lost ?p)) \<and> \<not> (i = 0 \<and> final ?p)" for i
    using P(10)[of i] unfolding z stop by blast
  have data: "0 < Suc m \<and> Suc m < 2 ^ 16 \<longrightarrow> buf_data t = bufp (take n H)"
  proof (cases "m = 0")
    case True
    then show ?thesis using P(6) z by simp
  next
    case False
    have "(of_nat m :: 16 word) \<noteq> 0" if "m < 2 ^ 16"
      using that False by (auto simp: word_of_nat_eq_0_iff dest: dvd_imp_le)
    then show ?thesis using P(6) z r(12) False by auto
  qed
  have len: "read_len t = (if defect F (?c @ [?p]) then 0 else int (size_of (?c @ [?p])))"
    using P(7) unfolding z def sz by (auto simp: r(3))
  have big: "\<not> defect F (?c @ [?p]) \<longrightarrow> (bit (theErrorFlag t) 5 \<longleftrightarrow> size_of (?c @ [?p]) > MAXEVENT_2)"
    using bits[of 5] r(3,9) unfolding def sz by auto
  show "tallied H n F (Suc m) t"
    unfolding tallied_def c comp
    using sync len big data bits[of 0] bits[of 2] bits[of 3] bits[of 4] r P(5,8) z stop
    by (auto simp: def)
  show "stop \<longleftrightarrow> complete (span H n (Suc m))" unfolding c comp by (rule stop)
  show "\<not> bit (theErrorFlag t) 1" using bits[of 1] r(6) by simp
  show "iloop t = 0" using P(9) z by simp
qed

section \<open>The loop\<close>

text \<open>The four reads of every round are at moments in their order.\<close>

type_synonym times = "nat \<times> nat \<times> nat \<times> nat"

fun look_at :: "moment list \<Rightarrow> times \<Rightarrow> look" where
  "look_at A (i, j, l, f) =
     \<lparr>at_pointer = mem (A ! i), at_entry = mem (A ! j), at_length = mem (A ! l), at_first = mem (A ! f)\<rparr>"

definition in_time :: "moment list \<Rightarrow> times list \<Rightarrow> bool" where
  "in_time A ts \<longleftrightarrow> (let is = concat (map (\<lambda>(i, j, l, f). [i, j, l, f]) ts) in
     sorted is \<and> list_all (\<lambda>i. i < length A) is)"

definition watched :: "stored list \<Rightarrow> moment list \<Rightarrow> times list \<Rightarrow> bool" where
  "watched H A ts \<longleftrightarrow> (\<forall>x \<in> set A. observed H x) \<and> sorted (map tails A) \<and> in_time A ts"

lemma watched_Cons:
  assumes "watched H A ((i, j, l, f) # ts)"
  shows "watched H A ts" "observed H (A ! i)" "observed H (A ! j)" "observed H (A ! l)" "observed H (A ! f)"
    "tails (A ! i) \<le> tails (A ! j)" "tails (A ! i) \<le> tails (A ! l)" "tails (A ! i) \<le> tails (A ! f)"
    "\<forall>(i', _) \<in> set ts. tails (A ! i) \<le> tails (A ! i')"
proof -
  have o: "\<forall>x \<in> set A. observed H x" "sorted (map tails A)" and t: "in_time A ((i, j, l, f) # ts)"
    using assms by (simp_all add: watched_def)
  then show "watched H A ts" by (simp add: watched_def in_time_def Let_def sorted_append)
  have b: "i < length A" "j < length A" "l < length A" "f < length A" "i \<le> j" "i \<le> l" "i \<le> f"
    using t by (simp_all add: in_time_def Let_def)
  show "observed H (A ! i)" "observed H (A ! j)" "observed H (A ! l)" "observed H (A ! f)" using o(1) b by simp_all
  have mono: "tails (A ! x) \<le> tails (A ! y)" if "x \<le> y" "y < length A" for x y
    using sorted_nth_mono[OF o(2), of x y] that by simp
  then show "tails (A ! i) \<le> tails (A ! j)" "tails (A ! i) \<le> tails (A ! l)" "tails (A ! i) \<le> tails (A ! f)"
    using b by simp_all
  have late: "i \<le> i' \<and> i' < length A" if "(i', j', l', f') \<in> set ts" for i' j' l' f'
  proof -
    define R where "R = concat (map (\<lambda>(i, j, l, f). [i, j, l, f]) ts)"
    have "i' \<in> set R" unfolding R_def using that by force
    moreover have "sorted (i # j # l # f # R)" "list_all (\<lambda>i. i < length A) (i # j # l # f # R)"
      using t by (simp_all add: in_time_def Let_def R_def)
    ultimately show ?thesis by (simp add: list_all_iff)
  qed
  show "\<forall>(i', _) \<in> set ts. tails (A ! i) \<le> tails (A ! i')"
  proof
    fix x assume x: "x \<in> set ts"
    obtain i' j' l' f' where e: "x = (i', j', l', f')" by (cases x)
    have "tails (A ! i) \<le> tails (A ! i')" using late[OF x[unfolded e]] by (intro mono) simp_all
    then show "case x of (i', _) \<Rightarrow> tails (A ! i) \<le> tails (A ! i')" by (simp add: e)
  qed
qed

lemma loop_step:
  assumes "watched H A ((i, j, l, f) # ts)" "reading H n F m s" "n + m \<le> tails (A ! i)" "loopp H < 2 ^ 14"
    and "\<not> torn H (n + m) (A ! j) (A ! l)" "readDDU_round (look_at A (i, j, l, f)) s = (stop, t)"
  obtains (over) "stop" "bit (theErrorFlag t) 3 \<or> bit (theErrorFlag t) 4"
      "passed H (n + m) (A ! i) (A ! j) (A ! f)" "n + m < tails (A ! i)"
  | (returns) "stop" "returned H n F (Suc m) t" "complete (span H n (Suc m))"
  | (gives_up) "stop" "returned H n F m t" "iloop s > 20000"
  | (idles) "\<not> stop" "reading H n F m t" "iloop t = iloop s + 1" "bufp (take (tails (A ! i)) H) = bufp (take (n + m) H)"
  | (takes) "\<not> stop" "reading H n F (Suc m) t" "iloop t = 0" "n + m < tails (A ! i)"
proof -
  note W = watched_Cons[OF assms(1)] and r = assms(2)
  let ?b = "bufp (take (tails (A ! i)) H)"
  have sy: "in_step H (n + m) s" using r by (simp add: reading_def tallied_def)
  have it: "iloop s \<le> 20001" "0 \<le> iloop s" using r by (simp_all add: reading_def)
  show ?thesis
  proof (rule round_cases[OF W(2-8) sy assms(3-5) assms(6)[unfolded look_at.simps]])
    assume "iloop s > 20000" "stop" and t: "t = s\<lparr>buf_pnt_kern := ?b, timeout := 1,
      timeoutCount := timeoutCount s + 1, theErrorFlag := theErrorFlag s OR Timeout\<rparr>"
    have "returned H n F m t"
      using r tallied_timeout[of H n F m s, where w = ?b and c = "timeoutCount s + 1"] unfolding returned_def t reading_def
      by (simp add: bit_or_iff flag_bits)
    then show ?thesis using gives_up \<open>stop\<close> \<open>iloop s > 20000\<close> by simp
  next
    assume a: "iloop s \<le> 20000" "\<not> stop" "?b = bufp (take (n + m) H)"
      and t: "t = s\<lparr>buf_pnt_kern := ?b, iloop := iloop s + 1\<rparr>"
    have "reading H n F m t"
      using r a(1) tallied_idle[of H n F m s, where w = ?b and i = "iloop s + 1"] unfolding reading_def t by simp
    then show ?thesis using idles[OF a(2) _ _ a(3)] t by simp
  next
    assume "stop" "n + m < tails (A ! i)" "passed H (n + m) (A ! i) (A ! j) (A ! f)"
      "bit (theErrorFlag t) 3 \<or> bit (theErrorFlag t) 4"
    then show ?thesis using over by simp
  next
    fix g
    assume q: "n + m < tails (A ! i)"
      "take_packet (length (bytes (H ! (n + m)))) (seen ?b g (loopp (take (n + m) H)) (H ! (n + m)) s) = (stop, t)"
    have n: "n + m < length H" using q(1) W(2) by (simp add: observed_def)
    note T = taken_packet[OF r n q(2)]
    show ?thesis
    proof (cases stop)
      case True
      then have "returned H n F (Suc m) t" "complete (span H n (Suc m))" using T(1-3) by (simp_all add: returned_def)
      then show ?thesis by (rule returns[OF True])
    next
      case False
      then have "reading H n F (Suc m) t" using T by (simp add: reading_def)
      then show ?thesis using takes[OF False] T(4) q(1) by simp
    qed
  qed
qed

text \<open>No round finds the entry of packet \<open>q\<close>, or of one behind it, torn.\<close>

definition whole :: "stored list \<Rightarrow> nat \<Rightarrow> moment list \<Rightarrow> times list \<Rightarrow> bool" where
  "whole H n A ts \<longleftrightarrow> (\<forall>(i, j, l, f) \<in> set ts. \<forall>q \<ge> n. \<not> torn H q (A ! j) (A ! l))"

lemma arrived_later:
  assumes "watched H A ((i, j, l, f) # ts)" "n \<le> tails (A ! i)"
  shows "\<forall>(i', _) \<in> set ts. n \<le> tails (A ! i')"
  using watched_Cons(9)[OF assms(1)] assms(2) by fastforce

lemma loop_returned:
  assumes "watched H A ts" "whole H n A ts" "\<forall>(i, _) \<in> set ts. n + m \<le> tails (A ! i)" "reading H n F m s"
    and "loopp H < 2 ^ 14" "readDDU_loop (map (look_at A) ts) s = Some t"
    and "\<not> bit (theErrorFlag t) 3" "\<not> bit (theErrorFlag t) 4"
  shows "\<exists>m'. returned H n F m' t"
  using assms
proof (induction ts arbitrary: s m)
  case (Cons x ts)
  obtain i j l f where x: "x = (i, j, l, f)" by (cases x)
  obtain stop u where u: "readDDU_round (look_at A (i, j, l, f)) s = (stop, u)" by (cases "readDDU_round (look_at A (i, j, l, f)) s")
  have lp: "if stop then t = u else readDDU_loop (map (look_at A) ts) u = Some t"
    using Cons.prems(6) by (simp add: x u del: look_at.simps split: if_splits)
  have here: "n + m \<le> tails (A ! i)" "\<not> torn H (n + m) (A ! j) (A ! l)"
    using Cons.prems(2,3) by (auto simp: x whole_def)
  have w: "watched H A ts" "whole H n A ts" "\<forall>(i, _) \<in> set ts. n + m \<le> tails (A ! i)"
    using watched_Cons(1)[OF Cons.prems(1)[unfolded x]] Cons.prems(2,3) by (auto simp: x whole_def)
  note IH = Cons.IH[OF w(1,2) _ _ Cons.prems(5) _ Cons.prems(7,8)]
  show ?case
  proof (rule loop_step[OF Cons.prems(1)[unfolded x] Cons.prems(4) here(1) Cons.prems(5) here(2) u])
    assume "stop" "bit (theErrorFlag u) 3 \<or> bit (theErrorFlag u) 4"
    then show "\<exists>m'. returned H n F m' t" using lp Cons.prems(7,8) by simp
  next
    assume "stop" "returned H n F (Suc m) u"
    then show "\<exists>m'. returned H n F m' t" using lp by auto
  next
    assume "stop" "returned H n F m u"
    then show "\<exists>m'. returned H n F m' t" using lp by auto
  next
    assume "\<not> stop" "reading H n F m u"
    then show "\<exists>m'. returned H n F m' t" using lp IH[OF w(3)] by simp
  next
    assume a: "\<not> stop" "reading H n F (Suc m) u" "n + m < tails (A ! i)"
    have "\<forall>(i, _) \<in> set ts. n + Suc m \<le> tails (A ! i)"
      by (rule arrived_later[OF Cons.prems(1)[unfolded x]]) (use a(3) in simp)
    from IH[OF this a(2)] show "\<exists>m'. returned H n F m' t" using lp a(1) by simp
  qed
qed simp

text \<open>The loop ends: every packet is waited for at most 20001 rounds.\<close>

lemma loop_returns:
  assumes "watched H A ts" "whole H n A ts" "\<forall>(i, _) \<in> set ts. n + m \<le> tails (A ! i)" "reading H n F m s"
    and "loopp H < 2 ^ 14" "20002 * (length H - (n + m) + 1) \<le> length ts + nat (iloop s)"
  shows "readDDU_loop (map (look_at A) ts) s \<noteq> None"
  using assms
proof (induction ts arbitrary: s m)
  case Nil
  then have "iloop s \<le> 20001" by (simp add: reading_def)
  then show ?case using Nil.prems(6) by simp
next
  case (Cons x ts)
  obtain i j l f where x: "x = (i, j, l, f)" by (cases x)
  obtain stop u where u: "readDDU_round (look_at A (i, j, l, f)) s = (stop, u)" by (cases "readDDU_round (look_at A (i, j, l, f)) s")
  have lp: "readDDU_loop (map (look_at A) (x # ts)) s = (if stop then Some u else readDDU_loop (map (look_at A) ts) u)"
    by (simp add: x u del: look_at.simps)
  have here: "n + m \<le> tails (A ! i)" "\<not> torn H (n + m) (A ! j) (A ! l)"
    using Cons.prems(2,3) by (auto simp: x whole_def)
  have w: "watched H A ts" "whole H n A ts" "\<forall>(i, _) \<in> set ts. n + m \<le> tails (A ! i)"
    using watched_Cons(1)[OF Cons.prems(1)[unfolded x]] Cons.prems(2,3) by (auto simp: x whole_def)
  have len: "20002 * (length H - (n + m) + 1) \<le> Suc (length ts) + nat (iloop s)" using Cons.prems(6) by simp
  have it: "0 \<le> iloop s" "iloop s \<le> 20001" using Cons.prems(4) by (simp_all add: reading_def)
  note IH = Cons.IH[OF w(1,2) _ _ Cons.prems(5)]
  show ?case unfolding lp
  proof (rule loop_step[OF Cons.prems(1)[unfolded x] Cons.prems(4) here(1) Cons.prems(5) here(2) u])
    assume a: "\<not> stop" "reading H n F m u" "iloop u = iloop s + 1"
    have "20002 * (length H - (n + m) + 1) \<le> length ts + nat (iloop u)"
      using len a(3) it by (simp add: nat_add_distrib)
    then show "(if stop then Some u else readDDU_loop (map (look_at A) ts) u) \<noteq> None" using IH[OF w(3) a(2)] a(1) by simp
  next
    assume a: "\<not> stop" "reading H n F (Suc m) u" "iloop u = 0" "n + m < tails (A ! i)"
    have "n + m < length H" using a(4) watched_Cons(2)[OF Cons.prems(1)[unfolded x]] by (simp add: observed_def)
    define R where "R = length H - (n + Suc m)"
    have "length H - (n + m) = Suc R" using \<open>n + m < length H\<close> by (simp add: R_def)
    moreover have "nat (iloop s) \<le> 20001" using it by simp
    ultimately have "20002 * (R + 1) \<le> length ts + nat (iloop u)" using len by simp
    then have len': "20002 * (length H - (n + Suc m) + 1) \<le> length ts + nat (iloop u)"
      unfolding R_def .
    have "\<forall>(i, _) \<in> set ts. n + Suc m \<le> tails (A ! i)"
      by (rule arrived_later[OF Cons.prems(1)[unfolded x]]) (use a(4) in simp)
    from IH[OF this a(2) len'] show "(if stop then Some u else readDDU_loop (map (look_at A) ts) u) \<noteq> None"
      using a(1) by simp
  qed simp_all
qed

section \<open>Events the driver has not come to again\<close>

definition unpassed :: "stored list \<Rightarrow> nat \<Rightarrow> bool" where
  "unpassed H q \<longleftrightarrow> loopp H = loopp (take q H) \<or>
     (loopp H = loopp (take q H) + 1 \<and> bufp H < bufp (take q H) \<and> entp H \<le> entp (take q H))"

lemma place_append:
  "loopp H < loopp (H @ X) \<or> (loopp H = loopp (H @ X) \<and> bufp H \<le> bufp (H @ X) \<and> entp H \<le> entp (H @ X))"
proof (cases X)
  case (Cons p K)
  then show ?thesis using later[of H p K] by auto
qed simp

lemma unpassed_prefix:
  assumes "unpassed (H @ X) q" "q \<le> length H"
  shows "unpassed H q"
proof -
  have q: "take q (H @ X) = take q H" using assms(2) by simp
  have "loopp (take q H) \<le> loopp H" using loopp_mono[of "take q H" "drop q H"] by simp
  then show ?thesis using assms(1) place_append[of H X] unfolding unpassed_def q by linarith
qed

lemma unpassed_entry:
  assumes "unpassed H q" "q < p" "p < length H"
  shows "entp (take p H) \<noteq> entp (take q H)"
proof -
  have p: "loopp (take q H) < loopp (take p H) \<or> (loopp (take q H) = loopp (take p H) \<and> entp (take q H) < entp (take p H))"
    using later_take[of q p H] assms(2,3) by linarith
  have "loopp (take p H) < loopp H \<or> (loopp (take p H) = loopp H \<and> entp (take p H) < entp H)"
    using later_take[OF assms(3) order_refl] by auto
  then show ?thesis using p assms(1) unfolding unpassed_def by linarith
qed

lemma unpassed_whole:
  assumes "unpassed H q" "observed H y"
  shows "\<not> torn H q x y"
  using assms unpassed_entry[OF assms(1)] by (fastforce simp: torn_def observed_def)

lemma not_passed:
  assumes "unpassed H q" "observed H x1" "observed H x2" "observed H x4"
    and "first_loop (take (words x4) H) \<le> loopp (take (tails x1) H)"
  shows "\<not> passed H q x1 x2 x4"
proof
  assume p: "passed H q x1 x2 x4"
  have le: "loopp (take c H) \<le> loopp H" for c using loopp_mono[of "take c H" "drop c H"] by simp
  have f: "first_loop (take (words x4) H) \<le> loopp H" using assms(5) le[of "tails x1"] by simp
  have "\<not> (\<exists>j. q < j \<and> j < words x2 \<and> entp (take j H) = entp (take q H) \<and> loopp (take q H) < loopp (take j H))"
    using unpassed_entry[OF assms(1)] assms(3) by (fastforce simp: observed_def)
  moreover have "\<not> first_loop (take (words x4) H) > loopp (take q H) + 1"
    using f assms(1) by (auto simp: unpassed_def)
  ultimately have *: "first_loop (take (words x4) H) = loopp (take q H) + 1" "bufp (take q H) \<le> bufp (take (tails x1) H)"
    using p unfolding passed_def by blast+
  then have "loopp H = loopp (take q H) + 1" "bufp H < bufp (take q H)" using assms(1) f by (auto simp: unpassed_def)
  moreover have "loopp (take (tails x1) H) < loopp H \<or>
      (loopp (take (tails x1) H) = loopp H \<and> bufp (take (tails x1) H) \<le> bufp H)"
    using place_append[of "take (tails x1) H" "drop (tails x1) H"] unfolding append_take_drop_id by linarith
  ultimately show False using * assms(5) by linarith
qed

lemma not_idle:
  assumes "unpassed H q" "q < length H" "\<forall>p \<in> set H. good p"
  shows "bufp H \<noteq> bufp (take q H)"
proof -
  have "32 \<le> length (bytes (H ! q))" using assms(2,3) by (simp add: good_def)
  moreover have "loopp (take q H) < loopp H \<or>
      (loopp (take q H) = loopp H \<and> bufp (take q H) + length (bytes (H ! q)) \<le> bufp H \<and> entp (take q H) < entp H)"
    using later_take[OF assms(2) order_refl] by simp
  ultimately show ?thesis using assms(1) unfolding unpassed_def by linarith
qed

lemma complete_only:
  assumes "\<forall>p \<in> set (butlast (span H n k)). \<not> final p" "n + k \<le> length H" "i < k"
  shows "\<not> complete (span H n i)"
proof
  assume c: "complete (span H n i)"
  then obtain j where j: "i = Suc j" by (cases i) (auto simp: complete_def span_def)
  have "span H n i = span H n j @ [H ! (n + j)]" unfolding j using assms(2,3) j by (intro span_Suc) simp
  then have "final (H ! (n + j))" using c by (simp add: complete_def)
  moreover have "H ! (n + j) \<in> set (butlast (span H n k))"
  proof -
    have l: "length (span H n k) = k" using assms(2) by (simp add: span_def)
    have "butlast (span H n k) ! j = H ! (n + j)" "j < length (butlast (span H n k))"
      using assms(2,3) j l by (simp_all add: nth_butlast span_def)
    then show ?thesis by (metis nth_mem)
  qed
  ultimately show False using assms(1) by blast
qed

text \<open>No packet of the next loop comes into the first entry between the look at the write pointer and the look at
  the first entry of a round.\<close>

definition no_turn :: "stored list \<Rightarrow> moment list \<Rightarrow> times list \<Rightarrow> bool" where
  "no_turn H A ts \<longleftrightarrow> (\<forall>(i, j, l, f) \<in> set ts. first_loop (take (words (A ! f)) H) \<le> loopp (take (tails (A ! i)) H))"

lemma loop_finds:
  assumes "watched H A ts" "no_turn H A ts" "\<forall>(i, _) \<in> set ts. n + k \<le> tails (A ! i)" "reading H n F m s"
    and "iloop s = 0" "loopp H < 2 ^ 14" "\<forall>p \<in> set H. good p"
    and "m < k" "complete (span H n k)" "\<forall>p \<in> set (butlast (span H n k)). \<not> final p"
    and "\<forall>q. n + m \<le> q \<and> q < n + k \<longrightarrow> unpassed H q" "k \<le> m + length ts"
  shows "\<exists>t. readDDU_loop (map (look_at A) ts) s = Some t \<and> returned H n F k t"
  using assms
proof (induction ts arbitrary: s m)
  case (Cons x ts)
  obtain i j l f where x: "x = (i, j, l, f)" by (cases x)
  obtain stop u where u: "readDDU_round (look_at A (i, j, l, f)) s = (stop, u)" by (cases "readDDU_round (look_at A (i, j, l, f)) s")
  note W = watched_Cons[OF Cons.prems(1)[unfolded x]]
  have tl: "n + k \<le> tails (A ! i)" and nt: "first_loop (take (words (A ! f)) H) \<le> loopp (take (tails (A ! i)) H)"
    using Cons.prems(2,3) by (auto simp: x no_turn_def)
  have here: "n + m \<le> tails (A ! i)" "tails (A ! i) \<le> length H" using tl Cons.prems(8) W(2) by (simp_all add: observed_def)
  have un: "unpassed H (n + m)" using Cons.prems(8,11) by simp
  have np: "\<not> passed H (n + m) (A ! i) (A ! j) (A ! f)" by (rule not_passed[OF un W(2,3,5) nt])
  have "unpassed (take (tails (A ! i)) H) (n + m)"
    by (rule unpassed_prefix[where X = "drop (tails (A ! i)) H"]) (use un here in simp_all)
  moreover have "n + m < length (take (tails (A ! i)) H)" "\<forall>p \<in> set (take (tails (A ! i)) H). good p"
    using here tl Cons.prems(7,8) by (auto dest: in_set_takeD)
  ultimately have ni: "bufp (take (tails (A ! i)) H) \<noteq> bufp (take (n + m) H)"
    using not_idle[of "take (tails (A ! i)) H" "n + m"] here(1) by (simp add: min_def split: if_splits)
  have lk: "n + k \<le> length H" using here tl by simp
  have lp: "readDDU_loop (map (look_at A) (x # ts)) s = (if stop then Some u else readDDU_loop (map (look_at A) ts) u)"
    by (simp add: x u del: look_at.simps)
  show ?case unfolding lp
  proof (rule loop_step[OF Cons.prems(1)[unfolded x] Cons.prems(4) here(1) Cons.prems(6) unpassed_whole[OF un W(4)] u])
    assume "passed H (n + m) (A ! i) (A ! j) (A ! f)"
    then show "\<exists>t. (if stop then Some u else readDDU_loop (map (look_at A) ts) u) = Some t \<and> returned H n F k t" using np by blast
  next
    assume r: "stop" "returned H n F (Suc m) u" "complete (span H n (Suc m))"
    have "Suc m = k"
    proof (rule ccontr)
      assume "Suc m \<noteq> k"
      then have "\<not> complete (span H n (Suc m))" using Cons.prems(8) by (intro complete_only[OF Cons.prems(10) lk]) simp
      then show False using r(3) by simp
    qed
    then show "\<exists>t. (if stop then Some u else readDDU_loop (map (look_at A) ts) u) = Some t \<and> returned H n F k t" using r by auto
  next
    assume "iloop s > 20000"
    then show "\<exists>t. (if stop then Some u else readDDU_loop (map (look_at A) ts) u) = Some t \<and> returned H n F k t"
      using Cons.prems(5) by simp
  next
    assume "bufp (take (tails (A ! i)) H) = bufp (take (n + m) H)"
    then show "\<exists>t. (if stop then Some u else readDDU_loop (map (look_at A) ts) u) = Some t \<and> returned H n F k t" using ni by blast
  next
    assume r: "\<not> stop" "reading H n F (Suc m) u" "iloop u = 0"
    have "Suc m \<noteq> k" using r(2) Cons.prems(9) by (auto simp: reading_def)
    then have m: "Suc m < k" using Cons.prems(8) by simp
    have "\<exists>t. readDDU_loop (map (look_at A) ts) u = Some t \<and> returned H n F k t"
      by (rule Cons.IH[OF W(1) _ _ r(2,3) Cons.prems(6,7) m Cons.prems(9,10)])
        (use Cons.prems(2,3,11,12) in \<open>auto simp: no_turn_def\<close>)
    then show "\<exists>t. (if stop then Some u else readDDU_loop (map (look_at A) ts) u) = Some t \<and> returned H n F k t" using r(1) by simp
  qed
qed simp

section \<open>The data\<close>

lemma event_start: "n \<le> length H \<Longrightarrow> n = 0 \<or> final (H ! (n - 1)) \<Longrightarrow> bufp (take n H) \<le> buf_eend_2"
proof (cases n)
  case (Suc i)
  assume "n \<le> length H" "n = 0 \<or> final (H ! (n - 1))"
  then show ?thesis using place_Suc(1)[of i H] by (auto simp: Suc turns_def)
qed simp

lemma size_of_snoc [simp]: "size_of (cs @ [p]) = size_of cs + length (bytes p)" "size_of [] = 0"
  by (simp_all add: size_of_def)

lemma size_of_span: "i \<le> k \<Longrightarrow> size_of (span H n i) \<le> size_of (span H n k)"
proof -
  assume "i \<le> k"
  then have "span H n k = span H n i @ drop i (span H n k)" using append_take_drop_id[of i "span H n k"] by (simp add: span_def min_def)
  then have "size_of (span H n k) = size_of (span H n i) + size_of (drop i (span H n k))"
    by (metis size_of_def map_append sum_list.append)
  then show ?thesis by simp
qed

text \<open>An event that is not too long lies in one piece.\<close>

lemma in_one_piece:
  assumes "\<forall>p \<in> set H. good p" "n + k \<le> length H" "bufp (take n H) + size_of (span H n k) \<le> buf_end_2"
    and "\<forall>p \<in> set (butlast (span H n k)). \<not> final p" "i < k"
  shows "bufp (take (n + i) H) = bufp (take n H) + size_of (span H n i) \<and> loopp (take (n + i) H) = loopp (take n H)"
  using assms(5)
proof (induction i)
  case 0
  then show ?case by (simp add: span_def)
next
  case (Suc i)
  let ?p = "H ! (n + i)"
  have l: "n + i < length H" using Suc.prems assms(2) by simp
  have s: "span H n (Suc i) = span H n i @ [?p]" by (rule span_Suc[OF l])
  have b: "bufp (take (n + i) H) = bufp (take n H) + size_of (span H n i)" "loopp (take (n + i) H) = loopp (take n H)"
    using Suc by simp_all
  have "size_of (span H n (Suc i)) \<le> size_of (span H n k)" using Suc.prems by (intro size_of_span) simp
  then have fit: "bufp (take (n + i) H) + length (bytes ?p) \<le> buf_end_2" using assms(3) b s by simp
  have nf: "\<not> final ?p"
  proof
    assume "final ?p"
    then have "complete (span H n (Suc i))" by (simp add: s complete_def)
    then show False using complete_only[OF assms(4,2) Suc.prems] by simp
  qed
  have "32 \<le> length (bytes ?p)" using assms(1) l by (simp add: good_def)
  moreover have "32 * entp (take (n + i) H) \<le> bufp (take (n + i) H)" by (rule entries_fit) (use assms(1) in \<open>auto dest: in_set_takeD\<close>)
  ultimately have "\<not> turns (take (n + i) H) ?p" using fit nf by (simp add: turns_def)
  then show ?case using place_Suc[OF l] b s by simp
qed

lemma unpassed_kept:
  assumes "unpassed H q" "q < length H"
  shows "data_kept H q"
  unfolding data_kept_def
proof (intro allI impI)
  fix k assume k: "q < k \<and> k < length H"
  have k2: "q < k" "k \<le> length H" using k by simp_all
  have qk: "loopp (take q H) < loopp (take k H) \<or>
      (loopp (take q H) = loopp (take k H) \<and> bufp (take q H) + length (bytes (H ! q)) \<le> bufp (take k H))"
    using later_take[OF k2] by blast
  have kH: "loopp (take k H) < loopp H \<or> (loopp (take k H) = loopp H \<and> bufp (take k H) + length (bytes (H ! k)) \<le> bufp H)"
    using later_take[OF conjunct2[OF k] order_refl] by auto
  show "apart H q k" using qk kH assms(1) unfolding apart_def unpassed_def by linarith
qed

lemma event_bytes:
  assumes "n + k \<le> length H" "\<forall>q. n \<le> q \<and> q < n + k \<longrightarrow> data_is m (bufp (take q H)) (H ! q)"
    and "\<forall>i < k. bufp (take (n + i) H) = b + size_of (span H n i)"
  shows "map (\<lambda>j. m (b + j)) [0..<size_of (span H n k)] = concat (map bytes (span H n k))"
  using assms
proof (induction k)
  case 0
  then show ?case by (simp add: span_def)
next
  case (Suc k)
  let ?p = "H ! (n + k)" and ?m = "size_of (span H n k)"
  have l: "n + k < length H" using Suc.prems by simp
  have s: "span H n (Suc k) = span H n k @ [?p]" by (rule span_Suc[OF l])
  have IH: "map (\<lambda>j. m (b + j)) [0..<?m] = concat (map bytes (span H n k))" using Suc by simp
  have "data_is m (bufp (take (n + k) H)) ?p" using Suc.prems(2) by simp
  then have p: "map (\<lambda>i. m (b + ?m + i)) [0..<length (bytes ?p)] = bytes ?p"
    using Suc.prems(3) by (intro nth_equalityI) (simp_all add: data_is_def)
  have "map (\<lambda>j. m (b + j)) [?m..<?m + length (bytes ?p)] = map (\<lambda>i. m (b + ?m + i)) [0..<length (bytes ?p)]"
    by (rule nth_equalityI) (simp_all add: add.assoc)
  then show ?case by (simp add: s upt_add_eq_append[of 0 ?m] IH p)
qed

text \<open>The filler at the end.\<close>

definition filler_word :: "8 word list \<Rightarrow> bool" where
  "filler_word w \<longleftrightarrow> drop 1 w = replicate 7 0xFF"

fun unpadded :: "8 word list list \<Rightarrow> nat" where
  "unpadded ws = length (dropWhile filler_word (rev ws))"

lemma high_ff: "(w :: 16 word) AND 0xFF00 = 0xFF00 \<longleftrightarrow> drop_bit 8 w = 0xFF"
proof -
  have m: "(0xFF00 :: 16 word) = push_bit 8 (mask 8)" "(0xFF :: 16 word) = mask 8"
    by (simp_all add: mask_eq_exp_minus_1 push_bit_eq_mult)
  have "w AND push_bit 8 (mask 8) = push_bit 8 (mask 8) \<longleftrightarrow> (\<forall>i. 8 \<le> i \<and> i < 16 \<longrightarrow> bit w i)"
    by (auto simp: bit_eq_iff bit_simps)
  also have "\<dots> \<longleftrightarrow> (\<forall>i < 8. bit w (8 + i))"
  proof (intro iffI allI impI)
    fix i :: nat assume a: "\<forall>i < 8. bit w (8 + i)" "8 \<le> i \<and> i < 16"
    then have "i - 8 < 8" by arith
    then have "bit w (8 + (i - 8))" using a(1) by blast
    then show "bit w i" using a(2) by simp
  qed simp
  also have "\<dots> \<longleftrightarrow> drop_bit 8 w = mask 8"
  proof -
    have "bit w (8 + i) \<Longrightarrow> i < 8" for i using bit_imp_le_length[of w "8 + i"] by simp
    then show ?thesis by (auto simp: bit_eq_iff bit_simps)
  qed
  finally show ?thesis unfolding m .
qed

lemma u16_ff: "u16 m a = 0xFFFF \<longleftrightarrow> m a = 0xFF \<and> m (Suc a) = 0xFF" "u16 m a AND 0xFF00 = 0xFF00 \<longleftrightarrow> m (Suc a) = 0xFF"
proof -
  have b: "unat (m x) < 256" for x using unsigned_less[of "m x", where 'a = nat] by simp
  have eq: "m x = 0xFF \<longleftrightarrow> unat (m x) = 255" for x by (simp add: word_unat_eq_iff)
  have "le m a 2 = unat (m a) + 256 * unat (m (Suc a))" by (simp add: numeral_2_eq_2)
  moreover have "unat (u16 m a) = le m a 2" using le_bound[of m a 2] unfolding u16_def unat_of_nat by simp
  ultimately have u: "unat (u16 m a) = unat (m a) + 256 * unat (m (Suc a))" by simp
  have "u16 m a = 0xFFFF \<longleftrightarrow> unat (u16 m a) = 65535" by (simp add: word_unat_eq_iff)
  also have "\<dots> \<longleftrightarrow> unat (m a) = 255 \<and> unat (m (Suc a)) = 255" unfolding u using b[of a] b[of "Suc a"] by linarith
  finally show "u16 m a = 0xFFFF \<longleftrightarrow> m a = 0xFF \<and> m (Suc a) = 0xFF" unfolding eq .
  have "u16 m a AND 0xFF00 = 0xFF00 \<longleftrightarrow> unat (drop_bit 8 (u16 m a)) = 255"
    unfolding high_ff by (simp add: word_unat_eq_iff)
  also have "unat (drop_bit 8 (u16 m a)) = unat (u16 m a) div 256" by (simp only: unat_drop_bit_eq) (simp add: drop_bit_eq_div)
  also have "\<dots> = unat (m (Suc a))" using u b[of a] by simp
  finally show "u16 m a AND 0xFF00 = 0xFF00 \<longleftrightarrow> m (Suc a) = 0xFF" unfolding eq .
qed

lemma filler_iff: "filler m a i \<longleftrightarrow> filler_word (map (\<lambda>j. m (a + 2 * i + j)) [0..<8])"
proof -
  have "[0..<8] = [0, 1, 2, 3, 4, 5, 6, 7 :: nat]" by (simp add: upt_rec)
  then show ?thesis by (simp add: filler_def filler_word_def u16_ff numeral_eq_Suc ac_simps)
qed

definition words_at :: "memory \<Rightarrow> nat \<Rightarrow> nat \<Rightarrow> 8 word list list" where
  "words_at m a c = map (\<lambda>i. map (\<lambda>j. m (a + 8 * i + j)) [0..<8]) [0..<c]"

lemma strip_filler_words: "strip_filler m a (4 * int c - 4) = 8 * int (unpadded (words_at m a c))"
proof (induction c)
  case 0
  then show ?case by (simp add: strip_filler.simps words_at_def)
next
  case (Suc c)
  have i: "4 * int (Suc c) - 4 = int (4 * c)" by simp
  have w: "words_at m a (Suc c) = words_at m a c @ [map (\<lambda>j. m (a + 8 * c + j)) [0..<8]]" by (simp add: words_at_def)
  have l: "length (words_at m a c) = c" by (simp add: words_at_def)
  have f: "filler m a (4 * c) \<longleftrightarrow> filler_word (map (\<lambda>j. m (a + 8 * c + j)) [0..<8])"
    using filler_iff[of m a "4 * c"] by simp
  have n: "nat (int (4 * c)) = 4 * c" by simp
  show ?case unfolding i
    using Suc.IH by (subst strip_filler.simps) (simp only: n f w, simp add: l)
qed

lemma data_length: "dataLengthWithoutPadding m a (8 * int c) = 8 * int (unpadded (words_at m a c))"
proof (cases c)
  case 0
  then show ?thesis by (simp add: dataLengthWithoutPadding_def words_at_def)
next
  case (Suc n)
  then show ?thesis using strip_filler_words[of m a c] by (simp add: dataLengthWithoutPadding_def)
qed

text \<open>The bytes of the data in words of eight.\<close>

fun eights :: "8 word list \<Rightarrow> 8 word list list" where
  "eights xs = (if length xs < 8 then [] else take 8 xs # eights (drop 8 xs))"

declare eights.simps [simp del]

lemma eights_map: "eights (map f [a..<a + 8 * c]) = map (\<lambda>i. map (\<lambda>j. f (a + 8 * i + j)) [0..<8]) [0..<c]"
proof (induction c arbitrary: a)
  case 0
  then show ?case by (simp add: eights.simps)
next
  case (Suc c)
  have t: "take 8 (map f [a..<a + 8 * Suc c]) = map (\<lambda>j. f (a + j)) [0..<8]"
    by (rule nth_equalityI) simp_all
  have d: "drop 8 (map f [a..<a + 8 * Suc c]) = map f [a + 8..<(a + 8) + 8 * c]" by (simp add: drop_map add.assoc)
  have "[0..<Suc c] = 0 # map Suc [0..<c]" by (simp add: upt_conv_Cons map_Suc_upt)
  then show ?case unfolding eights.simps[of "map f [a..<a + 8 * Suc c]"] t d Suc.IH[of "a + 8"]
    by (simp add: ac_simps)
qed

lemma words_at_eights: "words_at m b c = eights (map (\<lambda>j. m (b + j)) [0..<8 * c])"
  using eights_map[of "\<lambda>j. m (b + j)" 0 c] by (simp add: words_at_def add.assoc)

section \<open>Limits\<close>

text \<open>An event of less than \<open>MAXEVENT_2\<close> bytes may be split: the end of the buffer leaves room for a packet,
  and the driver turns back in the middle of the event when it comes into this room.\<close>

definition plain_packet :: "nat \<Rightarrow> bool \<Rightarrow> stored" where
  "plain_packet l f = \<lparr>bytes = replicate l 0, lost = False, final = f\<rparr>"

lemma places_of_events:
  "n \<le> 1800 \<Longrightarrow> bufp (replicate n (plain_packet 9000 True)) = 9000 * n \<and>
     entp (replicate n (plain_packet 9000 True)) = n \<and> loopp (replicate n (plain_packet 9000 True)) = 0"
proof (induction n)
  case (Suc n)
  have "replicate (Suc n) (plain_packet 9000 True) = replicate n (plain_packet 9000 True) @ [plain_packet 9000 True]"
    by (simp add: replicate_append_same)
  then show ?case using Suc by (simp add: turns_def plain_packet_def del: replicate.simps)
qed simp

lemma places_in_event:
  assumes "bufp H = 16203000" "entp H = 1801" "loopp H = 0"
  shows "n \<le> 18 \<Longrightarrow> bufp (H @ replicate n (plain_packet 9072 False)) = 16203000 + 9072 * n \<and>
     entp (H @ replicate n (plain_packet 9072 False)) = 1801 + n \<and> loopp (H @ replicate n (plain_packet 9072 False)) = 0"
proof (induction n)
  case (Suc n)
  have "H @ replicate (Suc n) (plain_packet 9072 False) = (H @ replicate n (plain_packet 9072 False)) @ [plain_packet 9072 False]"
    by (simp add: replicate_append_same)
  then show ?case using Suc unfolding \<open>H @ replicate (Suc n) _ = _\<close> place_snoc by (simp add: turns_def plain_packet_def)
qed (use assms in simp)

lemma allowed_event_is_split:
  fixes H cs
  defines "H \<equiv> replicate 1800 (plain_packet 9000 True) @ [plain_packet 3000 True]"
    and "cs \<equiv> replicate 19 (plain_packet 9072 False) @ [plain_packet 64 True]"
  shows "(\<forall>p \<in> set (H @ cs). good p) \<and> size_of cs < MAXEVENT_2 \<and> loopp (H @ butlast cs) = loopp H + 1"
proof -
  have "bufp H = 16203000" "entp H = 1801" "loopp H = 0"
    using places_of_events[of 1800] unfolding H_def place_snoc by (simp_all add: turns_def plain_packet_def del: replicate.simps)
  note b = this places_in_event[OF this, of 18]
  have "replicate 18 (plain_packet 9072 False) @ [plain_packet 9072 False] = replicate (Suc 18) (plain_packet 9072 False)"
    unfolding replicate_append_same replicate_Suc ..
  then have "butlast cs = replicate 18 (plain_packet 9072 False) @ [plain_packet 9072 False]"
    by (simp add: cs_def del: replicate_Suc)
  then have e: "H @ butlast cs = (H @ replicate 18 (plain_packet 9072 False)) @ [plain_packet 9072 False]" by simp
  have "loopp (H @ butlast cs) = loopp H + 1"
    using b(3,4) unfolding e place_snoc by (simp add: turns_def plain_packet_def)
  moreover have "size_of cs < MAXEVENT_2"
    by (simp add: cs_def size_of_def plain_packet_def sum_list_replicate)
  moreover have "\<forall>p \<in> set (H @ cs). good p" by (auto simp: H_def cs_def good_def plain_packet_def MAXPACKET_2_def)
  ultimately show ?thesis by blast
qed

text \<open>The number of the loop shares a word with the flags: in the 16384th loop every entry ends an event.\<close>

lemma every_packet_ends_event:
  "ring_loop_2 d = 0x4000 \<Longrightarrow> (ring_loop_2 d OR flags p) AND 0x4000 = 0x4000"
  by (simp add: bit.conj_disj_distrib2 flags_def)

section \<open>Properties\<close>

lemma read_end_fields:
  "in_step H n (read_end m s) = in_step H n s" "read_len (read_end m s) = read_len s" "buf_data (read_end m s) = buf_data s"
  "insideEventWithMissingPackets (read_end m s) = insideEventWithMissingPackets s"
  "theDataLength (read_end m s) = dataLengthWithoutPadding m (buf_data s) (read_len s)"
  "i < 8 \<Longrightarrow> bit (theErrorFlag (read_end m s)) i = bit (theErrorFlag s) i"
  by (simp_all add: read_end_def Let_def in_step_def bit_or_iff bit_push_bit_iff)

lemma tallied_end: "tallied H n F m s \<Longrightarrow> tallied H n F m (read_end x s)"
proof -
  have "packets (read_end x s) = packets s" by (simp add: read_end_def Let_def)
  then show "tallied H n F m s \<Longrightarrow> tallied H n F m (read_end x s)" unfolding tallied_def by (simp add: read_end_fields)
qed

lemma frames_fit: "holds [] (schar_reset_2 d) \<Longrightarrow> list_all frame_fits ks \<Longrightarrow>
  holds (stored_list ks (schar_reset_2 d)) (arrive ks (schar_reset_2 d))"
  using holds_packets[of "[]" "schar_reset_2 d" ks] by simp

lemma length_stored_list [simp]: "length (stored_list ks d) = length ks"
  by (induction ks arbitrary: d) simp_all

lemma in_step_past:
  assumes "in_step (H @ X) n s" "n \<le> length H"
  shows "in_step H n s"
  using assms by (simp add: in_step_def)

lemma unfold_returned:
  assumes "returned H n F k s" "cs = span H n k"
  shows "in_step H (n + k) s" "\<forall>p \<in> set (butlast cs). \<not> final p"
    "reported EndOfEventMissing s \<longleftrightarrow> \<not> complete cs" "reported Timeout s \<longleftrightarrow> \<not> complete cs"
    "reported PacketsMissing s \<longleftrightarrow> (\<exists>p \<in> set cs. lost p)" "\<not> reported LoopOverwrite s" "\<not> reported BufferOverwrite s"
    "\<not> defect F cs \<Longrightarrow> reported Oversized s \<longleftrightarrow> size_of cs > MAXEVENT_2"
    "read_len s = (if defect F cs then 0 else int (size_of cs))"
    "insideEventWithMissingPackets s \<longleftrightarrow> \<not> complete cs \<and> defect F cs"
    "0 < k \<Longrightarrow> k < 2 ^ 16 \<Longrightarrow> buf_data s = bufp (take n H)"
  using assms by (auto simp: returned_def tallied_def reported_bits simp del: layout)

lemma returned_end:
  assumes "returned H n F k s"
  shows "returned H n F k (read_end m s)"
proof -
  have "tallied H n F k (read_end m s)" by (rule tallied_end) (use assms in \<open>simp add: returned_def\<close>)
  then show ?thesis using assms by (simp add: returned_def read_end_fields)
qed

text \<open>The moments from \<open>d\<close> on.\<close>

lemma watched_moments:
  assumes "list_all frame_fits (past @ ks)" "start = schar_reset_2 d0" "d = arrive past start"
    and "H = stored_list (past @ ks) start" "A = moments (length past) ks d" "in_time A ts"
  shows "holds (stored_list past start) d" "H = stored_list past start @ stored_list ks d" "watched H A ts"
    "\<forall>(i, _) \<in> set ts. length past \<le> tails (A ! i)"
    "q < length past \<Longrightarrow> data_kept H q \<Longrightarrow> x \<in> set A \<Longrightarrow> data_is (mem x) (bufp (take q H)) (H ! q)"
    "\<forall>p \<in> set H. good p"
proof -
  let ?P = "stored_list past start"
  have fit: "list_all frame_fits past" "list_all frame_fits ks" using assms(1) by simp_all
  show h: "holds ?P d" unfolding assms(2,3) by (rule frames_fit[OF holds_reset fit(1)])
  show H: "H = ?P @ stored_list ks d" by (simp add: assms(3,4) stored_list_append)
  have o: "observed H x" if "x \<in> set A" for x
    unfolding H by (rule moments_observed[OF h fit(2)]) (use that in \<open>simp add: assms(5)\<close>)
  show "watched H A ts" using o moments_sorted assms(6) by (simp add: watched_def assms(5))
  have "i < length A" if "(i, j, l, f) \<in> set ts" for i j l f
    using that assms(6) by (auto simp: in_time_def Let_def list_all_iff)
  then show "\<forall>(i, _) \<in> set ts. length past \<le> tails (A ! i)"
    using moments_bounds[of _ "length past" ks d] by (fastforce simp: assms(5))
  show "data_is (mem x) (bufp (take q H)) (H ! q)" if "q < length past" "data_kept H q" "x \<in> set A"
    using moments_data[OF h fit(2), of x q] that by (simp add: H assms(5) nth_append)
  have "holds H (arrive ks d)" unfolding H by (rule holds_packets[OF h fit(2)])
  then show "\<forall>p \<in> set H. good p" by (simp add: holds_def)
qed

text \<open>C39. The driver goes on storing the packets \<open>ks\<close> while the reader works, store by store, and each of the four
  reads of a round sees the area at its moment. If no packet is written into the entry of one still to
  be taken between the read of its word and that of its length (\<open>whole\<close>: such an entry is torn, and the
  code cannot tell), a call that reports no overwriting has taken the next packets of the history, no more
  than up to the first that ends an event, and stands behind them. It reports the end of the event as
  missing, and a timeout, exactly if it has not come to that packet, and missing packets exactly if the
  driver has found one missing before one of these; then, or if the event was defective already, it
  returns no data, otherwise their total length. The call returns, at the latest when every packet
  there is has been waited for. The frames are stored with a multiple of eight bytes, at least 32 and at
  most \<^verbatim>\<open>MAXPACKET_2\<close>, the reader is in step with the driver when the call begins, and the driver has
  turned back fewer than 2 ^ 14 times since its reset.\<close>

theorem spy_reads_in_order:
  assumes "list_all frame_fits (past @ ks)" "start = schar_reset_2 d0" "d = arrive past start"
    and "H = stored_list (past @ ks) start" "loopp H < 2 ^ 14" "in_step H n s" "n \<le> length past"
    and "A = moments (length past) ks d" "in_time A ts" "whole H n A ts"
  shows "(\<forall>t. readDDU (map (look_at A) ts) m s = Some t \<and> \<not> reported LoopOverwrite t \<and> \<not> reported BufferOverwrite t \<longrightarrow>
      (\<exists>k cs. cs = span H n k \<and> in_step H (n + k) t \<and> (\<forall>p \<in> set (butlast cs). \<not> final p) \<and>
        (reported EndOfEventMissing t \<longleftrightarrow> \<not> complete cs) \<and> (reported Timeout t \<longleftrightarrow> \<not> complete cs) \<and>
        (reported PacketsMissing t \<longleftrightarrow> (\<exists>p \<in> set cs. lost p)) \<and>
        read_len t = (if defect (insideEventWithMissingPackets s) cs then 0 else int (size_of cs)) \<and>
        (insideEventWithMissingPackets t \<longleftrightarrow> \<not> complete cs \<and> defect (insideEventWithMissingPackets s) cs))) \<and>
    (20002 * (length H - n + 1) \<le> length ts \<longrightarrow> readDDU (map (look_at A) ts) m s \<noteq> None)"
proof -
  let ?F = "insideEventWithMissingPackets s"
  note W = watched_moments[OF assms(1-4,8,9)]
  have r: "reading H n ?F 0 (read_start s)" by (rule reading_start[OF assms(6)])
  have arrived: "\<forall>(i, _) \<in> set ts. n + 0 \<le> tails (A ! i)" using W(4) assms(7) by fastforce
  show ?thesis
  proof (intro conjI allI impI)
    fix t assume t: "readDDU (map (look_at A) ts) m s = Some t \<and> \<not> reported LoopOverwrite t \<and> \<not> reported BufferOverwrite t"
    then obtain u where u: "readDDU_loop (map (look_at A) ts) (read_start s) = Some u" "t = read_end m u"
      by (auto simp: readDDU_def)
    then have "\<not> bit (theErrorFlag u) 3" "\<not> bit (theErrorFlag u) 4" using t by (simp_all add: reported_bits read_end_fields)
    from loop_returned[OF W(3) assms(10) arrived r assms(5) u(1) this] obtain k where "returned H n ?F k u" by blast
    note R = unfold_returned[OF returned_end[OF this, of m] refl]
    show "\<exists>k cs. cs = span H n k \<and> in_step H (n + k) t \<and> (\<forall>p \<in> set (butlast cs). \<not> final p) \<and>
        (reported EndOfEventMissing t \<longleftrightarrow> \<not> complete cs) \<and> (reported Timeout t \<longleftrightarrow> \<not> complete cs) \<and>
        (reported PacketsMissing t \<longleftrightarrow> (\<exists>p \<in> set cs. lost p)) \<and>
        read_len t = (if defect ?F cs then 0 else int (size_of cs)) \<and>
        (insideEventWithMissingPackets t \<longleftrightarrow> \<not> complete cs \<and> defect ?F cs)"
      unfolding u(2) by (rule exI[of _ k], rule exI[of _ "span H n k"], intro conjI refl R)
  next
    assume "20002 * (length H - n + 1) \<le> length ts"
    then have "20002 * (length H - (n + 0) + 1) \<le> length ts + nat (iloop (read_start s))" by (simp add: read_start_def)
    from loop_returns[OF W(3) assms(10) arrived r assms(5) this] show "readDDU (map (look_at A) ts) m s \<noteq> None"
      by (simp add: readDDU_def)
  qed
qed

lemma size_of_good:
  assumes "\<forall>p \<in> set cs. good p"
  shows "32 * length cs \<le> size_of cs" "8 dvd size_of cs"
  using assms
proof (induction cs rule: rev_induct)
  case (snoc p cs)
  {
    case 1
    then show ?case using snoc.IH(1) by (simp add: good_def)
  next
    case 2
    then have "8 dvd length (bytes p)" by (simp add: good_def mod_eq_0_iff_dvd)
    then show ?case using snoc.IH(2) 2 by simp
  }
qed simp_all

text \<open>C40. An event that waits for the reader is found, while the driver goes on storing packets at any moment:
  when all its packets are there before the call, none of them has been lost, it follows the end of
  another event or the reset, has at most 170980 bytes (the room the driver leaves behind \<^verbatim>\<open>buf_eend\<close>; a
  longer one may be split, see \<open>allowed_event_is_split\<close>), the driver does not come to its place again
  while the call lasts, and the first entry is not written for a new turn of the ring between the first
  and the last read of a round (\<open>no_turn\<close>; the code would report an overwriting then), the call reports no
  error and takes no more rounds than the event has packets. The data it returns are those of the
  packets, in one piece, whenever each of their bytes is looked at, and the length without padding is
  that up to the last word of eight bytes that is not filler. The frames, the start of the reader and
  the turns of the driver are as in C39.\<close>

theorem spy_finds_event:
  assumes "list_all frame_fits (past @ ks)" "start = schar_reset_2 d0" "d = arrive past start"
    and "H = stored_list (past @ ks) start" "loopp H < 2 ^ 14" "in_step H n s" "n + k \<le> length past"
    and "A = moments (length past) ks d" "in_time A ts" "no_turn H A ts" "k \<le> length ts"
    and "cs = span H n k" "complete cs" "\<forall>p \<in> set (butlast cs). \<not> final p" "\<not> defect (insideEventWithMissingPackets s) cs"
    and "n = 0 \<or> final (H ! (n - 1))" "size_of cs \<le> 170980" "\<forall>q. n \<le> q \<and> q < n + k \<longrightarrow> unpassed H q"
    and "\<forall>a. \<exists>x \<in> set A. m a = mem x a"
  shows "\<exists>t. readDDU (map (look_at A) ts) m s = Some t \<and> in_step H (n + k) t \<and>
    \<not> reported EndOfEventMissing t \<and> \<not> reported Timeout t \<and> \<not> reported PacketsMissing t \<and>
    \<not> reported LoopOverwrite t \<and> \<not> reported BufferOverwrite t \<and> \<not> reported Oversized t \<and>
    read_len t = int (size_of cs) \<and>
    map (\<lambda>j. m (buf_data t + j)) [0..<nat (read_len t)] = concat (map bytes cs) \<and>
    theDataLength t = 8 * int (unpadded (eights (concat (map bytes cs))))"
proof -
  let ?F = "insideEventWithMissingPackets s"
  note W = watched_moments[OF assms(1-4,8,9)]
  have nk: "n + k \<le> length H" using assms(7) W(2) by simp
  have r: "reading H n ?F 0 (read_start s)" by (rule reading_start[OF assms(6)])
  have k0: "0 < k" using assms(12,13) by (cases k) (simp_all add: complete_def span_def)
  have arrived: "\<forall>(i, _) \<in> set ts. n + k \<le> tails (A ! i)" using W(4) assms(7) by fastforce
  have "\<exists>u. readDDU_loop (map (look_at A) ts) (read_start s) = Some u \<and> returned H n ?F k u"
    by (rule loop_finds[OF W(3) assms(10) arrived r _ assms(5) W(6) k0])
      (use assms(11-14,18) in \<open>simp_all add: read_start_def\<close>)
  then obtain u where u: "readDDU_loop (map (look_at A) ts) (read_start s) = Some u" "returned H n ?F k u" by blast
  let ?t = "read_end m u"
  have g: "\<forall>p \<in> set cs. good p" using W(6) unfolding assms(12) span_def by (auto dest: in_set_takeD in_set_dropD)
  have "length cs = k" using nk by (simp add: assms(12) span_def)
  then have k: "k < 2 ^ 16" using size_of_good(1)[OF g] assms(17) by simp
  note R = unfold_returned[OF returned_end[OF u(2), of m] assms(12)]
  have b: "buf_data ?t = bufp (take n H)" using R(11) k0 k by blast
  have len: "read_len ?t = int (size_of cs)" using R(9) assms(15) by simp
  have "bufp (take n H) \<le> 16203920" using event_start[of n H] assms(16) nk by simp
  then have "\<forall>i < k. bufp (take (n + i) H) = bufp (take n H) + size_of (span H n i)"
    using in_one_piece[OF W(6) nk] assms(12,14,17) by simp
  moreover have "\<forall>q. n \<le> q \<and> q < n + k \<longrightarrow> data_is m (bufp (take q H)) (H ! q)"
  proof (intro allI impI)
    fix q assume q: "n \<le> q \<and> q < n + k"
    then have "data_kept H q" using assms(18) nk by (intro unpassed_kept) auto
    then have "\<forall>x \<in> set A. data_is (mem x) (bufp (take q H)) (H ! q)" using W(5) q assms(7) by simp
    then show "data_is m (bufp (take q H)) (H ! q)" using assms(19) unfolding data_is_def by metis
  qed
  ultimately have data: "map (\<lambda>j. m (buf_data ?t + j)) [0..<size_of cs] = concat (map bytes cs)"
    unfolding b assms(12) by (intro event_bytes[OF nk])
  obtain c where c: "size_of cs = 8 * c" using size_of_good(2)[OF g] by (auto elim: dvdE)
  have "theDataLength ?t = dataLengthWithoutPadding m (buf_data ?t) (8 * int c)"
    using len unfolding read_end_fields c by simp
  also have "\<dots> = 8 * int (unpadded (eights (concat (map bytes cs))))"
    unfolding data_length words_at_eights c[symmetric] data ..
  finally have pad: "theDataLength ?t = 8 * int (unpadded (eights (concat (map bytes cs))))" .
  have os: "\<not> size_of cs > MAXEVENT_2" using assms(17) by simp
  have "\<not> (\<exists>p \<in> set cs. lost p)" using assms(15) by (auto simp: defect_def)
  then show ?thesis
    using R(1,3-8) assms(13,15) os len data pad u(1) by (intro exI[of _ ?t]) (simp add: readDDU_def del: layout unpadded.simps)
qed

text \<open>A packet of the smallest length, that is an event of its own; a second one comes while the reader looks at it.\<close>

definition small_frame :: skb where "small_frame = \<lparr>skb_data = (\<lambda>i. 0), skb_len = 56\<rparr>"

lemma small_frame_facts:
  fixes d0
  defines "start \<equiv> schar_reset_2 (d0\<lparr>flag_eevent_2 := 1\<rparr>)"
  shows "frame_fits small_frame" "stored_of small_frame start = plain_packet 64 True"
proof -
  show "frame_fits small_frame" by (simp add: frame_fits_def small_frame_def SKB_EXTRA_def MAXPACKET_2_def)
  have "\<not> packet_missing small_frame start" by (simp add: packet_missing_def start_def schar_reset_2_def Let_def)
  moreover have "eevent_mask small_frame start = 0x4000"
    by (simp add: eevent_mask_def start_def schar_reset_2_def ends_event_def small_frame_def SKB_EXTRA_def Let_def)
  ultimately show "stored_of small_frame start = plain_packet 64 True"
    by (simp add: stored_of_def plain_packet_def small_frame_def SKB_EXTRA_def map_replicate_const)
qed

lemma times_replicate: "concat (replicate n [x, x, x, x]) = replicate (4 * n) x"
proof (induction n)
  case (Suc n)
  have "replicate 4 x = [x, x, x, x]" by (simp add: numeral_eq_Suc)
  then show ?case using Suc by (simp add: replicate_add)
qed simp

lemma in_step_reset: "in_step H 0 (spy_reset s)"
  by (simp add: in_step_def spy_reset_def)

text \<open>The moments while the second packet comes: nine of the copying, two of the entry, and the end.\<close>

lemma small_moments:
  "length (moments 1 [small_frame] d) = 12" "words (moments 1 [small_frame] d ! 11) = 2"
  "tails (moments 1 [small_frame] d ! 0) = 1"
  "mem (moments 1 [small_frame] d ! 11) = area (netif_rx_hook_2 small_frame d)"
proof -
  have "[0..<9] = [0, 1, 2, 3, 4, 5, 6, 7, 8 :: nat]" by (simp add: upt_rec)
  then have "moments 1 [small_frame] d = map (\<lambda>i. \<lparr>tails = 1, words = 1, lengths = 1, mem = copied small_frame i d\<rparr>)
      [0, 1, 2, 3, 4, 5, 6, 7, 8] @
     [\<lparr>tails = 1, words = 2, lengths = 1, mem = flagged small_frame d\<rparr>,
      \<lparr>tails = 1, words = 2, lengths = 2, mem = written small_frame d\<rparr>,
      \<lparr>tails = 2, words = 2, lengths = 2, mem = area (netif_rx_hook_2 small_frame d)\<rparr>]"
    by (simp add: moments.simps small_frame_def SKB_EXTRA_def del: upt_Suc)
  then show "length (moments 1 [small_frame] d) = 12" "words (moments 1 [small_frame] d ! 11) = 2"
    "tails (moments 1 [small_frame] d ! 0) = 1"
    "mem (moments 1 [small_frame] d ! 11) = area (netif_rx_hook_2 small_frame d)" by simp_all
qed

lemma two_packets:
  fixes d0
  defines "start \<equiv> schar_reset_2 (d0\<lparr>flag_eevent_2 := 1\<rparr>)"
  defines "H \<equiv> stored_list ([small_frame] @ [small_frame]) start"
  shows "H ! 0 = plain_packet 64 True" "length H = 2" "loopp H = 0" "entp (take 1 H) = 1"
    "loopp (take 1 H) = 0" "span H 0 1 = [plain_packet 64 True]"
proof -
  let ?q = "stored_of small_frame (netif_rx_hook_2 small_frame start)"
  have H: "H = [plain_packet 64 True] @ [?q]" using small_frame_facts(2)[of d0] by (simp add: H_def start_def)
  have one: "loopp [plain_packet 64 True] = 0" "bufp [plain_packet 64 True] = 64" "entp [plain_packet 64 True] = 1"
    using place_snoc[of "[]" "plain_packet 64 True"] by (simp_all add: turns_def plain_packet_def)
  have "\<not> turns [plain_packet 64 True] ?q"
    by (simp add: turns_def one length_stored_of) (simp add: small_frame_def SKB_EXTRA_def)
  then show "loopp H = 0" unfolding H place_snoc one by simp
  show "H ! 0 = plain_packet 64 True" "length H = 2" "entp (take 1 H) = 1" "loopp (take 1 H) = 0"
    "span H 0 1 = [plain_packet 64 True]"
    using one by (simp_all add: H span_def)
qed

lemma spy_reads_in_order_witness:
  "\<forall>d0 s m. \<exists>t k. readDDU (map (look_at (moments 1 [small_frame] (arrive [small_frame] (schar_reset_2 (d0\<lparr>flag_eevent_2 := 1\<rparr>)))))
     ((0, 5, 10, 11) # replicate 60005 (11, 11, 11, 11))) m (spy_reset s) = Some t \<and>
     in_step (stored_list [small_frame, small_frame] (schar_reset_2 (d0\<lparr>flag_eevent_2 := 1\<rparr>))) k t \<and>
     (reported Timeout t \<longleftrightarrow>
       \<not> complete (span (stored_list [small_frame, small_frame] (schar_reset_2 (d0\<lparr>flag_eevent_2 := 1\<rparr>))) 0 k))"
proof (intro allI)
  fix d0 :: hook and s m
  let ?start = "schar_reset_2 (d0\<lparr>flag_eevent_2 := 1\<rparr>)" and ?ts = "(0, 5, 10, 11) # replicate 60005 (11, 11, 11, 11)"
  let ?d = "arrive [small_frame] ?start" and ?H = "stored_list ([small_frame] @ [small_frame]) ?start"
  let ?A = "moments 1 [small_frame] ?d" and ?F = "insideEventWithMissingPackets (spy_reset s)"
  have f: "list_all frame_fits ([small_frame] @ [small_frame])" using small_frame_facts(1) by simp
  note T = two_packets[of d0] and M = small_moments[of ?d]
  have A: "?A = moments (length [small_frame]) [small_frame] ?d" by simp
  have l: "loopp ?H < 2 ^ 14" using T(3) by simp
  have it: "in_time ?A ?ts" unfolding in_time_def M(1) by (simp add: times_replicate list_all_iff)
  note W = watched_moments[OF f refl refl refl A it]
  have ts: "x = (0, 5, 10, 11) \<or> x = (11, 11, 11, 11)" if "x \<in> set ?ts" for x using that by auto
  have "\<not> torn ?H q x y" if "y \<in> set ?A" for q x y
  proof
    assume "torn ?H q x y"
    then obtain p where p: "q < p" "entp (take p ?H) = entp (take q ?H)" "p < lengths y" by (auto simp: torn_def)
    have "lengths y \<le> 2" using W(3) that T(2) by (auto simp: watched_def observed_def)
    then have "q = 0" "p = 1" using p(1,3) by simp_all
    then show False using p(2) T(4) by simp
  qed
  moreover have "?A ! 10 \<in> set ?A" "?A ! 11 \<in> set ?A" by (rule nth_mem, unfold M(1), simp)+
  ultimately have wh: "whole ?H 0 ?A ?ts"
    unfolding whole_def by (intro ballI) (use ts in fastforce)
  note P = spy_reads_in_order[OF f refl refl refl l in_step_reset le0 A it wh, of m s]
  have "readDDU (map (look_at ?A) ?ts) m (spy_reset s) \<noteq> None" using conjunct2[OF P] T(2) by simp
  then obtain t where t: "readDDU (map (look_at ?A) ?ts) m (spy_reset s) = Some t" by blast
  have nt: "no_turn ?H ?A ?ts"
    using ts M(2) T(2,3) unfolding no_turn_def by (fastforce simp: first_loop_def)
  have r: "reading ?H 0 ?F 0 (read_start (spy_reset s))" by (rule reading_start[OF in_step_reset])
  have "\<exists>u. readDDU_loop (map (look_at ?A) ?ts) (read_start (spy_reset s)) = Some u \<and> returned ?H 0 ?F 1 u"
  proof (rule loop_finds[OF W(3) nt _ r _ l W(6)])
    show "\<forall>(i, _) \<in> set ?ts. 0 + 1 \<le> tails (?A ! i)" using W(4) by simp
    show "complete (span ?H 0 1)" "\<forall>p \<in> set (butlast (span ?H 0 1)). \<not> final p"
      unfolding T(6) by (simp_all add: complete_def plain_packet_def)
    show "\<forall>q. 0 + 0 \<le> q \<and> q < 0 + 1 \<longrightarrow> unpassed ?H q" using T(3) by (simp add: unpassed_def)
  qed (simp_all add: read_start_def)
  then obtain u where u: "t = read_end m u" "returned ?H 0 ?F 1 u" using t by (auto simp: readDDU_def)
  have "\<not> reported LoopOverwrite t" "\<not> reported BufferOverwrite t"
    unfolding u(1) using unfold_returned(6,7)[OF returned_end[OF u(2)] refl] by blast+
  then show "\<exists>t k. readDDU (map (look_at ?A) ?ts) m (spy_reset s) = Some t \<and>
      in_step (stored_list [small_frame, small_frame] ?start) k t \<and>
      (reported Timeout t \<longleftrightarrow> \<not> complete (span (stored_list [small_frame, small_frame] ?start) 0 k))"
    using conjunct1[OF P, rule_format, of t] t by (intro exI[of _ t]) (simp only: add_0_left append.simps, blast)
qed

lemma spy_finds_event_witness:
  "\<forall>d0 s. \<exists>t. readDDU (map (look_at (moments 1 [small_frame] (arrive [small_frame] (schar_reset_2 (d0\<lparr>flag_eevent_2 := 1\<rparr>)))))
       [(0, 5, 10, 11)])
     (area (arrive [small_frame, small_frame] (schar_reset_2 (d0\<lparr>flag_eevent_2 := 1\<rparr>)))) (spy_reset s) = Some t \<and>
     \<not> reported EndOfEventMissing t \<and> \<not> reported Timeout t \<and> read_len t = 64 \<and> theDataLength t = 64"
proof (intro allI)
  fix d0 :: hook and s
  let ?start = "schar_reset_2 (d0\<lparr>flag_eevent_2 := 1\<rparr>)" and ?p = "plain_packet 64 True" and ?ts = "[(0, 5, 10, 11)]"
  let ?d = "arrive [small_frame] ?start" and ?H = "stored_list ([small_frame] @ [small_frame]) ?start"
  let ?A = "moments 1 [small_frame] ?d" and ?m = "area (arrive [small_frame, small_frame] ?start)"
  have f: "list_all frame_fits ([small_frame] @ [small_frame])" using small_frame_facts(1) by simp
  note T = two_packets[of d0] and M = small_moments[of ?d]
  have A: "?A = moments (length [small_frame]) [small_frame] ?d" by simp
  have l: "loopp ?H < 2 ^ 14" "0 + 1 \<le> length [small_frame]" using T(3) by simp_all
  have it: "in_time ?A ?ts" unfolding in_time_def M(1) by simp
  have nt: "no_turn ?H ?A ?ts" using T(3) M(2) by (simp add: no_turn_def first_loop_def T(2))
  have e: "complete [?p]" "\<forall>p \<in> set (butlast [?p]). \<not> final p" "\<not> defect (insideEventWithMissingPackets (spy_reset s)) [?p]"
    "size_of [?p] \<le> 170980" "[?p] = span ?H 0 1"
    using T(6) by (simp_all add: complete_def defect_def size_of_def plain_packet_def spy_reset_def)
  have u: "\<forall>q. 0 \<le> q \<and> q < 0 + 1 \<longrightarrow> unpassed ?H q" using T(3) by (simp add: unpassed_def)
  have "?A ! 11 \<in> set ?A" using M(1) by (intro nth_mem) simp
  then have m: "\<forall>a. \<exists>x \<in> set ?A. ?m a = mem x a" using M(4) by (intro allI bexI[of _ "?A ! 11"]) simp_all
  have n: "unpadded (eights (replicate 64 0)) = 8"
  proof -
    have "eights (replicate 64 0) = replicate 8 (replicate 8 0)"
      using eights_map[of "\<lambda>_. 0" 0 8] by (simp add: map_replicate_const)
    moreover have "\<not> filler_word (replicate 8 0)" by (simp add: filler_word_def)
    ultimately show ?thesis by simp
  qed
  obtain t where t: "readDDU (map (look_at ?A) ?ts) ?m (spy_reset s) = Some t"
    "\<not> reported EndOfEventMissing t" "\<not> reported Timeout t" "read_len t = int (size_of [?p])"
    "theDataLength t = 8 * int (unpadded (eights (concat (map bytes [?p]))))"
    using spy_finds_event[OF f refl refl refl l(1) in_step_reset l(2) A it nt _ e(5) e(1-3) _ e(4) u m] by auto
  have "size_of [?p] = 64" "concat (map bytes [?p]) = replicate 64 0" by (simp_all add: size_of_def plain_packet_def)
  then show "\<exists>t. readDDU (map (look_at ?A) ?ts) ?m (spy_reset s) = Some t \<and>
     \<not> reported EndOfEventMissing t \<and> \<not> reported Timeout t \<and> read_len t = 64 \<and> theDataLength t = 64"
    using t n by (intro exI[of _ t]) simp
qed

end
