(* ===== verification/Spec2Isabelle.thy ===== *)
theory Spec2Isabelle
  imports Prom Jtag_Link Tmb_Board Examiner_Inv Examiner_Chunks Spy_Events
begin

text \<open>
  EMU peripheral control: the online software that drives the VME crates of the CMS cathode strip
  chambers.

  The program. \<^verbatim>\<open>src/TriDAS/emu/emuDCS/PeripheralCore\<close> is the library with which the online software
  of the EMU system drives the VME crates on the detector. A crate holds trigger motherboards (class
  \<^verbatim>\<open>TMB\<close>), DAQ motherboards, one clock and control board, one port card and a VME controller; each
  board class keeps two copies of its registers (the values to write, the values last read), packs
  and unpacks the 16-bit VME words, writes the configuration and checks it against what the board
  reports. While it is configured a \<^verbatim>\<open>TMB\<close> can record its writes; the class \<^verbatim>\<open>EMUjtag\<close> turns the
  record into the image of a user PROM, the image into an XSVF program, and plays the program on the
  JTAG chain of the board. The control applications and the timing scans of \<^verbatim>\<open>ChamberUtilities\<close> are
  built on top. The events of the detector come to the readout PCs as Ethernet frames: a kernel driver
  stores them in a ring (\<^verbatim>\<open>drivers/e1000hook\<close>), class \<^verbatim>\<open>Spy\<close> of \<^verbatim>\<open>daq/reader\<close> takes whole events out of it,
  and the class \<^verbatim>\<open>dduBinExaminer\<close> checks the words of an event.

  Theories.
  \<^item> \<^verbatim>\<open>Prelude\<close>: generic facts on bits, list and function updates.
  \<^item> \<^verbatim>\<open>Bits\<close>: the bit routines of \<^verbatim>\<open>EMUjtag.cc\<close> and \<^verbatim>\<open>TMB.cc\<close>, and the locale \<open>bit_codec\<close>, the contract
    of insertion and extraction the register code relies on, interpreted on the two TMB routines.
  \<^item> \<^verbatim>\<open>TMB_Constants\<close>: the addresses, field positions, defaults and expected values of
    \<^verbatim>\<open>TMB_constants.h\<close>.
  \<^item> \<^verbatim>\<open>TMB_Registers\<close>: the members of the class, \<^verbatim>\<open>DecodeTMBRegister_\<close>, \<^verbatim>\<open>FillTMBRegister\<close>, the hot
    channel maps and the digital phases.
  \<^item> \<^verbatim>\<open>TMB_Config\<close>: defaults, \<^verbatim>\<open>ReadRegister\<close>, \<^verbatim>\<open>WriteRegister\<close>, \<^verbatim>\<open>configure\<close>,
    \<^verbatim>\<open>ReadTMBConfiguration\<close>, \<^verbatim>\<open>CheckTMBConfiguration\<close> and the checks of the state machines.
  \<^item> \<^verbatim>\<open>TMB_Codec\<close>, \<^verbatim>\<open>TMB_Check\<close>, \<^verbatim>\<open>TMB_Configure\<close>: the lemmas on these definitions and the properties.
  \<^item> \<^verbatim>\<open>Jtag\<close>: the chains of \<^verbatim>\<open>EMUjtag.cc\<close>, the packing of bits into characters and the shifting into the
    instruction and data registers, against a reference chain of shift registers.
  \<^item> \<^verbatim>\<open>Xsvf\<close>: the routines that write XSVF commands and \<^verbatim>\<open>DecodeXsvfImage_\<close>; the decoder of a written
    program is proved equal to playing the commands directly (\<open>play\<close>), and to return.
  \<^item> \<^verbatim>\<open>Prom_Image\<close>, \<^verbatim>\<open>Prom_Program\<close>, \<^verbatim>\<open>Prom\<close>: the image of a user PROM, the program that writes it, the
    check against the chip and the attempts of \<^verbatim>\<open>CheckAndProgramProm\<close>.
  \<^item> \<^verbatim>\<open>Vcc\<close>: the packets of the VME controller, \<^verbatim>\<open>VMEController.cc\<close>; \<^verbatim>\<open>Vcc_Bus\<close>: a reference bus that
    executes one operation at a time, the crate controller as a predicate on the link, and the
    refinement of one call; \<^verbatim>\<open>Vcc_Calls\<close>: sequences of calls, sizes, errors and delays.
  \<^item> \<^verbatim>\<open>Vme_Jtag\<close>: the bit-banged JTAG of \<^verbatim>\<open>VMEController_jtag.cc\<close>; \<^verbatim>\<open>Tap\<close>: the standard TAP state machine
    and a board register that drives it; \<^verbatim>\<open>Tap_Scan\<close>: what the scans do to it.
  \<^item> \<^verbatim>\<open>Tmb_Vme\<close>: the accesses of \<^verbatim>\<open>VMEModule.cc\<close> and of the TMB; \<^verbatim>\<open>Jtag_Link\<close>: the locale \<open>scan_chain\<close>, what
    the JTAG class needs of its port, interpreted on a bare chain and on the VME controller.
  \<^item> \<^verbatim>\<open>Tmb_Board\<close>: the registers of a TMB behind the controller; the locale \<open>board_sim\<close> carries the
    configuration and its check from the bare board of \<^verbatim>\<open>TMB_Configure\<close> to it.
  \<^item> \<^verbatim>\<open>Crc22\<close>: the check sum of the trigger data, in \<^verbatim>\<open>TMB.cc\<close> and in the event checker.
  \<^item> \<^verbatim>\<open>Examiner\<close>: the checker of the event data, \<^verbatim>\<open>dduBinExaminer.cc\<close>, one definition per block of its
    loop; \<^verbatim>\<open>Examiner_Words\<close>: the words it tells apart and what a round does with each;
    \<^verbatim>\<open>Examiner_Inv\<close>: its reports agree in every reachable state.
  \<^item> \<^verbatim>\<open>Examiner_Run\<close>: the loop of the checker as a fold over the words; \<^verbatim>\<open>Examiner_Blocks\<close>: a description of
    the data as records with ALCT and TMB blocks and CFEB samples, and what each block does to the
    checker; \<^verbatim>\<open>Examiner_Event\<close>: what \<^verbatim>\<open>check\<close> reports on an event, in terms of its description;
    \<^verbatim>\<open>Examiner_Chunks\<close>: data that come in several buffers.
  \<^item> \<^verbatim>\<open>Eth_Hook\<close>: the driver of the spy channel, \<^verbatim>\<open>eth_hook_2.c\<close>; \<^verbatim>\<open>Spy_Reader\<close>: its reader, \<^verbatim>\<open>Spy.cc\<close>;
    \<^verbatim>\<open>Eth_Ring\<close>: the history of the packets and what the shared area holds of it at every moment
    of the driver; \<^verbatim>\<open>Spy_Events\<close>: what the
    reader finds while the driver goes on writing.
  Modelling. The C++ members \<^verbatim>\<open>X_\<close> and \<^verbatim>\<open>read_X_\<close> are the two maps \<open>wr\<close> and \<open>rd\<close> of the record \<open>tmb\<close>,
  indexed by the register field of \<^verbatim>\<open>X\<close> (an address and a range of bits, unique to it). The branches of
  the decoder and of the filler are lists of fields; the two else-if chains are association lists.
  The VME bus, the JTAG port of the board and the PROM chips are parameters: functions on a state of
  any type. What a property needs of them is a named predicate (\<open>faithful_board\<close>, \<open>serial_proms\<close>) with
  a concrete instance in its witness. Members the constructor leaves unset keep the contents of an
  arbitrary initial object. The date of \<^verbatim>\<open>localtime\<close> is a parameter.

  The buffers of the VME controller are the lists of the bytes in use, its function statics fields of
  its record. The crate is a parameter, the link that takes a packet and gives frames; \<open>vcc_serves\<close>
  states what a crate controller does with a packet, with a decoder of the packets as its instance.

  The area that the driver of the spy channel and the reader share is one memory of bytes, addressed from
  \<^verbatim>\<open>buf_start\<close>. The reader takes no lock. \<open>moments\<close> of \<^verbatim>\<open>Eth_Ring\<close> are the areas between the stores of
  the driver: each word of eight bytes of the copy, the word with loop and flags, the length, the write
  pointer. The four reads of a round of \<^verbatim>\<open>readDDU\<close> (\<open>look\<close>) each see the area at a moment of their own, in
  their order; that they see whole stores in the order the driver makes them (aligned accesses of a
  machine that keeps their order) is the assumption of this model. An entry whose word and length
  are read on different sides of a packet written into it is torn; the code cannot tell, so
  \<open>spy_reads_in_order\<close> excludes it (\<open>whole\<close>). \<open>spy_finds_event\<close> needs that no packet of a new turn comes into
  the first entry within a round (\<open>no_turn\<close>), for which the code would report an overwriting.
  The loop is structural in the rounds to come and \<open>None\<close> when they do not end it: 20001 rounds without
  a new packet end it with a timeout, so 20002 rounds for each packet there is are enough, which
  \<open>spy_reads_in_order\<close> proves. The turns of the ring are told apart by a loop number of 14 bits, so the
  properties assume fewer than 2 ^ 14 turns since the reset.

  The board of the configuration properties (\<open>faithful_board\<close>, \<open>keeps_registers\<close>) keeps the writable bits of
  each register; \<^verbatim>\<open>cfebs_enabled\<close> of 0x68 is a copy of the CFEBs enabled in 0x42 as long as
  \<^verbatim>\<open>cfeb_enable_source\<close> is set, as \<^verbatim>\<open>TMB.h\<close> and \<^verbatim>\<open>CheckTMBConfiguration\<close> have it. The events of
  \<^verbatim>\<open>Examiner_Event\<close> have the two header words of a DMB, 0x9xxx, which \<^verbatim>\<open>check\<close> only counts, and 0xAxxx.
  Errors. An access the code makes outside an array, and the exception of \<^verbatim>\<open>at\<close>, are values of
  \<open>xsvf_error\<close>; \<open>None\<close> of a \<open>partial_function\<close> is a loop that does not end.

  Bounds. The check reads the configuration at most \<^verbatim>\<open>max_number_of_reads\<close> times (2 by default) and
  its loop is structural in that number; the attempts to program a PROM are structural in the three
  the code allows. C integers are unbounded where no value can leave 32 bits.

  Not modelled: printing and logging, files on disk, the databases, the applications and web pages, which
  are XDAQ and SOAP code around the parts above; the drivers of the network cards and the set-up of the
  spy channel in the kernel; the other boards (\<^verbatim>\<open>DAQMB\<close>, \<^verbatim>\<open>DCFEB\<close>, \<^verbatim>\<open>ALCTController\<close>, \<^verbatim>\<open>CCB\<close>, \<^verbatim>\<open>MPC\<close>) and the
  counters and tests of the \<^verbatim>\<open>TMB\<close>, which are long sequences of the accesses modelled here with waits and
  prints between them and were left out for their size.
\<close>

end
